(* ===== verification/Go_Prelude.thy ===== *)
theory Go_Prelude
  imports Main "HOL-Library.Word" "HOL-Library.AList" "HOL-Library.Multiset"
begin

unbundle bit_operations_syntax

text \<open>
  What the components of the model share: the machine integer types of Go under their Go
  names, Go byte strings, the errors the modelled functions return, the explicit-state
  reader type, Go maps with their iteration order, and the lemma collections.

  Conventions. A Go \<open>string\<close> or \<open>[]byte\<close> is a list of bytes. \<open>int\<close>, which is 64 bits wide
  on the supported platforms, is the unbounded \<open>int\<close> or \<open>nat\<close> where it counts elements of a
  slice, since no slice comes near \<open>2 ^ 63\<close> elements. A float is only ever moved by the
  modelled code, never computed with, so it is kept as its IEEE bit pattern.
\<close>

section \<open>Machine integers and strings\<close>

type_synonym u8 = "8 word"
type_synonym u16 = "16 word"
type_synonym u32 = "32 word"
type_synonym u64 = "64 word"
type_synonym bytes = "u8 list"
type_synonym gostring = "u8 list"

text \<open>A bit test \<open>x & flag != 0\<close>.\<close>

definition has_flag :: "'a::len word \<Rightarrow> 'a word \<Rightarrow> bool" where
  "has_flag x f \<longleftrightarrow> x AND f \<noteq> 0"

text \<open>Conversions of Go between 32-bit integers, on mathematical integers.\<close>

definition to_u32 :: "int \<Rightarrow> int" where
  "to_u32 x = x mod 2 ^ 32"

definition to_i32 :: "int \<Rightarrow> int" where
  "to_i32 x = (x + 2 ^ 31) mod 2 ^ 32 - 2 ^ 31"

lemma to_u32_id [simp]: "0 \<le> x \<Longrightarrow> x < 4294967296 \<Longrightarrow> to_u32 x = x"
  by (simp add: to_u32_def)

lemma to_u32_range [simp]: "0 \<le> to_u32 x" "to_u32 x < 4294967296"
  by (simp_all add: to_u32_def)

lemma to_i32_id [simp]: "- 2147483648 \<le> x \<Longrightarrow> x < 2147483648 \<Longrightarrow> to_i32 x = x"
  by (simp add: to_i32_def)

lemma to_i32_range [simp]: "- 2147483648 \<le> to_i32 x" "to_i32 x < 2147483648"
  by (simp_all add: to_i32_def)

text \<open>Division of Go rounds towards zero.\<close>

definition go_div :: "int \<Rightarrow> int \<Rightarrow> int" where
  "go_div a b = sgn a * sgn b * (\<bar>a\<bar> div \<bar>b\<bar>)"

lemma go_div_nonneg [simp]: "0 \<le> a \<Longrightarrow> 0 < b \<Longrightarrow> go_div a b = a div b"
  by (cases "a = 0") (simp_all add: go_div_def)

section \<open>Time\<close>

text \<open>
  A time is a number of nanoseconds since 1970; \<open>zero_time\<close> is \<open>time.Time{}\<close>, the first of January of year one.
\<close>

definition zero_time :: int where "zero_time = -62135596800 * 1000000000"

section \<open>Errors\<close>

text \<open>
  \<open>ErrEOF\<close> is \<open>io.ErrUnexpectedEOF\<close>, \<open>ErrIOEOF\<close> is \<open>io.EOF\<close>; \<open>Err msg\<close> is \<open>errors.New(msg)\<close>; \<open>Panic\<close> is a run-time
  panic. A fallible function returns a sum with the error on the left.
\<close>

datatype go_error = ErrEOF | ErrIOEOF | Err string | Panic

section \<open>Bit lists\<close>

lemma has_flag_0 [simp]: "\<not> has_flag 0 f"
  by (simp add: has_flag_def)

lemma has_flag_bit: "has_flag x f \<longleftrightarrow> (\<exists>i < LENGTH('a). bit x i \<and> bit f i)"
  for x f :: "'a::len word"
  by (auto simp: has_flag_def bit_eq_iff bit_simps dest: bit_imp_le_length)

lemma has_flag_or: "has_flag (x OR y) f \<longleftrightarrow> has_flag x f \<or> has_flag y f"
  by (auto simp: has_flag_bit bit_or_iff)

section \<open>Go maps\<close>

text \<open>
  A Go map is an association list with distinct keys. The order of the list stands for the
  order in which \<open>range\<close> happens to visit the map: Go leaves it open, and a theorem about all
  lists is a theorem about every order. Assigning to a present key keeps its place.
\<close>

type_synonym ('k, 'v) gomap = "('k \<times> 'v) list"

definition gget :: "('k, 'v) gomap \<Rightarrow> 'k \<Rightarrow> 'v option" where
  "gget m k = map_of m k"

definition gput :: "'k \<Rightarrow> 'v \<Rightarrow> ('k, 'v) gomap \<Rightarrow> ('k, 'v) gomap" where
  "gput k v m = AList.update k v m"

definition gdel :: "'k \<Rightarrow> ('k, 'v) gomap \<Rightarrow> ('k, 'v) gomap" where
  "gdel k m = AList.delete k m"

definition gkeys :: "('k, 'v) gomap \<Rightarrow> 'k list" where
  "gkeys m = map fst m"

definition gmap_ok :: "('k, 'v) gomap \<Rightarrow> bool" where
  "gmap_ok m \<longleftrightarrow> distinct (map fst m)"

definition gmap_vals :: "('k \<Rightarrow> 'v \<Rightarrow> 'w) \<Rightarrow> ('k, 'v) gomap \<Rightarrow> ('k, 'w) gomap" where
  "gmap_vals f m = map (\<lambda>(k, v). (k, f k v)) m"

text \<open>
  What a client may rely on: the laws of look-up, store, delete and the key list. The client
  lemmas below are proved from the laws alone.
\<close>

locale go_map =
  fixes get :: "'m \<Rightarrow> 'k \<Rightarrow> 'v option"
    and put :: "'k \<Rightarrow> 'v \<Rightarrow> 'm \<Rightarrow> 'm"
    and del :: "'k \<Rightarrow> 'm \<Rightarrow> 'm"
    and keys :: "'m \<Rightarrow> 'k list"
    and ok :: "'m \<Rightarrow> bool"
  assumes get_put: "get (put k v m) k' = (if k' = k then Some v else get m k')"
    and get_del: "get (del k m) k' = (if k' = k then None else get m k')"
    and keys_get: "k \<in> set (keys m) \<longleftrightarrow> get m k \<noteq> None"
    and ok_put: "ok m \<Longrightarrow> ok (put k v m)"
    and ok_del: "ok m \<Longrightarrow> ok (del k m)"
    and ok_distinct: "ok m \<Longrightarrow> distinct (keys m)"
begin

lemma keys_put: "set (keys (put k v m)) = insert k (set (keys m))"
  by (auto simp: keys_get get_put split: if_splits)

lemma keys_del: "set (keys (del k m)) = set (keys m) - {k}"
  by (auto simp: keys_get get_del split: if_splits)

lemma get_fold_del: "get (fold del ks m) k = (if k \<in> set ks then None else get m k)"
  by (induction ks arbitrary: m) (auto simp: get_del)

lemma ok_fold_del: "ok m \<Longrightarrow> ok (fold del ks m)"
  by (induction ks arbitrary: m) (auto simp: ok_del)

lemma get_fold_put:
  "get (fold (\<lambda>k. put k (f k)) ks m) k = (if k \<in> set ks then Some (f k) else get m k)"
  by (induction ks arbitrary: m) (auto simp: get_put)

lemma ok_fold_put: "ok m \<Longrightarrow> ok (fold (\<lambda>k. put k (f k)) ks m)"
  by (induction ks arbitrary: m) (auto simp: ok_put)

lemma length_keys_put_new:
  "ok m \<Longrightarrow> get m k = None \<Longrightarrow> length (keys (put k v m)) = Suc (length (keys m))"
  using distinct_card [OF ok_distinct [OF ok_put]] distinct_card [OF ok_distinct]
  by (metis card_insert_disjoint keys_get keys_put List.finite_set)

end

interpretation gm: go_map gget gput gdel gkeys gmap_ok
proof unfold_locales
  fix k k' :: 'k and v :: 'v and m :: "('k, 'v) gomap"
  show "gget (gput k v m) k' = (if k' = k then Some v else gget m k')"
    by (simp add: gget_def gput_def update_conv')
  show "gget (gdel k m) k' = (if k' = k then None else gget m k')"
    by (simp add: gget_def gdel_def delete_conv')
  show "(k \<in> set (gkeys m)) = (gget m k \<noteq> None)"
    by (simp add: gget_def gkeys_def map_of_eq_None_iff)
  show "gmap_ok m \<Longrightarrow> gmap_ok (gput k v m)"
    by (simp add: gmap_ok_def gput_def distinct_update)
  show "gmap_ok m \<Longrightarrow> gmap_ok (gdel k m)"
    by (simp add: gmap_ok_def gdel_def distinct_delete)
  show "gmap_ok m \<Longrightarrow> distinct (gkeys m)"
    by (simp add: gmap_ok_def gkeys_def)
qed

named_theorems gomap_simps

lemmas [gomap_simps] = gm.get_put gm.get_del gm.keys_put gm.keys_del gm.get_fold_del

lemma gget_Nil [simp]: "gget [] k = None"
  by (simp add: gget_def)

lemma gget_Cons [simp]: "gget ((k, v) # m) k' = (if k' = k then Some v else gget m k')"
  by (simp add: gget_def)

lemma gkeys_Nil [simp]: "gkeys [] = []"
  by (simp add: gkeys_def)

lemma gkeys_Cons [simp]: "gkeys (p # m) = fst p # gkeys m"
  by (simp add: gkeys_def)

lemma gget_map_vals [simp]: "gget (gmap_vals f m) k = map_option (f k) (gget m k)"
  by (induction m) (auto simp: gget_def gmap_vals_def)

lemma gkeys_map_vals [simp]: "gkeys (gmap_vals f m) = gkeys m"
  by (induction m) (auto simp: gkeys_def gmap_vals_def)

lemma gmap_ok_map_vals [simp]: "gmap_ok (gmap_vals f m) = gmap_ok m"
  by (simp add: gmap_ok_def gmap_vals_def comp_def case_prod_unfold)

lemma gmap_ok_Nil [simp]: "gmap_ok []"
  by (simp add: gmap_ok_def)

lemma gmap_ok_Cons [simp]: "gmap_ok (p # m) \<longleftrightarrow> fst p \<notin> set (gkeys m) \<and> gmap_ok m"
  by (simp add: gmap_ok_def gkeys_def)

lemma gget_in_set: "gget m k = Some v \<Longrightarrow> (k, v) \<in> set m"
  by (simp add: gget_def map_of_SomeD)

lemma in_set_gget: "gmap_ok m \<Longrightarrow> (k, v) \<in> set m \<Longrightarrow> gget m k = Some v"
  by (simp add: gget_def gmap_ok_def)

lemma gget_keys: "gget m k = Some v \<Longrightarrow> k \<in> set (gkeys m)"
  by (simp add: gm.keys_get)

lemma gmap_ok_filter [simp]: "gmap_ok m \<Longrightarrow> gmap_ok (filter P m)"
  by (simp add: gmap_ok_def distinct_map_filter)

lemma gget_filter:
  "gmap_ok m \<Longrightarrow> gget (filter P m) k =
     (case gget m k of None \<Rightarrow> None | Some v \<Rightarrow> if P (k, v) then Some v else None)"
proof (induction m)
  case (Cons p m)
  obtain k' v where p: "p = (k', v)" by (cases p)
  with Cons.prems have "k' \<notin> set (gkeys m)" by simp
  then have "gget m k' = None" by (simp add: gm.keys_get)
  with Cons p show ?case by auto
qed simp

lemma gmap_ok_gput [simp]: "gmap_ok m \<Longrightarrow> gmap_ok (gput k v m)"
  by (rule gm.ok_put)

lemma gmap_ok_gdel [simp]: "gmap_ok m \<Longrightarrow> gmap_ok (gdel k m)"
  by (rule gm.ok_del)

lemma gget_filter_Some:
  "gmap_ok m \<Longrightarrow> gget (filter P m) k = Some v \<longleftrightarrow> gget m k = Some v \<and> P (k, v)"
  by (auto simp: gget_filter split: option.splits)

text \<open>An invariant of a loop over a list.\<close>

lemma fold_invariant_simple:
  assumes "\<And>x s. x \<in> set xs \<Longrightarrow> I s \<Longrightarrow> I (f x s)" and "I s"
  shows "I (fold f xs s)"
  using assms by (induction xs arbitrary: s) auto

section \<open>Results and loops\<close>

definition res_bind :: "go_error + 'a \<Rightarrow> ('a \<Rightarrow> go_error + 'b) \<Rightarrow> go_error + 'b" where
  "res_bind r f = (case r of Inl e \<Rightarrow> Inl e | Inr x \<Rightarrow> f x)"

text \<open>A loop over a list that stops at the first error.\<close>

fun res_fold :: "('a \<Rightarrow> 's \<Rightarrow> go_error + 's) \<Rightarrow> 'a list \<Rightarrow> 's \<Rightarrow> go_error + 's" where
  "res_fold f [] s = Inr s"
| "res_fold f (x # xs) s = res_bind (f x s) (res_fold f xs)"

lemma res_bind_Inr [simp]: "res_bind (Inr x) f = f x"
  by (simp add: res_bind_def)

lemma res_bind_eq_Inr: "res_bind r f = Inr y \<longleftrightarrow> (\<exists>x. r = Inr x \<and> f x = Inr y)"
  by (simp add: res_bind_def split: sum.split)

lemma res_fold_invariant:
  assumes "res_fold f xs s = Inr s'" "P s" "\<And>x s s'. P s \<Longrightarrow> f x s = Inr s' \<Longrightarrow> P s'"
  shows "P s'"
  using assms(1,2) by (induction xs arbitrary: s) (auto simp: res_bind_eq_Inr dest: assms(3))

section \<open>Numerals\<close>

text \<open>\<open>strconv.Itoa\<close> of a number that is not negative.\<close>

fun decimal :: "nat \<Rightarrow> gostring" where
  "decimal n = (if n < 10 then [48 + of_nat n] else decimal (n div 10) @ [48 + of_nat (n mod 10)])"

declare decimal.simps [simp del]

end
