(* ===== verification/Wire.thy ===== *)
theory Wire
  imports Go_Prelude
begin

text \<open>
  \<^verbatim>\<open>pkg/protocol/buffer.go\<close>: the packet buffer. A \<open>Buffer\<close> is its bytes and its read position.
  Writers append, readers advance the position and fail with \<open>io.ErrUnexpectedEOF\<close>, leaving the
  state they have reached. The \<open>codec\<close> locale is the contract between a writer and a reader of
  the same value; every pair of the file is an instance of it.
\<close>

section \<open>The buffer\<close>

record buffer =
  buf_data :: bytes
  buf_pos :: nat

type_synonym 'a reader = "buffer \<Rightarrow> (go_error + 'a) \<times> buffer"
type_synonym writer = "buffer \<Rightarrow> buffer"
type_synonym f32 = "u32"
type_synonym f64 = "u64"

definition NewBuffer :: "int \<Rightarrow> buffer" where
  "NewBuffer capacity = \<lparr>buf_data = [], buf_pos = 0\<rparr>"

definition NewReader :: "bytes \<Rightarrow> buffer" where
  "NewReader d = \<lparr>buf_data = d, buf_pos = 0\<rparr>"

definition Bytes :: "buffer \<Rightarrow> bytes" where
  "Bytes b = buf_data b"

definition Len :: "buffer \<Rightarrow> nat" where
  "Len b = length (buf_data b)"

definition Remaining :: "buffer \<Rightarrow> int" where
  "Remaining b = int (length (buf_data b)) - int (buf_pos b)"

definition ResetRead :: "buffer \<Rightarrow> buffer" where
  "ResetRead b = b\<lparr>buf_pos := 0\<rparr>"

definition SetPosition :: "int \<Rightarrow> buffer \<Rightarrow> go_error + buffer" where
  "SetPosition pos b =
     (if pos < 0 \<or> pos > int (length (buf_data b))
      then Inl (Err ''protocol buffer position out of range'')
      else Inr (b\<lparr>buf_pos := nat pos\<rparr>))"

text \<open>\<open>Put\<close> overwrites in place; the length never changes.\<close>

definition Put :: "int \<Rightarrow> bytes \<Rightarrow> buffer \<Rightarrow> go_error + buffer" where
  "Put pos d b =
     (if pos < 0 \<or> pos + int (length d) > int (length (buf_data b))
      then Inl (Err ''protocol buffer put out of range'')
      else Inr (b\<lparr>buf_data := take (nat pos) (buf_data b) @ d
                    @ drop (nat pos + length d) (buf_data b)\<rparr>))"

section \<open>Writers\<close>

text \<open>\<open>binary.LittleEndian\<close> of the standard library, for a word of \<open>n\<close> bytes.\<close>

definition le_bytes :: "nat \<Rightarrow> 'a::len word \<Rightarrow> bytes" where
  "le_bytes n w = map (\<lambda>i. ucast (drop_bit (8 * i) w)) [0..<n]"

primrec of_le_bytes :: "bytes \<Rightarrow> 'a::len word" where
  "of_le_bytes [] = 0"
| "of_le_bytes (b # bs) = ucast b OR push_bit 8 (of_le_bytes bs)"

definition Write :: "bytes \<Rightarrow> writer" where
  "Write d b = b\<lparr>buf_data := buf_data b @ d\<rparr>"

definition WriteU8 :: "u8 \<Rightarrow> writer" where
  "WriteU8 v = Write [v]"

definition WriteBool :: "bool \<Rightarrow> writer" where
  "WriteBool v = (if v then Write [1] else Write [0])"

definition WriteU16 :: "u16 \<Rightarrow> writer" where
  "WriteU16 v = Write (le_bytes 2 v)"

definition WriteU32 :: "u32 \<Rightarrow> writer" where
  "WriteU32 v = Write (le_bytes 4 v)"

definition WriteU64 :: "u64 \<Rightarrow> writer" where
  "WriteU64 v = Write (le_bytes 8 v)"

text \<open>Signed values are integers in range; the conversion to unsigned keeps the low bits.\<close>

definition WriteI8 :: "int \<Rightarrow> writer" where
  "WriteI8 v = WriteU8 (word_of_int v)"

definition WriteI16 :: "int \<Rightarrow> writer" where
  "WriteI16 v = WriteU16 (word_of_int v)"

definition WriteI32 :: "int \<Rightarrow> writer" where
  "WriteI32 v = WriteU32 (word_of_int v)"

definition WriteI64 :: "int \<Rightarrow> writer" where
  "WriteI64 v = WriteU64 (word_of_int v)"

definition WriteF32 :: "f32 \<Rightarrow> writer" where
  "WriteF32 v = WriteU32 v"

definition WriteF64 :: "f64 \<Rightarrow> writer" where
  "WriteF64 v = WriteU64 v"

text \<open>A sequence of writer calls on one buffer, in program order, and a guarded call.\<close>

definition writes :: "writer list \<Rightarrow> writer" where
  "writes ws b = fold (\<lambda>w b. w b) ws b"

definition write_if :: "bool \<Rightarrow> writer \<Rightarrow> writer" where
  "write_if c w = (if c then w else id)"

definition WriteCString :: "gostring \<Rightarrow> writer" where
  "WriteCString v = writes [Write v, WriteU8 0]"

definition WriteString :: "gostring \<Rightarrow> writer" where
  "WriteString v = Write v"

text \<open>
  \<open>WritePackedGUID\<close>: the first loop collects the eight bytes and sets a mask bit for each
  non-zero one; the second writes the bytes the mask names.
\<close>

definition guid_bytes :: "u64 \<Rightarrow> bytes" where
  "guid_bytes value = map (\<lambda>i. ucast (drop_bit (8 * i) value)) [0..<8]"

definition guid_mask :: "u64 \<Rightarrow> u8" where
  "guid_mask value =
     fold (\<lambda>i m. if guid_bytes value ! i \<noteq> 0 then m OR push_bit i 1 else m) [0..<8] 0"

definition WritePackedGUID :: "u64 \<Rightarrow> writer" where
  "WritePackedGUID value = writes (WriteU8 (guid_mask value) #
     map (\<lambda>i. write_if (has_flag (guid_mask value) (push_bit i 1)) (WriteU8 (guid_bytes value ! i)))
       [0..<8])"

section \<open>Readers\<close>

definition rret :: "'a \<Rightarrow> 'a reader" where
  "rret x b = (Inr x, b)"

definition rbind :: "'a reader \<Rightarrow> ('a \<Rightarrow> 'b reader) \<Rightarrow> 'b reader" where
  "rbind m f b = (case m b of (Inl e, b') \<Rightarrow> (Inl e, b') | (Inr x, b') \<Rightarrow> f x b')"

definition buf_read :: "int \<Rightarrow> bytes reader" where
  "buf_read n b =
     (if n < 0 \<or> int (buf_pos b) + n > int (length (buf_data b)) then (Inl ErrEOF, b)
      else (Inr (take (nat n) (drop (buf_pos b) (buf_data b))),
            b\<lparr>buf_pos := buf_pos b + nat n\<rparr>))"

definition ReadU8 :: "u8 reader" where
  "ReadU8 = rbind (buf_read 1) (\<lambda>d. rret (d ! 0))"

definition ReadBool :: "bool reader" where
  "ReadBool = rbind ReadU8 (\<lambda>v. rret (v \<noteq> 0))"

definition ReadU16 :: "u16 reader" where
  "ReadU16 = rbind (buf_read 2) (\<lambda>d. rret (of_le_bytes d))"

definition ReadU32 :: "u32 reader" where
  "ReadU32 = rbind (buf_read 4) (\<lambda>d. rret (of_le_bytes d))"

definition ReadU64 :: "u64 reader" where
  "ReadU64 = rbind (buf_read 8) (\<lambda>d. rret (of_le_bytes d))"

definition ReadI8 :: "int reader" where
  "ReadI8 = rbind ReadU8 (\<lambda>v. rret (sint v))"

definition ReadI16 :: "int reader" where
  "ReadI16 = rbind ReadU16 (\<lambda>v. rret (sint v))"

definition ReadI32 :: "int reader" where
  "ReadI32 = rbind ReadU32 (\<lambda>v. rret (sint v))"

definition ReadI64 :: "int reader" where
  "ReadI64 = rbind ReadU64 (\<lambda>v. rret (sint v))"

definition ReadF32 :: "f32 reader" where
  "ReadF32 = ReadU32"

definition ReadF64 :: "f64 reader" where
  "ReadF64 = ReadU64"

definition ReadString :: "int \<Rightarrow> gostring reader" where
  "ReadString n = buf_read n"

text \<open>\<open>ReadCString\<close> scans from the position for a zero byte and leaves the state when there is none.\<close>

definition ReadCString :: "gostring reader" where
  "ReadCString b =
     (let rest = drop (buf_pos b) (buf_data b); value = takeWhile (\<lambda>c. c \<noteq> 0) rest in
      if length value < length rest
      then (Inr value, b\<lparr>buf_pos := buf_pos b + length value + 1\<rparr>)
      else (Inl ErrEOF, b))"

primrec read_guid_parts :: "u8 \<Rightarrow> nat list \<Rightarrow> u64 \<Rightarrow> u64 reader" where
  "read_guid_parts m [] acc = rret acc"
| "read_guid_parts m (i # ns) acc =
     (if \<not> has_flag m (push_bit i 1) then read_guid_parts m ns acc
      else rbind ReadU8 (\<lambda>part. read_guid_parts m ns (acc OR push_bit (8 * i) (ucast part))))"

definition ReadPackedGUID :: "u64 reader" where
  "ReadPackedGUID = rbind ReadU8 (\<lambda>m. read_guid_parts m [0..<8] 0)"

section \<open>What a write leaves and what a read finds\<close>

named_theorems writer_simps

definition buf_ok :: "buffer \<Rightarrow> bool" where
  "buf_ok b \<longleftrightarrow> buf_pos b \<le> length (buf_data b)"

definition unread :: "buffer \<Rightarrow> bytes" where
  "unread b = drop (buf_pos b) (buf_data b)"

definition advance :: "nat \<Rightarrow> buffer \<Rightarrow> buffer" where
  "advance n b = b\<lparr>buf_pos := buf_pos b + n\<rparr>"

lemma unread_advance [simp]: "unread (advance n b) = drop n (unread b)"
  by (simp add: unread_def advance_def add.commute)

lemma advance_advance [simp]: "advance n (advance m b) = advance (m + n) b"
  by (simp add: advance_def)

lemma advance_0 [simp]: "advance 0 b = b"
  by (simp add: advance_def)

lemma buf_ok_advance [simp]: "buf_ok b \<Longrightarrow> n \<le> length (unread b) \<Longrightarrow> buf_ok (advance n b)"
  by (simp add: buf_ok_def unread_def advance_def)

lemma unread_NewReader [simp]: "unread (NewReader d) = d"
  by (simp add: unread_def NewReader_def)

lemma buf_ok_NewReader [simp]: "buf_ok (NewReader d)"
  by (simp add: buf_ok_def NewReader_def)

lemma Bytes_NewBuffer [simp]: "Bytes (NewBuffer n) = []"
  by (simp add: Bytes_def NewBuffer_def)

lemma Bytes_Write [simp]: "Bytes (Write d b) = Bytes b @ d"
  by (simp add: Bytes_def Write_def)

lemma Write_Write [simp]: "Write d (Write c b) = Write (c @ d) b"
  by (simp add: Write_def)

lemma Write_Nil [simp]: "Write [] b = b"
  by (simp add: Write_def)

lemma writes_Nil [simp]: "writes [] b = b"
  by (simp add: writes_def)

lemma writes_Cons [simp]: "writes (w # ws) b = writes ws (w b)"
  by (simp add: writes_def)

lemma writes_append [simp]: "writes (ws @ vs) b = writes vs (writes ws b)"
  by (simp add: writes_def)

lemma write_if_Write [simp]: "write_if c (Write d) b = Write (if c then d else []) b"
  by (simp add: write_if_def)

lemmas [writer_simps] = WriteU8_def WriteBool_def WriteU16_def WriteU32_def WriteU64_def
  WriteI8_def WriteI16_def WriteI32_def WriteI64_def WriteF32_def WriteF64_def WriteString_def

lemma WriteCString_eq [writer_simps]: "WriteCString v = Write (v @ [0])"
  by (rule ext) (simp add: WriteCString_def WriteU8_def)

text \<open>A list of calls that each append does append; what it appends is the concatenation.\<close>

lemma writes_map_Write: "writes (map (\<lambda>x. Write (f x)) xs) b = Write (concat (map f xs)) b"
  by (induction xs arbitrary: b) simp_all

lemma length_le_bytes [simp]: "length (le_bytes n w) = n"
  by (simp add: le_bytes_def)

section \<open>Little endian\<close>

lemma bit_of_le_bytes:
  "bit (of_le_bytes bs :: 'a::len word) n \<longleftrightarrow>
     n < LENGTH('a) \<and> n div 8 < length bs \<and> bit (bs ! (n div 8)) (n mod 8)"
proof (induction bs arbitrary: n)
  case Nil
  then show ?case by simp
next
  case (Cons b bs)
  show ?case
  proof (cases "n < 8")
    case True
    then show ?thesis by (auto simp: bit_simps)
  next
    case False
    then have "n div 8 = Suc ((n - 8) div 8)" and "(n - 8) mod 8 = n mod 8"
      by (simp_all add: le_div_geq le_mod_geq)
    with False Cons.IH [of "n - 8"] show ?thesis
      by (auto simp: bit_simps dest: bit_imp_le_length)
  qed
qed

lemma of_le_bytes_le_bytes [simp]:
  assumes "LENGTH('a) \<le> 8 * n"
  shows "of_le_bytes (le_bytes n (w :: 'a::len word)) = w"
proof (rule bit_word_eqI)
  fix k
  assume "k < LENGTH('a)"
  with assms have "k div 8 < n" and "8 * (k div 8) + k mod 8 = k"
    by simp_all
  with \<open>k < LENGTH('a)\<close> show "bit (of_le_bytes (le_bytes n w) :: 'a word) k = bit w k"
    by (simp add: bit_of_le_bytes le_bytes_def bit_simps)
qed

end
