(* ===== verification/Wire_Codec.thy ===== *)
theory Wire_Codec
  imports Wire
begin

text \<open>
  Writer and reader of one value as a contract (\<open>codec\<close>), strengthened by the detection of
  truncated input (\<open>strict_codec\<close>), and the proof that every pair of
  \<^verbatim>\<open>pkg/protocol/buffer.go\<close> meets it.
\<close>

section \<open>The contract\<close>

locale codec =
  fixes put :: "'a \<Rightarrow> writer" and get :: "'a reader" and enc :: "'a \<Rightarrow> bytes" and dm :: "'a \<Rightarrow> bool"
  assumes put_enc: "put x = Write (enc x)"
    and get_enc: "dm x \<Longrightarrow> buf_ok b \<Longrightarrow> unread b = enc x @ rest \<Longrightarrow>
      get b = (Inr x, advance (length (enc x)) b)"
begin

lemma rbind_get:
  "dm x \<Longrightarrow> buf_ok b \<Longrightarrow> unread b = enc x @ rest \<Longrightarrow>
    rbind get f b = f x (advance (length (enc x)) b)"
  by (simp add: rbind_def get_enc)

lemma rbind_ok:
  assumes "dm x" "buf_ok b" "unread b = enc x @ r"
    and "\<And>b'. buf_ok b' \<Longrightarrow> unread b' = r \<Longrightarrow> f x b' = (Inr y, advance n b')"
  shows "rbind get f b = (Inr y, advance (length (enc x) + n) b)"
proof -
  have "buf_ok (advance (length (enc x)) b)" using assms(2,3) by simp
  then show ?thesis unfolding rbind_get [OF assms(1-3)] using assms(3,4) by simp
qed

lemma get_put_fresh:
  "dm x \<Longrightarrow> get (NewReader (Bytes (put x (NewBuffer n)))) =
    (Inr x, advance (length (enc x)) (NewReader (enc x)))"
  using get_enc [of x "NewReader (enc x)" "[]"] by (simp add: put_enc)

lemma enc_prefix_free:
  assumes "dm x" "dm y" "enc x @ r = enc y @ s"
  shows "x = y \<and> r = s"
proof -
  have "get (NewReader (enc x @ r)) = (Inr x, advance (length (enc x)) (NewReader (enc x @ r)))"
    by (rule get_enc [OF \<open>dm x\<close>]) simp_all
  moreover have "get (NewReader (enc x @ r)) = (Inr y, advance (length (enc y)) (NewReader (enc x @ r)))"
    by (rule get_enc [OF \<open>dm y\<close>]) (simp_all add: assms(3))
  ultimately have "x = y" by simp
  with assms(3) show ?thesis by simp
qed

end

text \<open>Reading a counted list with the reader of one element.\<close>

primrec read_many :: "'a reader \<Rightarrow> nat \<Rightarrow> 'a list reader" where
  "read_many get 0 = rret []"
| "read_many get (Suc n) = rbind get (\<lambda>x. rbind (read_many get n) (\<lambda>xs. rret (x # xs)))"

context codec
begin

lemma read_many_enc:
  "list_all dm xs \<Longrightarrow> buf_ok b \<Longrightarrow> unread b = concat (map enc xs) @ rest \<Longrightarrow>
    read_many get (length xs) b = (Inr xs, advance (length (concat (map enc xs))) b)"
proof (induction xs arbitrary: b)
  case Nil
  then show ?case by (simp add: rret_def)
next
  case (Cons x xs)
  from Cons.prems have x: "dm x" and xs: "list_all dm xs"
    and u: "unread b = enc x @ (concat (map enc xs) @ rest)"
    by simp_all
  have "read_many get (length xs) (advance (length (enc x)) b) =
      (Inr xs, advance (length (concat (map enc xs))) (advance (length (enc x)) b))"
    by (rule Cons.IH [OF xs]) (use Cons.prems(2) u in simp_all)
  then have "rbind (read_many get (length xs)) (\<lambda>xs. rret (x # xs)) (advance (length (enc x)) b) =
      (Inr (x # xs), advance (length (concat (map enc (x # xs)))) b)"
    by (simp add: rbind_def rret_def)
  then show ?case
    by (simp add: rbind_get [OF x Cons.prems(2) u])
qed

end

locale strict_codec = codec put get enc dm
  for put :: "'a \<Rightarrow> writer" and get :: "'a reader" and enc :: "'a \<Rightarrow> bytes" and dm :: "'a \<Rightarrow> bool" +
  assumes get_short: "dm x \<Longrightarrow> buf_ok b \<Longrightarrow> unread b = take k (enc x) \<Longrightarrow> k < length (enc x) \<Longrightarrow>
      fst (get b) = Inl ErrEOF"
begin

lemma truncated: "dm x \<Longrightarrow> k < length (enc x) \<Longrightarrow> fst (get (NewReader (take k (enc x)))) = Inl ErrEOF"
  by (rule get_short [where b = "NewReader (take k (enc x))"]) simp_all

end

text \<open>Sequencing: a truncated input is rejected by the part in which it ends.\<close>

context strict_codec
begin

lemma rbind_short:
  assumes "dm x" "buf_ok b" "unread b = take k (enc x @ r)" "k < length (enc x @ r)"
    and "\<And>b'. buf_ok b' \<Longrightarrow> unread b' = take (k - length (enc x)) r \<Longrightarrow> k - length (enc x) < length r \<Longrightarrow>
      fst (f x b') = Inl ErrEOF"
  shows "fst (rbind get f b) = Inl ErrEOF"
proof (cases "k < length (enc x)")
  case True
  then have "fst (get b) = Inl ErrEOF" using assms(3) by (intro get_short [OF assms(1,2)]) auto
  then show ?thesis by (cases "get b") (auto simp: rbind_def)
next
  case False
  then have u: "unread b = enc x @ take (k - length (enc x)) r" using assms(3) by simp
  have ok: "buf_ok (advance (length (enc x)) b)" using assms(2) u by simp
  show ?thesis unfolding rbind_get [OF assms(1,2) u]
    by (rule assms(5) [OF ok]) (use u False assms(4) in simp_all)
qed

end

section \<open>Fixed-size values\<close>

lemma buf_read_ok:
  assumes "buf_ok b" "unread b = d @ rest" "n = int (length d)"
  shows "buf_read n b = (Inr d, advance (length d) b)"
proof -
  have "length (buf_data b) - buf_pos b = length d + length rest"
    using arg_cong [OF assms(2), of length] by (simp add: unread_def)
  with assms(1) have "buf_pos b + length d \<le> length (buf_data b)"
    by (simp add: buf_ok_def)
  then have "\<not> (n < 0 \<or> int (buf_pos b) + n > int (length (buf_data b)))"
    using assms(3) by simp
  moreover have "take (length d) (drop (buf_pos b) (buf_data b)) = d"
    using assms(2) by (simp add: unread_def)
  ultimately show ?thesis
    using assms(3) by (simp add: buf_read_def advance_def)
qed

lemma buf_read_short:
  assumes "buf_ok b" "length (unread b) < m" "n = int m"
  shows "buf_read n b = (Inl ErrEOF, b)"
  using assms by (auto simp: buf_read_def unread_def buf_ok_def)

lemma rbind_buf_read_ok:
  "buf_ok b \<Longrightarrow> unread b = d @ rest \<Longrightarrow> n = int (length d) \<Longrightarrow>
    rbind (buf_read n) f b = f d (advance (length d) b)"
  by (simp add: rbind_def buf_read_ok)

lemma rbind_buf_read_short:
  "buf_ok b \<Longrightarrow> length (unread b) < m \<Longrightarrow> n = int m \<Longrightarrow> fst (rbind (buf_read n) f b) = Inl ErrEOF"
  by (simp add: rbind_def buf_read_short)

lemma rbind_fail: "fst (m b) = Inl e \<Longrightarrow> fst (rbind m f b) = Inl e"
  by (cases "m b") (auto simp: rbind_def)

interpretation u8c: strict_codec WriteU8 ReadU8 "\<lambda>v. [v]" "\<lambda>_. True"
proof unfold_locales
  show "WriteU8 x = Write [x]" for x
    by (simp add: WriteU8_def)
  show "ReadU8 b = (Inr x, advance (length [x]) b)" if "buf_ok b" "unread b = [x] @ rest" for x b rest
    using that by (simp add: ReadU8_def rret_def rbind_buf_read_ok [where d = "[x]"])
  show "fst (ReadU8 b) = Inl ErrEOF"
    if "buf_ok b" "unread b = take k [x]" "k < length [x]" for x b k
    unfolding ReadU8_def by (rule rbind_buf_read_short [where m = 1]) (use that in auto)
qed

lemma ReadU8_empty: "buf_ok b \<Longrightarrow> unread b = [] \<Longrightarrow> fst (ReadU8 b) = Inl ErrEOF"
  using u8c.get_short [where k = 0] by simp

lemma le_codec:
  assumes "LENGTH('a) \<le> 8 * n"
  shows "buf_ok b \<Longrightarrow> unread b = le_bytes n (x :: 'a::len word) @ rest \<Longrightarrow>
      rbind (buf_read (int n)) (\<lambda>d. rret (of_le_bytes d)) b = (Inr x, advance n b)"
    and "buf_ok b \<Longrightarrow> unread b = take k (le_bytes n x) \<Longrightarrow> k < n \<Longrightarrow>
      fst (rbind (buf_read (int n)) (\<lambda>d. rret (of_le_bytes d :: 'a word)) b) = Inl ErrEOF"
  using assms by (auto simp: rbind_buf_read_ok rret_def intro: rbind_buf_read_short)

interpretation u16c: strict_codec WriteU16 ReadU16 "le_bytes 2" "\<lambda>_. True"
  using le_codec [where 'a = 16 and n = 2]
  by unfold_locales (simp_all add: WriteU16_def ReadU16_def)

interpretation u32c: strict_codec WriteU32 ReadU32 "le_bytes 4" "\<lambda>_. True"
  using le_codec [where 'a = 32 and n = 4]
  by unfold_locales (simp_all add: WriteU32_def ReadU32_def)

interpretation u64c: strict_codec WriteU64 ReadU64 "le_bytes 8" "\<lambda>_. True"
  using le_codec [where 'a = 64 and n = 8]
  by unfold_locales (simp_all add: WriteU64_def ReadU64_def)

interpretation f32c: strict_codec WriteF32 ReadF32 "le_bytes 4" "\<lambda>_. True"
  unfolding WriteF32_def [abs_def] ReadF32_def by (rule u32c.strict_codec_axioms)

interpretation f64c: strict_codec WriteF64 ReadF64 "le_bytes 8" "\<lambda>_. True"
  unfolding WriteF64_def [abs_def] ReadF64_def by (rule u64c.strict_codec_axioms)

text \<open>A codec composed with a bijection of its values, for the signed and boolean forms.\<close>

lemma codec_map:
  assumes c: "strict_codec put get enc (\<lambda>_. True)" and inv: "\<And>x. dm x \<Longrightarrow> g (f x) = x"
  shows "strict_codec (\<lambda>x. put (f x)) (rbind get (\<lambda>v. rret (g v))) (\<lambda>x. enc (f x)) dm"
proof -
  note codec = strict_codec.axioms(1) [OF c]
  show ?thesis
    by unfold_locales
      (simp_all add: codec.put_enc [OF codec] codec.rbind_get [OF codec] inv rret_def
        rbind_fail strict_codec.get_short [OF c])
qed

definition signed_range :: "nat \<Rightarrow> int \<Rightarrow> bool" where
  "signed_range n v \<longleftrightarrow> - (2 ^ (n - 1)) \<le> v \<and> v < 2 ^ (n - 1)"

lemma sint_word_of_int_range:
  "signed_range LENGTH('a) v \<Longrightarrow> sint (word_of_int v :: 'a::len word) = v"
  by (simp add: signed_range_def sint_sbintrunc' signed_take_bit_int_eq_self)

interpretation boolc: strict_codec WriteBool ReadBool "\<lambda>v. [if v then 1 else 0]" "\<lambda>_. True"
proof -
  have "strict_codec (\<lambda>v. WriteU8 (if v then 1 else 0)) (rbind ReadU8 (\<lambda>v. rret (v \<noteq> 0)))
      (\<lambda>v. [if v then 1 else 0]) (\<lambda>_. True)"
    by (rule codec_map [OF u8c.strict_codec_axioms]) simp
  moreover have "WriteBool = (\<lambda>v. WriteU8 (if v then 1 else 0))"
    by (rule ext) (simp add: WriteBool_def WriteU8_def)
  ultimately show "strict_codec WriteBool ReadBool (\<lambda>v. [if v then 1 else 0]) (\<lambda>_. True)"
    by (simp add: ReadBool_def)
qed

interpretation i8c: strict_codec WriteI8 ReadI8 "\<lambda>v. [word_of_int v]" "signed_range 8"
  unfolding WriteI8_def [abs_def] ReadI8_def
  by (rule codec_map [OF u8c.strict_codec_axioms]) (simp add: sint_word_of_int_range)

interpretation i16c: strict_codec WriteI16 ReadI16
    "\<lambda>v. le_bytes 2 (word_of_int v :: u16)" "signed_range 16"
  unfolding WriteI16_def [abs_def] ReadI16_def
  by (rule codec_map [OF u16c.strict_codec_axioms]) (simp add: sint_word_of_int_range)

interpretation i32c: strict_codec WriteI32 ReadI32
    "\<lambda>v. le_bytes 4 (word_of_int v :: u32)" "signed_range 32"
  unfolding WriteI32_def [abs_def] ReadI32_def
  by (rule codec_map [OF u32c.strict_codec_axioms]) (simp add: sint_word_of_int_range)

interpretation i64c: strict_codec WriteI64 ReadI64
    "\<lambda>v. le_bytes 8 (word_of_int v :: u64)" "signed_range 64"
  unfolding WriteI64_def [abs_def] ReadI64_def
  by (rule codec_map [OF u64c.strict_codec_axioms]) (simp add: sint_word_of_int_range)

section \<open>Strings\<close>

interpretation cstr: strict_codec WriteCString ReadCString "\<lambda>v. v @ [0]" "\<lambda>v. 0 \<notin> set v"
proof unfold_locales
  show "WriteCString x = Write (x @ [0])" for x
    by (rule WriteCString_eq)
next
  fix x :: gostring and b rest
  assume x: "0 \<notin> set x" and b: "buf_ok b" and u: "unread b = (x @ [0]) @ rest"
  from x have "takeWhile (\<lambda>c. c \<noteq> 0) (x @ 0 # rest) = x"
    by (subst takeWhile_append2) auto
  then show "ReadCString b = (Inr x, advance (length (x @ [0])) b)"
    using u by (simp add: ReadCString_def unread_def [symmetric] Let_def advance_def)
next
  fix x :: gostring and b k
  assume x: "0 \<notin> set x" and "buf_ok b" and u: "unread b = take k (x @ [0])" and "k < length (x @ [0])"
  then have "unread b = take k x" by simp
  moreover from x have "length (takeWhile (\<lambda>c. c \<noteq> 0) (take k x)) = length (take k x)"
    by (subst takeWhile_eq_all_conv [THEN iffD2]) (auto dest: in_set_takeD)
  ultimately show "fst (ReadCString b) = Inl ErrEOF"
    by (simp only: ReadCString_def unread_def [symmetric] Let_def) simp
qed

section \<open>Packed identifiers\<close>

lemma nth_guid_bytes: "i < 8 \<Longrightarrow> guid_bytes v ! i = ucast (drop_bit (8 * i) v)"
  by (simp add: guid_bytes_def)

lemma bit_guid_mask_fold:
  "bit (fold (\<lambda>i m. if P i then m OR push_bit i 1 else m) ns (m :: u8)) n \<longleftrightarrow>
    bit m n \<or> n < 8 \<and> n \<in> set ns \<and> P n"
  by (induction ns arbitrary: m) (auto simp: bit_simps dest: bit_imp_le_length)

lemma has_flag_guid_mask:
  "i < 8 \<Longrightarrow> has_flag (guid_mask v) (2 ^ i) \<longleftrightarrow> guid_bytes v ! i \<noteq> 0"
  by (auto simp: has_flag_bit guid_mask_def bit_guid_mask_fold bit_simps)

definition guid_enc :: "u64 \<Rightarrow> bytes" where
  "guid_enc v = guid_mask v # map (\<lambda>i. guid_bytes v ! i) (filter (\<lambda>i. guid_bytes v ! i \<noteq> 0) [0..<8])"

lemma concat_if_filter: "concat (map (\<lambda>i. if P i then [f i] else []) xs) = map f (filter P xs)"
  by (induction xs) auto

lemma WritePackedGUID_eq: "WritePackedGUID v = Write (guid_enc v)"
proof (rule ext)
  fix b
  have "map (\<lambda>i. write_if (has_flag (guid_mask v) (push_bit i 1)) (WriteU8 (guid_bytes v ! i))) [0..<8] =
      map (\<lambda>i. Write (if guid_bytes v ! i \<noteq> 0 then [guid_bytes v ! i] else [])) [0..<8]"
    by (rule map_cong) (auto simp: has_flag_guid_mask write_if_def WriteU8_def fun_eq_iff)
  then show "WritePackedGUID v b = Write (guid_enc v) b"
    by (simp only: WritePackedGUID_def writes_Cons writes_map_Write concat_if_filter)
      (simp add: WriteU8_def guid_enc_def)
qed

lemma read_guid_parts_ok:
  assumes "set ns \<subseteq> {0..<8}"
    and "buf_ok b" "unread b = map (\<lambda>i. guid_bytes v ! i) (filter (\<lambda>i. guid_bytes v ! i \<noteq> 0) ns) @ rest"
  shows "read_guid_parts (guid_mask v) ns acc b =
    (Inr (fold (\<lambda>i acc. acc OR push_bit (8 * i) (ucast (guid_bytes v ! i))) ns acc),
     advance (length (filter (\<lambda>i. guid_bytes v ! i \<noteq> 0) ns)) b)"
  using assms
proof (induction ns arbitrary: b acc)
  case Nil
  then show ?case by (simp add: rret_def)
next
  case (Cons i ns)
  from Cons.prems(1) have i: "i < 8" and is8: "set ns \<subseteq> {0..<8}" by simp_all
  show ?case
  proof (cases "guid_bytes v ! i = 0")
    case True
    with Cons.IH [OF is8] Cons.prems i show ?thesis
      by (simp add: has_flag_guid_mask)
  next
    case False
    let ?rest = "map (\<lambda>i. guid_bytes v ! i) (filter (\<lambda>i. guid_bytes v ! i \<noteq> 0) ns) @ rest"
    from False Cons.prems(3) have "unread b = [guid_bytes v ! i] @ ?rest" by simp
    with False i Cons.prems(2) show ?thesis
      by (simp add: has_flag_guid_mask u8c.rbind_get [where rest = ?rest] Cons.IH [OF is8])
  qed
qed

lemma bit_guid_fold:
  "bit (fold (\<lambda>i acc. acc OR push_bit (8 * i) (ucast (guid_bytes v ! i))) ns (acc :: u64)) n \<longleftrightarrow>
    bit acc n \<or> n < 64 \<and> (\<exists>i \<in> set ns. 8 * i \<le> n \<and> bit (guid_bytes v ! i) (n - 8 * i))"
  by (induction ns arbitrary: acc) (auto simp: bit_simps)

lemma guid_fold_id:
  "fold (\<lambda>i acc. acc OR push_bit (8 * i) (ucast (guid_bytes v ! i))) [0..<8] (0 :: u64) = v"
proof (rule bit_word_eqI)
  fix n
  assume n: "n < LENGTH(64)"
  have byte: "bit (guid_bytes v ! i) (n - 8 * i) \<longleftrightarrow> n - 8 * i < 8 \<and> bit v n"
    if "i < 8" "8 * i \<le> n" for i
    using that by (auto simp: nth_guid_bytes bit_simps)
  show "bit (fold (\<lambda>i acc. acc OR push_bit (8 * i) (ucast (guid_bytes v ! i))) [0..<8] (0 :: u64)) n = bit v n"
    using n by (auto simp: bit_guid_fold byte intro!: bexI [where x = "n div 8"])
qed

lemma read_guid_parts_short:
  assumes "set ns \<subseteq> {0..<8}" "buf_ok b"
    and "unread b = take k (map (\<lambda>i. guid_bytes v ! i) (filter (\<lambda>i. guid_bytes v ! i \<noteq> 0) ns))"
    and "k < length (filter (\<lambda>i. guid_bytes v ! i \<noteq> 0) ns)"
  shows "fst (read_guid_parts (guid_mask v) ns acc b) = Inl ErrEOF"
  using assms
proof (induction ns arbitrary: b k acc)
  case Nil
  then show ?case by simp
next
  case (Cons i ns)
  from Cons.prems(1) have i: "i < 8" and is8: "set ns \<subseteq> {0..<8}" by simp_all
  show ?case
  proof (cases "guid_bytes v ! i = 0")
    case True
    with Cons.IH [OF is8 Cons.prems(2)] Cons.prems(3,4) i show ?thesis
      by (simp add: has_flag_guid_mask)
  next
    case False
    show ?thesis
    proof (cases k)
      case 0
      with Cons.prems(2,3) have "fst (ReadU8 b) = Inl ErrEOF" by (simp add: ReadU8_empty)
      with False i show ?thesis by (simp add: has_flag_guid_mask rbind_fail)
    next
      case (Suc k')
      let ?rest = "take k' (map (\<lambda>i. guid_bytes v ! i) (filter (\<lambda>i. guid_bytes v ! i \<noteq> 0) ns))"
      from False Suc Cons.prems(3) have "unread b = [guid_bytes v ! i] @ ?rest" by simp
      with False i Suc Cons.prems(2,4) show ?thesis
        by (simp add: has_flag_guid_mask u8c.rbind_get [where rest = ?rest] Cons.IH [OF is8, where k = k'])
    qed
  qed
qed

interpretation guidc: strict_codec WritePackedGUID ReadPackedGUID guid_enc "\<lambda>_. True"
proof unfold_locales
  show "WritePackedGUID x = Write (guid_enc x)" for x
    by (rule WritePackedGUID_eq)
next
  fix x :: u64 and b rest
  assume b: "buf_ok b" and u: "unread b = guid_enc x @ rest"
  let ?bs = "map (\<lambda>i. guid_bytes x ! i) (filter (\<lambda>i. guid_bytes x ! i \<noteq> 0) [0..<8])"
  have u': "unread b = [guid_mask x] @ (?bs @ rest)"
    using u by (simp add: guid_enc_def)
  have "read_guid_parts (guid_mask x) [0..<8] 0 (advance 1 b) =
      (Inr x, advance (length (filter (\<lambda>i. guid_bytes x ! i \<noteq> 0) [0..<8])) (advance 1 b))"
    using read_guid_parts_ok [where ns = "[0..<8]" and b = "advance 1 b" and v = x and acc = 0 and rest = rest]
      b u' by (simp only: guid_fold_id) simp
  then show "ReadPackedGUID b = (Inr x, advance (length (guid_enc x)) b)"
    by (simp add: ReadPackedGUID_def guid_enc_def u8c.rbind_get [OF _ b u'])
next
  fix x :: u64 and b k
  assume b: "buf_ok b" and u: "unread b = take k (guid_enc x)" and k: "k < length (guid_enc x)"
  let ?bs = "map (\<lambda>i. guid_bytes x ! i) (filter (\<lambda>i. guid_bytes x ! i \<noteq> 0) [0..<8])"
  show "fst (ReadPackedGUID b) = Inl ErrEOF"
  proof (cases k)
    case 0
    with b u have "fst (ReadU8 b) = Inl ErrEOF" by (simp add: ReadU8_empty)
    then show ?thesis by (simp add: ReadPackedGUID_def rbind_fail)
  next
    case (Suc k')
    with u have u': "unread b = [guid_mask x] @ take k' ?bs" by (simp add: guid_enc_def)
    have "fst (read_guid_parts (guid_mask x) [0..<8] 0 (advance 1 b)) = Inl ErrEOF"
      by (rule read_guid_parts_short [where k = k']) (use b u' Suc k in \<open>simp_all add: guid_enc_def\<close>)
    then show ?thesis
      by (simp add: ReadPackedGUID_def u8c.rbind_get [OF _ b u'])
  qed
qed

end
