(* ===== verification/Std_Crypto.thy ===== *)
theory Std_Crypto
  imports Go_Prelude
begin

text \<open>
  The parts of Go's standard library the authentication code calls: \<open>crypto/sha1\<close>,
  \<open>crypto/hmac\<close> over it, and \<open>crypto/rc4\<close>, as executable functions on byte lists.
\<close>

section \<open>crypto/sha1\<close>

definition be32 :: "u32 \<Rightarrow> bytes" where
  "be32 w = [ucast (drop_bit 24 w), ucast (drop_bit 16 w), ucast (drop_bit 8 w), ucast w]"

definition of_be32 :: "bytes \<Rightarrow> u32" where
  "of_be32 bs = fold (\<lambda>b acc. push_bit 8 acc OR ucast b) bs 0"

definition rotl32 :: "nat \<Rightarrow> u32 \<Rightarrow> u32" where
  "rotl32 n w = push_bit n w OR drop_bit (32 - n) w"

definition be64_nat :: "nat \<Rightarrow> bytes" where
  "be64_nat n = map (\<lambda>i. of_nat (n div 256 ^ i)) (rev [0..<8])"

definition sha1_pad :: "bytes \<Rightarrow> bytes" where
  "sha1_pad msg = msg @ [0x80] @ replicate ((119 - length msg mod 64) mod 64) 0
     @ be64_nat (8 * length msg)"

fun chunks :: "nat \<Rightarrow> 'a list \<Rightarrow> 'a list list" where
  "chunks n xs = (if n = 0 \<or> xs = [] then [] else take n xs # chunks n (drop n xs))"

declare chunks.simps [simp del]

text \<open>The message schedule, kept newest first.\<close>

primrec sha1_schedule :: "nat \<Rightarrow> u32 list \<Rightarrow> u32 list" where
  "sha1_schedule 0 w = w"
| "sha1_schedule (Suc n) w =
     sha1_schedule n (rotl32 1 (w ! 2 XOR w ! 7 XOR w ! 13 XOR w ! 15) # w)"

type_synonym sha1_state = "u32 \<times> u32 \<times> u32 \<times> u32 \<times> u32"

definition sha1_round :: "nat \<times> u32 \<Rightarrow> sha1_state \<Rightarrow> sha1_state" where
  "sha1_round tw st =
     (case (tw, st) of ((t, w), (a, b, c, d, e)) \<Rightarrow>
       let f = (if t < 20 then (b AND c) OR (NOT b AND d)
                else if t < 40 then b XOR c XOR d
                else if t < 60 then (b AND c) OR (b AND d) OR (c AND d)
                else b XOR c XOR d);
           k = (if t < 20 then 0x5A827999 else if t < 40 then 0x6ED9EBA1
                else if t < 60 then 0x8F1BBCDC else 0xCA62C1D6)
       in (rotl32 5 a + f + e + k + w, a, rotl32 30 b, c, d))"

definition sha1_block :: "bytes \<Rightarrow> sha1_state \<Rightarrow> sha1_state" where
  "sha1_block blk st =
     (let w = rev (sha1_schedule 64 (rev (map of_be32 (chunks 4 blk))))
      in case (st, fold sha1_round (zip [0..<80] w) st) of
           ((a, b, c, d, e), (a', b', c', d', e')) \<Rightarrow> (a + a', b + b', c + c', d + d', e + e'))"

definition sha1 :: "bytes \<Rightarrow> bytes" where
  "sha1 msg =
     (case fold sha1_block (chunks 64 (sha1_pad msg))
             (0x67452301, 0xEFCDAB89, 0x98BADCFE, 0x10325476, 0xC3D2E1F0)
      of (a, b, c, d, e) \<Rightarrow> be32 a @ be32 b @ be32 c @ be32 d @ be32 e)"

lemma length_sha1 [simp]: "length (sha1 msg) = 20"
  by (simp add: sha1_def be32_def split: prod.splits)

section \<open>crypto/hmac\<close>

definition hmac_sha1 :: "bytes \<Rightarrow> bytes \<Rightarrow> bytes" where
  "hmac_sha1 key msg =
     (let k = (if length key > 64 then sha1 key else key);
          k' = k @ replicate (64 - length k) 0
      in sha1 (map (\<lambda>b. b XOR 0x5c) k' @ sha1 (map (\<lambda>b. b XOR 0x36) k' @ msg)))"

lemma length_hmac_sha1 [simp]: "length (hmac_sha1 key msg) = 20"
  by (simp add: hmac_sha1_def Let_def)

section \<open>crypto/rc4\<close>

record rc4 =
  rc4_s :: "nat list"
  rc4_i :: nat
  rc4_j :: nat

definition swap :: "nat \<Rightarrow> nat \<Rightarrow> 'a list \<Rightarrow> 'a list" where
  "swap i j xs = xs[i := xs ! j, j := xs ! i]"

text \<open>\<open>NewCipher\<close> refuses empty keys and keys of more than 256 bytes.\<close>

definition rc4_new :: "bytes \<Rightarrow> go_error + rc4" where
  "rc4_new key =
     (if length key < 1 \<or> length key > 256 then Inl (Err ''crypto/rc4: invalid key size'')
      else Inr \<lparr>rc4_s = fst (fold (\<lambda>i (s, j).
               let j' = (j + s ! i + unat (key ! (i mod length key))) mod 256
               in (swap i j' s, j')) [0..<256] ([0..<256], 0)),
             rc4_i = 0, rc4_j = 0\<rparr>)"

definition rc4_step :: "rc4 \<Rightarrow> u8 \<times> rc4" where
  "rc4_step c =
     (let i = (rc4_i c + 1) mod 256; x = rc4_s c ! i; j = (rc4_j c + x) mod 256; y = rc4_s c ! j;
          s = (rc4_s c)[i := y, j := x]
      in (of_nat (s ! ((x + y) mod 256)), \<lparr>rc4_s = s, rc4_i = i, rc4_j = j\<rparr>))"

primrec rc4_xor :: "rc4 \<Rightarrow> bytes \<Rightarrow> bytes \<times> rc4" where
  "rc4_xor c [] = ([], c)"
| "rc4_xor c (v # vs) =
     (case rc4_step c of (k, c') \<Rightarrow> case rc4_xor c' vs of (out, c'') \<Rightarrow> ((v XOR k) # out, c''))"

text \<open>
  The key stream does not depend on the data, so a second pass from the same state undoes the
  first and leaves the cipher in the same state.
\<close>

lemma rc4_xor_involution:
  "rc4_xor c xs = (ys, c') \<Longrightarrow> rc4_xor c ys = (xs, c')"
proof (induction xs arbitrary: c ys c')
  case Nil
  then show ?case by simp
next
  case (Cons v vs)
  obtain k d where k: "rc4_step c = (k, d)" by (cases "rc4_step c")
  obtain us d' where us: "rc4_xor d vs = (us, d')" by (cases "rc4_xor d vs")
  from Cons.prems k us have "ys = (v XOR k) # us" "c' = d'" by simp_all
  with Cons.IH [OF us] k show ?case by (simp add: xor.assoc)
qed

lemma length_rc4_xor: "rc4_xor c xs = (ys, c') \<Longrightarrow> length ys = length xs"
  by (induction xs arbitrary: c ys c') (auto split: prod.splits)

lemma rc4_xor_append:
  "rc4_xor c (xs @ ys) = (case rc4_xor c xs of (us, c') \<Rightarrow> case rc4_xor c' ys of (vs, c'') \<Rightarrow> (us @ vs, c''))"
  by (induction xs arbitrary: c) (auto split: prod.splits)

end
