(* ===== verification/Frames.thy ===== *)
theory Frames
  imports Wire_Codec Std_Crypto
begin

text \<open>
  \<^verbatim>\<open>pkg/protocol/world.go\<close> and \<^verbatim>\<open>engine/crypto/authcrypt.go\<close>: the framing of world packets and
  the stream cipher on frame headers. The client's side of the wire, which is not in the
  repository, appears only as the specification the server's functions are judged by.
\<close>

section \<open>Frames\<close>

text \<open>\<open>EncodeServerFrame\<close> returns the frame and the length of its header.\<close>

definition EncodeServerFrame :: "u16 \<Rightarrow> bytes \<Rightarrow> go_error + bytes \<times> nat" where
  "EncodeServerFrame opcode payload =
     (let n = length payload + 2 in
      if n > 0xffffff then Inl (Err ''world packet is too large'')
      else if n > 0x7fff then
        Inr ([0x80 OR of_nat (n div 2 ^ 16), of_nat (n div 2 ^ 8), of_nat n]
             @ le_bytes 2 opcode @ payload, 5)
      else Inr ([of_nat (n div 2 ^ 8), of_nat n] @ le_bytes 2 opcode @ payload, 4))"

definition ClientHeaderSize :: nat where
  "ClientHeaderSize = 6"

record client_header =
  h_size :: u16
  h_opcode :: u32
  h_payload_size :: int

definition DecodeClientFrameHeader :: "bytes \<Rightarrow> go_error + client_header" where
  "DecodeClientFrameHeader header =
     (if length header \<noteq> ClientHeaderSize then Inl (Err ''world client header must be six bytes'')
      else let n = (of_le_bytes (rev (take 2 header)) :: u16) in
      if n < 4 \<or> n \<ge> 10240 then Inl (Err ''invalid world client packet size'')
      else Inr \<lparr>h_size = n, h_opcode = of_le_bytes (drop 2 header), h_payload_size = uint n - 4\<rparr>)"

text \<open>
  \<open>io.ReadFull\<close> on a stream of bytes: nothing to read is \<open>EOF\<close>, too little is
  \<open>ErrUnexpectedEOF\<close>; both consume what there was. A request for nothing succeeds.
\<close>

definition ReadFull :: "nat \<Rightarrow> bytes \<Rightarrow> (go_error + bytes) \<times> bytes" where
  "ReadFull n stream =
     (if n \<le> length stream then (Inr (take n stream), drop n stream)
      else if stream = [] then (Inl ErrIOEOF, []) else (Inl ErrEOF, []))"

text \<open>
  \<open>decrypt\<close> is the caller's closure over the cipher state \<open>'s\<close>; \<open>None\<close> is a nil function.
\<close>

definition ReadClientFrame ::
    "('s \<Rightarrow> bytes \<Rightarrow> (go_error + bytes) \<times> 's) option \<Rightarrow> 's \<Rightarrow> bytes \<Rightarrow>
     (go_error + client_header \<times> bytes) \<times> 's \<times> bytes" where
  "ReadClientFrame decrypt s stream =
     (case ReadFull ClientHeaderSize stream of
        (Inl e, r) \<Rightarrow> (Inl e, s, r)
      | (Inr header, r) \<Rightarrow>
         (case (case decrypt of None \<Rightarrow> (Inr header, s) | Some d \<Rightarrow> d s header) of
            (Inl e, s') \<Rightarrow> (Inl e, s', r)
          | (Inr plain, s') \<Rightarrow>
             (case DecodeClientFrameHeader plain of
                Inl e \<Rightarrow> (Inl e, s', r)
              | Inr parsed \<Rightarrow>
                 (case ReadFull (nat (h_payload_size parsed)) r of
                    (Inl e, r') \<Rightarrow> (Inl e, s', r')
                  | (Inr payload, r') \<Rightarrow> (Inr (parsed, payload), s', r')))))"

section \<open>The header cipher\<close>

record auth_crypt =
  clientDecrypt :: "rc4 option"
  serverEncrypt :: "rc4 option"
  initialized :: bool

definition server_key :: bytes where
  "server_key = [0xCC, 0x98, 0xAE, 0x04, 0xE8, 0x97, 0xEA, 0xCA, 0x12, 0xDD, 0xC0, 0x93, 0x42, 0x91, 0x53, 0x57]"

definition client_key :: bytes where
  "client_key = [0xC2, 0xB3, 0x72, 0x3C, 0xC6, 0xAE, 0xD9, 0xB5, 0x34, 0x3C, 0x53, 0xEE, 0x2F, 0x43, 0x67, 0xCE]"

definition rc4_drop1024 :: "rc4 \<Rightarrow> rc4" where
  "rc4_drop1024 c = snd (rc4_xor c (replicate 1024 0))"

definition NewAuthCrypt :: "bytes \<Rightarrow> go_error + auth_crypt" where
  "NewAuthCrypt sessionKey =
     (case rc4_new (hmac_sha1 server_key sessionKey) of
        Inl e \<Rightarrow> Inl e
      | Inr server \<Rightarrow>
         (case rc4_new (hmac_sha1 client_key sessionKey) of
            Inl e \<Rightarrow> Inl e
          | Inr client \<Rightarrow>
              Inr \<lparr>clientDecrypt = Some (rc4_drop1024 client),
                   serverEncrypt = Some (rc4_drop1024 server), initialized = True\<rparr>))"

definition NewClientAuthCrypt :: "bytes \<Rightarrow> go_error + auth_crypt" where
  "NewClientAuthCrypt sessionKey =
     (case rc4_new (hmac_sha1 server_key sessionKey) of
        Inl e \<Rightarrow> Inl e
      | Inr decrypt \<Rightarrow>
         (case rc4_new (hmac_sha1 client_key sessionKey) of
            Inl e \<Rightarrow> Inl e
          | Inr encrypt \<Rightarrow>
              Inr \<lparr>clientDecrypt = Some (rc4_drop1024 decrypt),
                   serverEncrypt = Some (rc4_drop1024 encrypt), initialized = True\<rparr>))"

definition crypt :: "bool \<Rightarrow> rc4 option \<Rightarrow> bytes \<Rightarrow> go_error + bytes \<times> rc4" where
  "crypt init cipher d =
     (case cipher of
        None \<Rightarrow> Inl (Err ''authentication crypt is not initialized'')
      | Some c \<Rightarrow> if \<not> init then Inl (Err ''authentication crypt is not initialized'')
                  else Inr (rc4_xor c d))"

definition EncryptSend :: "auth_crypt \<Rightarrow> bytes \<Rightarrow> (go_error + bytes) \<times> auth_crypt" where
  "EncryptSend c d =
     (case crypt (initialized c) (serverEncrypt c) d of
        Inl e \<Rightarrow> (Inl e, c)
      | Inr (out, r) \<Rightarrow> (Inr out, c\<lparr>serverEncrypt := Some r\<rparr>))"

definition DecryptRecv :: "auth_crypt \<Rightarrow> bytes \<Rightarrow> (go_error + bytes) \<times> auth_crypt" where
  "DecryptRecv c d =
     (case crypt (initialized c) (clientDecrypt c) d of
        Inl e \<Rightarrow> (Inl e, c)
      | Inr (out, r) \<Rightarrow> (Inr out, c\<lparr>clientDecrypt := Some r\<rparr>))"

section \<open>What a client does on the wire\<close>

text \<open>
  The specification side: a client splits the server's byte stream into frames by the size in the
  header, whose top bit marks the long form, and sends frames whose header is enciphered.
\<close>

definition spec_server_frame :: "bytes \<Rightarrow> (u16 \<times> bytes \<times> bytes) option" where
  "spec_server_frame s =
     (case s of
        b0 # b1 # r \<Rightarrow>
          if b0 \<ge> 0x80 then
            (case r of b2 # r' \<Rightarrow>
               let n = (unat b0 - 128) * 65536 + unat b1 * 256 + unat b2 in
               if n \<ge> 2 \<and> n \<le> length r'
               then Some (of_le_bytes (take 2 r'), take (n - 2) (drop 2 r'), drop n r') else None
             | [] \<Rightarrow> None)
          else let n = unat b0 * 256 + unat b1 in
            if n \<ge> 2 \<and> n \<le> length r
            then Some (of_le_bytes (take 2 r), take (n - 2) (drop 2 r), drop n r) else None
      | _ \<Rightarrow> None)"

definition spec_client_header :: "u32 \<Rightarrow> bytes \<Rightarrow> bytes" where
  "spec_client_header opcode payload =
     rev (le_bytes 2 (of_nat (length payload + 4) :: u16)) @ le_bytes 4 opcode"

section \<open>The size in a server frame\<close>

lemma unat_high_or:
  assumes "m < 128"
  shows "unat (0x80 OR (of_nat m :: u8)) = 128 + m"
proof -
  have b: "\<not> bit (0x80 :: u8) k \<or> \<not> bit (of_nat m :: u8) k" for k
  proof (cases "k = 7")
    case True
    have "\<not> bit m 7" using assms by (simp add: bit_iff_odd)
    with True show ?thesis by (simp add: bit_of_nat_iff)
  next
    case False
    have "(0x80 :: u8) = push_bit 7 1" by simp
    with False show ?thesis by (simp only: bit_push_bit_iff bit_1_iff) auto
  qed
  have "(0x80 :: u8) + of_nat m = 0x80 OR of_nat m"
    by (rule disjunctive_add) (rule b)
  then have "unat (0x80 OR (of_nat m :: u8)) = unat ((0x80 :: u8) + of_nat m)" by simp
  also have "\<dots> = 128 + m" using assms by (simp add: unat_word_ariths unat_of_nat)
  finally show ?thesis .
qed

lemma le_bytes_2: "le_bytes 2 (w :: 'a::len word) = [ucast w, ucast (drop_bit 8 w)]"
  by (simp add: le_bytes_def upt_rec numeral_2_eq_2)

lemma div_mod_bytes: "n div 65536 * 65536 + n div 256 mod 256 * 256 + n mod 256 = (n :: nat)"
proof -
  have "n div 256 div 256 = n div 65536" by (simp add: div_mult2_eq [symmetric])
  then have "n div 256 = n div 65536 * 256 + n div 256 mod 256"
    using div_mult_mod_eq [of "n div 256" 256] by simp
  then have "n div 256 * 256 = n div 65536 * 65536 + n div 256 mod 256 * 256" by simp
  then show ?thesis using div_mult_mod_eq [of n 256] by linarith
qed

lemma server_frame_short:
  assumes n: "n = length payload + 2" and "n \<le> 0x7fff"
  shows "spec_server_frame (([of_nat (n div 2 ^ 8), of_nat n] @ le_bytes 2 opcode @ payload) @ rest) =
    Some (opcode, payload, rest)"
proof -
  from assms(2) have d: "n div 256 < 128" by simp
  then have hi: "\<not> (0x80 :: u8) \<le> of_nat (n div 256)"
    by (simp add: word_le_nat_alt unat_of_nat)
  have "unat (of_nat (n div 256) :: u8) * 256 + unat (of_nat n :: u8) = n"
    using d div_mult_mod_eq [of n 256] by (simp add: unat_of_nat)
  with hi n show ?thesis
    by (simp add: spec_server_frame_def Let_def)
qed

lemma spec_server_frame_long:
  assumes "0x80 \<le> b0" "(unat b0 - 128) * 65536 + unat b1 * 256 + unat b2 = m"
    and "2 \<le> m" "m \<le> length (payload @ rest) + 2"
  shows "spec_server_frame (([b0, b1, b2] @ le_bytes 2 opcode @ payload) @ rest) =
    Some (opcode, take (m - 2) (payload @ rest), drop (m - 2) (payload @ rest))"
  using assms by (simp add: spec_server_frame_def Let_def)

lemma EncodeServerFrame_long:
  assumes "n = length payload + 2" "0x7fff < n" "n \<le> 0xffffff"
  shows "EncodeServerFrame opcode payload =
    Inr ([0x80 OR of_nat (n div 2 ^ 16), of_nat (n div 2 ^ 8), of_nat n] @ le_bytes 2 opcode @ payload, 5)"
  using assms(2,3) by (simp only: EncodeServerFrame_def Let_def assms(1) [symmetric]) simp

text \<open>
  every packet whose size field fits in 23 bits is framed without error, the returned
  header length is what the frame has before the payload, and a client that splits the byte
  stream by the size in the header gets exactly the opcode and the payload back, whatever follows.
\<close>

theorem server_frame_roundtrip:
  assumes "length payload + 2 < 2 ^ 23"
  shows "\<exists>frame h. EncodeServerFrame opcode payload = Inr (frame, h) \<and>
     h + length payload = length frame \<and>
     spec_server_frame (frame @ rest) = Some (opcode, payload, rest)"
proof (cases "length payload + 2 \<le> 0x7fff")
  case True
  then show ?thesis
    using server_frame_short [OF refl True, of opcode rest] by (simp add: EncodeServerFrame_def Let_def)
next
  case False
  define n where "n = length payload + 2"
  from assms False have n: "0x7fff < n" "n < 2 ^ 23" "length payload = n - 2" by (simp_all add: n_def)
  then have d: "n div 65536 < 128" by simp
  have hi: "unat (0x80 OR (of_nat (n div 65536) :: u8)) = 128 + n div 65536"
    by (rule unat_high_or [OF d])
  have "spec_server_frame (([0x80 OR of_nat (n div 2 ^ 16), of_nat (n div 2 ^ 8), of_nat n]
      @ le_bytes 2 opcode @ payload) @ rest) =
    Some (opcode, take (n - 2) (payload @ rest), drop (n - 2) (payload @ rest))"
    using hi div_mod_bytes [of n] n by (intro spec_server_frame_long)
      (simp_all add: word_le_nat_alt unat_of_nat)
  then show ?thesis
    using EncodeServerFrame_long [OF n_def n(1)] n(2) by (simp add: n_def)
qed

lemma bit_0x80: "bit (0x80 :: u8) k \<longleftrightarrow> k = 7"
proof -
  have "(0x80 :: u8) = push_bit 7 1" by simp
  then show ?thesis by (simp only: bit_push_bit_iff bit_1_iff) auto
qed

lemma unat_high_or_high:
  assumes "128 \<le> m" "m < 256"
  shows "unat (0x80 OR (of_nat m :: u8)) = m"
proof -
  have "m div 128 = 1" using assms by (simp add: div_nat_eqI)
  then have "bit m 7" by (simp add: bit_iff_odd)
  then have "0x80 OR (of_nat m :: u8) = of_nat m"
    by (intro bit_word_eqI) (auto simp only: bit_or_iff bit_0x80 bit_of_nat_iff, simp)
  with assms show ?thesis by (simp add: unat_of_nat)
qed

text \<open>
  the encoder's own limit is one bit too generous. A payload of \<open>2 ^ 23\<close> bytes or more
  (up to the limit) is accepted, but bit 23 of its size coincides with the long-form mark: the
  client takes a payload shorter by \<open>2 ^ 23\<close> and reads the remainder as the next frame.
\<close>

theorem server_frame_desync:
  assumes "2 ^ 23 \<le> length payload" "length payload + 2 \<le> 0xffffff"
  shows "\<exists>frame. EncodeServerFrame opcode payload = Inr (frame, 5) \<and>
    spec_server_frame (frame @ rest) = Some (opcode, take (length payload - 2 ^ 23) payload,
      drop (length payload - 2 ^ 23) payload @ rest)"
proof -
  define n where "n = length payload + 2"
  have n: "length payload = n - 2" "n \<ge> 2 ^ 23 + 2" "n \<le> 0xffffff"
    using assms by (simp_all add: n_def)
  then have d: "128 \<le> n div 65536" "n div 65536 < 256"
    by (simp_all add: less_eq_div_iff_mult_less_eq div_less_iff_less_mult)
  have hi: "unat (0x80 OR (of_nat (n div 65536) :: u8)) = n div 65536"
    by (rule unat_high_or_high [OF d])
  then have hi': "(0x80 :: u8) \<le> 0x80 OR of_nat (n div 65536)"
    using d by (simp add: word_le_nat_alt)
  have "spec_server_frame (([0x80 OR of_nat (n div 2 ^ 16), of_nat (n div 2 ^ 8), of_nat n]
      @ le_bytes 2 opcode @ payload) @ rest) =
    Some (opcode, take (n - 2 ^ 23 - 2) (payload @ rest), drop (n - 2 ^ 23 - 2) (payload @ rest))"
    using hi hi' div_mod_bytes [of n] d(1) n
    by (intro spec_server_frame_long) (simp_all add: unat_of_nat diff_mult_distrib, linarith)
  then show ?thesis
    using EncodeServerFrame_long [OF n_def _ n(3)] n(2) by (simp add: n_def)
qed

lemma client_header_decode:
  assumes "length payload + 4 < 10240"
  shows "DecodeClientFrameHeader (spec_client_header opcode payload) =
    Inr \<lparr>h_size = of_nat (length payload + 4), h_opcode = opcode, h_payload_size = int (length payload)\<rparr>"
proof -
  let ?w = "of_nat (length payload + 4) :: u16"
  have u: "unat ?w = length payload + 4" using assms by (simp only: unat_of_nat) simp
  then have "\<not> ?w < 4" "\<not> 10240 \<le> ?w" "uint ?w - 4 = int (length payload)"
    using assms by (simp_all add: word_less_nat_alt word_le_nat_alt uint_nat del: of_nat_add)
  moreover have "of_le_bytes (rev (take 2 (spec_client_header opcode payload))) = ?w"
    by (simp only: spec_client_header_def take_append length_rev length_le_bytes) simp
  moreover have "drop 2 (spec_client_header opcode payload) = le_bytes 4 opcode"
    by (simp add: spec_client_header_def)
  ultimately show ?thesis
    by (simp add: DecodeClientFrameHeader_def ClientHeaderSize_def Let_def del: of_nat_add)
      (simp add: spec_client_header_def)
qed

lemma DecodeClientFrameHeader_bounds:
  assumes "DecodeClientFrameHeader h = Inr p"
  shows "0 \<le> h_payload_size p" "h_payload_size p \<le> 10235" "h_payload_size p = uint (h_size p) - 4"
  using assms by (auto simp: DecodeClientFrameHeader_def Let_def word_less_def word_le_def not_less not_le
      split: if_splits)

lemma ReadFull_ok: "ReadFull n s = (Inr d, r) \<Longrightarrow> s = d @ r \<and> length d = n"
  by (auto simp: ReadFull_def split: if_splits)

text \<open>
  whatever bytes arrive and whatever the decryption yields, a frame the server accepts
  is six header bytes followed by the payload it returns, the payload has the length the header
  announces, and it is never longer than 10235 bytes.
\<close>

theorem ReadClientFrame_bounded:
  assumes "ReadClientFrame decrypt s stream = (Inr (hdr, payload), s', rest)"
  shows "int (length payload) = h_payload_size hdr \<and> length payload \<le> 10235 \<and>
    (\<exists>h. length h = 6 \<and> stream = h @ payload @ rest)"
proof -
  obtain h r where h: "ReadFull ClientHeaderSize stream = (Inr h, r)"
    using assms by (auto simp: ReadClientFrame_def split: sum.splits prod.splits)
  moreover obtain plain where "DecodeClientFrameHeader plain = Inr hdr"
      "ReadFull (nat (h_payload_size hdr)) r = (Inr payload, rest)"
    using assms h by (auto simp: ReadClientFrame_def split: sum.splits prod.splits)
  ultimately show ?thesis
    using DecodeClientFrameHeader_bounds [of plain hdr]
    by (auto dest!: ReadFull_ok simp: ClientHeaderSize_def)
qed

section \<open>Two ends of one cipher\<close>

text \<open>
  What a sender and a receiver with states in \<open>sync\<close> promise: sending succeeds and keeps the
  length, receiving what was sent gives the data back, and the states stay in sync.
\<close>

locale stream_channel =
  fixes enc :: "'c \<Rightarrow> bytes \<Rightarrow> (go_error + bytes) \<times> 'c"
    and dec :: "'s \<Rightarrow> bytes \<Rightarrow> (go_error + bytes) \<times> 's"
    and sync :: "'c \<Rightarrow> 's \<Rightarrow> bool"
  assumes enc_total: "sync c s \<Longrightarrow> \<exists>y c'. enc c x = (Inr y, c') \<and> length y = length x"
    and dec_enc: "sync c s \<Longrightarrow> enc c x = (Inr y, c') \<Longrightarrow> \<exists>s'. dec s y = (Inr x, s') \<and> sync c' s'"

text \<open>A client sends messages by enciphering each header; a server reads them one by one.\<close>

primrec client_stream ::
    "('c \<Rightarrow> bytes \<Rightarrow> (go_error + bytes) \<times> 'c) \<Rightarrow> 'c \<Rightarrow> (u32 \<times> bytes) list \<Rightarrow> bytes" where
  "client_stream enc c [] = []"
| "client_stream enc c (m # ms) =
     (case enc c (spec_client_header (fst m) (snd m)) of
        (Inl e, c') \<Rightarrow> [] | (Inr h, c') \<Rightarrow> h @ snd m @ client_stream enc c' ms)"

primrec server_reads ::
    "('s \<Rightarrow> bytes \<Rightarrow> (go_error + bytes) \<times> 's) \<Rightarrow> 's \<Rightarrow> nat \<Rightarrow> bytes \<Rightarrow> (u32 \<times> bytes) list" where
  "server_reads dec s 0 stream = []"
| "server_reads dec s (Suc n) stream =
     (case ReadClientFrame (Some dec) s stream of
        (Inl e, r) \<Rightarrow> []
      | (Inr (h, payload), s', r) \<Rightarrow> (h_opcode h, payload) # server_reads dec s' n r)"

text \<open>A message the size limit of the server lets through.\<close>

definition sendable :: "u32 \<times> bytes \<Rightarrow> bool" where
  "sendable m \<longleftrightarrow> length (snd m) + 4 < 10240"

context stream_channel
begin

lemma read_one:
  assumes "sync c s" "sendable m" "enc c (spec_client_header (fst m) (snd m)) = (Inr h, c')"
  shows "\<exists>s' hdr. ReadClientFrame (Some dec) s (h @ snd m @ rest) = (Inr (hdr, snd m), s', rest) \<and>
    h_opcode hdr = fst m \<and> sync c' s'"
proof -
  from dec_enc [OF assms(1,3)] obtain s' where
    s': "dec s h = (Inr (spec_client_header (fst m) (snd m)), s')" "sync c' s'" by blast
  from enc_total [OF assms(1), of "spec_client_header (fst m) (snd m)"] assms(3)
  have "length h = 6" by (auto simp: spec_client_header_def)
  then have "ReadFull ClientHeaderSize (h @ snd m @ rest) = (Inr h, snd m @ rest)"
    by (simp add: ReadFull_def ClientHeaderSize_def)
  with s' client_header_decode [of "snd m" "fst m"] assms(2) show ?thesis
    by (simp add: ReadClientFrame_def sendable_def ReadFull_def)
qed

lemma session:
  "sync c s \<Longrightarrow> list_all sendable ms \<Longrightarrow>
    server_reads dec s (length ms) (client_stream enc c ms @ rest) = ms"
proof (induction ms arbitrary: c s)
  case Nil
  then show ?case by simp
next
  case (Cons m ms)
  from enc_total [OF Cons.prems(1)] obtain h c' where
    h: "enc c (spec_client_header (fst m) (snd m)) = (Inr h, c')" by blast
  from read_one [OF Cons.prems(1) _ h, of "client_stream enc c' ms @ rest"] Cons.prems(2)
  obtain s' hdr where "ReadClientFrame (Some dec) s (h @ snd m @ client_stream enc c' ms @ rest) =
      (Inr (hdr, snd m), s', client_stream enc c' ms @ rest)" "h_opcode hdr = fst m" "sync c' s'"
    by auto
  with h Cons.IH [of c' s'] Cons.prems(2) show ?case by simp
qed

end

definition in_sync :: "auth_crypt \<Rightarrow> auth_crypt \<Rightarrow> bool" where
  "in_sync c s \<longleftrightarrow> initialized c \<and> initialized s \<and> serverEncrypt c \<noteq> None \<and>
     serverEncrypt c = clientDecrypt s"

interpretation ac: stream_channel EncryptSend DecryptRecv in_sync
proof unfold_locales
  fix c s :: auth_crypt and x
  assume "in_sync c s"
  then obtain r where "serverEncrypt c = Some r" "initialized c" by (metis in_sync_def not_None_eq)
  then show "\<exists>y c'. EncryptSend c x = (Inr y, c') \<and> length y = length x"
    by (cases "rc4_xor r x") (auto simp: EncryptSend_def crypt_def length_rc4_xor)
next
  fix c s c' :: auth_crypt and x y
  assume sy: "in_sync c s" and e: "EncryptSend c x = (Inr y, c')"
  from sy obtain r where r: "clientDecrypt s = Some r" by (metis in_sync_def not_None_eq)
  with sy have sc: "serverEncrypt c = Some r" "initialized c" "initialized s"
    by (simp_all add: in_sync_def)
  from e sc obtain r' where r': "rc4_xor r x = (y, r')" "c' = c\<lparr>serverEncrypt := Some r'\<rparr>"
    by (auto simp: EncryptSend_def crypt_def split: prod.splits)
  with r sc rc4_xor_involution [OF r'(1)]
  show "\<exists>s'. DecryptRecv s y = (Inr x, s') \<and> in_sync c' s'"
    by (simp add: DecryptRecv_def crypt_def in_sync_def)
qed

lemma rc4_new_hmac: "\<exists>c. rc4_new (hmac_sha1 k m) = Inr c"
  by (simp add: rc4_new_def)

lemma auth_crypt_pair:
  "\<exists>s c. NewAuthCrypt key = Inr s \<and> NewClientAuthCrypt key = Inr c \<and> in_sync c s \<and> in_sync s c"
  using rc4_new_hmac [of server_key key] rc4_new_hmac [of client_key key]
  by (auto simp: NewAuthCrypt_def NewClientAuthCrypt_def in_sync_def)

text \<open>
  C4: for every session key both ends of the header cipher come up, and from then on the
  server reads back, in order and unchanged, any list of client messages of legal size, with
  whatever bytes following them untouched.
\<close>

theorem world_session_delivers:
  "list_all sendable ms \<Longrightarrow>
   \<exists>s c. NewAuthCrypt key = Inr s \<and> NewClientAuthCrypt key = Inr c \<and>
    server_reads DecryptRecv s (length ms) (client_stream EncryptSend c ms @ rest) = ms"
  using auth_crypt_pair [of key] ac.session [where ms = ms] by blast

lemma server_frame_desync_witness:
  "\<exists>frame. EncodeServerFrame 0x1F6 (replicate (2 ^ 23) 7) = Inr (frame, 5) \<and>
    spec_server_frame (frame @ []) = Some (0x1F6, [], replicate (2 ^ 23) 7)"
  using server_frame_desync [where payload = "replicate (2 ^ 23) 7" and opcode = "0x1F6" and rest = "[]"]
  by simp

lemma server_frame_roundtrip_witness:
  "\<exists>frame h. EncodeServerFrame 0x1EE [1, 2, 3] = Inr (frame, h) \<and> h + length [1 :: u8, 2, 3] = length frame \<and>
    spec_server_frame (frame @ [9]) = Some (0x1EE, [1, 2, 3], [9])"
  using server_frame_roundtrip [where payload = "[1, 2, 3]" and opcode = "0x1EE" and rest = "[9]"] by simp

lemma ReadClientFrame_bounded_witness:
  "int (length [7 :: u8]) = h_payload_size \<lparr>h_size = 5, h_opcode = 1, h_payload_size = 1\<rparr> \<and>
    length [7 :: u8] \<le> 10235 \<and> (\<exists>h. length h = 6 \<and> [0, 5, 1, 0, 0, 0, 7, 8] = h @ [7] @ [8 :: u8])"
proof -
  have "ReadClientFrame None () [0, 5, 1, 0, 0, 0, 7, 8] =
      (Inr (\<lparr>h_size = 5, h_opcode = 1, h_payload_size = 1\<rparr>, [7]), (), [8])"
    by (simp add: ReadClientFrame_def ReadFull_def ClientHeaderSize_def DecodeClientFrameHeader_def Let_def)
  then show ?thesis by (rule ReadClientFrame_bounded)
qed

lemma world_session_delivers_witness:
  "\<exists>s c. NewAuthCrypt [1, 2] = Inr s \<and> NewClientAuthCrypt [1, 2] = Inr c \<and>
    server_reads DecryptRecv s (Suc (Suc 0)) (client_stream EncryptSend c [(0x37, [5]), (0x95, [])] @ [0]) =
      [(0x37, [5]), (0x95, [])]"
  using world_session_delivers [where ms = "[(0x37, [5]), (0x95, [])]" and key = "[1, 2]" and rest = "[0]"]
  by (simp add: sendable_def)


end
