(* ===== verification/Lfg_Roles.thy ===== *)
theory Lfg_Roles
  imports Go_Prelude
begin

text \<open>
  \<^verbatim>\<open>engine/world/lfg.go\<close>, the role solver: \<open>lfgCheckGroupRoles\<close> decides whether every member of
  a party can take exactly one of the roles they offered with at most one tank, one healer and
  three damage dealers. It mutates the map it is given while it tries role after role; the model
  returns the map with the answer.
\<close>

section \<open>Roles\<close>

abbreviation (input) LFGRoleNone :: u8 where "LFGRoleNone \<equiv> 0"
abbreviation (input) LFGRoleLeader :: u8 where "LFGRoleLeader \<equiv> 1"
abbreviation (input) LFGRoleTank :: u8 where "LFGRoleTank \<equiv> 2"
abbreviation (input) LFGRoleHealer :: u8 where "LFGRoleHealer \<equiv> 4"
abbreviation (input) LFGRoleDamage :: u8 where "LFGRoleDamage \<equiv> 8"
abbreviation (input) LFGRoleAny :: u8 where "LFGRoleAny \<equiv> 15"

definition lfgTanksNeeded :: nat where "lfgTanksNeeded = 1"
definition lfgHealersNeeded :: nat where "lfgHealersNeeded = 1"
definition lfgDPSNeeded :: nat where "lfgDPSNeeded = 3"

type_synonym role_map = "(u64, u8) gomap"

section \<open>The solver\<close>

text \<open>
  One of the three arms of the loop body (damage, healer, tank differ in the bit, the limit and
  the counter). \<open>Inl\<close> is a \<open>return\<close>, \<open>Inr\<close> goes on with the map and the counter. \<open>solve\<close> is the
  recursive call, \<open>None\<close> meaning out of fuel.
\<close>

definition role_arm ::
    "(role_map \<Rightarrow> (bool \<times> role_map) option) \<Rightarrow> u8 \<Rightarrow> nat \<Rightarrow> u64 \<Rightarrow> u8 \<Rightarrow> role_map \<Rightarrow> nat \<Rightarrow>
     ((bool \<times> role_map) + (role_map \<times> nat)) option" where
  "role_arm solve flag limit guid role roles n =
     (if role AND flag \<noteq> 0 then
        if role \<noteq> flag then
          (case solve (gput guid (the (gget roles guid) - flag) roles) of
             None \<Rightarrow> None
           | Some (True, roles') \<Rightarrow> Some (Inl (True, roles'))
           | Some (False, roles') \<Rightarrow>
               Some (Inr (gput guid (the (gget roles' guid) + flag) roles', n)))
        else if n = limit then Some (Inl (False, roles))
        else Some (Inr (roles, n + 1))
      else Some (Inr (roles, n)))"

definition without_leader :: "u8 \<Rightarrow> u8" where
  "without_leader role = role AND NOT LFGRoleLeader"

primrec role_loop ::
    "(role_map \<Rightarrow> (bool \<times> role_map) option) \<Rightarrow> u64 list \<Rightarrow> role_map \<Rightarrow> nat \<Rightarrow> nat \<Rightarrow> nat \<Rightarrow>
     (bool \<times> role_map) option" where
  "role_loop solve [] roles damage tank healer =
     Some (tank + healer + damage = length roles, roles)"
| "role_loop solve (guid # guids) roles damage tank healer =
     (let role = without_leader (the (gget roles guid)) in
      if role = LFGRoleNone then Some (False, roles)
      else case role_arm solve LFGRoleDamage lfgDPSNeeded guid role roles damage of
        None \<Rightarrow> None
      | Some (Inl result) \<Rightarrow> Some result
      | Some (Inr (roles, damage)) \<Rightarrow>
         (case role_arm solve LFGRoleHealer lfgHealersNeeded guid role roles healer of
            None \<Rightarrow> None
          | Some (Inl result) \<Rightarrow> Some result
          | Some (Inr (roles, healer)) \<Rightarrow>
             (case role_arm solve LFGRoleTank lfgTanksNeeded guid role roles tank of
                None \<Rightarrow> None
              | Some (Inl result) \<Rightarrow> Some result
              | Some (Inr (roles, tank)) \<Rightarrow> role_loop solve guids roles damage tank healer)))"

primrec check_roles_fuel :: "nat \<Rightarrow> role_map \<Rightarrow> (bool \<times> role_map) option" where
  "check_roles_fuel 0 roles = None"
| "check_roles_fuel (Suc fuel) roles =
     (if roles = [] then Some (False, roles)
      else role_loop (check_roles_fuel fuel) (sort (gkeys roles)) roles 0 0 0)"

text \<open>
  Every recursive call clears one role bit of one member, so the number of role bits, plus one,
  is enough fuel.
\<close>

definition role_options :: "u8 \<Rightarrow> u8 list" where
  "role_options r = filter (has_flag r) [LFGRoleTank, LFGRoleHealer, LFGRoleDamage]"

definition role_bits :: "role_map \<Rightarrow> nat" where
  "role_bits roles = sum_list (map (\<lambda>(g, r). length (role_options r)) roles)"

definition lfgCheckGroupRoles :: "role_map \<Rightarrow> bool \<times> role_map" where
  "lfgCheckGroupRoles roles = the (check_roles_fuel (Suc (role_bits roles)) roles)"

section \<open>What the solver promises\<close>

text \<open>
  An assignment gives every member one of the roles they offered, within the limits of the group
  composition. \<open>sane\<close> roles are what every entry point stores after \<open>roles &= LFGRoleAny\<close>.
\<close>

definition sane_roles :: "role_map \<Rightarrow> bool" where
  "sane_roles roles \<longleftrightarrow> gmap_ok roles \<and> (\<forall>(g, r) \<in> set roles. r AND LFGRoleAny = r)"

definition assignment :: "role_map \<Rightarrow> (u64 \<Rightarrow> u8) \<Rightarrow> bool" where
  "assignment roles f \<longleftrightarrow>
     (\<forall>g r. gget roles g = Some r \<longrightarrow> f g \<in> set (role_options r)) \<and>
     card {g \<in> set (gkeys roles). f g = LFGRoleTank} \<le> lfgTanksNeeded \<and>
     card {g \<in> set (gkeys roles). f g = LFGRoleHealer} \<le> lfgHealersNeeded \<and>
     card {g \<in> set (gkeys roles). f g = LFGRoleDamage} \<le> lfgDPSNeeded"

definition solvable :: "role_map \<Rightarrow> bool" where
  "solvable roles \<longleftrightarrow> roles \<noteq> [] \<and> (\<exists>f. assignment roles f)"

text \<open>Every member is left with a single role, one of those they offered.\<close>

definition resolves :: "role_map \<Rightarrow> role_map \<Rightarrow> bool" where
  "resolves roles roles' \<longleftrightarrow> gkeys roles' = gkeys roles \<and>
     (\<forall>g r. gget roles g = Some r \<longrightarrow> (\<exists>r' b. gget roles' g = Some r' \<and> role_options r' = [b] \<and>
        b \<in> set (role_options r) \<and> r' AND LFGRoleLeader = r AND LFGRoleLeader)) \<and>
     (\<exists>f. assignment roles' f)"

section \<open>Single roles\<close>

lemma u8_sane_cases:
  assumes "r AND 15 = (r :: u8)"
  shows "r \<in> {0, 1, 2, 3, 4, 5, 6, 7, 8, 9, 10, 11, 12, 13, 14, 15}"
proof -
  have "r \<le> 15" using assms word_and_le1 [of r 15] by simp
  then have "unat r \<le> 15" by (simp add: word_le_nat_alt)
  then have "unat r \<in> {0, 1, 2, 3, 4, 5, 6, 7, 8, 9, 10, 11, 12, 13, 14, 15}" by auto arith
  then have "of_nat (unat r) \<in> (of_nat ` {0, 1, 2, 3, 4, 5, 6, 7, 8, 9, 10, 11, 12, 13, 14, 15} :: u8 set)"
    by blast
  then show ?thesis by simp
qed

lemma role_options_bits: "b \<in> set (role_options r) \<Longrightarrow> b = 2 \<or> b = 4 \<or> b = 8"
  unfolding role_options_def set_filter by simp

lemma role_options_iff: "b \<in> set (role_options r) \<longleftrightarrow> b \<in> {2, 4, 8} \<and> r AND b \<noteq> 0"
  unfolding role_options_def set_filter has_flag_def by simp

lemma sane_role_table:
  assumes "r AND 15 = (r :: u8)"
  shows "(without_leader r = 0 \<longleftrightarrow> role_options r = []) \<and>
    (\<forall>b \<in> {2, 4, 8}. without_leader r = b \<longleftrightarrow> role_options r = [b]) \<and>
    (\<forall>b \<in> {2, 4, 8}. without_leader r AND b = r AND b) \<and>
    (\<forall>b \<in> {2, 4, 8}. r AND b \<noteq> 0 \<longrightarrow>
       role_options (r - b) = filter (\<lambda>c. c \<noteq> b) (role_options r) \<and>
       (r - b) AND 15 = r - b \<and> (r - b) AND 1 = r AND 1)"
  using u8_sane_cases [OF assms]
  by (elim insertE emptyE) (simp_all add: role_options_def has_flag_def without_leader_def)

lemma sane_role_facts:
  assumes "r AND 15 = (r :: u8)"
  shows "without_leader r = 0 \<longleftrightarrow> role_options r = []"
    and "b \<in> {2, 4, 8} \<Longrightarrow> without_leader r = b \<longleftrightarrow> role_options r = [b]"
    and "b \<in> {2, 4, 8} \<Longrightarrow> without_leader r AND b \<noteq> 0 \<longleftrightarrow> b \<in> set (role_options r)"
    and "b \<in> set (role_options r) \<Longrightarrow> role_options (r - b) = filter (\<lambda>c. c \<noteq> b) (role_options r)"
    and "b \<in> set (role_options r) \<Longrightarrow> (r - b) AND 15 = r - b"
    and "b \<in> set (role_options r) \<Longrightarrow> (r - b) AND 1 = r AND 1"
  using sane_role_table [OF assms] by (simp_all only: role_options_iff) blast+

lemma distinct_role_options [simp]: "distinct (role_options r)"
  by (simp add: role_options_def)

section \<open>Assignments\<close>

definition role_of :: "role_map \<Rightarrow> u64 \<Rightarrow> u8" where
  "role_of roles g = the (gget roles g)"

lemma sane_role_of: "sane_roles roles \<Longrightarrow> g \<in> set (gkeys roles) \<Longrightarrow> role_of roles g AND 15 = role_of roles g"
  by (force simp: sane_roles_def role_of_def gm.keys_get dest: gget_in_set)

lemma gput_same: "gget m k = Some v \<Longrightarrow> gput k v (gput k w m) = m"
  by (induction m) (auto simp: gput_def)

lemma gkeys_gput_present: "k \<in> set (gkeys m) \<Longrightarrow> gkeys (gput k v m) = gkeys m"
  by (induction m) (auto simp: gput_def gkeys_def)

lemma sane_roles_gput:
  assumes "sane_roles roles" and "r AND 15 = r"
  shows "sane_roles (gput g r roles)"
proof -
  have "gmap_ok (gput g r roles)" using assms by (simp add: sane_roles_def gm.ok_put)
  moreover have "x AND 15 = x" if "(k, x) \<in> set (gput g r roles)" for k x
  proof -
    have "gget (gput g r roles) k = Some x"
      using that \<open>gmap_ok (gput g r roles)\<close> by (rule in_set_gget [rotated])
    then show ?thesis
      using assms by (auto simp: gomap_simps sane_roles_def split: if_splits dest: gget_in_set)
  qed
  ultimately show ?thesis by (auto simp: sane_roles_def)
qed

definition narrow :: "u64 \<Rightarrow> u8 \<Rightarrow> role_map \<Rightarrow> role_map" where
  "narrow g b roles = gput g (role_of roles g - b) roles"

lemma narrow_facts:
  assumes "sane_roles roles" and "g \<in> set (gkeys roles)" and "b \<in> set (role_options (role_of roles g))"
  shows "sane_roles (narrow g b roles)"
    and "gkeys (narrow g b roles) = gkeys roles"
    and "role_of (narrow g b roles) k =
           (if k = g then role_of roles g - b else role_of roles k)"
    and "gput g (role_of (narrow g b roles) g + b) (narrow g b roles) = roles"
    and "length (narrow g b roles) = length roles"
proof -
  show "sane_roles (narrow g b roles)"
    unfolding narrow_def
    by (rule sane_roles_gput [OF assms(1)])
       (use sane_role_facts(5) [OF sane_role_of [OF assms(1,2)] assms(3)] in simp)
  show keys: "gkeys (narrow g b roles) = gkeys roles"
    by (simp add: narrow_def gkeys_gput_present assms)
  show role: "role_of (narrow g b roles) k =
           (if k = g then role_of roles g - b else role_of roles k)" for k
    by (simp add: narrow_def role_of_def gomap_simps)
  show "gput g (role_of (narrow g b roles) g + b) (narrow g b roles) = roles"
    using assms(2) by (auto simp: narrow_def role_of_def gm.keys_get gm.get_put gput_same)
  show "length (narrow g b roles) = length roles"
    using arg_cong [OF keys, of length] by (simp add: gkeys_def)
qed

lemma assignment_alt:
  "assignment roles f \<longleftrightarrow>
     (\<forall>g \<in> set (gkeys roles). f g \<in> set (role_options (role_of roles g))) \<and>
     card {g \<in> set (gkeys roles). f g = 2} \<le> 1 \<and>
     card {g \<in> set (gkeys roles). f g = 4} \<le> 1 \<and>
     card {g \<in> set (gkeys roles). f g = 8} \<le> 3"
proof -
  have "(\<forall>g r. gget roles g = Some r \<longrightarrow> f g \<in> set (role_options r)) \<longleftrightarrow>
      (\<forall>g \<in> set (gkeys roles). f g \<in> set (role_options (role_of roles g)))"
    by (metis gget_keys gm.keys_get not_None_eq option.sel role_of_def)
  then show ?thesis
    unfolding assignment_def lfgTanksNeeded_def lfgHealersNeeded_def lfgDPSNeeded_def by simp
qed

lemma solvable_narrow:
  assumes "sane_roles roles" and "g \<in> set (gkeys roles)"
    and "b \<in> set (role_options (role_of roles g))"
    and "solvable (narrow g b roles)"
  shows "solvable roles"
proof -
  note nf = narrow_facts [OF assms(1-3)]
  obtain f where f: "assignment (narrow g b roles) f" using assms(4) by (auto simp: solvable_def)
  have "f k \<in> set (role_options (role_of roles k))" if "k \<in> set (gkeys roles)" for k
  proof -
    have "f k \<in> set (role_options (role_of (narrow g b roles) k))"
      using f that by (simp add: assignment_alt nf(2))
    then show ?thesis
      using sane_role_facts(4) [OF sane_role_of [OF assms(1,2)] assms(3)]
      by (cases "k = g") (simp_all add: nf(3))
  qed
  with f have "assignment roles f" by (simp add: assignment_alt nf)
  then show ?thesis using assms(2) by (auto simp: solvable_def)
qed

lemma solvable_multi:
  assumes "sane_roles roles" and "g \<in> set (gkeys roles)"
    and multi: "length (role_options (role_of roles g)) \<ge> 2" and "solvable roles"
  shows "\<exists>b \<in> set (role_options (role_of roles g)). solvable (narrow g b roles)"
proof -
  obtain f where f: "assignment roles f" using assms(4) by (auto simp: solvable_def)
  have "card (set (role_options (role_of roles g))) \<ge> 2"
    using multi by (simp add: distinct_card)
  then have "\<not> set (role_options (role_of roles g)) \<subseteq> {f g}"
    using card_mono [of "{f g}" "set (role_options (role_of roles g))"] by auto
  then obtain b where b: "b \<in> set (role_options (role_of roles g))" "b \<noteq> f g" by auto
  note nf = narrow_facts [OF assms(1,2) b(1)]
  have "f k \<in> set (role_options (role_of (narrow g b roles) k))" if "k \<in> set (gkeys roles)" for k
  proof -
    have "f k \<in> set (role_options (role_of roles k))"
      using f that by (simp add: assignment_alt)
    then show ?thesis
      using b(2) sane_role_facts(4) [OF sane_role_of [OF assms(1,2)] b(1)]
      by (cases "k = g") (simp_all add: nf(3))
  qed
  then have "assignment (narrow g b roles) f" using f by (simp add: assignment_alt nf)
  then show ?thesis using b(1) assms(2) nf(2) by (force simp: solvable_def)
qed

section \<open>One arm, one pass\<close>

text \<open>What a call owes: the answer is solvability, \<open>False\<close> restores the map, \<open>True\<close> resolves it.\<close>

definition solved :: "role_map \<Rightarrow> bool \<times> role_map \<Rightarrow> bool" where
  "solved roles res \<longleftrightarrow> fst res = solvable roles \<and>
     (if fst res then resolves roles (snd res) else snd res = roles)"

definition solves :: "(role_map \<Rightarrow> (bool \<times> role_map) option) \<Rightarrow> role_map \<Rightarrow> bool" where
  "solves s roles \<longleftrightarrow> (\<exists>res. s roles = Some res \<and> solved roles res)"

lemma resolves_narrow:
  assumes "sane_roles roles" and "g \<in> set (gkeys roles)"
    and "b \<in> set (role_options (role_of roles g))" and "resolves (narrow g b roles) roles'"
  shows "resolves roles roles'"
proof -
  note nf = narrow_facts [OF assms(1-3)] and sf = sane_role_facts [OF sane_role_of [OF assms(1,2)]]
  have "\<exists>r' b. gget roles' k = Some r' \<and> role_options r' = [b] \<and> b \<in> set (role_options r) \<and>
      r' AND 1 = r AND 1" if "gget roles k = Some r" for k r
  proof -
    have r: "role_of roles k = r" and "k \<in> set (gkeys (narrow g b roles))"
      using that by (simp_all add: role_of_def nf(2) gget_keys)
    then obtain v where v: "gget (narrow g b roles) k = Some v" by (auto simp: gm.keys_get)
    then have "role_of (narrow g b roles) k = v" by (simp add: role_of_def)
    then have "v = (if k = g then role_of roles g - b else r)" by (simp only: nf(3) r)
    then have "set (role_options v) \<subseteq> set (role_options r)" and "v AND 1 = r AND 1"
      using r sf(4) [OF assms(3)] sf(6) [OF assms(3)] by auto
    with v assms(4) show ?thesis by (fastforce simp: resolves_def)
  qed
  with assms(4) nf(2) show ?thesis by (simp add: resolves_def)
qed

lemma role_arm_single:
  assumes "sane_roles roles" and "g \<in> set (gkeys roles)" and "role_options (role_of roles g) = [c]"
    and "b \<in> {2, 4, 8}"
  shows "role_arm s b limit g (without_leader (role_of roles g)) roles n =
    Some (if b = c then if n = limit then Inl (False, roles) else Inr (roles, n + 1)
          else Inr (roles, n))"
proof -
  note sf = sane_role_facts [OF sane_role_of [OF assms(1,2)]]
  have "c \<in> {2, 4, 8}" using role_options_bits [of c "role_of roles g"] assms(3) by auto
  then have "without_leader (role_of roles g) = c" using sf(2) [of c] assms(3) by blast
  moreover have "c AND b \<noteq> 0 \<longleftrightarrow> b = c" using \<open>c \<in> _\<close> assms(4) by auto
  moreover have "c = b \<longleftrightarrow> b = c" by auto
  ultimately show ?thesis by (simp add: role_arm_def)
qed

lemma role_arm_multi:
  assumes "sane_roles roles" and "g \<in> set (gkeys roles)"
    and "length (role_options (role_of roles g)) \<ge> 2" and "b \<in> {2, 4, 8}"
    and s: "b \<in> set (role_options (role_of roles g)) \<Longrightarrow> solves s (narrow g b roles)"
  shows "(\<exists>roles'. role_arm s b limit g (without_leader (role_of roles g)) roles n =
             Some (Inl (True, roles')) \<and> solvable roles \<and> resolves roles roles')
       \<or> role_arm s b limit g (without_leader (role_of roles g)) roles n = Some (Inr (roles, n)) \<and>
         (b \<in> set (role_options (role_of roles g)) \<longrightarrow> \<not> solvable (narrow g b roles))"
proof (cases "b \<in> set (role_options (role_of roles g))")
  case False
  then show ?thesis
    using sane_role_facts(3) [OF sane_role_of [OF assms(1,2)] assms(4)] by (simp add: role_arm_def)
next
  case True
  note nf = narrow_facts [OF assms(1,2) True]
  have n1: "without_leader (role_of roles g) \<noteq> b"
    using sane_role_facts(2) [OF sane_role_of [OF assms(1,2)] assms(4)] assms(3) by auto
  have n0: "(without_leader (role_of roles g)) AND b \<noteq> 0"
    using sane_role_facts(3) [OF sane_role_of [OF assms(1,2)] assms(4)] True by simp
  obtain ans roles' where r: "s (narrow g b roles) = Some (ans, roles')" "solved (narrow g b roles) (ans, roles')"
    using s [OF True] by (auto simp: solves_def)
  have arm: "role_arm s b limit g (without_leader (role_of roles g)) roles n =
      (if ans then Some (Inl (True, roles'))
       else Some (Inr (gput g (role_of roles' g + b) roles', n)))"
    using r(1) n0 n1 by (simp add: role_arm_def narrow_def role_of_def split: bool.split)
  show ?thesis
  proof (cases ans)
    case ans: True
    with r(2) show ?thesis
      using solvable_narrow [OF assms(1,2) True] resolves_narrow [OF assms(1,2) True]
      unfolding arm by (auto simp: solved_def)
  next
    case ans: False
    with r(2) have "roles' = narrow g b roles" "\<not> solvable (narrow g b roles)"
      by (simp_all add: solved_def)
    then show ?thesis using ans nf(4) unfolding arm by simp
  qed
qed

section \<open>The loop\<close>

definition singles :: "role_map \<Rightarrow> u8 \<Rightarrow> u64 list \<Rightarrow> nat" where
  "singles roles b gs = length (filter (\<lambda>g. role_options (role_of roles g) = [b]) gs)"

lemma singles_Nil [simp]: "singles roles b [] = 0"
  by (simp add: singles_def)

lemma singles_snoc [simp]:
  "singles roles b (gs @ [g]) = singles roles b gs + (if role_options (role_of roles g) = [b] then 1 else 0)"
  by (simp add: singles_def)

lemma singles_le_card:
  assumes "distinct gs" and "set gs \<subseteq> set (gkeys roles)"
    and "\<forall>g \<in> set (gkeys roles). f g \<in> set (role_options (role_of roles g))"
  shows "singles roles b gs \<le> card {g \<in> set (gkeys roles). f g = b}"
proof -
  have "singles roles b gs = card {g \<in> set gs. role_options (role_of roles g) = [b]}"
    using assms(1) by (simp add: singles_def distinct_length_filter Int_def conj_commute)
  also have "\<dots> \<le> card {g \<in> set (gkeys roles). f g = b}"
  proof (intro card_mono subsetI)
    fix g
    assume "g \<in> {g \<in> set gs. role_options (role_of roles g) = [b]}"
    then have g: "g \<in> set gs" "role_options (role_of roles g) = [b]" by simp_all
    with assms(2) have "g \<in> set (gkeys roles)" by blast
    with assms(3) have "f g \<in> set (role_options (role_of roles g))" by blast
    with g \<open>g \<in> set (gkeys roles)\<close> show "g \<in> {g \<in> set (gkeys roles). f g = b}" by simp
  qed simp
  finally show ?thesis .
qed

lemma too_many_singles:
  assumes "distinct gs" and "set gs \<subseteq> set (gkeys roles)"
    and "singles roles 2 gs > 1 \<or> singles roles 4 gs > 1 \<or> singles roles 8 gs > 3"
  shows "\<not> solvable roles"
proof
  assume "solvable roles"
  then obtain f where "assignment roles f" by (auto simp: solvable_def)
  then show False
    using assms(3) singles_le_card [OF assms(1,2), of f 2] singles_le_card [OF assms(1,2), of f 4]
      singles_le_card [OF assms(1,2), of f 8]
    by (auto simp: assignment_alt)
qed

lemma singles_total:
  "singles roles 2 gs + singles roles 4 gs + singles roles 8 gs \<le> length gs \<and>
   (singles roles 2 gs + singles roles 4 gs + singles roles 8 gs = length gs \<longleftrightarrow>
      (\<forall>g \<in> set gs. length (role_options (role_of roles g)) = 1))"
proof (induction gs)
  case (Cons g gs)
  have "length (role_options (role_of roles g)) = 1 \<longleftrightarrow> role_options (role_of roles g) = [2] \<or>
      role_options (role_of roles g) = [4] \<or> role_options (role_of roles g) = [8]"
    using role_options_bits [of _ "role_of roles g"] by (auto simp: length_Suc_conv)
  with Cons.IH show ?case by (auto simp: singles_def)
qed simp

lemma all_single_solvable:
  assumes "gs = gkeys roles \<or> mset gs = mset (gkeys roles)" and "distinct gs" and "roles \<noteq> []"
    and "\<forall>g \<in> set gs. length (role_options (role_of roles g)) = 1"
    and "singles roles 2 gs \<le> 1" "singles roles 4 gs \<le> 1" "singles roles 8 gs \<le> 3"
  shows "solvable roles" and "resolves roles roles"
proof -
  define f where "f = (\<lambda>g. hd (role_options (role_of roles g)))"
  have keys: "set gs = set (gkeys roles)" using assms(1) by (auto dest: mset_eq_setD)
  have one: "role_options (role_of roles g) = [f g]" if "g \<in> set (gkeys roles)" for g
    using that assms(4) keys by (auto simp: f_def length_Suc_conv)
  have "card {g \<in> set (gkeys roles). f g = b} = singles roles b gs" for b
  proof -
    have "singles roles b gs = card {g \<in> set gs. role_options (role_of roles g) = [b]}"
      using assms(2) by (simp add: singles_def distinct_length_filter Int_def conj_commute)
    also have "{g \<in> set gs. role_options (role_of roles g) = [b]} = {g \<in> set (gkeys roles). f g = b}"
      using one keys by auto
    finally show ?thesis by simp
  qed
  then have f: "assignment roles f"
    using assms(5-) one by (simp add: assignment_alt)
  then show "solvable roles" using assms(3) by (auto simp: solvable_def)
  have "\<exists>b. role_options r = [b]" if "gget roles g = Some r" for g r
    using one [of g] that by (auto simp: role_of_def dest: gget_keys)
  with f show "resolves roles roles" by (fastforce simp: resolves_def)
qed

lemma no_option_unsolvable:
  assumes "g \<in> set (gkeys roles)" and "role_options (role_of roles g) = []"
  shows "\<not> solvable roles"
  using assms by (fastforce simp: solvable_def assignment_alt)

lemma role_loop_Cons:
  assumes "without_leader (role_of roles g) \<noteq> 0"
  shows "role_loop s (g # gs) roles damage tank healer =
    (case role_arm s 8 3 g (without_leader (role_of roles g)) roles damage of
        None \<Rightarrow> None
      | Some (Inl result) \<Rightarrow> Some result
      | Some (Inr (roles', damage)) \<Rightarrow>
         (case role_arm s 4 1 g (without_leader (role_of roles g)) roles' healer of
            None \<Rightarrow> None
          | Some (Inl result) \<Rightarrow> Some result
          | Some (Inr (roles', healer)) \<Rightarrow>
             (case role_arm s 2 1 g (without_leader (role_of roles g)) roles' tank of
                None \<Rightarrow> None
              | Some (Inl result) \<Rightarrow> Some result
              | Some (Inr (roles', tank)) \<Rightarrow> role_loop s gs roles' damage tank healer)))"
  using assms
  unfolding role_loop.simps role_of_def lfgTanksNeeded_def lfgHealersNeeded_def lfgDPSNeeded_def Let_def
  by simp

lemma role_loop_Nil:
  assumes "sane_roles roles" and "roles \<noteq> []" and "mset gs = mset (gkeys roles)" and "distinct gs"
    and "(\<exists>g \<in> set gs. length (role_options (role_of roles g)) \<ge> 2) \<longrightarrow> \<not> solvable roles"
    and "\<forall>g \<in> set gs. role_options (role_of roles g) \<noteq> []"
    and "singles roles 2 gs \<le> 1" "singles roles 4 gs \<le> 1" "singles roles 8 gs \<le> 3"
  shows "solves (\<lambda>roles. role_loop s [] roles (singles roles 8 gs) (singles roles 2 gs) (singles roles 4 gs)) roles"
proof -
  have "length gs = length roles"
    using arg_cong [OF assms(3), of size] by (simp add: gkeys_def)
  then have eq: "singles roles 2 gs + singles roles 4 gs + singles roles 8 gs = length roles \<longleftrightarrow>
      (\<forall>g \<in> set gs. length (role_options (role_of roles g)) = 1)"
    using singles_total [of roles gs] by simp
  show ?thesis
  proof (cases "\<forall>g \<in> set gs. length (role_options (role_of roles g)) = 1")
    case True
    with eq all_single_solvable [OF disjI2 [OF assms(3)] assms(4,2) True assms(7-9)] show ?thesis
      by (simp add: solves_def solved_def)
  next
    case False
    then obtain g where g: "g \<in> set gs" "length (role_options (role_of roles g)) \<noteq> 1" by blast
    with assms(6) have "length (role_options (role_of roles g)) \<ge> 2"
      by (metis One_nat_def length_0_conv less_2_cases linorder_not_less)
    with g(1) assms(5) eq False show ?thesis by (auto simp: solves_def solved_def)
  qed
qed

lemma role_loop_solves:
  assumes "sane_roles roles" and "roles \<noteq> []"
    and s: "\<And>g b. g \<in> set (gkeys roles) \<Longrightarrow> b \<in> set (role_options (role_of roles g)) \<Longrightarrow>
      solves s (narrow g b roles)"
  shows "mset (pre @ gs) = mset (gkeys roles) \<Longrightarrow> distinct (pre @ gs) \<Longrightarrow>
    (\<exists>g \<in> set pre. length (role_options (role_of roles g)) \<ge> 2) \<longrightarrow> \<not> solvable roles \<Longrightarrow>
    \<forall>g \<in> set pre. role_options (role_of roles g) \<noteq> [] \<Longrightarrow>
    singles roles 2 pre \<le> 1 \<Longrightarrow> singles roles 4 pre \<le> 1 \<Longrightarrow> singles roles 8 pre \<le> 3 \<Longrightarrow>
    solves (\<lambda>roles. role_loop s gs roles (singles roles 8 pre) (singles roles 2 pre) (singles roles 4 pre)) roles"
proof (induction gs arbitrary: pre)
  case Nil
  then show ?case using role_loop_Nil [OF assms(1,2), of pre s] by simp
next
  case (Cons g gs)
  have keys: "set (pre @ g # gs) = set (gkeys roles)" using Cons.prems(1) by (rule mset_eq_setD)
  then have g: "g \<in> set (gkeys roles)" by auto
  let ?o = "role_options (role_of roles g)"
  have step: "mset ((pre @ [g]) @ gs) = mset (gkeys roles)" "distinct ((pre @ [g]) @ gs)"
    using Cons.prems(1,2) by simp_all
  have small: "\<not> (singles roles 2 (pre @ [g]) > 1 \<or> singles roles 4 (pre @ [g]) > 1 \<or>
      singles roles 8 (pre @ [g]) > 3)" if "solvable roles"
  proof -
    have "distinct (pre @ [g])" and "set (pre @ [g]) \<subseteq> set (gkeys roles)"
      using step(2) keys by auto
    with that show ?thesis using too_many_singles [of "pre @ [g]" roles] by blast
  qed
  note nf = narrow_facts [OF assms(1) g] and sf = sane_role_facts [OF sane_role_of [OF assms(1) g]]
  consider (none) "?o = []" | (single) c where "?o = [c]" | (multi) "length ?o \<ge> 2"
    by (metis One_nat_def length_0_conv length_Suc_conv less_2_cases linorder_not_less)
  then show ?case
  proof cases
    case none
    then have "role_loop s (g # gs) roles d t h = Some (False, roles)" for d t h
      using sf(1) by (simp add: role_of_def)
    then show ?thesis using no_option_unsolvable [OF g none] by (simp add: solves_def solved_def)
  next
    case single
    have c: "c = 2 \<or> c = 4 \<or> c = 8" using role_options_bits [of c "role_of roles g"] single by auto
    note arms = role_arm_single [OF assms(1) g single]
    have r0: "without_leader (role_of roles g) \<noteq> 0" using sf(1) single by simp
    have multi': "(\<exists>k \<in> set (pre @ [g]). length (role_options (role_of roles k)) \<ge> 2) \<longrightarrow> \<not> solvable roles"
      using Cons.prems(3) single by simp
    have ne': "\<forall>k \<in> set (pre @ [g]). role_options (role_of roles k) \<noteq> []"
      using Cons.prems(4) single by simp
    note IH = Cons.IH [OF step multi' ne']
    have full: "\<not> solvable roles" if "c = 2 \<and> singles roles 2 pre = 1 \<or>
        c = 4 \<and> singles roles 4 pre = 1 \<or> c = 8 \<and> singles roles 8 pre = 3"
      using that small single by auto
    have loop: "role_loop s (g # gs) roles (singles roles 8 pre) (singles roles 2 pre) (singles roles 4 pre) =
       (if c = 2 \<and> singles roles 2 pre = 1 \<or> c = 4 \<and> singles roles 4 pre = 1 \<or>
           c = 8 \<and> singles roles 8 pre = 3 then Some (False, roles)
        else role_loop s gs roles (singles roles 8 (pre @ [g])) (singles roles 2 (pre @ [g]))
               (singles roles 4 (pre @ [g])))"
      unfolding role_loop_Cons [OF r0] using c single by (elim disjE) (simp_all add: arms)
    show ?thesis
    proof (cases "c = 2 \<and> singles roles 2 pre = 1 \<or> c = 4 \<and> singles roles 4 pre = 1 \<or>
        c = 8 \<and> singles roles 8 pre = 3")
      case True
      then show ?thesis unfolding solves_def loop using full by (simp add: solved_def)
    next
      case False
      then have "solves (\<lambda>roles. role_loop s gs roles (singles roles 8 (pre @ [g]))
          (singles roles 2 (pre @ [g])) (singles roles 4 (pre @ [g]))) roles"
        using c single Cons.prems(5-7) by (intro IH) auto
      then show ?thesis unfolding solves_def loop if_not_P [OF False] .
    qed
  next
    case multi
    have r0: "without_leader (role_of roles g) \<noteq> 0" using sf(1) multi by auto
    have ne': "\<forall>k \<in> set (pre @ [g]). role_options (role_of roles k) \<noteq> []"
      using Cons.prems(4) multi by auto
    have same: "singles roles b (pre @ [g]) = singles roles b pre" for b
      using multi by auto
    let ?fails = "\<lambda>b. b \<in> set ?o \<longrightarrow> \<not> solvable (narrow g b roles)"
    let ?wins = "\<exists>roles'. role_loop s (g # gs) roles (singles roles 8 pre) (singles roles 2 pre)
        (singles roles 4 pre) = Some (True, roles') \<and> solvable roles \<and> resolves roles roles'"
    let ?goes = "role_loop s (g # gs) roles (singles roles 8 pre) (singles roles 2 pre)
        (singles roles 4 pre) = role_loop s gs roles (singles roles 8 pre) (singles roles 2 pre)
        (singles roles 4 pre) \<and> ?fails 8 \<and> ?fails 4 \<and> ?fails 2"
    have "?wins \<or> ?goes"
      using role_arm_multi [OF assms(1) g multi _ s [OF g], of 8 3 "singles roles 8 pre"]
        role_arm_multi [OF assms(1) g multi _ s [OF g], of 4 1 "singles roles 4 pre"]
        role_arm_multi [OF assms(1) g multi _ s [OF g], of 2 1 "singles roles 2 pre"]
      unfolding role_loop_Cons [OF r0]
      by (elim disjE exE conjE meta_impE) simp_all
    then show ?thesis
    proof
      assume ?wins
      then show ?thesis by (auto simp: solves_def solved_def)
    next
      assume goes: ?goes
      then have "\<not> solvable roles"
        using solvable_multi [OF assms(1) g multi] by (auto dest: role_options_bits)
      then have "solves (\<lambda>roles. role_loop s gs roles (singles roles 8 (pre @ [g]))
          (singles roles 2 (pre @ [g])) (singles roles 4 (pre @ [g]))) roles"
        using Cons.prems(5-7) by (intro Cons.IH [OF step _ ne']) (simp_all only: same, blast)
      with goes show ?thesis unfolding solves_def same by simp
    qed
  qed
qed

section \<open>Termination and correctness\<close>

lemma role_bits_gput:
  "gget m g = Some r \<Longrightarrow>
     role_bits (gput g r' m) + length (role_options r) = role_bits m + length (role_options r')"
  by (induction m) (auto simp: role_bits_def gput_def split: if_splits)

lemma role_bits_narrow:
  assumes "sane_roles roles" and "g \<in> set (gkeys roles)" and "b \<in> set (role_options (role_of roles g))"
  shows "role_bits (narrow g b roles) < role_bits roles"
proof -
  have g: "gget roles g = Some (role_of roles g)" using assms(2) by (auto simp: gm.keys_get role_of_def)
  have "length (role_options (role_of roles g - b)) < length (role_options (role_of roles g))"
    using assms(3) by (simp add: sane_role_facts(4) [OF sane_role_of [OF assms(1,2)]] length_filter_less)
  with role_bits_gput [OF g, of "role_of roles g - b"] show ?thesis by (simp add: narrow_def)
qed

lemma check_roles_fuel_solves:
  "sane_roles roles \<Longrightarrow> role_bits roles < fuel \<Longrightarrow> solves (check_roles_fuel fuel) roles"
proof (induction fuel arbitrary: roles)
  case (Suc fuel)
  show ?case
  proof (cases "roles = []")
    case True
    then show ?thesis by (simp add: solves_def solved_def solvable_def)
  next
    case False
    have "solves (check_roles_fuel fuel) (narrow g b roles)"
      if "g \<in> set (gkeys roles)" "b \<in> set (role_options (role_of roles g))" for g b
      using Suc.prems role_bits_narrow [OF Suc.prems(1) that] narrow_facts(1) [OF Suc.prems(1) that]
      by (intro Suc.IH) auto
    from role_loop_solves [OF Suc.prems(1) False this, of "[]" "sort (gkeys roles)"]
    show ?thesis
      using Suc.prems(1) False by (simp add: solves_def sane_roles_def gm.ok_distinct)
  qed
qed simp

lemma role_arm_mono:
  assumes "\<And>r x. s r = Some x \<Longrightarrow> s' r = Some x"
    and "role_arm s b limit g role roles n = Some x"
  shows "role_arm s' b limit g role roles n = Some x"
proof (cases "role AND b \<noteq> 0 \<and> role \<noteq> b")
  case True
  then obtain y where y: "s (gput g (the (gget roles g) - b) roles) = Some y"
    using assms(2) by (auto simp: role_arm_def split: option.splits)
  show ?thesis using assms(2) unfolding role_arm_def y assms(1) [OF y] .
next
  case False
  then show ?thesis using assms(2) by (auto simp: role_arm_def)
qed

lemma role_loop_mono:
  assumes "\<And>r x. s r = Some x \<Longrightarrow> s' r = Some x"
  shows "role_loop s gs roles d t h = Some x \<Longrightarrow> role_loop s' gs roles d t h = Some x"
proof (induction gs arbitrary: roles d t h)
  case (Cons g gs)
  note arm = role_arm_mono [of s s', OF assms]
  from Cons.prems show ?case
    by (auto simp: Let_def arm Cons.IH split: if_splits option.splits sum.splits)
qed simp

lemma check_roles_fuel_mono:
  "check_roles_fuel f roles = Some x \<Longrightarrow> check_roles_fuel (Suc f) roles = Some x"
proof (induction f arbitrary: roles x)
  case (Suc f)
  show ?case
  proof (cases "roles = []")
    case False
    with Suc.prems have "role_loop (check_roles_fuel f) (sort (gkeys roles)) roles 0 0 0 = Some x"
      by simp
    then have "role_loop (check_roles_fuel (Suc f)) (sort (gkeys roles)) roles 0 0 0 = Some x"
      by (rule role_loop_mono [rotated]) (rule Suc.IH)
    with False show ?thesis by (simp only: check_roles_fuel.simps if_False)
  qed (use Suc.prems in simp)
qed simp

lemma check_roles_fuel_le:
  assumes "check_roles_fuel f roles = Some x" and "f \<le> f'"
  shows "check_roles_fuel f' roles = Some x"
  using assms(2) by (induction rule: dec_induct) (use assms(1) check_roles_fuel_mono in auto)

text \<open>
  The role solver always answers: any fuel above the number of offered role bits gives the
  same answer, so the recursion of the code ends.
\<close>

theorem lfgCheckGroupRoles_terminates:
  assumes "sane_roles roles" and "role_bits roles < fuel"
  shows "check_roles_fuel fuel roles = Some (lfgCheckGroupRoles roles)"
proof -
  obtain res where res: "check_roles_fuel (Suc (role_bits roles)) roles = Some res"
    using check_roles_fuel_solves [OF assms(1), of "Suc (role_bits roles)"] by (auto simp: solves_def)
  from check_roles_fuel_le [OF this, of fuel] assms(2) show ?thesis
    unfolding lfgCheckGroupRoles_def res by simp
qed

theorem lfgCheckGroupRoles_terminates_witness:
  "check_roles_fuel 20 [(7, 14), (3, 12), (5, 8)] = Some (lfgCheckGroupRoles [(7, 14), (3, 12), (5, 8)])"
  by (rule lfgCheckGroupRoles_terminates)
    (simp_all add: sane_roles_def role_bits_def role_options_def has_flag_def)

lemma lfgCheckGroupRoles_solved: "sane_roles roles \<Longrightarrow> solved roles (lfgCheckGroupRoles roles)"
  using check_roles_fuel_solves [of roles "Suc (role_bits roles)"]
  by (auto simp: lfgCheckGroupRoles_def solves_def)

text \<open>
  C17: The role solver is exact: it answers true exactly when every member can take one of the
  roles they offered with at most one tank, one healer and three damage dealers. On true it leaves
  every member of the map with one single offered role (the leader bit kept) that together form
  such an assignment; on false it hands the map back unchanged.
\<close>

theorem lfgCheckGroupRoles_exact:
  assumes "sane_roles roles" and "lfgCheckGroupRoles roles = (ok, roles')"
  shows "(ok \<longleftrightarrow> solvable roles) \<and> (ok \<longrightarrow> resolves roles roles') \<and> (\<not> ok \<longrightarrow> roles' = roles)"
  using lfgCheckGroupRoles_solved [OF assms(1)] assms(2) by (auto simp: solved_def split: if_splits)

theorem lfgCheckGroupRoles_exact_witness:
  "solvable [(7, 6), (3, 12), (5, 9 :: u8)] \<and> \<not> solvable [(7, 2), (3, 2 :: u8)]"
proof -
  have "lfgCheckGroupRoles [(7, 6), (3, 12), (5, 9)] = (True, [(7, 2), (3, 4), (5, 9)])"
    and "lfgCheckGroupRoles [(7, 2), (3, 2)] = (False, [(7, 2), (3, 2)])"
    by code_simp+
  moreover have "sane_roles [(7, 6), (3, 12), (5, 9)]" "sane_roles [(7, 2), (3, 2)]"
    by (simp_all add: sane_roles_def)
  ultimately show ?thesis
    using lfgCheckGroupRoles_exact by blast
qed

end
