(* ===== verification/Lfg_Manager.thy ===== *)
theory Lfg_Manager
  imports Lfg_Roles
begin

text \<open>
  \<^verbatim>\<open>engine/world/lfg.go\<close>, the dungeon finder manager: its state and the operations on the player
  queue, the group queue and the role checks. A method of \<open>LFGManager\<close> is a function from the manager to
  its results and the manager it leaves; the mutex makes each of them one atomic step. A stored
  pointer (\<open>*LfgRoleCheck\<close>, \<open>*LFGGroupQueueEntry\<close>) is the record it points to, since the manager
  changes it only through the map that holds it. A time is nanoseconds since the Unix epoch, and
  \<open>time.Now()\<close> is the argument \<open>now\<close>.
\<close>

section \<open>Data\<close>

abbreviation (input) LFGStateNone :: u8 where "LFGStateNone \<equiv> 0"
abbreviation (input) LFGStateRoleCheck :: u8 where "LFGStateRoleCheck \<equiv> 1"
abbreviation (input) LFGStateQueued :: u8 where "LFGStateQueued \<equiv> 2"
abbreviation (input) LFGStateProposal :: u8 where "LFGStateProposal \<equiv> 3"
abbreviation (input) LFGStateDungeon :: u8 where "LFGStateDungeon \<equiv> 5"
abbreviation (input) LFGStateFinishedDungeon :: u8 where "LFGStateFinishedDungeon \<equiv> 6"

abbreviation (input) LFGRoleCheckFinished :: u32 where "LFGRoleCheckFinished \<equiv> 1"
abbreviation (input) LFGRoleCheckInitializing :: u32 where "LFGRoleCheckInitializing \<equiv> 2"
abbreviation (input) LFGRoleCheckMissingRole :: u32 where "LFGRoleCheckMissingRole \<equiv> 3"
abbreviation (input) LFGRoleCheckWrongRoles :: u32 where "LFGRoleCheckWrongRoles \<equiv> 4"
abbreviation (input) LFGRoleCheckAborted :: u32 where "LFGRoleCheckAborted \<equiv> 5"
abbreviation (input) LFGRoleCheckNoRole :: u32 where "LFGRoleCheckNoRole \<equiv> 6"

abbreviation (input) LFGProposalInitiating :: u8 where "LFGProposalInitiating \<equiv> 0"
abbreviation (input) LFGProposalFailed :: u8 where "LFGProposalFailed \<equiv> 1"
abbreviation (input) LFGProposalSuccess :: u8 where "LFGProposalSuccess \<equiv> 2"

abbreviation (input) LFGAnswerPending :: int where "LFGAnswerPending \<equiv> -1"
abbreviation (input) LFGAnswerDeny :: int where "LFGAnswerDeny \<equiv> 0"
abbreviation (input) LFGAnswerAgree :: int where "LFGAnswerAgree \<equiv> 1"

abbreviation (input) LFGJoinOK :: u32 where "LFGJoinOK \<equiv> 0"
abbreviation (input) LFGJoinNotMeetReqs :: u32 where "LFGJoinNotMeetReqs \<equiv> 5"
abbreviation (input) LFGJoinInvalidDungeon :: u32 where "LFGJoinInvalidDungeon \<equiv> 11"

definition second :: int where "second = 1000000000"

text \<open>\<open>Unix\<close> is the second a time falls in.\<close>

definition unix :: "int \<Rightarrow> int" where "unix t = t div 1000000000"

record LFGQueueEntry =
  qGUID :: u64
  qRoles :: u8
  qDungeons :: "u32 list"
  qComment :: gostring
  qQueuedAt :: int
  qState :: u8
  qOldState :: u8

record LFGGroupQueueEntry =
  gGroupID :: u64
  gDungeons :: "u32 list"
  gRoles :: role_map
  gQueuedAt :: int
  gState :: u8

record LfgRoleCheck =
  cGroupID :: u64
  cLeader :: u64
  cDungeons :: "u32 list"
  cRoles :: role_map
  cState :: u32
  cCreatedAt :: int
  cCancelAt :: int

record LFGProposalPlayer =
  pRole :: u8
  pGroup :: u64
  pAccept :: int

record LFGProposal =
  prID :: u32
  prDungeonID :: u32
  prState :: u8
  prGroup :: u64
  prLeader :: u64
  prCancelTime :: int
  prPlayers :: "(u64, LFGProposalPlayer) gomap"

record lfgWaitTime =
  wtTime :: int
  wtNumber :: u32

record LFGManager =
  mSoloEnable :: bool
  mSolo :: bool
  mOptions :: u32
  mQueue :: "(u64, LFGQueueEntry) gomap"
  mComments :: "(u64, gostring) gomap"
  mRoleChecks :: "(u64, LfgRoleCheck) gomap"
  mProposals :: "(u32, LFGProposal) gomap"
  mGroupQueue :: "(u64, LFGGroupQueueEntry) gomap"
  mWaitAvg :: "(u32, lfgWaitTime) gomap"
  mWaitTank :: "(u32, lfgWaitTime) gomap"
  mWaitHealer :: "(u32, lfgWaitTime) gomap"
  mWaitDps :: "(u32, lfgWaitTime) gomap"
  mNextProposalID :: u32
  mValidateDungeon :: "(u32 \<Rightarrow> bool) option"

text \<open>An entry created on demand holds the GUID and zero values.\<close>

definition fresh_entry :: "u64 \<Rightarrow> LFGQueueEntry" where
  "fresh_entry guid = \<lparr>qGUID = guid, qRoles = 0, qDungeons = [], qComment = [],
     qQueuedAt = zero_time, qState = LFGStateNone, qOldState = LFGStateNone\<rparr>"

section \<open>The manager and its switches\<close>

definition NewLFGManager :: "bool \<Rightarrow> LFGManager" where
  "NewLFGManager soloEnable = \<lparr>mSoloEnable = soloEnable, mSolo = False, mOptions = 1,
     mQueue = [], mComments = [], mRoleChecks = [], mProposals = [], mGroupQueue = [],
     mWaitAvg = [], mWaitTank = [], mWaitHealer = [], mWaitDps = [],
     mNextProposalID = 0, mValidateDungeon = None\<rparr>"

definition SetDungeonValidator :: "(u32 \<Rightarrow> bool) \<Rightarrow> LFGManager \<Rightarrow> LFGManager" where
  "SetDungeonValidator validate m = m\<lparr>mValidateDungeon := Some validate\<rparr>"

definition OnLogin :: "LFGManager \<Rightarrow> LFGManager" where
  "OnLogin m = (if mSoloEnable m \<and> \<not> mSolo m then m\<lparr>mSolo := True\<rparr> else m)"

definition Solo :: "LFGManager \<Rightarrow> bool" where
  "Solo m = mSolo m"

definition ToggleSolo :: "LFGManager \<Rightarrow> bool \<times> LFGManager" where
  "ToggleSolo m = (\<not> mSolo m, m\<lparr>mSolo := \<not> mSolo m\<rparr>)"

definition RequiresFullGroup :: "int \<Rightarrow> int \<Rightarrow> LFGManager \<Rightarrow> bool" where
  "RequiresFullGroup players groupSize m =
     (if players < 0 \<or> groupSize < 0 then True else \<not> Solo m \<and> players \<noteq> groupSize)"

definition GetOptions :: "LFGManager \<Rightarrow> u32" where
  "GetOptions m = mOptions m"

definition SetOptions :: "u32 \<Rightarrow> LFGManager \<Rightarrow> LFGManager" where
  "SetOptions options m = m\<lparr>mOptions := options\<rparr>"

definition Clean :: "LFGManager \<Rightarrow> LFGManager" where
  "Clean m = m\<lparr>mQueue := [], mRoleChecks := [], mProposals := [], mNextProposalID := 0\<rparr>"

section \<open>Joining and leaving the player queue\<close>

text \<open>\<open>uniqueUint32\<close> drops a value equal to the last one it kept.\<close>

definition uniqueUint32 :: "u32 list \<Rightarrow> u32 list" where
  "uniqueUint32 values =
     fold (\<lambda>v result. if result = [] \<or> last result \<noteq> v then result @ [v] else result) values []"

definition old_state :: "LFGManager \<Rightarrow> u64 \<Rightarrow> u8" where
  "old_state m guid = (case gget (mQueue m) guid of Some cur \<Rightarrow> qOldState cur | None \<Rightarrow> LFGStateNone)"

definition Join ::
    "int \<Rightarrow> u64 \<Rightarrow> u8 \<Rightarrow> u32 list \<Rightarrow> gostring \<Rightarrow> LFGManager \<Rightarrow> (u32 \<times> LFGQueueEntry) \<times> LFGManager" where
  "Join now guid roles dungeons comment m =
     (if dungeons = [] then ((LFGJoinNotMeetReqs, (fresh_entry guid)\<lparr>qRoles := roles\<rparr>), m)
      else let roles = roles AND LFGRoleAny in
      if roles = 0 then ((LFGJoinNotMeetReqs, (fresh_entry guid)\<lparr>qRoles := roles\<rparr>), m)
      else let filtered = (case mValidateDungeon m of None \<Rightarrow> dungeons
                           | Some validate \<Rightarrow> filter validate dungeons);
               filtered = uniqueUint32 (sort filtered) in
      if filtered = [] then ((LFGJoinInvalidDungeon, (fresh_entry guid)\<lparr>qRoles := roles\<rparr>), m)
      else let entry = \<lparr>qGUID = guid, qRoles = roles, qDungeons = filtered, qComment = comment,
                 qQueuedAt = now, qState = LFGStateQueued, qOldState = old_state m guid\<rparr> in
        ((LFGJoinOK, entry), m\<lparr>mQueue := gput guid entry (mQueue m)\<rparr>))"

definition leaveLocked :: "u64 \<Rightarrow> LFGManager \<Rightarrow> bool \<times> LFGManager" where
  "leaveLocked guid m =
     (case gget (mQueue m) guid of
        None \<Rightarrow> (False, m)
      | Some entry \<Rightarrow>
          if qState entry \<noteq> LFGStateQueued then (False, m)
          else (True, m\<lparr>mQueue := gdel guid (mQueue m)\<rparr>))"

definition Leave :: "u64 \<Rightarrow> LFGManager \<Rightarrow> bool \<times> LFGManager" where
  "Leave guid m = leaveLocked guid m"

definition forget :: "u64 \<Rightarrow> LFGManager \<Rightarrow> LFGManager" where
  "forget guid m = m\<lparr>mQueue := gdel guid (mQueue m), mComments := gdel guid (mComments m)\<rparr>"

definition setStateLocked :: "u64 \<Rightarrow> u8 \<Rightarrow> LFGManager \<Rightarrow> LFGManager" where
  "setStateLocked guid state m =
     (if state = LFGStateNone then forget guid m
      else let entry = (case gget (mQueue m) guid of Some e \<Rightarrow> e | None \<Rightarrow> fresh_entry guid);
               entry = entry\<lparr>qState := state\<rparr>;
               entry = (if state = LFGStateDungeon \<or> state = LFGStateFinishedDungeon
                        then entry\<lparr>qOldState := state\<rparr> else entry) in
        if state = LFGStateFinishedDungeon
        then m\<lparr>mQueue := gput guid (entry\<lparr>qRoles := 0, qDungeons := [], qComment := []\<rparr>) (mQueue m),
               mComments := gdel guid (mComments m)\<rparr>
        else m\<lparr>mQueue := gput guid entry (mQueue m)\<rparr>)"

definition SetState :: "u64 \<Rightarrow> u8 \<Rightarrow> LFGManager \<Rightarrow> LFGManager" where
  "SetState guid state m = setStateLocked guid state m"

definition restoreStateLocked :: "u64 \<Rightarrow> LFGManager \<Rightarrow> LFGManager" where
  "restoreStateLocked guid m =
     (case gget (mQueue m) guid of
        None \<Rightarrow> m
      | Some entry \<Rightarrow>
          if qOldState entry = LFGStateNone then forget guid m
          else m\<lparr>mQueue := gput guid (entry\<lparr>qState := qOldState entry\<rparr>) (mQueue m)\<rparr>)"

definition SetupGroupMember :: "u64 \<Rightarrow> u32 \<Rightarrow> u8 \<Rightarrow> LFGManager \<Rightarrow> LFGManager" where
  "SetupGroupMember guid dungeon state m =
     (let entry = (case gget (mQueue m) guid of Some e \<Rightarrow> e | None \<Rightarrow> fresh_entry guid) in
      setStateLocked guid state (m\<lparr>mQueue := gput guid (entry\<lparr>qDungeons := [dungeon]\<rparr>) (mQueue m)\<rparr>))"

definition SetComment :: "u64 \<Rightarrow> gostring \<Rightarrow> LFGManager \<Rightarrow> LFGManager" where
  "SetComment guid comment m =
     (let m = m\<lparr>mComments := gput guid comment (mComments m)\<rparr> in
      case gget (mQueue m) guid of
        None \<Rightarrow> m
      | Some entry \<Rightarrow> m\<lparr>mQueue := gput guid (entry\<lparr>qComment := comment\<rparr>) (mQueue m)\<rparr>)"

definition Status :: "u64 \<Rightarrow> LFGManager \<Rightarrow> LFGQueueEntry \<times> bool" where
  "Status guid m =
     (case gget (mQueue m) guid of
        None \<Rightarrow> (fresh_entry guid, False)
      | Some entry \<Rightarrow> (entry, True))"

section \<open>The group queue\<close>

definition leave_member :: "bool \<Rightarrow> u8 \<Rightarrow> u64 \<Rightarrow> LFGManager \<Rightarrow> LFGManager" where
  "leave_member restore restoreState guid m =
     (case gget (mQueue m) guid of
        None \<Rightarrow> m
      | Some cur \<Rightarrow>
          if qState cur = LFGStateQueued
          then setStateLocked guid (if restore then restoreState else LFGStateNone) m
          else m)"

definition LeaveQueuedGroup ::
    "u64 \<Rightarrow> u64 \<Rightarrow> bool \<Rightarrow> u8 \<Rightarrow> LFGManager \<Rightarrow> u64 list \<times> LFGManager" where
  "LeaveQueuedGroup groupID exclude restore restoreState m =
     (case gget (mGroupQueue m) groupID of
        None \<Rightarrow> ([], m)
      | Some entry \<Rightarrow>
          if gState entry \<noteq> LFGStateQueued then ([], m)
          else let m = m\<lparr>mGroupQueue := gdel groupID (mGroupQueue m)\<rparr>;
                   affected = filter (\<lambda>guid. guid \<noteq> exclude) (gkeys (gRoles entry));
                   m = fold (leave_member restore restoreState) affected m in
            (sort affected, m))"

definition QueueGroup ::
    "int \<Rightarrow> u64 \<Rightarrow> u64 \<Rightarrow> u32 list \<Rightarrow> role_map \<Rightarrow> gostring \<Rightarrow> LFGManager \<Rightarrow> LFGManager" where
  "QueueGroup now groupID leaderGUID dungeons roles comment m =
     fold (\<lambda>(guid, role) m. m\<lparr>mQueue := gput guid
         \<lparr>qGUID = guid, qRoles = role, qDungeons = dungeons,
          qComment = (if guid = leaderGUID then comment else []),
          qQueuedAt = now, qState = LFGStateQueued, qOldState = old_state m guid\<rparr> (mQueue m)\<rparr>)
       roles
       (m\<lparr>mGroupQueue := gput groupID
          \<lparr>gGroupID = groupID, gDungeons = dungeons, gRoles = roles, gQueuedAt = now,
           gState = LFGStateQueued\<rparr> (mGroupQueue m)\<rparr>)"

definition LeaveGroup :: "u64 \<Rightarrow> LFGManager \<Rightarrow> bool \<times> LFGManager" where
  "LeaveGroup groupID m =
     (case gget (mGroupQueue m) groupID of
        None \<Rightarrow> (False, m)
      | Some _ \<Rightarrow> (True, m\<lparr>mGroupQueue := gdel groupID (mGroupQueue m)\<rparr>))"

definition deleteGroupEntriesContainingLocked :: "u64 \<Rightarrow> LFGManager \<Rightarrow> LFGManager" where
  "deleteGroupEntriesContainingLocked guid m =
     m\<lparr>mGroupQueue := filter (\<lambda>(groupID, entry). gget (gRoles entry) guid = None) (mGroupQueue m)\<rparr>"

definition lfgGroupQueued :: "u64 \<Rightarrow> LFGManager \<Rightarrow> bool" where
  "lfgGroupQueued groupID m =
     (case gget (mGroupQueue m) groupID of
        None \<Rightarrow> False | Some entry \<Rightarrow> gState entry = LFGStateQueued)"

section \<open>Role checks\<close>

definition lfgTimeRoleCheck :: int where "lfgTimeRoleCheck = 45"

definition StartRoleCheck ::
    "int \<Rightarrow> u64 \<Rightarrow> u64 \<Rightarrow> u32 list \<Rightarrow> u8 \<Rightarrow> u64 list \<Rightarrow> LFGManager \<Rightarrow> LfgRoleCheck \<times> LFGManager" where
  "StartRoleCheck now groupID leaderGUID dungeons leaderRoles members m =
     (let rc = \<lparr>cGroupID = groupID, cLeader = leaderGUID, cDungeons = dungeons,
                cRoles = gput leaderGUID (leaderRoles AND LFGRoleAny)
                           (fold (\<lambda>guid. gput guid LFGRoleNone) members []),
                cState = LFGRoleCheckInitializing, cCreatedAt = now,
                cCancelAt = now + lfgTimeRoleCheck * second\<rparr> in
      (rc, m\<lparr>mRoleChecks := gput groupID rc (mRoleChecks m)\<rparr>))"

definition GetRoleCheck :: "u64 \<Rightarrow> LFGManager \<Rightarrow> LfgRoleCheck option" where
  "GetRoleCheck groupID m = gget (mRoleChecks m) groupID"

text \<open>The judgement once everybody has answered; the solver works on a copy of the roles.\<close>

definition judge_roles :: "LfgRoleCheck \<Rightarrow> LfgRoleCheck" where
  "judge_roles rc =
     (if (\<forall>(k, r) \<in> set (cRoles rc). r \<noteq> LFGRoleNone)
      then if fst (lfgCheckGroupRoles (cRoles rc))
           then rc\<lparr>cState := LFGRoleCheckFinished\<rparr>
           else rc\<lparr>cState := LFGRoleCheckWrongRoles\<rparr>
      else rc)"

definition UpdateRoleCheck ::
    "u64 \<Rightarrow> u64 \<Rightarrow> u8 \<Rightarrow> LFGManager \<Rightarrow> LfgRoleCheck option \<times> LFGManager" where
  "UpdateRoleCheck groupID guid roles m =
     (case gget (mRoleChecks m) groupID of
        None \<Rightarrow> (None, m)
      | Some rc \<Rightarrow>
          let roles = roles AND LFGRoleAny in
          if roles < LFGRoleTank
          then let rc = rc\<lparr>cState := LFGRoleCheckNoRole\<rparr> in
            (Some rc, m\<lparr>mRoleChecks := gput groupID rc (mRoleChecks m)\<rparr>)
          else let rc = judge_roles (rc\<lparr>cRoles := gput guid roles (cRoles rc)\<rparr>) in
            if cState rc = LFGRoleCheckFinished \<or> cState rc = LFGRoleCheckWrongRoles \<or>
               cState rc = LFGRoleCheckNoRole
            then (Some rc, m\<lparr>mRoleChecks := gdel groupID (mRoleChecks m)\<rparr>)
            else (Some rc, m\<lparr>mRoleChecks := gput groupID rc (mRoleChecks m)\<rparr>))"

definition ExpireRoleChecks :: "int \<Rightarrow> LFGManager \<Rightarrow> LfgRoleCheck list \<times> LFGManager" where
  "ExpireRoleChecks now m =
     (sort_key cGroupID (map (\<lambda>(groupID, rc). rc\<lparr>cState := LFGRoleCheckMissingRole\<rparr>)
        (filter (\<lambda>(groupID, rc). \<not> cCancelAt rc > now) (mRoleChecks m))),
      m\<lparr>mRoleChecks := filter (\<lambda>(groupID, rc). cCancelAt rc > now) (mRoleChecks m)\<rparr>)"

definition AbortRoleCheck :: "u64 \<Rightarrow> LFGManager \<Rightarrow> LfgRoleCheck option \<times> LFGManager" where
  "AbortRoleCheck groupID m =
     (case gget (mRoleChecks m) groupID of
        None \<Rightarrow> (None, m)
      | Some rc \<Rightarrow> (Some (rc\<lparr>cState := LFGRoleCheckAborted\<rparr>),
                    m\<lparr>mRoleChecks := gdel groupID (mRoleChecks m)\<rparr>))"

section \<open>Well-formed managers\<close>

text \<open>
  Every map is a map, every entry sits under its own key with sanitized roles; a stored role check holds sane roles, its
  leader among them, and is either still initializing or failed for a missing role; a stored proposal
  is initiating, nobody has declined it, and it has players.
\<close>

definition queue_ok :: "LFGManager \<Rightarrow> bool" where
  "queue_ok m \<longleftrightarrow> gmap_ok (mQueue m) \<and> gmap_ok (mComments m) \<and>
     (\<forall>g e. gget (mQueue m) g = Some e \<longrightarrow> qGUID e = g \<and> qRoles e AND LFGRoleAny = qRoles e)"

definition groups_ok :: "LFGManager \<Rightarrow> bool" where
  "groups_ok m \<longleftrightarrow> gmap_ok (mGroupQueue m) \<and>
     (\<forall>g e. gget (mGroupQueue m) g = Some e \<longrightarrow> gGroupID e = g \<and> sane_roles (gRoles e) \<and>
        gState e \<in> {LFGStateQueued, LFGStateProposal})"

definition check_ok :: "u64 \<Rightarrow> LfgRoleCheck \<Rightarrow> bool" where
  "check_ok g rc \<longleftrightarrow> cGroupID rc = g \<and> sane_roles (cRoles rc) \<and>
     gget (cRoles rc) (cLeader rc) \<noteq> None \<and>
     cState rc \<in> {LFGRoleCheckInitializing, LFGRoleCheckNoRole} \<and>
     cCancelAt rc = cCreatedAt rc + lfgTimeRoleCheck * second"

definition checks_ok :: "LFGManager \<Rightarrow> bool" where
  "checks_ok m \<longleftrightarrow> gmap_ok (mRoleChecks m) \<and>
     (\<forall>g rc. gget (mRoleChecks m) g = Some rc \<longrightarrow> check_ok g rc)"

definition prop_ok :: "u32 \<Rightarrow> LFGProposal \<Rightarrow> bool" where
  "prop_ok i p \<longleftrightarrow> prID p = i \<and> prState p = LFGProposalInitiating \<and> gmap_ok (prPlayers p) \<and>
     (\<forall>g pl. gget (prPlayers p) g = Some pl \<longrightarrow> pAccept pl \<in> {LFGAnswerPending, LFGAnswerAgree})"

definition props_ok :: "LFGManager \<Rightarrow> bool" where
  "props_ok m \<longleftrightarrow> gmap_ok (mProposals m) \<and>
     (\<forall>i p. gget (mProposals m) i = Some p \<longrightarrow> prop_ok i p)"

definition mgr_ok :: "LFGManager \<Rightarrow> bool" where
  "mgr_ok m \<longleftrightarrow> queue_ok m \<and> groups_ok m \<and> checks_ok m \<and> props_ok m"

lemmas mgr_ok_defs = mgr_ok_def queue_ok_def groups_ok_def checks_ok_def props_ok_def

text \<open>Each part depends on its own fields only.\<close>

lemma part_ok_frames [simp]:
  "groups_ok (m\<lparr>mQueue := q\<rparr>) = groups_ok m" "checks_ok (m\<lparr>mQueue := q\<rparr>) = checks_ok m"
  "props_ok (m\<lparr>mQueue := q\<rparr>) = props_ok m"
  "groups_ok (m\<lparr>mComments := c\<rparr>) = groups_ok m" "checks_ok (m\<lparr>mComments := c\<rparr>) = checks_ok m"
  "props_ok (m\<lparr>mComments := c\<rparr>) = props_ok m"
  "queue_ok (m\<lparr>mGroupQueue := gq\<rparr>) = queue_ok m" "checks_ok (m\<lparr>mGroupQueue := gq\<rparr>) = checks_ok m"
  "props_ok (m\<lparr>mGroupQueue := gq\<rparr>) = props_ok m"
  "queue_ok (m\<lparr>mRoleChecks := rc\<rparr>) = queue_ok m" "groups_ok (m\<lparr>mRoleChecks := rc\<rparr>) = groups_ok m"
  "props_ok (m\<lparr>mRoleChecks := rc\<rparr>) = props_ok m"
  "queue_ok (m\<lparr>mProposals := ps\<rparr>) = queue_ok m" "groups_ok (m\<lparr>mProposals := ps\<rparr>) = groups_ok m"
  "checks_ok (m\<lparr>mProposals := ps\<rparr>) = checks_ok m"
  by (simp_all add: mgr_ok_defs)

lemma queue_ok_put:
  "queue_ok m \<Longrightarrow> qGUID e = g \<Longrightarrow> qRoles e AND 15 = qRoles e \<Longrightarrow> queue_ok (m\<lparr>mQueue := gput g e (mQueue m)\<rparr>)"
  by (simp add: queue_ok_def gomap_simps)

lemma queue_ok_get: "queue_ok m \<Longrightarrow> gget (mQueue m) g = Some e \<Longrightarrow> qGUID e = g \<and> qRoles e AND 15 = qRoles e"
  by (simp add: queue_ok_def)

lemma queue_ok_comments:
  "queue_ok m \<Longrightarrow> gmap_ok c \<Longrightarrow> queue_ok (m\<lparr>mComments := c\<rparr>)"
  by (simp add: queue_ok_def)

lemma mgr_ok_put:
  "mgr_ok m \<Longrightarrow> qGUID e = g \<Longrightarrow> qRoles e AND 15 = qRoles e \<Longrightarrow> mgr_ok (m\<lparr>mQueue := gput g e (mQueue m)\<rparr>)"
  by (simp add: mgr_ok_def queue_ok_put)

lemma forget_ok: "mgr_ok m \<Longrightarrow> mgr_ok (forget g m)"
  by (simp add: mgr_ok_def forget_def) (simp add: queue_ok_def gomap_simps)

lemma NewLFGManager_ok: "mgr_ok (NewLFGManager soloEnable)"
  by (simp add: NewLFGManager_def mgr_ok_defs)

lemma switches_ok:
  "mgr_ok (SetDungeonValidator v m) = mgr_ok m" "mgr_ok (OnLogin m) = mgr_ok m"
  "mgr_ok (snd (ToggleSolo m)) = mgr_ok m" "mgr_ok (SetOptions opts m) = mgr_ok m"
  by (simp_all add: SetDungeonValidator_def OnLogin_def ToggleSolo_def SetOptions_def mgr_ok_defs)

lemma Clean_ok: "mgr_ok m \<Longrightarrow> mgr_ok (Clean m)"
  by (simp add: Clean_def mgr_ok_defs)

lemma Join_ok: "mgr_ok m \<Longrightarrow> mgr_ok (snd (Join now guid roles dungeons comment m))"
  by (simp add: Join_def Let_def mgr_ok_put word_bw_assocs)

lemma Leave_ok: "mgr_ok m \<Longrightarrow> mgr_ok (snd (Leave guid m))"
  by (auto simp: Leave_def leaveLocked_def mgr_ok_def queue_ok_def gomap_simps split: option.split)

lemma fresh_entry_simps [simp]:
  "qGUID (fresh_entry g) = g" "qRoles (fresh_entry g) = 0" "qState (fresh_entry g) = 0" "qOldState (fresh_entry g) = 0"
  by (simp_all add: fresh_entry_def)

lemma setStateLocked_ok: "mgr_ok m \<Longrightarrow> mgr_ok (setStateLocked guid state m)"
  by (simp add: setStateLocked_def Let_def forget_ok)
    (auto simp: mgr_ok_def queue_ok_def gomap_simps split: option.split)

lemma restoreStateLocked_ok: "mgr_ok m \<Longrightarrow> mgr_ok (restoreStateLocked guid m)"
  by (simp add: restoreStateLocked_def forget_ok split: option.split)
    (auto simp: mgr_ok_def queue_ok_def gomap_simps)

lemma SetupGroupMember_ok: "mgr_ok m \<Longrightarrow> mgr_ok (SetupGroupMember guid dungeon state m)"
  unfolding SetupGroupMember_def Let_def
  by (rule setStateLocked_ok, rule mgr_ok_put)
    (auto simp: mgr_ok_def queue_ok_def split: option.split)

lemma SetComment_ok: "mgr_ok m \<Longrightarrow> mgr_ok (SetComment guid comment m)"
  by (auto simp: SetComment_def Let_def mgr_ok_def queue_ok_def gomap_simps split: option.split)

lemma leave_member_ok: "mgr_ok m \<Longrightarrow> mgr_ok (leave_member restore restoreState guid m)"
  by (simp add: leave_member_def setStateLocked_ok split: option.split)

lemma LeaveQueuedGroup_ok:
  assumes "mgr_ok m"
  shows "mgr_ok (snd (LeaveQueuedGroup groupID exclude restore restoreState m))"
proof -
  have "mgr_ok (m\<lparr>mGroupQueue := gdel groupID (mGroupQueue m)\<rparr>)"
    using assms by (simp add: mgr_ok_def) (simp add: groups_ok_def gomap_simps)
  then show ?thesis
    using assms unfolding LeaveQueuedGroup_def Let_def
    by (simp split: option.split)
      (intro impI allI fold_invariant_simple [where I = mgr_ok]; simp add: leave_member_ok)
qed

lemma QueueGroup_ok:
  assumes "mgr_ok m" and "sane_roles roles"
  shows "mgr_ok (QueueGroup now groupID leaderGUID dungeons roles comment m)"
  unfolding QueueGroup_def
proof (rule fold_invariant_simple)
  show "mgr_ok (m\<lparr>mGroupQueue := gput groupID \<lparr>gGroupID = groupID, gDungeons = dungeons,
      gRoles = roles, gQueuedAt = now, gState = LFGStateQueued\<rparr> (mGroupQueue m)\<rparr>)"
    using assms by (simp add: mgr_ok_def) (simp add: groups_ok_def gomap_simps)
qed (use assms(2) in \<open>auto simp: sane_roles_def intro!: mgr_ok_put\<close>)

lemma LeaveGroup_ok: "mgr_ok m \<Longrightarrow> mgr_ok (snd (LeaveGroup groupID m))"
  by (auto simp: LeaveGroup_def mgr_ok_def groups_ok_def gomap_simps split: option.split)

lemma deleteGroupEntries_ok: "mgr_ok m \<Longrightarrow> mgr_ok (deleteGroupEntriesContainingLocked guid m)"
  by (auto simp: deleteGroupEntriesContainingLocked_def mgr_ok_def groups_ok_def gget_filter_Some)

lemma checks_ok_put:
  "checks_ok m \<Longrightarrow> check_ok g rc \<Longrightarrow> checks_ok (m\<lparr>mRoleChecks := gput g rc (mRoleChecks m)\<rparr>)"
  by (simp add: checks_ok_def gomap_simps)

lemma checks_ok_del: "checks_ok m \<Longrightarrow> checks_ok (m\<lparr>mRoleChecks := gdel g (mRoleChecks m)\<rparr>)"
  by (simp add: checks_ok_def gomap_simps)

lemma StartRoleCheck_ok: "mgr_ok m \<Longrightarrow> mgr_ok (snd (StartRoleCheck now g leader ds roles members m))"
proof -
  have "sane_roles (fold (\<lambda>guid. gput guid LFGRoleNone) members [])"
    by (rule fold_invariant_simple) (simp_all add: sane_roles_gput, simp add: sane_roles_def)
  then show "mgr_ok m \<Longrightarrow> ?thesis"
    by (auto simp: StartRoleCheck_def Let_def mgr_ok_def check_ok_def gomap_simps word_bw_assocs
        intro!: checks_ok_put sane_roles_gput)
qed

lemma UpdateRoleCheck_ok:
  assumes "mgr_ok m"
  shows "mgr_ok (snd (UpdateRoleCheck g guid roles m))"
proof (cases "gget (mRoleChecks m) g")
  case (Some rc)
  with assms have rc: "check_ok g rc" by (simp add: mgr_ok_def checks_ok_def)
  then have "check_ok g (rc\<lparr>cState := LFGRoleCheckNoRole\<rparr>)"
    and "check_ok g (rc\<lparr>cRoles := gput guid (roles AND LFGRoleAny) (cRoles rc)\<rparr>)"
    by (auto simp: check_ok_def gomap_simps word_bw_assocs intro!: sane_roles_gput)
  with assms Some show ?thesis
    by (simp add: UpdateRoleCheck_def Let_def judge_roles_def mgr_ok_def checks_ok_put checks_ok_del)
qed (use assms in \<open>simp add: UpdateRoleCheck_def\<close>)

lemma ExpireRoleChecks_ok: "mgr_ok m \<Longrightarrow> mgr_ok (snd (ExpireRoleChecks now m))"
  by (auto simp: ExpireRoleChecks_def mgr_ok_def checks_ok_def gget_filter_Some)

lemma AbortRoleCheck_ok: "mgr_ok m \<Longrightarrow> mgr_ok (snd (AbortRoleCheck g m))"
  by (auto simp: AbortRoleCheck_def mgr_ok_def checks_ok_del split: option.split)

section \<open>Joining and leaving\<close>

lemma uniqueUint32_snoc:
  "uniqueUint32 (xs @ [x]) =
     (if uniqueUint32 xs = [] \<or> last (uniqueUint32 xs) \<noteq> x then uniqueUint32 xs @ [x] else uniqueUint32 xs)"
  by (simp add: uniqueUint32_def)

lemma uniqueUint32_sorted:
  "sorted xs \<Longrightarrow> sorted (uniqueUint32 xs) \<and> distinct (uniqueUint32 xs) \<and> set (uniqueUint32 xs) = set xs \<and>
     (xs \<noteq> [] \<longrightarrow> uniqueUint32 xs \<noteq> [] \<and> last (uniqueUint32 xs) = last xs)"
proof (induction xs rule: rev_induct)
  case Nil
  then show ?case by (simp add: uniqueUint32_def)
next
  case (snoc x xs)
  then have "sorted xs" and le: "\<forall>y \<in> set xs. y \<le> x" by (simp_all add: sorted_append)
  with snoc.IH have IH: "sorted (uniqueUint32 xs)" "distinct (uniqueUint32 xs)" "set (uniqueUint32 xs) = set xs"
    "xs \<noteq> [] \<longrightarrow> uniqueUint32 xs \<noteq> [] \<and> last (uniqueUint32 xs) = last xs" by simp_all
  show ?case
  proof (cases "xs = []")
    case True
    then show ?thesis by (simp add: uniqueUint32_def)
  next
    case False
    with IH have ne: "uniqueUint32 xs \<noteq> []" "last (uniqueUint32 xs) = last xs" by simp_all
    have "x \<notin> set xs" if "last xs \<noteq> x"
    proof
      assume "x \<in> set xs"
      moreover have "x' \<le> last xs" if "x' \<in> set xs" for x'
        using that \<open>sorted xs\<close> by (induction xs) (auto split: if_splits)
      ultimately have "x \<le> last xs" by blast
      moreover have "last xs \<le> x" using le False by simp
      ultimately show False using that by simp
    qed
    with IH ne le False show ?thesis
      by (auto simp: uniqueUint32_snoc sorted_append)
  qed
qed

lemma uniqueUint32_sort:
  "sorted (uniqueUint32 (sort xs))" "distinct (uniqueUint32 (sort xs))" "set (uniqueUint32 (sort xs)) = set xs"
  using uniqueUint32_sorted [of "sort xs"] by simp_all

definition accepted_dungeons :: "LFGManager \<Rightarrow> u32 list \<Rightarrow> u32 set" where
  "accepted_dungeons m ds =
     {d \<in> set ds. case mValidateDungeon m of None \<Rightarrow> True | Some validate \<Rightarrow> validate d}"

lemma Join_eq:
  "Join now guid roles dungeons comment m =
     (let ds = uniqueUint32 (sort (case mValidateDungeon m of None \<Rightarrow> dungeons
                                   | Some validate \<Rightarrow> filter validate dungeons)) in
      if dungeons = [] then ((5, (fresh_entry guid)\<lparr>qRoles := roles\<rparr>), m)
      else if roles AND 15 = 0 then ((5, (fresh_entry guid)\<lparr>qRoles := roles AND 15\<rparr>), m)
      else if ds = [] then ((11, (fresh_entry guid)\<lparr>qRoles := roles AND 15\<rparr>), m)
      else let e = \<lparr>qGUID = guid, qRoles = roles AND 15, qDungeons = ds, qComment = comment,
                 qQueuedAt = now, qState = 2, qOldState = old_state m guid\<rparr> in
        ((0, e), m\<lparr>mQueue := gput guid e (mQueue m)\<rparr>))"
  by (simp add: Join_def Let_def)

text \<open>
  A join succeeds exactly when it selects at least one dungeon the validator accepts and at
  least one role bit. Then the player's entry is queued with the sanitized roles, the accepted
  dungeons sorted without repetition and the remembered old state, and nobody else's entry changes.
  A join that fails changes nothing and says which requirement is missing.
\<close>

theorem Join_exact:
  assumes "Join now guid roles dungeons comment m = ((code, entry), m')"
  shows "(code = LFGJoinOK \<longleftrightarrow> accepted_dungeons m dungeons \<noteq> {} \<and> roles AND LFGRoleAny \<noteq> 0) \<and>
    (code = LFGJoinOK \<longrightarrow> Status guid m' = (entry, True) \<and> qState entry = LFGStateQueued \<and>
       qRoles entry = roles AND LFGRoleAny \<and> set (qDungeons entry) = accepted_dungeons m dungeons \<and>
       sorted (qDungeons entry) \<and> distinct (qDungeons entry) \<and> qOldState entry = old_state m guid \<and>
       (\<forall>g. g \<noteq> guid \<longrightarrow> Status g m' = Status g m)) \<and>
    (code \<noteq> LFGJoinOK \<longrightarrow> m' = m \<and> qState entry = LFGStateNone \<and>
       code = (if dungeons = [] \<or> roles AND LFGRoleAny = 0 then LFGJoinNotMeetReqs
               else LFGJoinInvalidDungeon))"
proof -
  define ds where "ds = (case mValidateDungeon m of None \<Rightarrow> dungeons
                         | Some validate \<Rightarrow> filter validate dungeons)"
  have acc: "accepted_dungeons m dungeons = set ds"
    by (auto simp: accepted_dungeons_def ds_def split: option.split)
  have nil: "uniqueUint32 (sort ds) = [] \<longleftrightarrow> set ds = {}"
    using uniqueUint32_sort(3) [of ds] by (metis set_empty)
  have empty: "dungeons = [] \<Longrightarrow> set ds = {}"
    by (simp add: ds_def split: option.split)
  note join = assms [unfolded Join_eq Let_def, folded ds_def, symmetric]
  consider (none) "dungeons = []" | (roles) "dungeons \<noteq> []" "roles AND 15 = 0"
    | (bad) "dungeons \<noteq> []" "roles AND 15 \<noteq> 0" "set ds = {}"
    | (good) "dungeons \<noteq> []" "roles AND 15 \<noteq> 0" "set ds \<noteq> {}" by blast
  then show ?thesis
  proof cases
    case good
    with join nil have "code = 0" "entry = \<lparr>qGUID = guid, qRoles = roles AND 15,
        qDungeons = uniqueUint32 (sort ds), qComment = comment, qQueuedAt = now, qState = 2,
        qOldState = old_state m guid\<rparr>" "m' = m\<lparr>mQueue := gput guid entry (mQueue m)\<rparr>" by simp_all
    with good show ?thesis
      by (simp add: acc uniqueUint32_sort Status_def gomap_simps)
  qed (use join nil empty acc in \<open>simp_all\<close>)
qed

theorem Join_exact_witness:
  "Join 5 7 8 [9, 3, 9] [] (NewLFGManager False) =
     ((LFGJoinOK, \<lparr>qGUID = 7, qRoles = 8, qDungeons = [3, 9], qComment = [], qQueuedAt = 5,
        qState = LFGStateQueued, qOldState = LFGStateNone\<rparr>),
      (NewLFGManager False)\<lparr>mQueue := [(7, \<lparr>qGUID = 7, qRoles = 8, qDungeons = [3, 9], qComment = [],
        qQueuedAt = 5, qState = LFGStateQueued, qOldState = LFGStateNone\<rparr>)]\<rparr>) \<and>
   accepted_dungeons (NewLFGManager False) [9, 3, 9] \<noteq> {}"
proof -
  have j: "Join 5 7 8 [9, 3, 9] [] (NewLFGManager False) =
     ((LFGJoinOK, \<lparr>qGUID = 7, qRoles = 8, qDungeons = [3, 9], qComment = [], qQueuedAt = 5,
        qState = LFGStateQueued, qOldState = LFGStateNone\<rparr>),
      (NewLFGManager False)\<lparr>mQueue := [(7, \<lparr>qGUID = 7, qRoles = 8, qDungeons = [3, 9], qComment = [],
        qQueuedAt = 5, qState = LFGStateQueued, qOldState = LFGStateNone\<rparr>)]\<rparr>)"
    by (simp add: Join_def NewLFGManager_def uniqueUint32_def old_state_def gput_def Let_def)
  from Join_exact [OF j] j show ?thesis by simp
qed

text \<open>
  A player who joins the queue and leaves it again is exactly out of the queue: \<open>Leave\<close> reports
  success, their entry is gone, and every other part of the manager is as before the join. Leaving a
  second time, or leaving in any other state, does nothing.
\<close>

theorem Join_Leave:
  assumes "Join now guid roles dungeons comment m = ((LFGJoinOK, entry), m1)"
  shows "\<exists>m2. Leave guid m1 = (True, m2) \<and> gget (mQueue m2) guid = None \<and>
    (\<forall>g. g \<noteq> guid \<longrightarrow> gget (mQueue m2) g = gget (mQueue m) g) \<and>
    m2\<lparr>mQueue := mQueue m\<rparr> = m \<and> Leave guid m2 = (False, m2)"
  using assms
  by (auto simp: Join_eq Let_def Leave_def leaveLocked_def gomap_simps split: if_splits)

theorem Join_Leave_witness:
  "\<exists>m2. Leave 7 (snd (Join 5 7 8 [9, 3, 9] [] (NewLFGManager False))) = (True, m2) \<and>
     gget (mQueue m2) 7 = None"
proof -
  have "Join 5 7 8 [9, 3, 9] [] (NewLFGManager False) =
    ((LFGJoinOK, snd (fst (Join 5 7 8 [9, 3, 9] [] (NewLFGManager False)))),
     snd (Join 5 7 8 [9, 3, 9] [] (NewLFGManager False)))"
    by (simp add: Join_def NewLFGManager_def uniqueUint32_def Let_def)
  from Join_Leave [OF this] show ?thesis by blast
qed

section \<open>Group entries\<close>

lemma setStateLocked_get:
  "g \<noteq> guid \<Longrightarrow> gget (mQueue (setStateLocked guid state m)) g = gget (mQueue m) g"
  "mGroupQueue (setStateLocked guid state m) = mGroupQueue m"
  by (auto simp: setStateLocked_def Let_def forget_def gomap_simps)

lemma setStateLocked_self:
  "state \<noteq> LFGStateNone \<Longrightarrow>
     map_option qState (gget (mQueue (setStateLocked guid state m)) guid) = Some state"
  "gget (mQueue (setStateLocked guid LFGStateNone m)) guid = None"
  by (auto simp: setStateLocked_def Let_def forget_def gomap_simps)

definition group_left :: "bool \<Rightarrow> u8 \<Rightarrow> LFGQueueEntry option \<Rightarrow> u8 option" where
  "group_left restore restoreState e =
     (case e of None \<Rightarrow> None
      | Some cur \<Rightarrow> if qState cur \<noteq> LFGStateQueued then Some (qState cur)
                    else if restore \<and> restoreState \<noteq> LFGStateNone then Some restoreState else None)"

lemma leave_member_get:
  "map_option qState (gget (mQueue (leave_member restore rs guid m)) g) =
     (if g = guid then group_left restore rs (gget (mQueue m) g) else map_option qState (gget (mQueue m) g))"
  "g \<noteq> guid \<Longrightarrow> gget (mQueue (leave_member restore rs guid m)) g = gget (mQueue m) g"
  "mGroupQueue (leave_member restore rs guid m) = mGroupQueue m"
  by (auto simp: leave_member_def group_left_def setStateLocked_get setStateLocked_self
      split: option.split)

lemma fold_leave_member:
  "distinct gs \<Longrightarrow> mGroupQueue (fold (leave_member restore rs) gs m) = mGroupQueue m \<and>
     map_option qState (gget (mQueue (fold (leave_member restore rs) gs m)) g) =
     (if g \<in> set gs then group_left restore rs (gget (mQueue m) g)
      else map_option qState (gget (mQueue m) g))"
proof (induction gs arbitrary: m)
  case (Cons x gs)
  then show ?case
    by (cases "g = x") (simp_all add: leave_member_get)
qed simp

text \<open>
  When a queued group leaves the queue, its entry is dropped, every other group entry stays, and
  exactly its members other than the excluded one are reported, in GUID order. Of these the ones still
  queued take the restored state (or lose their entry), the ones in another state keep it, and nobody
  else's state changes.
\<close>

theorem LeaveQueuedGroup_effect:
  assumes "mgr_ok m" and "gget (mGroupQueue m) groupID = Some entry" and "gState entry = LFGStateQueued"
    and "LeaveQueuedGroup groupID exclude restore restoreState m = (affected, m')"
  shows "sorted affected \<and> set affected = set (gkeys (gRoles entry)) - {exclude} \<and>
    (\<forall>k. gget (mGroupQueue m') k = (if k = groupID then None else gget (mGroupQueue m) k)) \<and>
    (\<forall>g. map_option qState (gget (mQueue m') g) =
       (if g \<in> set affected then group_left restore restoreState (gget (mQueue m) g)
        else map_option qState (gget (mQueue m) g)))"
proof -
  let ?gs = "filter (\<lambda>guid. guid \<noteq> exclude) (gkeys (gRoles entry))"
  have "gmap_ok (gRoles entry)" using assms(1,2) by (auto simp: mgr_ok_def groups_ok_def sane_roles_def)
  then have d: "distinct ?gs" by (simp add: gm.ok_distinct)
  have res: "affected = sort ?gs"
    "m' = fold (leave_member restore restoreState) ?gs (m\<lparr>mGroupQueue := gdel groupID (mGroupQueue m)\<rparr>)"
    using assms(2-4) by (simp_all add: LeaveQueuedGroup_def Let_def)
  show ?thesis
    using fold_leave_member [OF d, of restore restoreState "m\<lparr>mGroupQueue := gdel groupID (mGroupQueue m)\<rparr>"]
    by (simp add: res gomap_simps) auto
qed

definition queued_trio :: "LFGManager" where
  "queued_trio = QueueGroup 5 90 1 [9] [(1, 2), (2, 4), (3, 8)] [] (NewLFGManager False)"

lemma queued_trio_ok: "mgr_ok queued_trio"
  unfolding queued_trio_def by (rule QueueGroup_ok [OF NewLFGManager_ok]) (simp add: sane_roles_def)

theorem LeaveQueuedGroup_effect_witness:
  "\<exists>m'. LeaveQueuedGroup 90 3 False 0 queued_trio = ([1, 2], m') \<and> gget (mGroupQueue m') 90 = None"
proof -
  obtain e where e: "gget (mGroupQueue queued_trio) 90 = Some e" "gState e = LFGStateQueued"
    "gRoles e = [(1, 2), (2, 4), (3, 8)]"
    by (simp add: queued_trio_def QueueGroup_def NewLFGManager_def gput_def)
  obtain a m' where r: "LeaveQueuedGroup 90 3 False 0 queued_trio = (a, m')" by fastforce
  have "a = [1, 2]" using r e by (simp add: LeaveQueuedGroup_def Let_def)
  with LeaveQueuedGroup_effect [OF queued_trio_ok e(1,2) r] r show ?thesis by simp
qed

section \<open>Answers to role checks\<close>

lemma judge_roles_sane:
  assumes "sane_roles (cRoles rc)"
  shows "judge_roles rc = rc\<lparr>cState :=
     (if \<exists>k. gget (cRoles rc) k = Some 0 then cState rc
      else if solvable (cRoles rc) then LFGRoleCheckFinished else LFGRoleCheckWrongRoles)\<rparr>"
proof -
  have "(\<forall>(k, r) \<in> set (cRoles rc). r \<noteq> 0) \<longleftrightarrow> \<not> (\<exists>k. gget (cRoles rc) k = Some 0)"
    using assms by (auto simp: sane_roles_def dest: gget_in_set in_set_gget)
  moreover have "fst (lfgCheckGroupRoles (cRoles rc)) = solvable (cRoles rc)"
    using lfgCheckGroupRoles_solved [OF assms] by (simp add: solved_def)
  ultimately show ?thesis by (simp add: judge_roles_def)
qed

lemma solvable_answered: "solvable roles \<Longrightarrow> gget roles k \<noteq> Some 0"
  using no_option_unsolvable [of k roles] by (auto simp: role_of_def role_options_def gm.keys_get)

text \<open>
  An answer to a live role check. A missing role fails it; otherwise the answer is recorded, and
  the check is finished when everybody has answered and the roles can be assigned, has wrong roles
  when everybody has answered and they cannot, and goes on otherwise. A finished or wrong check is no
  longer stored.
\<close>

theorem UpdateRoleCheck_answer:
  assumes "mgr_ok m" and "gget (mRoleChecks m) g = Some rc" and "cState rc = LFGRoleCheckInitializing"
    and "UpdateRoleCheck g guid roles m = (res, m')"
  shows "\<exists>rc'. res = Some rc' \<and>
    (if roles AND LFGRoleAny < LFGRoleTank
     then cState rc' = LFGRoleCheckNoRole \<and> cRoles rc' = cRoles rc
     else cRoles rc' = gput guid (roles AND LFGRoleAny) (cRoles rc) \<and>
       cState rc' = (if \<exists>k. gget (cRoles rc') k = Some LFGRoleNone then LFGRoleCheckInitializing
                     else if solvable (cRoles rc') then LFGRoleCheckFinished else LFGRoleCheckWrongRoles) \<and>
       GetRoleCheck g m' = (if cState rc' = LFGRoleCheckInitializing then Some rc' else None))"
proof -
  have "sane_roles (cRoles rc)" using assms(1,2) by (auto simp: mgr_ok_def checks_ok_def check_ok_def)
  then have sane: "sane_roles (gput guid (roles AND 15) (cRoles rc))"
    by (rule sane_roles_gput) (simp add: word_bw_assocs)
  let ?rc = "rc\<lparr>cRoles := gput guid (roles AND 15) (cRoles rc)\<rparr>"
  show ?thesis
  proof (cases "roles AND 15 < 2")
    case True
    then show ?thesis using assms(2,4) by (auto simp: UpdateRoleCheck_def Let_def)
  next
    case False
    define st where "st = (if \<exists>k. gget (gput guid (roles AND 15) (cRoles rc)) k = Some 0
        then LFGRoleCheckInitializing
        else if solvable (gput guid (roles AND 15) (cRoles rc)) then LFGRoleCheckFinished
        else LFGRoleCheckWrongRoles)"
    have j: "judge_roles ?rc = ?rc\<lparr>cState := st\<rparr>"
      using judge_roles_sane [of ?rc] sane assms(3) by (simp add: st_def)
    have st: "st = 2 \<or> st = 1 \<or> st = 4" by (simp add: st_def)
    have "res = Some (?rc\<lparr>cState := st\<rparr>)" and
      "gget (mRoleChecks m') g = (if st = 2 then res else None)"
      using False assms(2,4) st by (auto simp: UpdateRoleCheck_def Let_def gomap_simps j)
    then show ?thesis using False by (simp add: GetRoleCheck_def st_def)
  qed
qed

definition checked_pair :: "LFGManager" where
  "checked_pair = snd (StartRoleCheck 5 90 1 [9] 2 [1, 2] (NewLFGManager False))"

lemma checked_pair_ok: "mgr_ok checked_pair"
  unfolding checked_pair_def by (rule StartRoleCheck_ok [OF NewLFGManager_ok])

lemma checked_pair_get:
  "gget (mRoleChecks checked_pair) 90 = Some \<lparr>cGroupID = 90, cLeader = 1, cDungeons = [9],
     cRoles = [(1, 2), (2, 0)], cState = LFGRoleCheckInitializing, cCreatedAt = 5,
     cCancelAt = 5 + lfgTimeRoleCheck * second\<rparr>"
  by (simp add: checked_pair_def StartRoleCheck_def NewLFGManager_def Let_def gput_def)

theorem UpdateRoleCheck_answer_witness:
  "\<exists>rc m'. UpdateRoleCheck 90 2 4 checked_pair = (Some rc, m') \<and> cRoles rc = [(1, 2), (2, 4)]"
proof -
  obtain res m' where r: "UpdateRoleCheck 90 2 4 checked_pair = (res, m')" by fastforce
  from UpdateRoleCheck_answer [OF checked_pair_ok checked_pair_get _ r] r
  show ?thesis by (simp add: gput_def) blast
qed

text \<open>
  A role check that failed because a member selected no role is not erased: it stays in the store
  as failed, and when that member then sends a real role it is finished after all. (A check failed for
  wrong roles is erased.)
\<close>

theorem UpdateRoleCheck_no_role_survives:
  assumes "mgr_ok m" and "gget (mRoleChecks m) g = Some rc" and "roles AND LFGRoleAny < LFGRoleTank"
    and "\<not> roles' AND LFGRoleAny < LFGRoleTank"
    and "solvable (gput guid (roles' AND LFGRoleAny) (cRoles rc))"
  shows "\<exists>rc1 m1 rc2 m2. UpdateRoleCheck g guid roles m = (Some rc1, m1) \<and>
    cState rc1 = LFGRoleCheckNoRole \<and> GetRoleCheck g m1 = Some rc1 \<and>
    UpdateRoleCheck g guid roles' m1 = (Some rc2, m2) \<and> cState rc2 = LFGRoleCheckFinished"
proof -
  have "sane_roles (cRoles rc)" using assms(1,2) by (auto simp: mgr_ok_def checks_ok_def check_ok_def)
  then have sane: "sane_roles (gput guid (roles' AND 15) (cRoles rc))"
    by (rule sane_roles_gput) (simp add: word_bw_assocs)
  have j: "judge_roles (rc\<lparr>cState := st, cRoles := gput guid (roles' AND 15) (cRoles rc)\<rparr>) =
      rc\<lparr>cState := LFGRoleCheckFinished, cRoles := gput guid (roles' AND 15) (cRoles rc)\<rparr>" for st
    using solvable_answered [OF assms(5)] assms(5)
    by (subst judge_roles_sane) (simp_all add: sane)
  show ?thesis
    using assms(2-4) by (simp add: UpdateRoleCheck_def Let_def GetRoleCheck_def gomap_simps j)
qed

theorem UpdateRoleCheck_no_role_survives_witness:
  "\<exists>rc1 m1. UpdateRoleCheck 90 2 1 checked_pair = (Some rc1, m1) \<and> GetRoleCheck 90 m1 = Some rc1 \<and>
     cState rc1 = LFGRoleCheckNoRole"
proof -
  have "solvable [(1, 2), (2, 4)]"
    unfolding solvable_def assignment_alt
    by (simp, rule exI [of _ "\<lambda>g. if g = 1 then 2 else 4"])
      (auto simp: role_of_def role_options_def has_flag_def intro!: card_le_Suc0_iff_eq [THEN iffD2])
  then have "solvable (gput 2 (4 AND LFGRoleAny) (cRoles \<lparr>cGroupID = 90, cLeader = 1, cDungeons = [9],
     cRoles = [(1, 2), (2, 0)], cState = LFGRoleCheckInitializing, cCreatedAt = 5,
     cCancelAt = 5 + lfgTimeRoleCheck * second\<rparr>))"
    by (simp add: gput_def)
  from UpdateRoleCheck_no_role_survives [OF checked_pair_ok checked_pair_get _ _ this, of 1]
  show ?thesis by auto
qed

text \<open>
  In a group with a second member the starter's own answer never finishes the role check: right
  after the start every other member is unanswered.
\<close>

theorem StartRoleCheck_leader_answer_pending:
  assumes "StartRoleCheck now g leader dungeons leaderRoles members m = (rc, m1)"
    and "other \<in> set members" and "other \<noteq> leader"
    and "UpdateRoleCheck g leader roles m1 = (Some rc', m2)"
  shows "cState rc' \<in> {LFGRoleCheckInitializing, LFGRoleCheckNoRole} \<and> GetRoleCheck g m2 = Some rc'"
proof -
  have rc: "rc = \<lparr>cGroupID = g, cLeader = leader, cDungeons = dungeons,
      cRoles = gput leader (leaderRoles AND 15) (fold (\<lambda>guid. gput guid 0) members []),
      cState = LFGRoleCheckInitializing, cCreatedAt = now, cCancelAt = now + lfgTimeRoleCheck * second\<rparr>"
    and m1: "gget (mRoleChecks m1) g = Some rc"
    using assms(1) by (auto simp: StartRoleCheck_def Let_def gomap_simps)
  have "gget (gput leader (roles AND 15) (cRoles rc)) other = Some 0"
    using assms(2,3) gm.get_fold_put [of "\<lambda>_. 0" members "[]" other] by (simp add: rc gm.get_put)
  then have "(other, 0) \<in> set (gput leader (roles AND 15) (cRoles rc))" by (rule gget_in_set)
  then have "\<not> (\<forall>(k, r) \<in> set (gput leader (roles AND 15) (cRoles rc)). r \<noteq> 0)" by blast
  moreover have "cState rc = LFGRoleCheckInitializing" by (simp add: rc)
  ultimately show ?thesis
    using assms(4) m1
    by (auto simp: UpdateRoleCheck_def Let_def GetRoleCheck_def judge_roles_def gomap_simps split: if_splits)
qed

theorem StartRoleCheck_leader_answer_pending_witness:
  "\<exists>rc m2. UpdateRoleCheck 90 1 2 checked_pair = (Some rc, m2) \<and> GetRoleCheck 90 m2 = Some rc"
proof -
  obtain res m2 where r: "UpdateRoleCheck 90 1 2 checked_pair = (res, m2)" by fastforce
  then obtain rc where rc: "res = Some rc"
    using checked_pair_get by (auto simp: UpdateRoleCheck_def Let_def split: if_splits)
  have "StartRoleCheck 5 90 1 [9] 2 [1, 2] (NewLFGManager False) =
    (fst (StartRoleCheck 5 90 1 [9] 2 [1, 2] (NewLFGManager False)), checked_pair)"
    by (simp add: checked_pair_def)
  from StartRoleCheck_leader_answer_pending [OF this _ _ r [unfolded rc], of 2] r rc
  show ?thesis by simp
qed

text \<open>
  Expiry removes exactly the role checks whose deadline has passed, reports them as missing a role
  in group order, and a check started at \<open>start\<close> is never expired before forty-five seconds.
\<close>

theorem ExpireRoleChecks_exact:
  assumes "mgr_ok m" and "ExpireRoleChecks now m = (expired, m')"
  shows "sorted (map cGroupID expired) \<and>
    (\<forall>rc. rc \<in> set expired \<longleftrightarrow> (\<exists>g rc0. GetRoleCheck g m = Some rc0 \<and>
       cCreatedAt rc0 + 45 * second \<le> now \<and> rc = rc0\<lparr>cState := LFGRoleCheckMissingRole\<rparr>)) \<and>
    (\<forall>g. GetRoleCheck g m' = (case GetRoleCheck g m of None \<Rightarrow> None
       | Some rc \<Rightarrow> if cCreatedAt rc + 45 * second \<le> now then None else Some rc))"
proof -
  have ok: "gmap_ok (mRoleChecks m)" using assms(1) by (simp add: mgr_ok_def checks_ok_def)
  have cancel: "cCancelAt rc = cCreatedAt rc + 45 * second" if "gget (mRoleChecks m) g = Some rc" for g rc
    using assms(1) that by (auto simp: mgr_ok_def checks_ok_def check_ok_def lfgTimeRoleCheck_def)
  have mem: "(g, rc) \<in> set (mRoleChecks m) \<longleftrightarrow> gget (mRoleChecks m) g = Some rc" for g rc
    using ok gget_in_set in_set_gget by metis
  have res: "expired = sort_key cGroupID (map (\<lambda>(groupID, rc). rc\<lparr>cState := LFGRoleCheckMissingRole\<rparr>)
        (filter (\<lambda>(groupID, rc). \<not> cCancelAt rc > now) (mRoleChecks m)))"
    "mRoleChecks m' = filter (\<lambda>(groupID, rc). cCancelAt rc > now) (mRoleChecks m)"
    using assms(2) by (auto simp: ExpireRoleChecks_def)
  have "rc \<in> set expired \<longleftrightarrow> (\<exists>g rc0. gget (mRoleChecks m) g = Some rc0 \<and>
       cCreatedAt rc0 + 45 * second \<le> now \<and> rc = rc0\<lparr>cState := LFGRoleCheckMissingRole\<rparr>)" for rc
    by (auto simp: res mem cancel image_iff not_less Bex_def) (blast, metis cancel)
  moreover have "gget (mRoleChecks m') g = (case gget (mRoleChecks m) g of None \<Rightarrow> None
       | Some rc \<Rightarrow> if cCreatedAt rc + 45 * second \<le> now then None else Some rc)" for g
    using cancel [of g] by (auto simp: res gget_filter [OF ok] split: option.split)
  ultimately show ?thesis by (simp add: GetRoleCheck_def res(1))
qed

theorem ExpireRoleChecks_exact_witness:
  "GetRoleCheck 90 (snd (ExpireRoleChecks (6 + 45 * second) checked_pair)) = None \<and>
   GetRoleCheck 90 (snd (ExpireRoleChecks 6 checked_pair)) \<noteq> None"
  using ExpireRoleChecks_exact [OF checked_pair_ok surjective_pairing, of "6 + 45 * second"]
    ExpireRoleChecks_exact [OF checked_pair_ok surjective_pairing, of 6]
  by (simp add: GetRoleCheck_def checked_pair_get second_def)

end
