(* ===== verification/Lfg_Proposals.thy ===== *)
theory Lfg_Proposals
  imports Lfg_Manager
begin

text \<open>
  \<^verbatim>\<open>engine/world/lfg.go\<close>, matching and proposals: \<open>FindGroups\<close> with its combination search, and the
  answers, expiry and completion of a proposal. \<open>now\<close> is \<open>time.Now()\<close>; the map orders that \<open>range\<close>
  leaves open are the orders of the association lists.
\<close>

section \<open>Match units\<close>

record lfgMatchUnit =
  uGroupID :: u64
  uGuids :: "u64 list"
  uRoles :: role_map
  uDungeons :: "u32 list"

definition lfgIntersectDungeons :: "u32 list \<Rightarrow> u32 list \<Rightarrow> u32 list" where
  "lfgIntersectDungeons a b = sort (filter (\<lambda>d. d \<in> set b) a)"

definition queued_groups :: "LFGManager \<Rightarrow> (u64 \<times> LFGGroupQueueEntry) list" where
  "queued_groups m = filter (\<lambda>(_, entry). gState entry = LFGStateQueued)
     (map (\<lambda>groupID. (groupID, the (gget (mGroupQueue m) groupID))) (sort (gkeys (mGroupQueue m))))"

definition member_of_group :: "LFGManager \<Rightarrow> u64 \<Rightarrow> bool" where
  "member_of_group m guid = (\<exists>(_, entry) \<in> set (queued_groups m). gget (gRoles entry) guid \<noteq> None)"

definition solo_guids :: "LFGManager \<Rightarrow> u64 list" where
  "solo_guids m = sort (map fst (filter
     (\<lambda>(guid, entry). qState entry = LFGStateQueued \<and> \<not> member_of_group m guid) (mQueue m)))"

definition match_units :: "LFGManager \<Rightarrow> lfgMatchUnit list" where
  "match_units m =
     map (\<lambda>(groupID, entry). \<lparr>uGroupID = groupID, uGuids = sort (gkeys (gRoles entry)),
            uRoles = gRoles entry, uDungeons = gDungeons entry\<rparr>) (queued_groups m) @
     map (\<lambda>guid. let entry = the (gget (mQueue m) guid) in
            \<lparr>uGroupID = 0, uGuids = [guid], uRoles = [(guid, qRoles entry)], uDungeons = qDungeons entry\<rparr>)
       (solo_guids m)"

section \<open>The combination search\<close>

definition search_roles :: "lfgMatchUnit list \<Rightarrow> nat list \<Rightarrow> role_map" where
  "search_roles units chosen =
     fold (\<lambda>idx merged. fold (\<lambda>(guid, role). gput guid role) (uRoles (units ! idx)) merged) chosen []"

text \<open>What \<open>search\<close> does before its loop: \<open>Some r\<close> returns \<open>r\<close>, \<open>None\<close> goes on to the loop.\<close>

definition search_gate ::
    "bool \<Rightarrow> lfgMatchUnit list \<Rightarrow> nat list \<Rightarrow> nat \<Rightarrow> nat \<Rightarrow> nat list option option" where
  "search_gate solo units chosen tot groups =
     (if tot > 5 \<or> groups > 1 then Some None
      else if tot = 5 then
        Some (if fst (lfgCheckGroupRoles (search_roles units chosen)) then Some chosen else None)
      else if solo \<and> tot > 0 \<and> fst (lfgCheckGroupRoles (search_roles units chosen))
      then Some (Some chosen) else None)"

text \<open>The loop over the indices above the last chosen one, with the recursive call in its body.\<close>

primrec search_loop ::
    "bool \<Rightarrow> lfgMatchUnit list \<Rightarrow> bool list \<Rightarrow> nat list \<Rightarrow>
     nat list \<Rightarrow> nat \<Rightarrow> nat \<Rightarrow> u32 list \<Rightarrow> nat list option" where
  "search_loop solo units used [] chosen tot groups dungeons = None"
| "search_loop solo units used (i # rest) chosen tot groups dungeons =
     (let unit = units ! i;
          skip = search_loop solo units used rest chosen tot groups dungeons;
          nextTotal = tot + length (uGuids unit);
          nextGroups = (if uGroupID unit \<noteq> 0 then groups + 1 else groups);
          nextDungeons = (if chosen = [] then uDungeons unit
                          else lfgIntersectDungeons dungeons (uDungeons unit)) in
      if used ! i then skip
      else if nextTotal > 5 then skip
      else if nextGroups > 1 then skip
      else if chosen \<noteq> [] \<and> nextDungeons = [] then skip
      else case (case search_gate solo units (chosen @ [i]) nextTotal nextGroups of
                   Some result \<Rightarrow> result
                 | None \<Rightarrow> search_loop solo units used rest (chosen @ [i]) nextTotal nextGroups nextDungeons) of
             Some combo \<Rightarrow> Some combo
           | None \<Rightarrow> skip)"

definition findLFGCombo ::
    "bool \<Rightarrow> lfgMatchUnit list \<Rightarrow> bool list \<Rightarrow> nat \<Rightarrow> nat list option" where
  "findLFGCombo solo units used seed =
     (case search_gate solo units [] 0 0 of
        Some result \<Rightarrow> result
      | None \<Rightarrow> search_loop solo units used [seed..<length units] [] 0 0 [])"

section \<open>FindGroups\<close>

definition combo_dungeons :: "lfgMatchUnit list \<Rightarrow> nat list \<Rightarrow> u32 list" where
  "combo_dungeons units combo =
     (case combo of [] \<Rightarrow> []
      | i # rest \<Rightarrow> fold (\<lambda>idx dungeons. lfgIntersectDungeons dungeons (uDungeons (units ! idx)))
                     rest (uDungeons (units ! i)))"

definition combo_roles :: "lfgMatchUnit list \<Rightarrow> nat list \<Rightarrow> role_map" where
  "combo_roles units combo =
     fold (\<lambda>idx merged. fold (\<lambda>guid. gput guid (the (gget (uRoles (units ! idx)) guid)))
       (uGuids (units ! idx)) merged) combo []"

definition combo_owner :: "lfgMatchUnit list \<Rightarrow> nat list \<Rightarrow> (u64, u64) gomap" where
  "combo_owner units combo =
     fold (\<lambda>idx owner. fold (\<lambda>guid. gput guid (uGroupID (units ! idx))) (uGuids (units ! idx)) owner)
       combo []"

definition combo_group :: "lfgMatchUnit list \<Rightarrow> nat list \<Rightarrow> u64" where
  "combo_group units combo =
     fold (\<lambda>idx g. if uGroupID (units ! idx) \<noteq> 0 then uGroupID (units ! idx) else g) combo 0"

text \<open>The first member in GUID order that kept the leader bit, or the first member.\<close>

definition combo_leader :: "role_map \<Rightarrow> u64 list \<Rightarrow> u64" where
  "combo_leader assigned allGUIDs =
     (case find (\<lambda>guid. the (gget assigned guid) AND LFGRoleLeader \<noteq> 0) allGUIDs of
        Some guid \<Rightarrow> if guid = 0 then hd allGUIDs else guid
      | None \<Rightarrow> hd allGUIDs)"

definition mark_unit :: "lfgMatchUnit \<Rightarrow> LFGManager \<Rightarrow> LFGManager" where
  "mark_unit unit m =
     (if uGroupID unit \<noteq> 0 then
        (case gget (mGroupQueue m) (uGroupID unit) of
           None \<Rightarrow> m
         | Some entry \<Rightarrow> m\<lparr>mGroupQueue := gput (uGroupID unit) (entry\<lparr>gState := LFGStateProposal\<rparr>) (mGroupQueue m)\<rparr>)
      else
        (case gget (mQueue m) (uGuids unit ! 0) of
           None \<Rightarrow> m
         | Some entry \<Rightarrow> m\<lparr>mQueue := gput (uGuids unit ! 0) (entry\<lparr>qState := LFGStateProposal\<rparr>) (mQueue m)\<rparr>))"

type_synonym find_state = "LFGManager \<times> bool list \<times> LFGProposal list"

definition propose ::
    "int \<Rightarrow> lfgMatchUnit list \<Rightarrow> nat list \<Rightarrow> role_map \<Rightarrow> u32 \<Rightarrow> LFGProposal" where
  "propose now units combo assigned propID =
     (let allGUIDs = sort (gkeys (combo_roles units combo)) in
      \<lparr>prID = propID, prDungeonID = hd (combo_dungeons units combo), prState = LFGProposalInitiating,
       prGroup = combo_group units combo, prLeader = combo_leader assigned allGUIDs,
       prCancelTime = now + 45 * second,
       prPlayers = map (\<lambda>guid. (guid, \<lparr>pRole = the (gget assigned guid),
           pGroup = the (gget (combo_owner units combo) guid), pAccept = LFGAnswerPending\<rparr>)) allGUIDs\<rparr>)"

definition find_seed :: "int \<Rightarrow> lfgMatchUnit list \<Rightarrow> nat \<Rightarrow> find_state \<Rightarrow> find_state" where
  "find_seed now units seed = (\<lambda>(m, used, proposals).
     if used ! seed then (m, used, proposals)
     else case findLFGCombo (mSolo m) units used seed of
       None \<Rightarrow> (m, used, proposals)
     | Some combo \<Rightarrow>
         if combo_dungeons units combo = [] then (m, used, proposals)
         else let (resolved, assigned) = lfgCheckGroupRoles (combo_roles units combo) in
         if \<not> resolved then (m, used, proposals)
         else let propID = mNextProposalID m + 1;
                  prop = propose now units combo assigned propID;
                  m = m\<lparr>mNextProposalID := propID, mProposals := gput propID prop (mProposals m)\<rparr>;
                  m = fold (\<lambda>idx. mark_unit (units ! idx)) combo m;
                  used = fold (\<lambda>idx used. used[idx := True]) combo used in
           (m, used, proposals @ [prop]))"

definition FindGroups :: "int \<Rightarrow> LFGManager \<Rightarrow> LFGProposal list \<times> LFGManager" where
  "FindGroups now m =
     (let units = match_units m;
          (m', used, proposals) = fold (find_seed now units) [0..<length units]
                                    (m, replicate (length units) False, []) in
      (proposals, m'))"

section \<open>Creating proposals\<close>

definition FormSoloProposal :: "int \<Rightarrow> u64 \<Rightarrow> LFGManager \<Rightarrow> LFGProposal option \<times> LFGManager" where
  "FormSoloProposal now guid m =
     (if \<not> mSolo m then (None, m)
      else case gget (mQueue m) guid of
        None \<Rightarrow> (None, m)
      | Some entry \<Rightarrow>
          if qState entry \<noteq> LFGStateQueued \<or> qDungeons entry = [] then (None, m)
          else let propID = mNextProposalID m + 1;
                   prop = \<lparr>prID = propID, prDungeonID = qDungeons entry ! 0,
                     prState = LFGProposalInitiating, prGroup = 0, prLeader = guid,
                     prCancelTime = now + 45 * second,
                     prPlayers = [(guid, \<lparr>pRole = qRoles entry, pGroup = 0, pAccept = LFGAnswerPending\<rparr>)]\<rparr> in
            (Some prop, m\<lparr>mNextProposalID := propID, mProposals := gput propID prop (mProposals m),
               mQueue := gput guid (entry\<lparr>qState := LFGStateProposal\<rparr>) (mQueue m)\<rparr>))"

definition CreateProposal ::
    "int \<Rightarrow> u32 \<Rightarrow> u64 \<Rightarrow> u64 \<Rightarrow> role_map \<Rightarrow> LFGManager \<Rightarrow> LFGProposal \<times> LFGManager" where
  "CreateProposal now dungeonID groupID leaderGUID players m =
     (let propID = mNextProposalID m + 1;
          prop = \<lparr>prID = propID, prDungeonID = dungeonID, prState = LFGProposalInitiating,
            prGroup = groupID, prLeader = leaderGUID, prCancelTime = now + 45 * second,
            prPlayers = gmap_vals (\<lambda>guid role. \<lparr>pRole = role, pGroup = groupID, pAccept = LFGAnswerPending\<rparr>) players\<rparr> in
      (prop, m\<lparr>mNextProposalID := propID, mProposals := gput propID prop (mProposals m)\<rparr>))"

definition GetProposal :: "u32 \<Rightarrow> LFGManager \<Rightarrow> LFGProposal option" where
  "GetProposal proposalID m = gget (mProposals m) proposalID"

section \<open>Declining and expiry\<close>

definition is_denied :: "LFGProposal \<Rightarrow> LFGProposalPlayer \<Rightarrow> bool" where
  "is_denied prop p \<longleftrightarrow> pAccept p = LFGAnswerDeny \<or>
     (\<exists>(_, q) \<in> set (prPlayers prop). pAccept q = LFGAnswerDeny \<and> pGroup q \<noteq> 0 \<and> pGroup q = pGroup p)"

definition requeue_player :: "u64 \<Rightarrow> LFGManager \<Rightarrow> LFGManager" where
  "requeue_player guid m =
     (case gget (mQueue m) guid of
        None \<Rightarrow> m
      | Some entry \<Rightarrow> m\<lparr>mQueue := gput guid (entry\<lparr>qState := LFGStateQueued\<rparr>) (mQueue m)\<rparr>)"

definition requeue_groups :: "LFGProposal \<Rightarrow> LFGManager \<Rightarrow> LFGManager" where
  "requeue_groups prop m =
     m\<lparr>mGroupQueue := gmap_vals (\<lambda>_ entry.
         if \<exists>guid \<in> set (gkeys (prPlayers prop)). gget (gRoles entry) guid \<noteq> None
         then entry\<lparr>gState := LFGStateQueued\<rparr> else entry) (mGroupQueue m)\<rparr>"

definition deny :: "u64 \<Rightarrow> LFGProposal \<Rightarrow> LFGProposal" where
  "deny guid prop = prop\<lparr>prPlayers :=
     gput guid ((the (gget (prPlayers prop) guid))\<lparr>pAccept := LFGAnswerDeny\<rparr>) (prPlayers prop),
     prState := LFGProposalFailed\<rparr>"

definition drop_group :: "LFGProposal \<Rightarrow> u64 \<Rightarrow> LFGManager \<Rightarrow> LFGManager" where
  "drop_group prop groupID m =
     (if groupID \<noteq> 0
      then let m = fold (\<lambda>(pguid, p) m. if pGroup p = groupID then restoreStateLocked pguid m else m)
                     (prPlayers prop) m in
        m\<lparr>mGroupQueue := gdel groupID (mGroupQueue m)\<rparr>
      else m)"

definition requeue_rest :: "LFGProposal \<Rightarrow> LFGManager \<Rightarrow> LFGManager" where
  "requeue_rest prop m =
     fold (\<lambda>(pguid, p) m. if is_denied prop p then m else requeue_player pguid m) (prPlayers prop) m"

definition declineProposalLocked ::
    "LFGProposal \<Rightarrow> u64 \<Rightarrow> LFGManager \<Rightarrow> LFGProposal \<times> LFGManager" where
  "declineProposalLocked prop guid m =
     (let prop = deny guid prop;
          m = restoreStateLocked guid m;
          m = drop_group prop (pGroup (the (gget (prPlayers prop) guid))) m;
          m = deleteGroupEntriesContainingLocked guid m;
          m = requeue_rest prop m;
          m = requeue_groups prop m in
      (prop, m\<lparr>mProposals := gdel (prID prop) (mProposals m)\<rparr>))"

definition DeclineProposalForPlayer :: "u64 \<Rightarrow> LFGManager \<Rightarrow> LFGProposal option \<times> LFGManager" where
  "DeclineProposalForPlayer guid m =
     (case find (\<lambda>(_, prop). gget (prPlayers prop) guid \<noteq> None) (mProposals m) of
        None \<Rightarrow> (None, m)
      | Some (_, prop) \<Rightarrow>
          (let (prop', m') = declineProposalLocked prop guid m in (Some prop', m')))"

definition fail_proposal :: "LFGProposal \<Rightarrow> LFGProposal" where
  "fail_proposal prop = prop\<lparr>prState := LFGProposalFailed,
     prPlayers := gmap_vals (\<lambda>_ p. if pAccept p = LFGAnswerPending then p\<lparr>pAccept := LFGAnswerDeny\<rparr> else p)
       (prPlayers prop)\<rparr>"

text \<open>The body of the expiry loop, for a proposal that has run out.\<close>

definition expire_one :: "u32 \<Rightarrow> LFGProposal \<Rightarrow> LFGManager \<Rightarrow> LFGManager" where
  "expire_one propID prop m =
     (let m = fold (\<lambda>(guid, p) m. if is_denied prop p then restoreStateLocked guid m
                                  else requeue_player guid m) (prPlayers prop) m;
          m = m\<lparr>mGroupQueue := filter (\<lambda>(groupID, _). \<not> (\<exists>(_, q) \<in> set (prPlayers prop).
                  pAccept q = LFGAnswerDeny \<and> pGroup q \<noteq> 0 \<and> pGroup q = groupID)) (mGroupQueue m)\<rparr>;
          m = requeue_groups prop m in
      m\<lparr>mProposals := gdel propID (mProposals m)\<rparr>)"

definition ExpireProposals :: "int \<Rightarrow> LFGManager \<Rightarrow> LFGProposal list \<times> LFGManager" where
  "ExpireProposals now m =
     (let due = filter (\<lambda>(_, prop). prCancelTime prop < now) (mProposals m) in
      (sort_key prID (map (\<lambda>(_, prop). fail_proposal prop) due),
       fold (\<lambda>(propID, prop). expire_one propID (fail_proposal prop)) due m))"

section \<open>Completion and wait times\<close>

text \<open>
  The arithmetic is that of \<open>int32\<close>. After \<open>2 ^ 32 - 1\<close> samples of one dungeon the divisor of the code
  would be zero and the program would panic; \<open>go_div\<close> gives zero there.
\<close>

definition updateLFGWaitTime ::
    "(u32, lfgWaitTime) gomap \<Rightarrow> int \<Rightarrow> u32 \<Rightarrow> (u32, lfgWaitTime) gomap" where
  "updateLFGWaitTime store waitTime dungeonID =
     (let wt = (case gget store dungeonID of Some wt \<Rightarrow> wt | None \<Rightarrow> \<lparr>wtTime = 0, wtNumber = 0\<rparr>);
          old = wtNumber wt; number = old + 1 in
      gput dungeonID
        \<lparr>wtTime = to_i32 (go_div (to_i32 (wtTime wt * to_i32 (uint old) + waitTime)) (to_i32 (uint number))),
         wtNumber = number\<rparr> store)"

definition lfgWaitTimeOf :: "(u32, lfgWaitTime) gomap \<Rightarrow> u32 \<Rightarrow> int" where
  "lfgWaitTimeOf store dungeonID =
     (case gget store dungeonID of Some wt \<Rightarrow> wtTime wt | None \<Rightarrow> -1)"

definition lfgMinDungeon :: "u32 list \<Rightarrow> u32 option" where
  "lfgMinDungeon dungeons =
     (case dungeons of [] \<Rightarrow> None | d # ds \<Rightarrow> Some (fold (\<lambda>x mn. if x < mn then x else mn) ds d))"

definition record_wait :: "int \<Rightarrow> LFGProposal \<Rightarrow> u64 \<Rightarrow> LFGProposalPlayer \<Rightarrow> LFGManager \<Rightarrow> LFGManager" where
  "record_wait now prop guid player m =
     (let queued = gget (mQueue m) guid;
          grouped = (if pGroup player \<noteq> 0 then gget (mGroupQueue m) (pGroup player) else None);
          dungeonID = prDungeonID prop;
          dungeonID = (case queued of None \<Rightarrow> dungeonID
                       | Some e \<Rightarrow> (case lfgMinDungeon (qDungeons e) of Some d \<Rightarrow> d | None \<Rightarrow> dungeonID));
          joinUnix = (case queued of None \<Rightarrow> unix now | Some e \<Rightarrow> unix (qQueuedAt e));
          role = (case queued of None \<Rightarrow> pRole player | Some e \<Rightarrow> qRoles e);
          joinUnix = (case grouped of None \<Rightarrow> joinUnix | Some g \<Rightarrow> unix (gQueuedAt g));
          dungeonID = (case (grouped, queued) of
                         (Some g, None) \<Rightarrow> (case lfgMinDungeon (gDungeons g) of Some d \<Rightarrow> d | None \<Rightarrow> dungeonID)
                       | _ \<Rightarrow> dungeonID);
          waitTime = to_i32 (go_div (unix now - joinUnix) 1000);
          role = without_leader role in
      if role = LFGRoleDamage then m\<lparr>mWaitDps := updateLFGWaitTime (mWaitDps m) waitTime dungeonID\<rparr>
      else if role = LFGRoleHealer then m\<lparr>mWaitHealer := updateLFGWaitTime (mWaitHealer m) waitTime dungeonID\<rparr>
      else if role = LFGRoleTank then m\<lparr>mWaitTank := updateLFGWaitTime (mWaitTank m) waitTime dungeonID\<rparr>
      else m\<lparr>mWaitAvg := updateLFGWaitTime (mWaitAvg m) waitTime dungeonID\<rparr>)"

definition complete_proposal :: "int \<Rightarrow> LFGProposal \<Rightarrow> LFGManager \<Rightarrow> LFGManager" where
  "complete_proposal now prop m =
     (let m = fold (\<lambda>(guid, player). record_wait now prop guid player) (prPlayers prop) m in
      fold (\<lambda>(guid, _) m. deleteGroupEntriesContainingLocked guid (setStateLocked guid LFGStateDungeon m))
        (prPlayers prop) m)"

definition UpdateProposal ::
    "int \<Rightarrow> u32 \<Rightarrow> u64 \<Rightarrow> bool \<Rightarrow> LFGManager \<Rightarrow> (LFGProposal option \<times> bool) \<times> LFGManager" where
  "UpdateProposal now proposalID guid accept m =
     (case gget (mProposals m) proposalID of
        None \<Rightarrow> ((None, False), m)
      | Some prop \<Rightarrow> (case gget (prPlayers prop) guid of
          None \<Rightarrow> ((None, False), m)
        | Some player \<Rightarrow>
            if \<not> accept
            then let (prop', m') = declineProposalLocked prop guid m in ((Some prop', True), m')
            else let prop = prop\<lparr>prPlayers := gput guid (player\<lparr>pAccept := LFGAnswerAgree\<rparr>) (prPlayers prop)\<rparr>;
                     allAgree = (\<forall>(_, p) \<in> set (prPlayers prop). pAccept p = LFGAnswerAgree) in
              if allAgree \<or> mSolo m
              then let prop = prop\<lparr>prState := LFGProposalSuccess\<rparr>;
                       m = complete_proposal now prop m in
                ((Some prop, True), m\<lparr>mProposals := gdel proposalID (mProposals m)\<rparr>)
              else ((Some prop, True), m\<lparr>mProposals := gput proposalID prop (mProposals m)\<rparr>)))"

section \<open>The invariant\<close>

lemma mgr_ok_next [simp]:
  "queue_ok (m\<lparr>mNextProposalID := i\<rparr>) = queue_ok m" "groups_ok (m\<lparr>mNextProposalID := i\<rparr>) = groups_ok m"
  "checks_ok (m\<lparr>mNextProposalID := i\<rparr>) = checks_ok m" "props_ok (m\<lparr>mNextProposalID := i\<rparr>) = props_ok m"
  "mgr_ok (m\<lparr>mNextProposalID := i\<rparr>) = mgr_ok m"
  by (simp_all add: mgr_ok_defs)

lemma mgr_ok_waits [simp]:
  "mgr_ok (m\<lparr>mWaitAvg := w\<rparr>) = mgr_ok m" "mgr_ok (m\<lparr>mWaitTank := w\<rparr>) = mgr_ok m"
  "mgr_ok (m\<lparr>mWaitHealer := w\<rparr>) = mgr_ok m" "mgr_ok (m\<lparr>mWaitDps := w\<rparr>) = mgr_ok m"
  by (simp_all add: mgr_ok_defs)

lemma mgr_ok_put_proposal:
  "mgr_ok m \<Longrightarrow> prop_ok i prop \<Longrightarrow> mgr_ok (m\<lparr>mProposals := gput i prop (mProposals m)\<rparr>)"
  by (simp add: mgr_ok_def) (simp add: props_ok_def gomap_simps)

lemma mgr_ok_new_proposal:
  "mgr_ok m \<Longrightarrow> prop_ok i prop \<Longrightarrow>
     mgr_ok (m\<lparr>mNextProposalID := j, mProposals := gput i prop (mProposals m)\<rparr>)"
  using mgr_ok_put_proposal [of "m\<lparr>mNextProposalID := j\<rparr>" i "prop"] by simp

lemma mgr_ok_del_proposal: "mgr_ok m \<Longrightarrow> mgr_ok (m\<lparr>mProposals := gdel i (mProposals m)\<rparr>)"
  by (simp add: mgr_ok_def) (simp add: props_ok_def gomap_simps)

lemma groups_ok_filter:
  "mgr_ok m \<Longrightarrow> mgr_ok (m\<lparr>mGroupQueue := filter P (mGroupQueue m)\<rparr>)"
  by (auto simp: mgr_ok_def groups_ok_def gget_filter_Some)

lemma groups_ok_del:
  "mgr_ok m \<Longrightarrow> mgr_ok (m\<lparr>mGroupQueue := gdel g (mGroupQueue m)\<rparr>)"
  by (simp add: mgr_ok_def) (simp add: groups_ok_def gomap_simps)

lemma requeue_player_ok: "mgr_ok m \<Longrightarrow> mgr_ok (requeue_player guid m)"
  by (auto simp: requeue_player_def mgr_ok_def queue_ok_get intro!: queue_ok_put split: option.split)

lemma requeue_groups_ok: "mgr_ok m \<Longrightarrow> mgr_ok (requeue_groups prop m)"
  by (auto simp: requeue_groups_def mgr_ok_def groups_ok_def)

lemma mark_unit_ok: "mgr_ok m \<Longrightarrow> mgr_ok (mark_unit unit m)"
proof -
  assume m: "mgr_ok m"
  have "groups_ok (m\<lparr>mGroupQueue := gput g (e\<lparr>gState := 3\<rparr>) (mGroupQueue m)\<rparr>)"
    if "gget (mGroupQueue m) g = Some e" for g e
    using m that by (simp add: mgr_ok_def groups_ok_def gomap_simps)
  with m show ?thesis
    by (auto simp: mark_unit_def mgr_ok_def queue_ok_get intro!: queue_ok_put split: option.split)
qed

lemma FormSoloProposal_ok:
  assumes m: "mgr_ok m"
  shows "mgr_ok (snd (FormSoloProposal now guid m))"
proof -
  have new: "mgr_ok (m\<lparr>mNextProposalID := i, mProposals := gput i p (mProposals m),
      mQueue := gput guid (e\<lparr>qState := 3\<rparr>) (mQueue m)\<rparr>)"
    if "gget (mQueue m) guid = Some e" "prop_ok i p" for i p e
    using mgr_ok_put [OF mgr_ok_new_proposal [OF m that(2)], of "e\<lparr>qState := 3\<rparr>" guid i]
      queue_ok_get [of m guid e] m that(1)
    by (simp add: mgr_ok_def)
  show ?thesis
    using m unfolding FormSoloProposal_def Let_def
    by (auto intro!: new simp: prop_ok_def split: option.split)
qed

lemma CreateProposal_ok:
  assumes "mgr_ok m" and "gmap_ok players"
  shows "mgr_ok (snd (CreateProposal now dungeonID groupID leaderGUID players m))"
  unfolding CreateProposal_def Let_def snd_conv
  by (rule mgr_ok_new_proposal) (use assms in \<open>auto simp: prop_ok_def\<close>)

lemma drop_group_ok: "mgr_ok m \<Longrightarrow> mgr_ok (drop_group pr g m)"
proof -
  assume "mgr_ok m"
  then have "mgr_ok (fold (\<lambda>(pguid, p) m. if pGroup p = g then restoreStateLocked pguid m else m) (prPlayers pr) m)"
    by (intro fold_invariant_simple [where I = mgr_ok]) (auto simp: restoreStateLocked_ok)
  then show ?thesis using \<open>mgr_ok m\<close> by (simp add: drop_group_def Let_def groups_ok_del)
qed

lemma requeue_rest_ok: "mgr_ok m \<Longrightarrow> mgr_ok (requeue_rest pr m)"
  unfolding requeue_rest_def
  by (rule fold_invariant_simple [where I = mgr_ok]) (auto simp: requeue_player_ok)

lemma declineProposalLocked_ok:
  assumes "mgr_ok m"
  shows "mgr_ok (snd (declineProposalLocked pr guid m))"
  unfolding declineProposalLocked_def Let_def
  using assms by (simp add: mgr_ok_del_proposal requeue_groups_ok requeue_rest_ok deleteGroupEntries_ok
      drop_group_ok restoreStateLocked_ok)

lemma DeclineProposalForPlayer_ok: "mgr_ok m \<Longrightarrow> mgr_ok (snd (DeclineProposalForPlayer guid m))"
  by (auto simp: DeclineProposalForPlayer_def split: option.split prod.split)
    (metis declineProposalLocked_ok snd_conv)

lemma expire_one_ok:
  assumes "mgr_ok m"
  shows "mgr_ok (expire_one propID prop m)"
proof -
  have "mgr_ok (fold (\<lambda>(guid, p) m. if is_denied prop p then restoreStateLocked guid m
      else requeue_player guid m) (prPlayers prop) m)"
    by (rule fold_invariant_simple [where I = mgr_ok])
      (auto simp: restoreStateLocked_ok requeue_player_ok assms)
  then show ?thesis
    unfolding expire_one_def Let_def
    by (intro mgr_ok_del_proposal requeue_groups_ok groups_ok_filter)
qed

lemma ExpireProposals_ok: "mgr_ok m \<Longrightarrow> mgr_ok (snd (ExpireProposals now m))"
  unfolding ExpireProposals_def Let_def snd_conv
  by (rule fold_invariant_simple [where I = mgr_ok]) (auto simp: expire_one_ok)

lemma record_wait_ok: "mgr_ok m \<Longrightarrow> mgr_ok (record_wait now prop guid player m)"
  by (simp add: record_wait_def Let_def)

lemma complete_proposal_ok: "mgr_ok m \<Longrightarrow> mgr_ok (complete_proposal now prop m)"
  unfolding complete_proposal_def Let_def
  by (rule fold_invariant_simple [where I = mgr_ok],
      auto simp: deleteGroupEntries_ok setStateLocked_ok,
      rule fold_invariant_simple [where I = mgr_ok], auto simp: record_wait_ok)

lemma UpdateProposal_ok:
  assumes "mgr_ok m"
  shows "mgr_ok (snd (UpdateProposal now proposalID guid accept m))"
proof -
  have stored: "prop_ok i p" if "gget (mProposals m) i = Some p" for i p
    using assms that by (auto simp: mgr_ok_def props_ok_def)
  have agree: "prop_ok i (p\<lparr>prPlayers := gput guid (pl\<lparr>pAccept := 1\<rparr>) (prPlayers p)\<rparr>)"
    if "gget (mProposals m) i = Some p" for i p pl
    using stored [OF that] by (auto simp: prop_ok_def gomap_simps)
  have decline: "mgr_ok (snd (let (prop', m') = declineProposalLocked p guid m in ((Some prop', True), m')))" for p
    using declineProposalLocked_ok [OF assms, of p guid]
    by (cases "declineProposalLocked p guid m") simp
  show ?thesis
    unfolding UpdateProposal_def
    using assms decline agree
    by (auto simp: Let_def complete_proposal_ok mgr_ok_del_proposal intro!: mgr_ok_put_proposal
        split: option.split)
qed

section \<open>What the loops over the players leave\<close>

definition restored :: "LFGQueueEntry option \<Rightarrow> LFGQueueEntry option" where
  "restored e = (case e of None \<Rightarrow> None
     | Some entry \<Rightarrow> if qOldState entry = LFGStateNone then None
                     else Some (entry\<lparr>qState := qOldState entry\<rparr>))"

definition requeued :: "LFGQueueEntry option \<Rightarrow> LFGQueueEntry option" where
  "requeued e = map_option (qState_update (\<lambda>_. LFGStateQueued)) e"

lemma restored_twice [simp]: "restored (restored e) = restored e"
  by (simp add: restored_def split: option.split)

lemma get_restoreStateLocked:
  "gget (mQueue (restoreStateLocked g m)) k =
     (if k = g then restored (gget (mQueue m) k) else gget (mQueue m) k)"
  by (auto simp: restoreStateLocked_def restored_def forget_def gomap_simps split: option.split)

lemma get_requeue_player:
  "gget (mQueue (requeue_player g m)) k =
     (if k = g then requeued (gget (mQueue m) k) else gget (mQueue m) k)"
  by (auto simp: requeue_player_def requeued_def gomap_simps split: option.split)

lemma fold_pointwise:
  assumes "\<And>g v m k. gget (mQueue (f (g, v) m)) k =
      (if k = g then h v (gget (mQueue m) k) else gget (mQueue m) k)"
    and "gmap_ok ps"
  shows "gget (mQueue (fold f ps m)) k =
    (case gget ps k of None \<Rightarrow> gget (mQueue m) k | Some v \<Rightarrow> h v (gget (mQueue m) k))"
  using assms(2)
proof (induction ps arbitrary: m)
  case (Cons p ps)
  obtain g v where p: "p = (g, v)" by (cases p)
  have "gget ps g = None" using Cons.prems p by (auto simp: gm.keys_get)
  then show ?case
    using Cons by (auto simp: p assms(1) split: option.split)
qed simp

lemma queue_only [simp]:
  "mGroupQueue (restoreStateLocked g m) = mGroupQueue m" "mProposals (restoreStateLocked g m) = mProposals m"
  "mGroupQueue (requeue_player g m) = mGroupQueue m" "mProposals (requeue_player g m) = mProposals m"
  "mGroupQueue (forget g m) = mGroupQueue m" "mProposals (forget g m) = mProposals m"
  "mQueue (deleteGroupEntriesContainingLocked g m) = mQueue m"
  "mProposals (deleteGroupEntriesContainingLocked g m) = mProposals m"
  "mQueue (requeue_groups pr m) = mQueue m" "mProposals (requeue_groups pr m) = mProposals m"
  "mProposals (setStateLocked g st m) = mProposals m"
  by (auto simp: restoreStateLocked_def requeue_player_def forget_def Let_def setStateLocked_def
      deleteGroupEntriesContainingLocked_def requeue_groups_def split: option.split)

lemma fold_queue_only:
  assumes "\<And>x m. mGroupQueue (f x m) = mGroupQueue m" "\<And>x m. mProposals (f x m) = mProposals m"
  shows "mGroupQueue (fold f xs m) = mGroupQueue m" "mProposals (fold f xs m) = mProposals m"
  by (induction xs arbitrary: m) (simp_all add: assms)

section \<open>Declining\<close>

definition groupmate :: "LFGProposal \<Rightarrow> u64 \<Rightarrow> u64 \<Rightarrow> bool" where
  "groupmate prop guid g \<longleftrightarrow> g = guid \<or>
     (\<exists>p q. gget (prPlayers prop) guid = Some p \<and> gget (prPlayers prop) g = Some q \<and>
        pGroup p \<noteq> 0 \<and> pGroup q = pGroup p)"

lemma denied_iff_groupmate:
  assumes "prop_ok i pr" and "gget (prPlayers pr) guid = Some p" and "gget (prPlayers (deny guid pr)) g = Some q"
  shows "is_denied (deny guid pr) q \<longleftrightarrow> groupmate pr guid g"
proof -
  have ok: "gmap_ok (prPlayers (deny guid pr))" using assms(1) by (simp add: deny_def prop_ok_def)
  have get: "gget (prPlayers (deny guid pr)) k =
      (if k = guid then Some (p\<lparr>pAccept := 0\<rparr>) else gget (prPlayers pr) k)" for k
    using assms(2) by (simp add: deny_def gomap_simps)
  have acc: "pAccept r = 0 \<longleftrightarrow> k = guid" if "gget (prPlayers (deny guid pr)) k = Some r" for k r
  proof (cases "k = guid")
    case False
    then have "pAccept r \<in> {-1, 1}" using that assms(1) by (auto simp: get prop_ok_def)
    with False show ?thesis by auto
  qed (use that in \<open>auto simp: get\<close>)
  have "(\<exists>(_, r) \<in> set (prPlayers (deny guid pr)). pAccept r = 0 \<and> pGroup r \<noteq> 0 \<and> pGroup r = pGroup q) \<longleftrightarrow>
      pGroup p \<noteq> 0 \<and> pGroup p = pGroup q" (is "?l = ?r")
  proof
    assume ?l
    then obtain k r where r: "(k, r) \<in> set (prPlayers (deny guid pr))" "pAccept r = 0" "pGroup r \<noteq> 0"
      "pGroup r = pGroup q" by auto
    then have "gget (prPlayers (deny guid pr)) k = Some r" using ok by (simp add: in_set_gget)
    moreover from this have "k = guid" using acc r(2) by blast
    ultimately show ?r using r(3,4) by (auto simp: get)
  next
    assume ?r
    moreover have "(guid, p\<lparr>pAccept := 0\<rparr>) \<in> set (prPlayers (deny guid pr))"
      by (rule gget_in_set) (simp add: get)
    ultimately show ?l by (intro bexI [of _ "(guid, p\<lparr>pAccept := 0\<rparr>)"]) auto
  qed
  then show ?thesis
    using assms(2,3) acc [OF assms(3)] by (auto simp: is_denied_def groupmate_def get split: if_splits)
qed

lemma drop_group_get:
  assumes "gmap_ok (prPlayers pr)"
  shows "gget (mQueue (drop_group pr g m)) k = (case gget (prPlayers pr) k of
      None \<Rightarrow> gget (mQueue m) k
    | Some q \<Rightarrow> (if g \<noteq> 0 \<and> pGroup q = g then restored (gget (mQueue m) k) else gget (mQueue m) k))"
    and "mProposals (drop_group pr g m) = mProposals m"
    and "mGroupQueue (drop_group pr g m) = (if g \<noteq> 0 then gdel g (mGroupQueue m) else mGroupQueue m)"
proof -
  let ?f = "\<lambda>(pguid, p) m. if pGroup p = g then restoreStateLocked pguid m else m"
  have "gget (mQueue (fold ?f (prPlayers pr) m)) k = (case gget (prPlayers pr) k of
      None \<Rightarrow> gget (mQueue m) k
    | Some q \<Rightarrow> (if pGroup q = g then restored (gget (mQueue m) k) else gget (mQueue m) k))"
    by (subst fold_pointwise [where h = "\<lambda>q e. if pGroup q = g then restored e else e"])
      (auto simp: get_restoreStateLocked assms)
  then show "gget (mQueue (drop_group pr g m)) k = (case gget (prPlayers pr) k of
      None \<Rightarrow> gget (mQueue m) k
    | Some q \<Rightarrow> (if g \<noteq> 0 \<and> pGroup q = g then restored (gget (mQueue m) k) else gget (mQueue m) k))"
    by (auto simp: drop_group_def Let_def split: option.split)
  have "mGroupQueue (fold ?f ps m) = mGroupQueue m" "mProposals (fold ?f ps m) = mProposals m"
    for ps :: "(u64 \<times> LFGProposalPlayer) list"
    by (rule fold_queue_only; simp split: prod.split)+
  then show "mProposals (drop_group pr g m) = mProposals m"
    and "mGroupQueue (drop_group pr g m) = (if g \<noteq> 0 then gdel g (mGroupQueue m) else mGroupQueue m)"
    by (simp_all add: drop_group_def Let_def)
qed

lemma requeue_rest_get:
  assumes "gmap_ok (prPlayers pr)"
  shows "gget (mQueue (requeue_rest pr m)) k = (case gget (prPlayers pr) k of
      None \<Rightarrow> gget (mQueue m) k
    | Some q \<Rightarrow> (if is_denied pr q then gget (mQueue m) k else requeued (gget (mQueue m) k)))"
    and "mProposals (requeue_rest pr m) = mProposals m"
    and "mGroupQueue (requeue_rest pr m) = mGroupQueue m"
proof -
  show "gget (mQueue (requeue_rest pr m)) k = (case gget (prPlayers pr) k of
      None \<Rightarrow> gget (mQueue m) k
    | Some q \<Rightarrow> (if is_denied pr q then gget (mQueue m) k else requeued (gget (mQueue m) k)))"
    unfolding requeue_rest_def
    by (subst fold_pointwise [where h = "\<lambda>q e. if is_denied pr q then e else requeued e"])
      (auto simp: get_requeue_player assms)
  show "mProposals (requeue_rest pr m) = mProposals m" "mGroupQueue (requeue_rest pr m) = mGroupQueue m"
    unfolding requeue_rest_def by (rule fold_queue_only; simp split: prod.split)+
qed

lemma deny_get:
  assumes "gget (prPlayers pr) guid = Some p"
  shows "gget (prPlayers (deny guid pr)) k =
      (if k = guid then Some (p\<lparr>pAccept := LFGAnswerDeny\<rparr>) else gget (prPlayers pr) k)"
    and "gkeys (prPlayers (deny guid pr)) = gkeys (prPlayers pr)"
    and "prID (deny guid pr) = prID pr"
  using assms gkeys_gput_present [of guid "prPlayers pr"] by (simp_all add: deny_def gomap_simps gget_keys)

lemma declineProposalLocked_queue:
  assumes "prop_ok i pr" and "gget (prPlayers pr) guid = Some p"
  shows "gget (mQueue (snd (declineProposalLocked pr guid m))) g =
    (if groupmate pr guid g then restored (gget (mQueue m) g)
     else if gget (prPlayers pr) g \<noteq> None then requeued (gget (mQueue m) g)
     else gget (mQueue m) g)"
proof -
  have ok: "gmap_ok (prPlayers (deny guid pr))" using assms(1) by (simp add: deny_def prop_ok_def)
  note get = deny_get(1) [OF assms(2)]
  have "gget (mQueue (snd (declineProposalLocked pr guid m))) g =
      gget (mQueue (requeue_rest (deny guid pr) (deleteGroupEntriesContainingLocked guid
        (drop_group (deny guid pr) (pGroup p) (restoreStateLocked guid m))))) g"
    by (simp add: declineProposalLocked_def Let_def get)
  also have "\<dots> = (if groupmate pr guid g then restored (gget (mQueue m) g)
     else if gget (prPlayers pr) g \<noteq> None then requeued (gget (mQueue m) g) else gget (mQueue m) g)"
  proof (cases "gget (prPlayers (deny guid pr)) g")
    case None
    then have "g \<noteq> guid" "gget (prPlayers pr) g = None" "\<not> groupmate pr guid g"
      by (auto simp: get groupmate_def split: if_splits)
    then show ?thesis
      using None by (simp add: drop_group_get [OF ok] requeue_rest_get [OF ok] get_restoreStateLocked)
  next
    case (Some q)
    then have pl: "gget (prPlayers pr) g \<noteq> None" using assms(2) by (auto simp: get split: if_splits)
    have d: "is_denied (deny guid pr) q \<longleftrightarrow> groupmate pr guid g" by (rule denied_iff_groupmate [OF assms Some])
    have "groupmate pr guid g \<longleftrightarrow> g = guid \<or> pGroup p \<noteq> 0 \<and> pGroup q = pGroup p"
      using Some assms(2) by (auto simp: groupmate_def get split: if_splits)
    then show ?thesis
      using Some d pl
      by (auto simp: drop_group_get [OF ok] requeue_rest_get [OF ok] get_restoreStateLocked)
  qed
  finally show ?thesis .
qed

lemma declineProposalLocked_rest:
  assumes "gmap_ok (mGroupQueue m)" and "prop_ok i pr" and "gget (prPlayers pr) guid = Some p"
    and "declineProposalLocked pr guid m = (pr', m')"
  shows "pr' = deny guid pr" and "gget (mProposals m') k = (if k = prID pr then None else gget (mProposals m) k)"
    and "gget (mGroupQueue m') gid = (case gget (mGroupQueue m) gid of None \<Rightarrow> None
       | Some e \<Rightarrow> if gget (gRoles e) guid \<noteq> None \<or> pGroup p \<noteq> 0 \<and> gid = pGroup p then None
         else Some (if \<exists>g \<in> set (gkeys (prPlayers pr)). gget (gRoles e) g \<noteq> None
                    then e\<lparr>gState := LFGStateQueued\<rparr> else e))"
proof -
  have ok: "gmap_ok (prPlayers (deny guid pr))" using assms(2) by (simp add: deny_def prop_ok_def)
  note keep = drop_group_get(2,3) [OF ok] requeue_rest_get(2,3) [OF ok] deny_get [OF assms(3)]
  note res = assms(4) [unfolded declineProposalLocked_def Let_def, symmetric]
  from res show "pr' = deny guid pr"
    and "gget (mProposals m') k = (if k = prID pr then None else gget (mProposals m) k)"
    by (simp_all add: gomap_simps keep)
  have "gmap_ok (if pGroup p \<noteq> 0 then gdel (pGroup p) (mGroupQueue m) else mGroupQueue m)"
    using assms(1) by simp
  with res show "gget (mGroupQueue m') gid = (case gget (mGroupQueue m) gid of None \<Rightarrow> None
       | Some e \<Rightarrow> if gget (gRoles e) guid \<noteq> None \<or> pGroup p \<noteq> 0 \<and> gid = pGroup p then None
         else Some (if \<exists>g \<in> set (gkeys (prPlayers pr)). gget (gRoles e) g \<noteq> None
                    then e\<lparr>gState := LFGStateQueued\<rparr> else e))"
    by (auto simp: requeue_groups_def keep deleteGroupEntriesContainingLocked_def gget_filter
        gomap_simps split: option.split)
qed

text \<open>
  Declining a proposal. The proposal is failed and gone, the decliner is marked, the decliner and
  the proposal members of their group fall back to their remembered state (and out of the queue when
  they have none), every other proposal member is queued again, no group entry with the decliner or of
  their group is left, and the state of everybody outside the proposal is untouched.
\<close>

theorem UpdateProposal_decline:
  assumes "mgr_ok m" and "GetProposal i m = Some pr" and "gget (prPlayers pr) guid = Some p"
    and "UpdateProposal now i guid False m = (res, m')"
  shows "res = (Some (deny guid pr), True) \<and> GetProposal i m' = None \<and>
    (\<forall>k. k \<noteq> i \<longrightarrow> GetProposal k m' = GetProposal k m) \<and>
    (\<forall>g. gget (mQueue m') g = (if groupmate pr guid g then restored (gget (mQueue m) g)
       else if gget (prPlayers pr) g \<noteq> None then requeued (gget (mQueue m) g) else gget (mQueue m) g)) \<and>
    (\<forall>k e. gget (mGroupQueue m') k = Some e \<longrightarrow>
       gget (gRoles e) guid = None \<and> (pGroup p = 0 \<or> k \<noteq> pGroup p))"
proof -
  obtain pr' m2 where d: "declineProposalLocked pr guid m = (pr', m2)" by fastforce
  have ok: "prop_ok i pr" "gmap_ok (mGroupQueue m)" "gmap_ok (mProposals m)" "prID pr = i"
    using assms(1,2) by (auto simp: mgr_ok_def props_ok_def groups_ok_def GetProposal_def prop_ok_def)
  have res: "res = (Some pr', True)" "m' = m2"
    using assms(2-4) d by (simp_all add: UpdateProposal_def GetProposal_def)
  note rest = declineProposalLocked_rest [OF ok(2,1) assms(3) d]
  have "gget (mQueue m') g = (if groupmate pr guid g then restored (gget (mQueue m) g)
       else if gget (prPlayers pr) g \<noteq> None then requeued (gget (mQueue m) g) else gget (mQueue m) g)" for g
    using declineProposalLocked_queue [OF ok(1) assms(3), of m g] by (simp add: d res)
  moreover have "gget (gRoles e) guid = None \<and> (pGroup p = 0 \<or> k \<noteq> pGroup p)"
    if "gget (mGroupQueue m') k = Some e" for k e
    using that unfolding res(2) rest(3) by (auto split: option.splits if_splits)
  ultimately show ?thesis using rest(1,2) by (simp add: res GetProposal_def ok(4))
qed

definition proposed_pair :: "LFGManager" where
  "proposed_pair = snd (CreateProposal 5 9 0 1 [(1, 2), (2, 8)]
     (QueueGroup 5 90 1 [9] [(1, 2), (2, 8)] [] (NewLFGManager False)))"

lemma proposed_pair_ok: "mgr_ok proposed_pair"
  unfolding proposed_pair_def
  by (rule CreateProposal_ok [OF QueueGroup_ok [OF NewLFGManager_ok]]) (simp_all add: sane_roles_def)

definition pair_proposal :: "LFGProposal" where
  "pair_proposal = \<lparr>prID = 1, prDungeonID = 9, prState = LFGProposalInitiating, prGroup = 0, prLeader = 1,
     prCancelTime = 5 + 45 * second,
     prPlayers = [(1, \<lparr>pRole = 2, pGroup = 0, pAccept = LFGAnswerPending\<rparr>),
                  (2, \<lparr>pRole = 8, pGroup = 0, pAccept = LFGAnswerPending\<rparr>)]\<rparr>"

lemma proposed_pair_get:
  "GetProposal 1 proposed_pair = Some pair_proposal"
  "gget (mQueue proposed_pair) 2 = Some \<lparr>qGUID = 2, qRoles = 8, qDungeons = [9], qComment = [],
     qQueuedAt = 5, qState = LFGStateQueued, qOldState = LFGStateNone\<rparr>"
  "mSolo proposed_pair = False"
  by (simp_all add: proposed_pair_def pair_proposal_def CreateProposal_def QueueGroup_def GetProposal_def
      NewLFGManager_def gput_def gmap_vals_def Let_def old_state_def)

theorem UpdateProposal_decline_witness:
  "\<exists>m'. UpdateProposal 6 1 1 False proposed_pair = ((Some (deny 1 pair_proposal), True), m') \<and>
     GetProposal 1 m' = None \<and> gget (mQueue m') 2 \<noteq> None"
proof -
  obtain res m' where r: "UpdateProposal 6 1 1 False proposed_pair = (res, m')" by fastforce
  have p: "gget (prPlayers pair_proposal) 1 = Some \<lparr>pRole = 2, pGroup = 0, pAccept = LFGAnswerPending\<rparr>"
    "\<not> groupmate pair_proposal 1 2" "gget (prPlayers pair_proposal) 2 \<noteq> None"
    by (simp_all add: pair_proposal_def groupmate_def)
  from UpdateProposal_decline [OF proposed_pair_ok proposed_pair_get(1) p(1) r] r p(2,3)
  show ?thesis by (simp add: proposed_pair_get(2) requeued_def)
qed

section \<open>Expiry\<close>

definition outcome :: "LFGProposal \<Rightarrow> LFGProposalPlayer \<Rightarrow> LFGQueueEntry option \<Rightarrow> LFGQueueEntry option" where
  "outcome prop p e = (if is_denied prop p then restored e else requeued e)"

lemma expire_one_queue:
  assumes "gmap_ok (prPlayers pr)"
  shows "gget (mQueue (expire_one i pr m)) g =
    (case gget (prPlayers pr) g of None \<Rightarrow> gget (mQueue m) g | Some p \<Rightarrow> outcome pr p (gget (mQueue m) g))"
  unfolding expire_one_def Let_def
  by (simp, subst fold_pointwise [where h = "outcome pr"])
    (auto simp: get_restoreStateLocked get_requeue_player outcome_def assms)

lemma expire_one_proposals: "mProposals (expire_one i pr m) = gdel i (mProposals m)"
proof -
  have "mProposals (fold (\<lambda>(guid, p) m. if is_denied pr p then restoreStateLocked guid m
      else requeue_player guid m) ps m) = mProposals m" for ps
    by (rule fold_queue_only) (simp_all split: prod.split)
  then show ?thesis by (simp add: expire_one_def Let_def)
qed

lemma fold_expire_proposals:
  "mProposals (fold (\<lambda>(i, p). expire_one i (fail_proposal p)) due m) = fold gdel (map fst due) (mProposals m)"
  by (induction due arbitrary: m) (auto simp: expire_one_proposals)

text \<open>
  Expiry removes exactly the proposals whose deadline lies before now and reports them in ID order,
  failed and with no answer pending; every other proposal stays. When nothing is due the manager is
  unchanged, and when one proposal is due each of its players is restored or queued again as they, or
  somebody of their group, left the proposal unanswered or not; nobody else's entry changes.
\<close>

theorem ExpireProposals_exact:
  assumes "mgr_ok m" and "ExpireProposals now m = (expired, m')"
  shows "sorted (map prID expired) \<and>
    (\<forall>pr. pr \<in> set expired \<longleftrightarrow> (\<exists>i p. GetProposal i m = Some p \<and> prCancelTime p < now \<and> pr = fail_proposal p)) \<and>
    (\<forall>pr \<in> set expired. prState pr = LFGProposalFailed \<and>
       (\<forall>g p. gget (prPlayers pr) g = Some p \<longrightarrow> pAccept p \<noteq> LFGAnswerPending)) \<and>
    (\<forall>i. GetProposal i m' = (case GetProposal i m of None \<Rightarrow> None
       | Some p \<Rightarrow> if prCancelTime p < now then None else Some p)) \<and>
    (expired = [] \<longrightarrow> m' = m) \<and>
    (\<forall>pr. expired = [pr] \<longrightarrow> (\<forall>g. gget (mQueue m') g = (case gget (prPlayers pr) g of
        None \<Rightarrow> gget (mQueue m) g | Some p \<Rightarrow> outcome pr p (gget (mQueue m) g))))"
proof -
  let ?due = "filter (\<lambda>(_, p). prCancelTime p < now) (mProposals m)"
  have ok: "gmap_ok (mProposals m)" and pok: "\<And>i p. gget (mProposals m) i = Some p \<Longrightarrow> prop_ok i p"
    using assms(1) by (auto simp: mgr_ok_def props_ok_def)
  have mem: "(i, p) \<in> set (mProposals m) \<longleftrightarrow> gget (mProposals m) i = Some p" for i p
    using ok gget_in_set in_set_gget by metis
  have res: "expired = sort_key prID (map (\<lambda>(_, p). fail_proposal p) ?due)"
    "m' = fold (\<lambda>(i, p). expire_one i (fail_proposal p)) ?due m"
    using assms(2) by (simp_all add: ExpireProposals_def Let_def)
  have set: "pr \<in> set expired \<longleftrightarrow>
      (\<exists>i p. gget (mProposals m) i = Some p \<and> prCancelTime p < now \<and> pr = fail_proposal p)" for pr
    by (force simp: res(1) mem)
  have failed: "prState (fail_proposal p) = LFGProposalFailed"
    "gget (prPlayers (fail_proposal p)) g = Some q \<Longrightarrow> pAccept q \<noteq> LFGAnswerPending" for p g q
    by (auto simp: fail_proposal_def split: if_splits dest: arg_cong [of _ _ pAccept])
  have "gget (mProposals m') i = (case gget (mProposals m) i of None \<Rightarrow> None
       | Some p \<Rightarrow> if prCancelTime p < now then None else Some p)" for i
    by (auto simp: res(2) fold_expire_proposals gm.get_fold_del mem image_iff split: option.split)
  moreover have "m' = m" if "expired = []"
  proof -
    have "?due = []" using arg_cong [OF that, of length] unfolding res(1) by simp
    then show ?thesis unfolding res(2) by (simp only: fold_simps id_apply)
  qed
  moreover have "gget (mQueue m') g = (case gget (prPlayers pr) g of
        None \<Rightarrow> gget (mQueue m) g | Some p \<Rightarrow> outcome pr p (gget (mQueue m) g))" if "expired = [pr]" for pr g
  proof -
    have "length ?due = 1" using arg_cong [OF that, of length] unfolding res(1) by simp
    then obtain i p where due: "?due = [(i, p)]" by (cases ?due) auto
    then have "(i, p) \<in> set ?due" by simp
    then have "gmap_ok (prPlayers (fail_proposal p))"
      using pok [of i p] by (simp add: mem prop_ok_def fail_proposal_def)
    moreover have pr: "pr = fail_proposal p" using that unfolding res(1) due by simp
    ultimately show ?thesis unfolding res(2) due pr by (simp add: expire_one_queue)
  qed
  ultimately show ?thesis
    using set failed by (simp add: GetProposal_def res(1))
qed

theorem ExpireProposals_exact_witness:
  "GetProposal 1 (snd (ExpireProposals (6 + 45 * second) proposed_pair)) = None \<and>
   GetProposal 1 (snd (ExpireProposals 6 proposed_pair)) = Some pair_proposal"
  using ExpireProposals_exact [OF proposed_pair_ok surjective_pairing, of "6 + 45 * second"]
    ExpireProposals_exact [OF proposed_pair_ok surjective_pairing, of 6]
  by (simp add: proposed_pair_get) (simp add: pair_proposal_def second_def)

section \<open>Completion\<close>

lemma record_wait_keeps [simp]:
  "mQueue (record_wait now pr g p m) = mQueue m" "mGroupQueue (record_wait now pr g p m) = mGroupQueue m"
  "mProposals (record_wait now pr g p m) = mProposals m"
  by (simp_all add: record_wait_def Let_def)

definition in_dungeon :: "u64 \<Rightarrow> LFGQueueEntry option \<Rightarrow> LFGQueueEntry" where
  "in_dungeon g e = (case e of Some entry \<Rightarrow> entry | None \<Rightarrow> fresh_entry g)
     \<lparr>qState := LFGStateDungeon, qOldState := LFGStateDungeon\<rparr>"

lemma enter_get:
  "gget (mQueue (setStateLocked g LFGStateDungeon m)) k =
     (if k = g then Some (in_dungeon k (gget (mQueue m) k)) else gget (mQueue m) k)"
  by (auto simp: setStateLocked_def Let_def gomap_simps in_dungeon_def split: option.split)

lemma in_dungeon_twice: "in_dungeon g (Some (in_dungeon g e)) = in_dungeon g e"
  by (simp add: in_dungeon_def)

lemma fold_enter:
  fixes f
  defines "f \<equiv> \<lambda>(guid, _ :: LFGProposalPlayer) m.
     deleteGroupEntriesContainingLocked guid (setStateLocked guid LFGStateDungeon m)"
  shows "gget (mQueue (fold f ps m)) g =
      (if g \<in> set (gkeys ps) then Some (in_dungeon g (gget (mQueue m) g)) else gget (mQueue m) g)"
    and "mGroupQueue (fold f ps m) =
      filter (\<lambda>(_, e). \<forall>g \<in> set (gkeys ps). gget (gRoles e) g = None) (mGroupQueue m)"
    and "mProposals (fold f ps m) = mProposals m"
proof -
  show "gget (mQueue (fold f ps m)) g =
      (if g \<in> set (gkeys ps) then Some (in_dungeon g (gget (mQueue m) g)) else gget (mQueue m) g)"
    unfolding f_def by (induction ps arbitrary: m) (auto simp: enter_get in_dungeon_twice)
  show "mGroupQueue (fold f ps m) =
      filter (\<lambda>(_, e). \<forall>g \<in> set (gkeys ps). gget (gRoles e) g = None) (mGroupQueue m)"
    unfolding f_def
    by (induction ps arbitrary: m)
      (simp_all add: deleteGroupEntriesContainingLocked_def setStateLocked_get split_def)
  show "mProposals (fold f ps m) = mProposals m"
    unfolding f_def by (induction ps arbitrary: m) auto
qed

lemma complete_proposal_effect:
  shows "gget (mQueue (complete_proposal now pr m)) g =
      (if g \<in> set (gkeys (prPlayers pr)) then Some (in_dungeon g (gget (mQueue m) g)) else gget (mQueue m) g)"
    and "mGroupQueue (complete_proposal now pr m) =
      filter (\<lambda>(_, e). \<forall>g \<in> set (gkeys (prPlayers pr)). gget (gRoles e) g = None) (mGroupQueue m)"
    and "mProposals (complete_proposal now pr m) = mProposals m"
proof -
  have "mQueue (fold (\<lambda>(guid, player). record_wait now pr guid player) ps m) = mQueue m"
    "mGroupQueue (fold (\<lambda>(guid, player). record_wait now pr guid player) ps m) = mGroupQueue m"
    "mProposals (fold (\<lambda>(guid, player). record_wait now pr guid player) ps m) = mProposals m" for ps
    by (induction ps arbitrary: m) auto
  then show "gget (mQueue (complete_proposal now pr m)) g =
      (if g \<in> set (gkeys (prPlayers pr)) then Some (in_dungeon g (gget (mQueue m) g)) else gget (mQueue m) g)"
    and "mGroupQueue (complete_proposal now pr m) =
      filter (\<lambda>(_, e). \<forall>g \<in> set (gkeys (prPlayers pr)). gget (gRoles e) g = None) (mGroupQueue m)"
    and "mProposals (complete_proposal now pr m) = mProposals m"
    by (simp_all add: complete_proposal_def fold_enter)
qed

text \<open>
  Accepting a proposal. The answer is recorded and the proposal stays pending until everybody has
  agreed (or the solo switch is on). Then it succeeds: it is gone, every player of it is in the dungeon
  state with their selection kept, no group entry with one of them is left, and nobody outside the
  proposal is touched.
\<close>

theorem UpdateProposal_accept:
  assumes "mgr_ok m" and "GetProposal i m = Some pr" and "gget (prPlayers pr) guid = Some p"
    and "UpdateProposal now i guid True m = (res, m')"
  shows "\<exists>pr'. res = (Some pr', True) \<and>
    prPlayers pr' = gput guid (p\<lparr>pAccept := LFGAnswerAgree\<rparr>) (prPlayers pr) \<and>
    (if mSolo m \<or> (\<forall>g q. g \<noteq> guid \<longrightarrow> gget (prPlayers pr) g = Some q \<longrightarrow> pAccept q = LFGAnswerAgree)
     then prState pr' = LFGProposalSuccess \<and> GetProposal i m' = None \<and>
       (\<forall>g. gget (mQueue m') g = (if gget (prPlayers pr) g \<noteq> None
          then Some (in_dungeon g (gget (mQueue m) g)) else gget (mQueue m) g)) \<and>
       (\<forall>k e g. gget (mGroupQueue m') k = Some e \<longrightarrow> gget (prPlayers pr) g \<noteq> None \<longrightarrow>
          gget (gRoles e) g = None)
     else prState pr' = LFGProposalInitiating \<and> GetProposal i m' = Some pr' \<and> mQueue m' = mQueue m)"
proof -
  let ?pl = "gput guid (p\<lparr>pAccept := LFGAnswerAgree\<rparr>) (prPlayers pr)"
  have ok: "prop_ok i pr" "gmap_ok (mGroupQueue m)" "gmap_ok (prPlayers pr)"
    using assms(1,2) by (auto simp: mgr_ok_def props_ok_def groups_ok_def GetProposal_def prop_ok_def)
  have keys: "set (gkeys ?pl) = set (gkeys (prPlayers pr))" "g \<in> set (gkeys (prPlayers pr)) \<longleftrightarrow> gget (prPlayers pr) g \<noteq> None" for g
    using assms(3) by (auto simp: gomap_simps gget_keys gm.keys_get)
  have mem: "(g, q) \<in> set ?pl \<longleftrightarrow> gget ?pl g = Some q" for g q
    using ok(3) gget_in_set in_set_gget gmap_ok_gput by metis
  have "(\<forall>(_, q) \<in> set ?pl. pAccept q = LFGAnswerAgree) \<longleftrightarrow>
      (\<forall>g q. (g, q) \<in> set ?pl \<longrightarrow> pAccept q = LFGAnswerAgree)" by auto
  then have all: "(\<forall>(_, q) \<in> set ?pl. pAccept q = LFGAnswerAgree) \<longleftrightarrow>
      (\<forall>g q. g \<noteq> guid \<longrightarrow> gget (prPlayers pr) g = Some q \<longrightarrow> pAccept q = LFGAnswerAgree)"
    unfolding mem by (auto simp: gomap_simps)
  have init: "prState pr = 0" using ok(1) by (simp add: prop_ok_def)
  have get: "gget (mProposals m) i = Some pr" using assms(2) by (simp add: GetProposal_def)
  show ?thesis
  proof (cases "mSolo m \<or> (\<forall>(_, q) \<in> set ?pl. pAccept q = LFGAnswerAgree)")
    case True
    have "m' = (complete_proposal now (pr\<lparr>prPlayers := ?pl, prState := LFGProposalSuccess\<rparr>) m)
        \<lparr>mProposals := gdel i (mProposals m)\<rparr>"
      "res = (Some (pr\<lparr>prPlayers := ?pl, prState := LFGProposalSuccess\<rparr>), True)"
      using assms(3,4) get True by (auto simp: UpdateProposal_def Let_def complete_proposal_effect)
    with True all assms(3) show ?thesis
      by (auto simp: complete_proposal_effect gomap_simps GetProposal_def gget_filter_Some ok(2) keys)
  next
    case False
    then have F: "\<not> ((\<forall>(_, q) \<in> set (prPlayers (pr\<lparr>prPlayers := ?pl\<rparr>)). pAccept q = LFGAnswerAgree) \<or> mSolo m)"
      by auto
    have "(res, m') = ((Some (pr\<lparr>prPlayers := ?pl\<rparr>), True),
        m\<lparr>mProposals := gput i (pr\<lparr>prPlayers := ?pl\<rparr>) (mProposals m)\<rparr>)"
      unfolding assms(4) [symmetric]
      by (simp only: UpdateProposal_def get assms(3) option.case Let_def LFGProposal.simps if_not_P [OF F]
          not_True_eq_False if_False)
    then have "m' = m\<lparr>mProposals := gput i (pr\<lparr>prPlayers := ?pl\<rparr>) (mProposals m)\<rparr>"
      "res = (Some (pr\<lparr>prPlayers := ?pl\<rparr>), True)" by simp_all
    with False all init show ?thesis by (simp add: GetProposal_def gomap_simps)
  qed
qed

theorem UpdateProposal_accept_witness:
  "\<exists>pr' m'. UpdateProposal 6 1 1 True proposed_pair = ((Some pr', True), m') \<and>
     GetProposal 1 m' = Some pr' \<and> prState pr' = LFGProposalInitiating"
proof -
  obtain res m' where r: "UpdateProposal 6 1 1 True proposed_pair = (res, m')" by fastforce
  have p: "gget (prPlayers pair_proposal) 1 = Some \<lparr>pRole = 2, pGroup = 0, pAccept = LFGAnswerPending\<rparr>"
    "\<not> (mSolo proposed_pair \<or> (\<forall>g q. g \<noteq> 1 \<longrightarrow> gget (prPlayers pair_proposal) g = Some q \<longrightarrow> pAccept q = 1))"
    by (simp_all add: pair_proposal_def proposed_pair_get)
  from UpdateProposal_accept [OF proposed_pair_ok proposed_pair_get(1) p(1) r] r
  show ?thesis unfolding if_not_P [OF p(2)] by blast
qed

section \<open>Wait times\<close>

text \<open>
  The running average of the waits of a dungeon. As long as the samples lie between zero and a
  bound that leaves their sum within \<open>int32\<close>, the new average is the exact rounded-down mean of the old
  average weighted by its samples and the new wait, it stays within the bound, the sample count grows
  by one, and no other dungeon's average changes.
\<close>

theorem updateLFGWaitTime_average:
  assumes "gget store d = Some \<lparr>wtTime = t, wtNumber = n\<rparr>" and "0 \<le> t" "t \<le> B" and "0 \<le> w" "w \<le> B"
    and "B * (uint n + 1) < 2 ^ 31" and "uint n + 1 < 2 ^ 31"
  shows "lfgWaitTimeOf (updateLFGWaitTime store w d) d = (t * uint n + w) div (uint n + 1) \<and>
    0 \<le> lfgWaitTimeOf (updateLFGWaitTime store w d) d \<and> lfgWaitTimeOf (updateLFGWaitTime store w d) d \<le> B \<and>
    map_option wtNumber (gget (updateLFGWaitTime store w d) d) = Some (n + 1) \<and>
    (\<forall>k. k \<noteq> d \<longrightarrow> lfgWaitTimeOf (updateLFGWaitTime store w d) k = lfgWaitTimeOf store k)"
proof -
  let ?n = "uint n"
  have n: "0 \<le> ?n" by simp
  have sum: "t * ?n + w \<le> B * (?n + 1)" "0 \<le> t * ?n + w"
    using assms(2-5) n mult_right_mono [of t B ?n] by (simp_all add: algebra_simps)
  have inc: "uint (n + 1) = ?n + 1"
    using assms(7) by (simp add: uint_word_ariths)
  have "to_i32 ?n = ?n" "to_i32 (?n + 1) = ?n + 1" "to_i32 (t * ?n + w) = t * ?n + w"
    using assms(6,7) sum n by (auto intro!: to_i32_id order.trans [OF _ n])
  moreover have "0 \<le> (t * ?n + w) div (?n + 1)"
    using sum(2) n by (simp add: pos_imp_zdiv_nonneg_iff)
  moreover have "(t * ?n + w) div (?n + 1) \<le> B * (?n + 1) div (?n + 1)"
    using sum(1) n by (intro zdiv_mono1) simp_all
  then have "(t * ?n + w) div (?n + 1) \<le> B"
    using n nonzero_mult_div_cancel_right [of "?n + 1" B] by linarith
  moreover have "B < 2 ^ 31"
    using assms(2,3,6) n mult_left_mono [of 1 "?n + 1" B] by simp
  ultimately show ?thesis
    using n sum by (auto simp: updateLFGWaitTime_def lfgWaitTimeOf_def Let_def assms(1) gomap_simps inc)
qed

theorem updateLFGWaitTime_average_witness:
  "lfgWaitTimeOf (updateLFGWaitTime [(9, \<lparr>wtTime = 10, wtNumber = 2\<rparr>)] 21 9) 9 = 13"
  using updateLFGWaitTime_average [of "[(9, \<lparr>wtTime = 10, wtNumber = 2\<rparr>)]" 9 10 2 100 21] by simp

end
