(* ===== verification/Lfg_Matching.thy ===== *)
theory Lfg_Matching
  imports Lfg_Proposals "HOL-Library.Sublist"
begin

text \<open>
  \<^verbatim>\<open>engine/world/lfg.go\<close>, what matching promises: the combination search is sound and complete for
  the size, group-count, dungeon and role gates, and every proposal \<open>FindGroups\<close> makes is a legal group.
\<close>

section \<open>Combinations\<close>

lemma subseq_set: "subseq xs ys \<Longrightarrow> set xs \<subseteq> set ys"
  by (induction rule: list_emb.induct) auto

lemma subseq_distinct: "subseq xs ys \<Longrightarrow> distinct ys \<Longrightarrow> distinct xs"
  by (induction rule: list_emb.induct) (auto dest: subseq_set)

definition combo_size :: "lfgMatchUnit list \<Rightarrow> nat list \<Rightarrow> nat" where
  "combo_size units combo = sum_list (map (\<lambda>i. length (uGuids (units ! i))) combo)"

definition group_count :: "lfgMatchUnit list \<Rightarrow> nat list \<Rightarrow> nat" where
  "group_count units combo = length (filter (\<lambda>i. uGroupID (units ! i) \<noteq> 0) combo)"

lemma combo_size_simps [simp]:
  "combo_size units [] = 0" "combo_size units (a @ b) = combo_size units a + combo_size units b"
  "combo_size units (i # a) = length (uGuids (units ! i)) + combo_size units a"
  by (simp_all add: combo_size_def)

lemma group_count_simps [simp]:
  "group_count units [] = 0" "group_count units (a @ b) = group_count units a + group_count units b"
  "group_count units (i # a) = (if uGroupID (units ! i) \<noteq> 0 then 1 else 0) + group_count units a"
  by (simp_all add: group_count_def)

lemma combo_dungeons_snoc:
  "combo_dungeons units (c @ [i]) =
     (if c = [] then uDungeons (units ! i)
      else lfgIntersectDungeons (combo_dungeons units c) (uDungeons (units ! i)))"
  by (cases c) (simp_all add: combo_dungeons_def)

lemma combo_dungeons_set:
  "c \<noteq> [] \<Longrightarrow> set (combo_dungeons units c) = (\<Inter>i \<in> set c. set (uDungeons (units ! i)))"
proof (induction c rule: rev_induct)
  case (snoc i c)
  then show ?case
    using combo_dungeons_snoc [of units "[]" i]
    by (cases "c = []") (auto simp: combo_dungeons_snoc lfgIntersectDungeons_def)
qed simp

text \<open>A combination that may be proposed, with the solo switch lifting the size gate.\<close>

definition matches :: "bool \<Rightarrow> lfgMatchUnit list \<Rightarrow> nat list \<Rightarrow> bool" where
  "matches solo units combo \<longleftrightarrow> combo \<noteq> [] \<and>
     (combo_size units combo = 5 \<or> solo \<and> 0 < combo_size units combo \<and> combo_size units combo < 5) \<and>
     group_count units combo \<le> 1 \<and>
     (length combo = 1 \<or> combo_dungeons units combo \<noteq> []) \<and>
     fst (lfgCheckGroupRoles (search_roles units combo))"

lemma search_gate_Some:
  "search_gate solo units c tot gs = Some (Some r) \<Longrightarrow> tot = combo_size units c \<Longrightarrow> gs = group_count units c \<Longrightarrow>
     r = c \<and> (combo_size units c = 5 \<or> solo \<and> 0 < combo_size units c \<and> combo_size units c < 5) \<and>
     group_count units c \<le> 1 \<and> fst (lfgCheckGroupRoles (search_roles units c))"
  by (auto simp: search_gate_def split: if_splits)

lemma search_loop_sound:
  "search_loop solo units used rest c tot gs ds = Some r \<Longrightarrow>
     tot = combo_size units c \<Longrightarrow> gs = group_count units c \<Longrightarrow> c \<noteq> [] \<longrightarrow> ds = combo_dungeons units c \<Longrightarrow>
     \<exists>ext. r = c @ ext \<and> ext \<noteq> [] \<and> subseq ext rest \<and> (\<forall>i \<in> set ext. \<not> used ! i) \<and> matches solo units r"
proof (induction rest arbitrary: c tot gs ds)
  case (Cons i rest)
  let ?u = "units ! i"
  let ?t = "tot + length (uGuids ?u)" and ?g = "if uGroupID ?u \<noteq> 0 then gs + 1 else gs"
    and ?d = "if c = [] then uDungeons ?u else lfgIntersectDungeons ds (uDungeons ?u)"
  have skip: ?case if "search_loop solo units used rest c tot gs ds = Some r"
    using Cons.IH [OF that Cons.prems(2-4)] by (auto intro: subseq_Cons')
  show ?case
  proof (cases "search_loop solo units used rest c tot gs ds = Some r")
    case False
    from Cons.prems(1) False have un: "\<not> used ! i" and d: "c \<noteq> [] \<longrightarrow> ?d \<noteq> []"
      and r: "(case search_gate solo units (c @ [i]) ?t ?g of Some result \<Rightarrow> result
         | None \<Rightarrow> search_loop solo units used rest (c @ [i]) ?t ?g ?d) = Some r"
      by (auto simp: Let_def split: if_splits option.splits)
    have eqs: "?t = combo_size units (c @ [i])" "?g = group_count units (c @ [i])"
      "?d = combo_dungeons units (c @ [i])"
      using Cons.prems(2-4) by (auto simp: combo_dungeons_snoc)
    show ?thesis
    proof (cases "search_gate solo units (c @ [i]) ?t ?g")
      case None
      with r have "search_loop solo units used rest (c @ [i]) ?t ?g ?d = Some r" by simp
      from Cons.IH [OF this eqs(1,2)] eqs(3) obtain ext where
        "r = (c @ [i]) @ ext" "subseq ext rest" "\<forall>i \<in> set ext. \<not> used ! i" "matches solo units r"
        by auto
      with un show ?thesis by (intro exI [of _ "i # ext"]) auto
    next
      case (Some res)
      with r have gate: "search_gate solo units (c @ [i]) ?t ?g = Some (Some r)" by simp
      note g = search_gate_Some [OF gate eqs(1,2)]
      have "length (c @ [i]) = 1 \<or> combo_dungeons units (c @ [i]) \<noteq> []"
        using d eqs(3) by (cases "c = []") auto
      with g un show ?thesis by (intro exI [of _ "[i]"]) (auto simp: matches_def)
    qed
  qed (rule skip)
qed simp

lemma findLFGCombo_sound:
  assumes "findLFGCombo solo units used seed = Some combo"
  shows "subseq combo [seed..<length units] \<and> (\<forall>i \<in> set combo. \<not> used ! i) \<and> matches solo units combo"
proof -
  have "search_loop solo units used [seed..<length units] [] 0 0 [] = Some combo"
    using assms by (simp add: findLFGCombo_def search_gate_def)
  from search_loop_sound [OF this] show ?thesis by auto
qed

section \<open>Completeness\<close>

lemma option_first_not_None:
  "x \<noteq> None \<Longrightarrow> (case x of Some r \<Rightarrow> Some r | None \<Rightarrow> y) \<noteq> None"
  by (cases x) simp_all

lemma search_loop_complete:
  assumes ne: "\<forall>i \<in> set rest. uGuids (units ! i) \<noteq> []"
  shows "subseq ext rest \<Longrightarrow> ext \<noteq> [] \<Longrightarrow> \<forall>i \<in> set ext. \<not> used ! i \<Longrightarrow> matches solo units (c @ ext) \<Longrightarrow>
    tot = combo_size units c \<Longrightarrow> gs = group_count units c \<Longrightarrow> c \<noteq> [] \<longrightarrow> ds = combo_dungeons units c \<Longrightarrow>
    search_loop solo units used rest c tot gs ds \<noteq> None"
  using ne
proof (induction rest arbitrary: ext c tot gs ds)
  case (Cons i rest)
  let ?u = "units ! i"
  let ?t = "tot + length (uGuids ?u)" and ?g = "if uGroupID ?u \<noteq> 0 then gs + 1 else gs"
    and ?d = "if c = [] then uDungeons ?u else lfgIntersectDungeons ds (uDungeons ?u)"
  let ?skip = "search_loop solo units used rest c tot gs ds"
  show ?case
  proof (cases "\<exists>ext'. ext = i # ext' \<and> subseq ext' rest")
    case False
    then have "subseq ext rest" using Cons.prems(1,2) by (cases ext) (auto split: if_splits)
    then have "?skip \<noteq> None" using Cons.prems(2-8) by (intro Cons.IH [of ext]) simp_all
    then obtain r where "?skip = Some r" by blast
    then show ?thesis by (simp add: Let_def split: option.split)
  next
    case True
    then obtain ext' where ext: "ext = i # ext'" "subseq ext' rest" by blast
    have split: "c @ ext = (c @ [i]) @ ext'" by (simp add: ext)
    have size: "combo_size units (c @ ext) = ?t + combo_size units ext'"
      and groups: "group_count units (c @ ext) = ?g + group_count units ext'"
      using Cons.prems(5,6) by (simp_all add: ext)
    have m: "combo_size units (c @ ext) \<le> 5" "group_count units (c @ ext) \<le> 1"
      "combo_size units (c @ ext) = 5 \<or> solo \<and> 0 < combo_size units (c @ ext)"
      "length (c @ ext) = 1 \<or> combo_dungeons units (c @ ext) \<noteq> []"
      "fst (lfgCheckGroupRoles (search_roles units (c @ ext)))"
      using Cons.prems(4) by (auto simp: matches_def)
    have eqd: "?d = combo_dungeons units (c @ [i])"
      using Cons.prems(7) by (auto simp: combo_dungeons_snoc)
    have d: "?d \<noteq> []" if "c \<noteq> []"
    proof -
      have "combo_dungeons units (c @ ext) \<noteq> []" using m(4) that ext by auto
      then have "set (combo_dungeons units (c @ ext)) \<noteq> {}" by simp
      then have "set (combo_dungeons units (c @ [i])) \<noteq> {}"
        by (auto simp: combo_dungeons_set ext)
      then show ?thesis unfolding eqd by simp
    qed
    have t: "0 < ?t" "?t \<le> 5" "?g \<le> 1" using m(1,2) size groups Cons.prems(8) by auto
    have nosk: "search_loop solo units used (i # rest) c tot gs ds =
        (case (case search_gate solo units (c @ [i]) ?t ?g of Some result \<Rightarrow> result
             | None \<Rightarrow> search_loop solo units used rest (c @ [i]) ?t ?g ?d) of
           Some combo \<Rightarrow> Some combo | None \<Rightarrow> ?skip)"
      using Cons.prems(3) ext(1) t d by (auto simp: Let_def)
    have "(case search_gate solo units (c @ [i]) ?t ?g of Some result \<Rightarrow> result
         | None \<Rightarrow> search_loop solo units used rest (c @ [i]) ?t ?g ?d) \<noteq> None"
    proof (cases "ext' = []")
      case True
      then have "search_gate solo units (c @ [i]) ?t ?g = Some (Some (c @ [i]))"
        using m(3,5) size groups t ext(1) by (auto simp: search_gate_def)
      then show ?thesis by simp
    next
      case False
      then have "0 < combo_size units ext'"
        using ext(2) Cons.prems(8) by (cases ext') (auto dest: list_emb_set)
      then have "?t < 5" using m(1) size by simp
      then have "search_gate solo units (c @ [i]) ?t ?g \<noteq> Some None"
        using t by (auto simp: search_gate_def)
      moreover have "search_loop solo units used rest (c @ [i]) ?t ?g ?d \<noteq> None"
      proof (rule Cons.IH [OF ext(2) False])
        show "matches solo units ((c @ [i]) @ ext')" using Cons.prems(4) split by simp
      qed (use Cons.prems(3,5,6,8) ext eqd in auto)
      ultimately show ?thesis by (cases "search_gate solo units (c @ [i]) ?t ?g") auto
    qed
    then show ?thesis unfolding nosk by (rule option_first_not_None)
  qed
qed simp


definition pair_units :: "lfgMatchUnit list" where
  "pair_units = [\<lparr>uGroupID = 90, uGuids = [1, 2, 3], uRoles = [(1, 2), (2, 4), (3, 8)], uDungeons = [9]\<rparr>,
     \<lparr>uGroupID = 0, uGuids = [4], uRoles = [(4, 2)], uDungeons = [9]\<rparr>,
     \<lparr>uGroupID = 0, uGuids = [5], uRoles = [(5, 12)], uDungeons = [7, 9]\<rparr>,
     \<lparr>uGroupID = 0, uGuids = [6], uRoles = [(6, 8)], uDungeons = [7, 9]\<rparr>]"


section \<open>Units of a well-formed manager\<close>

definition unit_ok :: "lfgMatchUnit \<Rightarrow> bool" where
  "unit_ok u \<longleftrightarrow> uGuids u = sort (gkeys (uRoles u)) \<and> sane_roles (uRoles u)"

lemma queued_groups_mem:
  "(g, e) \<in> set (queued_groups m) \<longleftrightarrow> gget (mGroupQueue m) g = Some e \<and> gState e = LFGStateQueued"
  by (auto simp: queued_groups_def gm.keys_get)

lemma solo_guids_mem:
  "gmap_ok (mQueue m) \<Longrightarrow> g \<in> set (solo_guids m) \<longleftrightarrow>
     (\<exists>e. gget (mQueue m) g = Some e \<and> qState e = LFGStateQueued) \<and> \<not> member_of_group m g"
  by (force simp: solo_guids_def dest: gget_in_set in_set_gget)

lemma match_units_ok:
  assumes "mgr_ok m" and "u \<in> set (match_units m)"
  shows "unit_ok u"
proof -
  have q: "gmap_ok (mQueue m)" using assms(1) by (simp add: mgr_ok_def queue_ok_def)
  have g: "sane_roles (gRoles e)" if "(g, e) \<in> set (queued_groups m)" for g e
    using that assms(1) by (auto simp: queued_groups_mem mgr_ok_def groups_ok_def)
  have s: "sane_roles [(g, qRoles (the (gget (mQueue m) g)))]" if "g \<in> set (solo_guids m)" for g
    using that assms(1) solo_guids_mem [OF q] by (auto simp: mgr_ok_def queue_ok_def sane_roles_def)
  from assms(2) show ?thesis
    unfolding match_units_def set_append set_map
    by (auto simp: unit_ok_def Let_def g s)
qed

lemma fold_put_get:
  "gget (fold (\<lambda>g. gput g (f g)) gs m) k = (if k \<in> set gs then Some (f k) else gget m k)"
  by (induction gs arbitrary: m) (auto simp: gomap_simps)

lemma sane_roles_get: "sane_roles r \<Longrightarrow> gget r g = Some v \<Longrightarrow> v AND 15 = v"
  by (auto simp: sane_roles_def dest: gget_in_set)

lemma combo_roles_snoc:
  "combo_roles units (c @ [i]) = fold (\<lambda>guid. gput guid (the (gget (uRoles (units ! i)) guid)))
     (uGuids (units ! i)) (combo_roles units c)"
  by (simp add: combo_roles_def)

lemma unit_keys:
  assumes "unit_ok u"
  shows "set (uGuids u) = set (gkeys (uRoles u))"
    and "g \<in> set (uGuids u) \<Longrightarrow> gget (uRoles u) g = Some (the (gget (uRoles u) g))"
    and "g \<in> set (uGuids u) \<Longrightarrow> the (gget (uRoles u) g) AND 15 = the (gget (uRoles u) g)"
proof -
  show keys: "set (uGuids u) = set (gkeys (uRoles u))" using assms by (simp add: unit_ok_def)
  show get: "g \<in> set (uGuids u) \<Longrightarrow> gget (uRoles u) g = Some (the (gget (uRoles u) g))"
    by (auto simp: keys gm.keys_get)
  show "g \<in> set (uGuids u) \<Longrightarrow> the (gget (uRoles u) g) AND 15 = the (gget (uRoles u) g)"
    using sane_roles_get [OF _ get] assms by (auto simp: unit_ok_def)
qed

lemma combo_roles_sane:
  "\<forall>i \<in> set c. unit_ok (units ! i) \<Longrightarrow> sane_roles (combo_roles units c)"
proof (induction c rule: rev_induct)
  case (snoc i c)
  have "sane_roles (fold (\<lambda>g. gput g (the (gget (uRoles (units ! i)) g))) gs m)"
    if "sane_roles m" "set gs \<subseteq> set (uGuids (units ! i))" for gs m
    using that
  proof (induction gs arbitrary: m)
    case (Cons x gs)
    then show ?case using snoc.prems by (simp add: sane_roles_gput unit_keys(3))
  qed simp
  with snoc show ?case unfolding combo_roles_snoc by simp
qed (simp add: combo_roles_def sane_roles_def)

lemma fold_put_keys: "set (gkeys (fold (\<lambda>g. gput g (f g)) gs m)) = set gs \<union> set (gkeys m)"
  by (induction gs arbitrary: m) (auto simp: gomap_simps)

lemma combo_roles_keys:
  "set (gkeys (combo_roles units c)) = (\<Union>i \<in> set c. set (uGuids (units ! i)))"
proof (induction c rule: rev_induct)
  case (snoc i c)
  then show ?case by (auto simp: combo_roles_snoc fold_put_keys)
qed (simp add: combo_roles_def)

lemma combo_roles_get:
  "\<forall>i \<in> set c. unit_ok (units ! i) \<Longrightarrow> gget (combo_roles units c) g = Some r \<Longrightarrow>
     \<exists>i \<in> set c. gget (uRoles (units ! i)) g = Some r"
proof (induction c rule: rev_induct)
  case (snoc i c)
  then show ?case
    using unit_keys(2) [of "units ! i" g] by (auto simp: combo_roles_snoc fold_put_get split: if_splits)
qed (simp add: combo_roles_def)

lemma search_roles_get:
  assumes "\<forall>i \<in> set c. unit_ok (units ! i)"
  shows "gget (search_roles units c) g = gget (combo_roles units c) g"
  using assms
proof (induction c rule: rev_induct)
  case (snoc i c)
  have put: "gget (fold (\<lambda>(guid, role). gput guid role) rs m) g =
      (case gget rs g of Some r \<Rightarrow> Some r | None \<Rightarrow> gget m g)" if "gmap_ok rs" for rs :: role_map and m
    using that
  proof (induction rs arbitrary: m)
    case (Cons p rs)
    then show ?case
      by (cases p) (auto simp: gm.get_put gm.keys_get split: option.split)
  qed simp
  have "gmap_ok (uRoles (units ! i))" and k: "set (uGuids (units ! i)) = set (gkeys (uRoles (units ! i)))"
    using snoc.prems by (auto simp: unit_ok_def sane_roles_def)
  then show ?case
    using snoc by (auto simp: combo_roles_snoc fold_put_get search_roles_def put gm.keys_get split: option.split)
qed (simp add: search_roles_def combo_roles_def)

lemma solvable_cong:
  assumes "\<And>k. gget r k = gget r' k"
  shows "solvable r = solvable r'"
proof -
  have "set (gkeys r) = set (gkeys r')" by (auto simp: gm.keys_get assms)
  moreover from this have "r = [] \<longleftrightarrow> r' = []" by (cases r; cases r') auto
  ultimately show ?thesis by (simp add: solvable_def assignment_def assms)
qed

lemma search_roles_sane:
  assumes "\<forall>i \<in> set c. unit_ok (units ! i)"
  shows "sane_roles (search_roles units c)"
proof -
  have ok: "gmap_ok (search_roles units c)"
    unfolding search_roles_def
    by (rule fold_invariant_simple [where I = gmap_ok], rule fold_invariant_simple [where I = gmap_ok]) auto
  have "r AND 15 = r" if "(g, r) \<in> set (search_roles units c)" for g r
  proof -
    have "gget (combo_roles units c) g = Some r"
      using in_set_gget [OF ok that] search_roles_get [OF assms] by simp
    then show ?thesis using combo_roles_sane [OF assms] sane_roles_get by blast
  qed
  with ok show ?thesis by (auto simp: sane_roles_def)
qed

lemma combo_roles_solved:
  assumes "\<forall>i \<in> set c. unit_ok (units ! i)"
  shows "fst (lfgCheckGroupRoles (combo_roles units c)) = solvable (combo_roles units c)"
    and "fst (lfgCheckGroupRoles (search_roles units c)) = solvable (combo_roles units c)"
  using lfgCheckGroupRoles_solved [OF combo_roles_sane [OF assms]]
    lfgCheckGroupRoles_solved [OF search_roles_sane [OF assms]]
    solvable_cong [of "search_roles units c" "combo_roles units c"] search_roles_get [OF assms]
  by (simp_all add: solved_def)

section \<open>Proposals of a pass\<close>

definition proposes :: "bool \<Rightarrow> int \<Rightarrow> lfgMatchUnit list \<Rightarrow> nat list \<Rightarrow> LFGProposal \<Rightarrow> bool" where
  "proposes solo now units combo prop \<longleftrightarrow> subseq combo [0..<length units] \<and> matches solo units combo \<and>
     combo_dungeons units combo \<noteq> [] \<and>
     (\<exists>assigned. resolves (combo_roles units combo) assigned \<and>
        prop = propose now units combo assigned (prID prop))"

lemma mark_unit_other [simp]:
  "mProposals (mark_unit u m) = mProposals m" "mSolo (mark_unit u m) = mSolo m"
  "mNextProposalID (mark_unit u m) = mNextProposalID m"
  by (auto simp: mark_unit_def split: option.split)

lemma fold_mark_other [simp]:
  "mProposals (fold (\<lambda>i. mark_unit (units ! i)) c m) = mProposals m"
  "mSolo (fold (\<lambda>i. mark_unit (units ! i)) c m) = mSolo m"
  "mNextProposalID (fold (\<lambda>i. mark_unit (units ! i)) c m) = mNextProposalID m"
  by (induction c arbitrary: m) simp_all

lemma length_fold_used: "length (fold (\<lambda>i used. used[i := True]) c used) = length used"
  by (induction c arbitrary: used) simp_all

lemma nth_fold_used:
  "j < length used \<Longrightarrow> fold (\<lambda>i used. used[i := True]) c used ! j \<longleftrightarrow> j \<in> set c \<or> used ! j"
proof (induction c arbitrary: used)
  case (Cons i c)
  then have "fold (\<lambda>i used. used[i := True]) c (used[i := True]) ! j \<longleftrightarrow> j \<in> set c \<or> used[i := True] ! j"
    by (intro Cons.IH) simp
  with Cons.prems show ?case
    by (cases "i < length used") (auto simp: nth_list_update list_update_beyond)
qed simp

definition marks_agree :: "LFGManager \<Rightarrow> LFGManager \<Rightarrow> bool" where
  "marks_agree m m' \<longleftrightarrow> mQueue m = mQueue m' \<and> mGroupQueue m = mGroupQueue m'"

lemma mark_unit_agree: "marks_agree m m' \<Longrightarrow> marks_agree (mark_unit u m) (mark_unit u m')"
  by (auto simp: marks_agree_def mark_unit_def split: option.split)

lemma fold_mark_agree:
  "marks_agree m m' \<Longrightarrow>
     marks_agree (fold (\<lambda>i. mark_unit (units ! i)) c m) (fold (\<lambda>i. mark_unit (units ! i)) c m')"
  by (induction c arbitrary: m m') (simp_all add: mark_unit_agree)

definition find_inv ::
    "int \<Rightarrow> lfgMatchUnit list \<Rightarrow> LFGManager \<Rightarrow> nat list list \<Rightarrow> find_state \<Rightarrow> bool" where
  "find_inv now units m0 combos = (\<lambda>(m, used, props).
     mgr_ok m \<and> mSolo m = mSolo m0 \<and> length used = length units \<and>
     list_all2 (proposes (mSolo m0) now units) combos props \<and> distinct (concat combos) \<and>
     (\<forall>i < length units. used ! i \<longleftrightarrow> i \<in> set (concat combos)) \<and>
     marks_agree m (fold (\<lambda>i. mark_unit (units ! i)) (concat combos) m0) \<and>
     map prID props = map (\<lambda>k. mNextProposalID m0 + of_nat (Suc k)) [0..<length props] \<and>
     mNextProposalID m = mNextProposalID m0 + of_nat (length props) \<and>
     mProposals m = fold (\<lambda>p. gput (prID p) p) props (mProposals m0))"

lemma propose_prop_ok: "prop_ok (prID (propose now units c a i)) (propose now units c a i)"
proof -
  have "gmap_ok (combo_roles units c)"
    unfolding combo_roles_def
    by (rule fold_invariant_simple [where I = gmap_ok], rule fold_invariant_simple [where I = gmap_ok]) auto
  then have "distinct (gkeys (combo_roles units c))" by (rule gm.ok_distinct)
  then show ?thesis
    by (auto simp: prop_ok_def propose_def Let_def gmap_ok_def comp_def dest!: gget_in_set)
qed

lemma propose_simps [simp]:
  "prID (propose now units c a i) = i" "prState (propose now units c a i) = LFGProposalInitiating"
  by (simp_all add: propose_def Let_def)

lemma find_seed_inv:
  assumes units: "\<forall>u \<in> set units. unit_ok u" and seed: "seed < length units"
    and inv: "find_inv now units m0 combos st"
  shows "\<exists>combos'. find_inv now units m0 (combos @ combos') (find_seed now units seed st)"
proof -
  obtain m used props where st: "st = (m, used, props)" by (cases st)
  note inv' = inv [unfolded st find_inv_def prod.case]
  have same: ?thesis if "find_seed now units seed st = st"
    using inv that by (intro exI [of _ "[]"]) simp
  show ?thesis
  proof (cases "used ! seed \<or> findLFGCombo (mSolo m) units used seed = None")
    case True
    then show ?thesis by (intro same) (auto simp: st find_seed_def)
  next
    case False
    then obtain combo where combo: "findLFGCombo (mSolo m) units used seed = Some combo" by blast
    from findLFGCombo_sound [OF this] have sound: "subseq combo [seed..<length units]"
      "\<forall>i \<in> set combo. \<not> used ! i" "matches (mSolo m) units combo" by auto
    have lt: "\<forall>i \<in> set combo. i < length units"
      using subseq_set [OF sound(1)] by auto
    have sub: "subseq combo [0..<length units]"
    proof -
      have "[0..<length units] = [0..<seed] @ [seed..<length units]"
        using seed upt_add_eq_append [of 0 seed "length units - seed"] by simp
      then show ?thesis using list_emb_append2 [OF sound(1), of "[0..<seed]"] by (simp only:)
    qed
    have uok: "\<forall>i \<in> set combo. unit_ok (units ! i)" using units lt by auto
    show ?thesis
    proof (cases "combo_dungeons units combo = [] \<or> \<not> fst (lfgCheckGroupRoles (combo_roles units combo))")
      case True
      then show ?thesis
        using False combo by (intro same) (auto simp: st find_seed_def split: prod.split)
    next
      case ok: False
      obtain assigned where a: "lfgCheckGroupRoles (combo_roles units combo) = (True, assigned)"
        using ok by (cases "lfgCheckGroupRoles (combo_roles units combo)") auto
      have res: "resolves (combo_roles units combo) assigned"
        using lfgCheckGroupRoles_solved [OF combo_roles_sane [OF uok]] a by (simp add: solved_def)
      let ?id = "mNextProposalID m + 1"
      let ?p = "propose now units combo assigned ?id"
      let ?m1 = "m\<lparr>mNextProposalID := ?id, mProposals := gput ?id ?p (mProposals m)\<rparr>"
      let ?m2 = "fold (\<lambda>i. mark_unit (units ! i)) combo ?m1"
      have step: "find_seed now units seed st =
          (?m2, fold (\<lambda>i used. used[i := True]) combo used, props @ [?p])"
        using False combo ok a by (simp add: st find_seed_def Let_def)
      have "mgr_ok ?m1"
        using mgr_ok_new_proposal [of m ?id ?p ?id] propose_prop_ok [of now units combo assigned ?id] inv'
        by simp
      then have "mgr_ok ?m2"
        by (intro fold_invariant_simple [where I = mgr_ok]) (auto simp: mark_unit_ok)
      moreover have "marks_agree ?m2 (fold (\<lambda>i. mark_unit (units ! i)) (concat combos @ combo) m0)"
        using inv' fold_mark_agree [of ?m1 "fold (\<lambda>i. mark_unit (units ! i)) (concat combos) m0" units combo]
        by (simp add: marks_agree_def)
      moreover have "proposes (mSolo m0) now units combo ?p"
        using sub sound(3) ok res inv' by (auto simp: proposes_def)
      moreover have "distinct combo" using subseq_distinct [OF sub] by simp
      moreover have "set combo \<inter> set (concat combos) = {}" using inv' sound(2) lt by auto
      ultimately have "find_inv now units m0 (combos @ [combo]) (find_seed now units seed st)"
        using inv' lt unfolding step find_inv_def prod.case
        by (auto simp: length_fold_used nth_fold_used list_all2_appendI algebra_simps)
      then show ?thesis by blast
    qed
  qed
qed

lemma FindGroups_inv:
  assumes "mgr_ok m" and "FindGroups now m = (props, m')"
  shows "\<exists>used combos. find_inv now (match_units m) m combos (m', used, props)"
proof -
  let ?units = "match_units m"
  let ?st0 = "(m, replicate (length ?units) False, [])"
  have "find_inv now ?units m [] ?st0"
    using assms(1) by (simp add: find_inv_def marks_agree_def)
  moreover have "\<forall>u \<in> set ?units. unit_ok u" using match_units_ok [OF assms(1)] by blast
  ultimately have "\<exists>combos. find_inv now ?units m combos (fold (find_seed now ?units) seeds ?st0)"
    if "\<forall>i \<in> set seeds. i < length ?units" for seeds
    using that
  proof (induction seeds rule: rev_induct)
    case Nil
    then show ?case by auto
  next
    case (snoc i seeds)
    then obtain combos where "find_inv now ?units m combos (fold (find_seed now ?units) seeds ?st0)" by auto
    from find_seed_inv [OF snoc.prems(2) _ this, of i] snoc.prems(3) show ?case by auto
  qed
  from this [of "[0..<length ?units]"] assms(2) show ?thesis
    by (auto simp: FindGroups_def Let_def split: prod.splits)
qed

lemma FindGroups_ok: "mgr_ok m \<Longrightarrow> mgr_ok (snd (FindGroups now m))"
  using FindGroups_inv [of m now "fst (FindGroups now m)" "snd (FindGroups now m)"]
  by (auto simp: find_inv_def)

definition players_of :: "LFGProposal \<Rightarrow> u64 set" where
  "players_of prop = set (gkeys (prPlayers prop))"

definition common_dungeon :: "lfgMatchUnit list \<Rightarrow> nat list \<Rightarrow> u32 \<Rightarrow> bool" where
  "common_dungeon units combo d \<longleftrightarrow> (\<forall>i \<in> set combo. d \<in> set (uDungeons (units ! i)))"

text \<open>What a proposal made of a combination of units owes its players.\<close>

definition legal_proposal :: "bool \<Rightarrow> int \<Rightarrow> lfgMatchUnit list \<Rightarrow> nat list \<Rightarrow> LFGProposal \<Rightarrow> bool" where
  "legal_proposal solo now units combo prop \<longleftrightarrow>
     (if solo then 0 < combo_size units combo \<and> combo_size units combo \<le> 5
      else combo_size units combo = 5) \<and>
     group_count units combo \<le> 1 \<and> common_dungeon units combo (prDungeonID prop) \<and>
     players_of prop = (\<Union>i \<in> set combo. set (uGuids (units ! i))) \<and> prLeader prop \<in> players_of prop \<and>
     (\<exists>assigned. resolves (combo_roles units combo) assigned \<and>
        (\<forall>g \<in> players_of prop. map_option pRole (gget (prPlayers prop) g) = gget assigned g)) \<and>
     (\<forall>g p. gget (prPlayers prop) g = Some p \<longrightarrow> pAccept p = LFGAnswerPending) \<and>
     prState prop = LFGProposalInitiating \<and> prCancelTime prop = now + 45 * second"

lemma gget_map_self: "gget (map (\<lambda>g. (g, f g)) xs) k = (if k \<in> set xs then Some (f k) else None)"
  by (induction xs) auto

lemma proposes_legal:
  assumes "\<forall>u \<in> set units. unit_ok u" and "proposes solo now units combo pr"
  shows "legal_proposal solo now units combo pr"
proof -
  obtain a where a: "resolves (combo_roles units combo) a" "pr = propose now units combo a (prID pr)"
    using assms(2) by (auto simp: proposes_def)
  have m: "matches solo units combo" "combo_dungeons units combo \<noteq> []" "subseq combo [0..<length units]"
    using assms(2) by (auto simp: proposes_def)
  have uok: "\<forall>i \<in> set combo. unit_ok (units ! i)" using assms(1) subseq_set [OF m(3)] by auto
  let ?gs = "sort (gkeys (combo_roles units combo))"
  have gs: "set ?gs = set (gkeys (combo_roles units combo))" by simp
  have "solvable (combo_roles units combo)"
    using m(1) combo_roles_solved(2) [OF uok] by (simp add: matches_def)
  then have "?gs \<noteq> []"
    by (metis gkeys_def list.map_disc_iff list.set(1) set_empty set_sort solvable_def)
  have ids: "gget (prPlayers pr) g = (if g \<in> set ?gs then Some \<lparr>pRole = the (gget a g),
      pGroup = the (gget (combo_owner units combo) g), pAccept = LFGAnswerPending\<rparr> else None)" for g
    by (subst a(2)) (simp add: propose_def Let_def gget_map_self)
  have pl: "players_of pr = set ?gs" by (auto simp: players_of_def gm.keys_get ids split: if_splits)
  have eqs: "prLeader pr = combo_leader a ?gs" "prDungeonID pr = hd (combo_dungeons units combo)"
    "prState pr = LFGProposalInitiating" "prCancelTime pr = now + 45 * second"
    by (subst a(2), simp add: propose_def Let_def)+
  have leader: "combo_leader a ?gs \<in> set ?gs"
    using \<open>?gs \<noteq> []\<close> by (auto simp: combo_leader_def find_Some_iff simp del: set_sort split: option.split)
  have "gget a g \<noteq> None" if "g \<in> set ?gs" for g
    using that a(1) by (force simp: resolves_def gm.keys_get)
  then have roles: "\<forall>g \<in> set ?gs. map_option pRole (gget (prPlayers pr) g) = gget a g"
    by (auto simp: ids)
  have "hd (combo_dungeons units combo) \<in> set (combo_dungeons units combo)" using m(2) by simp
  moreover have "combo \<noteq> []" using m(1) by (simp add: matches_def)
  ultimately have common: "common_dungeon units combo (hd (combo_dungeons units combo))"
    by (simp add: common_dungeon_def combo_dungeons_set)
  have sizes: "if solo then 0 < combo_size units combo \<and> combo_size units combo \<le> 5
      else combo_size units combo = 5" "group_count units combo \<le> 1"
    using m(1) by (auto simp: matches_def)
  have "\<forall>g p. gget (prPlayers pr) g = Some p \<longrightarrow> pAccept p = LFGAnswerPending"
    by (simp add: ids)
  moreover have "\<exists>assigned. resolves (combo_roles units combo) assigned \<and>
      (\<forall>g \<in> set ?gs. map_option pRole (gget (prPlayers pr) g) = gget assigned g)"
    using a(1) roles by blast
  moreover have "set ?gs = (\<Union>i \<in> set combo. set (uGuids (units ! i)))" by (simp add: combo_roles_keys)
  ultimately show ?thesis
    unfolding legal_proposal_def pl eqs using sizes common leader by blast
qed

section \<open>The promises of a pass\<close>

text \<open>
  C1: Every proposal of a matching pass is legal: it is made of unused queue units with five players
  in all (one to five with the solo switch), at most one premade group, a dungeon all of them selected,
  a leader among its players, and one role for every player that they offered and that together fit
  the group composition. No queue unit is used by two proposals of the pass, the proposals carry
  consecutive IDs, and the well-formedness of the manager is kept.
\<close>

theorem FindGroups_legal:
  assumes "mgr_ok m" and "FindGroups now m = (props, m')"
  shows "mgr_ok m' \<and>
    map prID props = map (\<lambda>k. mNextProposalID m + of_nat (Suc k)) [0..<length props] \<and>
    (\<exists>combos. list_all2 (legal_proposal (mSolo m) now (match_units m)) combos props \<and>
       distinct (concat combos) \<and> (\<forall>i \<in> set (concat combos). i < length (match_units m)))"
proof -
  obtain used combos where inv: "find_inv now (match_units m) m combos (m', used, props)"
    using FindGroups_inv [OF assms] by blast
  have units: "\<forall>u \<in> set (match_units m). unit_ok u" using match_units_ok [OF assms(1)] by blast
  have all: "list_all2 (proposes (mSolo m) now (match_units m)) combos props"
    using inv by (simp add: find_inv_def)
  then have "list_all2 (legal_proposal (mSolo m) now (match_units m)) combos props"
    by (rule list_all2_mono) (rule proposes_legal [OF units])
  moreover have "\<forall>c \<in> set combos. set c \<subseteq> {0..<length (match_units m)}"
  proof
    fix c assume "c \<in> set combos"
    then obtain pr where "proposes (mSolo m) now (match_units m) c pr"
      using all by (auto simp: list_all2_conv_all_nth in_set_conv_nth)
    then show "set c \<subseteq> {0..<length (match_units m)}"
      using subseq_set [of c "[0..<length (match_units m)]"] by (simp add: proposes_def)
  qed
  then have "\<forall>i \<in> set (concat combos). i < length (match_units m)" by fastforce
  ultimately show ?thesis using inv by (auto simp: find_inv_def)
qed

definition solo_five :: "LFGManager" where
  "solo_five = (NewLFGManager False)\<lparr>mQueue := map (\<lambda>(g, r). (g, \<lparr>qGUID = g, qRoles = r, qDungeons = [9],
     qComment = [], qQueuedAt = 5, qState = LFGStateQueued, qOldState = LFGStateNone\<rparr>))
       [(5, 8), (1, 3), (2, 12), (3, 8), (4, 8), (6, 8)]\<rparr>"

lemma solo_five_ok: "mgr_ok solo_five"
  by (auto simp: solo_five_def NewLFGManager_def mgr_ok_defs split: if_splits)

theorem FindGroups_legal_witness:
  "map players_of (fst (FindGroups 7 solo_five)) = [{1, 2, 3, 4, 5}] \<and> mgr_ok (snd (FindGroups 7 solo_five))"
proof -
  have "map (\<lambda>p. gkeys (prPlayers p)) (fst (FindGroups 7 solo_five)) = [[1, 2, 3, 4, 5]]" by code_simp
  then have "map players_of (fst (FindGroups 7 solo_five)) = [{1, 2, 3, 4, 5}]"
    by (auto simp: players_of_def map_eq_Cons_conv)
  then show ?thesis using FindGroups_legal [OF solo_five_ok surjective_pairing, of 7] by simp
qed

section \<open>What a pass marks\<close>

lemma fold_mark_queue:
  "gget (mQueue (fold (\<lambda>i. mark_unit (units ! i)) c m)) g =
     (if \<exists>i \<in> set c. uGroupID (units ! i) = 0 \<and> uGuids (units ! i) ! 0 = g
      then map_option (qState_update (\<lambda>_. LFGStateProposal)) (gget (mQueue m) g) else gget (mQueue m) g)"
proof (induction c arbitrary: m)
  case (Cons i c)
  have "gget (mQueue (mark_unit (units ! i) m)) g =
     (if uGroupID (units ! i) = 0 \<and> uGuids (units ! i) ! 0 = g
      then map_option (qState_update (\<lambda>_. LFGStateProposal)) (gget (mQueue m) g) else gget (mQueue m) g)"
    by (auto simp: mark_unit_def gomap_simps split: option.split)
  then show ?case using Cons by (auto simp: option.map_comp comp_def)
qed simp

lemma match_units_solo:
  assumes "gmap_ok (mQueue m)" and "gget (mGroupQueue m) 0 = None"
    and "u \<in> set (match_units m)" and "uGroupID u = 0"
  shows "\<exists>g. uGuids u = [g] \<and> \<not> member_of_group m g"
  using assms(2-4) by (auto simp: match_units_def Let_def queued_groups_mem solo_guids_mem [OF assms(1)])

text \<open>
  A pass that proposes a queued group leaves the queue entries of its members QUEUED: only the group
  entry is marked. Since a proposed group no longer counts as a group of the queue, its members are
  solo candidates of the very next pass, although they hold a pending proposal.
\<close>

theorem FindGroups_members_become_solos:
  assumes "mgr_ok m" and "gget (mGroupQueue m) 0 = None" and "FindGroups now m = (props, m')"
    and "member_of_group m g" and "gget (mQueue m) g = Some e" and "qState e = LFGStateQueued"
    and "\<not> member_of_group m' g"
  shows "gget (mQueue m') g = Some e \<and> g \<in> set (solo_guids m')"
proof -
  obtain used combos where inv: "find_inv now (match_units m) m combos (m', used, props)"
    using FindGroups_inv [OF assms(1,3)] by blast
  have q: "gmap_ok (mQueue m)" using assms(1) by (simp add: mgr_ok_def queue_ok_def)
  have c: "\<forall>i \<in> set (concat combos). i < length (match_units m)"
  proof
    fix i assume "i \<in> set (concat combos)"
    then obtain c where c: "c \<in> set combos" "i \<in> set c" by auto
    then obtain pr where "proposes (mSolo m) now (match_units m) c pr"
      using inv by (auto simp: find_inv_def list_all2_conv_all_nth in_set_conv_nth)
    then show "i < length (match_units m)"
      using c(2) subseq_set [of c "[0..<length (match_units m)]"] by (auto simp: proposes_def)
  qed
  have "\<not> (\<exists>i \<in> set (concat combos). uGroupID (match_units m ! i) = 0 \<and> uGuids (match_units m ! i) ! 0 = g)"
  proof
    assume "\<exists>i \<in> set (concat combos). uGroupID (match_units m ! i) = 0 \<and> uGuids (match_units m ! i) ! 0 = g"
    then obtain i where i: "i < length (match_units m)" "uGroupID (match_units m ! i) = 0"
      "uGuids (match_units m ! i) ! 0 = g" using c by blast
    from match_units_solo [OF q assms(2) nth_mem [OF i(1)] i(2)] i(3) assms(4) show False by auto
  qed
  moreover have "mQueue m' = mQueue (fold (\<lambda>i. mark_unit (match_units m ! i)) (concat combos) m)"
    using inv by (simp add: find_inv_def marks_agree_def)
  ultimately have e: "gget (mQueue m') g = Some e"
    using assms(5) by (simp only: fold_mark_queue if_False)
  moreover have "gmap_ok (mQueue m')" using inv by (simp add: find_inv_def mgr_ok_def queue_ok_def)
  ultimately show ?thesis using assms(6,7) by (simp add: solo_guids_mem)
qed

definition queued_five :: "LFGManager" where
  "queued_five = QueueGroup 5 90 1 [9] [(1, 3), (2, 4), (3, 8), (4, 8), (5, 8)] [] (NewLFGManager False)"

lemma queued_five_ok: "mgr_ok queued_five"
  unfolding queued_five_def by (rule QueueGroup_ok [OF NewLFGManager_ok]) (simp add: sane_roles_def)

theorem FindGroups_members_become_solos_witness:
  "1 \<in> set (solo_guids (snd (FindGroups 7 queued_five))) \<and>
   map (\<lambda>(i, p). gkeys (prPlayers p)) (mProposals (snd (FindGroups 8 (snd (FindGroups 7 queued_five))))) =
     [[1, 2, 3, 4, 5], [1, 2, 3, 4, 5]]"
proof -
  have "gget (mGroupQueue queued_five) 0 = None" "member_of_group queued_five 1"
    "\<not> member_of_group (snd (FindGroups 7 queued_five)) 1" by code_simp+
  moreover have "map_option qState (gget (mQueue queued_five) 1) = Some LFGStateQueued" by code_simp
  then obtain e where "gget (mQueue queued_five) 1 = Some e" "qState e = LFGStateQueued" by auto
  ultimately have "1 \<in> set (solo_guids (snd (FindGroups 7 queued_five)))"
    using FindGroups_members_become_solos [OF queued_five_ok _ surjective_pairing] by blast
  moreover have "map (\<lambda>(i, p). gkeys (prPlayers p))
      (mProposals (snd (FindGroups 8 (snd (FindGroups 7 queued_five))))) =
     [[1, 2, 3, 4, 5], [1, 2, 3, 4, 5]]" by code_simp
  ultimately show ?thesis by blast
qed

end
