(* ===== verification/Lfg_System.thy ===== *)
theory Lfg_System
  imports Lfg_Matching
begin

text \<open>
  The dungeon finder of \<^verbatim>\<open>engine/world/lfg.go\<close> as a state machine: each method of the manager that changes it is a
  step, since the mutex makes it atomic. A group is queued with the sanitized roles of its finished role check.
\<close>

inductive lfg_step :: "LFGManager \<Rightarrow> LFGManager \<Rightarrow> bool" where
  validator: "lfg_step m (SetDungeonValidator v m)"
| login: "lfg_step m (OnLogin m)"
| toggle: "lfg_step m (snd (ToggleSolo m))"
| set_options: "lfg_step m (SetOptions opts m)"
| clean: "lfg_step m (Clean m)"
| join: "lfg_step m (snd (Join now guid roles dungeons comment m))"
| leave: "lfg_step m (snd (Leave guid m))"
| set_state: "lfg_step m (SetState guid state m)"
| setup_member: "lfg_step m (SetupGroupMember guid dungeon state m)"
| set_comment: "lfg_step m (SetComment guid comment m)"
| leave_queued: "lfg_step m (snd (LeaveQueuedGroup g exclude restore st m))"
| queue_group: "sane_roles roles \<Longrightarrow> lfg_step m (QueueGroup now g leader dungeons roles comment m)"
| leave_group: "lfg_step m (snd (LeaveGroup g m))"
| role_check: "lfg_step m (snd (StartRoleCheck now g leader dungeons roles members m))"
| role_answer: "lfg_step m (snd (UpdateRoleCheck g guid roles m))"
| role_expire: "lfg_step m (snd (ExpireRoleChecks now m))"
| role_abort: "lfg_step m (snd (AbortRoleCheck g m))"
| find_groups: "lfg_step m (snd (FindGroups now m))"
| solo_form: "lfg_step m (snd (FormSoloProposal now guid m))"
| create: "gmap_ok players \<Longrightarrow> lfg_step m (snd (CreateProposal now dungeon g leader players m))"
| answer: "lfg_step m (snd (UpdateProposal now i guid accept m))"
| decline: "lfg_step m (snd (DeclineProposalForPlayer guid m))"
| expire: "lfg_step m (snd (ExpireProposals now m))"

inductive lfg_reachable :: "LFGManager \<Rightarrow> bool" where
  start: "lfg_reachable (NewLFGManager soloEnable)"
| step: "lfg_reachable m \<Longrightarrow> lfg_step m m' \<Longrightarrow> lfg_reachable m'"

lemmas lfg_operations_ok = switches_ok Clean_ok Join_ok Leave_ok setStateLocked_ok SetupGroupMember_ok SetComment_ok
  LeaveQueuedGroup_ok QueueGroup_ok LeaveGroup_ok StartRoleCheck_ok UpdateRoleCheck_ok ExpireRoleChecks_ok
  AbortRoleCheck_ok FindGroups_ok FormSoloProposal_ok CreateProposal_ok UpdateProposal_ok DeclineProposalForPlayer_ok
  ExpireProposals_ok

lemma lfg_step_ok: "lfg_step m m' \<Longrightarrow> mgr_ok m \<Longrightarrow> mgr_ok m'"
  by (induction rule: lfg_step.induct) (simp_all add: lfg_operations_ok SetState_def)

lemma lfg_reachable_mgr_ok: "lfg_reachable m \<Longrightarrow> mgr_ok m"
  by (induction rule: lfg_reachable.induct) (auto intro: NewLFGManager_ok lfg_step_ok)

text \<open>
  C23: In every state the dungeon finder can reach, whatever its methods do in whatever order: every player and
  group is stored under its own identifier with sanitized roles and a group is queued or in a proposal; a role
  check in the store has its leader among its members and is undecided or failed for a missing role; a proposal
  in the store is undecided, and no player of it has declined.
\<close>

theorem lfg_reachable_ok:
  assumes "lfg_reachable m"
  shows "(\<forall>g e. gget (mQueue m) g = Some e \<longrightarrow> qGUID e = g \<and> qRoles e AND LFGRoleAny = qRoles e) \<and>
    (\<forall>g e. gget (mGroupQueue m) g = Some e \<longrightarrow>
       gGroupID e = g \<and> sane_roles (gRoles e) \<and> gState e \<in> {LFGStateQueued, LFGStateProposal}) \<and>
    (\<forall>g rc. gget (mRoleChecks m) g = Some rc \<longrightarrow>
       cGroupID rc = g \<and> sane_roles (cRoles rc) \<and> gget (cRoles rc) (cLeader rc) \<noteq> None \<and>
       cState rc \<in> {LFGRoleCheckInitializing, LFGRoleCheckNoRole}) \<and>
    (\<forall>i p. gget (mProposals m) i = Some p \<longrightarrow>
       prID p = i \<and> prState p = LFGProposalInitiating \<and>
       (\<forall>g pl. gget (prPlayers p) g = Some pl \<longrightarrow> pAccept pl \<noteq> LFGAnswerDeny))"
  using lfg_reachable_mgr_ok [OF assms] by (fastforce simp: mgr_ok_defs check_ok_def prop_ok_def)

theorem lfg_reachable_ok_witness:
  "gget (mQueue (snd (Join 5 7 0xFF [3] [] (NewLFGManager True)))) 7 \<noteq> None \<and>
   qRoles (the (gget (mQueue (snd (Join 5 7 0xFF [3] [] (NewLFGManager True)))) 7)) AND LFGRoleAny =
     qRoles (the (gget (mQueue (snd (Join 5 7 0xFF [3] [] (NewLFGManager True)))) 7))"
proof -
  let ?m = "snd (Join 5 7 0xFF [3] [] (NewLFGManager True))"
  have "lfg_reachable ?m" by (intro lfg_reachable.step [OF _ lfg_step.join] lfg_reachable.start)
  from lfg_reachable_ok [OF this, THEN conjunct1, rule_format, of 7]
  have r: "qRoles e AND LFGRoleAny = qRoles e" if "gget (mQueue ?m) 7 = Some e" for e using that by blast
  have "gget (mQueue ?m) 7 \<noteq> None" by code_simp
  then obtain e where e: "gget (mQueue ?m) 7 = Some e" by blast
  show ?thesis unfolding e option.sel using r [OF e] by simp
qed

end
