(* ===== verification/Lfg_Status.thy ===== *)
theory Lfg_Status
  imports Lfg_Proposals Wire
begin

text \<open>
  \<^verbatim>\<open>engine/world/lfg.go\<close>, the queue status reports: \<open>QueueStatuses\<close>, the remaining role needs, and the
  status packet.
\<close>

section \<open>Status of a queue unit\<close>

definition lfgQueueWaitTime :: "u8 \<Rightarrow> int \<Rightarrow> int \<Rightarrow> int \<Rightarrow> int \<Rightarrow> int" where
  "lfgQueueWaitTime role avg tank healer dps =
     (if role = LFGRoleNone then -1
      else if role = LFGRoleTank then tank
      else if role = LFGRoleHealer then healer
      else if role = LFGRoleDamage then dps
      else avg)"

record lfgQueueStatus =
  sDungeonID :: u32
  sWaitTime :: int
  sWaitAvg :: int
  sWaitTank :: int
  sWaitHealer :: int
  sWaitDps :: int
  sQueuedTime :: u32
  sTanks :: u8
  sHealers :: u8
  sDps :: u8
  sRecipients :: "u64 list"

definition lfgRemainingNeeds :: "role_map \<Rightarrow> u8 \<times> u8 \<times> u8" where
  "lfgRemainingNeeds roles =
     fold (\<lambda>(_, role) (tanks, healers, dps).
         if role AND LFGRoleTank \<noteq> 0 then (tanks - 1, healers, dps)
         else if role AND LFGRoleHealer \<noteq> 0 then (tanks, healers - 1, dps)
         else (tanks, healers, dps - 1))
       roles (of_nat lfgTanksNeeded, of_nat lfgHealersNeeded, of_nat lfgDPSNeeded)"

definition queued_seconds :: "int \<Rightarrow> int \<Rightarrow> u32" where
  "queued_seconds now queuedAt =
     (let queued = unix now - unix queuedAt in word_of_int (if queued < 0 then 0 else queued))"

definition unit_status ::
    "LFGManager \<Rightarrow> u32 \<Rightarrow> u8 \<Rightarrow> u32 \<Rightarrow> role_map \<Rightarrow> u64 list \<Rightarrow> lfgQueueStatus" where
  "unit_status m dungeonID role queued roles recipients =
     (let (tanks, healers, dps) = lfgRemainingNeeds roles;
          avg = lfgWaitTimeOf (mWaitAvg m) dungeonID; tank = lfgWaitTimeOf (mWaitTank m) dungeonID;
          healer = lfgWaitTimeOf (mWaitHealer m) dungeonID; dpsWait = lfgWaitTimeOf (mWaitDps m) dungeonID in
      \<lparr>sDungeonID = dungeonID, sWaitTime = lfgQueueWaitTime role avg tank healer dpsWait,
       sWaitAvg = avg, sWaitTank = tank, sWaitHealer = healer, sWaitDps = dpsWait,
       sQueuedTime = queued, sTanks = tanks, sHealers = healers, sDps = dps, sRecipients = recipients\<rparr>)"

definition group_status :: "int \<Rightarrow> LFGManager \<Rightarrow> LFGGroupQueueEntry \<Rightarrow> lfgQueueStatus option" where
  "group_status now m entry =
     (case lfgMinDungeon (gDungeons entry) of
        None \<Rightarrow> None
      | Some dungeonID \<Rightarrow>
          Some (unit_status m dungeonID
            (without_leader (fold (\<lambda>(_, r) role. role OR r) (gRoles entry) 0))
            (queued_seconds now (gQueuedAt entry)) (gRoles entry) (sort (gkeys (gRoles entry)))))"

definition solo_status :: "int \<Rightarrow> LFGManager \<Rightarrow> u64 \<Rightarrow> LFGQueueEntry \<Rightarrow> lfgQueueStatus option" where
  "solo_status now m guid entry =
     (case lfgMinDungeon (qDungeons entry) of
        None \<Rightarrow> None
      | Some dungeonID \<Rightarrow>
          Some (unit_status m dungeonID (without_leader (qRoles entry))
            (queued_seconds now (qQueuedAt entry)) [(guid, qRoles entry)] [guid]))"

definition in_some_group :: "LFGManager \<Rightarrow> u64 \<Rightarrow> bool" where
  "in_some_group m guid = (\<exists>(_, entry) \<in> set (mGroupQueue m). gget (gRoles entry) guid \<noteq> None)"

definition QueueStatuses :: "int \<Rightarrow> LFGManager \<Rightarrow> lfgQueueStatus list" where
  "QueueStatuses now m =
     (let groupIDs = sort (gkeys (mGroupQueue m));
          soloGUIDs = sort (map fst (filter (\<lambda>(guid, entry). \<not> in_some_group m guid \<and>
            (qState entry = LFGStateQueued \<or> qState entry = LFGStateProposal)) (mQueue m))) in
      List.map_filter (\<lambda>groupID. group_status now m (the (gget (mGroupQueue m) groupID))) groupIDs @
      List.map_filter (\<lambda>guid. solo_status now m guid (the (gget (mQueue m) guid))) soloGUIDs)"

section \<open>The packet\<close>

definition sendLFGQueueStatus :: "lfgQueueStatus \<Rightarrow> bytes" where
  "sendLFGQueueStatus status = Bytes (writes
     [WriteU32 (sDungeonID status), WriteI32 (sWaitAvg status), WriteI32 (sWaitTime status),
      WriteI32 (sWaitTank status), WriteI32 (sWaitHealer status), WriteI32 (sWaitDps status),
      WriteU8 (sTanks status), WriteU8 (sHealers status), WriteU8 (sDps status),
      WriteU32 (sQueuedTime status)] (NewBuffer (4 + 4 + 4 + 4 + 4 + 4 + 1 + 1 + 1 + 4)))"

section \<open>What a report says\<close>

definition tank_slots :: "role_map \<Rightarrow> nat" where
  "tank_slots roles = length (filter (\<lambda>(_, r). r AND LFGRoleTank \<noteq> 0) roles)"

definition healer_slots :: "role_map \<Rightarrow> nat" where
  "healer_slots roles = length (filter (\<lambda>(_, r). r AND LFGRoleTank = 0 \<and> r AND LFGRoleHealer \<noteq> 0) roles)"

definition damage_slots :: "role_map \<Rightarrow> nat" where
  "damage_slots roles = length (filter (\<lambda>(_, r). r AND LFGRoleTank = 0 \<and> r AND LFGRoleHealer = 0) roles)"

lemma needs_fold:
  "fold (\<lambda>(_, role) (tanks, healers, dps).
      if role AND LFGRoleTank \<noteq> 0 then (tanks - 1, healers, dps)
      else if role AND LFGRoleHealer \<noteq> 0 then (tanks, healers - 1, dps)
      else (tanks, healers, dps - 1)) roles (t :: u8, h :: u8, d :: u8) =
   (t - of_nat (tank_slots roles), h - of_nat (healer_slots roles), d - of_nat (damage_slots roles))"
  by (induction roles arbitrary: t h d)
    (auto simp: tank_slots_def healer_slots_def damage_slots_def)

text \<open>
  The remaining needs count every member once, as a tank if they offer tanking, else as a healer if
  they offer healing, else as damage. When the role check let the members through as one tank, one healer
  and three damage dealers the bytes are exact and never wrap; the code lets them wrap otherwise.
\<close>

theorem lfgRemainingNeeds_exact:
  assumes "tank_slots roles \<le> 1" and "healer_slots roles \<le> 1" and "damage_slots roles \<le> 3"
    and "lfgRemainingNeeds roles = (tanks, healers, dps)"
  shows "unat tanks + tank_slots roles = 1 \<and> unat healers + healer_slots roles = 1 \<and>
    unat dps + damage_slots roles = 3"
proof -
  have "(tanks, healers, dps) = (1 - of_nat (tank_slots roles), 1 - of_nat (healer_slots roles),
      3 - of_nat (damage_slots roles))"
    using assms(4) by (simp add: lfgRemainingNeeds_def needs_fold lfgTanksNeeded_def lfgHealersNeeded_def lfgDPSNeeded_def)
  moreover have "tank_slots roles \<in> {0, 1}" "healer_slots roles \<in> {0, 1}" "damage_slots roles \<in> {0, 1, 2, 3}"
    using assms(1-3) by auto
  ultimately show ?thesis by auto
qed

theorem lfgRemainingNeeds_exact_witness:
  "lfgRemainingNeeds [(1, 3), (2, 12), (3, 8)] = (0, 0, 2) \<and> unat (2 :: u8) + 1 = 3"
proof -
  have r: "lfgRemainingNeeds [(1, 3), (2, 12), (3, 8)] = (0, 0, 2)"
    by (simp add: lfgRemainingNeeds_def lfgTanksNeeded_def lfgHealersNeeded_def lfgDPSNeeded_def)
  from lfgRemainingNeeds_exact [OF _ _ _ r] r show ?thesis
    by (simp add: tank_slots_def healer_slots_def damage_slots_def)
qed

lemma map_filter_recipients:
  assumes "\<And>x s. f x = Some s \<Longrightarrow> sRecipients s = r x"
  shows "concat (map sRecipients (List.map_filter f xs)) = concat (map r (filter (\<lambda>x. f x \<noteq> None) xs))"
  using assms by (induction xs) (auto simp: map_filter_simps split: option.split)

lemma status_recipients:
  "group_status now m e = Some s \<Longrightarrow> sRecipients s = sort (gkeys (gRoles e))"
  "solo_status now m g e' = Some s \<Longrightarrow> sRecipients s = [g]"
  by (auto simp: group_status_def solo_status_def unit_status_def Let_def split: option.splits prod.splits)

definition rosters_disjoint :: "LFGManager \<Rightarrow> bool" where
  "rosters_disjoint m \<longleftrightarrow> (\<forall>k k' e e'. gget (mGroupQueue m) k = Some e \<longrightarrow> gget (mGroupQueue m) k' = Some e' \<longrightarrow>
     k \<noteq> k' \<longrightarrow> set (gkeys (gRoles e)) \<inter> set (gkeys (gRoles e')) = {})"

lemma distinct_concat_map_sort:
  assumes "distinct ks" and "\<And>k. k \<in> set ks \<Longrightarrow> distinct (f k)"
    and "\<And>k k'. k \<in> set ks \<Longrightarrow> k' \<in> set ks \<Longrightarrow> k \<noteq> k' \<Longrightarrow> set (f k) \<inter> set (f k') = {}"
  shows "distinct (concat (map f ks))"
  using assms by (induction ks) auto

text \<open>
  When no player is in two group entries, nobody receives two queue statuses of one report: the
  members of a group entry are addressed through it, and only players in no group entry get one of
  their own. Every recipient of their own status is queued or in a proposal.
\<close>

theorem QueueStatuses_no_duplicate_recipient:
  assumes "mgr_ok m" and "rosters_disjoint m"
  shows "distinct (concat (map sRecipients (QueueStatuses now m)))"
proof -
  have gq: "gmap_ok (mGroupQueue m)" "gmap_ok (mQueue m)"
    and roles: "\<And>k e. gget (mGroupQueue m) k = Some e \<Longrightarrow> gmap_ok (gRoles e)"
    using assms(1) by (auto simp: mgr_ok_def groups_ok_def queue_ok_def sane_roles_def)
  define gs where "gs = filter (\<lambda>k. group_status now m (the (gget (mGroupQueue m) k)) \<noteq> None)
      (sort (gkeys (mGroupQueue m)))"
  define ss where "ss = filter (\<lambda>g. solo_status now m g (the (gget (mQueue m) g)) \<noteq> None)
      (sort (map fst (filter (\<lambda>(guid, entry). \<not> in_some_group m guid \<and>
            (qState entry = LFGStateQueued \<or> qState entry = LFGStateProposal)) (mQueue m))))"
  let ?r = "\<lambda>k. sort (gkeys (gRoles (the (gget (mGroupQueue m) k))))"
  have eq: "concat (map sRecipients (QueueStatuses now m)) = concat (map ?r gs) @ concat (map (\<lambda>g. [g]) ss)"
    unfolding QueueStatuses_def Let_def map_append concat_append gs_def ss_def
    by (subst map_filter_recipients [where r = ?r], erule status_recipients,
        subst map_filter_recipients [where r = "\<lambda>g. [g]"], erule status_recipients) simp
  have known: "k \<in> set gs \<Longrightarrow> \<exists>e. gget (mGroupQueue m) k = Some e" for k
    by (auto simp: gs_def gm.keys_get)
  have "distinct (concat (map ?r gs))"
  proof (rule distinct_concat_map_sort)
    show "distinct gs" unfolding gs_def using gm.ok_distinct [OF gq(1)] by simp
    show "distinct (?r k)" if "k \<in> set gs" for k
      using known [OF that] roles gm.ok_distinct by fastforce
    show "set (?r k) \<inter> set (?r k') = {}" if "k \<in> set gs" "k' \<in> set gs" "k \<noteq> k'" for k k'
      using known [OF that(1)] known [OF that(2)] that(3) assms(2) unfolding rosters_disjoint_def by fastforce
  qed
  moreover have "distinct ss"
    unfolding ss_def using gq(2) by (simp add: gmap_ok_def distinct_map_filter)
  moreover have "g \<notin> set (?r k)" if "k \<in> set gs" "g \<in> set ss" for k g
  proof -
    from known [OF that(1)] obtain e where e: "gget (mGroupQueue m) k = Some e" by blast
    have "\<not> in_some_group m g" using that(2) by (auto simp: ss_def)
    then have "gget (gRoles e) g = None" using gget_in_set [OF e] by (auto simp: in_some_group_def)
    then show ?thesis by (simp add: e gm.keys_get)
  qed
  ultimately show ?thesis unfolding eq by (auto simp: distinct_map)
qed

definition queued_mix :: "LFGManager" where
  "queued_mix = snd (Join 5 7 8 [9] [] (QueueGroup 5 90 1 [9] [(1, 2), (2, 4)] [] (NewLFGManager False)))"

theorem QueueStatuses_no_duplicate_recipient_witness:
  "map sRecipients (QueueStatuses 6 queued_mix) = [[1, 2], [7]] \<and>
   distinct (concat (map sRecipients (QueueStatuses 6 queued_mix)))"
proof -
  have "mgr_ok queued_mix"
    unfolding queued_mix_def
    by (rule Join_ok [OF QueueGroup_ok [OF NewLFGManager_ok]]) (simp add: sane_roles_def)
  moreover have "mGroupQueue queued_mix = [(90, \<lparr>gGroupID = 90, gDungeons = [9], gRoles = [(1, 2), (2, 4)],
      gQueuedAt = 5, gState = 2\<rparr>)]" by code_simp
  then have "rosters_disjoint queued_mix" by (auto simp: rosters_disjoint_def split: if_splits)
  moreover have "map sRecipients (QueueStatuses 6 queued_mix) = [[1, 2], [7]]" by code_simp
  ultimately show ?thesis using QueueStatuses_no_duplicate_recipient by blast
qed

end
