(* ===== verification/Bg_Queue.thy ===== *)
theory Bg_Queue
  imports Go_Prelude
begin

text \<open>
  \<^verbatim>\<open>engine/world/battleground_queue.go\<close>: queued players and groups, and the selection pool the
  matchmaker fills. Groups are shared by pointer between queues and pools, so a group is a reference
  into a heap of records. Head counts are \<open>uint32\<close> in the code; here they are integers with the
  conversions written out.
\<close>

section \<open>Queued groups\<close>

type_synonym bg_ref = nat

record bgQueuePlayerInfo =
  lastOnlineTime :: u32
  groupInfo :: bg_ref

record bgGroupQueueInfo =
  bgPlayers :: "(u64, bgQueuePlayerInfo) gomap"
  bgTeam :: u32
  bgTypeID :: u32
  isRated :: bool
  arenaType :: u8
  arenaTeamID :: u32
  joinTime :: u32
  removeInviteTime :: u32
  isInvitedToBGInstanceGUID :: u32
  arenaTeamRating :: u32
  arenaMatchmakerRating :: u32
  opponentsTeamRating :: u32
  opponentsMatchmakerRating :: u32
  previousOpponentsTeamID :: u32

type_synonym bg_heap = "bg_ref \<Rightarrow> bgGroupQueueInfo"

abbreviation (input) bgQueuePremadeAlliance :: u8 where "bgQueuePremadeAlliance \<equiv> 0"
abbreviation (input) bgQueuePremadeHorde :: u8 where "bgQueuePremadeHorde \<equiv> 1"
abbreviation (input) bgQueueNormalAlliance :: u8 where "bgQueueNormalAlliance \<equiv> 2"
abbreviation (input) bgQueueNormalHorde :: u8 where "bgQueueNormalHorde \<equiv> 3"

abbreviation (input) bgQueueInvitationNoBalance :: u8 where "bgQueueInvitationNoBalance \<equiv> 0"
abbreviation (input) bgQueueInvitationBalanced :: u8 where "bgQueueInvitationBalanced \<equiv> 1"
abbreviation (input) bgQueueInvitationEven :: u8 where "bgQueueInvitationEven \<equiv> 2"

abbreviation (input) teamHorde :: u32 where "teamHorde \<equiv> 67"
abbreviation (input) teamAlliance :: u32 where "teamAlliance \<equiv> 469"

definition bgQueueGroupIndex :: "bool \<Rightarrow> bool \<Rightarrow> u32 \<Rightarrow> u8" where
  "bgQueueGroupIndex rated isPremade team =
     (let index = 0;
          index = (if \<not> rated \<and> \<not> isPremade then index + bgQueueNormalAlliance else index) in
      if team = teamHorde then index + 1 else index)"

text \<open>\<open>ref\<close> is the address of the new record and \<open>now\<close> is \<open>gameTimeMS()\<close>.\<close>

definition newBGGroupQueueInfo ::
    "bg_ref \<Rightarrow> u32 \<Rightarrow> u32 \<Rightarrow> u8 \<Rightarrow> u32 \<Rightarrow> bool \<Rightarrow> u32 \<Rightarrow> u32 \<Rightarrow> u32 \<Rightarrow> u32 \<Rightarrow> u64 list \<Rightarrow> bgGroupQueueInfo" where
  "newBGGroupQueueInfo ref now typeID aType aTeamID rated arenaRating matchmakerRating
     previousTeamID leaderTeam memberGUIDs =
     \<lparr>bgPlayers = fold (\<lambda>guid. gput guid \<lparr>lastOnlineTime = now, groupInfo = ref\<rparr>) memberGUIDs [],
      bgTeam = leaderTeam, bgTypeID = typeID, isRated = rated, arenaType = aType,
      arenaTeamID = aTeamID, joinTime = now, removeInviteTime = 0, isInvitedToBGInstanceGUID = 0,
      arenaTeamRating = arenaRating, arenaMatchmakerRating = matchmakerRating,
      opponentsTeamRating = 0, opponentsMatchmakerRating = 0,
      previousOpponentsTeamID = previousTeamID\<rparr>"

definition removeQueuedPlayer :: "u64 \<Rightarrow> bgGroupQueueInfo \<Rightarrow> bgGroupQueueInfo" where
  "removeQueuedPlayer guid g = g\<lparr>bgPlayers := gdel guid (bgPlayers g)\<rparr>"

definition bgQueueIsPlayerInvited ::
    "bg_heap \<Rightarrow> (u64, bgQueuePlayerInfo) gomap \<Rightarrow> u64 \<Rightarrow> u32 \<Rightarrow> u32 \<Rightarrow> bool" where
  "bgQueueIsPlayerInvited h queued guid bgInstanceGUID removeTime =
     (case gget queued guid of
        None \<Rightarrow> False
      | Some plInfo \<Rightarrow> isInvitedToBGInstanceGUID (h (groupInfo plInfo)) = bgInstanceGUID \<and>
                       removeInviteTime (h (groupInfo plInfo)) = removeTime)"

definition bgQueueGroupInfoCopy ::
    "bg_heap \<Rightarrow> (u64, bgQueuePlayerInfo) gomap \<Rightarrow> u64 \<Rightarrow> bgGroupQueueInfo option" where
  "bgQueueGroupInfoCopy h queued guid = map_option (\<lambda>plInfo. h (groupInfo plInfo)) (gget queued guid)"

section \<open>The selection pool\<close>

record bgSelectionPool =
  selectedGroups :: "bg_ref list"
  poolPlayers :: int

definition empty_pool :: bgSelectionPool where
  "empty_pool = \<lparr>selectedGroups = [], poolPlayers = 0\<rparr>"

definition playerCount :: "bgSelectionPool \<Rightarrow> int" where
  "playerCount p = poolPlayers p"

definition pool_init :: "bgSelectionPool \<Rightarrow> bgSelectionPool" where
  "pool_init p = p\<lparr>selectedGroups := [], poolPlayers := 0\<rparr>"

definition group_size :: "bg_heap \<Rightarrow> bg_ref \<Rightarrow> int" where
  "group_size h g = to_u32 (int (length (bgPlayers (h g))))"

definition invited :: "bg_heap \<Rightarrow> bg_ref \<Rightarrow> bool" where
  "invited h g \<longleftrightarrow> isInvitedToBGInstanceGUID (h g) \<noteq> 0"

definition addGroup :: "bg_heap \<Rightarrow> bg_ref \<Rightarrow> int \<Rightarrow> bgSelectionPool \<Rightarrow> bool \<times> bgSelectionPool" where
  "addGroup h g desiredCount p =
     (if \<not> invited h g \<and> desiredCount \<ge> to_u32 (poolPlayers p + group_size h g)
      then (True, p\<lparr>selectedGroups := selectedGroups p @ [g],
                    poolPlayers := to_u32 (poolPlayers p + group_size h g)\<rparr>)
      else if poolPlayers p < desiredCount then (True, p)
      else (False, p))"

definition bgAbsDiff :: "int \<Rightarrow> int \<Rightarrow> int" where
  "bgAbsDiff a b = (if a > b then to_u32 (a - b) else to_u32 (b - a))"

text \<open>The scan of \<open>kickGroup\<close>: the index to kick and whether one within the window was found.\<close>

primrec kick_scan :: "bg_heap \<Rightarrow> int \<Rightarrow> bg_ref list \<Rightarrow> nat \<Rightarrow> bg_ref list \<Rightarrow> nat \<times> bool \<Rightarrow> nat \<times> bool" where
  "kick_scan h sz all i [] st = st"
| "kick_scan h sz all i (g # gs) st =
     (let n = group_size h g; (kick, found) = st in
      kick_scan h sz all (i + 1) gs
        (if bgAbsDiff n sz \<le> 1 then (i, True)
         else if \<not> found \<and> n \<ge> group_size h (all ! kick) then (i, found)
         else (kick, found)))"

definition kickGroup :: "bg_heap \<Rightarrow> int \<Rightarrow> bgSelectionPool \<Rightarrow> bool \<times> bgSelectionPool" where
  "kickGroup h sz p =
     (let (kick, found) = kick_scan h sz (selectedGroups p) 0 (selectedGroups p) (0, False) in
      if playerCount p > 0 then
        let g = selectedGroups p ! kick;
            p' = p\<lparr>selectedGroups := take kick (selectedGroups p) @ drop (kick + 1) (selectedGroups p),
                   poolPlayers := to_u32 (poolPlayers p - group_size h g)\<rparr> in
        (\<not> group_size h g \<le> to_u32 (sz + 1), p')
      else (True, p))"

section \<open>Lemmas on the pool\<close>

text \<open>
  A pool is accounted for when its head count is the sum of the sizes of its groups; groups in a
  pool are never invited elsewhere.
\<close>

definition pool_sum :: "bg_heap \<Rightarrow> bg_ref list \<Rightarrow> int" where
  "pool_sum h gs = sum_list (map (group_size h) gs)"

definition pool_ok :: "bg_heap \<Rightarrow> bgSelectionPool \<Rightarrow> bool" where
  "pool_ok h p \<longleftrightarrow> poolPlayers p = pool_sum h (selectedGroups p) \<and>
     pool_sum h (selectedGroups p) < 2 ^ 31 \<and> (\<forall>g \<in> set (selectedGroups p). \<not> invited h g)"

lemma pool_sum_simps [simp]:
  "pool_sum h [] = 0" "pool_sum h (g # gs) = group_size h g + pool_sum h gs"
  "pool_sum h (gs @ gs') = pool_sum h gs + pool_sum h gs'"
  by (simp_all add: pool_sum_def)

lemma group_size_range [simp]: "0 \<le> group_size h g" "group_size h g < 4294967296"
  by (simp_all add: group_size_def)

lemma pool_sum_nonneg [simp]: "0 \<le> pool_sum h gs"
  by (induction gs) auto

lemma pool_ok_empty [simp]: "pool_ok h empty_pool"
  by (simp add: pool_ok_def empty_pool_def)

lemma kick_scan_bound:
  "i + length gs = length all \<Longrightarrow> fst st < length all \<Longrightarrow> fst (kick_scan h sz all i gs st) < length all"
  by (induction gs arbitrary: i st) (auto simp: Let_def split: prod.split)

lemma addGroup_ok:
  assumes "pool_ok h p" and "addGroup h g d p = (again, p')" and "d < 2 ^ 31" and "group_size h g < 2 ^ 31"
  shows "pool_ok h p'" and "selectedGroups p' = selectedGroups p \<or> selectedGroups p' = selectedGroups p @ [g]"
    and "playerCount p \<le> d \<Longrightarrow> playerCount p' \<le> d" and "playerCount p \<le> playerCount p'"
proof -
  have s: "0 \<le> poolPlayers p" "poolPlayers p < 2 ^ 31" using assms(1) by (auto simp: pool_ok_def)
  have pp: "poolPlayers p = pool_sum h (selectedGroups p)" using assms(1) by (simp add: pool_ok_def)
  from s assms(4) have u: "to_u32 (poolPlayers p + group_size h g) = poolPlayers p + group_size h g"
    using group_size_range(1) [of h g] by (intro to_u32_id) simp_all
  show "pool_ok h p'" "selectedGroups p' = selectedGroups p \<or> selectedGroups p' = selectedGroups p @ [g]"
    "playerCount p \<le> d \<Longrightarrow> playerCount p' \<le> d" "playerCount p \<le> playerCount p'"
    using assms(1-3) u [unfolded pp] by (auto simp: addGroup_def pool_ok_def playerCount_def split: if_splits)
qed

lemma pool_sum_remove:
  assumes "k < length gs"
  shows "pool_sum h (take k gs @ drop (k + 1) gs) = pool_sum h gs - group_size h (gs ! k)"
proof -
  have "pool_sum h gs = pool_sum h (take k gs @ gs ! k # drop (Suc k) gs)"
    using assms by (simp add: id_take_nth_drop [symmetric])
  then show ?thesis by simp
qed

lemma kickGroup_ok:
  assumes "pool_ok h p" and "kickGroup h sz p = (again, p')"
  shows "pool_ok h p'" and "playerCount p' \<le> playerCount p"
    and "playerCount p > 0 \<Longrightarrow> length (selectedGroups p') < length (selectedGroups p)"
    and "playerCount p \<le> 0 \<Longrightarrow> p' = p \<and> again"
    and "set (selectedGroups p') \<subseteq> set (selectedGroups p)"
    and "distinct (selectedGroups p) \<Longrightarrow> distinct (selectedGroups p')"
proof -
  define k where "k = fst (kick_scan h sz (selectedGroups p) 0 (selectedGroups p) (0, False))"
  let ?gs = "take k (selectedGroups p) @ drop (k + 1) (selectedGroups p)"
  have p': "p' = (if playerCount p > 0 then p\<lparr>selectedGroups := ?gs,
      poolPlayers := to_u32 (poolPlayers p - group_size h (selectedGroups p ! k))\<rparr> else p)"
    and again: "playerCount p \<le> 0 \<Longrightarrow> again"
    using assms(2) by (auto simp: kickGroup_def k_def Let_def split: prod.splits if_splits)
  have k: "k < length (selectedGroups p)" if "playerCount p > 0"
  proof -
    have "selectedGroups p \<noteq> []" using that assms(1) by (auto simp: pool_ok_def playerCount_def)
    then show ?thesis unfolding k_def by (intro kick_scan_bound) simp_all
  qed
  have sum: "poolPlayers p - group_size h (selectedGroups p ! k) = pool_sum h ?gs" if "playerCount p > 0"
    using pool_sum_remove [OF k [OF that], of h] assms(1) by (simp add: pool_ok_def)
  have le: "pool_sum h ?gs \<le> poolPlayers p" "poolPlayers p < 2 ^ 31" if "playerCount p > 0"
    unfolding sum [OF that, symmetric] using group_size_range(1) [of h "selectedGroups p ! k"] assms(1)
    by (simp_all add: pool_ok_def)
  have sub: "set ?gs \<subseteq> set (selectedGroups p)" by (auto dest: in_set_takeD in_set_dropD)
  have cnt: "to_u32 (poolPlayers p - group_size h (selectedGroups p ! k)) = pool_sum h ?gs"
    if "playerCount p > 0"
    unfolding sum [OF that] using le [OF that] pool_sum_nonneg [of h ?gs] by (intro to_u32_id) simp_all
  show "pool_ok h p'"
    using assms(1) cnt le sub by (auto simp: p' pool_ok_def)
  show "playerCount p' \<le> playerCount p"
    using cnt le by (auto simp: p' playerCount_def)
  show "playerCount p > 0 \<Longrightarrow> length (selectedGroups p') < length (selectedGroups p)"
    using k by (simp add: p')
  show "playerCount p \<le> 0 \<Longrightarrow> p' = p \<and> again"
    using again by (simp add: p')
  show "set (selectedGroups p') \<subseteq> set (selectedGroups p)"
    using sub by (simp add: p')
  show "distinct (selectedGroups p) \<Longrightarrow> distinct (selectedGroups p')"
    by (auto simp: p' dest: set_take_disj_set_drop_if_distinct [of _ k "Suc k"])
qed

end
