(* ===== verification/Bg_Matchmaker.thy ===== *)
theory Bg_Matchmaker
  imports Bg_Queue
begin

text \<open>
  \<^verbatim>\<open>engine/world/battleground_queue_matchmaker.go\<close>: the selection of groups for a battleground. A queue
  is the list of its group references in queue order; an index that only moves forward is the list of
  the groups it has not reached.
\<close>

section \<open>Filling a running battleground\<close>

definition bgAbsInt32 :: "int \<Rightarrow> int" where
  "bgAbsInt32 a = (if a < 0 then to_i32 (- a) else a)"

text \<open>A loop \<open>for ; i < len(q) && pool.addGroup(q[i], desired); i++\<close>.\<close>

primrec add_while :: "bg_heap \<Rightarrow> int \<Rightarrow> bg_ref list \<Rightarrow> bgSelectionPool \<Rightarrow> bgSelectionPool \<times> bg_ref list" where
  "add_while h desired [] p = (p, [])"
| "add_while h desired (g # gs) p =
     (case addGroup h g desired p of
        (True, p') \<Rightarrow> add_while h desired gs p'
      | (False, p') \<Rightarrow> (p', g # gs))"

definition even_slots :: "int \<Rightarrow> int \<Rightarrow> int \<Rightarrow> int \<Rightarrow> u8 \<Rightarrow> int \<times> int" where
  "even_slots aliFree hordeFree aliCount hordeCount invitationType =
     (if invitationType = bgQueueInvitationEven \<and> hordeFree = 1 \<and> aliFree = 1 then
        let hordeExtra = max 0 (to_i32 (to_i32 hordeCount - to_i32 aliCount));
            aliExtra = max 0 (to_i32 (to_i32 aliCount - to_i32 hordeCount)) in
        if aliCount \<noteq> hordeCount
        then (max 0 (to_i32 (aliFree - aliExtra)), max 0 (to_i32 (hordeFree - hordeExtra)))
        else (aliFree, hordeFree)
      else (aliFree, hordeFree))"

record fill_state =
  fsAli :: bgSelectionPool
  fsHorde :: bgSelectionPool
  fsAliRest :: "bg_ref list"
  fsHordeRest :: "bg_ref list"

definition diff_ali :: "int \<Rightarrow> fill_state \<Rightarrow> int" where
  "diff_ali aliFree s = to_i32 (aliFree - to_i32 (playerCount (fsAli s)))"

definition diff_horde :: "int \<Rightarrow> fill_state \<Rightarrow> int" where
  "diff_horde hordeFree s = to_i32 (hordeFree - to_i32 (playerCount (fsHorde s)))"

definition unbalanced :: "int \<Rightarrow> int \<Rightarrow> fill_state \<Rightarrow> bool" where
  "unbalanced aliFree hordeFree s \<longleftrightarrow>
     bgAbsInt32 (to_i32 (diff_ali aliFree s - diff_horde hordeFree s)) > 1 \<and>
     (playerCount (fsHorde s) > 0 \<or> playerCount (fsAli s) > 0)"

text \<open>
  One round of the loop; the flag tells that the loop is left by \<open>break\<close>. The two arms are mirror
  images, so one definition serves both: \<open>own\<close> is the side with less room, kicked first.
\<close>

definition kick_and_refill ::
    "bg_heap \<Rightarrow> int \<Rightarrow> int \<Rightarrow> int \<Rightarrow> bgSelectionPool \<Rightarrow> bg_ref list \<Rightarrow> bgSelectionPool \<times> bg_ref list" where
  "kick_and_refill h by ownFree otherDiff own rest =
     (case kickGroup h (to_u32 by) own of
        (True, own') \<Rightarrow> add_while h (if ownFree \<ge> otherDiff then to_u32 (ownFree - otherDiff) else 0) rest own'
      | (False, own') \<Rightarrow> (own', rest))"

definition fill_round :: "bg_heap \<Rightarrow> int \<Rightarrow> int \<Rightarrow> fill_state \<Rightarrow> fill_state \<times> bool" where
  "fill_round h aliFree hordeFree s =
     (let diffAli = diff_ali aliFree s; diffHorde = diff_horde hordeFree s in
      if diffAli < diffHorde then
        let by = to_i32 (diffHorde - diffAli);
            (ali, rest) = kick_and_refill h by aliFree diffHorde (fsAli s) (fsAliRest s);
            s' = s\<lparr>fsAli := ali, fsAliRest := rest\<rparr> in
        if playerCount ali = 0 then
          if aliFree \<le> to_i32 (diffHorde + 1) then (s', True)
          else (s'\<lparr>fsHorde := snd (kickGroup h (to_u32 by) (fsHorde s))\<rparr>, False)
        else (s', False)
      else
        let by = to_i32 (diffAli - diffHorde);
            (horde, rest) = kick_and_refill h by hordeFree diffAli (fsHorde s) (fsHordeRest s);
            s' = s\<lparr>fsHorde := horde, fsHordeRest := rest\<rparr> in
        if playerCount horde = 0 then
          if hordeFree \<le> to_i32 (diffAli + 1) then (s', True)
          else (s'\<lparr>fsAli := snd (kickGroup h (to_u32 by) (fsAli s))\<rparr>, False)
        else (s', False))"

lemma add_while_length: "add_while h d gs p = (p', rest) \<Longrightarrow> length rest \<le> length gs"
  by (induction gs arbitrary: p) (auto split: prod.splits bool.splits dest: le_SucI)

lemma add_while_stuck:
  "add_while h d gs p = (p', rest) \<Longrightarrow> length rest = length gs \<Longrightarrow>
     p' = p \<or> (gs \<noteq> [] \<and> p' = snd (addGroup h (hd gs) d p) \<and> \<not> fst (addGroup h (hd gs) d p))"
  by (cases gs) (auto split: prod.splits bool.splits dest: add_while_length)

lemma addGroup_False: "\<not> fst (addGroup h g d p) \<Longrightarrow> snd (addGroup h g d p) = p"
  by (auto simp: addGroup_def split: if_splits)

lemma add_while_same:
  "add_while h d gs p = (p', rest) \<Longrightarrow> length rest = length gs \<Longrightarrow> p' = p"
  using add_while_stuck addGroup_False by fastforce

text \<open>The loop, with fuel for its rounds; \<open>fill_size\<close> bounds them.\<close>

primrec fill_loop :: "nat \<Rightarrow> bg_heap \<Rightarrow> int \<Rightarrow> int \<Rightarrow> fill_state \<Rightarrow> fill_state option" where
  "fill_loop 0 h aliFree hordeFree s = None"
| "fill_loop (Suc fuel) h aliFree hordeFree s =
     (if \<not> unbalanced aliFree hordeFree s then Some s
      else case fill_round h aliFree hordeFree s of
        (s', True) \<Rightarrow> Some s'
      | (s', False) \<Rightarrow> fill_loop fuel h aliFree hordeFree s')"

definition fill_size :: "fill_state \<Rightarrow> nat" where
  "fill_size s = 2 * length (fsAliRest s) + length (selectedGroups (fsAli s)) +
     (2 * length (fsHordeRest s) + length (selectedGroups (fsHorde s)))"

definition fill_start :: "bg_heap \<Rightarrow> int \<Rightarrow> int \<Rightarrow> bg_ref list \<Rightarrow> bg_ref list \<Rightarrow> fill_state" where
  "fill_start h aliFree hordeFree aliGroups hordeGroups =
     (let (ali, aliRest) = add_while h (to_u32 aliFree) aliGroups empty_pool;
          (horde, hordeRest) = add_while h (to_u32 hordeFree) hordeGroups empty_pool in
      \<lparr>fsAli = ali, fsHorde = horde, fsAliRest = aliRest, fsHordeRest = hordeRest\<rparr>)"

definition fillPlayersToBG ::
    "bg_heap \<Rightarrow> int \<Rightarrow> int \<Rightarrow> bg_ref list \<Rightarrow> bg_ref list \<Rightarrow> u8 \<Rightarrow> bgSelectionPool \<times> bgSelectionPool" where
  "fillPlayersToBG h aliFree hordeFree aliGroups hordeGroups invitationType =
     (let (aliFree, hordeFree) = even_slots aliFree hordeFree (to_u32 (int (length aliGroups)))
            (to_u32 (int (length hordeGroups))) invitationType;
          s = fill_start h aliFree hordeFree aliGroups hordeGroups in
      if invitationType = bgQueueInvitationNoBalance then (fsAli s, fsHorde s)
      else let s' = the (fill_loop (Suc (fill_size s)) h aliFree hordeFree s) in (fsAli s', fsHorde s'))"

section \<open>The filling loop keeps the pools in bounds\<close>

definition side_ok :: "bg_heap \<Rightarrow> bg_ref list \<Rightarrow> int \<Rightarrow> bgSelectionPool \<Rightarrow> bg_ref list \<Rightarrow> bool" where
  "side_ok h queue free p rest \<longleftrightarrow> pool_ok h p \<and> playerCount p \<le> free \<and>
     distinct (selectedGroups p @ rest) \<and> set (selectedGroups p @ rest) \<subseteq> set queue"

definition sizes_ok :: "bg_heap \<Rightarrow> bg_ref list \<Rightarrow> bool" where
  "sizes_ok h gs \<longleftrightarrow> (\<forall>g \<in> set gs. group_size h g < 2 ^ 31)"

lemma side_ok_nonneg: "side_ok h q f p rest \<Longrightarrow> 0 \<le> playerCount p"
  by (simp add: side_ok_def pool_ok_def playerCount_def)

lemma add_while_side:
  assumes "sizes_ok h q" and "d \<le> f" and "f < 2 ^ 31"
  shows "add_while h d gs p = (p', rest) \<Longrightarrow> side_ok h q f p gs \<Longrightarrow>
     side_ok h q f p' rest \<and> length (selectedGroups p') + length rest \<le> length (selectedGroups p) + length gs"
proof (induction gs arbitrary: p)
  case (Cons g gs)
  obtain again p1 where a: "addGroup h g d p = (again, p1)" by fastforce
  have g: "group_size h g < 2 ^ 31" "d < 2 ^ 31" "pool_ok h p"
    using Cons.prems(2) assms by (auto simp: side_ok_def sizes_ok_def)
  note ok = addGroup_ok [OF g(3) a g(2,1)]
  have le: "playerCount p1 \<le> f"
    using a Cons.prems(2) assms(2) ok(3) by (auto simp: addGroup_def side_ok_def playerCount_def split: if_splits)
  show ?case
  proof (cases again)
    case True
    have "side_ok h q f p1 gs"
      using ok(1,2) le Cons.prems(2) by (auto simp: side_ok_def)
    moreover have "add_while h d gs p1 = (p', rest)" using Cons.prems(1) a True by simp
    ultimately show ?thesis using Cons.IH [of p1] ok(2) by auto
  next
    case False
    then have "p1 = p" using addGroup_False [of h g d p] a by simp
    then show ?thesis using Cons.prems a False by simp
  qed
qed simp

lemma kick_side:
  assumes "side_ok h q f p rest" and "kickGroup h sz p = (again, p')"
  shows "side_ok h q f p' rest"
  using kickGroup_ok [OF _ assms(2)] assms(1) by (fastforce simp: side_ok_def)

lemma kick_and_refill_side:
  assumes "sizes_ok h q" and "f < 2 ^ 31" and "side_ok h q f p rest" and "0 \<le> other" "other \<le> f'" "f' < 2 ^ 31"
    and "kick_and_refill h by f other p rest = (p', rest')"
  shows "side_ok h q f p' rest'"
    and "2 * length rest' + length (selectedGroups p') \<le> 2 * length rest + length (selectedGroups p)"
    and "2 * length rest' + length (selectedGroups p') < 2 * length rest + length (selectedGroups p) \<or>
         playerCount p' = 0 \<and> playerCount p = 0"
proof -
  obtain again p1 where k: "kickGroup h (to_u32 by) p = (again, p1)" by fastforce
  have ok: "pool_ok h p" using assms(3) by (simp add: side_ok_def)
  note kick = kickGroup_ok [OF ok k]
  have s1: "side_ok h q f p1 rest" by (rule kick_side [OF assms(3) k])
  have nn: "0 \<le> playerCount p" by (rule side_ok_nonneg [OF assms(3)])
  let ?d = "if f \<ge> other then to_u32 (f - other) else 0"
  have d: "?d \<le> f" using assms(2,4) side_ok_nonneg [OF assms(3)] assms(3)
    by (auto simp: side_ok_def)
  have sel: "length (selectedGroups p1) \<le> length (selectedGroups p)"
    "playerCount p > 0 \<Longrightarrow> length (selectedGroups p1) < length (selectedGroups p)"
    using kick(3,4) by (cases "playerCount p > 0"; auto)+
  have r: "again \<Longrightarrow> add_while h ?d rest p1 = (p', rest')" "\<not> again \<Longrightarrow> p' = p1 \<and> rest' = rest"
    using assms(7) k by (auto simp: kick_and_refill_def)
  have "side_ok h q f p' rest' \<and> 2 * length rest' + length (selectedGroups p') \<le> 2 * length rest + length (selectedGroups p) \<and>
      (2 * length rest' + length (selectedGroups p') < 2 * length rest + length (selectedGroups p) \<or>
         playerCount p' = 0 \<and> playerCount p = 0)"
  proof (cases again)
    case True
    note add = add_while_side [OF assms(1) d assms(2) r(1) [OF True] s1]
    have len: "length rest' \<le> length rest" by (rule add_while_length [OF r(1) [OF True]])
    have same: "p' = p1" if "length rest' = length rest"
      by (rule add_while_same [OF r(1) [OF True] that])
    have "p' = p" if "length rest' = length rest" "\<not> playerCount p > 0"
      using same that kick(4) by simp
    then show ?thesis
      using add len sel nn same by (cases "length rest' = length rest"; cases "playerCount p > 0"; force)
  next
    case False
    then have "playerCount p > 0" using kick(4) by force
    then show ?thesis using r(2) [OF False] s1 sel by simp
  qed
  then show "side_ok h q f p' rest'"
    and "2 * length rest' + length (selectedGroups p') \<le> 2 * length rest + length (selectedGroups p)"
    and "2 * length rest' + length (selectedGroups p') < 2 * length rest + length (selectedGroups p) \<or>
         playerCount p' = 0 \<and> playerCount p = 0" by blast+
qed

definition fill_inv :: "bg_heap \<Rightarrow> bg_ref list \<Rightarrow> bg_ref list \<Rightarrow> int \<Rightarrow> int \<Rightarrow> fill_state \<Rightarrow> bool" where
  "fill_inv h qa qh aliFree hordeFree s \<longleftrightarrow> sizes_ok h qa \<and> sizes_ok h qh \<and>
     0 \<le> aliFree \<and> aliFree < 2 ^ 30 \<and> 0 \<le> hordeFree \<and> hordeFree < 2 ^ 30 \<and>
     side_ok h qa aliFree (fsAli s) (fsAliRest s) \<and> side_ok h qh hordeFree (fsHorde s) (fsHordeRest s)"

lemma fill_diffs:
  assumes "fill_inv h qa qh aliFree hordeFree s"
  shows "diff_ali aliFree s = aliFree - playerCount (fsAli s)"
    and "diff_horde hordeFree s = hordeFree - playerCount (fsHorde s)"
    and "0 \<le> playerCount (fsAli s)" "playerCount (fsAli s) \<le> aliFree"
    and "0 \<le> playerCount (fsHorde s)" "playerCount (fsHorde s) \<le> hordeFree"
proof -
  have r: "0 \<le> playerCount (fsAli s)" "playerCount (fsAli s) \<le> aliFree" "aliFree < 2 ^ 30"
    "0 \<le> playerCount (fsHorde s)" "playerCount (fsHorde s) \<le> hordeFree" "hordeFree < 2 ^ 30"
    using assms side_ok_nonneg by (auto simp: fill_inv_def side_ok_def)
  then show "diff_ali aliFree s = aliFree - playerCount (fsAli s)"
    "diff_horde hordeFree s = hordeFree - playerCount (fsHorde s)"
    by (simp_all add: diff_ali_def diff_horde_def)
  from r show "0 \<le> playerCount (fsAli s)" "playerCount (fsAli s) \<le> aliFree"
    "0 \<le> playerCount (fsHorde s)" "playerCount (fsHorde s) \<le> hordeFree" by simp_all
qed

text \<open>What the loop leaves: near balance, or one side empty with no room to even it out.\<close>

definition settled :: "int \<Rightarrow> int \<Rightarrow> int \<Rightarrow> int \<Rightarrow> bool" where
  "settled aliFree hordeFree a b \<longleftrightarrow>
     \<bar>(aliFree - a) - (hordeFree - b)\<bar> \<le> 1 \<or>
     a = 0 \<and> aliFree \<le> hordeFree - b + 1 \<or> b = 0 \<and> hordeFree \<le> aliFree - a + 1"

lemma fill_round_inv:
  assumes inv: "fill_inv h qa qh aliFree hordeFree s" and un: "unbalanced aliFree hordeFree s"
    and round: "fill_round h aliFree hordeFree s = (s', broke)"
  shows "fill_inv h qa qh aliFree hordeFree s'"
    and "\<not> broke \<Longrightarrow> fill_size s' < fill_size s"
    and "broke \<Longrightarrow> settled aliFree hordeFree (playerCount (fsAli s')) (playerCount (fsHorde s'))"
proof -
  note d = fill_diffs [OF inv]
  have r: "sizes_ok h qa" "sizes_ok h qh" "0 \<le> aliFree" "aliFree < 2 ^ 31" "0 \<le> hordeFree" "hordeFree < 2 ^ 31"
    "aliFree < 2 ^ 30" "hordeFree < 2 ^ 30"
    "side_ok h qa aliFree (fsAli s) (fsAliRest s)" "side_ok h qh hordeFree (fsHorde s) (fsHordeRest s)"
    using inv by (simp_all add: fill_inv_def)
  have pos: "playerCount (fsHorde s) > 0 \<or> playerCount (fsAli s) > 0" using un by (simp add: unbalanced_def)
  have "fill_inv h qa qh aliFree hordeFree s' \<and> (\<not> broke \<longrightarrow> fill_size s' < fill_size s) \<and>
      (broke \<longrightarrow> settled aliFree hordeFree (playerCount (fsAli s')) (playerCount (fsHorde s')))"
  proof (cases "diff_ali aliFree s < diff_horde hordeFree s")
    case True
    let ?by = "to_i32 (diff_horde hordeFree s - diff_ali aliFree s)"
    obtain p' rest' where k: "kick_and_refill h ?by aliFree (diff_horde hordeFree s) (fsAli s) (fsAliRest s) = (p', rest')"
      by fastforce
    have o: "0 \<le> diff_horde hordeFree s" "diff_horde hordeFree s \<le> hordeFree" using d by simp_all
    note kr = kick_and_refill_side [OF r(1,4,9) o r(6) k]
    obtain again ph where kh: "kickGroup h (to_u32 ?by) (fsHorde s) = (again, ph)" by fastforce
    have hs: "side_ok h qh hordeFree ph (fsHordeRest s)" by (rule kick_side [OF r(10) kh])
    have hk: "playerCount (fsHorde s) > 0 \<Longrightarrow> length (selectedGroups ph) < length (selectedGroups (fsHorde s))"
      "length (selectedGroups ph) \<le> length (selectedGroups (fsHorde s))"
      using kickGroup_ok(3,4) [OF _ kh] r(10) by (force simp: side_ok_def)+
    have i: "to_i32 (diff_horde hordeFree s + 1) = hordeFree - playerCount (fsHorde s) + 1"
      unfolding d(2) using d r by (intro to_i32_id) simp_all
    show ?thesis
    proof -
      let ?s = "s\<lparr>fsAli := p', fsAliRest := rest'\<rparr>"
      have eq: "fill_round h aliFree hordeFree s =
          (if playerCount p' = 0 then if aliFree \<le> hordeFree - playerCount (fsHorde s) + 1 then (?s, True)
             else (?s\<lparr>fsHorde := ph\<rparr>, False) else (?s, False))"
        by (simp only: fill_round_def Let_def if_P [OF True] k prod.case kh snd_conv i)
      show ?thesis
        using round kr r hs hk pos d unfolding eq
        by (auto simp: fill_inv_def fill_size_def settled_def split: if_splits)
    qed
  next
    case False
    let ?by = "to_i32 (diff_ali aliFree s - diff_horde hordeFree s)"
    obtain p' rest' where k: "kick_and_refill h ?by hordeFree (diff_ali aliFree s) (fsHorde s) (fsHordeRest s) = (p', rest')"
      by fastforce
    have o: "0 \<le> diff_ali aliFree s" "diff_ali aliFree s \<le> aliFree" using d by simp_all
    note kr = kick_and_refill_side [OF r(2,6,10) o r(4) k]
    obtain again pa where ka: "kickGroup h (to_u32 ?by) (fsAli s) = (again, pa)" by fastforce
    have as: "side_ok h qa aliFree pa (fsAliRest s)" by (rule kick_side [OF r(9) ka])
    have ak: "playerCount (fsAli s) > 0 \<Longrightarrow> length (selectedGroups pa) < length (selectedGroups (fsAli s))"
      "length (selectedGroups pa) \<le> length (selectedGroups (fsAli s))"
      using kickGroup_ok(3,4) [OF _ ka] r(9) by (force simp: side_ok_def)+
    have i: "to_i32 (diff_ali aliFree s + 1) = aliFree - playerCount (fsAli s) + 1"
      unfolding d(1) using d r by (intro to_i32_id) simp_all
    show ?thesis
    proof -
      let ?s = "s\<lparr>fsHorde := p', fsHordeRest := rest'\<rparr>"
      have eq: "fill_round h aliFree hordeFree s =
          (if playerCount p' = 0 then if hordeFree \<le> aliFree - playerCount (fsAli s) + 1 then (?s, True)
             else (?s\<lparr>fsAli := pa\<rparr>, False) else (?s, False))"
        by (simp only: fill_round_def Let_def if_not_P [OF False] k prod.case ka snd_conv i)
      show ?thesis
        using round kr r as ak pos d unfolding eq
        by (auto simp: fill_inv_def fill_size_def settled_def split: if_splits)
    qed
  qed
  then show "fill_inv h qa qh aliFree hordeFree s'"
    and "\<not> broke \<Longrightarrow> fill_size s' < fill_size s"
    and "broke \<Longrightarrow> settled aliFree hordeFree (playerCount (fsAli s')) (playerCount (fsHorde s'))" by blast+
qed

lemma not_unbalanced_settled:
  assumes inv: "fill_inv h qa qh aliFree hordeFree s" and "\<not> unbalanced aliFree hordeFree s"
  shows "settled aliFree hordeFree (playerCount (fsAli s)) (playerCount (fsHorde s))"
proof -
  note d = fill_diffs [OF inv]
  have r: "0 \<le> aliFree" "aliFree < 2 ^ 30" "0 \<le> hordeFree" "hordeFree < 2 ^ 30"
    using inv by (simp_all add: fill_inv_def)
  have "to_i32 (diff_ali aliFree s - diff_horde hordeFree s) = diff_ali aliFree s - diff_horde hordeFree s"
    using d r by (intro to_i32_id) simp_all
  moreover have "bgAbsInt32 x = \<bar>x\<bar>" if "- 1073741824 < x" "x < 1073741824" for x
    using that by (simp add: bgAbsInt32_def)
  ultimately have "bgAbsInt32 (to_i32 (diff_ali aliFree s - diff_horde hordeFree s)) =
      \<bar>(aliFree - playerCount (fsAli s)) - (hordeFree - playerCount (fsHorde s))\<bar>"
    using d r by simp
  with assms(2) d show ?thesis by (auto simp: unbalanced_def settled_def)
qed

lemma fill_loop_correct:
  "fill_inv h qa qh aliFree hordeFree s \<Longrightarrow> fill_size s < fuel \<Longrightarrow>
     \<exists>s'. fill_loop fuel h aliFree hordeFree s = Some s' \<and> fill_inv h qa qh aliFree hordeFree s' \<and>
       settled aliFree hordeFree (playerCount (fsAli s')) (playerCount (fsHorde s'))"
proof (induction fuel arbitrary: s)
  case (Suc fuel)
  show ?case
  proof (cases "unbalanced aliFree hordeFree s")
    case False
    then show ?thesis using Suc.prems not_unbalanced_settled by auto
  next
    case True
    obtain s1 broke where r: "fill_round h aliFree hordeFree s = (s1, broke)" by fastforce
    note ri = fill_round_inv [OF Suc.prems(1) True r]
    show ?thesis
    proof (cases broke)
      case True
      then show ?thesis using r ri \<open>unbalanced aliFree hordeFree s\<close> by simp
    next
      case False
      with ri Suc.prems have "fill_size s1 < fuel" by simp
      from Suc.IH [OF ri(1) this] False r \<open>unbalanced aliFree hordeFree s\<close> show ?thesis by simp
    qed
  qed
qed simp

lemma fill_start_inv:
  assumes "sizes_ok h qa" "sizes_ok h qh" "distinct qa" "distinct qh"
    and "0 \<le> aliFree" "aliFree < 2 ^ 30" "0 \<le> hordeFree" "hordeFree < 2 ^ 30"
  shows "fill_inv h qa qh aliFree hordeFree (fill_start h aliFree hordeFree qa qh)"
proof -
  obtain pa ra where a: "add_while h (to_u32 aliFree) qa empty_pool = (pa, ra)" by fastforce
  obtain ph rh where b: "add_while h (to_u32 hordeFree) qh empty_pool = (ph, rh)" by fastforce
  have "to_u32 aliFree = aliFree" "to_u32 hordeFree = hordeFree" using assms(5-8) by simp_all
  moreover have "side_ok h qa aliFree empty_pool qa" "side_ok h qh hordeFree empty_pool qh"
    using assms by (simp_all add: side_ok_def) (simp_all add: empty_pool_def playerCount_def)
  ultimately have "side_ok h qa aliFree pa ra" "side_ok h qh hordeFree ph rh"
    using add_while_side [OF assms(1), of aliFree aliFree qa empty_pool pa ra]
      add_while_side [OF assms(2), of hordeFree hordeFree qh empty_pool ph rh] assms(6,8) a b by simp_all
  moreover have "fill_start h aliFree hordeFree qa qh =
      \<lparr>fsAli = pa, fsHorde = ph, fsAliRest = ra, fsHordeRest = rh\<rparr>"
    unfolding fill_start_def a b by simp
  ultimately show ?thesis using assms by (simp add: fill_inv_def)
qed

lemma even_slots_range:
  assumes "0 \<le> aliFree" "aliFree < 2 ^ 30" "0 \<le> hordeFree" "hordeFree < 2 ^ 30"
    and "even_slots aliFree hordeFree ac hc t = (af, hf)"
  shows "0 \<le> af" "af \<le> aliFree" "0 \<le> hf" "hf \<le> hordeFree"
proof -
  have m: "max 0 (to_i32 (1 - max 0 (to_i32 x))) \<le> 1" "0 \<le> max 0 (to_i32 (1 - max 0 (to_i32 x)))" for x
  proof -
    have "to_i32 (1 - max 0 (to_i32 x)) = 1 - max 0 (to_i32 x)"
      using to_i32_range [of x] by (intro to_i32_id) linarith+
    then show "max 0 (to_i32 (1 - max 0 (to_i32 x))) \<le> 1" by simp
  qed simp
  show "0 \<le> af" "af \<le> aliFree" "0 \<le> hf" "hf \<le> hordeFree"
    using assms m by (auto simp: even_slots_def Let_def split: if_splits)
qed

definition fits :: "bg_heap \<Rightarrow> bg_ref list \<Rightarrow> int \<Rightarrow> bgSelectionPool \<Rightarrow> bool" where
  "fits h queue room p \<longleftrightarrow> distinct (selectedGroups p) \<and> set (selectedGroups p) \<subseteq> set queue \<and>
     (\<forall>g \<in> set (selectedGroups p). \<not> invited h g) \<and>
     playerCount p = pool_sum h (selectedGroups p) \<and> playerCount p \<le> room"

lemma side_ok_fits: "side_ok h q room p rest \<Longrightarrow> fits h q room p"
  by (auto simp: side_ok_def fits_def pool_ok_def playerCount_def)

text \<open>
  C40: Filling a running battleground ends and never overbooks it. Each side's pool holds uninvited
  groups of its own queue, none twice, counts their players exactly, and fits into the free slots. Unless
  the balance is switched off, the free slots left on both sides differ by at most one, or a side is
  empty because the other has no room to even out.
\<close>

theorem fillPlayersToBG_balanced:
  assumes "sizes_ok h aliGroups" "sizes_ok h hordeGroups" "distinct aliGroups" "distinct hordeGroups"
    and "0 \<le> aliFree" "aliFree < 2 ^ 30" "0 \<le> hordeFree" "hordeFree < 2 ^ 30"
    and "fillPlayersToBG h aliFree hordeFree aliGroups hordeGroups invitationType = (ali, horde)"
  shows "fits h aliGroups aliFree ali \<and> fits h hordeGroups hordeFree horde \<and>
    (invitationType \<noteq> bgQueueInvitationNoBalance \<longrightarrow>
       (\<exists>af hf. even_slots aliFree hordeFree (to_u32 (int (length aliGroups)))
            (to_u32 (int (length hordeGroups))) invitationType = (af, hf) \<and>
          settled af hf (playerCount ali) (playerCount horde)))"
proof -
  obtain af hf where e: "even_slots aliFree hordeFree (to_u32 (int (length aliGroups)))
      (to_u32 (int (length hordeGroups))) invitationType = (af, hf)" by fastforce
  note er = even_slots_range [OF assms(5-8) e]
  let ?s = "fill_start h af hf aliGroups hordeGroups"
  have inv: "fill_inv h aliGroups hordeGroups af hf ?s"
    using assms(6,8) er by (intro fill_start_inv assms(1-4)) simp_all
  obtain s' where s': "fill_loop (Suc (fill_size ?s)) h af hf ?s = Some s'"
    "fill_inv h aliGroups hordeGroups af hf s'" "settled af hf (playerCount (fsAli s')) (playerCount (fsHorde s'))"
    using fill_loop_correct [OF inv, of "Suc (fill_size ?s)"] by blast
  have res: "(ali, horde) = (if invitationType = 0 then (fsAli ?s, fsHorde ?s) else (fsAli s', fsHorde s'))"
    unfolding assms(9) [symmetric]
    by (simp only: fillPlayersToBG_def e prod.case Let_def s'(1) option.sel)
  have fit: "fits h aliGroups aliFree (fsAli t) \<and> fits h hordeGroups hordeFree (fsHorde t)"
    if "fill_inv h aliGroups hordeGroups af hf t" for t
    using that er side_ok_fits by (auto simp: fill_inv_def fits_def dest!: side_ok_fits)
  show ?thesis using res fit [OF inv] fit [OF s'(2)] s'(3) e by (auto split: if_splits)
qed

definition party :: "u32 \<Rightarrow> u64 list \<Rightarrow> bgGroupQueueInfo" where
  "party team guids = newBGGroupQueueInfo 0 1000 2 0 0 False 0 0 0 team guids"

definition bg_demo :: bg_heap where
  "bg_demo g = (if g = 0 then party teamAlliance [1, 2, 3] else if g = 1 then party teamAlliance [4]
     else if g = 2 then party teamHorde [5, 6] else party teamHorde [7])"

lemma bg_demo_size [simp]:
  "group_size bg_demo 0 = 3" "group_size bg_demo (Suc 0) = 1" "group_size bg_demo 2 = 2"
  "group_size bg_demo 3 = 1"
  by (simp_all add: bg_demo_def group_size_def party_def newBGGroupQueueInfo_def gput_def)

theorem fillPlayersToBG_balanced_witness:
  "fits bg_demo [0, 1] 5 (fst (fillPlayersToBG bg_demo 5 4 [0, 1] [2, 3] bgQueueInvitationBalanced))"
proof -
  obtain a b where r: "fillPlayersToBG bg_demo 5 4 [0, 1] [2, 3] bgQueueInvitationBalanced = (a, b)"
    by fastforce
  have "sizes_ok bg_demo [0, 1]" "sizes_ok bg_demo [2, 3]" by (simp_all add: sizes_ok_def)
  from fillPlayersToBG_balanced [OF this _ _ _ _ _ _ r] have "fits bg_demo [0, 1] 5 a" by simp
  then show ?thesis unfolding r fst_conv .
qed

section \<open>Starting a battleground\<close>

text \<open>
  The first loop of \<open>checkNormalMatch\<close> for one side: uninvited groups are offered to the pool until it
  holds the minimum. On \<open>break\<close> the index stays on the group reached; the next loop steps over it.
\<close>

primrec pick_until :: "bg_heap \<Rightarrow> int \<Rightarrow> int \<Rightarrow> bg_ref list \<Rightarrow> bgSelectionPool \<Rightarrow> bgSelectionPool \<times> bg_ref list" where
  "pick_until h minPlayers maxPlayers [] p = (p, [])"
| "pick_until h minPlayers maxPlayers (g # gs) p =
     (if \<not> invited h g then
        let p' = snd (addGroup h g maxPlayers p) in
        if playerCount p' \<ge> minPlayers then (p', g # gs) else pick_until h minPlayers maxPlayers gs p'
      else pick_until h minPlayers maxPlayers gs p)"

text \<open>A loop over a queue that offers uninvited groups and stops when one is refused.\<close>

primrec top_up :: "bg_heap \<Rightarrow> int \<Rightarrow> bg_ref list \<Rightarrow> bgSelectionPool \<Rightarrow> bgSelectionPool" where
  "top_up h desired [] p = p"
| "top_up h desired (g # gs) p =
     (if \<not> invited h g then
        (case addGroup h g desired p of (True, p') \<Rightarrow> top_up h desired gs p' | (False, p') \<Rightarrow> p')
      else top_up h desired gs p)"

definition checkNormalMatch ::
    "bg_heap \<Rightarrow> bg_ref list \<Rightarrow> bg_ref list \<Rightarrow> int \<Rightarrow> int \<Rightarrow> u8 \<Rightarrow> bool \<Rightarrow> bool \<Rightarrow>
     (bgSelectionPool \<times> bgSelectionPool) \<times> bool" where
  "checkNormalMatch h aliGroups hordeGroups minPlayers maxPlayers invitationType testing isBattleground =
     (let (ali, aliRest) = pick_until h minPlayers maxPlayers aliGroups empty_pool;
          (horde, hordeRest) = pick_until h minPlayers maxPlayers hordeGroups empty_pool;
          balance = (invitationType \<noteq> bgQueueInvitationNoBalance \<and>
                     playerCount horde \<ge> minPlayers \<and> playerCount ali \<ge> minPlayers);
          (ali', horde') =
            (if balance then
               if playerCount horde < playerCount ali
               then (ali, top_up h (playerCount ali) (drop 1 hordeRest) horde)
               else (top_up h (playerCount horde) (drop 1 aliRest) ali, horde)
             else (ali, horde)) in
      if balance \<and> bgAbsDiff (playerCount horde') (playerCount ali') > 2 then ((ali', horde'), False)
      else if testing \<and> isBattleground \<and> (playerCount ali' > 0 \<or> playerCount horde' > 0)
      then ((ali', horde'), True)
      else ((ali', horde'), playerCount ali' \<ge> minPlayers \<and> playerCount horde' \<ge> minPlayers))"

lemma pick_until_side:
  assumes "sizes_ok h q" and "mx < 2 ^ 31"
  shows "pick_until h mn mx gs p = (p', rest) \<Longrightarrow> side_ok h q mx p gs \<Longrightarrow>
     side_ok h q mx p' (drop 1 rest)"
proof (induction gs arbitrary: p)
  case Nil
  then show ?case by (auto simp: side_ok_def)
next
  case (Cons g gs)
  let ?a = "addGroup h g mx p"
  have g: "group_size h g < 2 ^ 31" "pool_ok h p"
    using Cons.prems(2) assms by (auto simp: side_ok_def sizes_ok_def)
  note ok = addGroup_ok [OF g(2) surjective_pairing assms(2) g(1)]
  have s: "side_ok h q mx (snd ?a) gs"
    using ok(1-3) Cons.prems(2) by (auto simp: side_ok_def)
  have skip: "side_ok h q mx p gs" using Cons.prems(2) by (auto simp: side_ok_def)
  show ?case
    using Cons.prems(1) Cons.IH [OF _ s] Cons.IH [OF _ skip] s by (auto simp: Let_def split: if_splits)
qed

lemma top_up_side:
  assumes "sizes_ok h q" and "d < 2 ^ 31" and "d \<le> room"
  shows "side_ok h q room p gs \<Longrightarrow> side_ok h q room (top_up h d gs p) [] \<and>
     playerCount p \<le> playerCount (top_up h d gs p) \<and>
     (playerCount p \<le> d \<longrightarrow> playerCount (top_up h d gs p) \<le> d)"
proof (induction gs arbitrary: p)
  case Nil
  then show ?case by (auto simp: side_ok_def)
next
  case (Cons g gs)
  have skip: "side_ok h q room p gs" using Cons.prems by (auto simp: side_ok_def)
  show ?case
  proof (cases "invited h g")
    case True
    then show ?thesis using Cons.IH [OF skip] by simp
  next
    case False
    obtain again p1 where a: "addGroup h g d p = (again, p1)" by fastforce
    have g: "group_size h g < 2 ^ 31" "pool_ok h p" using Cons.prems assms by (auto simp: side_ok_def sizes_ok_def)
    note ok = addGroup_ok [OF g(2) a assms(2) g(1)]
    have le: "playerCount p1 \<le> room"
      using a Cons.prems assms(3) by (auto simp: addGroup_def side_ok_def playerCount_def split: if_splits)
    have "side_ok h q room p1 gs" using ok(1,2) le Cons.prems by (auto simp: side_ok_def)
    note IH = Cons.IH [OF this]
    show ?thesis
    proof (cases again)
      case True
      then show ?thesis using IH ok(3,4) a False by auto
    next
      case stop: False
      then have "p1 = p" using addGroup_False [of h g d p] a by simp
      then show ?thesis using a False stop skip by (auto simp: side_ok_def)
    qed
  qed
qed

text \<open>
  A normal match that is accepted (outside testing) is fair: both sides hold at least the minimum
  and at most the maximum number of players, made of uninvited groups of their own queue, and with the
  balance on they differ by at most two players.
\<close>

theorem checkNormalMatch_fair:
  assumes "sizes_ok h aliGroups" "sizes_ok h hordeGroups" "distinct aliGroups" "distinct hordeGroups"
    and "0 \<le> maxPlayers" "maxPlayers < 2 ^ 31"
    and "checkNormalMatch h aliGroups hordeGroups minPlayers maxPlayers invitationType testing isBattleground =
         ((ali, horde), ok)"
  shows "fits h aliGroups maxPlayers ali \<and> fits h hordeGroups maxPlayers horde \<and>
    (ok \<and> \<not> (testing \<and> isBattleground) \<longrightarrow> minPlayers \<le> playerCount ali \<and> minPlayers \<le> playerCount horde) \<and>
    (ok \<and> \<not> (testing \<and> isBattleground) \<and> invitationType \<noteq> bgQueueInvitationNoBalance \<longrightarrow>
       \<bar>playerCount ali - playerCount horde\<bar> \<le> 2)"
proof -
  obtain a ra where a: "pick_until h minPlayers maxPlayers aliGroups empty_pool = (a, ra)" by fastforce
  obtain b rb where b: "pick_until h minPlayers maxPlayers hordeGroups empty_pool = (b, rb)" by fastforce
  have "side_ok h aliGroups maxPlayers empty_pool aliGroups" "side_ok h hordeGroups maxPlayers empty_pool hordeGroups"
    using assms by (simp_all add: side_ok_def) (simp_all add: empty_pool_def playerCount_def)
  then have sa: "side_ok h aliGroups maxPlayers a (drop 1 ra)" and sb: "side_ok h hordeGroups maxPlayers b (drop 1 rb)"
    using pick_until_side [OF assms(1,6) a] pick_until_side [OF assms(2,6) b] by blast+
  define bal where "bal \<longleftrightarrow> invitationType \<noteq> 0 \<and> playerCount b \<ge> minPlayers \<and> playerCount a \<ge> minPlayers"
  define a' where "a' = (if bal \<and> \<not> playerCount b < playerCount a then top_up h (playerCount b) (drop 1 ra) a else a)"
  define b' where "b' = (if bal \<and> playerCount b < playerCount a then top_up h (playerCount a) (drop 1 rb) b else b)"
  have ab: "playerCount a \<le> maxPlayers" "playerCount b \<le> maxPlayers" "0 \<le> playerCount a" "0 \<le> playerCount b"
    using sa sb side_ok_nonneg by (auto simp: side_ok_def)
  have d: "playerCount a < 2 ^ 31" "playerCount b < 2 ^ 31" using ab assms(6) by simp_all
  note ta = top_up_side [OF assms(1) d(2) ab(2) sa] and tb = top_up_side [OF assms(2) d(1) ab(1) sb]
  have mono: "playerCount a \<le> playerCount a'" "playerCount b \<le> playerCount b'"
    using ta tb by (auto simp: a'_def b'_def)
  have fa: "fits h aliGroups maxPlayers a'" and fb: "fits h hordeGroups maxPlayers b'"
    using sa sb ta tb by (auto simp: a'_def b'_def intro: side_ok_fits)
  have r: "0 \<le> playerCount a'" "playerCount a' < 2 ^ 31" "0 \<le> playerCount b'" "playerCount b' < 2 ^ 31"
    using mono ab fa fb assms(6) by (auto simp: fits_def)
  have diff: "bgAbsDiff (playerCount b') (playerCount a') = \<bar>playerCount a' - playerCount b'\<bar>"
    using r by (auto simp: bgAbsDiff_def)
  have "((ali, horde), ok) = (if bal \<and> bgAbsDiff (playerCount b') (playerCount a') > 2 then ((a', b'), False)
      else if testing \<and> isBattleground \<and> (playerCount a' > 0 \<or> playerCount b' > 0) then ((a', b'), True)
      else ((a', b'), playerCount a' \<ge> minPlayers \<and> playerCount b' \<ge> minPlayers))"
    unfolding assms(7) [symmetric] checkNormalMatch_def a b prod.case Let_def bal_def [symmetric]
    by (cases bal; cases "playerCount b < playerCount a") (auto simp: a'_def b'_def)
  moreover have "\<not> bal \<Longrightarrow> a' = a \<and> b' = b" by (simp add: a'_def b'_def)
  ultimately show ?thesis
    using fa fb diff mono unfolding bal_def by (auto split: if_splits)
qed

theorem checkNormalMatch_fair_witness:
  "\<exists>a b. checkNormalMatch bg_demo [0, 1] [2, 3] 3 10 bgQueueInvitationBalanced False True = ((a, b), True) \<and>
     \<bar>playerCount a - playerCount b\<bar> \<le> 2 \<and> playerCount a = 3"
proof -
  have inv: "invited bg_demo g = False" for g
    by (simp add: invited_def bg_demo_def party_def newBGGroupQueueInfo_def)
  have r: "checkNormalMatch bg_demo [0, 1] [2, 3] 3 10 bgQueueInvitationBalanced False True =
    ((\<lparr>selectedGroups = [0], poolPlayers = 3\<rparr>, \<lparr>selectedGroups = [2, 3], poolPlayers = 3\<rparr>), True)"
    by (simp add: checkNormalMatch_def addGroup_def empty_pool_def playerCount_def inv bgAbsDiff_def)
  have "sizes_ok bg_demo [0, 1]" "sizes_ok bg_demo [2, 3]" by (simp_all add: sizes_ok_def)
  from checkNormalMatch_fair [OF this _ _ _ _ r] r show ?thesis by (simp add: playerCount_def)
qed

section \<open>Premade groups\<close>

definition checkPremadeMatch ::
    "bg_heap \<Rightarrow> bg_ref list \<Rightarrow> bg_ref list \<Rightarrow> bg_ref list \<Rightarrow> bg_ref list \<Rightarrow> int \<Rightarrow>
     (bgSelectionPool \<times> bgSelectionPool) \<times> bool" where
  "checkPremadeMatch h aliPremade hordePremade aliNormal hordeNormal maxPlayersPerTeam =
     (if aliPremade \<noteq> [] \<and> hordePremade \<noteq> [] then
        (case (find (\<lambda>g. \<not> invited h g) aliPremade, find (\<lambda>g. \<not> invited h g) hordePremade) of
           (Some aliG, Some hordeG) \<Rightarrow>
             let ali = snd (addGroup h aliG maxPlayersPerTeam empty_pool);
                 horde = snd (addGroup h hordeG maxPlayersPerTeam empty_pool);
                 maxPlayers = (if playerCount horde < playerCount ali then playerCount horde
                               else playerCount ali) in
             ((top_up h maxPlayers aliNormal ali, top_up h maxPlayers hordeNormal horde), True)
         | _ \<Rightarrow> ((empty_pool, empty_pool), False))
      else ((empty_pool, empty_pool), False))"

definition premadeShouldDemote :: "bgGroupQueueInfo \<Rightarrow> u32 \<Rightarrow> u32 \<Rightarrow> int \<Rightarrow> bool" where
  "premadeShouldDemote front now premadeWaitMS minPlayersPerTeam =
     (if isInvitedToBGInstanceGUID front \<noteq> 0 then False
      else joinTime front < now - premadeWaitMS \<or>
           to_u32 (int (length (bgPlayers front))) < minPlayersPerTeam)"

lemma top_up_full:
  assumes "\<forall>g \<in> set gs. 0 < group_size h g \<and> group_size h g < 2 ^ 31" and "pool_ok h p"
    and "d \<le> playerCount p" and "0 \<le> d"
  shows "top_up h d gs p = p"
  using assms(1)
proof (induction gs)
  case (Cons g gs)
  have "to_u32 (poolPlayers p + group_size h g) = poolPlayers p + group_size h g"
    using assms(2) Cons.prems by (intro to_u32_id) (auto simp: pool_ok_def)
  then have "addGroup h g d p = (False, p)"
    using Cons.prems assms(3) by (auto simp: addGroup_def playerCount_def)
  with Cons show ?case by simp
qed simp

definition premade_alone :: "bg_heap \<Rightarrow> bg_ref list \<Rightarrow> int \<Rightarrow> bgSelectionPool \<Rightarrow> bool" where
  "premade_alone h premade room p \<longleftrightarrow> (\<exists>g. find (\<lambda>g. \<not> invited h g) premade = Some g \<and>
     selectedGroups p = (if group_size h g \<le> room then [g] else []))"

text \<open>
  A premade match never draws on the normal queues. Each pool is the first uninvited premade group
  alone (or empty when that group is larger than a team): the top-up target is the smaller of the two
  sides, which both sides have reached already.
\<close>

theorem checkPremadeMatch_no_top_up:
  assumes "\<forall>g \<in> set (aliPremade @ hordePremade @ aliNormal @ hordeNormal).
      0 < group_size h g \<and> group_size h g < 2 ^ 31"
    and "0 \<le> maxPlayers" "maxPlayers < 2 ^ 31"
    and "checkPremadeMatch h aliPremade hordePremade aliNormal hordeNormal maxPlayers = ((ali, horde), True)"
  shows "premade_alone h aliPremade maxPlayers ali \<and> premade_alone h hordePremade maxPlayers horde \<and>
    playerCount ali \<le> maxPlayers \<and> playerCount horde \<le> maxPlayers"
proof -
  obtain a b where find: "find (\<lambda>g. \<not> invited h g) aliPremade = Some a"
    "find (\<lambda>g. \<not> invited h g) hordePremade = Some b"
    using assms(4) by (auto simp: checkPremadeMatch_def split: if_splits option.splits)
  define pa where "pa = snd (addGroup h a maxPlayers empty_pool)"
  define pb where "pb = snd (addGroup h b maxPlayers empty_pool)"
  have mem: "a \<in> set aliPremade" "b \<in> set hordePremade" "\<not> invited h a" "\<not> invited h b"
    using find by (auto simp: find_Some_iff)
  have add: "pool_ok h (snd (addGroup h g maxPlayers empty_pool)) \<and>
      selectedGroups (snd (addGroup h g maxPlayers empty_pool)) = (if group_size h g \<le> maxPlayers then [g] else []) \<and>
      playerCount (snd (addGroup h g maxPlayers empty_pool)) \<le> maxPlayers"
    if "\<not> invited h g" "group_size h g < 2 ^ 31" for g
  proof -
    have "to_u32 (group_size h g) = group_size h g" by (rule to_u32_id) simp_all
    then show ?thesis
      using that assms(2,3) addGroup_ok(1) [OF pool_ok_empty surjective_pairing assms(3) that(2)]
      by (auto simp: addGroup_def empty_pool_def playerCount_def)
  qed
  have a: "pool_ok h pa" "selectedGroups pa = (if group_size h a \<le> maxPlayers then [a] else [])"
    "playerCount pa \<le> maxPlayers"
    and b: "pool_ok h pb" "selectedGroups pb = (if group_size h b \<le> maxPlayers then [b] else [])"
    "playerCount pb \<le> maxPlayers"
    using add [OF mem(3)] add [OF mem(4)] mem(1,2) assms(1) by (simp_all add: pa_def pb_def)
  let ?m = "if playerCount pb < playerCount pa then playerCount pb else playerCount pa"
  have "0 \<le> ?m" using a(1) b(1) by (auto simp: pool_ok_def playerCount_def)
  then have "top_up h ?m aliNormal pa = pa" "top_up h ?m hordeNormal pb = pb"
    using assms(1) a(1) b(1) by (auto intro!: top_up_full)
  moreover have "((ali, horde), True) = ((top_up h ?m aliNormal pa, top_up h ?m hordeNormal pb), True)"
    unfolding assms(4) [symmetric] checkPremadeMatch_def pa_def pb_def
    using find mem(1,2) by (auto simp: Let_def)
  ultimately have "ali = pa" "horde = pb" by simp_all
  then show ?thesis using a b find by (simp add: premade_alone_def)
qed

theorem checkPremadeMatch_no_top_up_witness:
  "\<exists>a b. checkPremadeMatch bg_demo [0] [2] [1] [3] 10 = ((a, b), True) \<and> selectedGroups b = [2]"
proof -
  have inv: "invited bg_demo g = False" for g
    by (simp add: invited_def bg_demo_def party_def newBGGroupQueueInfo_def)
  have r: "checkPremadeMatch bg_demo [0] [2] [1] [3] 10 =
    ((\<lparr>selectedGroups = [0], poolPlayers = 3\<rparr>, \<lparr>selectedGroups = [2], poolPlayers = 2\<rparr>), True)"
    by (simp add: checkPremadeMatch_def addGroup_def empty_pool_def playerCount_def inv)
  from checkPremadeMatch_no_top_up [OF _ _ _ r] r show ?thesis
    by (simp add: premade_alone_def inv)
qed

text \<open>
  A premade group is demoted exactly when it is not invited and has waited longer than the limit
  or is too small, provided the server has been up for at least the limit. Before that the unsigned
  subtraction wraps round, and a group that has just joined is demoted at once.
\<close>

theorem premadeShouldDemote_wraps:
  assumes "isInvitedToBGInstanceGUID front = 0" and "joinTime front \<le> now"
    and "minPlayers \<le> int (length (bgPlayers front))" and "length (bgPlayers front) < 2 ^ 32"
  shows "(wait \<le> now \<longrightarrow> premadeShouldDemote front now wait minPlayers = (uint now - uint (joinTime front) > uint wait)) \<and>
    (now < wait \<and> uint now - uint wait + 2 ^ 32 > uint now \<longrightarrow> premadeShouldDemote front now wait minPlayers)"
proof -
  have size: "\<not> to_u32 (int (length (bgPlayers front))) < minPlayers" using assms(3,4) by simp
  have "uint (now - wait) = uint now - uint wait" if "wait \<le> now"
    using that by (simp add: uint_sub_lem word_le_def)
  moreover have "uint (now - wait) = uint now - uint wait + 2 ^ 32" if "now < wait"
    using that uint_bounded [of wait] by (simp add: uint_sub_if' word_less_def)
  ultimately show ?thesis
    using assms(1,2) size by (auto simp: premadeShouldDemote_def word_less_def word_le_def)
qed

theorem premadeShouldDemote_wraps_witness:
  "premadeShouldDemote (party teamAlliance [1, 2, 3]) 60000 1800000 2"
proof -
  have "isInvitedToBGInstanceGUID (party teamAlliance [1, 2, 3]) = 0"
    "joinTime (party teamAlliance [1, 2, 3]) \<le> 60000" "length (bgPlayers (party teamAlliance [1, 2, 3])) = 3"
    by (simp_all add: party_def newBGGroupQueueInfo_def gput_def)
  from premadeShouldDemote_wraps [OF this(1,2), of 2 1800000] this(3) show ?thesis by simp
qed

end
