(* ===== verification/Bg_Arena.thy ===== *)
theory Bg_Arena
  imports Bg_Matchmaker "HOL-Library.Sublist"
begin

text \<open>
  \<^verbatim>\<open>engine/world/battleground_queue_matchmaker.go\<close>, the matches that move groups between the queues:
  a skirmish of one faction against itself, and the choice of two teams for a rated arena. The groups are
  changed in the heap, which is passed and returned.
\<close>

section \<open>Searching a queue\<close>

primrec first_index :: "('a \<Rightarrow> bool) \<Rightarrow> 'a list \<Rightarrow> nat option" where
  "first_index P [] = None"
| "first_index P (x # xs) = (if P x then Some 0 else map_option Suc (first_index P xs))"

lemma first_index_Some:
  "first_index P xs = Some i \<Longrightarrow> i < length xs \<and> P (xs ! i) \<and> (\<forall>j < i. \<not> P (xs ! j))"
  by (induction xs arbitrary: i) (auto simp: less_Suc_eq_0_disj split: if_splits)

lemma first_index_None: "first_index P xs = None \<longleftrightarrow> (\<forall>x \<in> set xs. \<not> P x)"
  by (induction xs) auto

section \<open>A skirmish within one faction\<close>

text \<open>One drafted group changes sides: it is tagged, put in front of the other queue and taken out of its own.\<close>

definition draft_group ::
    "u32 \<Rightarrow> nat \<Rightarrow> bg_ref \<Rightarrow> bg_heap \<times> bg_ref list \<times> bg_ref list \<Rightarrow> bg_heap \<times> bg_ref list \<times> bg_ref list" where
  "draft_group otherTeamID pos g = (\<lambda>(h, own, other).
     (h(g := (h g)\<lparr>bgTeam := otherTeamID\<rparr>),
      take (pos + 1) own @ remove1 g (drop (pos + 1) own),
      g # other))"

text \<open>
  The body of the function with the two sides chosen: the outcome, the heap, own and other queue, and
  the other pool.
\<close>

definition draft_side ::
    "bg_heap \<Rightarrow> bgSelectionPool \<Rightarrow> bgSelectionPool \<Rightarrow> bg_ref list \<Rightarrow> bg_ref list \<Rightarrow> int \<Rightarrow> u32 \<Rightarrow>
     bool \<times> bg_heap \<times> bg_ref list \<times> bg_ref list \<times> bgSelectionPool" where
  "draft_side h ownPool otherPool ownQueue otherQueue minPlayersPerTeam otherTeamID =
     (let other = pool_init otherPool in
      if selectedGroups ownPool = [] then (False, h, ownQueue, otherQueue, other)
      else case first_index (\<lambda>g. g = last (selectedGroups ownPool)) ownQueue of
        None \<Rightarrow> (False, h, ownQueue, otherQueue, other)
      | Some pos \<Rightarrow>
          let other = top_up h minPlayersPerTeam (drop (pos + 1) ownQueue) other in
          if playerCount other \<noteq> minPlayersPerTeam then (False, h, ownQueue, otherQueue, other)
          else let (h', own', other') = fold (draft_group otherTeamID pos) (selectedGroups other)
                 (h, ownQueue, otherQueue) in
               (True, h', own', other', other))"

definition checkSkirmishForSameFaction ::
    "bg_heap \<Rightarrow> bgSelectionPool \<Rightarrow> bgSelectionPool \<Rightarrow> bg_ref list \<Rightarrow> bg_ref list \<Rightarrow> int \<Rightarrow>
     bool \<times> bg_heap \<times> bg_ref list \<times> bg_ref list \<times> bgSelectionPool \<times> bgSelectionPool" where
  "checkSkirmishForSameFaction h aliPool hordePool aliGroups hordeGroups minPlayersPerTeam =
     (if playerCount aliPool < minPlayersPerTeam \<and> playerCount hordePool < minPlayersPerTeam
      then (False, h, aliGroups, hordeGroups, aliPool, hordePool)
      else if playerCount hordePool = minPlayersPerTeam
      then let (ok, h', horde', ali', aliPool') =
             draft_side h hordePool aliPool hordeGroups aliGroups minPlayersPerTeam teamAlliance in
           (ok, h', ali', horde', aliPool', hordePool)
      else let (ok, h', ali', horde', hordePool') =
             draft_side h aliPool hordePool aliGroups hordeGroups minPlayersPerTeam teamHorde in
           (ok, h', ali', horde', aliPool, hordePool'))"

lemma draft_fold:
  assumes "fold (draft_group t pos) gs (h, own, other) = (h', own', other')"
    and "distinct own" "distinct gs" "set gs \<subseteq> set (drop (pos + 1) own)" "pos < length own"
  shows "other' = rev gs @ other" and "own' = filter (\<lambda>g. g \<notin> set gs) own"
    and "h' = (\<lambda>g. if g \<in> set gs then (h g)\<lparr>bgTeam := t\<rparr> else h g)"
proof -
  have "other' = rev gs @ other \<and> own' = filter (\<lambda>g. g \<notin> set gs) own \<and>
      h' = (\<lambda>g. if g \<in> set gs then (h g)\<lparr>bgTeam := t\<rparr> else h g)"
    using assms
  proof (induction gs arbitrary: h own other)
    case (Cons g gs)
    let ?own = "take (pos + 1) own @ remove1 g (drop (pos + 1) own)"
    have disj: "set (take (pos + 1) own) \<inter> set (drop (pos + 1) own) = {}"
      using Cons.prems(2) by (simp add: set_take_disj_set_drop_if_distinct)
    have dd: "distinct (drop (pos + 1) own)" using Cons.prems(2) by simp
    have g: "g \<in> set (drop (pos + 1) own)" using Cons.prems(4) by simp
    have eq: "?own = filter (\<lambda>x. x \<noteq> g) own"
    proof -
      have "remove1 g (drop (pos + 1) own) = filter (\<lambda>x. x \<noteq> g) (drop (pos + 1) own)"
        using dd by (simp add: distinct_remove1_removeAll removeAll_filter_not_eq) (metis)
      moreover have "take (pos + 1) own = filter (\<lambda>x. x \<noteq> g) (take (pos + 1) own)"
        using disj g by (intro filter_True [symmetric]) auto
      ultimately have "?own = filter (\<lambda>x. x \<noteq> g) (take (pos + 1) own @ drop (pos + 1) own)"
        by (simp only: filter_append)
      then show ?thesis by (simp only: append_take_drop_id)
    qed
    have len: "length (take (pos + 1) own) = pos + 1" using Cons.prems(5) by simp
    have rest: "drop (pos + 1) ?own = remove1 g (drop (pos + 1) own)" using len by simp
    have sub: "set gs \<subseteq> set (drop (pos + 1) ?own)"
      using Cons.prems(3,4) unfolding rest set_remove1_eq [OF dd] by auto
    have pos: "pos < length ?own" using len by simp
    have dist: "distinct ?own" unfolding eq using Cons.prems(2) by simp
    have "draft_group t pos g (h, own, other) = (h(g := (h g)\<lparr>bgTeam := t\<rparr>), ?own, g # other)"
      by (simp add: draft_group_def)
    then have "fold (draft_group t pos) gs (h(g := (h g)\<lparr>bgTeam := t\<rparr>), ?own, g # other) = (h', own', other')"
      using Cons.prems(1) by simp
    note IH = Cons.IH [OF this dist _ sub pos]
    have IH': "other' = rev gs @ g # other" "own' = filter (\<lambda>x. x \<notin> set gs) ?own"
      "h' = (\<lambda>x. if x \<in> set gs then ((h(g := (h g)\<lparr>bgTeam := t\<rparr>)) x)\<lparr>bgTeam := t\<rparr> else (h(g := (h g)\<lparr>bgTeam := t\<rparr>)) x)"
      using IH Cons.prems(3) by simp_all
    have "own' = filter (\<lambda>x. x \<notin> set (g # gs)) own"
      unfolding IH'(2) eq by (simp add: conj_commute)
    then show ?case using IH'(1) unfolding IH'(3) by (auto simp: fun_eq_iff)
  qed simp
  then show "other' = rev gs @ other" "own' = filter (\<lambda>g. g \<notin> set gs) own"
    "h' = (\<lambda>g. if g \<in> set gs then (h g)\<lparr>bgTeam := t\<rparr> else h g)" by simp_all
qed

text \<open>The groups selected up to the last one do not come after it in the queue.\<close>

lemma selected_before:
  assumes "subseq gs q" "distinct q" "gs \<noteq> []" "first_index (\<lambda>g. g = last gs) q = Some pos"
  shows "set gs \<inter> set (drop (pos + 1) q) = {}"
proof -
  have "subseq (butlast gs @ [last gs]) q" using assms(1,3) by simp
  then obtain q1 q2 where q: "q = q1 @ q2" "subseq (butlast gs) q1" "subseq [last gs] q2"
    by (blast dest: list_emb_appendD)
  have pos: "pos < length q" "q ! pos = last gs" using first_index_Some [OF assms(4)] by auto
  have "last gs \<in> set q2" using q(3) by (simp add: subseq_singleton_left)
  then have "length q1 \<le> pos"
    using pos q(1) assms(2) by (metis disjoint_iff distinct_append linorder_not_less nth_append nth_mem)
  then have "set q1 \<subseteq> set (take (pos + 1) q)" by (simp add: q(1))
  moreover have "last gs \<in> set (take (pos + 1) q)" using pos by (metis in_set_conv_nth length_take lessI min_less_iff_conj nth_take Suc_eq_plus1)
  moreover have "set (butlast gs) \<subseteq> set q1" using q(2) by (rule set_nths_subset [THEN subsetD, THEN subsetI, rotated] | auto dest: list_emb_set)
  moreover have "set gs = set (butlast gs) \<union> {last gs}" using assms(3) by (metis Un_insert_right append_butlast_last_id list.set(1) list.simps(15) set_append sup_bot_right)
  ultimately have "set gs \<subseteq> set (take (pos + 1) q)" by auto
  then show ?thesis using set_take_disj_set_drop_if_distinct [OF assms(2), of "pos + 1" "pos + 1"] by auto
qed

definition drafted ::
    "bg_heap \<Rightarrow> int \<Rightarrow> u32 \<Rightarrow> bgSelectionPool \<Rightarrow> bg_ref list \<Rightarrow> bg_ref list \<Rightarrow>
     bg_heap \<Rightarrow> bg_ref list \<Rightarrow> bg_ref list \<Rightarrow> bgSelectionPool \<Rightarrow> bool" where
  "drafted h n t ownPool own other h' own' other' pool \<longleftrightarrow>
     pool_ok h pool \<and> playerCount pool = n \<and> distinct (selectedGroups pool) \<and>
     set (selectedGroups pool) \<subseteq> set own - set (selectedGroups ownPool) \<and>
     other' = rev (selectedGroups pool) @ other \<and>
     own' = filter (\<lambda>g. g \<notin> set (selectedGroups pool)) own \<and>
     h' = (\<lambda>g. if g \<in> set (selectedGroups pool) then (h g)\<lparr>bgTeam := t\<rparr> else h g)"

lemma pool_init_empty [simp]: "pool_init p = empty_pool"
  by (simp add: pool_init_def empty_pool_def)

lemma draft_side_drafted:
  assumes "sizes_ok h own" "distinct own" "subseq (selectedGroups ownPool) own" "0 \<le> n" "n < 2 ^ 31"
    and "draft_side h ownPool otherPool own other n t = (ok, h', own', other', pool)"
  shows "if ok then drafted h n t ownPool own other h' own' other' pool else h' = h \<and> own' = own \<and> other' = other"
proof (cases "selectedGroups ownPool = [] \<or> first_index (\<lambda>g. g = last (selectedGroups ownPool)) own = None")
  case True
  then show ?thesis using assms(6) by (auto simp: draft_side_def Let_def split: if_splits)
next
  case False
  then obtain pos where f: "selectedGroups ownPool \<noteq> []"
    "first_index (\<lambda>g. g = last (selectedGroups ownPool)) own = Some pos" by auto
  let ?after = "drop (pos + 1) own"
  define p where "p = top_up h n ?after empty_pool"
  have r: "(ok, h', own', other', pool) = (if playerCount p \<noteq> n then (False, h, own, other, p)
      else let (h', own', other') = fold (draft_group t pos) (selectedGroups p) (h, own, other) in
           (True, h', own', other', p))"
    unfolding assms(6) [symmetric] using f by (simp add: draft_side_def p_def Let_def)
  have "side_ok h ?after n empty_pool ?after"
    using assms(2,4) by (simp add: side_ok_def) (simp add: empty_pool_def playerCount_def)
  moreover have "sizes_ok h ?after" using assms(1) by (auto simp: sizes_ok_def dest: in_set_dropD)
  ultimately have side: "side_ok h ?after n p []" unfolding p_def using top_up_side assms(5) by blast
  then have sel: "pool_ok h p" "distinct (selectedGroups p)" "set (selectedGroups p) \<subseteq> set ?after"
    by (simp_all add: side_ok_def)
  have sub: "set (selectedGroups p) \<subseteq> set own - set (selectedGroups ownPool)"
    using sel(3) selected_before [OF assms(3,2) f] set_drop_subset [of "pos + 1" own] by blast
  show ?thesis
  proof (cases "playerCount p = n")
    case True
    obtain h2 own2 other2 where fd: "fold (draft_group t pos) (selectedGroups p) (h, own, other) = (h2, own2, other2)"
      by (metis prod_cases3)
    have res: "ok" "h' = h2" "own' = own2" "other' = other2" "pool = p" using r fd True by simp_all
    note d = draft_fold [OF fd assms(2) sel(2,3)]
    have "pos < length own" using first_index_Some [OF f(2)] by simp
    note d = d [OF this]
    show ?thesis unfolding res(2-5) drafted_def using True res(1) d sel(1,2) sub by simp
  next
    case False
    then show ?thesis using r by simp
  qed
qed

text \<open>
  A skirmish of one faction against itself either changes nothing, or drafts for the other side
  exactly the required number of players. The drafted groups are uninvited groups of the own queue, none of
  them already selected to play, counted once each; they leave their queue, appear in front of the other
  one, and get its team; all other groups stay as they are, in their order.
\<close>

theorem checkSkirmish_drafts:
  assumes "sizes_ok h aliGroups" "sizes_ok h hordeGroups" "distinct aliGroups" "distinct hordeGroups"
    and "subseq (selectedGroups aliPool) aliGroups" "subseq (selectedGroups hordePool) hordeGroups"
    and "0 \<le> minPlayers" "minPlayers < 2 ^ 31"
    and "checkSkirmishForSameFaction h aliPool hordePool aliGroups hordeGroups minPlayers =
         (ok, h', aliOut, hordeOut, ali, horde)"
  shows "if \<not> ok then h' = h \<and> aliOut = aliGroups \<and> hordeOut = hordeGroups
    else if playerCount hordePool = minPlayers
    then horde = hordePool \<and> drafted h minPlayers teamAlliance hordePool hordeGroups aliGroups h' hordeOut aliOut ali
    else ali = aliPool \<and> drafted h minPlayers teamHorde aliPool aliGroups hordeGroups h' aliOut hordeOut horde"
proof -
  obtain o1 h1 q1 r1 p1 where d1: "draft_side h hordePool aliPool hordeGroups aliGroups minPlayers teamAlliance =
    (o1, h1, q1, r1, p1)" by (metis prod_cases5)
  obtain o2 h2 q2 r2 p2 where d2: "draft_side h aliPool hordePool aliGroups hordeGroups minPlayers teamHorde =
    (o2, h2, q2, r2, p2)" by (metis prod_cases5)
  note r = assms(9) [unfolded checkSkirmishForSameFaction_def d1 d2 Let_def prod.case]
  show ?thesis
    using r draft_side_drafted [OF assms(2,4,6,7,8) d1] draft_side_drafted [OF assms(1,3,5,7,8) d2]
    by (auto split: if_splits)
qed

theorem checkSkirmish_drafts_witness:
  "drafted bg_demo 2 teamAlliance \<lparr>selectedGroups = [2], poolPlayers = 2\<rparr> [2, 4, 5] [0]
     (\<lambda>g. if g \<in> {4, 5} then (bg_demo g)\<lparr>bgTeam := teamAlliance\<rparr> else bg_demo g)
     [2] [5, 4, 0] \<lparr>selectedGroups = [4, 5], poolPlayers = 2\<rparr>"
proof -
  let ?p = "\<lparr>selectedGroups = [2], poolPlayers = 2\<rparr> :: bgSelectionPool"
  have inv: "invited bg_demo g = False" for g
    by (simp add: invited_def bg_demo_def party_def newBGGroupQueueInfo_def)
  have size4: "group_size bg_demo 4 = 1" "group_size bg_demo 5 = 1"
    by (simp_all add: bg_demo_def group_size_def party_def newBGGroupQueueInfo_def gput_def)
  let ?h = "(bg_demo(4 := (bg_demo 4)\<lparr>bgTeam := teamAlliance\<rparr>))(5 := (bg_demo 5)\<lparr>bgTeam := teamAlliance\<rparr>)"
  have r: "checkSkirmishForSameFaction bg_demo empty_pool ?p [0] [2, 4, 5] 2 =
    (True, ?h, [5, 4, 0], [2], \<lparr>selectedGroups = [4, 5], poolPlayers = 2\<rparr>, ?p)"
    by (simp add: checkSkirmishForSameFaction_def draft_side_def draft_group_def playerCount_def inv size4
      addGroup_def empty_pool_def Let_def)
  have s: "sizes_ok bg_demo [0]" "sizes_ok bg_demo [2, 4, 5]" by (simp_all add: sizes_ok_def size4)
  have h: "?h = (\<lambda>g. if g \<in> {4, 5} then (bg_demo g)\<lparr>bgTeam := teamAlliance\<rparr> else bg_demo g)" by auto
  from checkSkirmish_drafts [OF s _ _ _ _ _ _ r]
  show ?thesis unfolding h by (simp add: empty_pool_def playerCount_def)
qed

section \<open>Rated arenas\<close>

record bgArenaQueuePos =
  queuePos :: nat
  indexPos :: nat

text \<open>The rating around which teams are sought: 0 asks for that of the team that has waited longest.\<close>

definition start_rating :: "bg_heap \<Rightarrow> bg_ref list \<Rightarrow> bg_ref list \<Rightarrow> u32 \<Rightarrow> u32 \<times> bool" where
  "start_rating h aliPremade hordePremade arenaRating =
     (if arenaRating \<noteq> 0 then (arenaRating, True)
      else case (aliPremade, hordePremade) of
        ([], []) \<Rightarrow> (arenaRating, False)
      | (front1 # _, []) \<Rightarrow> (arenaMatchmakerRating (h front1), True)
      | ([], front2 # _) \<Rightarrow> (arenaMatchmakerRating (h front2), True)
      | (front1 # _, front2 # _) \<Rightarrow>
          (if joinTime (h front1) < joinTime (h front2) then arenaMatchmakerRating (h front1)
           else arenaMatchmakerRating (h front2), True))"

definition inWindow :: "u32 \<Rightarrow> u32 \<Rightarrow> bgGroupQueueInfo \<Rightarrow> bool" where
  "inWindow rating maxRatingDifference g \<longleftrightarrow>
     (let arenaMinRating = (if rating > maxRatingDifference then rating - maxRatingDifference else 0);
          arenaMaxRating = rating + maxRatingDifference in
      arenaMatchmakerRating g \<ge> arenaMinRating \<and> arenaMatchmakerRating g \<le> arenaMaxRating)"

definition waited :: "u32 \<Rightarrow> u32 \<Rightarrow> bgGroupQueueInfo \<Rightarrow> bool" where
  "waited now timer g \<longleftrightarrow> sint (joinTime g) < sint (now - timer)"

definition qualifies :: "u32 \<Rightarrow> u32 \<Rightarrow> u32 \<Rightarrow> u32 \<Rightarrow> bgGroupQueueInfo \<Rightarrow> bool" where
  "qualifies rating maxRatingDifference now ratingDiscardTimer g \<longleftrightarrow>
     isInvitedToBGInstanceGUID g = 0 \<and>
     (inWindow rating maxRatingDifference g \<or> waited now ratingDiscardTimer g)"

definition may_meet :: "u32 \<Rightarrow> u32 \<Rightarrow> bgGroupQueueInfo \<Rightarrow> bgGroupQueueInfo \<Rightarrow> bool" where
  "may_meet now prevOpponentsDiscardTimer first g \<longleftrightarrow>
     (arenaTeamID first \<noteq> previousOpponentsTeamID g \<or> waited now prevOpponentsDiscardTimer g) \<and>
     arenaTeamID first \<noteq> arenaTeamID g"

text \<open>A second team of the same queue, sought from the first one on.\<close>

definition second_team ::
    "bg_heap \<Rightarrow> nat \<Rightarrow> bg_ref list \<Rightarrow> nat \<Rightarrow> (bgGroupQueueInfo \<Rightarrow> bool) \<Rightarrow> u32 \<Rightarrow> u32 \<Rightarrow>
     (bgArenaQueuePos \<times> bgArenaQueuePos) option" where
  "second_team h team queue i fit now prevTimer =
     (case first_index (\<lambda>g. fit (h g) \<and> may_meet now prevTimer (h (queue ! i)) (h g)) (drop i queue) of
        None \<Rightarrow> None
      | Some j \<Rightarrow> Some (\<lparr>queuePos = team, indexPos = i\<rparr>, \<lparr>queuePos = team, indexPos = i + j\<rparr>))"

definition find_teams ::
    "bg_heap \<Rightarrow> bg_ref list \<Rightarrow> bg_ref list \<Rightarrow> (bgGroupQueueInfo \<Rightarrow> bool) \<Rightarrow> u32 \<Rightarrow> u32 \<Rightarrow>
     (bgArenaQueuePos \<times> bgArenaQueuePos) option" where
  "find_teams h aliPremade hordePremade fit now prevTimer =
     (case (first_index (fit \<circ> h) aliPremade, first_index (fit \<circ> h) hordePremade) of
        (None, None) \<Rightarrow> None
      | (Some i, Some j) \<Rightarrow> Some (\<lparr>queuePos = 0, indexPos = i\<rparr>, \<lparr>queuePos = 1, indexPos = j\<rparr>)
      | (Some i, None) \<Rightarrow> second_team h 0 aliPremade i fit now prevTimer
      | (None, Some j) \<Rightarrow> second_team h 1 hordePremade j fit now prevTimer)"

definition wire_ratings :: "bg_ref \<Rightarrow> bg_ref \<Rightarrow> bg_heap \<Rightarrow> bg_heap" where
  "wire_ratings aTeam hTeam h =
     (let h = h(aTeam := (h aTeam)\<lparr>opponentsTeamRating := arenaTeamRating (h hTeam)\<rparr>);
          h = h(hTeam := (h hTeam)\<lparr>opponentsTeamRating := arenaTeamRating (h aTeam)\<rparr>);
          h = h(aTeam := (h aTeam)\<lparr>opponentsMatchmakerRating := arenaMatchmakerRating (h hTeam)\<rparr>);
          h = h(hTeam := (h hTeam)\<lparr>opponentsMatchmakerRating := arenaMatchmakerRating (h aTeam)\<rparr>) in h)"

text \<open>\<open>append(s[:i], s[i+1:]...)\<close>, which panics past the end.\<close>

definition cut_at :: "'a list \<Rightarrow> nat \<Rightarrow> go_error + 'a list" where
  "cut_at xs i = (if i < length xs then Inr (take i xs @ drop (i + 1) xs) else Inl Panic)"

text \<open>The team at \<open>pos\<close> moves to the front of \<open>to\<close> and is cut out of \<open>from\<close> when its tag is not \<open>side\<close>.\<close>

definition change_queue ::
    "bg_heap \<Rightarrow> u32 \<Rightarrow> bg_ref \<Rightarrow> nat \<Rightarrow> bg_ref list \<times> bg_ref list \<Rightarrow> go_error + (bg_ref list \<times> bg_ref list)" where
  "change_queue h side g pos = (\<lambda>(to, from).
     if bgTeam (h g) \<noteq> side
     then case cut_at from pos of Inl e \<Rightarrow> Inl e | Inr from' \<Rightarrow> Inr (g # to, from')
     else Inr (to, from))"

record rated_match =
  rmTeams :: "(bg_ref \<times> bg_ref) option"
  rmRating :: u32
  rmAliOut :: "bg_ref list"
  rmHordeOut :: "bg_ref list"
  rmHeap :: bg_heap

definition selectRatedArenaMatch ::
    "bg_heap \<Rightarrow> bg_ref list \<Rightarrow> bg_ref list \<Rightarrow> u32 \<Rightarrow> u32 \<Rightarrow> u32 \<Rightarrow> u32 \<Rightarrow> u32 \<Rightarrow> go_error + rated_match" where
  "selectRatedArenaMatch h aliPremade hordePremade arenaRating now maxRatingDifference ratingDiscardTimer
     prevOpponentsDiscardTimer =
     (let (rating, any) = start_rating h aliPremade hordePremade arenaRating;
          none = \<lparr>rmTeams = None, rmRating = rating, rmAliOut = aliPremade, rmHordeOut = hordePremade, rmHeap = h\<rparr> in
      if \<not> any then Inr none
      else case find_teams h aliPremade hordePremade
             (qualifies rating maxRatingDifference now ratingDiscardTimer) now prevOpponentsDiscardTimer of
        None \<Rightarrow> Inr none
      | Some (t0, t1) \<Rightarrow>
          let premade = [aliPremade, hordePremade];
              aTeam = (premade ! queuePos t0) ! indexPos t0;
              hTeam = (premade ! queuePos t1) ! indexPos t1;
              h' = wire_ratings aTeam hTeam h in
          case change_queue h' teamAlliance aTeam (indexPos t0) (aliPremade, hordePremade) of
            Inl e \<Rightarrow> Inl e
          | Inr (ali, horde) \<Rightarrow>
              (case change_queue h' teamHorde hTeam (indexPos t1) (horde, ali) of
                 Inl e \<Rightarrow> Inl e
               | Inr (horde', ali') \<Rightarrow>
                   Inr \<lparr>rmTeams = Some (aTeam, hTeam), rmRating = rating, rmAliOut = ali',
                        rmHordeOut = horde', rmHeap = h'\<rparr>))"

lemma wire_team [simp]: "bgTeam (wire_ratings a t h g) = bgTeam (h g)"
  by (simp add: wire_ratings_def Let_def)

lemma wire_ratings_simp:
  "a \<noteq> t \<Longrightarrow> wire_ratings a t h =
     h(a := (h a)\<lparr>opponentsTeamRating := arenaTeamRating (h t), opponentsMatchmakerRating := arenaMatchmakerRating (h t)\<rparr>,
       t := (h t)\<lparr>opponentsTeamRating := arenaTeamRating (h a), opponentsMatchmakerRating := arenaMatchmakerRating (h a)\<rparr>)"
  by (auto simp: wire_ratings_def Let_def)

lemma cut_at_inside:
  assumes "i < length xs"
  shows "cut_at xs i = Inr (take i xs @ drop (i + 1) xs)" and "add_mset (xs ! i) (mset (take i xs @ drop (i + 1) xs)) = mset xs"
  using assms by (simp_all add: cut_at_def) (metis append_take_drop_id Cons_nth_drop_Suc mset_append mset.simps(2) union_mset_add_mset_right)

lemma cut_at_keeps:
  assumes "i < length xs" "j < length xs" "i \<noteq> j"
  shows "xs ! j \<in> set (take i xs @ drop (i + 1) xs)"
proof (cases "j < i")
  case True
  then show ?thesis using assms by (auto simp: in_set_conv_nth)
next
  case False
  then have "xs ! j = drop (i + 1) xs ! (j - (i + 1))" "j - (i + 1) < length (drop (i + 1) xs)" using assms by auto
  then show ?thesis by (metis Un_iff nth_mem set_append)
qed

text \<open>Two teams of one queue at different places, or the first of each queue.\<close>

lemma second_team_Some:
  assumes "second_team h k q i fit now timer = Some (t0, t1)" and "i < length q"
  obtains j where "t0 = \<lparr>queuePos = k, indexPos = i\<rparr>" "t1 = \<lparr>queuePos = k, indexPos = j\<rparr>" "i < j" "j < length q"
    "fit (h (q ! j))" "may_meet now timer (h (q ! i)) (h (q ! j))"
proof -
  obtain d where d: "first_index (\<lambda>g. fit (h g) \<and> may_meet now timer (h (q ! i)) (h g)) (drop i q) = Some d"
    "t0 = \<lparr>queuePos = k, indexPos = i\<rparr>" "t1 = \<lparr>queuePos = k, indexPos = i + d\<rparr>"
    using assms(1) by (auto simp: second_team_def split: option.splits)
  have "d \<noteq> 0" using first_index_Some [OF d(1)] assms(2) by (cases d) (auto simp: may_meet_def)
  then show thesis
    using first_index_Some [OF d(1)] assms(2) by (intro that [of "i + d"]) (auto simp: d(2,3))
qed

definition same_queue_pair :: "bg_heap \<Rightarrow> bg_ref list \<Rightarrow> (bgGroupQueueInfo \<Rightarrow> bool) \<Rightarrow> u32 \<Rightarrow> u32 \<Rightarrow> bg_ref \<Rightarrow> bg_ref \<Rightarrow> bool" where
  "same_queue_pair h q fit now timer a t \<longleftrightarrow>
     first_index (fit \<circ> h) q \<noteq> None \<and> a = q ! the (first_index (fit \<circ> h) q) \<and>
     t \<in> set q \<and> fit (h t) \<and> may_meet now timer (h a) (h t)"

definition rated_ok ::
    "bg_heap \<Rightarrow> bg_ref list \<Rightarrow> bg_ref list \<Rightarrow> (bgGroupQueueInfo \<Rightarrow> bool) \<Rightarrow> u32 \<Rightarrow> u32 \<Rightarrow> bg_ref \<Rightarrow> bg_ref \<Rightarrow> rated_match \<Rightarrow> bool" where
  "rated_ok h ali horde fit now timer a t m \<longleftrightarrow>
     a \<noteq> t \<and> fit (h a) \<and> fit (h t) \<and> a \<in> set (rmAliOut m) \<and> t \<in> set (rmHordeOut m) \<and>
     mset (rmAliOut m @ rmHordeOut m) = mset (ali @ horde) \<and>
     rmHeap m =
       h(a := (h a)\<lparr>opponentsTeamRating := arenaTeamRating (h t), opponentsMatchmakerRating := arenaMatchmakerRating (h t)\<rparr>,
         t := (h t)\<lparr>opponentsTeamRating := arenaTeamRating (h a), opponentsMatchmakerRating := arenaMatchmakerRating (h a)\<rparr>) \<and>
     (case (first_index (fit \<circ> h) ali, first_index (fit \<circ> h) horde) of
        (Some i, Some j) \<Rightarrow> a = ali ! i \<and> t = horde ! j
      | (Some i, None) \<Rightarrow> same_queue_pair h ali fit now timer a t
      | (None, Some j) \<Rightarrow> same_queue_pair h horde fit now timer a t
      | (None, None) \<Rightarrow> False)"

lemma start_rating_any: "start_rating h ali horde r = (rating, any) \<Longrightarrow> ali \<noteq> [] \<or> horde \<noteq> [] \<Longrightarrow> any"
  by (auto simp: start_rating_def split: if_splits list.splits)

lemma move_teams:
  assumes "distinct (ali @ horde)" "\<forall>g \<in> set ali. bgTeam (h g) = teamAlliance" "\<forall>g \<in> set horde. bgTeam (h g) = teamHorde"
    and "find_teams h ali horde fit now timer = Some (t0, t1)"
  defines "a \<equiv> ([ali, horde] ! queuePos t0) ! indexPos t0" and "t \<equiv> ([ali, horde] ! queuePos t1) ! indexPos t1"
  shows "\<exists>aq hq ali' horde'. change_queue (wire_ratings a t h) teamAlliance a (indexPos t0) (ali, horde) = Inr (aq, hq) \<and>
    change_queue (wire_ratings a t h) teamHorde t (indexPos t1) (hq, aq) = Inr (horde', ali') \<and>
    rated_ok h ali horde fit now timer a t
      \<lparr>rmTeams = Some (a, t), rmRating = r, rmAliOut = ali', rmHordeOut = horde', rmHeap = wire_ratings a t h\<rparr>"
proof (cases "first_index (fit \<circ> h) ali")
  case None
  then obtain i where i: "first_index (fit \<circ> h) horde = Some i" "second_team h 1 horde i fit now timer = Some (t0, t1)"
    using assms(4) by (auto simp: find_teams_def split: option.splits)
  note fi = first_index_Some [OF i(1)]
  from second_team_Some [OF i(2)] fi obtain j where j: "t0 = \<lparr>queuePos = 1, indexPos = i\<rparr>" "t1 = \<lparr>queuePos = 1, indexPos = j\<rparr>"
    "i < j" "j < length horde" "fit (h (horde ! j))" "may_meet now timer (h (horde ! i)) (h (horde ! j))" by blast
  have at: "a = horde ! i" "t = horde ! j" "a \<noteq> t" using j fi assms(1) by (auto simp: a_def t_def nth_eq_iff_index_eq)
  have tags: "bgTeam (h a) = teamHorde" "bgTeam (h t) = teamHorde" using assms(3) fi j(4) by (auto simp: at)
  have keep: "t \<in> set (take i horde @ drop (i + 1) horde)"
    using cut_at_keeps [of i horde j] fi j(3,4) by (simp add: at)
  have bag: "add_mset a (mset (take i horde @ drop (i + 1) horde)) = mset horde"
    using cut_at_inside(2) [of i horde] fi by (simp add: at)
  have "change_queue (wire_ratings a t h) teamAlliance a (indexPos t0) (ali, horde) =
      Inr (a # ali, take i horde @ drop (i + 1) horde)"
    "change_queue (wire_ratings a t h) teamHorde t (indexPos t1) (take i horde @ drop (i + 1) horde, a # ali) =
      Inr (take i horde @ drop (i + 1) horde, a # ali)"
    using tags cut_at_inside(1) [of i horde] fi by (simp_all add: change_queue_def j(1))
  moreover have "rated_ok h ali horde fit now timer a t \<lparr>rmTeams = Some (a, t), rmRating = r, rmAliOut = a # ali,
      rmHordeOut = take i horde @ drop (i + 1) horde, rmHeap = wire_ratings a t h\<rparr>"
    using at(3) keep bag fi j(3-6) None i(1) nth_mem [OF j(4)]
    by (simp add: rated_ok_def wire_ratings_simp same_queue_pair_def at(1,2))
  ultimately show ?thesis by blast
next
  case (Some i)
  note fi = first_index_Some [OF Some]
  show ?thesis
  proof (cases "first_index (fit \<circ> h) horde")
    case None
    then have st: "second_team h 0 ali i fit now timer = Some (t0, t1)"
      using assms(4) Some by (auto simp: find_teams_def)
    from second_team_Some [OF st] fi obtain j where j: "t0 = \<lparr>queuePos = 0, indexPos = i\<rparr>" "t1 = \<lparr>queuePos = 0, indexPos = j\<rparr>"
      "i < j" "j < length ali" "fit (h (ali ! j))" "may_meet now timer (h (ali ! i)) (h (ali ! j))" by blast
    have at: "a = ali ! i" "t = ali ! j" "a \<noteq> t" using j fi assms(1) by (auto simp: a_def t_def nth_eq_iff_index_eq)
    have tags: "bgTeam (h a) = teamAlliance" "bgTeam (h t) = teamAlliance" using assms(2) fi j(4) by (auto simp: at)
    have keep: "a \<in> set (take j ali @ drop (j + 1) ali)"
      using cut_at_keeps [of j ali i] fi j(3,4) by (simp add: at)
    have bag: "add_mset t (mset (take j ali @ drop (j + 1) ali)) = mset ali"
      using cut_at_inside(2) [of j ali] j(4) by (simp add: at)
    have "change_queue (wire_ratings a t h) teamAlliance a (indexPos t0) (ali, horde) = Inr (ali, horde)"
      "change_queue (wire_ratings a t h) teamHorde t (indexPos t1) (horde, ali) =
        Inr (t # horde, take j ali @ drop (j + 1) ali)"
      using tags cut_at_inside(1) [of j ali] j(4) by (simp_all add: change_queue_def j(2))
    moreover have "rated_ok h ali horde fit now timer a t \<lparr>rmTeams = Some (a, t), rmRating = r,
        rmAliOut = take j ali @ drop (j + 1) ali, rmHordeOut = t # horde, rmHeap = wire_ratings a t h\<rparr>"
      using at(3) keep bag fi j(3-6) None Some nth_mem [OF j(4)]
      by (simp add: rated_ok_def wire_ratings_simp same_queue_pair_def at(1,2) add_ac)
    ultimately show ?thesis by blast
  next
    case (Some j)
    note fj = first_index_Some [OF Some]
    have t01: "t0 = \<lparr>queuePos = 0, indexPos = i\<rparr>" "t1 = \<lparr>queuePos = 1, indexPos = j\<rparr>"
      using assms(4) Some \<open>first_index (fit \<circ> h) ali = Some i\<close> by (auto simp: find_teams_def)
    have at: "a = ali ! i" "t = horde ! j" by (simp_all add: a_def t_def t01)
    have mem: "a \<in> set ali" "t \<in> set horde" using fi fj by (simp_all add: at)
    then have "a \<noteq> t" using assms(1) by auto
    then show ?thesis using mem assms(2,3) fi fj Some \<open>first_index (fit \<circ> h) ali = Some i\<close>
      by (simp add: change_queue_def rated_ok_def wire_ratings_simp at)
  qed
qed

text \<open>
  Rated arena matchmaking never panics on queues whose groups carry the tag of their side. Without a
  match nothing changes, and one queue has no eligible team. A match pairs two different eligible teams
  (uninvited, and in the rating window or past the discard time): the first eligible one of each queue
  when both queues have one, else two of one queue that may meet. Both end in the queue of the side they will play,
  no group is lost or duplicated, and each learns the other's ratings.
\<close>

theorem selectRatedArenaMatch_exact:
  fixes rating maxDiff now discardTimer prevTimer :: u32
  assumes "distinct (ali @ horde)" "\<forall>g \<in> set ali. bgTeam (h g) = teamAlliance"
    and "\<forall>g \<in> set horde. bgTeam (h g) = teamHorde"
  defines "fit \<equiv> qualifies (fst (start_rating h ali horde rating)) maxDiff now discardTimer"
  shows "\<exists>m. selectRatedArenaMatch h ali horde rating now maxDiff discardTimer prevTimer = Inr m \<and>
    (case rmTeams m of
       None \<Rightarrow> rmHeap m = h \<and> rmAliOut m = ali \<and> rmHordeOut m = horde \<and>
               ((\<forall>g \<in> set ali. \<not> fit (h g)) \<or> (\<forall>g \<in> set horde. \<not> fit (h g)))
     | Some (a, t) \<Rightarrow> rated_ok h ali horde fit now prevTimer a t m)"
proof -
  obtain r any where s: "start_rating h ali horde rating = (r, any)" by fastforce
  have fit: "qualifies r maxDiff now discardTimer = fit" by (simp add: fit_def s)
  let ?none = "\<lparr>rmTeams = None, rmRating = r, rmAliOut = ali, rmHordeOut = horde, rmHeap = h\<rparr>"
  show ?thesis
  proof (cases "any \<and> find_teams h ali horde fit now prevTimer \<noteq> None")
    case False
    have "(\<forall>g \<in> set ali. \<not> fit (h g)) \<or> (\<forall>g \<in> set horde. \<not> fit (h g))"
    proof (cases any)
      case True
      then have "find_teams h ali horde fit now prevTimer = None" using False by blast
      then have "first_index (fit \<circ> h) ali = None \<or> first_index (fit \<circ> h) horde = None"
        by (auto simp: find_teams_def split: option.splits)
      then show ?thesis by (simp add: first_index_None)
    next
      case False
      then show ?thesis using start_rating_any [OF s] by (cases ali) auto
    qed
    moreover have "selectRatedArenaMatch h ali horde rating now maxDiff discardTimer prevTimer = Inr ?none"
      using False by (cases any; cases "find_teams h ali horde fit now prevTimer")
        (simp_all add: selectRatedArenaMatch_def s fit Let_def)
    ultimately show ?thesis by auto
  next
    case True
    then obtain t0 t1 where t: "any" "find_teams h ali horde fit now prevTimer = Some (t0, t1)" by auto
    from move_teams [OF assms(1-3) t(2), of r] show ?thesis
      by (auto simp: selectRatedArenaMatch_def s fit Let_def t)
  qed
qed

definition arena_team :: "u32 \<Rightarrow> u32 \<Rightarrow> u32 \<Rightarrow> bgGroupQueueInfo" where
  "arena_team team arenaId mmr = newBGGroupQueueInfo 0 50000 6 2 arenaId True 1500 mmr 0 team [1, 2]"

definition arena_demo :: bg_heap where
  "arena_demo g = (if g = 0 then arena_team teamHorde 7 1500 else arena_team teamHorde 8 1550)"

theorem selectRatedArenaMatch_exact_witness:
  "\<exists>m. selectRatedArenaMatch arena_demo [] [0, 1] 0 60000 150 600000 600000 = Inr m \<and>
     rated_ok arena_demo [] [0, 1] (qualifies 1500 150 60000 600000) 60000 600000 0 1 m"
proof -
  have r: "selectRatedArenaMatch arena_demo [] [0, 1] 0 60000 150 600000 600000 =
    Inr \<lparr>rmTeams = Some (0, 1), rmRating = 1500, rmAliOut = [0], rmHordeOut = [1],
      rmHeap = wire_ratings 0 1 arena_demo\<rparr>"
    by (simp add: selectRatedArenaMatch_def start_rating_def find_teams_def second_team_def qualifies_def may_meet_def
      inWindow_def arena_demo_def arena_team_def newBGGroupQueueInfo_def change_queue_def cut_at_def Let_def)
  have s: "start_rating arena_demo [] [0, 1] 0 = (1500, True)"
    by (simp add: start_rating_def arena_demo_def arena_team_def newBGGroupQueueInfo_def)
  have tags: "\<forall>g \<in> set [0, 1]. bgTeam (arena_demo g) = teamHorde"
    by (simp add: arena_demo_def arena_team_def newBGGroupQueueInfo_def)
  from selectRatedArenaMatch_exact [OF _ _ tags, of "[]" 0 60000 150 600000 600000]
  show ?thesis unfolding r s fst_conv by auto
qed

end
