(* ===== verification/Go_Float.thy ===== *)
theory Go_Float
  imports Go_Prelude "HOL-Library.Log_Nat"
begin

text \<open>
  Arithmetic of \<open>float32\<close>. A value is counted in units of the smallest positive one, \<open>2 ^ - 149\<close>, so every
  finite \<open>float32\<close> is an integer and comparison is that of integers. An operation is exact arithmetic
  followed by rounding to 24 significant bits, ties to even; from \<open>2 ^ 128\<close> on it is an infinity, the integer
  \<open>f32_inf\<close>. Negative zero is not told apart from zero, and there is no NaN: the modelled code compares, adds
  and scales values, and subtracts infinities or scales them by zero nowhere.
\<close>

type_synonym f32v = int

definition f32_unit :: int where "f32_unit = 2 ^ 149"

definition f32_inf :: f32v where "f32_inf = 2 ^ 277"

text \<open>The quotient by \<open>2 ^ s\<close>, rounded to the nearest, ties to even.\<close>

definition round_even :: "int \<Rightarrow> nat \<Rightarrow> int" where
  "round_even n s =
     (let q = n div 2 ^ s; r = n mod 2 ^ s in
      if 2 * r > 2 ^ s \<or> 2 * r = 2 ^ s \<and> odd q then q + 1 else q)"

text \<open>Rounding of a number of units \<open>2 ^ - (149 + k)\<close>.\<close>

definition round_shift :: "nat \<Rightarrow> int \<Rightarrow> nat" where
  "round_shift k n = max k (nat (bitlen n - 24))"

definition round_mag :: "nat \<Rightarrow> int \<Rightarrow> f32v" where
  "round_mag k n = min f32_inf (round_even n (round_shift k n) * 2 ^ (round_shift k n - k))"

definition f32_round :: "nat \<Rightarrow> int \<Rightarrow> f32v" where
  "f32_round k n = (if n < 0 then - round_mag k (- n) else round_mag k n)"

definition f32_add :: "f32v \<Rightarrow> f32v \<Rightarrow> f32v" where
  "f32_add a b = (if \<bar>a\<bar> = f32_inf then a else if \<bar>b\<bar> = f32_inf then b else f32_round 0 (a + b))"

definition f32_mul :: "f32v \<Rightarrow> f32v \<Rightarrow> f32v" where
  "f32_mul a b = (if \<bar>a\<bar> = f32_inf \<or> \<bar>b\<bar> = f32_inf then sgn a * sgn b * f32_inf else f32_round 149 (a * b))"

definition f32_of_int :: "int \<Rightarrow> f32v" where
  "f32_of_int n = f32_round 0 (n * f32_unit)"

text \<open>Conversion of a non-negative value below \<open>2 ^ 63\<close> to \<open>uint32\<close>: the integer part, as amd64 computes it.\<close>

definition f32_to_u32 :: "f32v \<Rightarrow> u32" where
  "f32_to_u32 a = word_of_int (a div f32_unit)"

text \<open>The bit pattern of a non-negative value: the exponent field above the 23 bits of the fraction.\<close>

definition f32_bits :: "f32v \<Rightarrow> u32" where
  "f32_bits a =
     (if a < 2 ^ 23 then word_of_int a
      else let e = nat (bitlen a - 24) in word_of_int ((int e + 1) * 2 ^ 23 + (a div 2 ^ e - 2 ^ 23)))"

text \<open>The value of a bit pattern in units of \<open>2 ^ - 149\<close>. A bit pattern that is not a number reads as an infinity.\<close>

definition f32_value :: "u32 \<Rightarrow> f32v" where
  "f32_value w =
     (let e = unat (drop_bit 23 w AND 0xFF);
          m = uint (w AND 0x7FFFFF);
          v = (if e = 0 then m else if e = 255 then f32_inf else (m + 2 ^ 23) * 2 ^ (e - 1)) in
      if bit w 31 then - v else v)"

definition f32_ok :: "f32v \<Rightarrow> bool" where
  "f32_ok a \<longleftrightarrow> f32_round 0 a = a"

section \<open>Rounding is monotone\<close>

lemma round_even_exact: "round_even (q * 2 ^ s) s = q"
  by (simp add: round_even_def)

lemma round_even_mono: "n \<le> m \<Longrightarrow> round_even n s \<le> round_even m s"
proof -
  assume le: "n \<le> m"
  have q: "n div 2 ^ s \<le> m div 2 ^ s" using le by (rule zdiv_mono1) simp
  show ?thesis
  proof (cases "n div 2 ^ s = m div 2 ^ s")
    case True
    then have "n mod 2 ^ s \<le> m mod 2 ^ s"
      using le by (simp add: minus_div_mult_eq_mod [symmetric])
    then show ?thesis using True by (auto simp: round_even_def Let_def)
  next
    case False
    then show ?thesis using q by (auto simp: round_even_def Let_def)
  qed
qed

lemma round_even_nonneg: "0 \<le> n \<Longrightarrow> 0 \<le> round_even n s"
  using round_even_mono [of 0 n s] by (simp add: round_even_def)

lemma round_even_le: "n \<le> 2 ^ (k + s) \<Longrightarrow> round_even n s \<le> 2 ^ k"
  using round_even_mono [of n "2 ^ k * 2 ^ s" s] by (simp add: round_even_exact power_add)

lemma round_even_ge: "2 ^ (k + s) \<le> n \<Longrightarrow> 2 ^ k \<le> round_even n s"
  using round_even_mono [of "2 ^ k * 2 ^ s" n s] by (simp add: round_even_exact power_add)

lemma bitlen_mono: "0 \<le> n \<Longrightarrow> n \<le> m \<Longrightarrow> bitlen n \<le> bitlen m"
  by (auto simp: bitlen_def intro!: floorlog_mono)

lemma below_bitlen: "0 \<le> n \<Longrightarrow> n < 2 ^ nat (bitlen n)"
  using bitlen_bounds [of n] by (cases "n = 0") auto

lemma round_shift_mono: "0 \<le> n \<Longrightarrow> n \<le> m \<Longrightarrow> round_shift k n \<le> round_shift k m"
  using bitlen_mono [of n m] by (auto simp: round_shift_def)

lemma below_shift: "0 \<le> n \<Longrightarrow> n \<le> 2 ^ (24 + round_shift k n)"
proof -
  assume n: "0 \<le> n"
  have "nat (bitlen n) \<le> 24 + round_shift k n" by (auto simp: round_shift_def)
  then have "(2::int) ^ nat (bitlen n) \<le> 2 ^ (24 + round_shift k n)" by (rule power_increasing) simp
  from less_le_trans [OF below_bitlen [OF n] this] show ?thesis by (rule less_imp_le)
qed

lemma round_mag_mono:
  assumes "0 \<le> n" "n \<le> m"
  shows "round_mag k n \<le> round_mag k m"
proof -
  define s where "s = round_shift k n"
  define t where "t = round_shift k m"
  have st: "k \<le> s" "s \<le> t" using round_shift_mono [OF assms] by (simp_all add: s_def t_def round_shift_def)
  have "round_even n s * 2 ^ (s - k) \<le> round_even m t * 2 ^ (t - k)"
  proof (cases "s = t")
    case True
    then show ?thesis using round_even_mono [OF assms(2)] by (simp add: mult_right_mono)
  next
    case False
    with st have lt: "s < t" by simp
    then have t: "t = nat (bitlen m - 24)" "0 < t" using st(1) by (auto simp: t_def round_shift_def max_def split: if_splits)
    have "bitlen m > 24" using t by simp
    then have m: "0 < m" using assms by (cases "m = 0") auto
    have "23 + t = nat (bitlen m - 1)" using t \<open>bitlen m > 24\<close> by simp
    then have "2 ^ (23 + t) \<le> m" using bitlen_bounds [OF m] by simp
    then have hi: "2 ^ 23 \<le> round_even m t" by (rule round_even_ge)
    have lo: "round_even n s \<le> 2 ^ 24" using below_shift [OF assms(1), of k] by (intro round_even_le) (simp add: s_def)
    have "round_even n s * 2 ^ (s - k) \<le> 2 ^ 24 * 2 ^ (s - k)" using lo by (rule mult_right_mono) simp
    also have "\<dots> = 2 ^ 23 * 2 ^ (Suc s - k)" using st(1) by (simp add: Suc_diff_le)
    also have "\<dots> \<le> 2 ^ 23 * 2 ^ (t - k)" using lt by (intro mult_left_mono power_increasing) auto
    also have "\<dots> \<le> round_even m t * 2 ^ (t - k)" using hi by (rule mult_right_mono) simp
    finally show ?thesis .
  qed
  then show ?thesis by (simp add: round_mag_def s_def t_def)
qed

lemma round_mag_nonneg: "0 \<le> n \<Longrightarrow> 0 \<le> round_mag k n"
  by (simp add: round_mag_def round_even_nonneg f32_inf_def)

lemma round_mag_le: "round_mag k n \<le> f32_inf"
  by (simp add: round_mag_def)

lemma f32_inf_pos [simp]: "0 < f32_inf" "0 \<le> f32_inf" "f32_inf \<noteq> 0" "\<not> f32_inf < 0"
  by (simp_all add: f32_inf_def)

lemma f32_round_mono: "n \<le> m \<Longrightarrow> f32_round k n \<le> f32_round k m"
  using round_mag_mono [of n m k] round_mag_mono [of "- m" "- n" k]
    round_mag_nonneg [of "- n" k] round_mag_nonneg [of m k]
  by (auto simp: f32_round_def)

lemma f32_round_range: "\<bar>f32_round k n\<bar> \<le> f32_inf"
  using round_mag_nonneg [of n k] round_mag_nonneg [of "- n" k] round_mag_le [of k n] round_mag_le [of k "- n"]
  by (auto simp: f32_round_def)

lemma f32_round_nonneg: "0 \<le> n \<Longrightarrow> 0 \<le> f32_round k n"
  using round_mag_nonneg [of n k] by (simp add: f32_round_def)

lemma round_shift_scale: "0 < n \<Longrightarrow> round_shift k (n * 2 ^ k) = k + round_shift 0 n"
  using bitlen_nonneg [of n] by (simp add: round_shift_def max_def nat_add_distrib) linarith

lemma round_even_scale: "round_even (n * 2 ^ k) (k + s) = round_even n s"
proof -
  have "(2::int) ^ (k + s) = 2 ^ s * 2 ^ k" by (simp add: power_add mult.commute)
  then show ?thesis by (simp add: round_even_def Let_def mult_mod_right [symmetric] mult.commute [of _ "2 ^ k"])
qed

lemma f32_round_scale: "f32_round k (n * 2 ^ k) = f32_round 0 n"
proof -
  have "round_mag k (n * 2 ^ k) = round_mag 0 n" if "0 \<le> n" for n
    using that by (cases "n = 0") (simp_all add: round_mag_def round_shift_scale round_even_scale, simp add: round_even_def)
  from this [of n] this [of "- n"] show ?thesis
    by (auto simp: f32_round_def mult_less_0_iff zero_le_mult_iff)
qed

section \<open>Rounded values are representable\<close>

lemma round_mag_fix:
  assumes "0 \<le> n" "n \<le> f32_inf" "2 ^ nat (bitlen n - 24) dvd n"
  shows "round_mag 0 n = n"
proof -
  from assms(3) obtain q where "n = q * 2 ^ round_shift 0 n" unfolding round_shift_def by (metis dvd_def max_0L mult.commute)
  then have "round_even n (round_shift 0 n) * 2 ^ round_shift 0 n = n" by (metis round_even_exact)
  then show ?thesis using assms(2) by (simp add: round_mag_def)
qed

lemma short_dvd:
  assumes "0 \<le> q" "q \<le> 2 ^ 24"
  shows "2 ^ nat (bitlen (q * 2 ^ s) - 24) dvd q * 2 ^ s"
proof (cases "q = 0 \<or> q = 2 ^ 24")
  case True
  moreover have "bitlen (2 ^ 24 * 2 ^ s) = 25 + int s" using bitlen_pow2 [of 1 "24 + s"]
    by (simp add: power_add bitlen_def floorlog_def)
  moreover have "(2::int) ^ Suc s dvd 2 ^ 24 * 2 ^ s" by simp
  ultimately show ?thesis by (auto simp: nat_add_distrib)
next
  case False
  then have q: "0 < q" "q < 2 ^ 24" using assms by auto
  have "2 ^ nat (bitlen q - 1) < (2::int) ^ 24" using bitlen_bounds [OF q(1)] q(2) by linarith
  then have "nat (bitlen q - 1) < 24" by (rule power_less_imp_less_exp [rotated]) simp
  then have "nat (bitlen (q * 2 ^ s) - 24) \<le> s" using q(1) by simp
  then show ?thesis by (simp add: le_imp_power_dvd dvd_mult)
qed

lemma round_mag_idem: "0 \<le> n \<Longrightarrow> round_mag 0 (round_mag k n) = round_mag k n"
proof -
  assume n: "0 \<le> n"
  have "2 ^ nat (bitlen (round_mag k n) - 24) dvd round_mag k n"
  proof (cases "round_mag k n = f32_inf")
    case True
    show ?thesis using short_dvd [of 1 277] unfolding True by (simp add: f32_inf_def)
  next
    case False
    then have "round_mag k n = round_even n (round_shift k n) * 2 ^ (round_shift k n - k)"
      by (simp add: round_mag_def min_def split: if_splits)
    then show ?thesis using round_even_nonneg [OF n] round_even_le [OF below_shift [OF n]] short_dvd by metis
  qed
  then show ?thesis using round_mag_nonneg [OF n, of k] round_mag_le [of k n] by (intro round_mag_fix)
qed

lemma f32_ok_round [simp]: "f32_ok (f32_round k n)"
proof -
  have "0 \<le> round_mag k m \<and> round_mag 0 (round_mag k m) = round_mag k m" if "0 \<le> m" for m
    using that round_mag_idem round_mag_nonneg by blast
  from this [of n] this [of "- n"] show ?thesis
    by (cases "round_mag k (- n) = 0") (auto simp: f32_ok_def f32_round_def)
qed

lemma f32_ok_range: "f32_ok a \<Longrightarrow> \<bar>a\<bar> \<le> f32_inf"
  using f32_round_range [of 0 a] by (simp add: f32_ok_def)

lemma f32_ok_0 [simp]: "f32_ok 0"
  by (simp add: f32_ok_def f32_round_def round_mag_def round_even_def f32_inf_def)

lemma f32_ok_inf [simp]: "f32_ok f32_inf" "f32_ok (- f32_inf)"
proof -
  have "round_mag 0 f32_inf = f32_inf"
    using short_dvd [of 1 277] by (intro round_mag_fix) (simp_all add: f32_inf_def)
  then show "f32_ok f32_inf" "f32_ok (- f32_inf)" by (simp_all add: f32_ok_def f32_round_def)
qed

lemma f32_ok_add [simp]: "f32_ok a \<Longrightarrow> f32_ok b \<Longrightarrow> f32_ok (f32_add a b)"
  by (simp add: f32_add_def)

lemma f32_ok_mul [simp]: "f32_ok (f32_mul a b)"
  by (auto simp: f32_mul_def sgn_if)

section \<open>Laws of the operations\<close>

lemma f32_of_int_0 [simp]: "f32_of_int 0 = 0"
  using f32_ok_0 by (simp add: f32_of_int_def f32_ok_def)

lemma f32_add_0 [simp]: "f32_ok a \<Longrightarrow> f32_add a 0 = a" "f32_ok a \<Longrightarrow> f32_add 0 a = a"
  by (auto simp: f32_add_def f32_ok_def)

lemma f32_mul_mono:
  assumes "f32_ok a" "f32_ok b" "a \<le> b" "0 \<le> a" "0 \<le> c"
  shows "f32_mul a c \<le> f32_mul b c"
proof -
  have r: "a \<le> f32_inf" "b \<le> f32_inf" using f32_ok_range [OF assms(1)] f32_ok_range [OF assms(2)] by simp_all
  have "f32_round 149 (a * c) \<le> f32_round 149 (b * c)" using assms by (intro f32_round_mono mult_right_mono)
  moreover have "f32_round 149 (a * c) \<le> f32_inf" "0 \<le> f32_round 149 (b * c)"
    using f32_round_range [of 149 "a * c"] f32_round_nonneg [of "b * c" 149] assms by auto
  moreover have "f32_round 149 0 = 0" by (simp add: f32_round_def round_mag_def round_even_def f32_inf_def)
  ultimately show ?thesis using assms r by (auto simp: f32_mul_def sgn_if)
qed

lemma f32_mul_ge:
  assumes "f32_ok a" "0 \<le> a" "f32_unit \<le> c"
  shows "a \<le> f32_mul a c"
proof -
  have "a * 2 ^ 149 \<le> a * c" using assms by (intro mult_left_mono) (simp_all add: f32_unit_def)
  then have "f32_round 149 (a * 2 ^ 149) \<le> f32_round 149 (a * c)" by (rule f32_round_mono)
  then have "a \<le> f32_round 149 (a * c)" using assms(1) unfolding f32_round_scale f32_ok_def by simp
  moreover have "0 < c" "a \<le> f32_inf" using assms f32_ok_range [OF assms(1)] by (simp_all add: f32_unit_def)
  ultimately show ?thesis using assms(2) by (auto simp: f32_mul_def sgn_if)
qed

lemma f32_mul_mono_right:
  assumes "0 \<le> a" "0 \<le> c" "c \<le> d" "d < f32_inf"
  shows "f32_mul a c \<le> f32_mul a d"
proof -
  have "f32_round 149 (a * c) \<le> f32_round 149 (a * d)" using assms by (intro f32_round_mono mult_left_mono)
  moreover have "\<bar>c\<bar> \<noteq> f32_inf" "\<bar>d\<bar> \<noteq> f32_inf" using assms by auto
  ultimately show ?thesis using assms by (auto simp: f32_mul_def sgn_if)
qed

end
