(* ===== verification/Threat.thy ===== *)
theory Threat
  imports Go_Float "HOL-Library.Product_Lexorder"
begin

text \<open>
  \<^verbatim>\<open>engine/world/threat.go\<close>: the threat list of a creature and the choice of its victim. Every method is one
  step under the mutex; \<open>now\<close> is the clock, read once per method. The manager exists (the methods answer a nil
  receiver with zero values at once). A nil map is an empty one.
\<close>

section \<open>The manager\<close>

record ThreatManager =
  ownerGUID :: u64
  currentVictim :: u64
  entries :: "(u64, f32v) gomap"
  lastClientSync :: int
  ownerCanHaveThreatList :: bool
  updateTimerMs :: int
  fixateGUID :: u64
  tauntExpiry :: "(u64, int) gomap"
  detauntExpiry :: "(u64, int) gomap"
  tempMods :: "(u64, int) gomap"
  suppressed :: "(u64, bool) gomap"
  suppressDeferred :: "(u64, bool) gomap"
  offline :: "(u64, bool) gomap"
  needClientUpdate :: bool

abbreviation (input) threatUpdateIntervalMs :: int where "threatUpdateIntervalMs \<equiv> 1000"

text \<open>What the manager reads of a creature motion.\<close>

record motion_owner =
  moGUID :: u64
  moOwnerGUID :: u64
  moCharmed :: bool

definition motionCanHaveThreatList :: "motion_owner option \<Rightarrow> bool" where
  "motionCanHaveThreatList motion =
     (case motion of None \<Rightarrow> True | Some m \<Rightarrow> moOwnerGUID m = 0 \<or> moCharmed m)"

definition NewThreatManager :: "motion_owner option \<Rightarrow> ThreatManager" where
  "NewThreatManager motion =
     \<lparr>ownerGUID = (case motion of None \<Rightarrow> 0 | Some m \<Rightarrow> moGUID m), currentVictim = 0, entries = [],
      lastClientSync = zero_time, ownerCanHaveThreatList = motionCanHaveThreatList motion,
      updateTimerMs = threatUpdateIntervalMs, fixateGUID = 0, tauntExpiry = [], detauntExpiry = [],
      tempMods = [], suppressed = [], suppressDeferred = [], offline = [], needClientUpdate = False\<rparr>"

definition has_entry :: "ThreatManager \<Rightarrow> u64 \<Rightarrow> bool" where
  "has_entry tm v \<longleftrightarrow> gget (entries tm) v \<noteq> None"

text \<open>Reading a missing key gives the zero value.\<close>

definition flag :: "(u64, bool) gomap \<Rightarrow> u64 \<Rightarrow> bool" where
  "flag m v \<longleftrightarrow> gget m v = Some True"

definition read_or :: "'v \<Rightarrow> ('k, 'v) gomap \<Rightarrow> 'k \<Rightarrow> 'v" where
  "read_or d m k = (case gget m k of None \<Rightarrow> d | Some v \<Rightarrow> v)"

definition effectiveThreatLocked :: "ThreatManager \<Rightarrow> u64 \<Rightarrow> f32v" where
  "effectiveThreatLocked tm victim =
     (let threat = f32_add (read_or 0 (entries tm) victim) (f32_of_int (read_or 0 (tempMods tm) victim)) in
      if threat < 0 then 0 else threat)"

definition SetTempModifier :: "u64 \<Rightarrow> int \<Rightarrow> ThreatManager \<Rightarrow> ThreatManager" where
  "SetTempModifier victim m tm =
     (if victim = 0 \<or> \<not> has_entry tm victim then tm
      else if m = 0 then tm\<lparr>tempMods := gdel victim (tempMods tm)\<rparr>
      else tm\<lparr>tempMods := gput victim m (tempMods tm)\<rparr>)"

definition HasThreatEntry :: "ThreatManager \<Rightarrow> u64 \<Rightarrow> bool" where
  "HasThreatEntry tm victim \<longleftrightarrow> victim \<noteq> 0 \<and> has_entry tm victim"

definition OwnerCanHaveThreatList :: "ThreatManager \<Rightarrow> bool" where
  "OwnerCanHaveThreatList tm = ownerCanHaveThreatList tm"

definition FixateTarget :: "u64 \<Rightarrow> ThreatManager \<Rightarrow> ThreatManager" where
  "FixateTarget victim tm =
     (if victim \<noteq> 0 \<and> has_entry tm victim then tm\<lparr>fixateGUID := victim\<rparr> else tm\<lparr>fixateGUID := 0\<rparr>)"

definition GetFixateTarget :: "ThreatManager \<Rightarrow> u64" where
  "GetFixateTarget tm = fixateGUID tm"

section \<open>Taunts\<close>

definition expiry :: "int \<Rightarrow> int \<Rightarrow> int" where
  "expiry now durationMs = (if durationMs > 0 then now + durationMs * 1000000 else zero_time)"

definition ApplyTaunt :: "int \<Rightarrow> u64 \<Rightarrow> int \<Rightarrow> ThreatManager \<Rightarrow> ThreatManager" where
  "ApplyTaunt now victim durationMs tm =
     (if victim = 0 then tm
      else tm\<lparr>tauntExpiry := gput victim (expiry now durationMs) (tauntExpiry tm), needClientUpdate := True\<rparr>)"

definition ClearTaunt :: "u64 \<Rightarrow> ThreatManager \<Rightarrow> ThreatManager" where
  "ClearTaunt victim tm =
     (if victim = 0 then tm
      else tm\<lparr>tauntExpiry := gdel victim (tauntExpiry tm), needClientUpdate := True\<rparr>)"

definition ApplyDetaunt :: "int \<Rightarrow> u64 \<Rightarrow> int \<Rightarrow> ThreatManager \<Rightarrow> ThreatManager" where
  "ApplyDetaunt now victim durationMs tm =
     (if victim = 0 then tm
      else tm\<lparr>detauntExpiry := gput victim (expiry now durationMs) (detauntExpiry tm), needClientUpdate := True\<rparr>)"

definition ClearDetaunt :: "u64 \<Rightarrow> ThreatManager \<Rightarrow> ThreatManager" where
  "ClearDetaunt victim tm =
     (if victim = 0 then tm
      else tm\<lparr>detauntExpiry := gdel victim (detauntExpiry tm), needClientUpdate := True\<rparr>)"

abbreviation (input) tauntStateDetaunt :: nat where "tauntStateDetaunt \<equiv> 0"
abbreviation (input) tauntStateNone :: nat where "tauntStateNone \<equiv> 1"
abbreviation (input) tauntStateTaunt :: nat where "tauntStateTaunt \<equiv> 2"

text \<open>An expiry in the past is removed on reading.\<close>

definition expired :: "int \<Rightarrow> int \<Rightarrow> bool" where
  "expired now e \<longleftrightarrow> e \<noteq> zero_time \<and> now > e"

definition isDetauntedLocked :: "int \<Rightarrow> u64 \<Rightarrow> ThreatManager \<Rightarrow> bool \<times> ThreatManager" where
  "isDetauntedLocked now victim tm =
     (case gget (detauntExpiry tm) victim of
        None \<Rightarrow> (False, tm)
      | Some e \<Rightarrow> if expired now e then (False, tm\<lparr>detauntExpiry := gdel victim (detauntExpiry tm)\<rparr>) else (True, tm))"

definition isTauntedLocked :: "int \<Rightarrow> u64 \<Rightarrow> ThreatManager \<Rightarrow> bool \<times> ThreatManager" where
  "isTauntedLocked now victim tm =
     (case gget (tauntExpiry tm) victim of
        None \<Rightarrow> (False, tm)
      | Some e \<Rightarrow> if expired now e then (False, tm\<lparr>tauntExpiry := gdel victim (tauntExpiry tm)\<rparr>) else (True, tm))"

definition IsDetaunted :: "int \<Rightarrow> u64 \<Rightarrow> ThreatManager \<Rightarrow> bool \<times> ThreatManager" where
  "IsDetaunted now victim tm = (if victim = 0 then (False, tm) else isDetauntedLocked now victim tm)"

definition IsTaunted :: "int \<Rightarrow> u64 \<Rightarrow> ThreatManager \<Rightarrow> bool \<times> ThreatManager" where
  "IsTaunted now victim tm = (if victim = 0 then (False, tm) else isTauntedLocked now victim tm)"

definition tauntStateLocked :: "int \<Rightarrow> u64 \<Rightarrow> ThreatManager \<Rightarrow> nat \<times> ThreatManager" where
  "tauntStateLocked now victim tm =
     (case isTauntedLocked now victim tm of
        (True, tm') \<Rightarrow> (tauntStateTaunt, tm')
      | (False, tm') \<Rightarrow>
          (case isDetauntedLocked now victim tm' of
             (True, tm'') \<Rightarrow> (tauntStateDetaunt, tm'')
           | (False, tm'') \<Rightarrow> (tauntStateNone, tm'')))"

text \<open>The loop visits the map in its order and stops at the first live taunt.\<close>

primrec any_taunt :: "int \<Rightarrow> (u64 \<times> int) list \<Rightarrow> ThreatManager \<Rightarrow> bool \<times> ThreatManager" where
  "any_taunt now [] tm = (False, tm)"
| "any_taunt now (p # ps) tm =
     (if snd p = zero_time \<or> now < snd p then (True, tm)
      else any_taunt now ps (tm\<lparr>tauntExpiry := gdel (fst p) (tauntExpiry tm)\<rparr>))"

definition HasAnyTaunt :: "int \<Rightarrow> ThreatManager \<Rightarrow> bool \<times> ThreatManager" where
  "HasAnyTaunt now tm = any_taunt now (tauntExpiry tm) tm"

section \<open>Suppressed and offline victims\<close>

definition isSuppressedLocked :: "ThreatManager \<Rightarrow> u64 \<Rightarrow> bool" where
  "isSuppressedLocked tm victim = flag (suppressed tm) victim"

definition isOfflineLocked :: "ThreatManager \<Rightarrow> u64 \<Rightarrow> bool" where
  "isOfflineLocked tm victim = flag (offline tm) victim"

definition SuppressVictim :: "int \<Rightarrow> u64 \<Rightarrow> ThreatManager \<Rightarrow> ThreatManager" where
  "SuppressVictim now victim tm =
     (if victim = 0 \<or> \<not> has_entry tm victim then tm
      else case isTauntedLocked now victim tm of
        (True, tm') \<Rightarrow>
          if \<not> isSuppressedLocked tm' victim
          then tm'\<lparr>suppressDeferred := gput victim True (suppressDeferred tm')\<rparr> else tm'
      | (False, tm') \<Rightarrow>
          let tm'' = tm'\<lparr>suppressDeferred := gdel victim (suppressDeferred tm')\<rparr> in
          if \<not> isSuppressedLocked tm'' victim
          then tm''\<lparr>suppressed := gput victim True (suppressed tm''), needClientUpdate := True\<rparr>
          else tm'')"

definition IsOffline :: "ThreatManager \<Rightarrow> u64 \<Rightarrow> bool" where
  "IsOffline tm victim \<longleftrightarrow> victim \<noteq> 0 \<and> isOfflineLocked tm victim"

definition IsSuppressed :: "ThreatManager \<Rightarrow> u64 \<Rightarrow> bool" where
  "IsSuppressed tm victim \<longleftrightarrow> victim \<noteq> 0 \<and> isSuppressedLocked tm victim"

definition IsSuppressDeferred :: "ThreatManager \<Rightarrow> u64 \<Rightarrow> bool" where
  "IsSuppressDeferred tm victim \<longleftrightarrow> victim \<noteq> 0 \<and> flag (suppressDeferred tm) victim"

definition PromoteSuppressedVictim :: "u64 \<Rightarrow> ThreatManager \<Rightarrow> ThreatManager" where
  "PromoteSuppressedVictim victim tm =
     (if victim = 0 \<or> \<not> has_entry tm victim then tm
      else tm\<lparr>suppressed := gdel victim (suppressed tm), suppressDeferred := gdel victim (suppressDeferred tm)\<rparr>)"

definition EntryGUIDs :: "ThreatManager \<Rightarrow> u64 list" where
  "EntryGUIDs tm = gkeys (entries tm)"

definition known_flags :: "ThreatManager \<Rightarrow> (u64, bool) gomap \<Rightarrow> (u64, bool) gomap" where
  "known_flags tm fl =
     fold (\<lambda>guid m. if has_entry tm guid then gput guid True m else m) (gkeys fl) []"

definition SetOfflineSet :: "(u64, bool) gomap \<Rightarrow> ThreatManager \<Rightarrow> ThreatManager" where
  "SetOfflineSet fl tm = tm\<lparr>offline := known_flags tm fl\<rparr>"

definition SetSuppressedSet :: "(u64, bool) gomap \<Rightarrow> (u64, bool) gomap \<Rightarrow> ThreatManager \<Rightarrow> ThreatManager" where
  "SetSuppressedSet fl deferred tm =
     tm\<lparr>suppressed := known_flags tm fl, suppressDeferred := known_flags tm deferred\<rparr>"

definition SeedNewVictimState :: "u64 \<Rightarrow> bool \<Rightarrow> bool \<Rightarrow> ThreatManager \<Rightarrow> ThreatManager" where
  "SeedNewVictimState victim isOffline isSuppressed tm =
     (if victim = 0 \<or> \<not> isOffline \<and> \<not> isSuppressed \<or> has_entry tm victim then tm
      else let tm = (if isOffline then tm\<lparr>offline := gput victim True (offline tm)\<rparr> else tm) in
           if isSuppressed then tm\<lparr>suppressed := gput victim True (suppressed tm)\<rparr> else tm)"

section \<open>Choosing the victim\<close>

text \<open>The factors \<open>1.1\<close> and \<open>1.3\<close> as \<open>float32\<close> constants.\<close>

definition weight11 :: f32v where "weight11 = 9227469 * 2 ^ 126"
definition weight13 :: f32v where "weight13 = 10905190 * 2 ^ 126"

record candidate =
  cGuid :: u64
  cThreat :: f32v
  cTaunt :: nat
  cSuppressed :: bool

definition compareRefsLTLocked :: "candidate \<Rightarrow> candidate \<Rightarrow> f32v \<Rightarrow> bool" where
  "compareRefsLTLocked old cand weight =
     (if cSuppressed old \<noteq> cSuppressed cand then cSuppressed old
      else if cTaunt old \<noteq> cTaunt cand then cTaunt old < cTaunt cand
      else f32_mul (cThreat old) weight < cThreat cand)"

text \<open>The reference of one victim, read now; the taunt state may drop an expired aura.\<close>

definition candidate_of :: "int \<Rightarrow> u64 \<Rightarrow> ThreatManager \<Rightarrow> candidate \<times> ThreatManager" where
  "candidate_of now guid tm =
     (let (st, tm') = tauntStateLocked now guid tm in
      (\<lparr>cGuid = guid, cThreat = effectiveThreatLocked tm guid, cTaunt = st,
        cSuppressed = isSuppressedLocked tm guid\<rparr>, tm'))"

primrec collect :: "int \<Rightarrow> u64 list \<Rightarrow> ThreatManager \<Rightarrow> candidate list \<times> ThreatManager" where
  "collect now [] tm = ([], tm)"
| "collect now (guid # guids) tm =
     (if isOfflineLocked tm guid then collect now guids tm
      else let (c, tm') = candidate_of now guid tm; (cs, tm'') = collect now guids tm' in (c # cs, tm''))"

text \<open>
  \<open>sort.Slice\<close> puts equals in any order. The order of the map is open as well, so a stable sort of every
  order covers all outcomes.
\<close>

definition rank :: "candidate \<Rightarrow> bool \<times> int \<times> int" where
  "rank c = (cSuppressed c, - int (cTaunt c), - cThreat c)"

definition sort_candidates :: "candidate list \<Rightarrow> candidate list" where
  "sort_candidates cs = sort_key rank cs"

primrec walk :: "candidate \<Rightarrow> (u64 \<Rightarrow> bool) \<Rightarrow> candidate list \<Rightarrow> u64" where
  "walk old inMelee [] = cGuid old"
| "walk old inMelee (c # cs) =
     (if cGuid c = cGuid old then cGuid old
      else if \<not> compareRefsLTLocked old c weight11 then cGuid old
      else if inMelee (cGuid c) then cGuid c
      else walk old inMelee cs)"

text \<open>A nil predicate puts nobody in melee range.\<close>

definition melee_of :: "(u64 \<Rightarrow> bool) option \<Rightarrow> u64 \<Rightarrow> bool" where
  "melee_of inMelee guid = (case inMelee of None \<Rightarrow> False | Some f \<Rightarrow> f guid)"

definition available :: "ThreatManager \<Rightarrow> u64 \<Rightarrow> bool" where
  "available tm v \<longleftrightarrow> has_entry tm v \<and> \<not> isOfflineLocked tm v"

definition reselectVictimLocked :: "int \<Rightarrow> (u64 \<Rightarrow> bool) option \<Rightarrow> ThreatManager \<Rightarrow> u64 \<times> ThreatManager" where
  "reselectVictimLocked now inMelee tm =
     (if entries tm = [] then (0, tm)
      else if fixateGUID tm \<noteq> 0 \<and> available tm (fixateGUID tm) then (fixateGUID tm, tm)
      else
        let tm = tm\<lparr>fixateGUID := 0\<rparr>;
            (cands, tm) = collect now (gkeys (entries tm)) tm in
        if cands = [] then (0, tm)
        else
          let cands = sort_candidates cands;
              old = (if available tm (currentVictim tm) then currentVictim tm else 0);
              highest = hd cands in
          if old = 0 \<or> cGuid highest = old then (cGuid highest, tm)
          else
            let (oldRef, tm) = candidate_of now old tm in
            if \<not> compareRefsLTLocked oldRef highest weight11 then (old, tm)
            else if compareRefsLTLocked oldRef highest weight13 then (cGuid highest, tm)
            else if melee_of inMelee (cGuid highest) then (cGuid highest, tm)
            else (walk oldRef (melee_of inMelee) (tl cands), tm))"

definition purge_expired :: "int \<Rightarrow> (u64, int) gomap \<Rightarrow> (u64, int) gomap" where
  "purge_expired now m = filter (\<lambda>p. \<not> expired now (snd p)) m"

definition Update ::
    "int \<Rightarrow> int \<Rightarrow> (u64 \<Rightarrow> bool) option \<Rightarrow> ThreatManager \<Rightarrow> (bool \<times> u64 \<times> bool) \<times> ThreatManager" where
  "Update now elapsedMs inMelee tm =
     (if \<not> ownerCanHaveThreatList tm \<or> entries tm = [] then ((False, currentVictim tm, False), tm)
      else
        let tm = tm\<lparr>updateTimerMs := updateTimerMs tm - elapsedMs\<rparr> in
        if updateTimerMs tm > 0 then ((False, currentVictim tm, False), tm)
        else
          let tm = tm\<lparr>updateTimerMs := threatUpdateIntervalMs\<rparr>;
              tm = tm\<lparr>tauntExpiry := purge_expired now (tauntExpiry tm)\<rparr>;
              (newVictim, tm) = reselectVictimLocked now inMelee tm;
              dirty = needClientUpdate tm;
              tm = tm\<lparr>needClientUpdate := False\<rparr> in
          if newVictim \<noteq> currentVictim tm
          then ((True, newVictim, dirty), tm\<lparr>currentVictim := newVictim\<rparr>)
          else ((False, currentVictim tm, dirty), tm))"

definition GetCurrentVictim :: "int \<Rightarrow> ThreatManager \<Rightarrow> u64 \<times> ThreatManager" where
  "GetCurrentVictim now tm =
     (if currentVictim tm \<noteq> 0 \<and> (\<not> has_entry tm (currentVictim tm) \<or> isOfflineLocked tm (currentVictim tm))
      then let (v, tm) = reselectVictimLocked now None tm in (v, tm\<lparr>currentVictim := v\<rparr>)
      else (currentVictim tm, tm))"

section \<open>Threat values\<close>

text \<open>The second half of \<open>AddThreat\<close>: who is the victim after the add.\<close>

definition add_select :: "int \<Rightarrow> u64 \<Rightarrow> f32v \<Rightarrow> bool \<Rightarrow> ThreatManager \<Rightarrow> (bool \<times> u64) \<times> ThreatManager" where
  "add_select now victim newThreat inMelee tm =
     (if fixateGUID tm \<noteq> 0 \<and> available tm (fixateGUID tm)
      then ((currentVictim tm \<noteq> fixateGUID tm, fixateGUID tm), tm\<lparr>currentVictim := fixateGUID tm\<rparr>)
      else
        let tm = tm\<lparr>fixateGUID := 0\<rparr> in
        if currentVictim tm = 0 \<or> currentVictim tm = victim then
          if isOfflineLocked tm victim then ((False, currentVictim tm), tm)
          else ((False, victim), tm\<lparr>currentVictim := victim\<rparr>)
        else
          let (addTauntState, tm) = tauntStateLocked now victim tm;
              (currTauntState, tm) = tauntStateLocked now (currentVictim tm) tm in
          if addTauntState \<noteq> currTauntState then
            if addTauntState > currTauntState then ((True, victim), tm\<lparr>currentVictim := victim\<rparr>)
            else ((False, currentVictim tm), tm)
          else
            let currThreat = effectiveThreatLocked tm (currentVictim tm);
                threshold = f32_mul currThreat (if inMelee then weight11 else weight13) in
            if newThreat > threshold then ((True, victim), tm\<lparr>currentVictim := victim\<rparr>)
            else ((False, currentVictim tm), tm))"

definition AddThreat :: "int \<Rightarrow> u64 \<Rightarrow> f32v \<Rightarrow> bool \<Rightarrow> ThreatManager \<Rightarrow> (bool \<times> u64) \<times> ThreatManager" where
  "AddThreat now victim amount inMelee tm =
     (if victim = 0 \<or> \<not> ownerCanHaveThreatList tm then ((False, currentVictim tm), tm)
      else case gget (entries tm) victim of
        None \<Rightarrow>
          let amount = (if amount < 0 then 0 else amount);
              newThreat = (if isOfflineLocked tm victim \<or> isSuppressedLocked tm victim then 0 else amount);
              tm = tm\<lparr>entries := gput victim newThreat (entries tm), needClientUpdate := True\<rparr> in
          if currentVictim tm = 0 \<and> \<not> isOfflineLocked tm victim
          then ((False, victim), tm\<lparr>currentVictim := victim\<rparr>)
          else add_select now victim newThreat inMelee tm
      | Some oldThreat \<Rightarrow>
          if amount = 0 \<or> isOfflineLocked tm victim \<or> isSuppressedLocked tm victim
          then ((False, currentVictim tm), tm)
          else
            let newThreat = f32_add oldThreat amount;
                newThreat = (if newThreat < 0 then 0 else newThreat);
                tm = tm\<lparr>entries := gput victim newThreat (entries tm), needClientUpdate := True\<rparr> in
            add_select now victim (effectiveThreatLocked tm victim) inMelee tm)"

definition SetThreat :: "u64 \<Rightarrow> f32v \<Rightarrow> ThreatManager \<Rightarrow> (bool \<times> u64) \<times> ThreatManager" where
  "SetThreat victim amount tm =
     (if victim = 0 then ((False, currentVictim tm), tm)
      else
        let tm = tm\<lparr>entries := gput victim amount (entries tm), needClientUpdate := True\<rparr> in
        if currentVictim tm = 0 \<or> effectiveThreatLocked tm victim > effectiveThreatLocked tm (currentVictim tm)
        then ((True, victim), tm\<lparr>currentVictim := victim\<rparr>)
        else ((False, currentVictim tm), tm))"

definition match_highest :: "candidate list \<Rightarrow> candidate" where
  "match_highest cands =
     (let highest = hd cands in
      if cTaunt highest = tauntStateTaunt \<and> length cands > 1 \<and> cThreat (cands ! 1) > cThreat highest
      then cands ! 1 else highest)"

definition new_ref :: "u64 \<Rightarrow> ThreatManager \<Rightarrow> ThreatManager" where
  "new_ref victim tm =
     (if \<not> has_entry tm victim
      then tm\<lparr>entries := gput victim 0 (entries tm), needClientUpdate := True\<rparr> else tm)"

definition match_add :: "u64 \<Rightarrow> f32v \<Rightarrow> ThreatManager \<Rightarrow> ThreatManager" where
  "match_add victim delta tm =
     (if delta \<noteq> 0 \<and> \<not> isOfflineLocked tm victim \<and> \<not> isSuppressedLocked tm victim
      then let newThreat = f32_add (read_or 0 (entries tm) victim) delta;
               newThreat = (if newThreat < 0 then 0 else newThreat) in
           tm\<lparr>entries := gput victim newThreat (entries tm), needClientUpdate := True\<rparr>
      else tm)"

definition match_select :: "int \<Rightarrow> ThreatManager \<Rightarrow> (bool \<times> u64) \<times> ThreatManager" where
  "match_select now tm =
     (if currentVictim tm = 0 then
        let (nv, tm) = reselectVictimLocked now None tm in
        if nv \<noteq> 0 \<and> nv \<noteq> currentVictim tm then ((True, nv), tm\<lparr>currentVictim := nv\<rparr>)
        else ((False, currentVictim tm), tm)
      else ((False, currentVictim tm), tm))"

definition MatchUnitThreatToHighestThreat :: "int \<Rightarrow> u64 \<Rightarrow> ThreatManager \<Rightarrow> (bool \<times> u64) \<times> ThreatManager" where
  "MatchUnitThreatToHighestThreat now victim tm =
     (if victim = 0 \<or> entries tm = [] then ((False, currentVictim tm), tm)
      else
        let (cands, tm) = collect now (gkeys (entries tm)) tm in
        if cands = [] then ((False, currentVictim tm), tm)
        else
          let highest = match_highest (sort_candidates cands);
              delta = f32_add (cThreat highest) (- effectiveThreatLocked tm victim) in
          match_select now (match_add victim delta (new_ref victim tm)))"

definition RemoveThreat :: "int \<Rightarrow> u64 \<Rightarrow> ThreatManager \<Rightarrow> (bool \<times> u64) \<times> ThreatManager" where
  "RemoveThreat now victim tm =
     (let tm = tm\<lparr>entries := gdel victim (entries tm)\<rparr>;
          tm = tm\<lparr>tempMods := gdel victim (tempMods tm)\<rparr>;
          tm = tm\<lparr>suppressed := gdel victim (suppressed tm)\<rparr>;
          tm = tm\<lparr>suppressDeferred := gdel victim (suppressDeferred tm)\<rparr>;
          tm = (if fixateGUID tm = victim then tm\<lparr>fixateGUID := 0\<rparr> else tm);
          tm = tm\<lparr>tauntExpiry := gdel victim (tauntExpiry tm)\<rparr>;
          tm = tm\<lparr>offline := gdel victim (offline tm)\<rparr> in
      if currentVictim tm = victim then
        let (v, tm) = reselectVictimLocked now None (tm\<lparr>currentVictim := 0\<rparr>);
            tm = tm\<lparr>currentVictim := v\<rparr> in
        ((True, v), tm)
      else ((False, currentVictim tm), tm))"

definition ScaleThreat :: "u64 \<Rightarrow> f32v \<Rightarrow> ThreatManager \<Rightarrow> (bool \<times> u64) \<times> ThreatManager" where
  "ScaleThreat victim factor tm =
     (if victim = 0 \<or> factor = f32_unit then ((False, currentVictim tm), tm)
      else case gget (entries tm) victim of
        None \<Rightarrow> ((False, currentVictim tm), tm)
      | Some threat \<Rightarrow>
          let factor = (if factor < 0 then 0 else factor);
              tm = tm\<lparr>entries := gput victim (f32_mul threat factor) (entries tm), needClientUpdate := True\<rparr> in
          ((False, currentVictim tm), tm))"

definition HasVictim :: "ThreatManager \<Rightarrow> u64 \<Rightarrow> bool" where
  "HasVictim tm victim = has_entry tm victim"

definition ResetThreat :: "ThreatManager \<Rightarrow> ThreatManager" where
  "ResetThreat tm = tm\<lparr>entries := gmap_vals (\<lambda>_ _. 0) (entries tm)\<rparr>"

definition ClearThreat :: "ThreatManager \<Rightarrow> ThreatManager" where
  "ClearThreat tm =
     tm\<lparr>entries := [], tempMods := [], suppressed := [], offline := [], currentVictim := 0, fixateGUID := 0,
        tauntExpiry := []\<rparr>"

definition GetThreat :: "ThreatManager \<Rightarrow> u64 \<Rightarrow> f32v" where
  "GetThreat tm victim = effectiveThreatLocked tm victim"

definition IsEmpty :: "ThreatManager \<Rightarrow> bool" where
  "IsEmpty tm \<longleftrightarrow> entries tm = []"

section \<open>Lists for clients\<close>

record ThreatEntry =
  teVictimGUID :: u64
  teThreat :: u32

definition threat_entry :: "ThreatManager \<Rightarrow> u64 \<Rightarrow> ThreatEntry" where
  "threat_entry tm guid =
     \<lparr>teVictimGUID = guid, teThreat = f32_to_u32 (f32_mul (effectiveThreatLocked tm guid) (100 * f32_unit))\<rparr>"

definition sortedEntriesLocked :: "bool \<Rightarrow> ThreatManager \<Rightarrow> ThreatEntry list" where
  "sortedEntriesLocked availableOnly tm =
     sort_key (\<lambda>e. - uint (teThreat e))
       (map (threat_entry tm) (filter (\<lambda>guid. \<not> (availableOnly \<and> isOfflineLocked tm guid)) (gkeys (entries tm))))"

definition SortedEntries :: "ThreatManager \<Rightarrow> ThreatEntry list" where
  "SortedEntries tm = sortedEntriesLocked False tm"

definition SortedEntriesAvailable :: "ThreatManager \<Rightarrow> ThreatEntry list" where
  "SortedEntriesAvailable tm = sortedEntriesLocked True tm"

record threatDebugEntry =
  dbgVictimGUID :: u64
  dbgThreat :: f32v
  dbgTaunted :: bool
  dbgDetaunted :: bool
  dbgSuppressed :: bool
  dbgOffline :: bool

primrec debug_rows :: "int \<Rightarrow> u64 list \<Rightarrow> ThreatManager \<Rightarrow> threatDebugEntry list \<times> ThreatManager" where
  "debug_rows now [] tm = ([], tm)"
| "debug_rows now (guid # guids) tm =
     (let threat = effectiveThreatLocked tm guid;
          (t, tm) = isTauntedLocked now guid tm;
          (d, tm) = isDetauntedLocked now guid tm;
          row = \<lparr>dbgVictimGUID = guid, dbgThreat = threat, dbgTaunted = t, dbgDetaunted = d,
                 dbgSuppressed = isSuppressedLocked tm guid, dbgOffline = isOfflineLocked tm guid\<rparr>;
          (rows, tm) = debug_rows now guids tm in
      (row # rows, tm))"

definition DebugEntries :: "int \<Rightarrow> ThreatManager \<Rightarrow> threatDebugEntry list \<times> ThreatManager" where
  "DebugEntries now tm =
     (let (rows, tm') = debug_rows now (gkeys (entries tm)) tm in
      (sort_key (\<lambda>r. - dbgThreat r) rows, tm'))"

end
