(* ===== verification/Misc_Packets.thy ===== *)
theory Misc_Packets
  imports Wire_Codec Threat
begin

text \<open>
  The smaller packets of \<^verbatim>\<open>pkg/protocol\<close>: chat, melee, weather, items, light and the threat list.
\<close>

section \<open>Threat\<close>

definition BuildThreatClear :: "u64 \<Rightarrow> bytes" where
  "BuildThreatClear creatureGUID = Bytes (WritePackedGUID creatureGUID (NewBuffer 9))"

definition BuildThreatRemove :: "u64 \<Rightarrow> u64 \<Rightarrow> bytes" where
  "BuildThreatRemove creatureGUID victimGUID =
     Bytes (writes [WritePackedGUID creatureGUID, WritePackedGUID victimGUID] (NewBuffer 18))"

definition write_threat :: "ThreatEntry \<Rightarrow> writer" where
  "write_threat e = writes [WritePackedGUID (teVictimGUID e), WriteU32 (teThreat e)]"

definition BuildThreatUpdate :: "u64 \<Rightarrow> ThreatEntry list \<Rightarrow> bytes" where
  "BuildThreatUpdate creatureGUID es =
     Bytes (writes ([WritePackedGUID creatureGUID, WriteU32 (of_nat (length es))] @ map write_threat es)
       (NewBuffer (9 + 4 + int (length es) * 13)))"

definition BuildHighestThreatUpdate :: "u64 \<Rightarrow> u64 \<Rightarrow> ThreatEntry list \<Rightarrow> bytes" where
  "BuildHighestThreatUpdate creatureGUID highestGUID es =
     Bytes (writes ([WritePackedGUID creatureGUID, WritePackedGUID highestGUID, WriteU32 (of_nat (length es))] @
       map write_threat es) (NewBuffer (18 + 4 + int (length es) * 13)))"

section \<open>Chat\<close>

definition write_text :: "gostring \<Rightarrow> writer" where
  "write_text m = writes [WriteU32 (of_nat (length m + 1)), WriteCString m]"

definition BuildChatMessageWithOptions ::
    "u8 \<Rightarrow> u32 \<Rightarrow> u64 \<Rightarrow> u64 \<Rightarrow> gostring \<Rightarrow> gostring \<Rightarrow> bool \<Rightarrow> gostring \<Rightarrow> u8 \<Rightarrow> bytes" where
  "BuildChatMessageWithOptions chatType language senderGUID receiverGUID message channel gmMessage senderName chatTag =
     Bytes (writes
       [WriteU8 chatType, WriteU32 language, WriteU64 senderGUID, WriteU32 0,
        write_if gmMessage (write_text senderName), write_if (chatType = 0x11) (WriteCString channel),
        WriteU64 receiverGUID, write_text message, WriteU8 chatTag]
       (NewBuffer (48 + int (length message) + int (length channel))))"

definition BuildChatMessage :: "u8 \<Rightarrow> u32 \<Rightarrow> u64 \<Rightarrow> u64 \<Rightarrow> gostring \<Rightarrow> gostring \<Rightarrow> bytes" where
  "BuildChatMessage chatType language senderGUID receiverGUID message channel =
     BuildChatMessageWithOptions chatType language senderGUID receiverGUID message channel False [] 0"

definition BuildSystemChatMessage :: "gostring \<Rightarrow> bytes" where
  "BuildSystemChatMessage message = BuildChatMessage 0 0 0 0 message []"

definition BuildAchievementChatMessage :: "u8 \<Rightarrow> u32 \<Rightarrow> u64 \<Rightarrow> gostring \<Rightarrow> u8 \<Rightarrow> u32 \<Rightarrow> bytes" where
  "BuildAchievementChatMessage chatType language senderGUID message chatTag achievementID =
     Bytes (writes
       [WriteU8 chatType, WriteU32 language, WriteU64 senderGUID, WriteU32 0, WriteU64 0, write_text message,
        WriteU8 chatTag, WriteU32 achievementID] (NewBuffer (48 + int (length message))))"

definition BuildChatServerMessage :: "int \<Rightarrow> gostring \<Rightarrow> bytes" where
  "BuildChatServerMessage messageID stringParam =
     Bytes (writes [WriteI32 messageID, WriteCString stringParam] (NewBuffer (4 + int (length stringParam) + 1)))"

definition BuildAreaTriggerMessage :: "gostring \<Rightarrow> bytes" where
  "BuildAreaTriggerMessage message = Bytes (write_text message (NewBuffer (4 + int (length message) + 1)))"

definition BuildMonsterChatMessage :: "u8 \<Rightarrow> u32 \<Rightarrow> u64 \<Rightarrow> gostring \<Rightarrow> gostring \<Rightarrow> bytes" where
  "BuildMonsterChatMessage chatType language senderGUID senderName message =
     Bytes (writes
       [WriteU8 chatType, WriteU32 language, WriteU64 senderGUID, WriteU32 0, write_text senderName, WriteU64 0,
        write_text message, WriteU8 0] (NewBuffer (48 + int (length senderName) + int (length message))))"

section \<open>Melee, weather, items, light\<close>

abbreviation (input) HitInfoBlock :: u32 where "HitInfoBlock \<equiv> 0x00002000"

definition BuildAttackerStateUpdate ::
    "u64 \<Rightarrow> u64 \<Rightarrow> u32 \<Rightarrow> u32 \<Rightarrow> u32 \<Rightarrow> u8 \<Rightarrow> u32 \<Rightarrow> bytes" where
  "BuildAttackerStateUpdate attacker victim damage overkill hitInfo targetState blocked =
     Bytes (writes
       [WriteU32 hitInfo, WritePackedGUID attacker, WritePackedGUID victim, WriteU32 damage, WriteU32 overkill,
        WriteU8 1, WriteU32 1, WriteF32 (f32_bits (f32_of_int (uint damage))), WriteU32 damage, WriteU8 targetState, WriteU32 0,
        WriteU32 0, write_if (has_flag hitInfo HitInfoBlock) (WriteU32 blocked)] (NewBuffer 64))"

definition BuildWeather :: "u32 \<Rightarrow> f32 \<Rightarrow> bool \<Rightarrow> bytes" where
  "BuildWeather weatherID intensity abrupt =
     Bytes (writes [WriteU32 weatherID, WriteF32 intensity, WriteU8 (if abrupt then 1 else 0)] (NewBuffer 9))"

definition BuildItemEnchantTimeUpdate :: "u64 \<Rightarrow> u64 \<Rightarrow> u32 \<Rightarrow> u32 \<Rightarrow> bytes" where
  "BuildItemEnchantTimeUpdate playerGUID itemGUID slot duration =
     Bytes (writes [WriteU64 itemGUID, WriteU32 slot, WriteU32 duration, WriteU64 playerGUID] (NewBuffer 24))"

definition BuildItemTimeUpdate :: "u64 \<Rightarrow> u32 \<Rightarrow> bytes" where
  "BuildItemTimeUpdate itemGUID duration =
     Bytes (writes [WriteU64 itemGUID, WriteU32 duration] (NewBuffer 12))"

definition BuildOverrideLight :: "u32 \<Rightarrow> u32 \<Rightarrow> u32 \<Rightarrow> bytes" where
  "BuildOverrideLight areaLightID overrideLightID transitionMilliseconds =
     Bytes (writes [WriteI32 (sint areaLightID), WriteI32 (sint overrideLightID), WriteI32 (sint transitionMilliseconds)]
       (NewBuffer 12))"

end
