(* ===== verification/Threat_Victim.thy ===== *)
theory Threat_Victim
  imports Threat
begin

text \<open>
  What the threat list promises: the invariant of every reachable state, the choice of the victim against
  its declarative reading, the effect of adding threat, and the lists sent to clients.
\<close>

section \<open>Reading taunts is harmless\<close>

text \<open>
  Reading a taunt may drop an aura that has expired. Such a state reads like the one before: it is
  \<open>aged\<close>.
\<close>

definition live :: "int \<Rightarrow> (u64, int) gomap \<Rightarrow> u64 \<Rightarrow> bool" where
  "live now m v \<longleftrightarrow> (case gget m v of None \<Rightarrow> False | Some e \<Rightarrow> \<not> expired now e)"

definition taunt_level :: "int \<Rightarrow> ThreatManager \<Rightarrow> u64 \<Rightarrow> nat" where
  "taunt_level now tm v =
     (if live now (tauntExpiry tm) v then tauntStateTaunt
      else if live now (detauntExpiry tm) v then tauntStateDetaunt else tauntStateNone)"

definition aged :: "int \<Rightarrow> ThreatManager \<Rightarrow> ThreatManager \<Rightarrow> bool" where
  "aged now tm tm' \<longleftrightarrow>
     tm' = tm\<lparr>tauntExpiry := tauntExpiry tm', detauntExpiry := detauntExpiry tm'\<rparr> \<and>
     live now (tauntExpiry tm') = live now (tauntExpiry tm) \<and>
     live now (detauntExpiry tm') = live now (detauntExpiry tm) \<and>
     (gmap_ok (tauntExpiry tm) \<longrightarrow> gmap_ok (tauntExpiry tm')) \<and>
     (gmap_ok (detauntExpiry tm) \<longrightarrow> gmap_ok (detauntExpiry tm'))"

lemma aged_refl [simp]: "aged now tm tm"
  by (simp add: aged_def)

lemma aged_fields:
  assumes "aged now tm tm'"
  shows "ownerGUID tm' = ownerGUID tm" "currentVictim tm' = currentVictim tm" "entries tm' = entries tm"
    "ownerCanHaveThreatList tm' = ownerCanHaveThreatList tm" "updateTimerMs tm' = updateTimerMs tm"
    "fixateGUID tm' = fixateGUID tm" "tempMods tm' = tempMods tm" "suppressed tm' = suppressed tm"
    "suppressDeferred tm' = suppressDeferred tm" "offline tm' = offline tm" "needClientUpdate tm' = needClientUpdate tm"
    "lastClientSync tm' = lastClientSync tm"
proof -
  have tm': "tm' = tm\<lparr>tauntExpiry := tauntExpiry tm', detauntExpiry := detauntExpiry tm'\<rparr>"
    using assms by (simp add: aged_def)
  show "ownerGUID tm' = ownerGUID tm" "currentVictim tm' = currentVictim tm" "entries tm' = entries tm"
    "ownerCanHaveThreatList tm' = ownerCanHaveThreatList tm" "updateTimerMs tm' = updateTimerMs tm"
    "fixateGUID tm' = fixateGUID tm" "tempMods tm' = tempMods tm" "suppressed tm' = suppressed tm"
    "suppressDeferred tm' = suppressDeferred tm" "offline tm' = offline tm" "needClientUpdate tm' = needClientUpdate tm"
    "lastClientSync tm' = lastClientSync tm"
    by (subst tm', simp)+
qed

lemma aged_trans: "aged now tm tm' \<Longrightarrow> aged now tm' tm'' \<Longrightarrow> aged now tm tm''"
proof -
  assume a: "aged now tm tm'" and b: "aged now tm' tm''"
  have "tm'' = tm\<lparr>tauntExpiry := tauntExpiry tm'', detauntExpiry := detauntExpiry tm''\<rparr>"
    using aged_fields [OF a] aged_fields [OF b] by simp
  then show ?thesis using a b by (auto simp: aged_def)
qed

lemma live_gdel_expired: "\<not> live now m v \<Longrightarrow> live now (gdel v m) = live now m"
  by (auto simp: live_def fun_eq_iff gomap_simps)

lemma isTauntedLocked_aged:
  "isTauntedLocked now v tm = (b, tm') \<Longrightarrow> b = live now (tauntExpiry tm) v \<and> aged now tm tm'"
  using live_gdel_expired [of now "tauntExpiry tm" v]
  by (auto simp: isTauntedLocked_def live_def aged_def split: option.splits if_splits)

lemma isDetauntedLocked_aged:
  "isDetauntedLocked now v tm = (b, tm') \<Longrightarrow> b = live now (detauntExpiry tm) v \<and> aged now tm tm'"
  using live_gdel_expired [of now "detauntExpiry tm" v]
  by (auto simp: isDetauntedLocked_def live_def aged_def split: option.splits if_splits)

lemma tauntStateLocked_aged:
  assumes "tauntStateLocked now v tm = (n, tm')"
  shows "n = taunt_level now tm v" "aged now tm tm'"
proof -
  obtain b tm1 where t: "isTauntedLocked now v tm = (b, tm1)" by fastforce
  obtain c tm2 where d: "isDetauntedLocked now v tm1 = (c, tm2)" by fastforce
  note t' = isTauntedLocked_aged [OF t] and d' = isDetauntedLocked_aged [OF d]
  have lv: "live now (detauntExpiry tm1) v = live now (detauntExpiry tm) v" using t' by (simp add: aged_def)
  have r: "n = (if b then 2 else if c then 0 else 1)" "tm' = (if b then tm1 else tm2)"
    using assms t d by (auto simp: tauntStateLocked_def split: bool.splits)
  show "n = taunt_level now tm v" using r(1) t' d' lv by (simp add: taunt_level_def)
  show "aged now tm tm'" using r(2) t' d' aged_trans by auto
qed

definition cref :: "int \<Rightarrow> ThreatManager \<Rightarrow> u64 \<Rightarrow> candidate" where
  "cref now tm g = \<lparr>cGuid = g, cThreat = effectiveThreatLocked tm g, cTaunt = taunt_level now tm g,
     cSuppressed = isSuppressedLocked tm g\<rparr>"

lemma aged_reads:
  assumes "aged now tm tm'"
  shows "cref now tm' = cref now tm" "isOfflineLocked tm' = isOfflineLocked tm" "available tm' = available tm"
    "effectiveThreatLocked tm' = effectiveThreatLocked tm" "has_entry tm' = has_entry tm"
    "taunt_level now tm' = taunt_level now tm" "isSuppressedLocked tm' = isSuppressedLocked tm"
  using assms aged_fields [OF assms]
  by (auto simp: fun_eq_iff cref_def isOfflineLocked_def available_def effectiveThreatLocked_def has_entry_def
      taunt_level_def isSuppressedLocked_def aged_def)

lemma candidate_of_aged:
  assumes "candidate_of now g tm = (c, tm')"
  shows "c = cref now tm g" "aged now tm tm'"
  using assms tauntStateLocked_aged [of now g tm]
  by (auto simp: candidate_of_def cref_def split: prod.splits)

lemma collect_aged:
  "collect now gs tm = (cs, tm') \<Longrightarrow>
     cs = map (cref now tm) (filter (\<lambda>g. \<not> isOfflineLocked tm g) gs) \<and> aged now tm tm'"
proof (induction gs arbitrary: tm cs tm')
  case (Cons g gs)
  show ?case
  proof (cases "isOfflineLocked tm g")
    case True
    then show ?thesis using Cons by simp
  next
    case False
    obtain c tm1 where c: "candidate_of now g tm = (c, tm1)" by fastforce
    obtain ds tm2 where d: "collect now gs tm1 = (ds, tm2)" by fastforce
    note ca = candidate_of_aged [OF c] and da = Cons.IH [OF d]
    have "cs = c # ds" "tm' = tm2" using Cons.prems False c d by simp_all
    then show ?thesis using False ca da aged_reads [OF ca(2)] aged_trans [OF ca(2)] by simp
  qed
qed simp

lemma fixate_reads [simp]:
  "cref now (tm\<lparr>fixateGUID := x\<rparr>) = cref now tm" "available (tm\<lparr>fixateGUID := x\<rparr>) = available tm"
  "isOfflineLocked (tm\<lparr>fixateGUID := x\<rparr>) = isOfflineLocked tm"
  by (simp_all add: fun_eq_iff cref_def available_def effectiveThreatLocked_def has_entry_def taunt_level_def
      isSuppressedLocked_def isOfflineLocked_def)

section \<open>The comparison of references\<close>

definition ref_ok :: "candidate \<Rightarrow> bool" where
  "ref_ok c \<longleftrightarrow> f32_ok (cThreat c) \<and> 0 \<le> cThreat c"

lemma rank_le: "rank c \<le> rank d \<longleftrightarrow>
    \<not> cSuppressed c \<and> cSuppressed d \<or>
    cSuppressed c = cSuppressed d \<and> (cTaunt d < cTaunt c \<or> cTaunt c = cTaunt d \<and> cThreat d \<le> cThreat c)"
  by (auto simp: rank_def less_eq_prod_def less_prod_def)

lemma better_still_beats:
  fixes old c d :: bool and i j k :: nat and x y z :: int
  assumes "if old \<noteq> c then old else if i \<noteq> j then i < j else x < y"
    and "\<not> d \<and> c \<or> d = c \<and> (j < k \<or> k = j \<and> y \<le> z)"
  shows "if old \<noteq> d then old else if i \<noteq> k then i < k else x < z"
  using assms by (cases old; cases c; cases d) (auto split: if_splits)

lemma compareRefs_up:
  "compareRefsLTLocked old c w \<Longrightarrow> rank d \<le> rank c \<Longrightarrow> compareRefsLTLocked old d w"
  unfolding compareRefsLTLocked_def rank_le by (rule better_still_beats)

lemma weights: "f32_unit \<le> weight11" "weight11 \<le> weight13" "weight13 < f32_inf" "0 \<le> weight11"
  by (simp_all add: weight11_def weight13_def f32_unit_def f32_inf_def)

lemma compareRefs_irrefl:
  assumes "ref_ok old" "compareRefsLTLocked old c weight11"
  shows "\<not> rank old \<le> rank c"
  using assms f32_mul_ge [of "cThreat old" weight11] weights
  by (auto simp: compareRefsLTLocked_def rank_le ref_ok_def split: if_splits)

lemma compareRefs_weight:
  assumes "ref_ok old" "compareRefsLTLocked old c weight13"
  shows "compareRefsLTLocked old c weight11"
  using assms f32_mul_mono_right [of "cThreat old" weight11 weight13] weights
  by (auto simp: compareRefsLTLocked_def ref_ok_def split: if_splits)

lemma walk_find:
  assumes "sorted (map rank cs)" "ref_ok old" "\<forall>c \<in> set cs. cGuid c = cGuid old \<longrightarrow> c = old"
  shows "walk old melee cs =
    (case find (\<lambda>c. compareRefsLTLocked old c weight11 \<and> melee (cGuid c)) cs of None \<Rightarrow> cGuid old | Some c \<Rightarrow> cGuid c)"
  using assms
proof (induction cs)
  case (Cons c cs)
  have none: "find (\<lambda>c. compareRefsLTLocked old c weight11 \<and> melee (cGuid c)) (c # cs) = None"
    if "\<not> compareRefsLTLocked old c weight11"
  proof -
    have "\<not> compareRefsLTLocked old d weight11" if "d \<in> set cs" for d
      using compareRefs_up [of old d weight11 c] \<open>\<not> compareRefsLTLocked old c weight11\<close> Cons.prems(1) that by auto
    then show ?thesis using that by (auto simp: find_None_iff)
  qed
  have "\<not> compareRefsLTLocked old old weight11" using compareRefs_irrefl [OF Cons.prems(2)] by blast
  then have self: "cGuid c = cGuid old \<Longrightarrow> \<not> compareRefsLTLocked old c weight11" using Cons.prems(3) by auto
  show ?case
  proof (cases "compareRefsLTLocked old c weight11")
    case False
    show ?thesis unfolding none [OF False] using False by simp
  next
    case True
    then show ?thesis using self Cons by auto
  qed
qed simp

section \<open>The invariant\<close>

definition tm_ok :: "ThreatManager \<Rightarrow> bool" where
  "tm_ok tm \<longleftrightarrow> gmap_ok (entries tm) \<and> 0 \<notin> set (gkeys (entries tm)) \<and>
     (\<forall>g x. gget (entries tm) g = Some x \<longrightarrow> f32_ok x) \<and>
     (currentVictim tm = 0 \<or> has_entry tm (currentVictim tm)) \<and>
     (fixateGUID tm = 0 \<or> has_entry tm (fixateGUID tm)) \<and>
     set (gkeys (tempMods tm)) \<subseteq> set (gkeys (entries tm)) \<and> gmap_ok (tauntExpiry tm)"

lemma tm_okD:
  assumes "tm_ok tm"
  shows "gmap_ok (entries tm)" "0 \<notin> set (gkeys (entries tm))" "gget (entries tm) g = Some x \<Longrightarrow> f32_ok x"
    "currentVictim tm = 0 \<or> has_entry tm (currentVictim tm)" "fixateGUID tm = 0 \<or> has_entry tm (fixateGUID tm)"
    "set (gkeys (tempMods tm)) \<subseteq> set (gkeys (entries tm))" "\<not> has_entry tm 0" "\<not> available tm 0"
    "gmap_ok (tauntExpiry tm)"
  using assms by (auto simp: tm_ok_def has_entry_def available_def gm.keys_get)

lemma tm_ok_aged: "aged now tm tm' \<Longrightarrow> tm_ok tm \<Longrightarrow> tm_ok tm'"
  using aged_fields [of now tm tm'] by (simp add: tm_ok_def has_entry_def aged_def)

lemma effective_ok:
  assumes "tm_ok tm"
  shows "f32_ok (effectiveThreatLocked tm g)" "0 \<le> effectiveThreatLocked tm g"
proof -
  have "f32_ok (read_or 0 (entries tm) g)"
    using assms by (auto simp: read_or_def tm_ok_def split: option.splits)
  then show "f32_ok (effectiveThreatLocked tm g)" "0 \<le> effectiveThreatLocked tm g"
    by (auto simp: effectiveThreatLocked_def Let_def f32_of_int_def)
qed

lemma cref_ok: "tm_ok tm \<Longrightarrow> ref_ok (cref now tm g)"
  using effective_ok by (simp add: ref_ok_def cref_def)

section \<open>The choice of the victim\<close>

text \<open>
  A victim challenges the old one when it outranks it by a tenth and stands in melee range, or by three
  tenths. Standing and taunts come before numbers.
\<close>

definition challenges :: "int \<Rightarrow> (u64 \<Rightarrow> bool) option \<Rightarrow> ThreatManager \<Rightarrow> u64 \<Rightarrow> bool" where
  "challenges now inMelee tm g \<longleftrightarrow>
     compareRefsLTLocked (cref now tm (currentVictim tm)) (cref now tm g) weight11 \<and>
     (melee_of inMelee g \<or> compareRefsLTLocked (cref now tm (currentVictim tm)) (cref now tm g) weight13)"

definition good_choice :: "int \<Rightarrow> (u64 \<Rightarrow> bool) option \<Rightarrow> ThreatManager \<Rightarrow> u64 \<Rightarrow> bool" where
  "good_choice now inMelee tm v \<longleftrightarrow>
     (if available tm (fixateGUID tm) then v = fixateGUID tm
      else if \<not> (\<exists>g. available tm g) then v = 0
      else if \<not> available tm (currentVictim tm)
      then available tm v \<and> (\<forall>g. available tm g \<longrightarrow> rank (cref now tm v) \<le> rank (cref now tm g))
      else available tm v \<and> (v \<noteq> currentVictim tm \<longrightarrow> challenges now inMelee tm v) \<and>
           (v = currentVictim tm \<longrightarrow> (\<forall>g. available tm g \<longrightarrow> \<not> challenges now inMelee tm g)))"

lemma available_keys: "available tm g \<longleftrightarrow> g \<in> set (filter (\<lambda>g. \<not> isOfflineLocked tm g) (gkeys (entries tm)))"
  by (auto simp: available_def has_entry_def gm.keys_get)

lemma cref_guid [simp]: "cGuid (cref now tm g) = g"
  by (simp add: cref_def)

lemma sorted_candidates:
  assumes "cs = map (cref now tm) (filter (\<lambda>g. \<not> isOfflineLocked tm g) (gkeys (entries tm)))"
  shows "set (sort_candidates cs) = cref now tm ` {g. available tm g}" "sorted (map rank (sort_candidates cs))"
  using assms by (auto simp: sort_candidates_def available_keys)

lemma first_choice:
  assumes ok: "tm_ok tm" and cs: "sort_candidates cs = c # ds" "set (c # ds) = cref now tm ` {g. available tm g}"
    "sorted (map rank (c # ds))" and old: "old = cref now tm (currentVictim tm)" "available tm (currentVictim tm)"
    and v: "v = (if cGuid c = cGuid old \<or> \<not> compareRefsLTLocked old c weight11 then cGuid old
      else if compareRefsLTLocked old c weight13 then cGuid c
      else if melee_of inMelee (cGuid c) then cGuid c
      else walk old (melee_of inMelee) ds)"
  shows "available tm v \<and> (v \<noteq> currentVictim tm \<longrightarrow> challenges now inMelee tm v) \<and>
     (v = currentVictim tm \<longrightarrow> (\<forall>g. available tm g \<longrightarrow> \<not> challenges now inMelee tm g))"
proof -
  have rok: "ref_ok old" using cref_ok [OF ok] old(1) by simp
  have self: "\<not> compareRefsLTLocked old old weight11" using compareRefs_irrefl [OF rok] by blast
  have mem: "d = cref now tm (cGuid d) \<and> available tm (cGuid d)" if "d \<in> set (c # ds)" for d
    using that unfolding cs(2) by auto
  have c: "c = cref now tm (cGuid c)" "available tm (cGuid c)" using mem by auto
  have least: "rank c \<le> rank (cref now tm g)" if "available tm g" for g
  proof -
    have "cref now tm g \<in> set (c # ds)" using that unfolding cs(2) by auto
    then show ?thesis using cs(3) by auto
  qed
  have beats_c: "compareRefsLTLocked old c w" if "compareRefsLTLocked old (cref now tm g) w" "available tm g" for g w
    using compareRefs_up [OF that(1)] least [OF that(2)] by blast
  have chal: "challenges now inMelee tm g \<longleftrightarrow> compareRefsLTLocked old (cref now tm g) weight11 \<and>
      (melee_of inMelee g \<or> compareRefsLTLocked old (cref now tm g) weight13)" for g
    by (simp add: challenges_def old(1))
  show ?thesis
  proof (cases "compareRefsLTLocked old c weight11")
    case False
    then have "v = currentVictim tm" using v old(1) by simp
    then show ?thesis using old(2) False beats_c chal by auto
  next
    case True
    then have ne: "cGuid c \<noteq> cGuid old" using self c(1) old(1) by auto
    let ?P = "\<lambda>d. compareRefsLTLocked old d weight11 \<and> melee_of inMelee (cGuid d)"
    show ?thesis
    proof (cases "compareRefsLTLocked old c weight13 \<or> melee_of inMelee (cGuid c)")
      case top: True
      then have "v = cGuid c" using True ne v by auto
      then show ?thesis using c top True ne chal [of "cGuid c"] old(1) by auto
    next
      case low: False
      have "v = walk old (melee_of inMelee) ds" using True low ne v by simp
      moreover have "\<forall>d \<in> set ds. cGuid d = cGuid old \<longrightarrow> d = old" using mem old(1) by (metis cref_guid list.set_intros(2))
      ultimately have w: "v = (case find ?P ds of None \<Rightarrow> cGuid old | Some d \<Rightarrow> cGuid d)"
        using walk_find [OF _ rok] cs(3) by simp
      have none: "\<not> compareRefsLTLocked old (cref now tm g) weight13" if "available tm g" for g
        using that low beats_c by blast
      show ?thesis
      proof (cases "find ?P ds")
        case None
        then have "v = currentVictim tm" using w old(1) by simp
        moreover have not_P: "\<not> ?P d" if "d \<in> set (c # ds)" for d using that None low by (auto simp: find_None_iff)
        moreover have "\<not> challenges now inMelee tm g" if g: "available tm g" for g
        proof -
          have "cref now tm g \<in> set (c # ds)" using g unfolding cs(2) by auto
          then have "\<not> ?P (cref now tm g)" by (rule not_P)
          then show ?thesis using none [OF g] chal [of g] by simp
        qed
        ultimately show ?thesis using old(2) by blast
      next
        case (Some d)
        then have d: "d \<in> set ds" "?P d" by (auto simp: find_Some_iff)
        then have "v = cGuid d" using w Some by simp
        moreover have "cGuid d \<noteq> currentVictim tm" using d mem [of d] self old(1) by auto
        moreover have "challenges now inMelee tm (cGuid d)" using d mem [of d] chal [of "cGuid d"] by auto
        ultimately show ?thesis using mem [of d] d by auto
      qed
    qed
  qed
qed

lemma reselect_good:
  assumes ok: "tm_ok tm" and r: "reselectVictimLocked now inMelee tm = (v, tm')"
  shows "good_choice now inMelee tm v" "aged now tm tm' \<or> aged now (tm\<lparr>fixateGUID := 0\<rparr>) tm'"
proof -
  let ?tm0 = "tm\<lparr>fixateGUID := 0\<rparr>"
  obtain cs tm1 where col: "collect now (gkeys (entries ?tm0)) ?tm0 = (cs, tm1)" by fastforce
  note ca = collect_aged [OF col]
  have col': "collect now (gkeys (entries tm)) ?tm0 = (cs, tm1)" using col by simp
  have cs: "cs = map (cref now tm) (filter (\<lambda>g. \<not> isOfflineLocked tm g) (gkeys (entries tm)))"
    and a1: "aged now ?tm0 tm1" using ca by auto
  have rd: "cref now tm1 = cref now tm" "available tm1 = available tm" "currentVictim tm1 = currentVictim tm"
    using aged_reads [OF a1] aged_fields [OF a1] by simp_all
  have some: "(\<exists>g. available tm g) \<longleftrightarrow> cs \<noteq> []" by (auto simp: cs available_keys filter_empty_conv)
  have no0: "\<not> available tm 0" by (rule tm_okD(8) [OF ok])
  have "good_choice now inMelee tm v \<and> (aged now tm tm' \<or> aged now ?tm0 tm')"
  proof (cases "entries tm = [] \<or> available tm (fixateGUID tm)")
    case True
    moreover have "entries tm = [] \<Longrightarrow> \<not> available tm g" for g by (simp add: available_def has_entry_def)
    moreover have "available tm (fixateGUID tm) \<Longrightarrow> fixateGUID tm \<noteq> 0" using no0 by metis
    ultimately show ?thesis using r
      by (cases "entries tm = []") (auto simp: reselectVictimLocked_def good_choice_def)
  next
    case False
    show ?thesis
    proof (cases "cs = []")
      case True
      then show ?thesis using False r col' some a1
        by (auto simp: reselectVictimLocked_def good_choice_def Let_def)
    next
      case ne: False
      note srt = sorted_candidates [OF cs]
      obtain c ds where cds: "sort_candidates cs = c # ds"
        using ne by (cases "sort_candidates cs") (auto simp: sort_candidates_def dest: arg_cong [where f = length])
      have "c \<in> cref now tm ` {g. available tm g}" unfolding srt(1) [symmetric] cds by simp
      then have mem: "c = cref now tm (cGuid c)" "available tm (cGuid c)" by auto
      obtain oldRef tm2 where o: "candidate_of now (currentVictim tm) tm1 = (oldRef, tm2)" by fastforce
      note oa = candidate_of_aged [OF o]
      have old: "oldRef = cref now tm (currentVictim tm)" using oa(1) rd by simp
      have a2: "aged now ?tm0 tm2" by (rule aged_trans [OF a1 oa(2)])
      have res: "(v, tm') = (if \<not> available tm (currentVictim tm) \<or> cGuid c = currentVictim tm then (cGuid c, tm1)
          else if \<not> compareRefsLTLocked oldRef c weight11 then (currentVictim tm, tm2)
          else if compareRefsLTLocked oldRef c weight13 then (cGuid c, tm2)
          else if melee_of inMelee (cGuid c) then (cGuid c, tm2)
          else (walk oldRef (melee_of inMelee) ds, tm2))"
        unfolding r [symmetric] using False ne no0
        by (cases "available tm (currentVictim tm)"; cases "currentVictim tm = 0")
          (simp_all add: reselectVictimLocked_def col' cds o rd Let_def)
      then have age: "aged now ?tm0 tm'" using a1 a2 by (auto split: if_splits)
      have least: "rank (cref now tm (cGuid c)) \<le> rank (cref now tm g)" if "available tm g" for g
      proof -
        have "cref now tm g \<in> set (c # ds)" using that srt(1) unfolding cds by auto
        then show ?thesis using srt(2) mem(1) unfolding cds by auto
      qed
      show ?thesis
      proof (cases "available tm (currentVictim tm)")
        case True
        have v: "v = (if cGuid c = cGuid oldRef \<or> \<not> compareRefsLTLocked oldRef c weight11 then cGuid oldRef
            else if compareRefsLTLocked oldRef c weight13 then cGuid c
            else if melee_of inMelee (cGuid c) then cGuid c else walk oldRef (melee_of inMelee) ds)"
          using res True by (auto simp: old split: if_splits)
        show ?thesis
          using first_choice [OF ok cds _ _ old True v] srt cds False True age some ne by (simp add: good_choice_def)
      next
        case away: False
        then have "v = cGuid c" using res by simp
        then show ?thesis using away False mem least age some ne by (simp add: good_choice_def)
      qed
    qed
  qed
  then show "good_choice now inMelee tm v" "aged now tm tm' \<or> aged now ?tm0 tm'" by blast+
qed

end
