(* ===== verification/Threat_Laws.thy ===== *)
theory Threat_Laws
  imports Threat_Victim
begin

text \<open>
  The invariant of the threat list over all its operations, and what the operations that change threat or
  the victim do.
\<close>

section \<open>Every operation keeps the invariant\<close>

lemma has_entry_put: "has_entry (tm\<lparr>entries := gput g x (entries tm)\<rparr>) v \<longleftrightarrow> v = g \<or> has_entry tm v"
  by (simp add: has_entry_def gomap_simps)

lemma tm_ok_put [simp]:
  assumes "tm_ok tm" "g \<noteq> 0" "f32_ok x"
  shows "tm_ok (tm\<lparr>entries := gput g x (entries tm), needClientUpdate := b\<rparr>)"
  using assms by (auto simp: tm_ok_def has_entry_def gomap_simps)

lemma tm_ok_victim: "tm_ok tm \<Longrightarrow> v = 0 \<or> has_entry tm v \<Longrightarrow> tm_ok (tm\<lparr>currentVictim := v\<rparr>)"
  by (auto simp: tm_ok_def has_entry_def)

lemma tm_ok_frame [simp]:
  "tm_ok (tm\<lparr>fixateGUID := 0\<rparr>)" "tm_ok (tm\<lparr>currentVictim := 0\<rparr>)" "gmap_ok t \<Longrightarrow> tm_ok (tm\<lparr>tauntExpiry := t\<rparr>)"
  "tm_ok (tm\<lparr>detauntExpiry := t\<rparr>)" "tm_ok (tm\<lparr>updateTimerMs := n\<rparr>)" "tm_ok (tm\<lparr>needClientUpdate := b\<rparr>)"
  "tm_ok (tm\<lparr>offline := fl\<rparr>)" "tm_ok (tm\<lparr>suppressed := fl\<rparr>)" "tm_ok (tm\<lparr>suppressDeferred := fl\<rparr>)"
  if "tm_ok tm"
  using that by (auto simp: tm_ok_def has_entry_def)

lemma tm_ok_taunts [simp]: "tm_ok tm \<Longrightarrow> gmap_ok (tauntExpiry tm)"
  by (rule tm_okD)

lemma purge_ok [simp]: "gmap_ok m \<Longrightarrow> gmap_ok (purge_expired now m)"
  by (simp add: purge_expired_def)

lemma reselect_keeps:
  assumes ok: "tm_ok tm" and r: "reselectVictimLocked now inMelee tm = (v, tm')"
  shows "tm_ok tm'" "v = 0 \<or> has_entry tm' v" "currentVictim tm' = currentVictim tm" "entries tm' = entries tm"
    "needClientUpdate tm' = needClientUpdate tm" "updateTimerMs tm' = updateTimerMs tm" "offline tm' = offline tm"
proof -
  have a: "aged now tm tm' \<or> aged now (tm\<lparr>fixateGUID := 0\<rparr>) tm'" and g: "good_choice now inMelee tm v"
    using reselect_good [OF ok r] by blast+
  have f: "currentVictim tm' = currentVictim tm \<and> entries tm' = entries tm \<and> needClientUpdate tm' = needClientUpdate tm \<and>
      updateTimerMs tm' = updateTimerMs tm \<and> offline tm' = offline tm"
    using a aged_fields by force
  then show "currentVictim tm' = currentVictim tm" "entries tm' = entries tm"
    "needClientUpdate tm' = needClientUpdate tm" "updateTimerMs tm' = updateTimerMs tm" "offline tm' = offline tm" by simp_all
  show "tm_ok tm'" using a ok tm_ok_aged tm_ok_frame(1) by blast
  have "v = 0 \<or> available tm v" using g by (auto simp: good_choice_def split: if_splits)
  then show "v = 0 \<or> has_entry tm' v" using f by (auto simp: available_def has_entry_def)
qed

lemma level_keeps:
  assumes "tm_ok tm" "tauntStateLocked now v tm = (n, tm')"
  shows "tm_ok tm'" "currentVictim tm' = currentVictim tm" "has_entry tm' = has_entry tm"
proof -
  note a = tauntStateLocked_aged(2) [OF assms(2)]
  show "tm_ok tm'" "currentVictim tm' = currentVictim tm" "has_entry tm' = has_entry tm"
    using assms(1) tm_ok_aged [OF a] aged_fields [OF a] aged_reads [OF a] by simp_all
qed

lemma add_select_ok:
  assumes ok: "tm_ok tm" and v: "has_entry tm victim" and r: "add_select now victim x inMelee tm = (res, tm')"
  shows "tm_ok tm'"
proof -
  let ?tm0 = "tm\<lparr>fixateGUID := 0\<rparr>"
  obtain n tm1 where t1: "tauntStateLocked now victim ?tm0 = (n, tm1)" by fastforce
  obtain m tm2 where t2: "tauntStateLocked now (currentVictim tm1) tm1 = (m, tm2)" by fastforce
  have e: "has_entry ?tm0 = has_entry tm" by (simp add: has_entry_def fun_eq_iff)
  have k1: "tm_ok tm1" "has_entry tm1 = has_entry tm" using level_keeps [OF _ t1] ok e by simp_all
  then have k2: "tm_ok tm2" "has_entry tm2 victim" using level_keeps [OF _ t2] v by simp_all
  have "tm' \<in> {tm\<lparr>currentVictim := fixateGUID tm\<rparr>, ?tm0, ?tm0\<lparr>currentVictim := victim\<rparr>, tm2\<lparr>currentVictim := victim\<rparr>, tm2}"
    using r t1 t2 by (auto simp: add_select_def Let_def split: if_splits)
  moreover have "tm_ok (tm\<lparr>currentVictim := fixateGUID tm\<rparr>)" using ok by (auto simp: tm_ok_def has_entry_def)
  ultimately show ?thesis using ok k2 v e by (auto intro!: tm_ok_victim)
qed

lemma AddThreat_ok:
  assumes ok: "tm_ok tm" and x: "f32_ok amount"
  shows "tm_ok (snd (AddThreat now victim amount inMelee tm))"
proof (cases "victim = 0 \<or> \<not> ownerCanHaveThreatList tm")
  case False
  let ?put = "\<lambda>x. tm\<lparr>entries := gput victim x (entries tm), needClientUpdate := True\<rparr>"
  have put: "tm_ok (?put x)" "has_entry (?put x) victim" if "f32_ok x" for x
    using that ok False by (simp_all add: has_entry_def gomap_simps)
  have sel: "tm_ok (snd (add_select now victim y inMelee (?put x)))" if "f32_ok x" for x y
    using add_select_ok [OF put [OF that] surjective_pairing] by blast
  show ?thesis
  proof (cases "gget (entries tm) victim")
    case None
    then show ?thesis
      using False x put sel by (auto simp: AddThreat_def Let_def intro!: tm_ok_victim)
  next
    case (Some old)
    have "f32_ok old" by (rule tm_okD(3) [OF ok Some])
    then show ?thesis using False x Some ok sel by (auto simp: AddThreat_def Let_def)
  qed
qed (use ok in \<open>auto simp: AddThreat_def\<close>)

lemma SetThreat_ok: "tm_ok tm \<Longrightarrow> f32_ok amount \<Longrightarrow> tm_ok (snd (SetThreat victim amount tm))"
  by (auto simp: SetThreat_def Let_def has_entry_def gomap_simps intro!: tm_ok_victim)

lemma ScaleThreat_ok: "tm_ok tm \<Longrightarrow> tm_ok (snd (ScaleThreat victim factor tm))"
  by (auto simp: ScaleThreat_def Let_def split: option.splits)

lemma Update_ok: "tm_ok tm \<Longrightarrow> tm_ok (snd (Update now elapsed inMelee tm))"
proof -
  assume ok: "tm_ok tm"
  let ?tm1 = "tm\<lparr>updateTimerMs := threatUpdateIntervalMs, tauntExpiry := purge_expired now (tauntExpiry tm)\<rparr>"
  obtain v tm2 where r: "reselectVictimLocked now inMelee ?tm1 = (v, tm2)" by fastforce
  have k: "tm_ok tm2" "v = 0 \<or> has_entry tm2 v" using reselect_keeps [OF _ r] ok by simp_all
  then have "tm_ok (tm2\<lparr>needClientUpdate := False, currentVictim := v\<rparr>)"
    by (intro tm_ok_victim) (auto simp: has_entry_def)
  then show ?thesis using ok k r by (auto simp: Update_def Let_def)
qed

lemma GetCurrentVictim_ok: "tm_ok tm \<Longrightarrow> tm_ok (snd (GetCurrentVictim now tm))"
  using reselect_keeps [of tm now None] by (auto simp: GetCurrentVictim_def split: prod.splits intro!: tm_ok_victim)

lemma RemoveThreat_ok: "tm_ok tm \<Longrightarrow> tm_ok (snd (RemoveThreat now victim tm))"
proof -
  assume ok: "tm_ok tm"
  let ?tm1 = "tm\<lparr>entries := gdel victim (entries tm), tempMods := gdel victim (tempMods tm),
    suppressed := gdel victim (suppressed tm), suppressDeferred := gdel victim (suppressDeferred tm),
    fixateGUID := (if fixateGUID tm = victim then 0 else fixateGUID tm),
    tauntExpiry := gdel victim (tauntExpiry tm), offline := gdel victim (offline tm)\<rparr>"
  let ?tm0 = "?tm1\<lparr>currentVictim := 0\<rparr>"
  obtain v tm2 where r: "reselectVictimLocked now None ?tm0 = (v, tm2)" by fastforce
  have "tm_ok ?tm0" "currentVictim tm \<noteq> victim \<longrightarrow> tm_ok ?tm1"
    using ok by (auto simp: tm_ok_def has_entry_def gomap_simps)
  moreover from this have "tm_ok (tm2\<lparr>currentVictim := v\<rparr>)"
    using reselect_keeps [OF _ r] by (intro tm_ok_victim) simp_all
  moreover have "snd (RemoveThreat now victim tm) = (if currentVictim tm = victim then tm2\<lparr>currentVictim := v\<rparr> else ?tm1)"
    using r by (auto simp: RemoveThreat_def Let_def)
  ultimately show ?thesis by simp
qed

lemma collect_ok:
  assumes "tm_ok tm" "collect now gs tm = (cs, tm')"
  shows "tm_ok tm'" "entries tm' = entries tm" "\<forall>c \<in> set cs. ref_ok c"
  using collect_aged [OF assms(2)] assms(1) tm_ok_aged aged_fields(3) cref_ok by auto

lemma f32_ok_uminus [simp]: "f32_ok x \<Longrightarrow> f32_ok (- x)"
  by (auto simp: f32_ok_def f32_round_def split: if_splits)

lemma match_highest_in: "cs \<noteq> [] \<Longrightarrow> match_highest (sort_candidates cs) \<in> set cs"
proof -
  assume "cs \<noteq> []"
  moreover have set: "set (sort_candidates cs) = set cs" "length (sort_candidates cs) = length cs"
    by (simp_all add: sort_candidates_def)
  ultimately have "hd (sort_candidates cs) \<in> set cs" by (metis hd_in_set length_0_conv)
  moreover have "1 < length (sort_candidates cs) \<Longrightarrow> sort_candidates cs ! 1 \<in> set cs"
    using nth_mem [of 1 "sort_candidates cs"] set(1) by simp
  ultimately show ?thesis by (simp add: match_highest_def Let_def)
qed

lemma match_add_ok: "tm_ok tm \<Longrightarrow> victim \<noteq> 0 \<Longrightarrow> f32_ok delta \<Longrightarrow> tm_ok (match_add victim delta tm)"
  using tm_okD(3) [of tm victim] by (auto simp: match_add_def Let_def read_or_def split: option.splits)

lemma match_select_ok: "tm_ok tm \<Longrightarrow> tm_ok (snd (match_select now tm))"
  using reselect_keeps [of tm now None] by (auto simp: match_select_def split: prod.splits intro!: tm_ok_victim)

lemma Match_ok:
  assumes ok: "tm_ok tm"
  shows "tm_ok (snd (MatchUnitThreatToHighestThreat now victim tm))"
proof -
  obtain cs tm1 where col: "collect now (gkeys (entries tm)) tm = (cs, tm1)" by fastforce
  note c = collect_ok [OF ok col]
  have "f32_ok (cThreat (match_highest (sort_candidates cs)))" if "cs \<noteq> []"
    using c(3) match_highest_in [OF that] by (simp add: ref_ok_def)
  moreover have "tm_ok (new_ref victim tm1)" if "victim \<noteq> 0" using c(1) that by (simp add: new_ref_def)
  ultimately show ?thesis
    using ok c(1) effective_ok(1) [OF c(1)]
    by (auto simp: MatchUnitThreatToHighestThreat_def col Let_def intro!: match_select_ok match_add_ok)
qed

section \<open>Reachable states\<close>

inductive threat_step :: "ThreatManager \<Rightarrow> ThreatManager \<Rightarrow> bool" where
  add: "f32_ok x \<Longrightarrow> threat_step tm (snd (AddThreat now v x b tm))"
| set_threat: "f32_ok x \<Longrightarrow> threat_step tm (snd (SetThreat v x tm))"
| scale: "threat_step tm (snd (ScaleThreat v x tm))"
| match: "threat_step tm (snd (MatchUnitThreatToHighestThreat now v tm))"
| remove: "threat_step tm (snd (RemoveThreat now v tm))"
| update: "threat_step tm (snd (Update now n f tm))"
| victim: "threat_step tm (snd (GetCurrentVictim now tm))"
| clear: "threat_step tm (ClearThreat tm)"
| reset: "threat_step tm (ResetThreat tm)"
| fixate: "threat_step tm (FixateTarget v tm)"
| modifier: "threat_step tm (SetTempModifier v m tm)"
| taunt: "threat_step tm (ApplyTaunt now v n tm)"
| untaunt: "threat_step tm (ClearTaunt v tm)"
| detaunt: "threat_step tm (ApplyDetaunt now v n tm)"
| undetaunt: "threat_step tm (ClearDetaunt v tm)"
| is_taunted: "threat_step tm (snd (IsTaunted now v tm))"
| is_detaunted: "threat_step tm (snd (IsDetaunted now v tm))"
| any_taunt: "threat_step tm (snd (HasAnyTaunt now tm))"
| suppress: "threat_step tm (SuppressVictim now v tm)"
| promote: "threat_step tm (PromoteSuppressedVictim v tm)"
| set_offline: "threat_step tm (SetOfflineSet fl tm)"
| set_suppressed: "threat_step tm (SetSuppressedSet fl fl' tm)"
| seed: "threat_step tm (SeedNewVictimState v b b' tm)"
| debug: "threat_step tm (snd (DebugEntries now tm))"

inductive threat_reachable :: "ThreatManager \<Rightarrow> bool" where
  start: "threat_reachable (NewThreatManager motion)"
| step: "threat_reachable tm \<Longrightarrow> threat_step tm tm' \<Longrightarrow> threat_reachable tm'"

lemma reset_ok: "tm_ok tm \<Longrightarrow> tm_ok (ResetThreat tm)"
  by (auto simp: tm_ok_def ResetThreat_def has_entry_def)

lemma any_taunt_ok: "tm_ok tm \<Longrightarrow> tm_ok (snd (any_taunt now ps tm))"
  by (induction ps arbitrary: tm) auto

lemma taunted_ok: "tm_ok tm \<Longrightarrow> tm_ok (snd (IsTaunted now v tm))" "tm_ok tm \<Longrightarrow> tm_ok (snd (IsDetaunted now v tm))"
  by (auto simp: IsTaunted_def IsDetaunted_def isTauntedLocked_def isDetauntedLocked_def split: option.splits)

lemma suppress_ok: "tm_ok tm \<Longrightarrow> tm_ok (SuppressVictim now v tm)"
proof -
  assume ok: "tm_ok tm"
  obtain b tm1 where t: "isTauntedLocked now v tm = (b, tm1)" by fastforce
  have "tm_ok tm1" using isTauntedLocked_aged [OF t] ok tm_ok_aged by blast
  with ok show ?thesis by (cases b) (simp_all add: SuppressVictim_def t Let_def)
qed

lemma debug_rows_ok: "tm_ok tm \<Longrightarrow> tm_ok (snd (debug_rows now gs tm))"
proof (induction gs arbitrary: tm)
  case (Cons g gs)
  obtain b tm1 where t: "isTauntedLocked now g tm = (b, tm1)" by fastforce
  obtain c tm2 where d: "isDetauntedLocked now g tm1 = (c, tm2)" by fastforce
  have "tm_ok tm2"
    using isTauntedLocked_aged [OF t] isDetauntedLocked_aged [OF d] Cons.prems tm_ok_aged by blast
  then show ?case using Cons.IH by (simp add: t d split: prod.splits) (metis snd_conv)
qed simp

lemmas threat_ops_ok = AddThreat_ok SetThreat_ok ScaleThreat_ok Match_ok RemoveThreat_ok Update_ok GetCurrentVictim_ok
  reset_ok taunted_ok suppress_ok

lemma threat_step_ok: "threat_step tm tm' \<Longrightarrow> tm_ok tm \<Longrightarrow> tm_ok tm'"
proof (induction rule: threat_step.induct)
  case (clear tm)
  then show ?case by (simp add: tm_ok_def ClearThreat_def)
next
  case (fixate tm v)
  then show ?case by (auto simp: tm_ok_def FixateTarget_def has_entry_def)
next
  case (modifier tm v m)
  then show ?case by (auto simp: tm_ok_def SetTempModifier_def has_entry_def gomap_simps gm.keys_get)
next
  case (any_taunt tm now)
  then show ?case using any_taunt_ok by (simp add: HasAnyTaunt_def)
next
  case (debug tm now)
  then show ?case using debug_rows_ok [of tm now] by (auto simp: DebugEntries_def split: prod.splits) (metis snd_conv)
qed (simp_all add: threat_ops_ok ApplyTaunt_def ClearTaunt_def ApplyDetaunt_def ClearDetaunt_def
    PromoteSuppressedVictim_def SetOfflineSet_def SetSuppressedSet_def SeedNewVictimState_def Let_def)

lemma threat_start_ok: "tm_ok (NewThreatManager motion)"
  by (simp add: tm_ok_def NewThreatManager_def)

end
