(* ===== verification/Threat_Spec.thy ===== *)
theory Threat_Spec
  imports Threat_Laws
begin

text \<open>The properties of the threat list.\<close>

section \<open>Invariant and choice\<close>

lemma reachable_ok: "threat_reachable tm \<Longrightarrow> tm_ok tm"
  by (induction rule: threat_reachable.induct) (auto intro: threat_start_ok threat_step_ok)

text \<open>
  C24: In every state a threat manager can reach, whatever is done to it in whatever order, the victim and
  the fixated target are on the list, no threat is kept for guid zero, modifiers are kept for entries
  only; and the victim it reports is none or an available entry.
\<close>

theorem threat_reachable_ok:
  assumes "threat_reachable tm"
  shows "tm_ok tm \<and> (fst (GetCurrentVictim now tm) = 0 \<or> available tm (fst (GetCurrentVictim now tm)))"
proof -
  have ok: "tm_ok tm" by (rule reachable_ok [OF assms])
  obtain v tm' where r: "reselectVictimLocked now None tm = (v, tm')" by fastforce
  have "v = 0 \<or> available tm v"
    using reselect_good(1) [OF ok r] by (auto simp: good_choice_def split: if_splits)
  moreover have "currentVictim tm = 0 \<or> has_entry tm (currentVictim tm)" by (rule tm_okD(4) [OF ok])
  ultimately show ?thesis using ok r by (auto simp: GetCurrentVictim_def available_def)
qed

definition wolf :: ThreatManager where
  "wolf = NewThreatManager (Some \<lparr>moGUID = 9, moOwnerGUID = 0, moCharmed = False\<rparr>)"

lemma f32_small [simp]: "f32_ok (n * f32_unit)" if "0 \<le> n" "n \<le> 2 ^ 24"
proof -
  have "n * f32_unit \<le> 2 ^ 24 * f32_unit" using that by (intro mult_right_mono) (simp_all add: f32_unit_def)
  then have le: "n * f32_unit \<le> f32_inf" by (simp add: f32_unit_def f32_inf_def)
  have "round_mag 0 (n * f32_unit) = n * f32_unit"
    using short_dvd [OF that, of 149] le that by (intro round_mag_fix) (simp_all add: f32_unit_def)
  moreover have "0 \<le> n * f32_unit" using that by (simp add: f32_unit_def)
  ultimately show ?thesis by (simp add: f32_ok_def f32_round_def)
qed

theorem threat_reachable_ok_witness:
  "tm_ok (snd (AddThreat 0 5 (100 * f32_unit) True (ApplyTaunt 0 7 0 wolf)))"
proof -
  have "threat_reachable (snd (AddThreat 0 5 (100 * f32_unit) True (ApplyTaunt 0 7 0 wolf)))"
    unfolding wolf_def
    by (intro threat_reachable.step [OF _ threat_step.add] threat_reachable.step [OF _ threat_step.taunt]
      threat_reachable.start f32_small) simp_all
  from threat_reachable_ok [OF this] show ?thesis by simp
qed

lemma live_purge: "gmap_ok m \<Longrightarrow> live now (purge_expired now m) = live now m"
  by (auto simp: live_def purge_expired_def fun_eq_iff gget_filter split: option.splits)

lemma purged_reads:
  assumes "gmap_ok (tauntExpiry tm)"
  shows "cref now (tm\<lparr>updateTimerMs := n, tauntExpiry := purge_expired now (tauntExpiry tm)\<rparr>) = cref now tm"
    "available (tm\<lparr>updateTimerMs := n, tauntExpiry := purge_expired now (tauntExpiry tm)\<rparr>) = available tm"
  by (simp_all add: fun_eq_iff cref_def available_def effectiveThreatLocked_def has_entry_def taunt_level_def
      isSuppressedLocked_def isOfflineLocked_def live_purge [OF assms(1)])

lemma good_choice_cong:
  assumes "cref now tm' = cref now tm" "available tm' = available tm"
    and "currentVictim tm' = currentVictim tm" "fixateGUID tm' = fixateGUID tm"
  shows "good_choice now inMelee tm' = good_choice now inMelee tm"
  by (rule ext) (unfold good_choice_def challenges_def assms, rule refl)

text \<open>
  C3: The update keeps the victim until a second of combat time has passed. On the tick it picks the fixated
  target if that is available; nobody if nobody is available; the top of the list if there is no available
  victim; and otherwise it leaves the old victim exactly when some available target outranks it by a tenth
  in melee range or by three tenths, for one that does. It reports a switch just when the victim changed,
  and consumes the dirty mark.
\<close>

theorem Update_chooses_well:
  assumes "threat_reachable tm" and "Update now elapsed inMelee tm = ((switched, v, dirty), tm')"
  shows "v = currentVictim tm' \<and> (switched \<longleftrightarrow> v \<noteq> currentVictim tm) \<and> entries tm' = entries tm \<and>
    (if ownerCanHaveThreatList tm \<and> entries tm \<noteq> [] \<and> updateTimerMs tm \<le> elapsed
     then good_choice now inMelee tm v \<and> dirty = needClientUpdate tm \<and> \<not> needClientUpdate tm' \<and>
          updateTimerMs tm' = threatUpdateIntervalMs
     else v = currentVictim tm \<and> \<not> dirty)"
proof -
  have ok: "tm_ok tm" by (rule reachable_ok [OF assms(1)])
  let ?tm1 = "tm\<lparr>updateTimerMs := threatUpdateIntervalMs, tauntExpiry := purge_expired now (tauntExpiry tm)\<rparr>"
  have ok1: "tm_ok ?tm1" using ok by simp
  obtain w tm2 where r: "reselectVictimLocked now inMelee ?tm1 = (w, tm2)" by fastforce
  note k = reselect_keeps [OF ok1 r]
  have good: "good_choice now inMelee tm w"
    using good_choice_cong [OF purged_reads [OF tm_okD(9) [OF ok]]] reselect_good(1) [OF ok1 r] by simp
  show ?thesis using assms(2) k(3-6) good by (auto simp: Update_def Let_def r split: if_splits)
qed

text \<open>A fight: 5 holds the creature with 100 threat; 6, out of melee range, has 125.\<close>

definition brawl :: ThreatManager where
  "brawl = snd (AddThreat 0 6 (125 * f32_unit) False (snd (AddThreat 0 5 (100 * f32_unit) True wolf)))"

lemma brawl_reachable: "threat_reachable brawl"
  unfolding brawl_def wolf_def
  by (intro threat_reachable.step [OF _ threat_step.add] threat_reachable.start f32_small) simp_all

lemma brawl_update:
  "fst (Update 0 400 None brawl) = (False, 5, False)" "fst (Update 0 1000 None brawl) = (False, 5, True)"
  "fst (Update 0 1000 (Some (\<lambda>g. g = 6)) brawl) = (True, 6, True)"
  by code_simp+

theorem Update_chooses_well_witness:
  "good_choice 0 (Some (\<lambda>g. g = 6)) brawl 6"
proof -
  obtain tm' where r: "Update 0 1000 (Some (\<lambda>g. g = 6)) brawl = ((True, 6, True), tm')"
    using brawl_update(3) by (metis prod.collapse)
  have "ownerCanHaveThreatList brawl \<and> entries brawl \<noteq> [] \<and> updateTimerMs brawl \<le> 1000"
    by code_simp
  with Update_chooses_well [OF brawl_reachable r] show ?thesis by simp
qed

section \<open>Adding threat\<close>

text \<open>The threat an add leaves on the entry.\<close>

definition threat_after :: "ThreatManager \<Rightarrow> u64 \<Rightarrow> f32v \<Rightarrow> f32v" where
  "threat_after tm victim amount =
     (let held = isOfflineLocked tm victim \<or> isSuppressedLocked tm victim in
      case gget (entries tm) victim of
        None \<Rightarrow> if held then 0 else max 0 amount
      | Some old \<Rightarrow> if held \<or> amount = 0 then old else max 0 (f32_add old amount))"

definition steals :: "int \<Rightarrow> ThreatManager \<Rightarrow> u64 \<Rightarrow> f32v \<Rightarrow> bool \<Rightarrow> bool" where
  "steals now tm victim threat inMelee \<longleftrightarrow>
     taunt_level now tm (currentVictim tm) < taunt_level now tm victim \<or>
     taunt_level now tm (currentVictim tm) = taunt_level now tm victim \<and>
     f32_mul (effectiveThreatLocked tm (currentVictim tm)) (if inMelee then weight11 else weight13) < threat"

lemma add_select_exact:
  assumes "add_select now victim threat inMelee tm = ((switched, v), tm')"
  shows "entries tm' = entries tm \<and> v = currentVictim tm' \<and> isOfflineLocked tm' = isOfflineLocked tm \<and>
    tempMods tm' = tempMods tm \<and> (v, switched) =
      (if fixateGUID tm \<noteq> 0 \<and> available tm (fixateGUID tm) then (fixateGUID tm, currentVictim tm \<noteq> fixateGUID tm)
       else if currentVictim tm = 0 \<or> currentVictim tm = victim
       then (if isOfflineLocked tm victim then currentVictim tm else victim, False)
       else if steals now tm victim threat inMelee then (victim, True) else (currentVictim tm, False))"
proof (cases "fixateGUID tm \<noteq> 0 \<and> available tm (fixateGUID tm) \<or> currentVictim tm = 0 \<or> currentVictim tm = victim")
  case True
  then show ?thesis using assms by (auto simp: add_select_def isOfflineLocked_def fun_eq_iff split: if_splits)
next
  case False
  let ?tm0 = "tm\<lparr>fixateGUID := 0\<rparr>"
  obtain n tm1 where t1: "tauntStateLocked now victim ?tm0 = (n, tm1)" by fastforce
  obtain m tm2 where t2: "tauntStateLocked now (currentVictim tm1) tm1 = (m, tm2)" by fastforce
  note a1 = tauntStateLocked_aged [OF t1] and a2 = tauntStateLocked_aged [OF t2]
  note f1 = aged_fields [OF a1(2)] aged_reads [OF a1(2)] and f2 = aged_fields [OF a2(2)] aged_reads [OF a2(2)]
  have frame: "taunt_level now ?tm0 = taunt_level now tm" "effectiveThreatLocked ?tm0 = effectiveThreatLocked tm"
    "isOfflineLocked ?tm0 = isOfflineLocked tm"
    by (simp_all add: fun_eq_iff taunt_level_def effectiveThreatLocked_def isOfflineLocked_def)
  have n: "n = taunt_level now tm victim" "m = taunt_level now tm (currentVictim tm)"
    using a1(1) a2(1) f1 frame by simp_all
  have r: "((switched, v), tm') = (if steals now tm victim threat inMelee
      then ((True, victim), tm2\<lparr>currentVictim := victim\<rparr>) else ((False, currentVictim tm2), tm2))"
    unfolding assms [symmetric] using False t1 t2 n f1 f2 frame
    by (auto simp: add_select_def Let_def steals_def)
  then show ?thesis using False f1 f2 frame by (auto simp: isOfflineLocked_def fun_eq_iff split: if_splits)
qed

lemma effective_put:
  assumes "tm_ok tm" "f32_ok x" "0 \<le> x" "\<not> has_entry tm v"
  shows "effectiveThreatLocked (tm\<lparr>entries := gput v x (entries tm), needClientUpdate := b\<rparr>) v = x"
proof -
  have "v \<notin> set (gkeys (entries tm))" using assms(4) by (simp add: has_entry_def gm.keys_get)
  then have "gget (tempMods tm) v = None" using tm_okD(6) [OF assms(1)] by (auto simp: gm.keys_get)
  then show ?thesis using assms(2,3) by (simp add: effectiveThreatLocked_def read_or_def gomap_simps Let_def)
qed

lemma put_reads:
  fixes tm :: ThreatManager and v :: u64
  defines "put x \<equiv> tm\<lparr>entries := gput v x (entries tm), needClientUpdate := True\<rparr>"
  shows "isOfflineLocked (put x) = isOfflineLocked tm" "taunt_level now (put x) = taunt_level now tm"
    "g \<noteq> v \<Longrightarrow> effectiveThreatLocked (put x) g = effectiveThreatLocked tm g"
    "available (put x) g \<longleftrightarrow> available tm g \<or> g = v \<and> \<not> isOfflineLocked tm v"
  by (auto simp: put_def fun_eq_iff isOfflineLocked_def taunt_level_def effectiveThreatLocked_def read_or_def gomap_simps
      available_def has_entry_def)

text \<open>All of \<open>AddThreat\<close> past its guards: the entry, then either an outright install or the selection.\<close>

lemma AddThreat_cases:
  fixes amount :: f32v
  assumes ok: "tm_ok tm" and v: "victim \<noteq> 0" "ownerCanHaveThreatList tm"
  defines "put \<equiv> tm\<lparr>entries := gput victim (threat_after tm victim amount) (entries tm), needClientUpdate := True\<rparr>"
  shows "AddThreat now victim amount inMelee tm =
    (if has_entry tm victim \<and> (amount = 0 \<or> isOfflineLocked tm victim \<or> isSuppressedLocked tm victim)
     then ((False, currentVictim tm), tm)
     else if \<not> has_entry tm victim \<and> currentVictim tm = 0 \<and> \<not> isOfflineLocked tm victim
     then ((False, victim), put\<lparr>currentVictim := victim\<rparr>)
     else add_select now victim (if has_entry tm victim then effectiveThreatLocked put victim
            else threat_after tm victim amount) inMelee put)"
  using v by (cases "gget (entries tm) victim")
    (auto simp: AddThreat_def Let_def put_def threat_after_def has_entry_def isOfflineLocked_def max_def not_less)

text \<open>
  C21: Adding threat changes no entry but that of the victim, which is created if need be, never falls
  below zero, and is left alone while it is offline or suppressed. The victim of the creature changes only to
  the available fixated target, to the added victim when there was no victim, or to the added victim because its
  taunt ranks higher or its threat beats that of the old one by a tenth in melee and three tenths otherwise; a
  switch is reported only for a change.
\<close>

theorem AddThreat_effect:
  assumes "threat_reachable tm" "victim \<noteq> 0" "ownerCanHaveThreatList tm" "f32_ok amount"
    and "AddThreat now victim amount inMelee tm = ((switched, v), tm')"
  shows "v = currentVictim tm' \<and> (switched \<longrightarrow> v \<noteq> currentVictim tm) \<and>
    gget (entries tm') = (gget (entries tm))(victim \<mapsto> threat_after tm victim amount) \<and>
    (v \<noteq> currentVictim tm \<longrightarrow>
       v = fixateGUID tm \<and> available tm v \<or>
       v = victim \<and> currentVictim tm = 0 \<and> \<not> isOfflineLocked tm victim \<or>
       v = victim \<and> \<not> available tm (fixateGUID tm) \<and>
         steals now tm victim (effectiveThreatLocked tm' victim) inMelee)"
proof -
  have ok: "tm_ok tm" by (rule reachable_ok [OF assms(1)])
  let ?x = "threat_after tm victim amount"
  let ?put = "tm\<lparr>entries := gput victim ?x (entries tm), needClientUpdate := True\<rparr>"
  let ?skip = "has_entry tm victim \<and> (amount = 0 \<or> isOfflineLocked tm victim \<or> isSuppressedLocked tm victim)"
  have same: "gget (entries tm) = (gget (entries tm))(victim \<mapsto> ?x)" if ?skip
    using that by (auto simp: threat_after_def has_entry_def fun_eq_iff)
  have put: "gget (entries ?put) = (gget (entries tm))(victim \<mapsto> ?x)" by (simp add: fun_eq_iff gomap_simps)
  have x: "f32_ok ?x" "0 \<le> ?x" if "\<not> has_entry tm victim"
    using that assms(4) by (auto simp: threat_after_def has_entry_def max_def)
  have eff: "(if has_entry tm victim then effectiveThreatLocked ?put victim else ?x) = effectiveThreatLocked ?put victim"
    using effective_put [OF ok x] by auto
  note r = assms(5) [unfolded AddThreat_cases [OF ok assms(2,3)] eff]
  consider (skip) "?skip" | (install) "\<not> ?skip" "\<not> has_entry tm victim" "currentVictim tm = 0" "\<not> isOfflineLocked tm victim"
    | (sel) "add_select now victim (effectiveThreatLocked ?put victim) inMelee ?put = ((switched, v), tm')"
    using r by (auto split: if_splits)
  then show ?thesis
  proof cases
    case skip
    then show ?thesis using r same by auto
  next
    case install
    then show ?thesis using r put assms(2) by (auto split: if_splits)
  next
    case sel
    note e = add_select_exact [OF sel]
    have "fixateGUID tm \<noteq> 0 \<Longrightarrow> available ?put (fixateGUID tm) = available tm (fixateGUID tm)"
      using tm_okD(5) [OF ok] unfolding put_reads by (auto simp: available_def)
    moreover have "\<not> available tm 0" by (rule tm_okD(8) [OF ok])
    moreover have "steals now ?put victim y inMelee = steals now tm victim y inMelee" if "currentVictim tm \<noteq> victim" for y
      using that by (simp add: steals_def put_reads)
    moreover have "effectiveThreatLocked tm' victim = effectiveThreatLocked ?put victim"
      using e by (simp add: effectiveThreatLocked_def)
    ultimately show ?thesis using e put by (auto simp: put_reads split: if_splits)
  qed
qed

theorem AddThreat_effect_witness:
  "\<exists>tm'. AddThreat 0 6 (10 * f32_unit) False brawl = ((True, 6), tm') \<and>
     gget (entries tm') 6 = Some (135 * f32_unit) \<and> steals 0 brawl 6 (effectiveThreatLocked tm' 6) False"
proof -
  obtain tm' where r: "AddThreat 0 6 (10 * f32_unit) False brawl = ((True, 6), tm')"
  proof -
    have "fst (AddThreat 0 6 (10 * f32_unit) False brawl) = (True, 6)" by code_simp
    then show ?thesis using that by (metis prod.collapse)
  qed
  have "ownerCanHaveThreatList brawl" "currentVictim brawl = 5" "fixateGUID brawl = 0"
    "threat_after brawl 6 (10 * f32_unit) = 135 * f32_unit"
    by code_simp+
  with AddThreat_effect [OF brawl_reachable _ _ _ r] r show ?thesis by simp
qed

text \<open>
  Adding threat makes an offline victim the victim of the creature in exactly one case: the victim is new
  on the list, was seeded offline, its taunt ranks above that of the current victim, and no fixated target is
  available. The gate that should refuse it is passed only by a victim that is already on the list.
\<close>

theorem AddThreat_installs_offline_taunter:
  assumes "threat_reachable tm" "victim \<noteq> 0" "ownerCanHaveThreatList tm" "f32_ok amount" "isOfflineLocked tm victim"
    and "AddThreat now victim amount inMelee tm = ((switched, v), tm')"
  shows "v = victim \<and> v \<noteq> currentVictim tm \<longleftrightarrow>
    \<not> has_entry tm victim \<and> currentVictim tm \<noteq> 0 \<and> \<not> available tm (fixateGUID tm) \<and>
    taunt_level now tm (currentVictim tm) < taunt_level now tm victim"
proof -
  have ok: "tm_ok tm" by (rule reachable_ok [OF assms(1)])
  let ?put = "tm\<lparr>entries := gput victim 0 (entries tm), needClientUpdate := True\<rparr>"
  have cur: "has_entry tm (currentVictim tm) \<or> currentVictim tm = 0" using tm_okD(4) [OF ok] by blast
  have w: "f32_unit \<le> (if inMelee then weight11 else weight13)" using weights by auto
  have big: "\<not> f32_mul (effectiveThreatLocked tm (currentVictim tm)) (if inMelee then weight11 else weight13) < 0"
    unfolding not_less by (rule order_trans [OF effective_ok(2) [OF ok] f32_mul_ge [OF effective_ok [OF ok] w]])
  have fixd: "fixateGUID tm \<noteq> 0 \<and> available ?put (fixateGUID tm) \<longleftrightarrow> available tm (fixateGUID tm)"
    using tm_okD(5,8) [OF ok] assms(5) unfolding put_reads by (auto simp: available_def)
  have new: "threat_after tm victim amount = 0" if "\<not> has_entry tm victim"
    using that assms(5) by (simp add: threat_after_def has_entry_def)
  note r = assms(6) [unfolded AddThreat_cases [OF ok assms(2,3)]]
  show ?thesis
  proof (cases "has_entry tm victim")
    case True
    then show ?thesis using r assms(5) by auto
  next
    case False
    then have sel: "add_select now victim 0 inMelee ?put = ((switched, v), tm')"
      using r assms(5) by (simp add: new)
    have st: "steals now ?put victim 0 inMelee \<longleftrightarrow> taunt_level now tm (currentVictim tm) < taunt_level now tm victim"
      if "currentVictim tm \<noteq> victim"
      using that big by (auto simp: steals_def put_reads)
    have "available tm (fixateGUID tm) \<Longrightarrow> fixateGUID tm \<noteq> victim" using False by (auto simp: available_def)
    then show ?thesis
      using add_select_exact [OF sel] False cur fixd st assms(2,5) by (auto simp: put_reads(1) split: if_splits)
  qed
qed

theorem AddThreat_installs_offline_taunter_witness:
  "\<exists>tm'. AddThreat 0 7 (1 * f32_unit) True (SeedNewVictimState 7 True False (ApplyTaunt 0 7 0 brawl)) = ((True, 7), tm') \<and>
     currentVictim brawl = 5"
proof -
  let ?tm = "SeedNewVictimState 7 True False (ApplyTaunt 0 7 0 brawl)"
  have re: "threat_reachable ?tm"
    by (intro threat_reachable.step [OF _ threat_step.seed] threat_reachable.step [OF _ threat_step.taunt] brawl_reachable)
  obtain s v tm' where r: "AddThreat 0 7 (1 * f32_unit) True ?tm = ((s, v), tm')" by (metis prod_cases3 surj_pair)
  have c: "ownerCanHaveThreatList ?tm" "isOfflineLocked ?tm 7" "\<not> has_entry ?tm 7" "currentVictim ?tm = 5"
    "\<not> available ?tm (fixateGUID ?tm)" "taunt_level 0 ?tm 5 < taunt_level 0 ?tm 7" "currentVictim brawl = 5"
    by code_simp+
  have one: "f32_ok (1 * f32_unit)" by (rule f32_small) simp_all
  have v: "v = 7"
    using AddThreat_installs_offline_taunter [OF re _ c(1) one c(2) r] c by simp
  have "fst (fst (AddThreat 0 7 (1 * f32_unit) True ?tm))" by code_simp
  then show ?thesis using r v c(7) by simp
qed

section \<open>Leftovers of a wiped list\<close>

text \<open>
  Wiping the threat list keeps the mid-taunt deferrals and the detaunts. A deferral therefore outlives the
  entry it belongs to, and when its victim is seeded suppressed for the next fight, the two flags hold
  together for a victim that is not on the list.
\<close>

theorem ClearThreat_keeps_deferral:
  assumes "IsSuppressDeferred tm v"
  shows "\<not> has_entry (ClearThreat tm) v \<and> IsSuppressDeferred (ClearThreat tm) v \<and>
    detauntExpiry (ClearThreat tm) = detauntExpiry tm \<and>
    IsSuppressDeferred (SeedNewVictimState v False True (ClearThreat tm)) v \<and>
    IsSuppressed (SeedNewVictimState v False True (ClearThreat tm)) v"
  using assms
  by (auto simp: IsSuppressDeferred_def IsSuppressed_def isSuppressedLocked_def ClearThreat_def SeedNewVictimState_def
      has_entry_def flag_def gomap_simps)

theorem ClearThreat_keeps_deferral_witness:
  "IsSuppressed (SeedNewVictimState 6 False True (ClearThreat (SuppressVictim 0 6 (ApplyTaunt 0 6 0 brawl)))) 6"
proof -
  have "IsSuppressDeferred (SuppressVictim 0 6 (ApplyTaunt 0 6 0 brawl)) 6" by code_simp
  from ClearThreat_keeps_deferral [OF this] show ?thesis by blast
qed

end
