(* ===== verification/Threat_Wire.thy ===== *)
theory Threat_Wire
  imports Misc_Packets Threat_Spec
begin

text \<open>
  From the threat list to the client: the threat update packet of \<^verbatim>\<open>pkg/protocol/threat.go\<close>, built from the
  sorted available entries of \<^verbatim>\<open>engine/world/threat.go\<close>, read back the way the client reads it.
\<close>

section \<open>The client's reader\<close>

definition read_threat :: "ThreatEntry reader" where
  "read_threat = rbind ReadPackedGUID (\<lambda>g. rbind ReadU32 (\<lambda>t. rret \<lparr>teVictimGUID = g, teThreat = t\<rparr>))"

definition read_threat_list :: "ThreatEntry list reader" where
  "read_threat_list = rbind ReadU32 (\<lambda>n. read_many read_threat (unat n))"

definition read_threat_update :: "(u64 \<times> ThreatEntry list) reader" where
  "read_threat_update = rbind ReadPackedGUID (\<lambda>c. rbind read_threat_list (\<lambda>es. rret (c, es)))"

definition threat_enc :: "ThreatEntry \<Rightarrow> bytes" where
  "threat_enc e = guid_enc (teVictimGUID e) @ le_bytes 4 (teThreat e)"

interpretation threatc: codec write_threat read_threat threat_enc "\<lambda>_. True"
proof unfold_locales
  show "write_threat x = Write (threat_enc x)" for x
    by (rule ext) (simp add: write_threat_def WritePackedGUID_eq WriteU32_def threat_enc_def)
  show "read_threat b = (Inr x, advance (length (threat_enc x)) b)"
    if "buf_ok b" "unread b = threat_enc x @ rest" for x b rest
  proof -
    have "read_threat b = (Inr x, advance (length (guid_enc (teVictimGUID x)) + (length (le_bytes 4 (teThreat x)) + 0)) b)"
      unfolding read_threat_def
      by (rule guidc.rbind_ok, simp, fact, fact that(2) [unfolded threat_enc_def append_assoc],
          rule u32c.rbind_ok, simp, assumption, assumption) (simp add: rret_def)
    then show ?thesis by (simp add: threat_enc_def)
  qed
qed

lemma read_threat_update_ok:
  assumes "length es < 2 ^ 32"
  shows "fst (read_threat_update (NewReader (BuildThreatUpdate c es))) = Inr (c, es)"
proof -
  have n: "unat (of_nat (length es) :: u32) = length es"
    using assms by (simp add: unat_of_nat take_bit_nat_eq_self)
  let ?l = "concat (map threat_enc es)"
  have w: "writes (map write_threat es) b = Write ?l b" for b
    by (induction es arbitrary: b) (simp_all add: threatc.put_enc)
  have b: "BuildThreatUpdate c es = guid_enc c @ le_bytes 4 (of_nat (length es) :: u32) @ ?l"
    by (simp add: BuildThreatUpdate_def WritePackedGUID_eq WriteU32_def w)
  have list: "rbind read_threat_list (\<lambda>es. rret (c, es)) b =
      (Inr (c, es), advance (length (le_bytes 4 (of_nat (length es) :: u32)) + length ?l) b)"
    if ok: "buf_ok b" and u: "unread b = le_bytes 4 (of_nat (length es) :: u32) @ ?l" for b
  proof -
    have "read_threat_list b = (Inr es, advance (length (le_bytes 4 (of_nat (length es) :: u32)) + length ?l) b)"
      unfolding read_threat_list_def
      by (rule u32c.rbind_ok, simp, fact, fact, subst n, rule threatc.read_many_enc [where rest = "[]"]) (simp_all add: list_all_iff)
    then show ?thesis by (simp add: rbind_def rret_def)
  qed
  show ?thesis
    unfolding read_threat_update_def b
    by (subst guidc.rbind_ok, simp, simp, simp, rule list, assumption, assumption) simp
qed

section \<open>What the client sees\<close>

lemma sort_descending:
  fixes f :: "'a \<Rightarrow> u32"
  shows "sorted_wrt (\<lambda>x y. f y \<le> f x) (sort_key (\<lambda>x. - uint (f x)) xs)"
proof -
  have "sorted_wrt (\<lambda>x y. - uint (f x) \<le> - uint (f y)) (sort_key (\<lambda>x. - uint (f x)) xs)"
    using sorted_sort_key [of "\<lambda>x. - uint (f x)" xs] by (simp add: sorted_map)
  then show ?thesis by (simp add: word_le_def)
qed

text \<open>
  The threat update packet of a reachable threat list is read by the client as the creature and one row for
  each available victim, no victim twice and no other victim, in descending order of threat, each with a
  hundred times its effective threat.
\<close>

theorem threat_update_delivers:
  assumes "threat_reachable tm" and "length (entries tm) < 2 ^ 32"
  shows "\<exists>es. fst (read_threat_update (NewReader (BuildThreatUpdate creature (SortedEntriesAvailable tm)))) =
      Inr (creature, es) \<and>
    sorted_wrt (\<lambda>x y. teThreat y \<le> teThreat x) es \<and> distinct (map teVictimGUID es) \<and>
    set (map teVictimGUID es) = {g. available tm g} \<and>
    (\<forall>e \<in> set es. teThreat e = f32_to_u32 (f32_mul (effectiveThreatLocked tm (teVictimGUID e)) (100 * f32_unit)))"
proof -
  let ?g = "filter (\<lambda>guid. \<not> isOfflineLocked tm guid) (gkeys (entries tm))"
  let ?es = "sortedEntriesLocked True tm"
  have es: "?es = sort_key (\<lambda>e. - uint (teThreat e)) (map (threat_entry tm) ?g)"
    by (simp add: sortedEntriesLocked_def)
  have vic: "map teVictimGUID (map (threat_entry tm) ?g) = ?g" by (simp add: threat_entry_def comp_def)
  have "mset (map teVictimGUID ?es) = mset (map teVictimGUID (map (threat_entry tm) ?g))"
    by (simp only: es mset_map mset_sort)
  then have m: "mset (map teVictimGUID ?es) = mset ?g" by (simp only: vic)
  have d: "distinct ?g" using reachable_ok [OF assms(1)] by (simp add: tm_ok_def gmap_ok_def gkeys_def)
  have "length ?es = length ?g" by (simp only: es length_sort length_map)
  also have "\<dots> \<le> length (gkeys (entries tm))" by (rule length_filter_le)
  also have "\<dots> < 2 ^ 32" using assms(2) by (simp only: gkeys_def length_map)
  finally have read: "fst (read_threat_update (NewReader (BuildThreatUpdate creature ?es))) = Inr (creature, ?es)"
    by (rule read_threat_update_ok)
  have dist: "distinct (map teVictimGUID ?es)" using d mset_eq_imp_distinct_iff [OF m] by simp
  have victims: "set (map teVictimGUID ?es) = {g. available tm g}"
    using mset_eq_setD [OF m] by (auto simp: available_def has_entry_def gm.keys_get)
  have rows: "\<forall>e \<in> set ?es. teThreat e = f32_to_u32 (f32_mul (effectiveThreatLocked tm (teVictimGUID e)) (100 * f32_unit))"
    by (auto simp: es threat_entry_def)
  have "sorted_wrt (\<lambda>x y. teThreat y \<le> teThreat x) ?es" unfolding es by (rule sort_descending)
  from read this dist victims rows show ?thesis
    unfolding SortedEntriesAvailable_def by (intro exI [of _ ?es] conjI)
qed

theorem threat_update_delivers_witness:
  "\<exists>es. fst (read_threat_update (NewReader (BuildThreatUpdate 9 (SortedEntriesAvailable brawl)))) = Inr (9, es) \<and>
     set (map teVictimGUID es) = {g. available brawl g}"
proof -
  have "length (entries brawl) = 2" by code_simp
  then have "length (entries brawl) < 2 ^ 32" by simp
  from threat_update_delivers [OF brawl_reachable this, of 9] show ?thesis by blast
qed

end
