(* ===== verification/Spell_Packets.thy ===== *)
theory Spell_Packets
  imports Wire_Codec
begin

text \<open>
  \<^verbatim>\<open>pkg/protocol/spells.go\<close>: the packets of a spell cast and of auras. A packet is the list of its writer
  calls; a pointer that may be nil is an option.
\<close>

section \<open>Targets\<close>

abbreviation (input) SpellTargetFlagUnit :: u32 where "SpellTargetFlagUnit \<equiv> 0x00000002"
abbreviation (input) SpellTargetFlagItem :: u32 where "SpellTargetFlagItem \<equiv> 0x00000010"
abbreviation (input) SpellTargetFlagSourceLocation :: u32 where "SpellTargetFlagSourceLocation \<equiv> 0x00000020"
abbreviation (input) SpellTargetFlagDestLocation :: u32 where "SpellTargetFlagDestLocation \<equiv> 0x00000040"
abbreviation (input) SpellTargetFlagString :: u32 where "SpellTargetFlagString \<equiv> 0x00002000"

text \<open>The unions of the flags for unit, minipet, object and corpses, and for items and traded items.\<close>

definition SpellTargetFlagUnitWireMask :: u32 where
  "SpellTargetFlagUnitWireMask = 0x00000002 OR 0x00010000 OR 0x00000800 OR 0x00000200 OR 0x00008000"
definition SpellTargetFlagItemWireMask :: u32 where
  "SpellTargetFlagItemWireMask = 0x00000010 OR 0x00001000"

abbreviation (input) SpellCastFlagAmmo :: u32 where "SpellCastFlagAmmo \<equiv> 0x00000020"
abbreviation (input) SpellCastFlagVisualChain :: u32 where "SpellCastFlagVisualChain \<equiv> 0x00080000"
abbreviation (input) SpellCastFlagPowerLeftSelf :: u32 where "SpellCastFlagPowerLeftSelf \<equiv> 0x00000800"
abbreviation (input) SpellCastFlagAdjustMissile :: u32 where "SpellCastFlagAdjustMissile \<equiv> 0x00020000"
abbreviation (input) SpellCastFlagRuneList :: u32 where "SpellCastFlagRuneList \<equiv> 0x00200000"

abbreviation (input) SpellMissReflect :: u8 where "SpellMissReflect \<equiv> 11"

record SpellTargetLocation =
  slTransport :: u64
  slX :: f32
  slY :: f32
  slZ :: f32

definition no_location :: SpellTargetLocation where
  "no_location = \<lparr>slTransport = 0, slX = 0, slY = 0, slZ = 0\<rparr>"

text \<open>The last four fields never reach the wire.\<close>

record SpellTargetData =
  stFlags :: u32
  stUnitGUID :: u64
  stItemGUID :: u64
  stSource :: SpellTargetLocation
  stDestination :: SpellTargetLocation
  stStringTarget :: gostring
  stTrajElevation :: f32
  stTrajSpeed :: f32
  stReadSrc :: SpellTargetLocation
  stHasReadSrc :: bool

record SpellMissStatus =
  smTargetGUID :: u64
  smReason :: u8
  smReflectStatus :: u8

record SpellGoRuneData =
  rdStart :: u8
  rdCount :: u8
  rdCooldowns :: "u8 list"

record SpellGoAmmo =
  amDisplayID :: u32
  amInventoryType :: u32

record SpellGoMissileTrajectory =
  mtPitch :: f32
  mtTravelTime :: u32

record SpellGoTrailerExtras =
  exRunes :: "SpellGoRuneData option"
  exTrajectory :: "SpellGoMissileTrajectory option"
  exAmmo :: "SpellGoAmmo option"

text \<open>A field read only under a flag keeps its zero value otherwise.\<close>

definition read_if :: "bool \<Rightarrow> 'a \<Rightarrow> 'a reader \<Rightarrow> 'a reader" where
  "read_if c d r = (if c then r else rret d)"

definition readSpellTargetLocation :: "SpellTargetLocation reader" where
  "readSpellTargetLocation =
     rbind ReadPackedGUID (\<lambda>t. rbind ReadF32 (\<lambda>x. rbind ReadF32 (\<lambda>y. rbind ReadF32 (\<lambda>z.
       rret \<lparr>slTransport = t, slX = x, slY = y, slZ = z\<rparr>))))"

definition ReadSpellTargetData :: "SpellTargetData reader" where
  "ReadSpellTargetData =
     rbind ReadU32 (\<lambda>flags.
     rbind (read_if (has_flag flags SpellTargetFlagUnitWireMask) 0 ReadPackedGUID) (\<lambda>unit.
     rbind (read_if (has_flag flags SpellTargetFlagItemWireMask) 0 ReadPackedGUID) (\<lambda>item.
     rbind (read_if (has_flag flags SpellTargetFlagSourceLocation) no_location readSpellTargetLocation) (\<lambda>src.
     rbind (read_if (has_flag flags SpellTargetFlagDestLocation) no_location readSpellTargetLocation) (\<lambda>dst.
     rbind (read_if (has_flag flags SpellTargetFlagString) [] ReadCString) (\<lambda>str.
       rret \<lparr>stFlags = flags, stUnitGUID = unit, stItemGUID = item, stSource = src, stDestination = dst,
             stStringTarget = str, stTrajElevation = 0, stTrajSpeed = 0, stReadSrc = no_location,
             stHasReadSrc = False\<rparr>))))))"

definition writeSpellTargetLocation :: "SpellTargetLocation \<Rightarrow> writer" where
  "writeSpellTargetLocation l = writes
     [WritePackedGUID (slTransport l), WriteF32 (slX l), WriteF32 (slY l), WriteF32 (slZ l)]"

definition writeSpellTargetData :: "SpellTargetData \<Rightarrow> writer" where
  "writeSpellTargetData t = writes
     [WriteU32 (stFlags t),
      write_if (has_flag (stFlags t) SpellTargetFlagUnitWireMask) (WritePackedGUID (stUnitGUID t)),
      write_if (has_flag (stFlags t) SpellTargetFlagItemWireMask) (WritePackedGUID (stItemGUID t)),
      write_if (has_flag (stFlags t) SpellTargetFlagSourceLocation) (writeSpellTargetLocation (stSource t)),
      write_if (has_flag (stFlags t) SpellTargetFlagDestLocation) (writeSpellTargetLocation (stDestination t)),
      write_if (has_flag (stFlags t) SpellTargetFlagString) (WriteCString (stStringTarget t))]"

definition WriteSpellTargetData :: "SpellTargetData \<Rightarrow> writer" where
  "WriteSpellTargetData t = writeSpellTargetData t"

section \<open>Casts\<close>

definition writeSpellCastHeader :: "u64 \<Rightarrow> u64 \<Rightarrow> u8 \<Rightarrow> u32 \<Rightarrow> u32 \<Rightarrow> u32 \<Rightarrow> writer" where
  "writeSpellCastHeader casterGUID casterUnitGUID castID spellID castFlags castTime = writes
     [WritePackedGUID casterGUID, WritePackedGUID casterUnitGUID, WriteU8 castID, WriteU32 spellID,
      WriteU32 castFlags, WriteU32 castTime]"

definition writeSpellCastTrailer :: "u32 \<Rightarrow> u32 \<Rightarrow> writer" where
  "writeSpellCastTrailer castFlags targetFlags = writes
     [write_if (has_flag castFlags SpellCastFlagVisualChain) (writes [WriteU32 0, WriteU32 0]),
      write_if (has_flag targetFlags SpellTargetFlagDestLocation) (WriteU8 0)]"

definition write_opt :: "bool \<Rightarrow> ('a \<Rightarrow> writer) \<Rightarrow> 'a option \<Rightarrow> writer" where
  "write_opt c w x = (case x of Some v \<Rightarrow> write_if c (w v) | None \<Rightarrow> id)"

definition write_ammo :: "SpellGoAmmo \<Rightarrow> writer" where
  "write_ammo a = writes [WriteU32 (amDisplayID a), WriteU32 (amInventoryType a)]"

definition BuildSpellStartWithPower ::
    "u64 \<Rightarrow> u64 \<Rightarrow> u8 \<Rightarrow> u32 \<Rightarrow> u32 \<Rightarrow> u32 \<Rightarrow> SpellTargetData \<Rightarrow> u32 option \<Rightarrow> SpellGoAmmo option \<Rightarrow> bytes" where
  "BuildSpellStartWithPower casterGUID casterUnitGUID castID spellID castFlags castTime target remainingPower ammo =
     Bytes (writes
       [writeSpellCastHeader casterGUID casterUnitGUID castID spellID castFlags castTime,
        writeSpellTargetData target,
        write_opt (has_flag castFlags SpellCastFlagPowerLeftSelf) WriteU32 remainingPower,
        write_opt (has_flag castFlags SpellCastFlagAmmo) write_ammo ammo,
        writeSpellCastTrailer castFlags (stFlags target)] (NewBuffer 64))"

definition BuildSpellStart :: "u64 \<Rightarrow> u64 \<Rightarrow> u8 \<Rightarrow> u32 \<Rightarrow> u32 \<Rightarrow> u32 \<Rightarrow> SpellTargetData \<Rightarrow> bytes" where
  "BuildSpellStart casterGUID casterUnitGUID castID spellID castFlags castTime target =
     BuildSpellStartWithPower casterGUID casterUnitGUID castID spellID castFlags castTime target None None"

definition BuildChannelStart :: "u64 \<Rightarrow> u32 \<Rightarrow> u32 \<Rightarrow> bytes" where
  "BuildChannelStart casterGUID spellID durationMs =
     Bytes (writes [WritePackedGUID casterGUID, WriteU32 spellID, WriteU32 durationMs] (NewBuffer 16))"

definition write_miss :: "SpellMissStatus \<Rightarrow> writer" where
  "write_miss st = writes
     [WriteU64 (smTargetGUID st), WriteU8 (smReason st),
      write_if (smReason st = SpellMissReflect) (WriteU8 (smReflectStatus st))]"

definition write_extras :: "u32 \<Rightarrow> SpellGoTrailerExtras \<Rightarrow> writer" where
  "write_extras castFlags ex = writes
     [write_opt (has_flag castFlags SpellCastFlagRuneList)
        (\<lambda>r. writes (WriteU8 (rdStart r) # WriteU8 (rdCount r) # map WriteU8 (rdCooldowns r))) (exRunes ex),
      write_opt (has_flag castFlags SpellCastFlagAdjustMissile)
        (\<lambda>t. writes [WriteF32 (mtPitch t), WriteU32 (mtTravelTime t)]) (exTrajectory ex),
      write_opt (has_flag castFlags SpellCastFlagAmmo) write_ammo (exAmmo ex)]"

definition BuildSpellGoWithPower ::
    "u64 \<Rightarrow> u64 \<Rightarrow> u8 \<Rightarrow> u32 \<Rightarrow> u32 \<Rightarrow> u32 \<Rightarrow> u64 list \<Rightarrow> SpellMissStatus list \<Rightarrow> SpellTargetData \<Rightarrow>
     u32 option \<Rightarrow> SpellGoTrailerExtras list \<Rightarrow> bytes" where
  "BuildSpellGoWithPower casterGUID casterUnitGUID castID spellID castFlags castTime hitTargets missStatus target
     remainingPower extras =
     (let hitTargets = (if length hitTargets > 255 then take 255 hitTargets else hitTargets);
          missStatus = (if length missStatus > 255 then take 255 missStatus else missStatus) in
      Bytes (writes
        ([writeSpellCastHeader casterGUID casterUnitGUID castID spellID castFlags castTime,
          WriteU8 (of_nat (length hitTargets))] @ map WriteU64 hitTargets @
         [WriteU8 (of_nat (length missStatus))] @ map write_miss missStatus @
         [writeSpellTargetData target,
          write_opt (has_flag castFlags SpellCastFlagPowerLeftSelf) WriteU32 remainingPower] @
         map (write_extras castFlags) extras @
         [writeSpellCastTrailer castFlags (stFlags target)]) (NewBuffer 96)))"

definition BuildSpellGo ::
    "u64 \<Rightarrow> u64 \<Rightarrow> u8 \<Rightarrow> u32 \<Rightarrow> u32 \<Rightarrow> u32 \<Rightarrow> u64 list \<Rightarrow> SpellMissStatus list \<Rightarrow> SpellTargetData \<Rightarrow> bytes" where
  "BuildSpellGo casterGUID casterUnitGUID castID spellID castFlags castTime hitTargets missStatus target =
     BuildSpellGoWithPower casterGUID casterUnitGUID castID spellID castFlags castTime hitTargets missStatus target
       None []"

definition BuildSpellFailure :: "u64 \<Rightarrow> u8 \<Rightarrow> u32 \<Rightarrow> u8 \<Rightarrow> bytes" where
  "BuildSpellFailure casterGUID castID spellID result =
     Bytes (writes [WritePackedGUID casterGUID, WriteU8 castID, WriteU32 spellID, WriteU8 result] (NewBuffer 16))"

section \<open>Combat log\<close>

definition BuildSpellDamageImmune :: "u64 \<Rightarrow> u64 \<Rightarrow> u32 \<Rightarrow> bytes" where
  "BuildSpellDamageImmune casterGUID targetGUID spellID =
     Bytes (writes [WriteU64 casterGUID, WriteU64 targetGUID, WriteU32 spellID, WriteU8 0] (NewBuffer 21))"

definition periodic_head :: "u64 \<Rightarrow> u64 \<Rightarrow> u32 \<Rightarrow> u32 \<Rightarrow> writer list" where
  "periodic_head targetGUID casterGUID spellID auraType =
     [WritePackedGUID targetGUID, WritePackedGUID casterGUID, WriteU32 spellID, WriteU32 1, WriteU32 auraType]"

definition BuildPeriodicAuraLogDamage ::
    "u64 \<Rightarrow> u64 \<Rightarrow> u32 \<Rightarrow> u32 \<Rightarrow> u32 \<Rightarrow> u32 \<Rightarrow> u32 \<Rightarrow> u32 \<Rightarrow> u32 \<Rightarrow> bool \<Rightarrow> bytes" where
  "BuildPeriodicAuraLogDamage targetGUID casterGUID spellID auraType damage overkill schoolMask absorb resist critical =
     Bytes (writes (periodic_head targetGUID casterGUID spellID auraType @
       [WriteU32 damage, WriteU32 overkill, WriteU32 schoolMask, WriteU32 absorb, WriteU32 resist,
        WriteU8 (if critical then 1 else 0)]) (NewBuffer 36))"

definition BuildPeriodicAuraLogHeal :: "u64 \<Rightarrow> u64 \<Rightarrow> u32 \<Rightarrow> u32 \<Rightarrow> u32 \<Rightarrow> u32 \<Rightarrow> u32 \<Rightarrow> bool \<Rightarrow> bytes" where
  "BuildPeriodicAuraLogHeal targetGUID casterGUID spellID auraType heal overheal absorb critical =
     Bytes (writes (periodic_head targetGUID casterGUID spellID auraType @
       [WriteU32 heal, WriteU32 overheal, WriteU32 absorb, WriteU8 (if critical then 1 else 0)]) (NewBuffer 32))"

definition BuildPeriodicAuraLogEnergize :: "u64 \<Rightarrow> u64 \<Rightarrow> u32 \<Rightarrow> u32 \<Rightarrow> u32 \<Rightarrow> u32 \<Rightarrow> bytes" where
  "BuildPeriodicAuraLogEnergize targetGUID casterGUID spellID auraType powerType amount =
     Bytes (writes (periodic_head targetGUID casterGUID spellID auraType @ [WriteU32 powerType, WriteU32 amount])
       (NewBuffer 28))"

definition BuildPeriodicAuraLogManaLeech :: "u64 \<Rightarrow> u64 \<Rightarrow> u32 \<Rightarrow> u32 \<Rightarrow> u32 \<Rightarrow> u32 \<Rightarrow> f32 \<Rightarrow> bytes" where
  "BuildPeriodicAuraLogManaLeech targetGUID casterGUID spellID auraType powerType amount multiplier =
     Bytes (writes (periodic_head targetGUID casterGUID spellID auraType @
       [WriteU32 powerType, WriteU32 amount, WriteF32 multiplier]) (NewBuffer 32))"

section \<open>Auras\<close>

abbreviation (input) AuraFlagEffIndex0 :: u8 where "AuraFlagEffIndex0 \<equiv> 0x01"
abbreviation (input) AuraFlagEffIndex1 :: u8 where "AuraFlagEffIndex1 \<equiv> 0x02"
abbreviation (input) AuraFlagEffIndex2 :: u8 where "AuraFlagEffIndex2 \<equiv> 0x04"
abbreviation (input) AuraFlagCaster :: u8 where "AuraFlagCaster \<equiv> 0x08"
abbreviation (input) AuraFlagPositive :: u8 where "AuraFlagPositive \<equiv> 0x10"
abbreviation (input) AuraFlagDuration :: u8 where "AuraFlagDuration \<equiv> 0x20"
abbreviation (input) AuraFlagNegative :: u8 where "AuraFlagNegative \<equiv> 0x80"

record AuraUpdateRecord =
  auCasterGUID :: u64
  auSlot :: u8
  auSpellID :: u32
  auEffectMask :: u8
  auPositive :: bool
  auMaxDurationMs :: u32
  auDurationMs :: u32
  auCasterLevel :: u8
  auStackCount :: u8

definition aura_flags :: "u64 \<Rightarrow> AuraUpdateRecord \<Rightarrow> u8" where
  "aura_flags targetGUID r =
     (let flags = 0;
          flags = (if has_flag (auEffectMask r) 0x01 then flags OR AuraFlagEffIndex0 else flags);
          flags = (if has_flag (auEffectMask r) 0x02 then flags OR AuraFlagEffIndex1 else flags);
          flags = (if has_flag (auEffectMask r) 0x04 then flags OR AuraFlagEffIndex2 else flags);
          flags = (if flags AND 0x07 = 0 then flags OR AuraFlagEffIndex0 else flags);
          flags = (if auCasterGUID r = 0 \<or> auCasterGUID r = targetGUID then flags OR AuraFlagCaster else flags);
          flags = (if auPositive r then flags OR AuraFlagPositive else flags OR AuraFlagNegative);
          flags = (if auMaxDurationMs r > 0 then flags OR AuraFlagDuration else flags) in flags)"

definition writeAuraUpdateRecord :: "u64 \<Rightarrow> AuraUpdateRecord \<Rightarrow> writer" where
  "writeAuraUpdateRecord targetGUID r = writes
     [WriteU8 (auSlot r), WriteU32 (auSpellID r), WriteU8 (aura_flags targetGUID r),
      WriteU8 (if auCasterLevel r = 0 then 1 else auCasterLevel r),
      WriteU8 (if auStackCount r = 0 then 1 else auStackCount r),
      write_if (\<not> has_flag (aura_flags targetGUID r) AuraFlagCaster) (WritePackedGUID (auCasterGUID r)),
      write_if (auMaxDurationMs r > 0) (writes [WriteU32 (auMaxDurationMs r), WriteU32 (auDurationMs r)])]"

definition BuildAuraUpdateWithStackEffect ::
    "u64 \<Rightarrow> u64 \<Rightarrow> u8 \<Rightarrow> u32 \<Rightarrow> bool \<Rightarrow> bool \<Rightarrow> u32 \<Rightarrow> u32 \<Rightarrow> u8 \<Rightarrow> u8 \<Rightarrow> u8 \<Rightarrow> bytes" where
  "BuildAuraUpdateWithStackEffect targetGUID casterGUID slot spellID remove positive maxDurationMs durationMs
     casterLevel stackCount effectMask =
     Bytes (writes
       [WritePackedGUID targetGUID,
        if remove then writes [WriteU8 slot, WriteU32 0]
        else writeAuraUpdateRecord targetGUID
          \<lparr>auCasterGUID = casterGUID, auSlot = slot, auSpellID = spellID, auEffectMask = effectMask,
           auPositive = positive, auMaxDurationMs = maxDurationMs, auDurationMs = durationMs,
           auCasterLevel = casterLevel, auStackCount = stackCount\<rparr>] (NewBuffer 36))"

definition BuildAuraUpdateWithStack ::
    "u64 \<Rightarrow> u64 \<Rightarrow> u8 \<Rightarrow> u32 \<Rightarrow> bool \<Rightarrow> bool \<Rightarrow> u32 \<Rightarrow> u32 \<Rightarrow> u8 \<Rightarrow> u8 \<Rightarrow> bytes" where
  "BuildAuraUpdateWithStack targetGUID casterGUID slot spellID remove positive maxDurationMs durationMs
     casterLevel stackCount =
     BuildAuraUpdateWithStackEffect targetGUID casterGUID slot spellID remove positive maxDurationMs durationMs
       casterLevel stackCount 0x01"

definition BuildAuraUpdate ::
    "u64 \<Rightarrow> u64 \<Rightarrow> u8 \<Rightarrow> u32 \<Rightarrow> bool \<Rightarrow> bool \<Rightarrow> u32 \<Rightarrow> u32 \<Rightarrow> u8 \<Rightarrow> bytes" where
  "BuildAuraUpdate targetGUID casterGUID slot spellID remove positive maxDurationMs durationMs casterLevel =
     BuildAuraUpdateWithStack targetGUID casterGUID slot spellID remove positive maxDurationMs durationMs casterLevel 1"

definition BuildAuraUpdateAll :: "u64 \<Rightarrow> AuraUpdateRecord list \<Rightarrow> bytes" where
  "BuildAuraUpdateAll targetGUID records =
     Bytes (writes (WritePackedGUID targetGUID # map (writeAuraUpdateRecord targetGUID) records)
       (NewBuffer (16 + int (length records) * 24)))"

section \<open>Targets survive the wire\<close>

text \<open>A codec under a flag: the value is the default when the flag is off.\<close>

context strict_codec
begin

lemma if_codec:
  "strict_codec (\<lambda>x. write_if c (put x)) (read_if c d get) (\<lambda>x. if c then enc x else [])
     (\<lambda>x. if c then dm x else x = d)"
proof (cases c)
  case True
  then show ?thesis using strict_codec_axioms by (simp add: write_if_def read_if_def)
next
  case False
  then show ?thesis by unfold_locales (auto simp: write_if_def read_if_def rret_def fun_eq_iff)
qed

lemmas if_short = strict_codec.rbind_short [OF if_codec]
lemmas if_ok = codec.rbind_ok [OF strict_codec.axioms(1) [OF if_codec]]

end

definition loc_enc :: "SpellTargetLocation \<Rightarrow> bytes" where
  "loc_enc l = guid_enc (slTransport l) @ le_bytes 4 (slX l) @ le_bytes 4 (slY l) @ le_bytes 4 (slZ l)"

interpretation locc: strict_codec writeSpellTargetLocation readSpellTargetLocation loc_enc "\<lambda>_. True"
proof unfold_locales
  show "writeSpellTargetLocation x = Write (loc_enc x)" for x
    by (rule ext) (simp add: writeSpellTargetLocation_def WritePackedGUID_eq writer_simps loc_enc_def)
  show "readSpellTargetLocation b = (Inr x, advance (length (loc_enc x)) b)"
    if ok: "buf_ok b" and u: "unread b = loc_enc x @ rest" for x b rest
    using ok u by (simp add: readSpellTargetLocation_def loc_enc_def rret_def add.commute
        guidc.rbind_get [where rest = "le_bytes 4 (slX x) @ le_bytes 4 (slY x) @ le_bytes 4 (slZ x) @ rest"]
        f32c.rbind_get [where x = "slX x" and rest = "le_bytes 4 (slY x) @ le_bytes 4 (slZ x) @ rest"]
        f32c.rbind_get [where x = "slY x" and rest = "le_bytes 4 (slZ x) @ rest"]
        f32c.rbind_get [where x = "slZ x" and rest = rest])
  show "fst (readSpellTargetLocation b) = Inl ErrEOF"
    if "buf_ok b" "unread b = take k (loc_enc x)" "k < length (loc_enc x)" for x b k
    unfolding readSpellTargetLocation_def
    by (rule guidc.rbind_short [where x = "slTransport x"], simp, fact,
        fact that(2) [unfolded loc_enc_def], fact that(3) [unfolded loc_enc_def],
        rule f32c.rbind_short [where x = "slX x"], simp, assumption, assumption, assumption,
        rule f32c.rbind_short [where x = "slY x"], simp, assumption, assumption, assumption,
        rule f32c.rbind_short [where x = "slZ x" and r = "[]"]) simp_all
qed

definition target_enc :: "SpellTargetData \<Rightarrow> bytes" where
  "target_enc t = le_bytes 4 (stFlags t) @
     (if has_flag (stFlags t) SpellTargetFlagUnitWireMask then guid_enc (stUnitGUID t) else []) @
     (if has_flag (stFlags t) SpellTargetFlagItemWireMask then guid_enc (stItemGUID t) else []) @
     (if has_flag (stFlags t) SpellTargetFlagSourceLocation then loc_enc (stSource t) else []) @
     (if has_flag (stFlags t) SpellTargetFlagDestLocation then loc_enc (stDestination t) else []) @
     (if has_flag (stFlags t) SpellTargetFlagString then stStringTarget t @ [0] else [])"

text \<open>A target that the wire can carry: what is not flagged is absent, and the string has no zero byte.\<close>

definition target_ok :: "SpellTargetData \<Rightarrow> bool" where
  "target_ok t \<longleftrightarrow>
     (if has_flag (stFlags t) SpellTargetFlagUnitWireMask then True else stUnitGUID t = 0) \<and>
     (if has_flag (stFlags t) SpellTargetFlagItemWireMask then True else stItemGUID t = 0) \<and>
     (if has_flag (stFlags t) SpellTargetFlagSourceLocation then True else stSource t = no_location) \<and>
     (if has_flag (stFlags t) SpellTargetFlagDestLocation then True else stDestination t = no_location) \<and>
     (if has_flag (stFlags t) SpellTargetFlagString then 0 \<notin> set (stStringTarget t) else stStringTarget t = []) \<and>
     stTrajElevation t = 0 \<and> stTrajSpeed t = 0 \<and> stReadSrc t = no_location \<and> \<not> stHasReadSrc t"

lemma write_if_codec: "w = Write e \<Longrightarrow> write_if c w b = Write (if c then e else []) b"
  by (simp add: write_if_def)

interpretation targetc: strict_codec writeSpellTargetData ReadSpellTargetData target_enc target_ok
proof unfold_locales
  show "writeSpellTargetData x = Write (target_enc x)" for x
    by (rule ext) (simp add: writeSpellTargetData_def WriteU32_def target_enc_def write_if_codec [OF WritePackedGUID_eq]
        write_if_codec [OF locc.put_enc] write_if_codec [OF cstr.put_enc])
next
  fix x b rest
  assume x: "target_ok x" and ok: "buf_ok b" and u: "unread b = target_enc x @ rest"
  have "ReadSpellTargetData b = (Inr x, advance (length (le_bytes 4 (stFlags x)) +
      (length (if has_flag (stFlags x) SpellTargetFlagUnitWireMask then guid_enc (stUnitGUID x) else []) +
      (length (if has_flag (stFlags x) SpellTargetFlagItemWireMask then guid_enc (stItemGUID x) else []) +
      (length (if has_flag (stFlags x) SpellTargetFlagSourceLocation then loc_enc (stSource x) else []) +
      (length (if has_flag (stFlags x) SpellTargetFlagDestLocation then loc_enc (stDestination x) else []) +
      (length (if has_flag (stFlags x) SpellTargetFlagString then stStringTarget x @ [0] else []) + 0)))))) b)"
    unfolding ReadSpellTargetData_def
    by (rule u32c.rbind_ok, simp, fact, fact u [unfolded target_enc_def append_assoc],
        rule guidc.if_ok, use x in \<open>simp add: target_ok_def\<close>, assumption, assumption,
        rule guidc.if_ok, use x in \<open>simp add: target_ok_def\<close>, assumption, assumption,
        rule locc.if_ok, use x in \<open>simp add: target_ok_def\<close>, assumption, assumption,
        rule locc.if_ok, use x in \<open>simp add: target_ok_def\<close>, assumption, assumption,
        rule cstr.if_ok, use x in \<open>simp add: target_ok_def\<close>, assumption, assumption)
      (use x in \<open>simp add: rret_def target_ok_def\<close>)
  then show "ReadSpellTargetData b = (Inr x, advance (length (target_enc x)) b)"
    by (simp only: target_enc_def length_append add_0_right)
next
  fix x b k
  assume x: "target_ok x" and ok: "buf_ok b" and u: "unread b = take k (target_enc x)" and k: "k < length (target_enc x)"
  note d = x [unfolded target_ok_def, THEN conjunct1] x [unfolded target_ok_def, THEN conjunct2, THEN conjunct1]
    x [unfolded target_ok_def, THEN conjunct2, THEN conjunct2, THEN conjunct1]
    x [unfolded target_ok_def, THEN conjunct2, THEN conjunct2, THEN conjunct2, THEN conjunct1]
    x [unfolded target_ok_def, THEN conjunct2, THEN conjunct2, THEN conjunct2, THEN conjunct2, THEN conjunct1]
  have enc: "target_enc x = le_bytes 4 (stFlags x) @
     (if has_flag (stFlags x) SpellTargetFlagUnitWireMask then guid_enc (stUnitGUID x) else []) @
     (if has_flag (stFlags x) SpellTargetFlagItemWireMask then guid_enc (stItemGUID x) else []) @
     (if has_flag (stFlags x) SpellTargetFlagSourceLocation then loc_enc (stSource x) else []) @
     (if has_flag (stFlags x) SpellTargetFlagDestLocation then loc_enc (stDestination x) else []) @
     (if has_flag (stFlags x) SpellTargetFlagString then stStringTarget x @ [0] else []) @ []"
    by (simp only: target_enc_def append_Nil2)
  show "fst (ReadSpellTargetData b) = Inl ErrEOF"
    unfolding ReadSpellTargetData_def
    by (rule u32c.rbind_short [where x = "stFlags x"], simp, fact, fact u [unfolded enc], fact k [unfolded enc],
        rule guidc.if_short [where x = "stUnitGUID x"], rule d(1), assumption, assumption, assumption,
        rule guidc.if_short [where x = "stItemGUID x"], rule d(2), assumption, assumption, assumption,
        rule locc.if_short [where x = "stSource x"], rule d(3), assumption, assumption, assumption,
        rule locc.if_short [where x = "stDestination x"], rule d(4), assumption, assumption, assumption,
        rule cstr.if_short [where x = "stStringTarget x"], rule d(5), assumption, assumption, assumption)
      (simp only: list.size not_less0)
qed

text \<open>
  C27: A spell target survives the wire: reading what was written returns the same target and stops exactly at
  the bytes that follow, and every truncation of it is rejected as an unexpected end of input.
\<close>

theorem spell_target_roundtrip:
  assumes "target_ok t"
  defines "bs \<equiv> Bytes (WriteSpellTargetData t (NewBuffer 64))"
  shows "fst (ReadSpellTargetData (NewReader (bs @ rest))) = Inr t \<and>
    unread (snd (ReadSpellTargetData (NewReader (bs @ rest)))) = rest \<and>
    (k < length bs \<longrightarrow> fst (ReadSpellTargetData (NewReader (take k bs))) = Inl ErrEOF)"
proof -
  have bs: "bs = target_enc t" by (simp add: bs_def WriteSpellTargetData_def targetc.put_enc)
  show ?thesis unfolding bs
    using targetc.get_enc [OF assms(1), of "NewReader (target_enc t @ rest)" rest] targetc.truncated [OF assms(1)] by simp
qed

definition aimed :: SpellTargetData where
  "aimed = \<lparr>stFlags = 0x2042, stUnitGUID = 0xF130000000000001, stItemGUID = 0, stSource = no_location,
     stDestination = \<lparr>slTransport = 0, slX = 1, slY = 2, slZ = 3\<rparr>, stStringTarget = [65, 66],
     stTrajElevation = 0, stTrajSpeed = 0, stReadSrc = no_location, stHasReadSrc = False\<rparr>"

theorem spell_target_roundtrip_witness:
  "fst (ReadSpellTargetData (NewReader (Bytes (WriteSpellTargetData aimed (NewBuffer 64))))) = Inr aimed"
proof -
  have "target_ok aimed"
    by (simp add: target_ok_def aimed_def has_flag_def SpellTargetFlagUnitWireMask_def SpellTargetFlagItemWireMask_def)
  from spell_target_roundtrip [OF this, of "[]" 0] show ?thesis by simp
qed

end
