(* ===== verification/Group_Packets.thy ===== *)
theory Group_Packets
  imports Wire_Codec
begin

text \<open>
  \<^verbatim>\<open>pkg/protocol/group.go\<close>: the state of a group member sent to the others. A mask says which fields
  follow.
\<close>

section \<open>The packets\<close>

abbreviation (input) GroupUpdateFlagStatus :: u32 where "GroupUpdateFlagStatus \<equiv> 0x00000001"
abbreviation (input) GroupUpdateFlagCurrentHealth :: u32 where "GroupUpdateFlagCurrentHealth \<equiv> 0x00000002"
abbreviation (input) GroupUpdateFlagMaximumHealth :: u32 where "GroupUpdateFlagMaximumHealth \<equiv> 0x00000004"
abbreviation (input) GroupUpdateFlagPowerType :: u32 where "GroupUpdateFlagPowerType \<equiv> 0x00000008"
abbreviation (input) GroupUpdateFlagCurrentPower :: u32 where "GroupUpdateFlagCurrentPower \<equiv> 0x00000010"
abbreviation (input) GroupUpdateFlagMaximumPower :: u32 where "GroupUpdateFlagMaximumPower \<equiv> 0x00000020"
abbreviation (input) GroupUpdateFlagLevel :: u32 where "GroupUpdateFlagLevel \<equiv> 0x00000040"
abbreviation (input) GroupUpdateFlagZone :: u32 where "GroupUpdateFlagZone \<equiv> 0x00000080"
abbreviation (input) GroupUpdateFlagPosition :: u32 where "GroupUpdateFlagPosition \<equiv> 0x00000100"
abbreviation (input) GroupUpdateFlagAuras :: u32 where "GroupUpdateFlagAuras \<equiv> 0x00000200"
abbreviation (input) GroupUpdateFlagPetGUID :: u32 where "GroupUpdateFlagPetGUID \<equiv> 0x00000400"
abbreviation (input) GroupUpdateFlagPetName :: u32 where "GroupUpdateFlagPetName \<equiv> 0x00000800"
abbreviation (input) GroupUpdateFlagPetModelID :: u32 where "GroupUpdateFlagPetModelID \<equiv> 0x00001000"
abbreviation (input) GroupUpdateFlagPetCurrentHealth :: u32 where "GroupUpdateFlagPetCurrentHealth \<equiv> 0x00002000"
abbreviation (input) GroupUpdateFlagPetMaximumHealth :: u32 where "GroupUpdateFlagPetMaximumHealth \<equiv> 0x00004000"
abbreviation (input) GroupUpdateFlagPetPowerType :: u32 where "GroupUpdateFlagPetPowerType \<equiv> 0x00008000"
abbreviation (input) GroupUpdateFlagPetCurrentPower :: u32 where "GroupUpdateFlagPetCurrentPower \<equiv> 0x00010000"
abbreviation (input) GroupUpdateFlagPetMaximumPower :: u32 where "GroupUpdateFlagPetMaximumPower \<equiv> 0x00020000"
abbreviation (input) GroupUpdateFlagPetAuras :: u32 where "GroupUpdateFlagPetAuras \<equiv> 0x00040000"
abbreviation (input) GroupUpdateFlagVehicleSeat :: u32 where "GroupUpdateFlagVehicleSeat \<equiv> 0x00080000"

record PartyMemberAura =
  paSpellID :: u32
  paFlags :: u8

text \<open>The two value types of the file have the same fields. The aura arrays have 64 elements.\<close>

record PartyMemberStats =
  pmGUID :: u64
  pmUpdateFlags :: u32
  pmStatus :: u16
  pmHealth :: u32
  pmMaximumHealth :: u32
  pmPowerType :: u8
  pmCurrentPower :: u16
  pmMaximumPower :: u16
  pmLevel :: u16
  pmZone :: u16
  pmX :: u16
  pmY :: u16
  pmAuraMask :: u64
  pmAuras :: "PartyMemberAura list"
  pmPetGUID :: u64
  pmPetName :: gostring
  pmPetModelID :: u16
  pmPetHealth :: u32
  pmPetMaximumHealth :: u32
  pmPetPowerType :: u8
  pmPetCurrentPower :: u16
  pmPetMaximumPower :: u16
  pmPetAuraMask :: u64
  pmPetAuras :: "PartyMemberAura list"
  pmVehicleSeatID :: u32

definition write_auras :: "u64 \<Rightarrow> (PartyMemberAura \<Rightarrow> u8) \<Rightarrow> PartyMemberAura list \<Rightarrow> writer" where
  "write_auras auraMask fl auras = writes
     (map (\<lambda>(slot, aura). write_if (has_flag auraMask (push_bit slot 1))
             (writes [WriteU32 (paSpellID aura), WriteU8 (fl aura)])) (enumerate 0 auras))"

text \<open>The fields of the player up to the position, written alike by both packets.\<close>

definition write_player_fields :: "u32 \<Rightarrow> PartyMemberStats \<Rightarrow> writer list" where
  "write_player_fields m v =
     [write_if (has_flag m GroupUpdateFlagStatus) (WriteU16 (pmStatus v)),
      write_if (has_flag m GroupUpdateFlagCurrentHealth) (WriteU32 (pmHealth v)),
      write_if (has_flag m GroupUpdateFlagMaximumHealth) (WriteU32 (pmMaximumHealth v)),
      write_if (has_flag m GroupUpdateFlagPowerType) (WriteU8 (pmPowerType v)),
      write_if (has_flag m GroupUpdateFlagCurrentPower) (WriteU16 (pmCurrentPower v)),
      write_if (has_flag m GroupUpdateFlagMaximumPower) (WriteU16 (pmMaximumPower v)),
      write_if (has_flag m GroupUpdateFlagLevel) (WriteU16 (pmLevel v)),
      write_if (has_flag m GroupUpdateFlagZone) (WriteU16 (pmZone v)),
      write_if (has_flag m GroupUpdateFlagPosition) (writes [WriteU16 (pmX v), WriteU16 (pmY v)])]"

definition write_pet_fields :: "u32 \<Rightarrow> PartyMemberStats \<Rightarrow> writer list" where
  "write_pet_fields m v =
     [write_if (has_flag m GroupUpdateFlagPetModelID) (WriteU16 (pmPetModelID v)),
      write_if (has_flag m GroupUpdateFlagPetCurrentHealth) (WriteU32 (pmPetHealth v)),
      write_if (has_flag m GroupUpdateFlagPetMaximumHealth) (WriteU32 (pmPetMaximumHealth v)),
      write_if (has_flag m GroupUpdateFlagPetPowerType) (WriteU8 (pmPetPowerType v)),
      write_if (has_flag m GroupUpdateFlagPetCurrentPower) (WriteU16 (pmPetCurrentPower v)),
      write_if (has_flag m GroupUpdateFlagPetMaximumPower) (WriteU16 (pmPetMaximumPower v))]"

definition BuildPartyMemberStatsFull :: "PartyMemberStats \<Rightarrow> bytes" where
  "BuildPartyMemberStatsFull v =
     (let m = pmUpdateFlags v in
      Bytes (writes
        ([WriteU8 0, WritePackedGUID (pmGUID v), WriteU32 m] @ write_player_fields m v @
         [write_if (has_flag m GroupUpdateFlagAuras)
            (writes [WriteU64 (pmAuraMask v), write_auras (pmAuraMask v) paFlags (pmAuras v)]),
          write_if (has_flag m GroupUpdateFlagPetGUID) (WriteU64 (pmPetGUID v)),
          write_if (has_flag m GroupUpdateFlagPetName) (WriteCString (pmPetName v))] @ write_pet_fields m v @
         [write_if (has_flag m GroupUpdateFlagPetAuras)
            (writes [WriteU64 (pmPetAuraMask v), write_auras (pmPetAuraMask v) paFlags (pmPetAuras v)]),
          write_if (has_flag m GroupUpdateFlagVehicleSeat) (WriteU32 (pmVehicleSeatID v))]) (NewBuffer 256)))"

text \<open>The power type brings both power values along.\<close>

definition fold_power :: "u32 \<Rightarrow> u32" where
  "fold_power m =
     (let m = (if has_flag m GroupUpdateFlagPowerType
               then m OR (GroupUpdateFlagCurrentPower OR GroupUpdateFlagMaximumPower) else m) in
      if has_flag m GroupUpdateFlagPetPowerType
      then m OR (GroupUpdateFlagPetCurrentPower OR GroupUpdateFlagPetMaximumPower) else m)"

definition BuildPartyMemberStatsChanged :: "PartyMemberStats \<Rightarrow> bytes" where
  "BuildPartyMemberStatsChanged v =
     (let m = fold_power (pmUpdateFlags v) in
      Bytes (writes
        ([WritePackedGUID (pmGUID v), WriteU32 m] @ write_player_fields m v @
         [write_if (has_flag m GroupUpdateFlagAuras)
            (writes [WriteU64 (pmAuraMask v), write_auras (pmAuraMask v) (\<lambda>_. 1) (pmAuras v)]),
          write_if (has_flag m GroupUpdateFlagPetGUID) (WriteU64 (pmPetGUID v)),
          write_if (has_flag m GroupUpdateFlagPetName)
            (if pmPetGUID v \<noteq> 0 then WriteCString (pmPetName v) else WriteU8 0)] @ write_pet_fields m v @
         [write_if (has_flag m GroupUpdateFlagPetAuras)
            (if pmPetGUID v \<noteq> 0
             then writes [WriteU64 (pmPetAuraMask v), write_auras (pmPetAuraMask v) paFlags (pmPetAuras v)]
             else WriteU64 0),
          write_if (has_flag m GroupUpdateFlagVehicleSeat) (WriteU32 (pmVehicleSeatID v))]) (NewBuffer 768)))"

end
