(* ===== verification/Update_Packets.thy ===== *)
theory Update_Packets
  imports Wire_Codec
begin

text \<open>
  \<^verbatim>\<open>pkg/protocol/updates.go\<close> and \<^verbatim>\<open>packet.go\<close>: the field mask of an object update, the collection of update
  blocks into a packet, and the merging of packets. The zlib compressor and decompressor are parameters; all
  that is relied on is that decompressing undoes compressing.
\<close>

section \<open>The field mask\<close>

record UpdateMask =
  umBits :: "u32 list"
  umFields :: int

definition NewUpdateMask :: "int \<Rightarrow> UpdateMask" where
  "NewUpdateMask nf =
     (let nf = (if nf < 0 then 0 else nf) in
      \<lparr>umBits = replicate (nat ((nf + 31) div 32)) 0, umFields = nf\<rparr>)"

text \<open>A receiver may be a nil pointer, \<open>None\<close>.\<close>

definition mask_range :: "UpdateMask \<Rightarrow> int \<Rightarrow> bool" where
  "mask_range m index \<longleftrightarrow> 0 \<le> index \<and> index < umFields m"

definition mask_update :: "(u32 \<Rightarrow> u32) \<Rightarrow> int \<Rightarrow> UpdateMask option \<Rightarrow> go_error + UpdateMask" where
  "mask_update f index r =
     (case r of
        None \<Rightarrow> Inl (Err ''update field index out of range'')
      | Some m \<Rightarrow>
          if \<not> mask_range m index then Inl (Err ''update field index out of range'')
          else let i = nat (index div 32) in Inr (m\<lparr>umBits := (umBits m)[i := f (umBits m ! i)]\<rparr>))"

definition mask_Set :: "int \<Rightarrow> UpdateMask option \<Rightarrow> go_error + UpdateMask" where
  "mask_Set index = mask_update (\<lambda>w. w OR push_bit (nat (index mod 32)) 1) index"

definition mask_Clear :: "int \<Rightarrow> UpdateMask option \<Rightarrow> go_error + UpdateMask" where
  "mask_Clear index = mask_update (\<lambda>w. w AND NOT (push_bit (nat (index mod 32)) 1)) index"

definition mask_Has :: "UpdateMask option \<Rightarrow> int \<Rightarrow> bool" where
  "mask_Has r index \<longleftrightarrow>
     (case r of
        None \<Rightarrow> False
      | Some m \<Rightarrow> mask_range m index \<and>
          has_flag (umBits m ! nat (index div 32)) (push_bit (nat (index mod 32)) 1))"

definition AppendTo :: "UpdateMask option \<Rightarrow> writer" where
  "AppendTo r = (case r of None \<Rightarrow> id | Some m \<Rightarrow> writes (map WriteU32 (umBits m)))"

definition BlockCount :: "UpdateMask option \<Rightarrow> nat" where
  "BlockCount r = (case r of None \<Rightarrow> 0 | Some m \<Rightarrow> length (umBits m))"

section \<open>Packets\<close>

record packet =
  pkOpcode :: u16
  pkPayload :: "buffer option"

definition NewPacket :: "u16 \<Rightarrow> int \<Rightarrow> packet" where
  "NewPacket opcode capacity = \<lparr>pkOpcode = opcode, pkPayload = Some (NewBuffer capacity)\<rparr>"

definition PacketFrom :: "u16 \<Rightarrow> bytes \<Rightarrow> packet" where
  "PacketFrom opcode payload = \<lparr>pkOpcode = opcode, pkPayload = Some (NewReader payload)\<rparr>"

abbreviation (input) OpcodeSMSG_UPDATE_OBJECT :: u16 where "OpcodeSMSG_UPDATE_OBJECT \<equiv> 0x0A9"
abbreviation (input) OpcodeSMSG_COMPRESSED_UPDATE_OBJECT :: u16 where "OpcodeSMSG_COMPRESSED_UPDATE_OBJECT \<equiv> 0x1F6"

record UpdateData =
  udBlocks :: "bytes list"
  udOutOfRange :: "u64 list"

definition NewUpdateData :: UpdateData where
  "NewUpdateData = \<lparr>udBlocks = [], udOutOfRange = []\<rparr>"

definition AddUpdateBlock :: "bytes \<Rightarrow> UpdateData \<Rightarrow> UpdateData" where
  "AddUpdateBlock block u = u\<lparr>udBlocks := udBlocks u @ [block]\<rparr>"

definition AddOutOfRangeGUID :: "u64 \<Rightarrow> UpdateData \<Rightarrow> UpdateData" where
  "AddOutOfRangeGUID guid u = u\<lparr>udOutOfRange := udOutOfRange u @ [guid]\<rparr>"

definition HasData :: "UpdateData option \<Rightarrow> bool" where
  "HasData r = (case r of None \<Rightarrow> False | Some u \<Rightarrow> udBlocks u \<noteq> [] \<or> udOutOfRange u \<noteq> [])"

text \<open>\<open>deflate level\<close> is a zlib writer written to once and closed; \<open>inflate\<close> reads a zlib stream to its end.\<close>

type_synonym deflate = "int \<Rightarrow> bytes \<Rightarrow> go_error + bytes"
type_synonym inflate = "bytes \<Rightarrow> go_error + bytes"

definition buildUpdatePacket :: "deflate \<Rightarrow> bytes \<Rightarrow> int \<Rightarrow> go_error + packet" where
  "buildUpdatePacket deflate body compressionLevel =
     (if length body \<le> 100 then Inr (PacketFrom OpcodeSMSG_UPDATE_OBJECT body)
      else let level = (if compressionLevel = 0 then 1 else compressionLevel) in
        case deflate level body of
          Inl e \<Rightarrow> Inl e
        | Inr compressed \<Rightarrow>
            Inr (PacketFrom OpcodeSMSG_COMPRESSED_UPDATE_OBJECT
              (Bytes (writes [WriteU32 (of_nat (length body)), Write compressed]
                 (NewBuffer (int (length compressed) + 4))))))"

definition BuildPacket :: "deflate \<Rightarrow> int \<Rightarrow> UpdateData option \<Rightarrow> go_error + packet" where
  "BuildPacket deflate compressionLevel ud =
     (case ud of
        None \<Rightarrow> Inl (Err ''update data is nil'')
      | Some u \<Rightarrow>
          let guids = sort (udOutOfRange u);
              blockCount = length (udBlocks u) + (if guids \<noteq> [] then 1 else 0) in
          buildUpdatePacket deflate
            (Bytes (writes
              ([WriteU32 (of_nat blockCount),
                write_if (guids \<noteq> [])
                  (writes ([WriteU8 4, WriteU32 (of_nat (length guids))] @ map WritePackedGUID guids))] @
               map Write (udBlocks u)) (NewBuffer 4)))
            compressionLevel)"

definition DecompressUpdatePayload :: "inflate \<Rightarrow> bytes \<Rightarrow> go_error + bytes" where
  "DecompressUpdatePayload inflate payload =
     (if length payload < 4 then Inl (Err ''compressed update payload is too short'')
      else case inflate (drop 4 payload) of
        Inl e \<Rightarrow> Inl e
      | Inr output \<Rightarrow>
          if of_nat (length output) \<noteq> (of_le_bytes (take 4 payload) :: u32)
          then Inl (Err ''compressed update size mismatch'') else Inr output)"

definition updatePacketBody :: "inflate \<Rightarrow> packet option \<Rightarrow> go_error + bytes" where
  "updatePacketBody inflate p =
     (case p of
        None \<Rightarrow> Inl (Err ''update packet is nil'')
      | Some pk \<Rightarrow>
          (case pkPayload pk of
             None \<Rightarrow> Inl (Err ''update packet is nil'')
           | Some b \<Rightarrow>
               if pkOpcode pk = OpcodeSMSG_UPDATE_OBJECT then Inr (Bytes b)
               else if pkOpcode pk = OpcodeSMSG_COMPRESSED_UPDATE_OBJECT then DecompressUpdatePayload inflate (Bytes b)
               else Inl (Err ''packet is not an update-object packet'')))"

text \<open>The loop over the packets: the block count and the bodies without their counts.\<close>

fun merge_bodies :: "inflate \<Rightarrow> packet list \<Rightarrow> int \<Rightarrow> bytes \<Rightarrow> go_error + (int \<times> bytes)" where
  "merge_bodies inflate [] cnt body = Inr (cnt, body)"
| "merge_bodies inflate (p # ps) cnt body =
     (case updatePacketBody inflate (Some p) of
        Inl e \<Rightarrow> Inl e
      | Inr raw \<Rightarrow>
          if length raw < 4 then Inl (Err ''update packet body is too short'')
          else merge_bodies inflate ps (cnt + uint (of_le_bytes (take 4 raw) :: u32)) (body @ drop 4 raw))"

definition MergeUpdatePackets :: "deflate \<Rightarrow> inflate \<Rightarrow> packet option list \<Rightarrow> go_error + packet option" where
  "MergeUpdatePackets deflate inflate packets =
     (case map the (filter (\<lambda>p. p \<noteq> None) packets) of
        [] \<Rightarrow> Inr None
      | [p] \<Rightarrow> Inr (Some p)
      | valid \<Rightarrow>
          (case merge_bodies inflate valid 0 [] of
             Inl e \<Rightarrow> Inl e
           | Inr (cnt, body) \<Rightarrow>
               (case buildUpdatePacket deflate
                   (Bytes (writes [WriteU32 (word_of_int cnt), Write body] (NewBuffer (int (length body) + 4)))) 0 of
                  Inl e \<Rightarrow> Inl e
                | Inr p \<Rightarrow> Inr (Some p))))"

section \<open>The mask\<close>

definition mask_ok :: "UpdateMask \<Rightarrow> bool" where
  "mask_ok m \<longleftrightarrow> 0 \<le> umFields m \<and> int (length (umBits m)) = (umFields m + 31) div 32"

text \<open>What a mask stands for: the set of field indices it holds.\<close>

definition mask_fields :: "UpdateMask \<Rightarrow> int set" where
  "mask_fields m = {i. mask_Has (Some m) i}"

lemma mask_block:
  assumes "mask_ok m" "mask_range m i"
  shows "nat (i div 32) < length (umBits m)"
proof -
  have "i div 32 < (umFields m + 31) div 32" "0 \<le> i"
    using assms(2) by (auto simp: mask_range_def)
  moreover have "(umFields m + 31) div 32 = int (length (umBits m))" using assms(1) by (simp add: mask_ok_def)
  ultimately have "i div 32 < int (length (umBits m))" by linarith
  then show ?thesis using \<open>0 \<le> i\<close> by (simp add: nat_less_iff pos_imp_zdiv_nonneg_iff)
qed

lemma same_field: "0 \<le> i \<Longrightarrow> 0 \<le> j \<Longrightarrow> nat (i div 32) = nat (j div 32) \<Longrightarrow> nat (i mod 32) = nat (j mod 32) \<Longrightarrow> i = j"
  by (metis div_mult_mod_eq eq_nat_nat_iff pos_imp_zdiv_nonneg_iff pos_mod_sign zero_less_numeral)

lemma nat_mod_32: "nat (i mod 32) < 32"
  by (simp add: nat_less_iff)

lemma flag_set:
  "b < 32 \<Longrightarrow> has_flag (w OR push_bit (nat (i mod 32)) 1) (push_bit b 1) \<longleftrightarrow>
     (if b = nat (i mod 32) then True else has_flag w (push_bit b 1))" for w :: u32
  using nat_mod_32 [of i] by (auto simp: has_flag_bit bit_simps)

lemma flag_clear:
  "b < 32 \<Longrightarrow> has_flag (w AND NOT (push_bit (nat (i mod 32)) 1)) (push_bit b 1) \<longleftrightarrow>
     (if b = nat (i mod 32) then False else has_flag w (push_bit b 1))" for w :: u32
  using nat_mod_32 [of i] by (auto simp: has_flag_bit bit_simps)

lemma mask_Has_update:
  assumes "mask_ok m" "mask_range m i" "mask_range m j"
  shows "mask_Has (Some (m\<lparr>umBits := (umBits m)[nat (i div 32) := f (umBits m ! nat (i div 32))]\<rparr>)) j \<longleftrightarrow>
    (if nat (i div 32) = nat (j div 32)
     then has_flag (f (umBits m ! nat (j div 32))) (push_bit (nat (j mod 32)) 1)
     else mask_Has (Some m) j)"
  using assms(3) mask_block [OF assms(1,3)] by (simp add: mask_Has_def mask_range_def)

lemma mask_range_update [simp]: "mask_range (m\<lparr>umBits := b\<rparr>) j = mask_range m j"
  by (simp add: mask_range_def)

lemma mask_Has_range: "mask_Has (Some m) j \<Longrightarrow> mask_range m j"
  by (simp add: mask_Has_def)

lemma mask_update_Inr:
  "mask_update f i (Some m) = Inr m' \<longleftrightarrow>
     mask_range m i \<and> m' = m\<lparr>umBits := (umBits m)[nat (i div 32) := f (umBits m ! nat (i div 32))]\<rparr>"
  by (auto simp: mask_update_def Let_def)

lemma mask_update_ok: "mask_ok m \<Longrightarrow> mask_update f i (Some m) = Inr m' \<Longrightarrow> mask_ok m' \<and> umFields m' = umFields m"
  by (auto simp: mask_update_Inr mask_ok_def)

lemma mask_update_has:
  assumes ok: "mask_ok m" and u: "mask_update f i (Some m) = Inr m'"
    and f: "\<And>w b. b < 32 \<Longrightarrow> has_flag (f w) (push_bit b 1) \<longleftrightarrow> (if b = nat (i mod 32) then v else has_flag w (push_bit b 1))"
  shows "mask_Has (Some m') j \<longleftrightarrow> (if j = i then v else mask_Has (Some m) j)"
proof (cases "mask_range m j")
  case True
  have r: "mask_range m i"
    and m': "m' = m\<lparr>umBits := (umBits m)[nat (i div 32) := f (umBits m ! nat (i div 32))]\<rparr>"
    using u by (simp_all add: mask_update_Inr)
  have j: "nat (i mod 32) = nat (j mod 32) \<longleftrightarrow> i = j" if "nat (i div 32) = nat (j div 32)"
    using that same_field [of i j] r True by (auto simp: mask_range_def)
  have "mask_Has (Some m) j \<longleftrightarrow> has_flag (umBits m ! nat (j div 32)) (push_bit (nat (j mod 32)) 1)"
    using True by (simp only: mask_Has_def option.case simp_thms)
  moreover have "has_flag (f (umBits m ! nat (j div 32))) (push_bit (nat (j mod 32)) 1) \<longleftrightarrow>
      (if nat (j mod 32) = nat (i mod 32) then v else has_flag (umBits m ! nat (j div 32)) (push_bit (nat (j mod 32)) 1))"
    by (rule f [OF nat_mod_32])
  ultimately show ?thesis
    unfolding m' mask_Has_update [OF ok r True] using j by (simp only: simp_thms split: if_split) metis
next
  case False
  then show ?thesis using u by (auto simp: mask_update_Inr mask_Has_def)
qed

lemma mask_Set_has:
  "mask_ok m \<Longrightarrow> mask_Set i (Some m) = Inr m' \<Longrightarrow> mask_Has (Some m') j \<longleftrightarrow> (if j = i then True else mask_Has (Some m) j)"
  unfolding mask_Set_def
  by (rule mask_update_has [where f = "\<lambda>w. w OR push_bit (nat (i mod 32)) 1" and v = True]) (assumption | erule flag_set)+

lemma mask_Clear_has:
  "mask_ok m \<Longrightarrow> mask_Clear i (Some m) = Inr m' \<Longrightarrow> mask_Has (Some m') j \<longleftrightarrow> (if j = i then False else mask_Has (Some m) j)"
  unfolding mask_Clear_def
  by (rule mask_update_has [where f = "\<lambda>w. w AND NOT (push_bit (nat (i mod 32)) 1)" and v = False]) (assumption | erule flag_clear)+

lemma NewUpdateMask_ok: "mask_ok (NewUpdateMask n) \<and> mask_fields (NewUpdateMask n) = {}"
proof -
  have "i div 32 < (n + 31) div 32" if "i < n" for i :: int using that by simp
  then show ?thesis
    by (auto simp: mask_ok_def mask_fields_def NewUpdateMask_def Let_def mask_Has_def mask_range_def)
qed

section \<open>Merging packets\<close>

text \<open>What is relied on of zlib: a stream that was written decompresses to what was written.\<close>

definition zlib_ok :: "deflate \<Rightarrow> inflate \<Rightarrow> bool" where
  "zlib_ok deflate inflate \<longleftrightarrow> (\<forall>level x y. deflate level x = Inr y \<longrightarrow> inflate y = Inr x)"

definition payload :: "packet \<Rightarrow> bytes" where
  "payload p = (case pkPayload p of None \<Rightarrow> [] | Some b \<Rightarrow> Bytes b)"

lemma build_then_body:
  assumes z: "zlib_ok deflate inflate" and b: "buildUpdatePacket deflate body level = Inr p"
    and l: "length body < 2 ^ 32"
  shows "updatePacketBody inflate (Some p) = Inr body"
proof (cases "length body \<le> 100")
  case True
  then have p: "p = PacketFrom OpcodeSMSG_UPDATE_OBJECT body" using b by (simp add: buildUpdatePacket_def)
  show ?thesis by (simp add: p updatePacketBody_def PacketFrom_def NewReader_def Bytes_def)
next
  case False
  then obtain y k where y: "deflate k body = Inr y"
    and p: "p = PacketFrom OpcodeSMSG_COMPRESSED_UPDATE_OBJECT (le_bytes 4 (of_nat (length body) :: u32) @ y)"
    using b unfolding buildUpdatePacket_def Let_def
    by (auto simp add: WriteU32_def split: sum.splits if_splits)
  have "inflate y = Inr body" using z y by (auto simp: zlib_ok_def)
  then show ?thesis
    by (simp add: p updatePacketBody_def PacketFrom_def NewReader_def Bytes_def DecompressUpdatePayload_def)
qed

lemma merge_bodies_concat:
  assumes "list_all2 (\<lambda>p (n, b). updatePacketBody inflate (Some p) = Inr (le_bytes 4 n @ b)) ps parts"
  shows "merge_bodies inflate ps c body =
    Inr (c + (\<Sum>(n, b) \<leftarrow> parts. uint (n :: u32)), body @ concat (map snd parts))"
  using assms by (induction ps parts arbitrary: c body rule: list_all2_induct) (auto simp: algebra_simps)

lemma word_of_int_sum: "word_of_int (\<Sum>(n, b) \<leftarrow> parts. uint (n :: u32)) = (\<Sum>(n, b) \<leftarrow> parts. n)"
  by (induction parts) (auto simp: case_prod_unfold)

lemma merge_two:
  assumes "map the (filter (\<lambda>p. p \<noteq> None) packets) = ps" "2 \<le> length ps" "merge_bodies inflate ps 0 [] = Inr (c, body)"
  shows "MergeUpdatePackets deflate inflate packets =
    (case buildUpdatePacket deflate (le_bytes 4 (word_of_int c :: u32) @ body) 0 of Inl e \<Rightarrow> Inl e | Inr p \<Rightarrow> Inr (Some p))"
proof -
  obtain p q qs where "ps = p # q # qs" using assms(2) by (cases ps; cases "tl ps") auto
  then show ?thesis using assms(1,3) by (simp add: MergeUpdatePackets_def WriteU32_def)
qed

lemma build_total: "\<forall>x. \<exists>y. deflate 1 x = Inr y \<Longrightarrow> \<exists>p. buildUpdatePacket deflate body 0 = Inr p"
  by (auto simp: buildUpdatePacket_def Let_def split: sum.split dest: spec [of _ body])

text \<open>
  C28: Merging several update packets, compressed or not and with nil packets among them, gives one packet whose
  body is the sum of their block counts followed by their blocks in order: nothing is lost, duplicated or
  reordered by the decompression, the concatenation and the new compression.
\<close>

theorem MergeUpdatePackets_concatenates:
  assumes "zlib_ok deflate inflate" and "\<forall>x. \<exists>y. deflate 1 x = Inr y"
    and "map the (filter (\<lambda>p. p \<noteq> None) packets) = ps" and "2 \<le> length ps"
    and "list_all2 (\<lambda>p (n, b). updatePacketBody inflate (Some p) = Inr (le_bytes 4 n @ b)) ps parts"
    and "length (concat (map snd parts)) + 4 < 2 ^ 32"
  shows "\<exists>p. MergeUpdatePackets deflate inflate packets = Inr (Some p) \<and>
    updatePacketBody inflate (Some p) = Inr (le_bytes 4 (\<Sum>(n, b) \<leftarrow> parts. n :: u32) @ concat (map snd parts))"
proof -
  let ?body = "le_bytes 4 (\<Sum>(n, b) \<leftarrow> parts. n :: u32) @ concat (map snd parts)"
  have m: "MergeUpdatePackets deflate inflate packets =
      (case buildUpdatePacket deflate ?body 0 of Inl e \<Rightarrow> Inl e | Inr p \<Rightarrow> Inr (Some p))"
    using merge_two [OF assms(3,4) merge_bodies_concat [OF assms(5)]] by (simp only: add_0 append_Nil word_of_int_sum)
  obtain p where p: "buildUpdatePacket deflate ?body 0 = Inr p"
    using build_total [where deflate = deflate, OF assms(2)] by blast
  moreover have "updatePacketBody inflate (Some p) = Inr ?body"
    by (rule build_then_body [OF assms(1) p]) (use assms(6) in simp)
  ultimately show ?thesis using m by simp
qed

theorem MergeUpdatePackets_concatenates_witness:
  "\<exists>p. MergeUpdatePackets (\<lambda>_ x. Inr (rev x)) (\<lambda>y. Inr (rev y))
      [Some (PacketFrom 0x0A9 [2, 0, 0, 0, 7, 8]), None, Some (PacketFrom 0x1F6 [5, 0, 0, 0, 9, 0, 0, 0, 3])] = Inr (Some p) \<and>
    updatePacketBody (\<lambda>y. Inr (rev y)) (Some p) = Inr (le_bytes 4 (5 :: u32) @ [7, 8, 9])"
proof -
  have *: "le_bytes 4 (2 :: u32) = [2, 0, 0, 0]" "le_bytes 4 (3 :: u32) = [3, 0, 0, 0]"
    by code_simp+
  have d: "updatePacketBody (\<lambda>y. Inr (rev y)) (Some (PacketFrom 0x1F6 [5, 0, 0, 0, 9, 0, 0, 0, 3])) = Inr [3, 0, 0, 0, 9]"
    by code_simp
  show ?thesis
    using MergeUpdatePackets_concatenates [of "\<lambda>_ x. Inr (rev x)" "\<lambda>y. Inr (rev y)"
        "[Some (PacketFrom 0x0A9 [2, 0, 0, 0, 7, 8]), None, Some (PacketFrom 0x1F6 [5, 0, 0, 0, 9, 0, 0, 0, 3])]"
        "[PacketFrom 0x0A9 [2, 0, 0, 0, 7, 8], PacketFrom 0x1F6 [5, 0, 0, 0, 9, 0, 0, 0, 3]]" "[(2, [7, 8]), (3, [9])]"]
    by (simp add: * d zlib_ok_def) (simp add: updatePacketBody_def PacketFrom_def NewReader_def Bytes_def)
qed

section \<open>The mask as a set\<close>

text \<open>
  The mask implements a set of field indices below its size. Setting and clearing an index in range insert
  and remove exactly it, whatever block it falls in; an index out of range, negative ones included, is an error;
  the size and the number of blocks never change.
\<close>

theorem UpdateMask_refines_set:
  assumes "mask_ok m"
  shows "(case mask_Set i (Some m) of
      Inl e \<Rightarrow> \<not> (0 \<le> i \<and> i < umFields m)
    | Inr m' \<Rightarrow> 0 \<le> i \<and> i < umFields m \<and> mask_ok m' \<and> umFields m' = umFields m \<and>
        mask_fields m' = insert i (mask_fields m)) \<and>
    (case mask_Clear i (Some m) of
      Inl e \<Rightarrow> \<not> (0 \<le> i \<and> i < umFields m)
    | Inr m' \<Rightarrow> 0 \<le> i \<and> i < umFields m \<and> mask_ok m' \<and> umFields m' = umFields m \<and>
        mask_fields m' = mask_fields m - {i})" (is "?set \<and> ?clear")
proof -
  have range: "mask_update f i (Some m) = Inl e \<Longrightarrow> \<not> (0 \<le> i \<and> i < umFields m)"
    "mask_update f i (Some m) = Inr m' \<Longrightarrow> 0 \<le> i \<and> i < umFields m" for f e m'
    by (auto simp: mask_update_def mask_range_def Let_def split: if_splits)
  have ?set
    using range mask_update_ok [OF assms] mask_Set_has [OF assms]
    by (auto simp: mask_Set_def mask_fields_def split: sum.split)
  moreover have ?clear
    using range mask_update_ok [OF assms] mask_Clear_has [OF assms]
    by (auto simp: mask_Clear_def mask_fields_def split: sum.split)
  ultimately show "?set \<and> ?clear" ..
qed

theorem UpdateMask_refines_set_witness:
  "(case mask_Set 69 (Some (NewUpdateMask 70)) of Inl e \<Rightarrow> False | Inr m' \<Rightarrow> mask_fields m' = {69}) \<and>
   (case mask_Clear 70 (Some (NewUpdateMask 70)) of Inl e \<Rightarrow> True | Inr m' \<Rightarrow> False)"
proof -
  have m: "mask_ok (NewUpdateMask 70)" "mask_fields (NewUpdateMask 70) = {}" "umFields (NewUpdateMask 70) = 70"
    by (simp_all add: NewUpdateMask_ok) (simp add: NewUpdateMask_def)
  show ?thesis
    using UpdateMask_refines_set [OF m(1), of 69] UpdateMask_refines_set [OF m(1), of 70]
    by (auto simp: m split: sum.splits)
qed

end
