(* ===== verification/Go_Heap.thy ===== *)
theory Go_Heap
  imports Go_Prelude
begin

text \<open>
  \<^verbatim>\<open>container/heap\<close> of the standard library as its clients see it: an interface of \<open>Less\<close> and \<open>Swap\<close> on a
  slice, and the sift loops over it. \<open>heap_interface\<close> is what a client has to provide: \<open>Less\<close> compares keys of
  a linear order, and \<open>Swap\<close> exchanges two elements up to the fields outside the projection, such as a stored
  position. From that the loops keep the multiset of the elements and restore the heap order.
\<close>

section \<open>The loops\<close>

definition parent :: "nat \<Rightarrow> nat" where
  "parent k = (k - 1) div 2"

function heap_up :: "('h \<Rightarrow> nat \<Rightarrow> nat \<Rightarrow> bool) \<Rightarrow> ('h \<Rightarrow> nat \<Rightarrow> nat \<Rightarrow> 'h) \<Rightarrow> nat \<Rightarrow> 'h \<Rightarrow> 'h" where
  "heap_up lt sw j h =
     (if parent j = j \<or> \<not> lt h j (parent j) then h
      else heap_up lt sw (parent j) (sw h (parent j) j))"
  by pat_completeness auto
termination by (relation "measure (\<lambda>(lt, sw, j, h). j)") (auto simp: parent_def)

declare heap_up.simps [simp del]

text \<open>The smaller child of \<open>i\<close>, the left one if they are equal.\<close>

definition small_child :: "('h \<Rightarrow> nat \<Rightarrow> nat \<Rightarrow> bool) \<Rightarrow> nat \<Rightarrow> nat \<Rightarrow> 'h \<Rightarrow> nat" where
  "small_child lt n i h =
     (let j1 = 2 * i + 1; j2 = j1 + 1 in if j2 < n \<and> lt h j2 j1 then j2 else j1)"

lemma small_child_greater: "i < small_child lt n i h"
  by (simp add: small_child_def Let_def)

lemma small_child_less: "2 * i + 1 < n \<Longrightarrow> small_child lt n i h < n"
  by (simp add: small_child_def Let_def)

function heap_down ::
    "('h \<Rightarrow> nat \<Rightarrow> nat \<Rightarrow> bool) \<Rightarrow> ('h \<Rightarrow> nat \<Rightarrow> nat \<Rightarrow> 'h) \<Rightarrow> nat \<Rightarrow> nat \<Rightarrow> 'h \<Rightarrow> 'h" where
  "heap_down lt sw n i h =
     (if 2 * i + 1 \<ge> n \<or> \<not> lt h (small_child lt n i h) i then h
      else heap_down lt sw n (small_child lt n i h) (sw h i (small_child lt n i h)))"
  by pat_completeness auto
termination
proof (relation "measure (\<lambda>(lt, sw, n, i, h). n - i)", goal_cases)
  case (2 lt sw n i h)
  then show ?case using small_child_greater [of i lt n h] small_child_less [of i n lt h] by simp
qed simp

declare heap_down.simps [simp del]

lemma length_heap_down:
  assumes "\<And>h i j. length (sw h i j) = length h"
  shows "length (heap_down lt sw n i h) = length h"
proof (induction "n - i" arbitrary: i h rule: less_induct)
  case less
  show ?case
    using less.hyps [of "small_child lt n i h" "sw h i (small_child lt n i h)"]
      small_child_greater [of i lt n h] small_child_less [of i n lt h]
    by (cases "2 * i + 1 \<ge> n") (auto simp: heap_down.simps [of lt sw n i h] assms)
qed

section \<open>Heap order\<close>

definition list_swap :: "'b list \<Rightarrow> nat \<Rightarrow> nat \<Rightarrow> 'b list" where
  "list_swap xs i j = xs[i := xs ! j, j := xs ! i]"

lemma length_list_swap [simp]: "length (list_swap xs i j) = length xs"
  by (simp add: list_swap_def)

lemma nth_list_swap:
  "i < length xs \<Longrightarrow> j < length xs \<Longrightarrow> k < length xs \<Longrightarrow>
    list_swap xs i j ! k = (if k = j then xs ! i else if k = i then xs ! j else xs ! k)"
  by (simp add: list_swap_def nth_list_update)

lemma mset_list_swap: "i < length xs \<Longrightarrow> j < length xs \<Longrightarrow> mset (list_swap xs i j) = mset xs"
  by (simp add: list_swap_def mset_swap)

definition heap_on :: "('b \<Rightarrow> 'k::linorder) \<Rightarrow> nat \<Rightarrow> 'b list \<Rightarrow> bool" where
  "heap_on key n xs \<longleftrightarrow> (\<forall>k. 0 < k \<longrightarrow> k < n \<longrightarrow> key (xs ! parent k) \<le> key (xs ! k))"

text \<open>Heap order but for the element at \<open>j\<close> and its parent, or but for \<open>i\<close> and its children.\<close>

definition up_inv :: "('b \<Rightarrow> 'k::linorder) \<Rightarrow> nat \<Rightarrow> nat \<Rightarrow> 'b list \<Rightarrow> bool" where
  "up_inv key n j xs \<longleftrightarrow>
     (\<forall>k. 0 < k \<longrightarrow> k < n \<longrightarrow> k \<noteq> j \<longrightarrow> key (xs ! parent k) \<le> key (xs ! k)) \<and>
     (\<forall>k. 0 < k \<longrightarrow> k < n \<longrightarrow> parent k = j \<longrightarrow> key (xs ! parent j) \<le> key (xs ! k))"

definition down_inv :: "('b \<Rightarrow> 'k::linorder) \<Rightarrow> nat \<Rightarrow> nat \<Rightarrow> 'b list \<Rightarrow> bool" where
  "down_inv key n i xs \<longleftrightarrow>
     (\<forall>k. 0 < k \<longrightarrow> k < n \<longrightarrow> parent k \<noteq> i \<longrightarrow> key (xs ! parent k) \<le> key (xs ! k)) \<and>
     (\<forall>k. 0 < k \<longrightarrow> k < n \<longrightarrow> parent k = i \<longrightarrow> 0 < i \<longrightarrow> key (xs ! parent i) \<le> key (xs ! k))"

lemma parent_less [simp]: "0 < k \<Longrightarrow> parent k < k"
  by (simp add: parent_def)

lemma parent_le [simp]: "parent k \<le> k"
  by (simp add: parent_def)

lemma parent_self: "parent k = k \<longleftrightarrow> k = 0"
  by (auto simp: parent_def)

lemma parent_eq: "0 < k \<Longrightarrow> parent k = i \<longleftrightarrow> k = 2 * i + 1 \<or> k = 2 * i + 2"
  by (auto simp: parent_def)

lemma heap_root_least:
  assumes "heap_on key n xs" "k < n"
  shows "key (xs ! 0) \<le> key (xs ! k)"
  using assms(2)
proof (induction k rule: less_induct)
  case (less k)
  show ?case
  proof (cases "k = 0")
    case False
    then have "key (xs ! 0) \<le> key (xs ! parent k)" "key (xs ! parent k) \<le> key (xs ! k)"
      using less assms(1) by (auto simp: heap_on_def intro: le_less_trans [OF parent_le])
    then show ?thesis by (rule order_trans)
  qed simp
qed

lemma heap_on_append: "heap_on key n xs \<Longrightarrow> length xs = n \<Longrightarrow> up_inv key (Suc n) n (xs @ [x])"
  by (auto simp: heap_on_def up_inv_def nth_append parent_eq less_Suc_eq intro: le_less_trans [OF parent_le])

lemma up_inv_done: "up_inv key n j xs \<Longrightarrow> j = 0 \<or> key (xs ! parent j) \<le> key (xs ! j) \<Longrightarrow> heap_on key n xs"
  by (auto simp: up_inv_def heap_on_def)

lemma up_inv_step:
  assumes inv: "up_inv key n j xs" and j: "0 < j" "j < n" "n \<le> length xs" and less: "key (xs ! j) < key (xs ! parent j)"
  shows "up_inv key n (parent j) (list_swap xs (parent j) j)"
proof -
  have p: "parent j < j" "parent j < length xs" "j < length xs" using parent_less [OF j(1)] j(2,3) by linarith+
  have in_range: "parent k < length xs" "k < length xs" if "k < n" for k
    using that j le_less_trans [OF parent_le] by auto
  note nth = nth_list_swap [OF p(2,3)]
  have other: "key (xs ! parent k) \<le> key (xs ! k)" if "0 < k" "k < n" "k \<noteq> j" for k
    using inv that by (auto simp: up_inv_def)
  have sib: "key (xs ! parent j) \<le> key (xs ! k)" if "0 < k" "k < n" "k \<noteq> j" "parent k = parent j" for k
    using other [OF that(1-3)] that(4) by simp
  have child: "key (xs ! parent j) \<le> key (xs ! k)" if "0 < k" "k < n" "parent k = j" for k
    using inv that by (auto simp: up_inv_def)
  have pp: "key (xs ! parent (parent j)) \<le> key (xs ! parent j)"
  proof (cases "parent j = 0")
    case False
    then show ?thesis using other [of "parent j"] j p by simp
  qed (simp add: parent_def)
  show ?thesis
    unfolding up_inv_def
  proof (intro conjI allI impI)
    fix k assume k: "0 < k" "k < n" "k \<noteq> parent j"
    show "key (list_swap xs (parent j) j ! parent k) \<le> key (list_swap xs (parent j) j ! k)"
      using k in_range [OF k(2)] p other [OF k(1,2)] sib [OF k(1,2)] child [OF k(1,2)] less
      by (auto simp: nth intro: order.strict_implies_order order.strict_trans1 less_le_trans)
  next
    fix k assume k: "0 < k" "k < n" "parent k = parent j"
    have "parent (parent j) < length xs" using p le_less_trans [OF parent_le p(2)] by simp
    moreover have "parent (parent j) \<noteq> j" using p(1) le_less_trans [OF parent_le p(1)] by auto
    ultimately show "key (list_swap xs (parent j) j ! parent (parent j)) \<le> key (list_swap xs (parent j) j ! k)"
      using k in_range [OF k(2)] p pp sib [OF k(1,2)] parent_less [OF k(1)]
      by (auto simp: nth parent_self intro: order_trans less_imp_le [OF less])
  qed
qed

lemma heap_on_down: "heap_on key n xs \<Longrightarrow> i < n \<Longrightarrow> down_inv key n i xs"
  by (auto simp: heap_on_def down_inv_def intro: order_trans)

lemma down_inv_root:
  "(\<And>k. 0 < k \<Longrightarrow> k < n \<Longrightarrow> parent k \<noteq> 0 \<Longrightarrow> key (xs ! parent k) \<le> key (xs ! k)) \<Longrightarrow> down_inv key n 0 xs"
  by (simp add: down_inv_def)

lemma down_inv_done:
  "down_inv key n i xs \<Longrightarrow> (\<And>k. 0 < k \<Longrightarrow> k < n \<Longrightarrow> parent k = i \<Longrightarrow> key (xs ! i) \<le> key (xs ! k)) \<Longrightarrow> heap_on key n xs"
  unfolding down_inv_def heap_on_def by metis

lemma down_inv_step:
  assumes inv: "down_inv key n i xs" and c: "parent c = i" "0 < c" "c < n" "n \<le> length xs"
    and least: "\<And>k. 0 < k \<Longrightarrow> k < n \<Longrightarrow> parent k = i \<Longrightarrow> key (xs ! c) \<le> key (xs ! k)"
    and less: "key (xs ! c) < key (xs ! i)"
  shows "down_inv key n c (list_swap xs i c)"
proof -
  have i: "i < c" "i < length xs" "c < length xs" using parent_less [OF c(2)] c by linarith+
  have in_range: "parent k < length xs" "k < length xs" if "k < n" for k
    using that c le_less_trans [OF parent_le] by auto
  note nth = nth_list_swap [OF i(2,3)]
  have other: "key (xs ! parent k) \<le> key (xs ! k)" if "0 < k" "k < n" "parent k \<noteq> i" for k
    using inv that by (auto simp: down_inv_def)
  have above: "key (xs ! parent i) \<le> key (xs ! c)" if "0 < i"
    using inv that c by (auto simp: down_inv_def)
  show ?thesis
    unfolding down_inv_def
  proof (intro conjI allI impI)
    fix k assume k: "0 < k" "k < n" "parent k \<noteq> c"
    consider "k = i" | "k = c" | "k \<noteq> i" "k \<noteq> c" by blast
    then show "key (list_swap xs i c ! parent k) \<le> key (list_swap xs i c ! k)"
    proof cases
      case 1
      then have "parent k \<noteq> i" using k(1) parent_less [of k] by (auto simp: parent_self)
      then show ?thesis using 1 k i in_range [OF k(2)] above by (auto simp: nth)
    next
      case 2
      then show ?thesis using k i c less in_range [OF k(2)] by (auto simp: nth)
    next
      case 3
      then show ?thesis
        using k i c in_range [OF k(2)] other [OF k(1,2)] least [OF k(1,2)] by (auto simp: nth)
    qed
  next
    fix k assume k: "0 < k" "k < n" "parent k = c"
    then have "k \<noteq> c" "k \<noteq> i" using parent_less [OF k(1)] i by auto
    moreover have "key (xs ! c) \<le> key (xs ! k)" using other [OF k(1,2)] k(3) i by auto
    ultimately show "key (list_swap xs i c ! parent c) \<le> key (list_swap xs i c ! k)"
      using k i c in_range [OF k(2)] by (auto simp: nth)
  qed
qed

section \<open>The interface\<close>

locale heap_interface =
  fixes lt :: "'a list \<Rightarrow> nat \<Rightarrow> nat \<Rightarrow> bool" and sw :: "'a list \<Rightarrow> nat \<Rightarrow> nat \<Rightarrow> 'a list"
    and proj :: "'a \<Rightarrow> 'b" and key :: "'b \<Rightarrow> 'k::linorder"
  assumes lt_key: "i < length h \<Longrightarrow> j < length h \<Longrightarrow> lt h i j \<longleftrightarrow> key (proj (h ! i)) < key (proj (h ! j))"
    and proj_sw: "i < length h \<Longrightarrow> j < length h \<Longrightarrow> map proj (sw h i j) = list_swap (map proj h) i j"
begin

lemma length_sw: "i < length h \<Longrightarrow> j < length h \<Longrightarrow> length (sw h i j) = length h"
  using arg_cong [OF proj_sw, of i h j length] by simp

lemma heap_up_correct:
  assumes "up_inv key n j (map proj h)" "j < n" "n \<le> length h"
  shows "heap_on key n (map proj (heap_up lt sw j h)) \<and> mset (map proj (heap_up lt sw j h)) = mset (map proj h)"
  using assms
proof (induction j arbitrary: h rule: less_induct)
  case (less j)
  have j: "j < length h" "parent j < length h" using less.prems(2,3) le_less_trans [OF parent_le, of j n] by auto
  show ?case
  proof (cases "parent j = j \<or> \<not> lt h j (parent j)")
    case True
    then show ?thesis using up_inv_done [OF less.prems(1)] j by (auto simp: heap_up.simps [of lt sw] lt_key parent_self not_less)
  next
    case False
    then have p: "parent j < j" "0 < j" by (auto simp: parent_self)
    have "key (map proj h ! j) < key (map proj h ! parent j)" using False j by (simp add: lt_key)
    then have "up_inv key n (parent j) (map proj (sw h (parent j) j))"
      unfolding proj_sw [OF j(2,1)] by (intro up_inv_step [OF less.prems(1) p(2)]) (use less.prems in auto)
    moreover have "n \<le> length (sw h (parent j) j)" using less.prems(3) by (simp add: length_sw j)
    moreover have "mset (map proj (sw h (parent j) j)) = mset (map proj h)"
      unfolding proj_sw [OF j(2,1)] by (rule mset_list_swap) (simp_all add: j)
    ultimately show ?thesis
      using less.IH [OF p(1)] p less.prems(2) False unfolding heap_up.simps [of lt sw j h] by simp
  qed
qed

lemma small_child_least:
  assumes "2 * i + 1 < n" "n \<le> length h" "parent k = i" "0 < k" "k < n"
  shows "key (proj (h ! small_child lt n i h)) \<le> key (proj (h ! k))"
  using assms by (auto simp: small_child_def Let_def parent_eq lt_key)

lemma parent_small_child: "parent (small_child lt n i h) = i"
  by (simp add: small_child_def Let_def parent_def)

lemma heap_down_correct:
  assumes "down_inv key n i (map proj h)" "n \<le> length h"
  shows "heap_on key n (map proj (heap_down lt sw n i h)) \<and> mset (map proj (heap_down lt sw n i h)) = mset (map proj h) \<and>
    drop n (map proj (heap_down lt sw n i h)) = drop n (map proj h)"
  using assms
proof (induction "n - i" arbitrary: i h rule: less_induct)
  case less
  let ?c = "small_child lt n i h"
  show ?case
  proof (cases "2 * i + 1 \<ge> n \<or> \<not> lt h ?c i")
    case True
    have "heap_on key n (map proj h)"
    proof (rule down_inv_done [OF less.prems(1)])
      fix k assume k: "0 < k" "k < n" "parent k = i"
      then have i: "2 * i + 1 < n" by (auto simp: parent_eq)
      have "?c < length h" "i < length h" using small_child_less [OF i, of lt h] i less.prems(2) by linarith+
      then have "key (proj (h ! i)) \<le> key (proj (h ! ?c))" using True i by (auto simp: lt_key)
      also have "\<dots> \<le> key (proj (h ! k))" by (rule small_child_least) (use i less.prems(2) k in auto)
      finally show "key (map proj h ! i) \<le> key (map proj h ! k)" using k less.prems(2) \<open>i < length h\<close> by simp
    qed
    then show ?thesis using True by (simp add: heap_down.simps [of lt sw])
  next
    case False
    then have i: "2 * i + 1 < n" by simp
    note c = small_child_less [OF i, of lt h] small_child_greater [of i lt n h]
    have ci: "?c < length h" "i < length h" using c less.prems(2) by linarith+
    have "down_inv key n ?c (map proj (sw h i ?c))"
      unfolding proj_sw [OF ci(2,1)]
    proof (rule down_inv_step [OF less.prems(1) parent_small_child])
      show "key (map proj h ! ?c) \<le> key (map proj h ! k)" if "0 < k" "k < n" "parent k = i" for k
        using small_child_least [OF i less.prems(2) that(3,1,2)] that less.prems(2) ci by simp
      show "key (map proj h ! ?c) < key (map proj h ! i)" using False ci by (simp add: lt_key)
    qed (use c less.prems(2) in auto)
    moreover have "mset (map proj (sw h i ?c)) = mset (map proj h)"
      unfolding proj_sw [OF ci(2,1)] by (rule mset_list_swap) (simp_all add: ci)
    moreover have "drop n (map proj (sw h i ?c)) = drop n (map proj h)"
      unfolding proj_sw [OF ci(2,1)] using c by (simp add: list_swap_def drop_update_cancel)
    moreover have "n - ?c < n - i" "n \<le> length (sw h i ?c)" using c i less.prems(2) by (simp_all add: length_sw ci)
    ultimately show ?thesis
      using less.hyps [of ?c "sw h i ?c"] False unfolding heap_down.simps [of lt sw n i h] by simp
  qed
qed

end

end
