(* ===== verification/Event_Queue.thy ===== *)
theory Event_Queue
  imports Go_Heap "HOL-Library.Product_Lexorder"
begin

text \<open>
  \<^verbatim>\<open>engine/runtime/events.go\<close>: the timer queue of the world loop, a binary heap of events by due time and
  identifier. A handler is a value of its own type; what calling it does to the queue and to the world, which it
  may change in any way, is an argument of the functions that call it. The mutex makes every method one step.
\<close>

section \<open>The heap of events\<close>

record 'f event =
  evId :: u64
  evDue :: int
  evFn :: "'f option"
  evCancelled :: bool
  evIndex :: int

type_synonym 'f eventHeap = "'f event list"

definition event_less :: "'f eventHeap \<Rightarrow> nat \<Rightarrow> nat \<Rightarrow> bool" where
  "event_less h i j =
     (if evDue (h ! i) = evDue (h ! j) then evId (h ! i) < evId (h ! j) else evDue (h ! i) < evDue (h ! j))"

definition event_swap :: "'f eventHeap \<Rightarrow> nat \<Rightarrow> nat \<Rightarrow> 'f eventHeap" where
  "event_swap h i j =
     (let h = list_swap h i j;
          h = h[i := (h ! i)\<lparr>evIndex := int i\<rparr>] in
      h[j := (h ! j)\<lparr>evIndex := int j\<rparr>])"

definition event_push :: "'f event \<Rightarrow> 'f eventHeap \<Rightarrow> 'f eventHeap" where
  "event_push item h = h @ [item\<lparr>evIndex := int (length h)\<rparr>]"

definition event_pop :: "'f eventHeap \<Rightarrow> 'f event \<times> 'f eventHeap" where
  "event_pop h = ((last h)\<lparr>evIndex := -1\<rparr>, butlast h)"

text \<open>\<open>heap.Push\<close> and \<open>heap.Pop\<close>.\<close>

definition heap_push :: "'f event \<Rightarrow> 'f eventHeap \<Rightarrow> 'f eventHeap" where
  "heap_push item h = (let h = event_push item h in heap_up event_less event_swap (length h - 1) h)"

definition heap_pop :: "'f eventHeap \<Rightarrow> 'f event \<times> 'f eventHeap" where
  "heap_pop h =
     (let n = length h - 1 in event_pop (heap_down event_less event_swap n 0 (event_swap h 0 n)))"

section \<open>The queue\<close>

record 'f EventQueue =
  eqNext :: u64
  eqEvents :: "'f eventHeap"

definition NewEventQueue :: "'f EventQueue" where
  "NewEventQueue = \<lparr>eqNext = 0, eqEvents = []\<rparr>"

definition Add :: "int \<Rightarrow> 'f option \<Rightarrow> 'f EventQueue \<Rightarrow> u64 \<times> 'f EventQueue" where
  "Add due fn q =
     (let q = q\<lparr>eqNext := eqNext q + 1\<rparr>;
          item = \<lparr>evId = eqNext q, evDue = due, evFn = fn, evCancelled = False, evIndex = 0\<rparr> in
      (evId item, q\<lparr>eqEvents := heap_push item (eqEvents q)\<rparr>))"

definition AddAfter :: "int \<Rightarrow> int \<Rightarrow> 'f option \<Rightarrow> 'f EventQueue \<Rightarrow> u64 \<times> 'f EventQueue" where
  "AddAfter now delay fn q = Add (now + delay) fn q"

primrec cancel_first :: "u64 \<Rightarrow> 'f eventHeap \<Rightarrow> bool \<times> 'f eventHeap" where
  "cancel_first i [] = (False, [])"
| "cancel_first i (item # h) =
     (if evId item = i \<and> \<not> evCancelled item then (True, item\<lparr>evCancelled := True\<rparr> # h)
      else let (found, h') = cancel_first i h in (found, item # h'))"

definition Cancel :: "u64 \<Rightarrow> 'f EventQueue \<Rightarrow> bool \<times> 'f EventQueue" where
  "Cancel i q = (let (found, h) = cancel_first i (eqEvents q) in (found, q\<lparr>eqEvents := h\<rparr>))"

lemma length_event_swap [simp]: "length (event_swap h i j) = length h"
  by (simp add: event_swap_def Let_def)

lemma length_heap_pop: "heap_pop h = (e, h') \<Longrightarrow> length h' = length h - 1"
  by (auto simp: heap_pop_def event_pop_def Let_def length_heap_down)

text \<open>The first loop of \<open>RunDue\<close>: take out what is due, keep what is to be called.\<close>

function drain :: "int \<Rightarrow> 'f eventHeap \<Rightarrow> 'f event list \<Rightarrow> 'f event list \<times> 'f eventHeap" where
  "drain now h ready =
     (if h = [] \<or> evDue (h ! 0) > now then (ready, h)
      else case heap_pop h of (item, h') \<Rightarrow>
        drain now h' (if \<not> evCancelled item \<and> evFn item \<noteq> None then ready @ [item] else ready))"
  by pat_completeness auto
termination by (relation "measure (\<lambda>(now, h, ready). length h)") (auto dest: length_heap_pop [OF sym])

declare drain.simps [simp del]

definition RunDue ::
    "('f \<Rightarrow> 'f EventQueue \<times> 'w \<Rightarrow> 'f EventQueue \<times> 'w) \<Rightarrow> int \<Rightarrow> 'f EventQueue \<times> 'w \<Rightarrow> nat \<times> ('f EventQueue \<times> 'w)" where
  "RunDue call now s =
     (let (q, w) = s; (ready, h) = drain now (eqEvents q) [] in
      (length ready, fold (\<lambda>item s. call (the (evFn item)) s) ready (q\<lparr>eqEvents := h\<rparr>, w)))"

function drop_cancelled :: "'f eventHeap \<Rightarrow> 'f eventHeap" where
  "drop_cancelled h = (if h \<noteq> [] \<and> evCancelled (h ! 0) then drop_cancelled (snd (heap_pop h)) else h)"
  by pat_completeness auto
termination by (relation "measure length") (auto simp: length_heap_pop [OF prod.collapse [symmetric]])

declare drop_cancelled.simps [simp del]

definition NextDue :: "'f EventQueue \<Rightarrow> (int \<times> bool) \<times> 'f EventQueue" where
  "NextDue q =
     (let q = q\<lparr>eqEvents := drop_cancelled (eqEvents q)\<rparr> in
      if eqEvents q = [] then ((zero_time, False), q) else ((evDue (eqEvents q ! 0), True), q))"

section \<open>The heap interface\<close>

text \<open>The stored position apart, and the order of the queue.\<close>

definition ev :: "'f event \<Rightarrow> 'f event" where
  "ev e = e\<lparr>evIndex := 0\<rparr>"

definition ev_key :: "'f event \<Rightarrow> int \<times> u64" where
  "ev_key e = (evDue e, evId e)"

lemma ev_simps [simp]:
  "evId (ev e) = evId e" "evDue (ev e) = evDue e" "evFn (ev e) = evFn e" "evCancelled (ev e) = evCancelled e"
  "ev (e\<lparr>evIndex := n\<rparr>) = ev e" "ev (e\<lparr>evCancelled := b\<rparr>) = (ev e)\<lparr>evCancelled := b\<rparr>" "ev (ev e) = ev e"
  by (simp_all add: ev_def)

lemma ev_key_ev [simp]: "ev_key (ev e) = ev_key e"
  by (simp add: ev_key_def)

interpretation event_heap: heap_interface event_less event_swap ev ev_key
proof unfold_locales
  show "event_less h i j \<longleftrightarrow> ev_key (ev (h ! i)) < ev_key (ev (h ! j))" for h :: "'f eventHeap" and i j
    by (auto simp: event_less_def ev_key_def less_prod_def)
  show "map ev (event_swap h i j) = list_swap (map ev h) i j" if "i < length h" "j < length h"
    for h :: "'f eventHeap" and i j
    using that by (auto simp: event_swap_def Let_def map_update list_swap_def list_eq_iff_nth_eq nth_list_update)
qed

definition heap_ok :: "'f eventHeap \<Rightarrow> bool" where
  "heap_ok h \<longleftrightarrow> heap_on ev_key (length h) (map ev h)"

lemma heap_push_ok:
  assumes "heap_ok h"
  shows "heap_ok (heap_push e h)" "mset (map ev (heap_push e h)) = add_mset (ev e) (mset (map ev h))"
proof -
  let ?h = "event_push e h"
  have "up_inv ev_key (Suc (length h)) (length h) (map ev ?h)"
    using heap_on_append [of ev_key "length h" "map ev h" "ev e"] assms by (simp add: heap_ok_def event_push_def)
  note r = event_heap.heap_up_correct [OF this]
  have l: "length ?h = Suc (length h)" by (simp add: event_push_def)
  then have m: "heap_on ev_key (Suc (length h)) (map ev (heap_push e h))" "mset (map ev (heap_push e h)) = mset (map ev ?h)"
    using r by (simp_all add: heap_push_def Let_def)
  moreover have "length (heap_push e h) = Suc (length h)" using m(2) l by (metis length_map size_mset)
  ultimately show "heap_ok (heap_push e h)" "mset (map ev (heap_push e h)) = add_mset (ev e) (mset (map ev h))"
    by (simp_all add: heap_ok_def event_push_def)
qed

lemma heap_pop_ok:
  assumes "heap_ok h" "h \<noteq> []" "heap_pop h = (e, h')"
  shows "heap_ok h'" "mset (map ev h) = add_mset (ev e) (mset (map ev h'))" "ev e = ev (hd h)"
    "length h = Suc (length h')"
proof -
  let ?n = "length h - 1"
  let ?s = "event_swap h 0 ?n"
  let ?d = "heap_down event_less event_swap ?n 0 ?s"
  have n: "0 < length h" "?n < length h" using assms(2) by auto
  have s: "map ev ?s = list_swap (map ev h) 0 ?n" by (rule event_heap.proj_sw [OF n])
  have ls: "length ?s = length h" by (rule event_heap.length_sw [OF n])
  have "down_inv ev_key ?n 0 (map ev ?s)"
  proof (rule down_inv_root)
    fix k assume k: "0 < k" "k < ?n" "parent k \<noteq> 0"
    have "parent k < ?n" "k < length h" using k parent_less [OF k(1)] by linarith+
    moreover have "ev_key (map ev h ! parent k) \<le> ev_key (map ev h ! k)"
      using assms(1) k(1) \<open>k < length h\<close> by (simp add: heap_ok_def heap_on_def)
    ultimately show "ev_key (map ev ?s ! parent k) \<le> ev_key (map ev ?s ! k)"
      unfolding s using k n by (simp add: nth_list_swap)
  qed
  note r = event_heap.heap_down_correct [OF this]
  have d: "heap_on ev_key ?n (map ev ?d)" "mset (map ev ?d) = mset (map ev ?s)" "drop ?n (map ev ?d) = drop ?n (map ev ?s)"
    using r ls by simp_all
  have ld: "length ?d = length h" using d(2) ls by (metis length_map size_mset)
  have e: "e = (last ?d)\<lparr>evIndex := -1\<rparr>" "h' = butlast ?d"
    using assms(3) by (simp_all add: heap_pop_def event_pop_def Let_def)
  have dn: "?d \<noteq> []" using ld n by auto
  have m: "mset (map ev ?d) = mset (map ev h)" unfolding d(2) s by (rule mset_list_swap) (use n in simp_all)
  have app: "map ev ?d = map ev h' @ [ev e]"
    unfolding e by (subst append_butlast_last_id [OF dn, symmetric]) simp
  show "length h = Suc (length h')" using ld n by (simp add: e)
  then have l': "length h' = ?n" by simp
  show "mset (map ev h) = add_mset (ev e) (mset (map ev h'))" unfolding m [symmetric] app by simp
  have "drop ?n (map ev ?d) = [ev e]" unfolding app by (simp add: l')
  moreover have "drop ?n (map ev ?s) = [ev (hd h)]"
    unfolding s using n assms(2)
    by (simp add: list_swap_def Cons_nth_drop_Suc [symmetric] nth_list_update hd_conv_nth)
  ultimately show "ev e = ev (hd h)" using d(3) by simp
  have "heap_on ev_key ?n (map ev h' @ [ev e])" using d(1) unfolding app .
  then have "heap_on ev_key ?n (map ev h')"
    unfolding heap_on_def by (simp add: nth_append l' le_less_trans [OF parent_le])
  then show "heap_ok h'" by (simp add: heap_ok_def l')
qed

lemma heap_ok_least:
  assumes "heap_ok h" "x \<in> set (map ev h)"
  shows "ev_key (ev (hd h)) \<le> ev_key x"
proof -
  from assms(2) obtain k where k: "k < length h" "x = map ev h ! k" by (metis in_set_conv_nth length_map)
  then have "h \<noteq> []" by auto
  then show ?thesis
    using heap_root_least [OF assms(1) [unfolded heap_ok_def] k(1)] k by (simp add: hd_conv_nth)
qed

lemma key_due: "ev_key x \<le> ev_key y \<Longrightarrow> evDue x \<le> evDue y"
  by (auto simp: ev_key_def less_eq_prod_def)

section \<open>Draining\<close>

definition live_due :: "int \<Rightarrow> 'f event \<Rightarrow> bool" where
  "live_due now e \<longleftrightarrow> evDue e \<le> now \<and> \<not> evCancelled e \<and> evFn e \<noteq> None"

lemma live_due_ev [simp]: "live_due now (ev e) = live_due now e"
  by (simp add: live_due_def)

lemma drain_exact:
  assumes "heap_ok h" "distinct (map ev_key h)" "drain now h ready = (r, h')"
  shows "heap_ok h' \<and> mset (map ev h') = {#e \<in># mset (map ev h). now < evDue e#} \<and>
    map ev r = map ev ready @ sort_key ev_key (filter (live_due now) (map ev h))"
  using assms
proof (induction "length h" arbitrary: h ready rule: less_induct)
  case less
  show ?case
  proof (cases "h = [] \<or> evDue (h ! 0) > now")
    case True
    then have late: "now < evDue x" if "x \<in> set (map ev h)" for x
      using key_due [OF heap_ok_least [OF less.prems(1) that]] that by (cases h) auto
    have "now < evDue x" if "x \<in> set h" for x using late [of "ev x"] that by simp
    then have "filter (live_due now) (map ev h) = []" by (auto simp: filter_empty_conv live_due_def not_le [symmetric])
    moreover have "{#e \<in># mset (map ev h). now < evDue e#} = mset (map ev h)"
      using late by (simp add: filter_mset_eq_conv)
    ultimately show ?thesis using less.prems True by (simp add: drain.simps [of now h])
  next
    case False
    obtain e t where p: "heap_pop h = (e, t)" by fastforce
    note t = heap_pop_ok [OF less.prems(1) _ p]
    have ne: "h \<noteq> []" using False by simp
    have mt: "mset (map ev h) = add_mset (ev e) (mset (map ev t))" by (rule t(2) [OF ne])
    have due: "evDue e \<le> now"
      using t(3) [OF ne] False ne by (metis ev_simps(2) hd_conv_nth not_le)
    have mk: "mset (map ev_key h) = add_mset (ev_key e) (mset (map ev_key t))"
      using arg_cong [OF mt, of "image_mset ev_key"] by (simp add: multiset.map_comp comp_def)
    have dt: "distinct (map ev_key t)"
      using less.prems(2) mset_eq_imp_distinct_iff [of "map ev_key h" "ev_key e # map ev_key t"] mk by simp
    let ?ready = "if \<not> evCancelled e \<and> evFn e \<noteq> None then ready @ [e] else ready"
    have d: "drain now t ?ready = (r, h')"
      using less.prems(3) False by (simp add: drain.simps [of now h] p split: if_splits)
    note ih = less.hyps [OF _ t(1) [OF ne] dt d]
    have "sort_key ev_key (filter (live_due now) (map ev h)) =
        (if live_due now e then [ev e] else []) @ sort_key ev_key (filter (live_due now) (map ev t))" (is "_ = ?rhs")
    proof (rule sort_key_inj_key_eq)
      show "mset (filter (live_due now) (map ev h)) = mset ?rhs"
        using arg_cong [OF mt, of "filter_mset (live_due now)"] by simp
      have "inj_on ev_key (set (map ev h))"
        using less.prems(2) by (auto simp: distinct_map inj_on_def)
      then show "inj_on ev_key (set (filter (live_due now) (map ev h)))" by (rule inj_on_subset) auto
      have "ev_key (ev e) \<le> ev_key x" if "x \<in> set (map ev t)" for x
        using heap_ok_least [OF less.prems(1), of x] t(3) [OF ne] mset_eq_setD [of "map ev h" "ev e # map ev t"] mt that by auto
      then show "sorted (map ev_key ?rhs)" by auto
    qed
    moreover have "{#x \<in># mset (map ev h). now < evDue x#} = {#x \<in># mset (map ev t). now < evDue x#}"
      unfolding mt using due by simp
    ultimately show ?thesis using ih t(4) [OF ne] due by (auto simp: live_due_def)
  qed
qed

lemma drop_cancelled_exact:
  assumes "heap_ok h"
  shows "heap_ok (drop_cancelled h) \<and>
    {#e \<in># mset (map ev (drop_cancelled h)). \<not> evCancelled e#} = {#e \<in># mset (map ev h). \<not> evCancelled e#} \<and>
    mset (map ev (drop_cancelled h)) \<subseteq># mset (map ev h) \<and>
    (drop_cancelled h \<noteq> [] \<longrightarrow> \<not> evCancelled (hd (drop_cancelled h)))"
  using assms
proof (induction "length h" arbitrary: h rule: less_induct)
  case less
  show ?case
  proof (cases "h \<noteq> [] \<and> evCancelled (h ! 0)")
    case True
    obtain e t where p: "heap_pop h = (e, t)" by fastforce
    have ne: "h \<noteq> []" using True by simp
    note t = heap_pop_ok [OF less.prems(1) ne p]
    have "evCancelled (ev e)" using t(3) True by (simp add: hd_conv_nth)
    then have "evCancelled e" by simp
    then have f: "{#x \<in># mset (map ev h). \<not> evCancelled x#} = {#x \<in># mset (map ev t). \<not> evCancelled x#}"
      unfolding t(2) by simp
    have s: "mset (map ev t) \<subseteq># mset (map ev h)" unfolding t(2) by simp
    have d: "drop_cancelled h = drop_cancelled t" using True by (simp add: drop_cancelled.simps [of h] p)
    show ?thesis
      using less.hyps [OF _ t(1)] t(4) s unfolding d f by (auto intro: subset_mset.order_trans simp del: mset_map)
  next
    case False
    then show ?thesis using less.prems by (auto simp: drop_cancelled.simps [of h] hd_conv_nth)
  qed
qed

section \<open>The queue invariant\<close>

text \<open>Identifiers are unique and were handed out already. The counter must not wrap: that takes \<open>2 ^ 64\<close> timers.\<close>

definition queue_ok :: "'f EventQueue \<Rightarrow> bool" where
  "queue_ok q \<longleftrightarrow> heap_ok (eqEvents q) \<and> distinct (map evId (eqEvents q)) \<and>
     (\<forall>e \<in> set (eqEvents q). evId e \<le> eqNext q)"

text \<open>What the queue stands for: the timers that were neither cancelled nor taken out.\<close>

definition pending :: "'f EventQueue \<Rightarrow> 'f event set" where
  "pending q = {e \<in> ev ` set (eqEvents q). \<not> evCancelled e}"

definition timer :: "u64 \<Rightarrow> int \<Rightarrow> 'f option \<Rightarrow> 'f event" where
  "timer i due fn = \<lparr>evId = i, evDue = due, evFn = fn, evCancelled = False, evIndex = 0\<rparr>"

lemma pending_mset: "pending q = set_mset {#e \<in># mset (map ev (eqEvents q)). \<not> evCancelled e#}"
  by (auto simp: pending_def)

lemma mset_ids:
  assumes "mset (map ev h') = mset (map ev h)"
  shows "mset (map evId h') = mset (map evId h)" "evId ` set h' = evId ` set h"
proof -
  show "mset (map evId h') = mset (map evId h)"
    using arg_cong [OF assms, of "image_mset evId"] by (simp add: multiset.map_comp comp_def)
  then show "evId ` set h' = evId ` set h" by (metis list.set_map mset_eq_setD)
qed

lemma distinct_sub: "distinct xs \<Longrightarrow> mset ys \<subseteq># mset xs \<Longrightarrow> distinct ys"
proof -
  assume d: "distinct xs" and s: "mset ys \<subseteq># mset xs"
  obtain zs where "mset zs = mset xs - mset ys" using ex_mset by blast
  then have "mset xs = mset (ys @ zs)" using s by simp
  then show ?thesis using d mset_eq_imp_distinct_iff [of xs "ys @ zs"] by simp
qed

lemma mset_ids_le:
  assumes "mset (map ev h') \<subseteq># mset (map ev h)"
  shows "distinct (map evId h) \<Longrightarrow> distinct (map evId h')" "evId ` set h' \<subseteq> evId ` set h"
proof -
  have le: "mset (map evId h') \<subseteq># mset (map evId h)"
    using image_mset_subseteq_mono [OF assms, of evId] by (simp add: multiset.map_comp comp_def)
  show "evId ` set h' \<subseteq> evId ` set h" using set_mset_mono [OF le] by simp
  show "distinct (map evId h')" if "distinct (map evId h)"
    by (rule distinct_sub [OF that le])
qed

lemma queue_keys_distinct: "queue_ok q \<Longrightarrow> distinct (map ev_key (eqEvents q))"
  by (auto simp: queue_ok_def distinct_map inj_on_def ev_key_def)

lemma Add_ok:
  assumes "queue_ok q" "eqNext q \<noteq> -1" "Add due fn q = (i, q')"
  shows "queue_ok q' \<and> i = eqNext q' \<and> eqNext q' = eqNext q + 1 \<and>
    mset (map ev (eqEvents q')) = add_mset (timer i due fn) (mset (map ev (eqEvents q))) \<and> i \<notin> evId ` set (eqEvents q)"
proof -
  let ?e = "timer (eqNext q + 1) due fn"
  have q': "eqEvents q' = heap_push ?e (eqEvents q)" "eqNext q' = eqNext q + 1" "i = eqNext q + 1"
    using assms(3) by (auto simp: Add_def Let_def timer_def)
  have ok: "heap_ok (eqEvents q)" using assms(1) by (simp add: queue_ok_def)
  note h = heap_push_ok [OF ok, of ?e]
  have e: "ev ?e = ?e" by (simp add: ev_def timer_def)
  have new: "x < eqNext q + 1" if "x \<le> eqNext q" for x
    using that assms(2) by (metis inc_less_eq_triv_imp linorder_le_less_linear order.trans)
  have ids: "mset (map evId (eqEvents q')) = mset (map evId (?e # eqEvents q))" "evId ` set (eqEvents q') = evId ` set (?e # eqEvents q)"
    using mset_ids [of "eqEvents q'" "?e # eqEvents q"] h(2) by (simp_all add: q')
  have fresh: "eqNext q + 1 \<notin> evId ` set (eqEvents q)"
  proof
    assume "eqNext q + 1 \<in> evId ` set (eqEvents q)"
    then have "eqNext q + 1 \<le> eqNext q" using assms(1) by (auto simp: queue_ok_def)
    from new [OF this] show False by simp
  qed
  then have dist: "distinct (map evId (eqEvents q'))"
    using mset_eq_imp_distinct_iff [OF ids(1)] assms(1) by (simp add: queue_ok_def timer_def)
  have "evId x \<le> eqNext q + 1" if "x \<in> set (eqEvents q')" for x
  proof -
    have "evId x \<in> evId ` set (?e # eqEvents q)" using that unfolding ids(2) [symmetric] by simp
    then show ?thesis using assms(1) new by (auto simp: queue_ok_def timer_def intro: less_imp_le)
  qed
  then have "queue_ok q'" using dist h(1) by (simp add: queue_ok_def q')
  then show ?thesis using h(2) e q' fresh by simp
qed

lemma cancel_first_exact:
  assumes "distinct (map evId h)" "cancel_first i h = (found, h')"
  shows "map ev_key h' = map ev_key h \<and> map evId h' = map evId h \<and>
    (found \<longleftrightarrow> (\<exists>e \<in> set h. evId e = i \<and> \<not> evCancelled e)) \<and>
    {e \<in> ev ` set h'. \<not> evCancelled e} = {e \<in> ev ` set h. \<not> evCancelled e \<and> evId e \<noteq> i}"
  using assms
proof (induction h arbitrary: found h')
  case (Cons x h)
  show ?case
  proof (cases "evId x = i \<and> \<not> evCancelled x")
    case True
    then have "evId e \<noteq> i" if "e \<in> set h" for e using Cons.prems(1) that by (auto simp: image_iff)
    then show ?thesis using True Cons.prems by (auto simp: ev_key_def)
  next
    case False
    obtain f t where t: "cancel_first i h = (f, t)" by fastforce
    have r: "found = f" "h' = x # t" using Cons.prems(2) False t by auto
    have d: "distinct (map evId h)" using Cons.prems(1) by simp
    have "{e \<in> ev ` set h'. \<not> evCancelled e} =
        {e \<in> {ev x}. \<not> evCancelled e} \<union> {e \<in> ev ` set t. \<not> evCancelled e}" unfolding r by auto
    also have "\<dots> = {e \<in> {ev x}. \<not> evCancelled e \<and> evId e \<noteq> i} \<union> {e \<in> ev ` set h. \<not> evCancelled e \<and> evId e \<noteq> i}"
      using Cons.IH [OF d t] False by auto
    finally have "{e \<in> ev ` set h'. \<not> evCancelled e} = {e \<in> ev ` set (x # h). \<not> evCancelled e \<and> evId e \<noteq> i}" by auto
    moreover have "found \<longleftrightarrow> (\<exists>e \<in> set (x # h). evId e = i \<and> \<not> evCancelled e)"
      using Cons.IH [OF d t] False by (auto simp: r)
    moreover have "map ev_key h' = map ev_key (x # h) \<and> map evId h' = map evId (x # h)"
      using Cons.IH [OF d t] by (simp add: r)
    ultimately show ?thesis by blast
  qed
qed simp

lemma heap_ok_keys: "map ev_key h' = map ev_key h \<Longrightarrow> heap_ok h \<Longrightarrow> heap_ok h'"
proof -
  assume k: "map ev_key h' = map ev_key h" and "heap_ok h"
  have l: "length h' = length h" using arg_cong [OF k, of length] by simp
  have n: "ev_key (h' ! i) = ev_key (h ! i)" if "i < length h" for i using that k l by (metis nth_map)
  show "heap_ok h'"
    using \<open>heap_ok h\<close> by (simp add: heap_ok_def heap_on_def l n le_less_trans [OF parent_le])
qed

lemma Cancel_ok:
  assumes "queue_ok q" "Cancel i q = (found, q')"
  shows "queue_ok q' \<and> (found \<longleftrightarrow> i \<in> evId ` pending q) \<and> pending q' = {e \<in> pending q. evId e \<noteq> i}"
proof -
  obtain f h where h: "cancel_first i (eqEvents q) = (f, h)" by fastforce
  have q': "found = f" "q' = q\<lparr>eqEvents := h\<rparr>" using assms(2) h by (auto simp: Cancel_def)
  have d: "distinct (map evId (eqEvents q))" using assms(1) by (simp add: queue_ok_def)
  note c = cancel_first_exact [OF d h]
  have "evId ` set h = evId ` set (eqEvents q)" using c by (metis list.set_map)
  then have "\<forall>e \<in> set h. evId e \<le> eqNext q" using assms(1) by (auto simp: queue_ok_def image_iff) (metis image_eqI imageE)
  then have "queue_ok q'" using assms(1) c heap_ok_keys [of h "eqEvents q"] by (simp add: queue_ok_def q')
  moreover have "found \<longleftrightarrow> i \<in> evId ` pending q" using c by (auto simp: q' pending_def image_iff)
  moreover have "pending q' = {e \<in> pending q. evId e \<noteq> i}" using c by (auto simp: q' pending_def)
  ultimately show ?thesis by blast
qed

lemma queue_ok_shrink:
  assumes "queue_ok q" "heap_ok h" "mset (map ev h) \<subseteq># mset (map ev (eqEvents q))"
  shows "queue_ok (q\<lparr>eqEvents := h\<rparr>)"
  using assms(1,2) mset_ids_le [OF assms(3)] by (auto simp: queue_ok_def)

lemma drain_ok:
  assumes "queue_ok q" "drain now (eqEvents q) [] = (r, h)"
  shows "queue_ok (q\<lparr>eqEvents := h\<rparr>) \<and> pending (q\<lparr>eqEvents := h\<rparr>) = {e \<in> pending q. now < evDue e} \<and>
    sorted_wrt (\<lambda>a b. ev_key a < ev_key b) r \<and>
    ev ` set r = {e \<in> pending q. evDue e \<le> now \<and> evFn e \<noteq> None}"
proof -
  have ok: "heap_ok (eqEvents q)" using assms(1) by (simp add: queue_ok_def)
  note d = drain_exact [OF ok queue_keys_distinct [OF assms(1)] assms(2)]
  have "queue_ok (q\<lparr>eqEvents := h\<rparr>)"
    using d by (intro queue_ok_shrink [OF assms(1)]) auto
  moreover have "pending (q\<lparr>eqEvents := h\<rparr>) = {e \<in> pending q. now < evDue e}"
    using d by (auto simp: pending_mset simp del: mset_map)
  moreover have r: "map ev r = sort_key ev_key (filter (live_due now) (map ev (eqEvents q)))" using d by simp
  have "sorted (map ev_key r) \<and> distinct (map ev_key r)"
  proof
    have k: "map ev_key r = map ev_key (map ev r)" by (simp add: comp_def)
    show "sorted (map ev_key r)" unfolding k r by (rule sorted_sort_key)
    have "distinct (map ev_key (filter (live_due now) (map ev (eqEvents q))))"
      using queue_keys_distinct [OF assms(1)] by (simp add: distinct_map_filter comp_def)
    then show "distinct (map ev_key r)"
      unfolding k r using mset_eq_imp_distinct_iff by (metis mset_map mset_sort)
  qed
  then have "sorted_wrt (<) (map ev_key r)" by (simp only: strict_sorted_iff)
  then have "sorted_wrt (\<lambda>a b. ev_key a < ev_key b) r" by (simp only: sorted_wrt_map)
  moreover have "ev ` set r = {e \<in> pending q. evDue e \<le> now \<and> evFn e \<noteq> None}"
    using arg_cong [OF r, of set] by (auto simp: pending_def live_due_def)
  ultimately show ?thesis by blast
qed

lemma NextDue_ok:
  assumes "queue_ok q" "NextDue q = ((due, found), q')"
  shows "queue_ok q' \<and> pending q' = pending q \<and> (found \<longleftrightarrow> pending q \<noteq> {}) \<and>
    (found \<longrightarrow> due = Min (evDue ` pending q))"
proof -
  let ?h = "drop_cancelled (eqEvents q)"
  have ok: "heap_ok (eqEvents q)" using assms(1) by (simp add: queue_ok_def)
  note d = drop_cancelled_exact [OF ok]
  have q': "q' = q\<lparr>eqEvents := ?h\<rparr>" using assms(2) by (auto simp: NextDue_def Let_def split: if_splits)
  have p: "pending q' = pending q" using d by (simp add: pending_mset q' del: mset_map)
  have "queue_ok q'" unfolding q' using d by (intro queue_ok_shrink [OF assms(1)]) auto
  moreover have "found \<longleftrightarrow> ?h \<noteq> []" using assms(2) by (auto simp: NextDue_def Let_def split: if_splits)
  then have "found \<longleftrightarrow> pending q \<noteq> {}"
  proof (cases ?h)
    case (Cons e t)
    then have "ev e \<in> pending q'" using d by (auto simp: pending_def q')
    then have "pending q' \<noteq> {}" by blast
    then show ?thesis using \<open>found \<longleftrightarrow> ?h \<noteq> []\<close> Cons unfolding p by simp
  next
    case Nil
    then have "pending q' = {}" by (simp add: pending_def q')
    then show ?thesis using \<open>found \<longleftrightarrow> ?h \<noteq> []\<close> Nil unfolding p by simp
  qed
  moreover have "due = Min (evDue ` pending q)" if found
  proof -
    have ne: "?h \<noteq> []" "due = evDue (hd ?h)" using assms(2) that by (auto simp: NextDue_def Let_def hd_conv_nth split: if_splits)
    have "ev (hd ?h) \<in> pending q'" using ne d by (auto simp: pending_def q')
    moreover have "evDue (hd ?h) \<le> evDue x" if "x \<in> pending q'" for x
      using key_due [OF heap_ok_least, of ?h x] d that by (auto simp: pending_def q')
    moreover have "finite (evDue ` pending q')" by (simp add: pending_def)
    ultimately have "Min (evDue ` pending q') = evDue (hd ?h)"
      by (intro Min_eqI) (auto intro: rev_image_eqI)
    then show ?thesis using ne p by simp
  qed
  ultimately show ?thesis using p by blast
qed

end
