(* ===== verification/Event_Spec.thy ===== *)
theory Event_Spec
  imports Event_Queue
begin

text \<open>
  The contract of the timer queue of \<^verbatim>\<open>engine/runtime/events.go\<close>: a set of pending timers, and the guarantee that
  a timer that is not cancelled runs.
\<close>

section \<open>The queue as a set of timers\<close>

lemma RunDue_drain:
  assumes "drain now (eqEvents q) [] = (r, h)"
  shows "RunDue call now (q, w) = (length r, fold (\<lambda>e. call (the (evFn e))) r (q\<lparr>eqEvents := h\<rparr>, w))"
  by (simp add: RunDue_def assms)

text \<open>
  C2: The timer queue implements a set of pending timers. Adding inserts a fresh one; cancelling removes the timer
  and says whether it was pending; the next due time is the earliest of them; and running at a time takes out
  exactly the timers due by then and calls the handlers of those that have one, once each, in order of due time
  and then of identifier, after the queue has been brought up to date.
\<close>

theorem EventQueue_refines:
  assumes "queue_ok q"
  shows "(eqNext q \<noteq> -1 \<and> Add due fn q = (i, q1) \<longrightarrow>
      queue_ok q1 \<and> pending q1 = insert (timer i due fn) (pending q) \<and> i \<notin> evId ` pending q) \<and>
    (Cancel j q = (found, q2) \<longrightarrow>
      queue_ok q2 \<and> pending q2 = {e \<in> pending q. evId e \<noteq> j} \<and> (found \<longleftrightarrow> j \<in> evId ` pending q)) \<and>
    (NextDue q = ((t, some), q3) \<longrightarrow>
      queue_ok q3 \<and> pending q3 = pending q \<and> (some \<longleftrightarrow> pending q \<noteq> {}) \<and> (some \<longrightarrow> t = Min (evDue ` pending q))) \<and>
    (\<exists>r q4. RunDue call now (q, w) = (length r, fold (\<lambda>e. call (the (evFn e))) r (q4, w)) \<and>
      queue_ok q4 \<and> pending q4 = {e \<in> pending q. now < evDue e} \<and>
      ev ` set r = {e \<in> pending q. evDue e \<le> now \<and> evFn e \<noteq> None} \<and>
      sorted_wrt (\<lambda>a b. ev_key a < ev_key b) r)"
proof (intro conjI)
  show "eqNext q \<noteq> -1 \<and> Add due fn q = (i, q1) \<longrightarrow>
      queue_ok q1 \<and> pending q1 = insert (timer i due fn) (pending q) \<and> i \<notin> evId ` pending q"
  proof
    assume a: "eqNext q \<noteq> -1 \<and> Add due fn q = (i, q1)"
    note r = Add_ok [OF assms conjunct1 [OF a] conjunct2 [OF a]]
    have "evId ` pending q \<subseteq> evId ` set (eqEvents q)" by (auto simp: pending_def image_iff)
    moreover have "pending q1 = insert (timer i due fn) (pending q)"
      using r by (auto simp: pending_mset timer_def simp del: mset_map)
    ultimately show "queue_ok q1 \<and> pending q1 = insert (timer i due fn) (pending q) \<and> i \<notin> evId ` pending q"
      using r by blast
  qed
  show "Cancel j q = (found, q2) \<longrightarrow>
      queue_ok q2 \<and> pending q2 = {e \<in> pending q. evId e \<noteq> j} \<and> (found \<longleftrightarrow> j \<in> evId ` pending q)"
    using Cancel_ok [OF assms] by blast
  show "NextDue q = ((t, some), q3) \<longrightarrow>
      queue_ok q3 \<and> pending q3 = pending q \<and> (some \<longleftrightarrow> pending q \<noteq> {}) \<and> (some \<longrightarrow> t = Min (evDue ` pending q))"
    using NextDue_ok [OF assms] by blast
  obtain r h where d: "drain now (eqEvents q) [] = (r, h)" by fastforce
  show "\<exists>r q4. RunDue call now (q, w) = (length r, fold (\<lambda>e. call (the (evFn e))) r (q4, w)) \<and>
      queue_ok q4 \<and> pending q4 = {e \<in> pending q. now < evDue e} \<and>
      ev ` set r = {e \<in> pending q. evDue e \<le> now \<and> evFn e \<noteq> None} \<and>
      sorted_wrt (\<lambda>a b. ev_key a < ev_key b) r"
    unfolding RunDue_drain [OF d] using drain_ok [OF assms d]
    by (intro exI [of _ r] exI [of _ "q\<lparr>eqEvents := h\<rparr>"]) (simp only: simp_thms)
qed

lemma NewEventQueue_ok: "queue_ok NewEventQueue" "pending NewEventQueue = {}"
  by (simp_all add: queue_ok_def NewEventQueue_def heap_ok_def heap_on_def pending_def)

theorem EventQueue_refines_witness:
  "\<exists>r q4. RunDue (\<lambda>f s. (fst s, snd s @ [f])) 7 (snd (Add 5 (Some ''a'') NewEventQueue), []) =
      (length r, fold (\<lambda>e s. (fst s, snd s @ [the (evFn e)])) r (q4, [])) \<and>
    ev ` set r = {timer 1 5 (Some ''a'')} \<and> pending q4 = {}"
proof -
  let ?q = "snd (Add 5 (Some ''a'') NewEventQueue)"
  have a: "eqNext NewEventQueue \<noteq> -1 \<and> Add 5 (Some ''a'') NewEventQueue = (1, ?q)"
    by (simp add: NewEventQueue_def Add_def Let_def)
  from EventQueue_refines [OF NewEventQueue_ok(1), of 5 "Some ''a''" 1 ?q, THEN conjunct1] a
  have q: "queue_ok ?q" "pending ?q = {timer 1 5 (Some ''a'')}" by (auto simp: NewEventQueue_ok(2))
  have s: "{e \<in> {timer 1 5 (Some ''a'')}. evDue e \<le> 7 \<and> evFn e \<noteq> None} = {timer 1 5 (Some ''a'')}"
    "{e \<in> {timer 1 5 (Some ''a'')}. 7 < evDue e} = {}" by (auto simp: timer_def)
  show ?thesis
    using EventQueue_refines [OF q(1), where call = "\<lambda>f s. (fst s, snd s @ [f])" and now = 7 and w = "[]",
        THEN conjunct2, THEN conjunct2, THEN conjunct2] unfolding q(2) s by blast
qed

lemma distinct_ids_ev:
  assumes "distinct (map evId h)" "x \<in> ev ` set h" "y \<in> ev ` set h" "evId x = evId y"
  shows "x = y"
proof -
  obtain a b where a: "a \<in> set h" "x = ev a" and b: "b \<in> set h" "y = ev b" using assms(2,3) by blast
  have "inj_on evId (set h)" using assms(1) by (simp add: distinct_map)
  moreover have "evId a = evId b" using assms(4) a b by simp
  ultimately have "a = b" using a b by (meson inj_onD)
  then show ?thesis using a b by simp
qed

section \<open>A timer runs\<close>

text \<open>What other users of the queue and the handlers of other timers do, in the order they take the mutex.\<close>

datatype 'f op = OpAdd int "'f option" | OpCancel u64 | OpRun int | OpNext

fun op_step :: "'f op \<Rightarrow> 'f EventQueue \<Rightarrow> 'f EventQueue" where
  "op_step (OpAdd due fn) q = snd (Add due fn q)"
| "op_step (OpCancel i) q = snd (Cancel i q)"
| "op_step (OpRun now) q = q\<lparr>eqEvents := snd (drain now (eqEvents q) [])\<rparr>"
| "op_step OpNext q = snd (NextDue q)"

text \<open>An operation that leaves the timer alone: it does not cancel it and is not a run at its time.\<close>

fun spares :: "u64 \<Rightarrow> int \<Rightarrow> 'f op \<Rightarrow> bool" where
  "spares i due (OpAdd t fn) \<longleftrightarrow> True"
| "spares i due (OpCancel j) \<longleftrightarrow> j \<noteq> i"
| "spares i due (OpRun now) \<longleftrightarrow> now < due"
| "spares i due OpNext \<longleftrightarrow> True"

fun adds :: "'f op list \<Rightarrow> int" where
  "adds [] = 0"
| "adds (OpAdd t fn # ops) = adds ops + 1"
| "adds (_ # ops) = adds ops"

lemma adds_nonneg: "0 \<le> adds ops"
  by (induction ops rule: adds.induct) auto

definition waiting :: "'f event \<Rightarrow> 'f EventQueue \<Rightarrow> bool" where
  "waiting e q \<longleftrightarrow> queue_ok q \<and> e \<in> pending q"

lemma uint_inc: "uint (n :: u64) + 1 < 2 ^ 64 \<Longrightarrow> n \<noteq> -1 \<and> uint (n + 1) = uint n + 1"
  by (auto simp: uint_plus_simple_iff no_olen_add uint_word_ariths)

lemma op_step_waiting:
  assumes "waiting e q" "spares (evId e) (evDue e) op" "uint (eqNext q) + adds [op] < 2 ^ 64"
  shows "waiting e (op_step op q) \<and> uint (eqNext (op_step op q)) = uint (eqNext q) + adds [op]"
proof (cases op)
  case (OpAdd t fn)
  obtain i q' where a: "Add t fn q = (i, q')" by fastforce
  note n = uint_inc [of "eqNext q"]
  have n1: "eqNext q \<noteq> -1" "uint (eqNext q + 1) = uint (eqNext q) + 1" using n assms(3) OpAdd by auto
  have ok: "queue_ok q" using assms(1) by (simp add: waiting_def)
  note r = Add_ok [OF ok n1(1) a]
  have "pending q' = insert (timer i t fn) (pending q)" using r by (auto simp: pending_mset timer_def simp del: mset_map)
  then show ?thesis using assms(1) r n1 by (auto simp: OpAdd a waiting_def)
next
  case (OpCancel j)
  obtain f q' where c: "Cancel j q = (f, q')" by fastforce
  have "eqNext q' = eqNext q" using c by (auto simp: Cancel_def split: prod.splits)
  then show ?thesis using assms Cancel_ok [OF _ c] by (auto simp: OpCancel c waiting_def)
next
  case (OpRun now)
  obtain r h where d: "drain now (eqEvents q) [] = (r, h)" by fastforce
  show ?thesis using assms drain_ok [OF _ d] by (auto simp: OpRun d waiting_def)
next
  case OpNext
  obtain x q' where c: "NextDue q = (x, q')" by fastforce
  have "eqNext q' = eqNext q" using c by (auto simp: NextDue_def Let_def split: if_splits)
  then show ?thesis using assms NextDue_ok [of q "fst x" "snd x" q'] c by (auto simp: OpNext waiting_def)
qed

lemma ops_waiting:
  assumes "waiting e q" "list_all (spares (evId e) (evDue e)) ops" "uint (eqNext q) + adds ops < 2 ^ 64"
  shows "waiting e (fold op_step ops q)"
  using assms
proof (induction ops arbitrary: q)
  case (Cons op ops)
  have a: "adds (op # ops) = adds [op] + adds ops" by (cases op) auto
  then have "uint (eqNext q) + adds [op] < 2 ^ 64" using Cons.prems(3) adds_nonneg [of ops] by linarith
  with op_step_waiting [OF Cons.prems(1)] Cons.prems(2)
  have "waiting e (op_step op q)" "uint (eqNext (op_step op q)) = uint (eqNext q) + adds [op]" by auto
  then show ?case using Cons.IH [of "op_step op q"] Cons.prems a by simp
qed simp

text \<open>
  C18: A timer that is added is not lost. Whatever is added, cancelled, run and asked meanwhile, as long as the
  timer itself is not cancelled and no run has reached its due time, the first run at or after that time calls
  its handler, exactly once, and no trace of the timer is left in the queue.
\<close>

theorem timer_fires:
  assumes "queue_ok q" and "Add due (Some f) q = (i, q1)" and "uint (eqNext q) + 1 + adds ops < 2 ^ 64"
    and "list_all (spares i due) ops" and "due \<le> now"
    and "RunDue call now (fold op_step ops q1, w) = (n, s)"
  shows "\<exists>r1 (e :: 'f event) r2 q2. s = fold (\<lambda>e. call (the (evFn e))) (r1 @ e # r2) (q2, w) \<and> n = length (r1 @ e # r2) \<and>
    evId e = i \<and> evFn e = Some f \<and> i \<notin> evId ` set (r1 @ r2) \<and> i \<notin> evId ` set (eqEvents q2)"
proof -
  let ?e = "timer i due (Some f)"
  have n: "eqNext q \<noteq> -1" "uint (eqNext q + 1) = uint (eqNext q) + 1"
    using uint_inc [of "eqNext q"] assms(3) adds_nonneg [of ops] by auto
  note a = Add_ok [OF assms(1) n(1) assms(2)]
  have "waiting ?e q1" using a by (auto simp: waiting_def pending_mset timer_def simp del: mset_map)
  then have w: "waiting ?e (fold op_step ops q1)"
    by (rule ops_waiting) (use assms(3,4) a n in \<open>simp_all add: timer_def\<close>)
  let ?q = "fold op_step ops q1"
  obtain r h where d: "drain now (eqEvents ?q) [] = (r, h)" by fastforce
  have ok: "queue_ok ?q" and "?e \<in> pending ?q" using w by (auto simp: waiting_def)
  note k = drain_ok [OF ok d]
  have heap: "heap_ok (eqEvents ?q)" using ok by (simp add: queue_ok_def)
  have "?e \<in> ev ` set r" using k \<open>?e \<in> pending ?q\<close> assms(5) by (simp add: timer_def)
  then obtain e where e: "e \<in> set r" "ev e = ?e" by auto
  then obtain r1 r2 where r: "r = r1 @ e # r2" by (meson split_list)
  have ids: "evId e = i" "evFn e = Some f" "evDue e = due"
    using arg_cong [OF e(2), of evId] arg_cong [OF e(2), of evFn] arg_cong [OF e(2), of evDue] by (simp_all add: timer_def)
  have dist: "distinct (map evId (eqEvents ?q))" using ok by (simp add: queue_ok_def)
  have mem: "x \<in> ev ` set (eqEvents ?q)" if "x \<in> ev ` set r" for x
    using k that by (auto simp: pending_def)
  have same: "x = y" if "x \<in> ev ` set (eqEvents ?q)" "y \<in> ev ` set (eqEvents ?q)" "evId x = evId y" for x y
    by (rule distinct_ids_ev [OF dist that])
  have "i \<notin> evId ` set (r1 @ r2)"
  proof
    assume "i \<in> evId ` set (r1 @ r2)"
    then obtain x where x: "x \<in> set (r1 @ r2)" "evId x = i" by auto
    then have "ev x = ev e" using mem [of "ev x"] mem [of "ev e"] ids by (intro same) (auto simp: r)
    then have "ev_key x = ev_key e" by (metis ev_key_ev)
    moreover have "ev_key x \<noteq> ev_key e" using k x by (auto simp: r sorted_wrt_append)
    ultimately show False by blast
  qed
  moreover have "i \<notin> evId ` set h"
  proof
    assume "i \<in> evId ` set h"
    then obtain x where x: "x \<in> set h" "evId x = i" by auto
    have "mset (map ev h) = {#e \<in># mset (map ev (eqEvents ?q)). now < evDue e#}"
      using drain_exact [OF heap queue_keys_distinct [OF ok] d] by blast
    from arg_cong [OF this, of set_mset] have h: "ev ` set h = {e \<in> ev ` set (eqEvents ?q). now < evDue e}" by simp
    then have "ev x \<in> {e \<in> ev ` set (eqEvents ?q). now < evDue e}" using x by blast
    moreover have "ev x = ev e"
      using h x ids mem [of "ev e"] e(1) by (intro same) auto
    ultimately show False using ids assms(5) by auto
  qed
  ultimately show ?thesis
    using assms(6) ids unfolding RunDue_drain [OF d]
    by (intro exI [of _ r1] exI [of _ e] exI [of _ r2] exI [of _ "?q\<lparr>eqEvents := h\<rparr>"]) (auto simp: r)
qed

theorem timer_fires_witness:
  "\<exists>r1 (e :: string event) r2 q2. snd (RunDue (\<lambda>f s. (fst s, snd s @ [f])) 9
        (fold op_step [OpAdd 1 None, OpRun 4, OpCancel 2, OpNext] (snd (Add 5 (Some ''a'') NewEventQueue)), [])) =
      fold (\<lambda>e s. (fst s, snd s @ [the (evFn e)])) (r1 @ e # r2) (q2, []) \<and>
    evId e = 1 \<and> evFn e = Some ''a'' \<and> 1 \<notin> evId ` set (r1 @ r2) \<and> 1 \<notin> evId ` set (eqEvents q2)"
proof -
  let ?q = "snd (Add 5 (Some ''a'') NewEventQueue)"
  let ?ops = "[OpAdd 1 None, OpRun 4, OpCancel 2, OpNext]"
  have a: "Add 5 (Some ''a'') NewEventQueue = (1, ?q)" "uint (eqNext NewEventQueue) + 1 + adds ?ops < 2 ^ 64"
    by (simp_all add: NewEventQueue_def Add_def Let_def)
  have l: "list_all (spares 1 5) ?ops" "(5::int) \<le> 9" by simp_all
  obtain n s where r: "RunDue (\<lambda>f s. (fst s, snd s @ [f])) 9 (fold op_step ?ops ?q, []) = (n, s)" by (rule prod.exhaust)
  show ?thesis using timer_fires [OF NewEventQueue_ok(1) a l r] unfolding r snd_conv by blast
qed

end
