(* ===== verification/Srp6.thy ===== *)
theory Srp6
  imports Frames
begin

text \<open>
  \<^verbatim>\<open>engine/crypto/srp6.go\<close> and \<^verbatim>\<open>totp.go\<close>: the password proof of the login and the one-time token. Fixed-size
  arrays are lists. A source of random bytes is a stream that \<open>io.ReadFull\<close> reads. Big integers
  are integers; \<open>big_exp\<close> is \<open>big.Int.Exp\<close> for an exponent and a modulus that are not negative.
\<close>

section \<open>Big integers\<close>

definition big_SetBytes :: "bytes \<Rightarrow> int" where
  "big_SetBytes d = foldl (\<lambda>n b. n * 256 + uint b) 0 d"

text \<open>The bytes of a number, least significant first, and \<open>big.Int.Bytes\<close>.\<close>

fun le_digits :: "int \<Rightarrow> bytes" where
  "le_digits n = (if n \<le> 0 then [] else word_of_int (n mod 256) # le_digits (n div 256))"

declare le_digits.simps [simp del]

definition big_Bytes :: "int \<Rightarrow> bytes" where
  "big_Bytes n = rev (le_digits n)"

definition big_exp :: "int \<Rightarrow> int \<Rightarrow> int \<Rightarrow> int" where
  "big_exp x y m = x ^ nat y mod m"

section \<open>SRP6\<close>

abbreviation (input) SRP6SaltLength :: nat where "SRP6SaltLength \<equiv> 32"
abbreviation (input) SRP6EphemeralLength :: nat where "SRP6EphemeralLength \<equiv> 32"

definition srpModulus :: int where
  "srpModulus = 0x894B645E89E1535BBDAD5B8B290650530801B18EBFBF5E8FAB3C82872A3E9BB7"

definition srpGenerator :: int where
  "srpGenerator = 7"

definition hash :: "bytes list \<Rightarrow> bytes" where
  "hash parts = sha1 (concat parts)"

definition littleInt :: "bytes \<Rightarrow> int" where
  "littleInt d = big_SetBytes (rev d)"

definition littleBytes :: "int \<Rightarrow> nat \<Rightarrow> bytes" where
  "littleBytes val n =
     (let bs = big_Bytes val in
      map (\<lambda>i. if i < length bs \<and> i < n then bs ! (length bs - 1 - i) else 0) [0..<32])"

text \<open>Leading zero bytes are dropped in pairs.\<close>

definition interleave :: "bytes \<Rightarrow> bytes" where
  "interleave S =
     (let even = map (\<lambda>i. S ! (2 * i)) [0..<16];
          odd = map (\<lambda>i. S ! (2 * i + 1)) [0..<16];
          p = length (takeWhile (\<lambda>b. b = 0) S);
          p = (if p mod 2 \<noteq> 0 then p + 1 else p) div 2;
          h0 = hash [drop p even];
          h1 = hash [drop p odd] in
      concat (map (\<lambda>i. [h0 ! i, h1 ! i]) [0..<20]))"

definition calculateVerifier :: "gostring \<Rightarrow> gostring \<Rightarrow> bytes \<Rightarrow> bytes" where
  "calculateVerifier username password salt =
     (let inner = hash [username, [58], password];
          x = littleInt (hash [salt, inner]) in
      littleBytes (big_exp srpGenerator x srpModulus) 32)"

definition MakeRegistrationDataWithReader :: "gostring \<Rightarrow> gostring \<Rightarrow> bytes \<Rightarrow> go_error + (bytes \<times> bytes)" where
  "MakeRegistrationDataWithReader username password reader =
     (case fst (ReadFull SRP6SaltLength reader) of
        Inl e \<Rightarrow> Inl e
      | Inr salt \<Rightarrow> Inr (salt, calculateVerifier username password salt))"

definition CheckLogin :: "gostring \<Rightarrow> gostring \<Rightarrow> bytes \<Rightarrow> bytes \<Rightarrow> bool" where
  "CheckLogin username password salt verifier \<longleftrightarrow> calculateVerifier username password salt = verifier"

definition SRP6ModulusBytes :: bytes where
  "SRP6ModulusBytes = littleBytes srpModulus SRP6EphemeralLength"

definition SRP6GeneratorBytes :: bytes where
  "SRP6GeneratorBytes = [7]"

definition SessionVerifier :: "bytes \<Rightarrow> bytes \<Rightarrow> bytes \<Rightarrow> bytes" where
  "SessionVerifier A clientM sessionKey = hash [A, clientM, sessionKey]"

definition ng_hash :: bytes where
  "ng_hash = map2 (XOR) (hash [littleBytes srpModulus SRP6EphemeralLength]) (hash [[7]])"

definition MakeClientProof ::
    "gostring \<Rightarrow> gostring \<Rightarrow> bytes \<Rightarrow> bytes \<Rightarrow> bytes \<Rightarrow> go_error + (bytes \<times> bytes \<times> bytes)" where
  "MakeClientProof username password salt B privateKey =
     (if privateKey = [] then Inl (Err ''SRP6 client private key is empty'')
      else
        let a = littleInt privateKey;
            A = littleBytes (big_exp srpGenerator a srpModulus) SRP6EphemeralLength;
            u = littleInt (hash [A, B]);
            inner = hash [username, [58], password];
            x = littleInt (hash [salt, inner]);
            base = (littleInt B - 3 * big_exp srpGenerator x srpModulus) mod srpModulus;
            exponent = a + u * x;
            shared = littleBytes (big_exp base exponent srpModulus) SRP6EphemeralLength;
            K = interleave shared;
            M = hash [ng_hash, hash [username], salt, A, B, K] in
        Inr (A, M, K))"

record SRP6 =
  srUsername :: gostring
  srSalt :: bytes
  srVerifier :: bytes
  srPrivate :: int
  srB :: bytes
  srUsed :: bool

definition NewSRP6WithReader :: "gostring \<Rightarrow> bytes \<Rightarrow> bytes \<Rightarrow> bytes \<Rightarrow> go_error + SRP6" where
  "NewSRP6WithReader username salt verifier reader =
     (case fst (ReadFull SRP6EphemeralLength reader) of
        Inl e \<Rightarrow> Inl e
      | Inr bBytes \<Rightarrow>
          let b = littleInt bBytes;
              val = big_exp srpGenerator b srpModulus;
              val = val + 3 * littleInt verifier;
              val = val mod srpModulus in
          Inr \<lparr>srUsername = username, srSalt = salt, srVerifier = verifier, srPrivate = b,
               srB = littleBytes val SRP6EphemeralLength, srUsed = False\<rparr>)"

definition no_key :: bytes where
  "no_key = replicate 40 0"

definition VerifyChallengeResponse ::
    "bytes \<Rightarrow> bytes \<Rightarrow> SRP6 option \<Rightarrow> (go_error + (bytes \<times> bool)) \<times> SRP6 option" where
  "VerifyChallengeResponse A clientM r =
     (case r of
        None \<Rightarrow> (Inl (Err ''nil SRP6 state''), None)
      | Some s \<Rightarrow>
          if srUsed s then (Inl (Err ''SRP6 state already used''), Some s)
          else
            let s = s\<lparr>srUsed := True\<rparr>;
                a = littleInt A in
            if a mod srpModulus = 0 then (Inr (no_key, False), Some s)
            else
              let u = littleInt (hash [A, srB s]);
                  v = littleInt (srVerifier s);
                  base = a * big_exp v u srpModulus;
                  S = big_exp base (srPrivate s) srpModulus;
                  shared = littleBytes S SRP6EphemeralLength;
                  K = interleave shared;
                  ourM = hash [ng_hash, hash [srUsername s], srSalt s, A, srB s, K] in
              if ourM \<noteq> clientM then (Inr (no_key, False), Some s)
              else (Inr (K, True), Some s))"

section \<open>Numbers and bytes\<close>

lemma big_SetBytes_append: "big_SetBytes (xs @ [b]) = big_SetBytes xs * 256 + uint b"
  by (simp add: big_SetBytes_def)

lemma littleInt_simps [simp]: "littleInt [] = 0" "littleInt (b # bs) = uint b + 256 * littleInt bs"
  by (simp_all add: littleInt_def big_SetBytes_append) (simp add: big_SetBytes_def)

lemma littleInt_nonneg [simp]: "0 \<le> littleInt bs"
  by (induction bs) simp_all

lemma littleInt_bound: "littleInt bs < 256 ^ length bs"
proof (induction bs)
  case (Cons b bs)
  have "uint b < 256" using uint_lt2p [of b] by simp
  then show ?case using Cons by simp
qed simp

lemma littleInt_append: "littleInt (xs @ ys) = littleInt xs + 256 ^ length xs * littleInt ys"
  by (induction xs) (simp_all add: algebra_simps)

lemma littleInt_zeros [simp]: "littleInt (replicate n 0) = 0"
  by (induction n) simp_all

lemma littleInt_le_digits: "0 \<le> n \<Longrightarrow> littleInt (le_digits n) = n"
proof (induction n rule: le_digits.induct)
  case (1 n)
  show ?case
  proof (cases "n = 0")
    case False
    then have "0 < n" using 1 by simp
    moreover have "uint (word_of_int (n mod 256) :: u8) = n mod 256" by (simp add: uint_word_of_int)
    ultimately show ?thesis using 1 by (simp add: le_digits.simps [of n])
  qed (simp add: le_digits.simps)
qed

lemma length_le_digits: "n < 256 ^ k \<Longrightarrow> length (le_digits n) \<le> k"
proof (induction k arbitrary: n)
  case 0
  then show ?case by (simp add: le_digits.simps)
next
  case (Suc k)
  moreover have "n < 256 * m \<Longrightarrow> n div 256 < m" for m :: int by presburger
  ultimately have "n div 256 < 256 ^ k" by simp
  then show ?case using Suc.IH [of "n div 256"] by (simp add: le_digits.simps [of n])
qed

lemma littleBytes_pad:
  assumes "length (le_digits n) \<le> 32"
  shows "littleBytes n 32 = le_digits n @ replicate (32 - length (le_digits n)) 0"
proof (rule nth_equalityI)
  fix i assume "i < length (littleBytes n 32)"
  then have "i < 32" by (simp add: littleBytes_def Let_def)
  then show "littleBytes n 32 ! i = (le_digits n @ replicate (32 - length (le_digits n)) 0) ! i"
    by (simp add: littleBytes_def Let_def big_Bytes_def rev_nth nth_append)
qed (use assms in \<open>simp add: littleBytes_def Let_def\<close>)

lemma littleInt_littleBytes:
  assumes "0 \<le> n" "n < 256 ^ 32"
  shows "littleInt (littleBytes n 32) = n"
  using littleBytes_pad [OF length_le_digits [OF assms(2)]] assms(1)
  by (simp add: littleInt_append littleInt_le_digits)

lemma length_littleBytes [simp]: "length (littleBytes n k) = 32"
  by (simp add: littleBytes_def Let_def)

lemma length_interleave [simp]: "length (interleave S) = 40"
  by (simp add: interleave_def Let_def length_concat comp_def sum_list_triv)

lemma length_hash [simp]: "length (hash ps) = 20"
  by (simp add: hash_def)

lemma modulus_pos: "0 < srpModulus" "srpModulus < 256 ^ 32"
  by (simp_all add: srpModulus_def)

lemma modulus_range: "0 \<le> n mod srpModulus" "n mod srpModulus < 256 ^ 32"
  using pos_mod_bound [OF modulus_pos(1), of n] pos_mod_sign [OF modulus_pos(1), of n] modulus_pos(2) by linarith+

lemma residue_bytes [simp]: "littleInt (littleBytes (n mod srpModulus) 32) = n mod srpModulus"
  by (rule littleInt_littleBytes [OF modulus_range])

section \<open>Both sides compute the same key\<close>

lemma exp_mod [simp]: "big_exp (x mod m) y m = big_exp x y m" "big_exp x y m mod m = big_exp x y m"
  by (simp_all add: big_exp_def power_mod)

lemma big_exp_bytes [simp]: "littleInt (littleBytes (big_exp x y srpModulus) 32) = big_exp x y srpModulus"
  unfolding big_exp_def by (rule residue_bytes)

lemma generator_coprime: "coprime srpGenerator srpModulus"
proof -
  have "srpModulus mod 7 = 4" by (simp add: srpModulus_def)
  then have "gcd srpModulus 7 = gcd 7 4" using gcd_red_int [of srpModulus 7] by simp
  also have "\<dots> = 1" by code_simp
  finally show ?thesis by (simp add: srpGenerator_def coprime_iff_gcd_eq_1 gcd.commute)
qed

text \<open>No power of the generator is zero, so an honest client is never turned away for \<open>A = 0\<close>.\<close>

lemma generator_power_nonzero: "big_exp srpGenerator a srpModulus \<noteq> 0"
proof
  assume "big_exp srpGenerator a srpModulus = 0"
  then have "srpModulus dvd srpGenerator ^ nat a" by (simp add: big_exp_def mod_eq_0_iff_dvd)
  moreover have "coprime srpModulus (srpGenerator ^ nat a)"
    using generator_coprime by (simp add: coprime_commute)
  ultimately have "is_unit srpModulus" by (metis coprime_def dvd_refl)
  then have "srpModulus \<le> 1" by (rule zdvd_imp_le) simp
  then show False by (simp add: srpModulus_def)
qed

text \<open>The premaster secret: what the client raises to its exponent and what the server raises to its own.\<close>

lemma premaster:
  fixes a b u x :: int
  assumes "0 \<le> a" "0 \<le> b" "0 \<le> u" "0 \<le> x"
  defines "g \<equiv> \<lambda>y. big_exp srpGenerator y srpModulus"
  shows "big_exp (((g b + 3 * g x) mod srpModulus - 3 * g x) mod srpModulus) (a + u * x) srpModulus =
    big_exp (g a * big_exp (g x) u srpModulus) b srpModulus"
proof -
  have "((g b + 3 * g x) mod srpModulus - 3 * g x) mod srpModulus = (g b + 3 * g x - 3 * g x) mod srpModulus"
    by (rule mod_diff_left_eq)
  also have "\<dots> = g b mod srpModulus" by simp
  finally have l: "big_exp (((g b + 3 * g x) mod srpModulus - 3 * g x) mod srpModulus) (a + u * x) srpModulus =
      srpGenerator ^ (nat b * (nat a + nat u * nat x)) mod srpModulus"
    using assms(1-4) by (simp add: g_def) (simp add: big_exp_def power_mod power_mult nat_add_distrib nat_mult_distrib)
  have "g a * big_exp (g x) u srpModulus mod srpModulus = srpGenerator ^ (nat a + nat u * nat x) mod srpModulus"
    by (simp add: g_def big_exp_def power_mod power_add power_mult mod_mult_eq mult.commute [of "nat u"])
  then have "big_exp (g a * big_exp (g x) u srpModulus) b srpModulus =
      (srpGenerator ^ (nat a + nat u * nat x)) ^ nat b mod srpModulus"
    by (metis big_exp_def power_mod)
  also have "\<dots> = srpGenerator ^ (nat b * (nat a + nat u * nat x)) mod srpModulus"
    by (simp add: power_mult [symmetric] mult.commute)
  finally show ?thesis using l by simp
qed

lemma verifier_number:
  "littleInt (calculateVerifier username password salt) =
    big_exp srpGenerator (littleInt (hash [salt, hash [username, [58], password]])) srpModulus"
  by (simp add: calculateVerifier_def)

lemma srp6_keys_agree:
  assumes "NewSRP6WithReader username salt (calculateVerifier username password salt) rnd = Inr s"
    and "MakeClientProof username password salt (srB s) privateKey = Inr (A, M, K)"
  shows "VerifyChallengeResponse A M (Some s) = (Inr (K, True), Some (s\<lparr>srUsed := True\<rparr>))"
proof -
  obtain bs where bs: "fst (ReadFull 32 rnd) = Inr bs" using assms(1) by (auto simp: NewSRP6WithReader_def split: sum.splits)
  let ?b = "littleInt bs" and ?a = "littleInt privateKey"
  let ?x = "littleInt (hash [salt, hash [username, [58], password]])"
  let ?g = "\<lambda>y. big_exp srpGenerator y srpModulus"
  have s: "s = \<lparr>srUsername = username, srSalt = salt, srVerifier = calculateVerifier username password salt,
      srPrivate = ?b, srB = littleBytes ((?g ?b + 3 * ?g ?x) mod srpModulus) 32, srUsed = False\<rparr>"
    using assms(1) bs by (simp add: NewSRP6WithReader_def Let_def verifier_number)
  have A: "A = littleBytes (?g ?a) 32"
    using assms(2) by (simp add: MakeClientProof_def Let_def split: if_splits)
  let ?u = "littleInt (hash [A, srB s])"
  have B: "littleInt (srB s) = (?g ?b + 3 * ?g ?x) mod srpModulus" by (simp add: s)
  let ?S = "big_exp ((littleInt (srB s) - 3 * ?g ?x) mod srpModulus) (?a + ?u * ?x) srpModulus"
  have K: "K = interleave (littleBytes ?S 32)"
    and M: "M = hash [ng_hash, hash [username], salt, A, srB s, K]"
    using assms(2) by (auto simp: MakeClientProof_def Let_def A [symmetric] split: if_splits)
  have S: "?S = big_exp (littleInt A * big_exp (?g ?x) ?u srpModulus) ?b srpModulus"
    unfolding B by (simp only: A big_exp_bytes) (rule premaster; simp)
  have "littleInt A mod srpModulus \<noteq> 0" by (simp add: A generator_power_nonzero)
  then show ?thesis
    using M unfolding K S by (simp add: VerifyChallengeResponse_def Let_def s verifier_number)
qed

text \<open>
  C7: A client that knows the password logs in: for every salt, server and client secret, the server accepts its
  proof and holds the same session key. No other proof is accepted for the same \<open>A\<close>, none at all for an \<open>A\<close> that is zero
  modulo the prime, and after one attempt, good or bad, the challenge is spent.
\<close>

theorem srp6_login:
  assumes "MakeRegistrationDataWithReader username password rnd0 = Inr (salt, verifier)"
    and "NewSRP6WithReader username salt verifier rnd = Inr s"
    and "MakeClientProof username password salt (srB s) privateKey = Inr (A, M, K)"
  shows "fst (VerifyChallengeResponse A M (Some s)) = Inr (K, True) \<and> length K = 40 \<and>
    (\<forall>M'. M' \<noteq> M \<longrightarrow> fst (VerifyChallengeResponse A M' (Some s)) = Inr (no_key, False)) \<and>
    (\<forall>A' M'. littleInt A' mod srpModulus = 0 \<longrightarrow> fst (VerifyChallengeResponse A' M' (Some s)) = Inr (no_key, False)) \<and>
    (\<forall>A' M' A'' M''. fst (VerifyChallengeResponse A'' M'' (snd (VerifyChallengeResponse A' M' (Some s)))) =
      Inl (Err ''SRP6 state already used''))"
proof -
  have v: "verifier = calculateVerifier username password salt"
    using assms(1) by (auto simp: MakeRegistrationDataWithReader_def split: sum.splits)
  have fresh: "\<not> srUsed s" using assms(2) by (auto simp: NewSRP6WithReader_def Let_def split: sum.splits)
  note ok = srp6_keys_agree [OF assms(2) [unfolded v] assms(3)]
  have "length K = 40" using assms(3) by (auto simp: MakeClientProof_def Let_def split: if_splits)
  moreover have "\<forall>M'. M' \<noteq> M \<longrightarrow> fst (VerifyChallengeResponse A M' (Some s)) = Inr (no_key, False)"
    using ok fresh by (auto simp: VerifyChallengeResponse_def Let_def split: if_splits)
  moreover have "\<forall>A' M'. littleInt A' mod srpModulus = 0 \<longrightarrow> fst (VerifyChallengeResponse A' M' (Some s)) = Inr (no_key, False)"
    using fresh by (simp add: VerifyChallengeResponse_def)
  moreover have "\<forall>A' M' A'' M''. fst (VerifyChallengeResponse A'' M'' (snd (VerifyChallengeResponse A' M' (Some s)))) =
      Inl (Err ''SRP6 state already used'')"
    using fresh by (simp add: VerifyChallengeResponse_def Let_def)
  ultimately show ?thesis using ok by simp
qed

theorem srp6_login_witness:
  "\<exists>salt verifier s A M K. NewSRP6WithReader [85] salt verifier (replicate 32 3) = Inr s \<and>
    MakeClientProof [85] [80] salt (srB s) [5] = Inr (A, M, K) \<and> fst (VerifyChallengeResponse A M (Some s)) = Inr (K, True)"
proof -
  obtain salt verifier where r: "MakeRegistrationDataWithReader [85] [80] (replicate 32 9) = Inr (salt, verifier)"
    by (simp add: MakeRegistrationDataWithReader_def ReadFull_def)
  obtain s where s: "NewSRP6WithReader [85] salt verifier (replicate 32 3) = Inr s"
    by (simp add: NewSRP6WithReader_def ReadFull_def Let_def)
  obtain A M K where c: "MakeClientProof [85] [80] salt (srB s) [5] = Inr (A, M, K)"
    by (simp add: MakeClientProof_def Let_def)
  show ?thesis using srp6_login [OF r s c] s c by blast
qed

section \<open>One-time tokens\<close>

definition TOTPInterval :: int where
  "TOTPInterval = 30 * 1000000000"

text \<open>\<open>binary.BigEndian.PutUint64\<close>.\<close>

definition be64 :: "u64 \<Rightarrow> bytes" where
  "be64 w = map (\<lambda>i. ucast (drop_bit (8 * i) w)) (rev [0..<8])"

definition GenerateTOTP :: "bytes \<Rightarrow> int \<Rightarrow> u32" where
  "GenerateTOTP secret timestamp =
     (let counter = (word_of_int (timestamp div 1000000000) :: u64) div 30;
          digest = hmac_sha1 secret (be64 counter);
          offset = unat (digest ! (length digest - 1) AND 0x0f);
          val = push_bit 24 (ucast (digest ! offset)) OR push_bit 16 (ucast (digest ! (offset + 1))) OR
                push_bit 8 (ucast (digest ! (offset + 2))) OR ucast (digest ! (offset + 3)) in
      (val AND 0x7fffffff) mod 1000000)"

definition ValidateTOTP :: "bytes \<Rightarrow> u32 \<Rightarrow> int \<Rightarrow> bool" where
  "ValidateTOTP secret token now =
     (if token \<ge> 1000000 then False
      else \<exists>offset \<in> set [- TOTPInterval, 0, TOTPInterval]. token = GenerateTOTP secret (now + offset))"

end
