(* ===== verification/Auth_Session.thy ===== *)
theory Auth_Session
  imports Srp6
begin

text \<open>
  \<^verbatim>\<open>engine/auth/server.go\<close>: a session of the login server. A client sends a challenge and a proof, or reconnects with
  the key of its last login, and may then ask for the realm list. The connection is the bytes that will still
  arrive, the packets written so far and whether writing still works; the statements sent to the database are
  recorded in order. What the database, the geographic table, AES and \<open>net.ParseIP\<close> answer is a record of
  functions.
\<close>

section \<open>Strings\<close>

text \<open>
  Ranging over a string decodes UTF-8; a byte that does not start a valid sequence gives the replacement
  character. A rune is kept as its encoding.
\<close>

definition cont :: "nat \<Rightarrow> u8 \<Rightarrow> u8 \<Rightarrow> bytes \<Rightarrow> bool" where
  "cont k lo hi bs \<longleftrightarrow> k < length bs \<and> lo \<le> bs ! k \<and> bs ! k \<le> hi"

definition rune_width :: "bytes \<Rightarrow> nat" where
  "rune_width bs =
     (let b = bs ! 0 in
      if b < 0x80 then 1
      else if 0xC2 \<le> b \<and> b \<le> 0xDF \<and> cont 1 0x80 0xBF bs then 2
      else if 0xE0 \<le> b \<and> b \<le> 0xEF \<and>
        cont 1 (if b = 0xE0 then 0xA0 else 0x80) (if b = 0xED then 0x9F else 0xBF) bs \<and> cont 2 0x80 0xBF bs then 3
      else if 0xF0 \<le> b \<and> b \<le> 0xF4 \<and>
        cont 1 (if b = 0xF0 then 0x90 else 0x80) (if b = 0xF4 then 0x8F else 0xBF) bs \<and>
        cont 2 0x80 0xBF bs \<and> cont 3 0x80 0xBF bs then 4
      else 0)"

function runes :: "bytes \<Rightarrow> bytes list" where
  "runes bs =
     (if bs = [] then []
      else let n = rune_width bs in
        if n = 0 then [0xEF, 0xBF, 0xBD] # runes (tl bs) else take n bs # runes (drop n bs))"
  by pat_completeness auto
termination by (relation "measure length") auto

declare runes.simps [simp del]

definition upperOnlyLatin :: "gostring \<Rightarrow> gostring" where
  "upperOnlyLatin s =
     concat (map (\<lambda>r. case r of [b] \<Rightarrow> [if 0x61 \<le> b \<and> b \<le> 0x7A then b - 0x20 else b] | _ \<Rightarrow> r) (runes s))"

definition reverseCode :: "gostring \<Rightarrow> gostring" where
  "reverseCode s = concat (rev (runes s))"

definition ascii :: "string \<Rightarrow> gostring" where
  "ascii s = map of_char s"

definition localeID :: "gostring \<Rightarrow> u8" where
  "localeID v =
     (let codes = map ascii [''enUS'', ''koKR'', ''frFR'', ''deDE'', ''zhCN'', ''zhTW'', ''esES'', ''esMX'', ''ruRU''];
          i = length (takeWhile (\<lambda>c. c \<noteq> v) codes) in
      if i < length codes then of_nat i else 0)"

text \<open>The value of \<open>atoi\<close> is only used modulo \<open>2 ^ 32\<close>, so the wrap of its 64-bit sum does not show.\<close>

definition atoi :: "gostring \<Rightarrow> int" where
  "atoi s =
     (let s = dropWhile (\<lambda>c. c \<in> {32, 9, 10, 13, 12, 11}) s;
          neg = (s \<noteq> [] \<and> hd s = 45);
          s = (if s \<noteq> [] \<and> (hd s = 43 \<or> hd s = 45) then tl s else s);
          n = foldl (\<lambda>n c. n * 10 + (uint c - 48)) 0 (takeWhile (\<lambda>c. 48 \<le> c \<and> c \<le> 57) s) in
      if neg then - n else n)"

section \<open>The state\<close>

abbreviation (input) logonChallenge :: u8 where "logonChallenge \<equiv> 0x00"
abbreviation (input) logonProof :: u8 where "logonProof \<equiv> 0x01"
abbreviation (input) reconnectChallenge :: u8 where "reconnectChallenge \<equiv> 0x02"
abbreviation (input) reconnectProof :: u8 where "reconnectProof \<equiv> 0x03"
abbreviation (input) realmList :: u8 where "realmList \<equiv> 0x10"
abbreviation (input) wowSuccess :: u8 where "wowSuccess \<equiv> 0x00"
abbreviation (input) wowBanned :: u8 where "wowBanned \<equiv> 0x03"
abbreviation (input) wowUnknownAccount :: u8 where "wowUnknownAccount \<equiv> 0x04"
abbreviation (input) wowDBBusy :: u8 where "wowDBBusy \<equiv> 0x08"
abbreviation (input) wowVersionInvalid :: u8 where "wowVersionInvalid \<equiv> 0x09"
abbreviation (input) wowSuspended :: u8 where "wowSuspended \<equiv> 0x0c"
abbreviation (input) wowLockedEnforced :: u8 where "wowLockedEnforced \<equiv> 0x10"
abbreviation (input) wowUnlockableLock :: u8 where "wowUnlockableLock \<equiv> 0x19"
abbreviation (input) preBCMaxBuild :: u32 where "preBCMaxBuild \<equiv> 6141"

datatype auth_status = statusChallenge | statusProof | statusReconnectProof | statusAuthed | statusClosed

definition versionChallenge :: bytes where
  "versionChallenge = [0xBA, 0xA3, 0x1E, 0x99, 0xA0, 0x0B, 0x21, 0x57, 0xFC, 0x37, 0x3F, 0xB3, 0x69, 0xCD, 0xD2, 0xF1]"

record account =
  acID :: u32
  acLogin :: gostring
  acLocked :: bool
  acLockCountry :: gostring
  acLastIP :: gostring
  acFailedLogins :: u32
  acSecurity :: u8
  acBanned :: bool
  acPermanentBan :: bool
  acTotpConfigured :: bool
  acTotpSecret :: bytes
  acSalt :: bytes
  acVerifier :: bytes

definition no_account :: account where
  "no_account = \<lparr>acID = 0, acLogin = [], acLocked = False, acLockCountry = [], acLastIP = [], acFailedLogins = 0,
     acSecurity = 0, acBanned = False, acPermanentBan = False, acTotpConfigured = False, acTotpSecret = [],
     acSalt = replicate 32 0, acVerifier = replicate 32 0\<rparr>"

record buildInfo =
  biBuild :: u32
  biMajor :: u8
  biMinor :: u8
  biBugfix :: u8
  biWindowsHash :: bytes
  biMacHash :: bytes

record auth_config =
  cfWrongPassMaxCount :: u32
  cfWrongPassBanTime :: u32
  cfWrongPassBanType :: bool
  cfWrongPassLogging :: bool
  cfStrictVersionCheck :: bool
  cfHasTotpMasterKey :: bool
  cfRealmAddress :: gostring

text \<open>The columns of the two account statements; a nullable column is an option.\<close>

record account_row =
  rwID :: u32
  rwLogin :: gostring
  rwLocked :: u64
  rwLockCountry :: gostring
  rwLastIP :: gostring
  rwFailed :: u64
  rwBanned :: "int option"
  rwPermanent :: "int option"
  rwSecurity :: "int option"

record challenge_row = account_row +
  rwTotp :: "bytes option"
  rwSalt :: bytes
  rwVerifier :: bytes

record reconnect_row = account_row +
  rwSessionKey :: bytes

text \<open>What the outside answers at the moment of a command; no row is \<open>None\<close>.\<close>

record auth_env =
  evAccount :: "gostring \<Rightarrow> go_error + challenge_row option"
  evReconnect :: "gostring \<Rightarrow> go_error + reconnect_row option"
  evBuildInfo :: "u32 \<Rightarrow> go_error + buildInfo option"
  evCountry :: "gostring \<Rightarrow> gostring"
  evDecryptTOTP :: "bytes \<Rightarrow> go_error + bytes"
  evRandom :: bytes
  evNow :: int

datatype auth_exec = UPD_LOGONPROOF bytes gostring u8 gostring gostring
  | INS_FALP_IP_LOGGING u32 gostring
  | UPD_FAILEDLOGINS gostring
  | INS_ACCOUNT_AUTO_BANNED u32 u32
  | INS_IP_AUTO_BANNED gostring u32

record auth_session =
  ssStatus :: auth_status
  ssAccount :: account
  ssSrp :: "SRP6 option"
  ssBuildInfo :: "buildInfo option"
  ssKey :: bytes
  ssReconnectProof :: bytes
  ssBuild :: u32
  ssPostBC :: bool
  ssLogin :: gostring
  ssRemoteIP :: gostring
  ssOs :: gostring
  ssLocale :: u8
  ssTotpRequired :: bool
  ssIn :: bytes
  ssOut :: "bytes list"
  ssOpen :: bool
  ssExec :: "auth_exec list"

definition new_session :: "gostring \<Rightarrow> bytes \<Rightarrow> bool \<Rightarrow> auth_session" where
  "new_session remoteIP input writable = \<lparr>ssStatus = statusChallenge, ssAccount = no_account, ssSrp = None,
     ssBuildInfo = None, ssKey = no_key, ssReconnectProof = replicate 16 0, ssBuild = 0, ssPostBC = False, ssLogin = [],
     ssRemoteIP = remoteIP, ssOs = [], ssLocale = 0, ssTotpRequired = False, ssIn = input, ssOut = [],
     ssOpen = writable, ssExec = []\<rparr>"

section \<open>Actions of a handler\<close>

type_synonym 'a act = "auth_session \<Rightarrow> (go_error + 'a) \<times> auth_session"

definition act_bind :: "'a act \<Rightarrow> ('a \<Rightarrow> 'b act) \<Rightarrow> 'b act" where
  "act_bind m f s = (case m s of (Inl e, s') \<Rightarrow> (Inl e, s') | (Inr x, s') \<Rightarrow> f x s')"

definition act_ret :: "'a \<Rightarrow> 'a act" where
  "act_ret x s = (Inr x, s)"

definition act_fail :: "go_error \<Rightarrow> 'a act" where
  "act_fail e s = (Inl e, s)"

text \<open>\<open>io.ReadFull\<close> on the connection, \<open>writePacket\<close>, a statement whose result is ignored, and a step of the session.\<close>

definition read_full :: "nat \<Rightarrow> bytes act" where
  "read_full n s = (case ReadFull n (ssIn s) of (r, rest) \<Rightarrow> (r, s\<lparr>ssIn := rest\<rparr>))"

definition writePacket :: "bytes \<Rightarrow> unit act" where
  "writePacket d s =
     (if ssOpen s then (Inr (), s\<lparr>ssOut := ssOut s @ [d]\<rparr>) else (Inl (Err ''write''), s))"

definition try_write :: "bytes \<Rightarrow> unit act" where
  "try_write d s = (Inr (), snd (writePacket d s))"

definition exec_statement :: "auth_exec \<Rightarrow> unit act" where
  "exec_statement e s = (Inr (), s\<lparr>ssExec := ssExec s @ [e]\<rparr>)"

definition modify :: "(auth_session \<Rightarrow> auth_session) \<Rightarrow> unit act" where
  "modify f s = (Inr (), f s)"

definition get_session :: "auth_session act" where
  "get_session s = (Inr s, s)"

definition lift_result :: "go_error + 'a \<Rightarrow> 'a act" where
  "lift_result r s = (r, s)"

definition act_seq :: "unit act \<Rightarrow> 'b act \<Rightarrow> 'b act" where
  "act_seq m k = act_bind m (\<lambda>_. k)"

definition set_status :: "auth_status \<Rightarrow> unit act" where
  "set_status st = modify (\<lambda>s. s\<lparr>ssStatus := st\<rparr>)"

section \<open>The challenge packet\<close>

definition readChallenge :: "(u32 \<times> gostring \<times> gostring \<times> u8) act" where
  "readChallenge =
     act_bind (read_full 3) (\<lambda>prefix.
       let size = unat (of_le_bytes (drop 1 prefix) :: u16) in
       if size < 30 \<or> size > 47 then act_fail (Err ''invalid logon challenge size'')
       else act_bind (read_full size) (\<lambda>body.
         if length body < 30 \<or> unat (body ! 29) + 30 \<noteq> size
         then act_fail (Err ''invalid logon challenge login length'')
         else
           let build = ucast (of_le_bytes (take 2 (drop 7 body)) :: u16);
               login = take (unat (body ! 29)) (drop 30 body);
               osField = takeWhile (\<lambda>c. c \<noteq> 0) (take 4 (drop 13 body));
               osName = reverseCode osField;
               locale = localeID (reverseCode (take 4 (drop 17 body))) in
           act_ret (build, login, osName, locale)))"

definition start_challenge :: "u32 \<times> gostring \<times> gostring \<times> u8 \<Rightarrow> auth_session \<Rightarrow> auth_session" where
  "start_challenge c s =
     (case c of (build, login, osName, locale) \<Rightarrow>
        s\<lparr>ssBuild := build, ssPostBC := build > preBCMaxBuild, ssLogin := upperOnlyLatin login, ssOs := osName,
          ssLocale := locale\<rparr>)"

section \<open>Accounts\<close>

definition nullable :: "int option \<Rightarrow> int" where
  "nullable v = (case v of None \<Rightarrow> 0 | Some n \<Rightarrow> n)"

definition row_account :: "'a account_row_scheme \<Rightarrow> account" where
  "row_account r = no_account
     \<lparr>acID := rwID r, acLogin := rwLogin r, acLocked := rwLocked r \<noteq> 0, acLockCountry := rwLockCountry r,
      acLastIP := rwLastIP r, acFailedLogins := ucast (rwFailed r), acSecurity := word_of_int (nullable (rwSecurity r)),
      acBanned := nullable (rwBanned r) \<noteq> 0, acPermanentBan := nullable (rwPermanent r) \<noteq> 0\<rparr>"

definition loadAccount :: "auth_env \<Rightarrow> gostring \<Rightarrow> go_error + account option" where
  "loadAccount env login =
     (case evAccount env login of
        Inl e \<Rightarrow> Inl e
      | Inr None \<Rightarrow> Inr None
      | Inr (Some r) \<Rightarrow>
          if length (rwSalt r) \<noteq> SRP6SaltLength \<or> length (rwVerifier r) \<noteq> 32
          then Inl (Err ''account SRP6 data has invalid length'')
          else Inr (Some ((row_account r)
            \<lparr>acTotpConfigured := rwTotp r \<noteq> None, acTotpSecret := (case rwTotp r of None \<Rightarrow> [] | Some t \<Rightarrow> t),
             acLogin := upperOnlyLatin (rwLogin r), acSalt := rwSalt r, acVerifier := rwVerifier r\<rparr>)))"

text \<open>\<open>CountryLockMismatch\<close> of \<^verbatim>\<open>engine/iplocation/iplocation.go\<close>.\<close>

definition CountryLockMismatch :: "bool \<Rightarrow> gostring \<Rightarrow> gostring \<Rightarrow> bool" where
  "CountryLockMismatch ipLocked lockCountry ipCountry \<longleftrightarrow>
     \<not> ipLocked \<and> lockCountry \<noteq> [] \<and> lockCountry \<noteq> ascii ''00'' \<and> ipCountry \<noteq> [] \<and> lockCountry \<noteq> ipCountry"

text \<open>The checks between the account and the challenge answer: the code of the refusal, if any.\<close>

definition refuse_account :: "auth_env \<Rightarrow> account \<Rightarrow> gostring \<Rightarrow> u8 option" where
  "refuse_account env ac remoteIP =
     (if acLocked ac \<and> acLastIP ac \<noteq> remoteIP then Some wowLockedEnforced
      else if CountryLockMismatch (acLocked ac) (acLockCountry ac) (evCountry env remoteIP) then Some wowUnlockableLock
      else if acBanned ac then Some (if acPermanentBan ac then wowBanned else wowSuspended)
      else None)"

section \<open>The logon challenge\<close>

definition challenge_answer :: "SRP6 \<Rightarrow> account \<Rightarrow> bytes" where
  "challenge_answer srp ac = Bytes (writes
     [WriteU8 logonChallenge, WriteU8 0, WriteU8 wowSuccess, Write (srB srp), WriteU8 1, Write SRP6GeneratorBytes,
      WriteU8 (of_nat SRP6EphemeralLength), Write SRP6ModulusBytes, Write (acSalt ac), Write versionChallenge,
      if acTotpConfigured ac then writes [WriteU8 4, WriteU8 1] else WriteU8 0] (NewBuffer 96))"

definition issue_challenge :: "auth_env \<Rightarrow> unit act" where
  "issue_challenge env =
     act_bind get_session (\<lambda>s.
     act_bind (lift_result (evBuildInfo env (ssBuild s))) (\<lambda>info.
       case info of
         None \<Rightarrow> writePacket [logonChallenge, 0, wowVersionInvalid]
       | Some i \<Rightarrow>
           act_seq (modify (\<lambda>s. s\<lparr>ssBuildInfo := Some i\<rparr>))
           (act_bind (lift_result (NewSRP6WithReader (acLogin (ssAccount s)) (acSalt (ssAccount s))
                (acVerifier (ssAccount s)) (evRandom env))) (\<lambda>srp.
              act_seq (modify (\<lambda>s. s\<lparr>ssSrp := Some srp\<rparr>))
              (act_seq (modify (\<lambda>s. if acTotpConfigured (ssAccount s) then s\<lparr>ssTotpRequired := True\<rparr> else s))
              (act_seq (set_status statusProof)
                (writePacket (challenge_answer srp (ssAccount s)))))))))"

definition totp_secret :: "auth_config \<Rightarrow> auth_env \<Rightarrow> unit act \<Rightarrow> unit act" where
  "totp_secret cfg env k =
     act_bind get_session (\<lambda>s.
       if cfHasTotpMasterKey cfg \<and> acTotpConfigured (ssAccount s) then
         case evDecryptTOTP env (acTotpSecret (ssAccount s)) of
           Inl e \<Rightarrow> act_seq (writePacket [logonChallenge, 0, wowDBBusy])
                      (act_fail (Err ''invalid stored TOTP secret ciphertext''))
         | Inr t \<Rightarrow> act_seq (modify (\<lambda>s. s\<lparr>ssAccount := (ssAccount s)\<lparr>acTotpSecret := t\<rparr>\<rparr>)) k
       else k)"

definition handleLogonChallenge :: "auth_config \<Rightarrow> auth_env \<Rightarrow> unit act" where
  "handleLogonChallenge cfg env =
     act_bind get_session (\<lambda>s0.
     if ssStatus s0 \<noteq> statusChallenge then act_fail (Err ''unexpected logon challenge'')
     else act_seq (set_status statusClosed)
       (act_bind readChallenge (\<lambda>c.
        act_seq (modify (start_challenge c))
        (act_bind get_session (\<lambda>s.
          case loadAccount env (ssLogin s) of
            Inl e \<Rightarrow> writePacket [logonChallenge, 0, wowUnknownAccount]
          | Inr None \<Rightarrow> writePacket [logonChallenge, 0, wowUnknownAccount]
          | Inr (Some loaded) \<Rightarrow>
              act_seq (modify (\<lambda>s. s\<lparr>ssAccount := loaded\<rparr>))
              (case refuse_account env loaded (ssRemoteIP s) of
                 Some code \<Rightarrow> writePacket [logonChallenge, 0, code]
               | None \<Rightarrow> totp_secret cfg env (issue_challenge env)))))))"

section \<open>The version proof\<close>

definition verifyVersionProof :: "auth_config \<Rightarrow> auth_session \<Rightarrow> bytes \<Rightarrow> bytes \<Rightarrow> bool \<Rightarrow> bool" where
  "verifyVersionProof cfg s input proof reconnect =
     (if \<not> cfStrictVersionCheck cfg then True
      else
        let matches = (\<lambda>versionHash. length proof = 20 \<and> sha1 (input @ versionHash) = proof) in
        if reconnect then matches (replicate 20 0)
        else case ssBuildInfo s of
          None \<Rightarrow> False
        | Some i \<Rightarrow>
            if ssOs s \<noteq> ascii ''Win'' \<and> ssOs s \<noteq> ascii ''OSX'' then False
            else
              let h = (if ssOs s = ascii ''Win'' then biWindowsHash i else biMacHash i);
                  versionHash = take 20 h @ replicate (20 - length h) 0 in
              if biWindowsHash i = [] \<and> biMacHash i = [] then True
              else if list_all (\<lambda>b. b = 0) versionHash then True
              else matches versionHash)"

section \<open>The logon proof\<close>

definition recordFailedLogin :: "auth_config \<Rightarrow> unit act" where
  "recordFailedLogin cfg =
     act_bind get_session (\<lambda>s.
     act_seq (if cfWrongPassLogging cfg
              then exec_statement (INS_FALP_IP_LOGGING (acID (ssAccount s)) (ssRemoteIP s)) else act_ret ())
     (if cfWrongPassMaxCount cfg = 0 then act_ret ()
      else
        act_seq (exec_statement (UPD_FAILEDLOGINS (acLogin (ssAccount s))))
        (act_seq (modify (\<lambda>s. s\<lparr>ssAccount := (ssAccount s)\<lparr>acFailedLogins := acFailedLogins (ssAccount s) + 1\<rparr>\<rparr>))
        (act_bind get_session (\<lambda>s.
           if acFailedLogins (ssAccount s) < cfWrongPassMaxCount cfg then act_ret ()
           else
             let banTime = (if cfWrongPassBanTime cfg = 0 then 600 else cfWrongPassBanTime cfg) in
             exec_statement (if cfWrongPassBanType cfg then INS_ACCOUNT_AUTO_BANNED (acID (ssAccount s)) banTime
                             else INS_IP_AUTO_BANNED (ssRemoteIP s) banTime))))))"

text \<open>The token that follows the proof: read only when it is announced and expected.\<close>

definition read_token :: "auth_env \<Rightarrow> bool \<Rightarrow> bool act" where
  "read_token env sentToken =
     act_bind get_session (\<lambda>s.
       if sentToken \<and> ssTotpRequired s then
         act_bind (read_full 1) (\<lambda>n.
         act_bind (read_full (unat (n ! 0))) (\<lambda>tokenData.
           act_ret (ValidateTOTP (acTotpSecret (ssAccount s)) (word_of_int (atoi tokenData)) (evNow env))))
       else act_ret (\<not> sentToken \<and> \<not> ssTotpRequired s))"

definition proof_answer :: "bool \<Rightarrow> bytes \<Rightarrow> bytes" where
  "proof_answer postBC m2 = Bytes (writes
     ([WriteU8 logonProof, WriteU8 wowSuccess, Write m2] @
      (if postBC then [WriteU32 0x00800000, WriteU32 0, WriteU16 0] else [WriteU32 0])) (NewBuffer 32))"

text \<open>The last part of \<open>handleLogonProof\<close>, from the version proof on.\<close>

definition finish_proof :: "auth_config \<Rightarrow> bytes \<Rightarrow> bytes \<Rightarrow> bytes \<Rightarrow> unit act" where
  "finish_proof cfg A clientM crc =
     act_bind get_session (\<lambda>s.
       if \<not> verifyVersionProof cfg s A crc False then try_write [logonProof, wowVersionInvalid]
       else
         act_seq (exec_statement (UPD_LOGONPROOF (ssKey s) (ssRemoteIP s) (ssLocale s) (ssOs s) (acLogin (ssAccount s))))
         (act_seq (writePacket (proof_answer (ssPostBC s) (SessionVerifier A clientM (ssKey s))))
           (set_status statusAuthed)))"

definition verify_proof :: "bytes \<Rightarrow> bytes \<Rightarrow> (bytes \<times> bool) act" where
  "verify_proof A clientM =
     act_bind get_session (\<lambda>s.
       case VerifyChallengeResponse A clientM (ssSrp s) of
         (r, srp) \<Rightarrow> act_seq (modify (\<lambda>s. s\<lparr>ssSrp := srp\<rparr>)) (lift_result r))"

definition handleLogonProof :: "auth_config \<Rightarrow> auth_env \<Rightarrow> unit act" where
  "handleLogonProof cfg env =
     act_bind get_session (\<lambda>s0.
     if ssStatus s0 \<noteq> statusProof \<or> ssSrp s0 = None then act_fail (Err ''unexpected logon proof'')
     else act_seq (set_status statusClosed)
       (act_bind (read_full 74) (\<lambda>d.
          let A = take 32 d; clientM = take 20 (drop 32 d); sentToken = has_flag (d ! 73) 0x04 in
          act_bind (verify_proof A clientM) (\<lambda>(key, ok).
            if \<not> ok then
              act_seq (try_write [logonProof, wowUnknownAccount, 0, 0]) (recordFailedLogin cfg)
            else
              act_seq (modify (\<lambda>s. s\<lparr>ssKey := key\<rparr>))
              (act_bind (read_token env sentToken) (\<lambda>tokenSuccess.
                 if \<not> tokenSuccess then try_write [logonProof, wowUnknownAccount, 0, 0]
                 else finish_proof cfg A clientM (take 20 (drop 52 d))))))))"

section \<open>Reconnecting\<close>

definition handleReconnectChallenge :: "auth_env \<Rightarrow> unit act" where
  "handleReconnectChallenge env =
     act_bind get_session (\<lambda>s0.
     if ssStatus s0 \<noteq> statusChallenge then act_fail (Err ''unexpected reconnect challenge'')
     else act_seq (set_status statusClosed)
       (act_bind readChallenge (\<lambda>c.
        act_seq (modify (start_challenge c))
        (act_bind get_session (\<lambda>s.
          case evReconnect env (ssLogin s) of
            Inl e \<Rightarrow> writePacket [reconnectChallenge, wowUnknownAccount]
          | Inr None \<Rightarrow> writePacket [reconnectChallenge, wowUnknownAccount]
          | Inr (Some r) \<Rightarrow>
              if length (rwSessionKey r) \<noteq> 40 then writePacket [reconnectChallenge, wowUnknownAccount]
              else
                act_seq (modify (\<lambda>s. s\<lparr>ssKey := rwSessionKey r\<rparr>))
                (act_bind (lift_result (fst (ReadFull 16 (evRandom env)))) (\<lambda>p.
                 act_seq (modify (\<lambda>s. s\<lparr>ssReconnectProof := p, ssAccount := row_account r\<rparr>))
                 (act_seq (set_status statusReconnectProof)
                   (writePacket (Bytes (writes [WriteU8 reconnectChallenge, WriteU8 wowSuccess, Write p,
                      Write versionChallenge] (NewBuffer 34))))))))))))"

definition handleReconnectProof :: "auth_config \<Rightarrow> unit act" where
  "handleReconnectProof cfg =
     act_bind get_session (\<lambda>s0.
     if ssStatus s0 \<noteq> statusReconnectProof then act_fail (Err ''unexpected reconnect proof'')
     else act_seq (set_status statusClosed)
       (act_bind (read_full 57) (\<lambda>d.
        act_bind get_session (\<lambda>s.
          let r1 = take 16 d; r2 = take 20 (drop 16 d) in
          if hash [acLogin (ssAccount s), r1, ssReconnectProof s, ssKey s] \<noteq> r2
          then act_fail (Err ''invalid reconnect proof'')
          else if \<not> verifyVersionProof cfg s r1 (take 20 (drop 36 d)) True
          then try_write [reconnectProof, wowVersionInvalid]
          else act_seq (writePacket [reconnectProof, wowSuccess, 0, 0]) (set_status statusAuthed)))))"

end
