(* ===== verification/Auth_Realms.thy ===== *)
theory Auth_Realms
  imports Auth_Session
begin

text \<open>
  \<^verbatim>\<open>engine/auth/server.go\<close>, the realm list: loading and normalizing the realms, the address a client is told, the
  packet, and the dispatch of the commands of a session. \<open>net.ParseIP\<close> and \<open>net.ResolveIPAddr\<close> are functions of
  the environment; a parsed address is an IPv4 word, or the sixteen bytes of an IPv6 address.
\<close>

section \<open>Addresses\<close>

datatype ip_addr = IPv4 u32 | IPv6 bytes

definition IsLoopback :: "ip_addr \<Rightarrow> bool" where
  "IsLoopback ip = (case ip of IPv4 w \<Rightarrow> drop_bit 24 w = 127 | IPv6 bs \<Rightarrow> bs = replicate 15 0 @ [1])"

definition To4 :: "ip_addr option \<Rightarrow> u32 option" where
  "To4 ip = (case ip of Some (IPv4 w) \<Rightarrow> Some w | _ \<Rightarrow> None)"

definition loopback :: "ip_addr option \<Rightarrow> bool" where
  "loopback ip = (case ip of None \<Rightarrow> False | Some a \<Rightarrow> IsLoopback a)"

record realm =
  rlID :: u32
  rlName :: gostring
  rlAddress :: gostring
  rlLocalAddress :: gostring
  rlLocalSubnetMask :: gostring
  rlPort :: u16
  rlIcon :: u8
  rlFlags :: u32
  rlTimezone :: u8
  rlAllowedSecurityLevel :: u8
  rlPopulation :: f32
  rlBuild :: u32

definition realmAddressForClient :: "(gostring \<Rightarrow> ip_addr option) \<Rightarrow> realm \<Rightarrow> gostring \<Rightarrow> gostring" where
  "realmAddressForClient ParseIP r clientIP =
     (let client = ParseIP clientIP; local = ParseIP (rlLocalAddress r); external = ParseIP (rlAddress r) in
      if loopback client then
        if loopback local \<or> loopback external then clientIP
        else if rlLocalAddress r \<noteq> [] then rlLocalAddress r
        else rlAddress r
      else
        case (To4 client, To4 local, To4 (ParseIP (rlLocalSubnetMask r))) of
          (Some c, Some l, Some sm) \<Rightarrow> if c AND sm = l AND sm then rlLocalAddress r else rlAddress r
        | _ \<Rightarrow> rlAddress r)"

section \<open>The realms\<close>

abbreviation (input) realmFlagOffline :: u32 where "realmFlagOffline \<equiv> 0x02"
abbreviation (input) realmFlagSpecifyBuild :: u32 where "realmFlagSpecifyBuild \<equiv> 0x04"

definition realmBuildCompatible :: "bool \<Rightarrow> u32 \<Rightarrow> u32 \<Rightarrow> bool \<Rightarrow> bool" where
  "realmBuildCompatible postBC clientBuild realmBuild buildInfoAvailable =
     (if postBC then realmBuild = clientBuild else \<not> (realmBuild \<le> preBCMaxBuild \<and> buildInfoAvailable))"

text \<open>The row of the statement; the population may be absent.\<close>

record realm_env =
  reRows :: "go_error + (realm \<times> f32 option) list"
  reResolve :: "gostring \<Rightarrow> go_error + gostring"
  reParseIP :: "gostring \<Rightarrow> ip_addr option"
  reCounts :: "go_error + (u32, int) gomap"
  reBuilds :: "go_error + (u32, buildInfo) gomap"

definition realm_icon :: "u8 \<Rightarrow> u8" where
  "realm_icon icon = (let icon = (if icon = 16 then 1 else icon) in if icon \<ge> 14 then 0 else icon)"

definition load_realm :: "(gostring \<Rightarrow> go_error + gostring) \<Rightarrow> realm \<times> f32 option \<Rightarrow> realm option" where
  "load_realm resolve row =
     (let r = (case row of (r, None) \<Rightarrow> r\<lparr>rlPopulation := 0\<rparr> | (r, Some p) \<Rightarrow> r\<lparr>rlPopulation := p\<rparr>);
          r = r\<lparr>rlIcon := realm_icon (rlIcon r)\<rparr> in
      case (resolve (rlAddress r), resolve (rlLocalAddress r), resolve (rlLocalSubnetMask r)) of
        (Inr address, Inr localAddress, Inr subnetMask) \<Rightarrow>
          Some (r\<lparr>rlAddress := address, rlLocalAddress := localAddress, rlLocalSubnetMask := subnetMask,
            rlAllowedSecurityLevel := (if rlAllowedSecurityLevel r > 3 then 3 else rlAllowedSecurityLevel r)\<rparr>)
      | _ \<Rightarrow> None)"

definition loadRealms :: "realm_env \<Rightarrow> go_error + realm list" where
  "loadRealms re =
     (case reRows re of
        Inl e \<Rightarrow> Inl e
      | Inr rows \<Rightarrow> Inr (sort_key rlID (map the (filter (\<lambda>r. r \<noteq> None) (map (load_realm (reResolve re)) rows)))))"

section \<open>The packet\<close>

text \<open>\<open>net.JoinHostPort\<close>.\<close>

definition JoinHostPort :: "gostring \<Rightarrow> gostring \<Rightarrow> gostring" where
  "JoinHostPort host port =
     (if 58 \<in> set host then [91] @ host @ [93, 58] @ port else host @ [58] @ port)"

definition no_build :: buildInfo where
  "no_build = \<lparr>biBuild = 0, biMajor = 0, biMinor = 0, biBugfix = 0, biWindowsHash = [], biMacHash = []\<rparr>"

definition realm_flags :: "auth_session \<Rightarrow> buildInfo option \<Rightarrow> realm \<Rightarrow> u32" where
  "realm_flags s build r =
     (let flags = rlFlags r;
          flags = (if \<not> realmBuildCompatible (ssPostBC s) (ssBuild s) (rlBuild r) (build \<noteq> None)
                   then flags OR (realmFlagOffline OR realmFlagSpecifyBuild) else flags) in
      if build = None then flags AND NOT realmFlagSpecifyBuild else flags)"

definition write_realm ::
    "auth_config \<Rightarrow> realm_env \<Rightarrow> (u32, int) gomap \<Rightarrow> (u32, buildInfo) gomap \<Rightarrow> auth_session \<Rightarrow> realm \<Rightarrow> writer" where
  "write_realm cfg re counts builds s r =
     (let exists = gget builds (rlBuild r);
          build = (case exists of None \<Rightarrow> no_build | Some b \<Rightarrow> b);
          flags = realm_flags s exists r;
          name = (if \<not> ssPostBC s \<and> has_flag flags realmFlagSpecifyBuild
                  then rlName r @ [32, 40] @ decimal (unat (biMajor build)) @ [46] @ decimal (unat (biMinor build)) @
                       [46] @ decimal (unat (biBugfix build)) @ [41]
                  else rlName r);
          lock = (if rlAllowedSecurityLevel r > acSecurity (ssAccount s) then 1 else 0);
          address = (if cfRealmAddress cfg = [] then realmAddressForClient (reParseIP re) r (ssRemoteIP s)
                     else cfRealmAddress cfg);
          address = JoinHostPort address (decimal (unat (rlPort r))) in
      writes
        [WriteU8 (rlIcon r), write_if (ssPostBC s) (WriteU8 lock), WriteU8 (ucast flags), WriteCString name,
         WriteCString address, WriteF32 (rlPopulation r),
         WriteU8 (word_of_int (case gget counts (rlID r) of None \<Rightarrow> 0 | Some n \<Rightarrow> n)), WriteU8 (rlTimezone r),
         if ssPostBC s then WriteU8 (ucast (rlID r)) else WriteU8 0,
         write_if (ssPostBC s \<and> has_flag flags realmFlagSpecifyBuild)
           (writes [WriteU8 (biMajor build), WriteU8 (biMinor build), WriteU8 (biBugfix build),
                    WriteU16 (ucast (biBuild build))])])"

definition listed :: "(u32, buildInfo) gomap \<Rightarrow> auth_session \<Rightarrow> realm \<Rightarrow> bool" where
  "listed builds s r \<longleftrightarrow>
     (let exists = gget builds (rlBuild r) \<noteq> None in
      realmBuildCompatible (ssPostBC s) (ssBuild s) (rlBuild r) exists \<or> exists)"

definition realm_list_packet ::
    "auth_config \<Rightarrow> realm_env \<Rightarrow> (u32, int) gomap \<Rightarrow> (u32, buildInfo) gomap \<Rightarrow> realm list \<Rightarrow> auth_session \<Rightarrow> bytes" where
  "realm_list_packet cfg re counts builds realms s =
     (let shown = filter (listed builds s) realms;
          payload = writes (map (write_realm cfg re counts builds s) shown @
            (if ssPostBC s then [WriteU8 0x10, WriteU8 0] else [WriteU8 0, WriteU8 2])) (NewBuffer 256);
          sizeLen = (if ssPostBC s then 6 else 8) in
      Bytes (writes
        [WriteU8 realmList, WriteU16 (of_nat (Len payload + sizeLen)), WriteU32 0,
         if ssPostBC s then WriteU16 (of_nat (length shown)) else WriteU32 (of_nat (length shown)),
         Write (Bytes payload)] (NewBuffer (int (Len payload) + 8))))"

definition handleRealmList :: "auth_config \<Rightarrow> realm_env \<Rightarrow> unit act" where
  "handleRealmList cfg re =
     act_bind get_session (\<lambda>s0.
     if ssStatus s0 \<noteq> statusAuthed then act_fail (Err ''unexpected realm list request'')
     else
       act_bind (read_full 4) (\<lambda>padding.
       act_bind (lift_result (loadRealms re)) (\<lambda>realms.
       act_bind (lift_result (reBuilds re)) (\<lambda>builds.
       act_bind get_session (\<lambda>s.
         let counts = (case reCounts re of Inl e \<Rightarrow> [] | Inr c \<Rightarrow> c) in
         writePacket (realm_list_packet cfg re counts builds realms s))))))"

section \<open>The session\<close>

text \<open>The switch of \<open>Handle\<close>; \<open>None\<close> is the default arm, which discards what is pending.\<close>

definition auth_command :: "auth_config \<Rightarrow> auth_env \<Rightarrow> realm_env \<Rightarrow> u8 \<Rightarrow> unit act option" where
  "auth_command cfg env re cmd =
     (if cmd = logonChallenge then Some (handleLogonChallenge cfg env)
      else if cmd = logonProof then Some (handleLogonProof cfg env)
      else if cmd = realmList then Some (handleRealmList cfg re)
      else if cmd = reconnectChallenge then Some (handleReconnectChallenge env)
      else if cmd = reconnectProof then Some (handleReconnectProof cfg)
      else None)"

text \<open>
  One turn of the loop of \<open>Handle\<close>: a command byte is read and its handler runs against whatever the environment
  answers then; \<open>discardPending\<close> drops as much as happens to arrive in its ten milliseconds. A handler that fails
  ends the session, and so does a connection without a command byte.
\<close>

definition serve :: "auth_config \<Rightarrow> auth_env \<Rightarrow> realm_env \<Rightarrow> nat \<Rightarrow> auth_session \<Rightarrow> (go_error + unit) \<times> auth_session" where
  "serve cfg env re pend =
     act_bind (read_full 1) (\<lambda>cmd.
       case auth_command cfg env re (cmd ! 0) of
         Some handler \<Rightarrow> handler
       | None \<Rightarrow> modify (\<lambda>s. s\<lparr>ssIn := drop pend (ssIn s)\<rparr>))"

section \<open>The frame of the realm list\<close>

lemma write_realm_Write: "\<exists>e. e \<noteq> [] \<and> write_realm cfg re counts builds s r = Write e"
proof -
  have "\<exists>e. e \<noteq> [] \<and> (\<forall>b. write_realm cfg re counts builds s r b = Write e b)"
    unfolding write_realm_def Let_def
    by (cases "ssPostBC s") (simp_all add: writer_simps write_if_def del: Write_Nil; blast)+
  then show ?thesis by (metis ext)
qed

lemma length_concat_ge: "(\<And>x. x \<in> set xs \<Longrightarrow> f x \<noteq> []) \<Longrightarrow> length xs \<le> length (concat (map f xs))"
  by (induction xs) (simp_all add: Suc_le_eq trans_le_add2 add_strict_increasing)

text \<open>
  The frame of a realm list is exact: the size that a client reads is the number of bytes that follow it, and the count
  is the number of realms listed, both in the form of old and of new clients, whenever the packet is small enough for its
  16-bit size.
\<close>

theorem realm_list_frames:
  assumes "p = realm_list_packet cfg re counts builds realms s" "length p < 2 ^ 16 + 3"
  shows "9 \<le> length p \<and> p ! 0 = realmList \<and> unat (of_le_bytes (take 2 (drop 1 p)) :: u16) = length (drop 3 p) \<and>
    (if ssPostBC s then unat (of_le_bytes (take 2 (drop 7 p)) :: u16) = length (filter (listed builds s) realms)
     else unat (of_le_bytes (take 4 (drop 7 p)) :: u32) = length (filter (listed builds s) realms))"
proof -
  let ?shown = "filter (listed builds s) realms"
  obtain f where f: "\<And>r. f r \<noteq> [] \<and> write_realm cfg re counts builds s r = Write (f r)" using write_realm_Write by metis
  have fw: "write_realm cfg re counts builds s = (\<lambda>r. Write (f r))" using f by auto
  let ?payload = "concat (map f ?shown) @ (if ssPostBC s then [0x10, 0] else [0, 2])"
  have payload: "Bytes (writes (map (write_realm cfg re counts builds s) ?shown @
      (if ssPostBC s then [WriteU8 0x10, WriteU8 0] else [WriteU8 0, WriteU8 2])) (NewBuffer 256)) = ?payload"
    by (simp add: fw writes_map_Write writer_simps)
  have n: "length ?shown \<le> length (concat (map f ?shown))" using f by (intro length_concat_ge) simp
  define k where "k = length ?payload + (if ssPostBC s then 6 else 8)"
  have p: "p = 0x10 # le_bytes 2 (of_nat k :: u16) @ [0, 0, 0, 0] @
      (if ssPostBC s then le_bytes 2 (of_nat (length ?shown) :: u16) else le_bytes 4 (of_nat (length ?shown) :: u32)) @ ?payload"
    using payload
    by (simp only: assms(1) realm_list_packet_def Let_def Len_def Bytes_def [symmetric] k_def) (simp add: writer_simps le_bytes_def upt_rec)
  have len: "length p = 3 + k" by (simp add: p k_def)
  then have k: "unat (of_nat k :: u16) = k" "6 \<le> k" using assms(2) by (simp_all add: unat_of_nat) (simp add: k_def)
  have "length ?shown \<le> k" using n by (simp add: k_def)
  then have "unat (of_nat (length ?shown) :: u16) = length ?shown" "unat (of_nat (length ?shown) :: u32) = length ?shown"
    using len assms(2) by (simp_all add: unat_of_nat)
  moreover have "p ! 0 = 0x10" "take 2 (drop 1 p) = le_bytes 2 (of_nat k :: u16)"
    "ssPostBC s \<Longrightarrow> take 2 (drop 7 p) = le_bytes 2 (of_nat (length ?shown) :: u16)"
    "\<not> ssPostBC s \<Longrightarrow> take 4 (drop 7 p) = le_bytes 4 (of_nat (length ?shown) :: u32)"
    by (simp_all add: p)
  ultimately show ?thesis using k len by simp
qed

theorem realm_list_frames_witness:
  "\<exists>p. p = realm_list_packet
      \<lparr>cfWrongPassMaxCount = 0, cfWrongPassBanTime = 600, cfWrongPassBanType = False, cfWrongPassLogging = False,
       cfStrictVersionCheck = False, cfHasTotpMasterKey = False, cfRealmAddress = []\<rparr>
      \<lparr>reRows = Inr [], reResolve = Inr, reParseIP = (\<lambda>_. None), reCounts = Inr [], reBuilds = Inr []\<rparr> [] [] []
      (new_session [] [] True) \<and> unat (of_le_bytes (take 2 (drop 1 p)) :: u16) = length (drop 3 p)"
proof -
  define p where "p = realm_list_packet
      \<lparr>cfWrongPassMaxCount = 0, cfWrongPassBanTime = 600, cfWrongPassBanType = False, cfWrongPassLogging = False,
       cfStrictVersionCheck = False, cfHasTotpMasterKey = False, cfRealmAddress = []\<rparr>
      \<lparr>reRows = Inr [], reResolve = Inr, reParseIP = (\<lambda>_. None), reCounts = Inr [], reBuilds = Inr []\<rparr> [] [] []
      (new_session [] [] True)"
  have "length p < 2 ^ 16 + 3"
    by (simp add: p_def realm_list_packet_def Let_def new_session_def writer_simps)
  with p_def have "unat (of_le_bytes (take 2 (drop 1 p)) :: u16) = length (drop 3 p)"
    using realm_list_frames by blast
  then show ?thesis unfolding p_def by blast
qed

end
