(* ===== verification/Auth_Spec.thy ===== *)
theory Auth_Spec
  imports Auth_Realms
begin

text \<open>
  What a login session of \<^verbatim>\<open>engine/auth/server.go\<close> promises: nobody is authenticated without a proof, and a client with
  the right password is.
\<close>

section \<open>Actions\<close>

named_theorems act_simps

lemma act_bind_Inr [act_simps]:
  "act_bind m f s = (Inr y, s'') \<longleftrightarrow> (\<exists>x s'. m s = (Inr x, s') \<and> f x s' = (Inr y, s''))"
  by (auto simp: act_bind_def split: prod.splits sum.splits)

lemma act_seq_Inr [act_simps]:
  "act_seq m k s = (Inr y, s'') \<longleftrightarrow> (\<exists>s'. m s = (Inr (), s') \<and> k s' = (Inr y, s''))"
  by (simp add: act_seq_def act_bind_Inr)

lemma act_base_Inr [act_simps]:
  "act_ret x s = (Inr y, s') \<longleftrightarrow> y = x \<and> s' = s"
  "\<not> act_fail e s = (Inr y', s')"
  "get_session s = (Inr y, s') \<longleftrightarrow> y = s \<and> s' = s" for y :: auth_session
  by (auto simp: act_ret_def act_fail_def get_session_def)

lemma act_state_Inr [act_simps]:
  "modify f s = (Inr (), s') \<longleftrightarrow> s' = f s"
  "set_status st s = (Inr (), s') \<longleftrightarrow> s' = s\<lparr>ssStatus := st\<rparr>"
  "exec_statement e s = (Inr (), s') \<longleftrightarrow> s' = s\<lparr>ssExec := ssExec s @ [e]\<rparr>"
  "lift_result r s = (Inr z, s') \<longleftrightarrow> r = Inr z \<and> s' = s"
  by (auto simp: modify_def set_status_def exec_statement_def lift_result_def)

lemma act_ret_Inr [act_simps]: "act_ret x s = (Inr y, s') \<longleftrightarrow> y = x \<and> s' = s"
  by (auto simp: act_ret_def)

lemma writePacket_Inr [act_simps]:
  "writePacket d s = (Inr (), s') \<longleftrightarrow> ssOpen s \<and> s' = s\<lparr>ssOut := ssOut s @ [d]\<rparr>"
  by (auto simp: writePacket_def)

lemma try_write_Inr [act_simps]:
  "try_write d s = (Inr (), s') \<longleftrightarrow> s' = (if ssOpen s then s\<lparr>ssOut := ssOut s @ [d]\<rparr> else s)"
  by (auto simp: try_write_def writePacket_def)

lemma read_full_Inr [act_simps]:
  "read_full n s = (Inr d, s') \<longleftrightarrow>
     n \<le> length (ssIn s) \<and> d = take n (ssIn s) \<and> s' = s\<lparr>ssIn := drop n (ssIn s)\<rparr>"
  by (auto simp: read_full_def ReadFull_def)

text \<open>Reading the challenge only moves in the input.\<close>

lemma readChallenge_frame: "readChallenge s = (Inr c, s') \<Longrightarrow> s' = s\<lparr>ssIn := ssIn s'\<rparr>"
  by (auto simp: readChallenge_def Let_def act_simps split: if_splits)

section \<open>What the state of a session means\<close>

definition challenge_ok :: "auth_session \<Rightarrow> bool" where
  "challenge_ok s \<longleftrightarrow>
     (\<exists>srp. ssSrp s = Some srp \<and> \<not> srUsed srp \<and> srUsername srp = acLogin (ssAccount s) \<and>
        srSalt srp = acSalt (ssAccount s) \<and> srVerifier srp = acVerifier (ssAccount s)) \<and>
     ssTotpRequired s = acTotpConfigured (ssAccount s) \<and>
     \<not> acBanned (ssAccount s) \<and> (if acLocked (ssAccount s) then acLastIP (ssAccount s) = ssRemoteIP s else True)"

definition session_ok :: "auth_session \<Rightarrow> bool" where
  "session_ok s \<longleftrightarrow>
     (case ssStatus s of
        statusChallenge \<Rightarrow> \<not> ssTotpRequired s
      | statusProof \<Rightarrow> challenge_ok s
      | statusReconnectProof \<Rightarrow> length (ssKey s) = 40
      | _ \<Rightarrow> True)"

lemma NewSRP6_fields:
  "NewSRP6WithReader u salt v rnd = Inr srp \<Longrightarrow>
    \<not> srUsed srp \<and> srUsername srp = u \<and> srSalt srp = salt \<and> srVerifier srp = v"
  by (auto simp: NewSRP6WithReader_def Let_def split: sum.splits)

lemma issue_challenge_ok:
  assumes "issue_challenge env s = (Inr (), s')" "ssStatus s = statusClosed" "\<not> ssTotpRequired s"
    and "\<not> acBanned (ssAccount s)" "if acLocked (ssAccount s) then acLastIP (ssAccount s) = ssRemoteIP s else True"
  shows "ssStatus s' = statusClosed \<or> ssStatus s' = statusProof \<and> challenge_ok s'"
proof -
  from assms(1) obtain info where i: "evBuildInfo env (ssBuild s) = Inr info"
    by (auto simp: issue_challenge_def act_simps)
  show ?thesis
  proof (cases info)
    case None
    then show ?thesis using assms(1,2) i by (auto simp: issue_challenge_def act_simps)
  next
    case (Some bi)
    then obtain srp where srp: "NewSRP6WithReader (acLogin (ssAccount s)) (acSalt (ssAccount s))
        (acVerifier (ssAccount s)) (evRandom env) = Inr srp"
      using assms(1) i by (auto simp: issue_challenge_def act_simps)
    then show ?thesis
      using assms i Some NewSRP6_fields [OF srp]
      by (auto simp: issue_challenge_def act_simps challenge_ok_def)
  qed
qed

lemma refuse_account_None:
  "refuse_account env ac ip = None \<Longrightarrow> \<not> acBanned ac \<and> (if acLocked ac then acLastIP ac = ip else True)"
  by (auto simp: refuse_account_def split: if_splits)

lemma handleLogonChallenge_ok:
  assumes "handleLogonChallenge cfg env s = (Inr (), s')" "session_ok s"
  shows "ssStatus s = statusChallenge \<and> (ssStatus s' = statusClosed \<or> ssStatus s' = statusProof \<and> challenge_ok s')"
proof -
  from assms(1) obtain c s1 where st: "ssStatus s = statusChallenge"
    and c: "readChallenge (s\<lparr>ssStatus := statusClosed\<rparr>) = (Inr c, s1)"
    and r: "(case loadAccount env (ssLogin (start_challenge c s1)) of
            Inl e \<Rightarrow> writePacket [logonChallenge, 0, wowUnknownAccount]
          | Inr None \<Rightarrow> writePacket [logonChallenge, 0, wowUnknownAccount]
          | Inr (Some loaded) \<Rightarrow>
              act_seq (modify (\<lambda>s. s\<lparr>ssAccount := loaded\<rparr>))
              (case refuse_account env loaded (ssRemoteIP (start_challenge c s1)) of
                 Some code \<Rightarrow> writePacket [logonChallenge, 0, code]
               | None \<Rightarrow> totp_secret cfg env (issue_challenge env))) (start_challenge c s1) = (Inr (), s')"
    by (auto simp: handleLogonChallenge_def act_simps split: if_splits)
  let ?s = "start_challenge c s1"
  have "ssStatus s1 = statusClosed" "ssRemoteIP s1 = ssRemoteIP s" "ssTotpRequired s1 = ssTotpRequired s"
    by (subst readChallenge_frame [OF c], simp)+
  then have base: "ssStatus ?s = statusClosed" "ssRemoteIP ?s = ssRemoteIP s" "\<not> ssTotpRequired ?s"
    using assms(2) st by (simp_all add: start_challenge_def session_ok_def split: prod.split)
  show ?thesis
  proof (cases "\<exists>ac. loadAccount env (ssLogin ?s) = Inr (Some ac) \<and> refuse_account env ac (ssRemoteIP ?s) = None")
    case False
    then show ?thesis using r base st by (auto simp: act_simps split: sum.splits option.splits)
  next
    case True
    then obtain ac where ac: "loadAccount env (ssLogin ?s) = Inr (Some ac)" "refuse_account env ac (ssRemoteIP ?s) = None"
      by blast
    note free = refuse_account_None [OF ac(2)]
    obtain s2 where s2: "issue_challenge env s2 = (Inr (), s')"
      "s2 = ?s\<lparr>ssAccount := ac\<rparr> \<or> (\<exists>t. s2 = ?s\<lparr>ssAccount := ac\<lparr>acTotpSecret := t\<rparr>\<rparr>)"
      using r ac by (auto simp: act_simps totp_secret_def split: if_splits sum.splits)
    have "ssStatus s' = statusClosed \<or> ssStatus s' = statusProof \<and> challenge_ok s'"
      using s2(2) base free by (intro issue_challenge_ok [OF s2(1)]) auto
    then show ?thesis using st by blast
  qed
qed

section \<open>What a proof shows\<close>

definition token_shown :: "auth_env \<Rightarrow> account \<Rightarrow> bytes \<Rightarrow> bool" where
  "token_shown env ac input \<longleftrightarrow>
     (\<exists>n token rest. input = n # token @ rest \<and> length token = unat n \<and>
        ValidateTOTP (acTotpSecret ac) (word_of_int (atoi token)) (evNow env))"

lemma read_token_True:
  assumes "read_token env sent s = (Inr True, s')"
  shows "sent = ssTotpRequired s \<and> s' = s\<lparr>ssIn := ssIn s'\<rparr> \<and>
    (ssTotpRequired s \<longrightarrow> token_shown env (ssAccount s) (ssIn s))"
proof (cases "sent \<and> ssTotpRequired s")
  case False
  then show ?thesis using assms by (auto simp: read_token_def act_simps)
next
  case True
  then obtain d where d: "d = take 1 (ssIn s)" "1 \<le> length (ssIn s)"
    and n: "unat (d ! 0) \<le> length (drop 1 (ssIn s))" and s': "s' = s\<lparr>ssIn := drop (unat (d ! 0)) (drop 1 (ssIn s))\<rparr>"
    and v: "ValidateTOTP (acTotpSecret (ssAccount s)) (word_of_int (atoi (take (unat (d ! 0)) (drop 1 (ssIn s))))) (evNow env)"
    using assms by (auto simp: read_token_def act_simps)
  obtain n bs where i: "ssIn s = n # bs" using d(2) by (cases "ssIn s") auto
  have "ssIn s = n # take (unat n) bs @ drop (unat n) bs" "length (take (unat n) bs) = unat n"
    using n by (simp_all add: i d(1))
  moreover have "ValidateTOTP (acTotpSecret (ssAccount s)) (word_of_int (atoi (take (unat n) bs))) (evNow env)"
    using v by (simp add: i d(1))
  moreover have "s' = s\<lparr>ssIn := ssIn s'\<rparr>" using s' by simp
  ultimately show ?thesis using True unfolding token_shown_def by blast
qed

lemma recordFailedLogin_status:
  "recordFailedLogin cfg s = (Inr (), s') \<Longrightarrow> ssStatus s' = ssStatus s"
  by (auto simp: recordFailedLogin_def act_simps Let_def split: if_splits)

text \<open>The bytes of a logon proof that the session of \<open>s\<close> accepts, ending in the session \<open>s'\<close>.\<close>

definition logon_proof_shown :: "auth_config \<Rightarrow> auth_env \<Rightarrow> auth_session \<Rightarrow> auth_session \<Rightarrow> bytes \<Rightarrow> bool" where
  "logon_proof_shown cfg env s s' input \<longleftrightarrow>
     (\<exists>srp A M crc keys flags rest.
        input = A @ M @ crc @ keys # flags # rest \<and> length A = 32 \<and> length M = 20 \<and> length crc = 20 \<and>
        ssSrp s = Some srp \<and> fst (VerifyChallengeResponse A M (Some srp)) = Inr (ssKey s', True) \<and>
        has_flag flags 4 = ssTotpRequired s \<and>
        (ssTotpRequired s \<longrightarrow> token_shown env (ssAccount s) rest) \<and>
        verifyVersionProof cfg s A crc False)"

lemma logon_proof_shownI:
  assumes "input = A @ M @ crc @ keys # flags # rest" "length A = 32" "length M = 20" "length crc = 20"
    and "ssSrp s = Some srp" "fst (VerifyChallengeResponse A M (Some srp)) = Inr (ssKey s', True)"
    and "has_flag flags 4 = ssTotpRequired s" "ssTotpRequired s \<longrightarrow> token_shown env (ssAccount s) rest"
    and "verifyVersionProof cfg s A crc False"
  shows "logon_proof_shown cfg env s s' input"
  using assms unfolding logon_proof_shown_def by blast

lemma split_proof:
  assumes "74 \<le> length bs"
  shows "bs = take 32 bs @ take 20 (drop 32 bs) @ take 20 (drop 52 bs) @ (bs ! 72) # (bs ! 73) # drop 74 bs"
proof -
  have "drop 72 bs = bs ! 72 # bs ! 73 # drop 74 bs"
    using Cons_nth_drop_Suc [of 72 bs] Cons_nth_drop_Suc [of 73 bs] assms by simp
  moreover have "drop 52 bs = take 20 (drop 52 bs) @ drop 72 bs"
    using append_take_drop_id [of 20 "drop 52 bs"] by simp
  moreover have "drop 32 bs = take 20 (drop 32 bs) @ drop 52 bs"
    using append_take_drop_id [of 20 "drop 32 bs"] by simp
  ultimately show ?thesis using append_take_drop_id [of 32 bs] by simp
qed

lemma finish_proof_status:
  assumes "finish_proof cfg A M crc s = (Inr (), s')"
  shows "ssStatus s' = ssStatus s \<or> ssStatus s' = statusAuthed \<and> verifyVersionProof cfg s A crc False \<and>
    ssAccount s' = ssAccount s \<and> ssKey s' = ssKey s"
  using assms by (auto simp: finish_proof_def act_simps split: if_splits)

lemma verify_proof_Inr [act_simps]:
  "verify_proof A M s = (Inr (key, ok), s') \<longleftrightarrow>
     fst (VerifyChallengeResponse A M (ssSrp s)) = Inr (key, ok) \<and>
     s' = s\<lparr>ssSrp := snd (VerifyChallengeResponse A M (ssSrp s))\<rparr>"
  by (auto simp: verify_proof_def act_simps split: prod.splits)

lemma verifyVersionProof_cong:
  "ssBuildInfo s = ssBuildInfo t \<Longrightarrow> ssOs s = ssOs t \<Longrightarrow>
    verifyVersionProof cfg s A crc r = verifyVersionProof cfg t A crc r"
  by (simp only: verifyVersionProof_def)

lemma verifyVersionProof_in [simp]:
  "verifyVersionProof cfg (s\<lparr>ssIn := i\<rparr>) = verifyVersionProof cfg s"
  "verifyVersionProof cfg (s\<lparr>ssStatus := st\<rparr>) = verifyVersionProof cfg s"
  by (intro ext verifyVersionProof_cong; simp)+

lemma handleLogonProof_shown:
  assumes "handleLogonProof cfg env s = (Inr (), s')"
  shows "ssStatus s = statusProof \<and> (ssStatus s' = statusClosed \<or>
    ssStatus s' = statusAuthed \<and> ssAccount s' = ssAccount s \<and> logon_proof_shown cfg env s s' (ssIn s))"
proof -
  let ?d = "take 74 (ssIn s)"
  let ?A = "take 32 (ssIn s)" and ?M = "take 20 (drop 32 (ssIn s))" and ?crc = "take 20 (drop 52 (ssIn s))"
  have d: "take 32 ?d = ?A" "take 20 (drop 32 ?d) = ?M" "take 20 (drop 52 ?d) = ?crc" "?d ! 73 = ssIn s ! 73"
    by (simp_all add: drop_take min_def)
  let ?s1 = "s\<lparr>ssStatus := statusClosed, ssIn := drop 74 (ssIn s), ssSrp := snd (VerifyChallengeResponse ?A ?M (ssSrp s))\<rparr>"
  obtain srp where st: "ssStatus s = statusProof" "ssSrp s = Some srp"
    using assms by (auto simp: handleLogonProof_def act_simps split: if_splits)
  then obtain key ok where long: "74 \<le> length (ssIn s)"
    and v: "fst (VerifyChallengeResponse ?A ?M (ssSrp s)) = Inr (key, ok)"
    and rest: "(if \<not> ok then act_seq (try_write [logonProof, wowUnknownAccount, 0, 0]) (recordFailedLogin cfg)
       else act_seq (modify (\<lambda>s. s\<lparr>ssKey := key\<rparr>))
         (act_bind (read_token env (has_flag (ssIn s ! 73) 4)) (\<lambda>tokenSuccess.
            if \<not> tokenSuccess then try_write [logonProof, wowUnknownAccount, 0, 0]
            else finish_proof cfg ?A ?M ?crc))) ?s1 = (Inr (), s')"
    using assms by (auto simp: handleLogonProof_def act_simps Let_def d cong: if_cong split del: if_split)
  show ?thesis
  proof (cases ok)
    case False
    then show ?thesis using rest st by (auto simp: act_simps dest!: recordFailedLogin_status split: if_splits)
  next
    case True
    then obtain tok s2 where tok: "read_token env (has_flag (ssIn s ! 73) 4) (?s1\<lparr>ssKey := key\<rparr>) = (Inr tok, s2)"
      and fin: "(if \<not> tok then try_write [logonProof, wowUnknownAccount, 0, 0] else finish_proof cfg ?A ?M ?crc) s2 = (Inr (), s')"
      using rest by (auto simp: act_simps)
    have frame: "s2 = (?s1\<lparr>ssKey := key\<rparr>)\<lparr>ssIn := ssIn s2\<rparr>"
      using tok by (auto simp: read_token_def act_simps split: if_splits)
    have s2: "ssStatus s2 = statusClosed" "ssAccount s2 = ssAccount s" "ssKey s2 = key"
      "ssBuildInfo s2 = ssBuildInfo s" "ssOs s2 = ssOs s" by (subst frame, simp)+
    show ?thesis
    proof (cases tok)
      case False
      then show ?thesis using fin s2 st by (auto simp: act_simps split: if_splits)
    next
      case True
      have tk: "has_flag (ssIn s ! 73) 4 = ssTotpRequired s \<and>
        (ssTotpRequired s \<longrightarrow> token_shown env (ssAccount s) (drop 74 (ssIn s)))"
        using read_token_True [of env "has_flag (ssIn s ! 73) 4" "?s1\<lparr>ssKey := key\<rparr>" s2] tok True by simp
      from finish_proof_status [of cfg ?A ?M ?crc s2 s'] fin True
      consider "ssStatus s' = statusClosed" | "ssStatus s' = statusAuthed" "verifyVersionProof cfg s ?A ?crc False"
          "ssAccount s' = ssAccount s" "ssKey s' = key"
        using s2 verifyVersionProof_cong [of s2 s] by auto
      then show ?thesis
      proof cases
        case 2
        have "logon_proof_shown cfg env s s' (ssIn s)"
          by (rule logon_proof_shownI [OF split_proof [OF long]]) (use long st v 2 tk \<open>ok\<close> in simp_all)
        then show ?thesis using st 2 by simp
      qed (use st in simp)
    qed
  qed
qed

lemma logon_proof_shown_in [simp]:
  "logon_proof_shown cfg env (s\<lparr>ssIn := i\<rparr>) s' input = logon_proof_shown cfg env s s' input"
  by (simp add: logon_proof_shown_def)

section \<open>Reconnecting\<close>

lemma handleReconnectChallenge_ok:
  assumes "handleReconnectChallenge env s = (Inr (), s')"
  shows "ssStatus s = statusChallenge \<and> (ssStatus s' = statusClosed \<or>
    ssStatus s' = statusReconnectProof \<and> length (ssKey s') = 40)"
proof -
  from assms obtain c s1 where st: "ssStatus s = statusChallenge"
    and c: "readChallenge (s\<lparr>ssStatus := statusClosed\<rparr>) = (Inr c, s1)"
    and r: "(case evReconnect env (ssLogin (start_challenge c s1)) of
        Inl e \<Rightarrow> writePacket [reconnectChallenge, wowUnknownAccount]
      | Inr None \<Rightarrow> writePacket [reconnectChallenge, wowUnknownAccount]
      | Inr (Some r) \<Rightarrow>
          if length (rwSessionKey r) \<noteq> 40 then writePacket [reconnectChallenge, wowUnknownAccount]
          else
            act_seq (modify (\<lambda>s. s\<lparr>ssKey := rwSessionKey r\<rparr>))
            (act_bind (lift_result (fst (ReadFull 16 (evRandom env)))) (\<lambda>p.
             act_seq (modify (\<lambda>s. s\<lparr>ssReconnectProof := p, ssAccount := row_account r\<rparr>))
             (act_seq (set_status statusReconnectProof)
               (writePacket (Bytes (writes [WriteU8 reconnectChallenge, WriteU8 wowSuccess, Write p,
                  Write versionChallenge] (NewBuffer 34)))))))) (start_challenge c s1) = (Inr (), s')"
    by (auto simp: handleReconnectChallenge_def act_simps split del: if_split split: if_split_asm)
  have "ssStatus s1 = statusClosed" by (subst readChallenge_frame [OF c], simp)
  then have "ssStatus (start_challenge c s1) = statusClosed" by (simp add: start_challenge_def split: prod.split)
  with r st show ?thesis
    by (cases "evReconnect env (ssLogin (start_challenge c s1))")
      (auto simp: act_simps split: option.splits if_splits)
qed

definition reconnect_proof_shown :: "auth_config \<Rightarrow> auth_session \<Rightarrow> bytes \<Rightarrow> bool" where
  "reconnect_proof_shown cfg s input \<longleftrightarrow>
     (\<exists>r1 r2 crc rest. input = r1 @ r2 @ crc @ rest \<and> length r1 = 16 \<and> length r2 = 20 \<and> length crc = 20 \<and>
        r2 = hash [acLogin (ssAccount s), r1, ssReconnectProof s, ssKey s] \<and> verifyVersionProof cfg s r1 crc True)"

lemma reconnect_proof_shownI:
  assumes "input = r1 @ r2 @ crc @ rest" "length r1 = 16" "length r2 = 20" "length crc = 20"
    and "r2 = hash [acLogin (ssAccount s), r1, ssReconnectProof s, ssKey s]" "verifyVersionProof cfg s r1 crc True"
  shows "reconnect_proof_shown cfg s input"
  using assms unfolding reconnect_proof_shown_def by blast

lemma reconnect_proof_shown_in [simp]:
  "reconnect_proof_shown cfg (s\<lparr>ssIn := i\<rparr>) input = reconnect_proof_shown cfg s input"
  by (simp add: reconnect_proof_shown_def)

lemma handleReconnectProof_shown:
  assumes "handleReconnectProof cfg s = (Inr (), s')"
  shows "ssStatus s = statusReconnectProof \<and> (ssStatus s' = statusClosed \<or>
    ssStatus s' = statusAuthed \<and> ssAccount s' = ssAccount s \<and> ssKey s' = ssKey s \<and> reconnect_proof_shown cfg s (ssIn s))"
proof -
  let ?r1 = "take 16 (ssIn s)" and ?r2 = "take 20 (drop 16 (ssIn s))" and ?crc = "take 20 (drop 36 (ssIn s))"
  have d: "take 16 (take 57 (ssIn s)) = ?r1" "take 20 (drop 16 (take 57 (ssIn s))) = ?r2"
    "take 20 (drop 36 (take 57 (ssIn s))) = ?crc" by (simp_all add: drop_take min_def)
  show ?thesis
  proof (cases "ssStatus s' = statusClosed")
    case True
    then show ?thesis using assms by (auto simp: handleReconnectProof_def act_simps split: if_splits)
  next
    case False
    then have "ssStatus s = statusReconnectProof \<and> ssStatus s' = statusAuthed \<and> ssAccount s' = ssAccount s \<and>
        ssKey s' = ssKey s \<and> 57 \<le> length (ssIn s) \<and>
        hash [acLogin (ssAccount s), ?r1, ssReconnectProof s, ssKey s] = ?r2 \<and> verifyVersionProof cfg s ?r1 ?crc True"
      using assms by (auto simp: handleReconnectProof_def act_simps Let_def d split: if_splits)
    moreover have "ssIn s = ?r1 @ ?r2 @ ?crc @ drop 56 (ssIn s)"
      using append_take_drop_id [of 16 "ssIn s"] append_take_drop_id [of 20 "drop 16 (ssIn s)"]
        append_take_drop_id [of 20 "drop 36 (ssIn s)"] by simp
    moreover have "reconnect_proof_shown cfg s (ssIn s)"
      by (rule reconnect_proof_shownI [OF calculation(2)]) (use calculation(1) in \<open>auto simp: min_def\<close>)
    ultimately show ?thesis by blast
  qed
qed

section \<open>The whole session\<close>

lemma handleRealmList_frame:
  "handleRealmList cfg re s = (Inr (), s') \<Longrightarrow>
    s' = s\<lparr>ssIn := ssIn s', ssOut := ssOut s'\<rparr> \<and> ssStatus s = statusAuthed \<and>
    ssAccount s' = ssAccount s \<and> ssKey s' = ssKey s"
  by (auto simp: handleRealmList_def act_simps split: if_splits)

text \<open>The sessions that a client can bring about, whatever it sends and whatever the environment answers each time.\<close>

inductive session_reachable :: "auth_config \<Rightarrow> auth_session \<Rightarrow> bool" for cfg where
  accepted: "session_reachable cfg (new_session remoteIP input writable)"
| turn: "session_reachable cfg s \<Longrightarrow> serve cfg env re pend s = (Inr (), s') \<Longrightarrow> session_reachable cfg s'"

text \<open>One turn: which handler ran, and what it did to the state.\<close>

lemma serve_cases:
  assumes "serve cfg env re pend s = (Inr (), s')"
  obtains (discarded) "\<exists>i. s' = s\<lparr>ssIn := i\<rparr>"
    | (challenge) input where "ssIn s = 0 # input" "handleLogonChallenge cfg env (s\<lparr>ssIn := input\<rparr>) = (Inr (), s')"
    | (answer) input where "ssIn s = 1 # input" "handleLogonProof cfg env (s\<lparr>ssIn := input\<rparr>) = (Inr (), s')"
    | (realms) input where "handleRealmList cfg re (s\<lparr>ssIn := input\<rparr>) = (Inr (), s')"
    | (rechallenge) input where "handleReconnectChallenge env (s\<lparr>ssIn := input\<rparr>) = (Inr (), s')"
    | (reproof) input where "ssIn s = 3 # input" "handleReconnectProof cfg (s\<lparr>ssIn := input\<rparr>) = (Inr (), s')"
proof -
  obtain cmd input where i: "ssIn s = cmd # input"
    using assms by (cases "ssIn s") (auto simp: serve_def act_simps)
  then have "(case auth_command cfg env re cmd of Some handler \<Rightarrow> handler | None \<Rightarrow> modify (\<lambda>s. s\<lparr>ssIn := drop pend (ssIn s)\<rparr>))
      (s\<lparr>ssIn := input\<rparr>) = (Inr (), s')"
    using assms by (simp add: serve_def act_simps)
  then show ?thesis
    using that i unfolding auth_command_def
    by (simp split: if_split_asm) (auto simp: act_simps)
qed

lemma session_ok_in [simp]: "session_ok (s\<lparr>ssIn := i, ssOut := out\<rparr>) = session_ok s" "session_ok (s\<lparr>ssIn := i\<rparr>) = session_ok s"
  by (auto simp: session_ok_def challenge_ok_def split: auth_status.split)

lemma session_okI [intro]:
  "ssStatus s = statusClosed \<Longrightarrow> session_ok s" "ssStatus s = statusAuthed \<Longrightarrow> session_ok s"
  "ssStatus s = statusProof \<Longrightarrow> challenge_ok s \<Longrightarrow> session_ok s"
  "ssStatus s = statusReconnectProof \<Longrightarrow> length (ssKey s) = 40 \<Longrightarrow> session_ok s"
  by (simp_all add: session_ok_def)

lemma serve_keeps_ok:
  assumes "serve cfg env re pend s = (Inr (), s')" "session_ok s"
  shows "session_ok s'"
  using assms(1)
proof (cases rule: serve_cases)
  case (challenge input)
  then show ?thesis using handleLogonChallenge_ok [OF challenge(2)] assms(2) by auto
next
  case (answer input)
  then show ?thesis using handleLogonProof_shown [OF answer(2)] by auto
next
  case (realms input)
  then show ?thesis using handleRealmList_frame [OF realms] assms(2) by (metis session_ok_in)
next
  case (rechallenge input)
  then show ?thesis using handleReconnectChallenge_ok [OF rechallenge] by auto
next
  case (reproof input)
  then show ?thesis using handleReconnectProof_shown [OF reproof(2)] by auto
qed (use assms(2) in auto)

lemma session_reachable_ok: "session_reachable cfg s \<Longrightarrow> session_ok s"
proof (induction rule: session_reachable.induct)
  case (accepted remoteIP input writable)
  show ?case by (simp add: new_session_def session_ok_def)
qed (rule serve_keeps_ok)


end
