(* ===== verification/Auth_Login.thy ===== *)
theory Auth_Login
  imports Auth_Spec
begin

text \<open>
  The login that succeeds: the challenge and the proof of a client that has the right password, through the handlers of
  \<^verbatim>\<open>engine/auth/server.go\<close>.
\<close>

section \<open>The challenge of a client\<close>

text \<open>Game name, version, build, platform, system, language, time zone and address, then the login with its length.\<close>

definition client_challenge :: "u16 \<Rightarrow> bytes \<Rightarrow> bytes \<Rightarrow> gostring \<Rightarrow> bytes" where
  "client_challenge build os lang login =
     [8] @ le_bytes 2 (of_nat (30 + length login) :: u16) @ replicate 7 0 @ le_bytes 2 build @ replicate 4 0 @ os @ lang @
     replicate 8 0 @ [of_nat (length login)] @ login"

definition challenge_fields :: "u16 \<Rightarrow> bytes \<Rightarrow> bytes \<Rightarrow> gostring \<Rightarrow> u32 \<times> gostring \<times> gostring \<times> u8" where
  "challenge_fields build os lang login =
     (ucast build, login, reverseCode (takeWhile (\<lambda>c. c \<noteq> 0) os), localeID (reverseCode lang))"

lemma readChallenge_client:
  assumes "length os = 4" "length lang = 4" "length login \<le> 17" "ssIn s = client_challenge build os lang login @ rest"
  shows "readChallenge s = (Inr (challenge_fields build os lang login), s\<lparr>ssIn := rest\<rparr>)"
proof -
  let ?body = "replicate 7 0 @ le_bytes 2 build @ replicate 4 0 @ os @ lang @ replicate 8 0 @ [of_nat (length login)] @ login"
  have small: "unat (of_nat (30 + length login) :: u16) = 30 + length login" "unat (of_nat (length login) :: u8) = length login"
    using assms(3) by (simp_all only: unat_of_nat take_bit_nat_eq_self_iff) simp_all
  have i: "ssIn s = 8 # le_bytes 2 (of_nat (30 + length login) :: u16) @ ?body @ rest"
    using assms(4) by (simp add: client_challenge_def)
  have body: "length ?body = 30 + length login" using assms(1,2) by simp
  have at29: "?body ! 29 = of_nat (length login)" using assms(1,2) by (simp add: nth_append)
  show ?thesis
    unfolding readChallenge_def Let_def challenge_fields_def
    using i body small at29 assms
    by (simp add: act_bind_def read_full_def ReadFull_def act_ret_def act_fail_def)
qed

section \<open>The two handlers\<close>

lemmas act_run = act_bind_def act_seq_def act_ret_def get_session_def modify_def set_status_def lift_result_def
  exec_statement_def writePacket_def read_full_def ReadFull_def

lemma handleLogonChallenge_login:
  assumes "ssStatus s = statusChallenge" "ssOpen s" "\<not> ssTotpRequired s"
    and "ssIn s = client_challenge build os lang login @ rest" "length os = 4" "length lang = 4" "length login \<le> 17"
    and "loadAccount env (upperOnlyLatin login) = Inr (Some ac)" "refuse_account env ac (ssRemoteIP s) = None"
    and "\<not> acTotpConfigured ac" "evBuildInfo env (ucast build) = Inr (Some info)"
    and "NewSRP6WithReader (acLogin ac) (acSalt ac) (acVerifier ac) (evRandom env) = Inr srp"
  shows "handleLogonChallenge cfg env s = (Inr (),
    (start_challenge (challenge_fields build os lang login) s)
      \<lparr>ssIn := rest, ssAccount := ac, ssBuildInfo := Some info, ssSrp := Some srp, ssStatus := statusProof,
       ssOut := ssOut s @ [challenge_answer srp ac]\<rparr>)"
proof -
  note rc = readChallenge_client [OF assms(5-7), of "s\<lparr>ssStatus := statusClosed\<rparr>" build rest]
  show ?thesis
    using assms rc
    by (simp add: handleLogonChallenge_def act_run start_challenge_def challenge_fields_def totp_secret_def issue_challenge_def)
qed

lemma handleLogonProof_login:
  assumes "ssStatus s = statusProof" "ssOpen s" "\<not> ssTotpRequired s" "ssSrp s = Some srp"
    and "ssIn s = A @ M @ crc @ keys # flags # tail" "length A = 32" "length M = 20" "length crc = 20" "\<not> has_flag flags 4"
    and "VerifyChallengeResponse A M (Some srp) = (Inr (K, True), Some srp')" "\<not> cfStrictVersionCheck cfg"
  shows "handleLogonProof cfg env s = (Inr (), s
    \<lparr>ssIn := tail, ssSrp := Some srp', ssKey := K,
     ssExec := ssExec s @ [UPD_LOGONPROOF K (ssRemoteIP s) (ssLocale s) (ssOs s) (acLogin (ssAccount s))],
     ssOut := ssOut s @ [proof_answer (ssPostBC s) (SessionVerifier A M K)], ssStatus := statusAuthed\<rparr>)"
  using assms
  by (simp add: handleLogonProof_def act_run verify_proof_def read_token_def finish_proof_def verifyVersionProof_def
      nth_append)

lemma handleReconnectChallenge_run:
  assumes "ssStatus s = statusChallenge" "ssOpen s"
    and "ssIn s = client_challenge build os lang login @ rest" "length os = 4" "length lang = 4" "length login \<le> 17"
    and "evReconnect env (upperOnlyLatin login) = Inr (Some r)" "length (rwSessionKey r) = 40" "16 \<le> length (evRandom env)"
  shows "\<exists>answer. handleReconnectChallenge env s = (Inr (),
    (start_challenge (challenge_fields build os lang login) s)
      \<lparr>ssIn := rest, ssKey := rwSessionKey r, ssReconnectProof := take 16 (evRandom env), ssAccount := row_account r,
       ssStatus := statusReconnectProof, ssOut := ssOut s @ [answer]\<rparr>)"
proof -
  note rc = readChallenge_client [OF assms(4-6), of "s\<lparr>ssStatus := statusClosed\<rparr>" build rest]
  show ?thesis
    by (rule exI [of _ "Bytes (writes [WriteU8 reconnectChallenge, WriteU8 wowSuccess, Write (take 16 (evRandom env)),
        Write versionChallenge] (NewBuffer 34))"])
      (use assms rc in \<open>simp add: handleReconnectChallenge_def act_run start_challenge_def challenge_fields_def\<close>)
qed

section \<open>A client with the right password\<close>

text \<open>The account that a plain row gives: no lock, no ban and no token.\<close>

definition plain_row :: "challenge_row \<Rightarrow> bool" where
  "plain_row row \<longleftrightarrow> rwTotp row = None \<and> rwLocked row = 0 \<and> rwLockCountry row = [] \<and> nullable (rwBanned row) = 0"

lemma plain_account:
  assumes "evAccount env login = Inr (Some row)" "plain_row row" "length (rwSalt row) = 32" "length (rwVerifier row) = 32"
  obtains ac where "loadAccount env login = Inr (Some ac)" "refuse_account env ac ip = None" "\<not> acTotpConfigured ac"
    "acLogin ac = upperOnlyLatin (rwLogin row)" "acSalt ac = rwSalt row" "acVerifier ac = rwVerifier row"
  using assms that
  by (simp add: loadAccount_def plain_row_def row_account_def refuse_account_def CountryLockMismatch_def)

lemma registered:
  "MakeRegistrationDataWithReader user password rnd = Inr (salt, verifier) \<Longrightarrow>
    verifier = calculateVerifier user password salt \<and> length salt = 32 \<and> length verifier = 32"
  by (auto simp: MakeRegistrationDataWithReader_def ReadFull_def calculateVerifier_def Let_def split: if_splits)

lemma client_proof_lengths:
  "MakeClientProof user password salt B key = Inr (A, M, K) \<Longrightarrow> length A = 32 \<and> length M = 20"
  by (auto simp: MakeClientProof_def Let_def split: if_splits)

lemma serve_challenge: "ssIn s = 0 # input \<Longrightarrow> serve cfg env re pend s = handleLogonChallenge cfg env (s\<lparr>ssIn := input\<rparr>)"
  by (simp add: serve_def act_run auth_command_def)

lemma serve_proof: "ssIn s = 1 # input \<Longrightarrow> serve cfg env re pend s = handleLogonProof cfg env (s\<lparr>ssIn := input\<rparr>)"
  by (simp add: serve_def act_run auth_command_def)


section \<open>A client with a wrong password\<close>

lemma closed_refuses:
  assumes "ssStatus s = statusClosed" "ssIn s = cmd # input" "cmd \<in> {logonChallenge, logonProof, reconnectChallenge, reconnectProof, realmList}"
  shows "\<exists>e. fst (serve cfg env re pend s) = Inl e"
  using assms
  by (auto simp: serve_def auth_command_def act_run act_fail_def handleLogonChallenge_def handleLogonProof_def
      handleRealmList_def handleReconnectChallenge_def handleReconnectProof_def)

text \<open>What a failed login writes to the database.\<close>

definition failed_statements :: "auth_config \<Rightarrow> account \<Rightarrow> gostring \<Rightarrow> auth_exec list" where
  "failed_statements cfg ac ip =
     (if cfWrongPassLogging cfg then [INS_FALP_IP_LOGGING (acID ac) ip] else []) @
     (if cfWrongPassMaxCount cfg = 0 then []
      else UPD_FAILEDLOGINS (acLogin ac) #
        (if acFailedLogins ac + 1 < cfWrongPassMaxCount cfg then []
         else let time = (if cfWrongPassBanTime cfg = 0 then 600 else cfWrongPassBanTime cfg) in
           [if cfWrongPassBanType cfg then INS_ACCOUNT_AUTO_BANNED (acID ac) time else INS_IP_AUTO_BANNED ip time]))"

lemma recordFailedLogin_run:
  "\<exists>s'. recordFailedLogin cfg s = (Inr (), s') \<and> ssStatus s' = ssStatus s \<and> ssKey s' = ssKey s \<and> ssOut s' = ssOut s \<and>
    ssIn s' = ssIn s \<and> ssExec s' = ssExec s @ failed_statements cfg (ssAccount s) (ssRemoteIP s)"
  by (simp add: recordFailedLogin_def act_run failed_statements_def Let_def)

text \<open>
  C37: A wrong proof closes the session for good: the client is told that the account is unknown, no key is set, the attempt
  is logged when logging is on, the failed logins are counted when a limit is set, and the account or the address is banned
  exactly when the limit is reached. After it, every command of the protocol ends the connection.
\<close>

theorem wrong_proof_closes:
  assumes "ssStatus s = statusProof" "ssSrp s = Some srp" "ssIn s = 1 # A @ M @ crc @ keys # flags # tail"
    and "length A = 32" "length M = 20" "length crc = 20"
    and "fst (VerifyChallengeResponse A M (Some srp)) = Inr (key, False)"
  shows "\<exists>s'. serve cfg env re pend s = (Inr (), s') \<and> ssStatus s' = statusClosed \<and> ssKey s' = ssKey s \<and>
    ssOut s' = ssOut s @ (if ssOpen s then [[logonProof, wowUnknownAccount, 0, 0]] else []) \<and>
    ssExec s' = ssExec s @ failed_statements cfg (ssAccount s) (ssRemoteIP s) \<and>
    (\<forall>cmd input env' re' pend'. tail = cmd # input \<longrightarrow>
       cmd \<in> {logonChallenge, logonProof, reconnectChallenge, reconnectProof, realmList} \<longrightarrow>
       (\<exists>e. fst (serve cfg env' re' pend' s') = Inl e))"
proof -
  let ?s = "s\<lparr>ssStatus := statusClosed, ssIn := tail, ssSrp := snd (VerifyChallengeResponse A M (Some srp))\<rparr>"
  let ?w = "snd (writePacket [logonProof, wowUnknownAccount, 0, 0] ?s)"
  obtain s' where s': "recordFailedLogin cfg ?w = (Inr (), s')" "ssStatus s' = ssStatus ?w" "ssKey s' = ssKey ?w"
    "ssOut s' = ssOut ?w" "ssIn s' = ssIn ?w" "ssExec s' = ssExec ?w @ failed_statements cfg (ssAccount ?w) (ssRemoteIP ?w)"
    using recordFailedLogin_run by blast
  have w: "ssStatus ?w = statusClosed" "ssKey ?w = ssKey s" "ssIn ?w = tail" "ssExec ?w = ssExec s" "ssAccount ?w = ssAccount s"
    "ssRemoteIP ?w = ssRemoteIP s" "ssOut ?w = ssOut s @ (if ssOpen s then [[logonProof, wowUnknownAccount, 0, 0]] else [])"
    by (simp_all add: writePacket_def)
  have run: "serve cfg env re pend s = (Inr (), s')"
    using assms s'(1)
    by (simp add: serve_proof handleLogonProof_def act_bind_def act_seq_def get_session_def set_status_def modify_def
        read_full_def ReadFull_def verify_proof_def lift_result_def try_write_def nth_append prod.case_eq_if)
  show ?thesis
    using run s' w closed_refuses [of s'] by (intro exI [of _ s']) auto
qed

section \<open>Runs\<close>

definition open_config :: auth_config where
  "open_config = \<lparr>cfWrongPassMaxCount = 0, cfWrongPassBanTime = 600, cfWrongPassBanType = False, cfWrongPassLogging = False,
     cfStrictVersionCheck = False, cfHasTotpMasterKey = False, cfRealmAddress = []\<rparr>"

definition one_account :: "challenge_row option \<Rightarrow> reconnect_row option \<Rightarrow> auth_env" where
  "one_account row rerow = \<lparr>evAccount = (\<lambda>_. Inr row), evReconnect = (\<lambda>_. Inr rerow), evBuildInfo = (\<lambda>_. Inr (Some no_build)),
     evCountry = (\<lambda>_. []), evDecryptTOTP = Inr, evRandom = replicate 32 3, evNow = 0\<rparr>"

definition no_realms :: realm_env where
  "no_realms = \<lparr>reRows = Inr [], reResolve = Inr, reParseIP = (\<lambda>_. None), reCounts = Inr [], reBuilds = Inr []\<rparr>"



theorem wrong_proof_closes_witness:
  "\<exists>s s'. ssStatus s = statusProof \<and>
    serve (open_config\<lparr>cfWrongPassMaxCount := 1\<rparr>) (one_account None None) no_realms 0 s = (Inr (), s') \<and>
    ssStatus s' = statusClosed \<and> ssExec s' = [UPD_FAILEDLOGINS [], INS_IP_AUTO_BANNED [49] 600]"
proof -
  obtain srp where srp: "NewSRP6WithReader [85] [] [] (replicate 32 3) = Inr srp"
    by (simp add: NewSRP6WithReader_def ReadFull_def Let_def)
  define s where "s = (new_session [49] (1 # replicate 32 0 @ replicate 20 0 @ replicate 20 0 @ 0 # 0 # []) True)
    \<lparr>ssStatus := statusProof, ssSrp := Some srp\<rparr>"
  have zero: "fst (VerifyChallengeResponse (replicate 32 0) (replicate 20 0) (Some srp)) = Inr (no_key, False)"
    using NewSRP6_fields [OF srp] by (simp add: VerifyChallengeResponse_def Let_def)
  have s: "ssStatus s = statusProof" "ssSrp s = Some srp" "ssExec s = []" "ssAccount s = no_account" "ssRemoteIP s = [49]"
    "ssIn s = 1 # replicate 32 0 @ replicate 20 0 @ replicate 20 0 @ 0 # 0 # []"
    by (simp_all only: s_def new_session_def) simp_all
  have "failed_statements (open_config\<lparr>cfWrongPassMaxCount := 1\<rparr>) no_account [49] = [UPD_FAILEDLOGINS [], INS_IP_AUTO_BANNED [49] 600]"
    by (simp add: failed_statements_def open_config_def no_account_def)
  then show ?thesis
    using wrong_proof_closes [OF s(1,2,6) _ _ _ zero, of "open_config\<lparr>cfWrongPassMaxCount := 1\<rparr>" "one_account None None" no_realms 0] s
    by (metis append_Nil length_replicate)
qed

end
