(* ===== verification/Dbc.thy ===== *)
theory Dbc
  imports Wire
begin

text \<open>
  \<^verbatim>\<open>engine/data/dbc/dbc.go\<close>: the client data tables, records of words over a block of strings. A record is a Go slice: it
  has a length, and behind it, within its capacity, lie the bytes of the file that follow. A slice expression may reach
  them. Reading past the capacity is a panic.
\<close>

section \<open>Files and records\<close>

record dbc_file =
  RecordCount :: u32
  FieldCount :: u32
  RecordSize :: u32
  StringBlockSize :: u32
  dfData :: bytes
  dfBehind :: bytes
  dfStrings :: bytes

record dbc_record =
  rcData :: bytes
  rcBehind :: bytes
  rcStrings :: bytes
  rcFields :: u32

abbreviation (input) headerSize :: nat where "headerSize \<equiv> 20"

definition dbc_magic :: bytes where
  "dbc_magic = map of_char ''WDBC''"

definition Parse :: "bytes \<Rightarrow> go_error + dbc_file" where
  "Parse d =
     (if length d < headerSize \<or> take 4 d \<noteq> dbc_magic then Inl (Err ''invalid DBC header'')
      else
        let recordCount = of_le_bytes (take 4 (drop 4 d));
            fieldCount = of_le_bytes (take 4 (drop 8 d));
            recordSize = of_le_bytes (take 4 (drop 12 d));
            stringBlockSize = of_le_bytes (take 4 (drop 16 d)) in
        if recordSize > fieldCount * 4 \<or> fieldCount > 0 \<and> recordSize = 0 then Inl (Err ''invalid record size'')
        else
          let recordBytes = (ucast recordCount :: u64) * ucast recordSize;
              stop = 20 + recordBytes + ucast stringBlockSize in
          if stop > of_nat (length d) then Inl (Err ''DBC data is truncated'')
          else
            let stringsStart = headerSize + unat recordBytes in
            Inr \<lparr>RecordCount = recordCount, FieldCount = fieldCount, RecordSize = recordSize,
                 StringBlockSize = stringBlockSize,
                 dfData = take (unat recordBytes) (drop headerSize d), dfBehind = drop stringsStart d,
                 dfStrings = take (unat stringBlockSize) (drop stringsStart d)\<rparr>)"

definition Records :: "dbc_file \<Rightarrow> int" where
  "Records f = uint (RecordCount f)"

definition Record :: "dbc_file \<Rightarrow> int \<Rightarrow> go_error + dbc_record" where
  "Record f index =
     (if index < 0 \<or> index \<ge> uint (RecordCount f) then Inl (Err ''DBC record index out of range'')
      else
        let start = nat (index * uint (RecordSize f)); size = unat (RecordSize f) in
        Inr \<lparr>rcData = take size (drop start (dfData f)), rcBehind = drop (start + size) (dfData f) @ dfBehind f,
             rcStrings = dfStrings f, rcFields = FieldCount f\<rparr>)"

section \<open>Fields\<close>

text \<open>The slice of four bytes at an offset.\<close>

definition slice4 :: "dbc_record \<Rightarrow> nat \<Rightarrow> go_error + bytes" where
  "slice4 r start =
     (if start + 4 \<le> length (rcData r @ rcBehind r) then Inr (take 4 (drop start (rcData r @ rcBehind r))) else Inl Panic)"

definition rec_Data :: "dbc_record \<Rightarrow> bytes" where
  "rec_Data r = rcData r"

definition ByteAt :: "dbc_record \<Rightarrow> int \<Rightarrow> go_error + u8" where
  "ByteAt r offset =
     (if offset < 0 \<or> offset \<ge> int (length (rcData r)) then Inl (Err ''DBC byte offset out of range'')
      else Inr (rcData r ! nat offset))"

definition Uint32At :: "dbc_record \<Rightarrow> int \<Rightarrow> go_error + u32" where
  "Uint32At r offset =
     (if offset < 0 \<or> offset + 4 > int (length (rcData r)) then Inl (Err ''DBC uint32 offset out of range'')
      else Inr (of_le_bytes (take 4 (drop (nat offset) (rcData r)))))"

definition Int32At :: "dbc_record \<Rightarrow> int \<Rightarrow> go_error + int" where
  "Int32At r offset = map_sum id sint (Uint32At r offset)"

definition rec_Bytes :: "dbc_record \<Rightarrow> int \<Rightarrow> go_error + bytes" where
  "rec_Bytes r field =
     (if field < 0 \<or> field \<ge> uint (rcFields r) then Inl (Err ''DBC field index out of range'')
      else slice4 r (nat (field * 4)))"

definition Uint32 :: "dbc_record \<Rightarrow> int \<Rightarrow> go_error + u32" where
  "Uint32 r field = map_sum id of_le_bytes (rec_Bytes r field)"

definition Uint32Unchecked :: "dbc_record \<Rightarrow> nat \<Rightarrow> go_error + u32" where
  "Uint32Unchecked r field = map_sum id of_le_bytes (slice4 r (field * 4))"

definition Int32 :: "dbc_record \<Rightarrow> int \<Rightarrow> go_error + int" where
  "Int32 r field = map_sum id sint (Uint32 r field)"

text \<open>A \<^verbatim>\<open>float32\<close> is its bit pattern.\<close>

definition Float32 :: "dbc_record \<Rightarrow> int \<Rightarrow> go_error + f32" where
  "Float32 r field = Uint32 r field"

definition dbc_String :: "dbc_record \<Rightarrow> int \<Rightarrow> go_error + gostring" where
  "dbc_String r field =
     (case Uint32 r field of
        Inl e \<Rightarrow> Inl e
      | Inr offset \<Rightarrow>
          if offset \<ge> of_nat (length (rcStrings r)) then Inl (Err ''DBC string offset out of range'')
          else
            let v = drop (unat offset) (rcStrings r) in
            if 0 \<in> set v then Inr (takeWhile (\<lambda>b. b \<noteq> 0) v) else Inl (Err ''DBC string is not terminated''))"

section \<open>The index\<close>

text \<open>\<open>Find\<close> builds the index once: a map from the first word of each record, where a later record replaces an earlier one.\<close>

fun index_from :: "dbc_file \<Rightarrow> nat list \<Rightarrow> (u32, dbc_record) gomap \<Rightarrow> go_error + (u32, dbc_record) gomap" where
  "index_from f [] m = Inr m"
| "index_from f (i # is) m =
     (case Record f (int i) of
        Inl e \<Rightarrow> index_from f is m
      | Inr r \<Rightarrow>
          case Uint32Unchecked r 0 of
            Inl e \<Rightarrow> Inl e
          | Inr key \<Rightarrow> index_from f is (gput key r m))"

definition Find :: "dbc_file \<Rightarrow> u32 \<Rightarrow> go_error + dbc_record option" where
  "Find f key = map_sum id (\<lambda>m. gget m key) (index_from f [0..<unat (RecordCount f)] [])"

section \<open>A table as the format lays it out\<close>

definition row_bytes :: "u32 list \<Rightarrow> bytes" where
  "row_bytes row = concat (map (le_bytes 4) row)"

definition dbc_layout :: "nat \<Rightarrow> u32 list list \<Rightarrow> bytes \<Rightarrow> bytes" where
  "dbc_layout k rows strs =
     dbc_magic @ le_bytes 4 (of_nat (length rows) :: u32) @ le_bytes 4 (of_nat k :: u32) @ le_bytes 4 (of_nat (4 * k) :: u32) @
     le_bytes 4 (of_nat (length strs) :: u32) @ concat (map row_bytes rows) @ strs"

definition table_ok :: "nat \<Rightarrow> u32 list list \<Rightarrow> bytes \<Rightarrow> bool" where
  "table_ok k rows strs \<longleftrightarrow> 0 < k \<and> 4 * k < 2 ^ 32 \<and> length rows < 2 ^ 32 \<and> length strs < 2 ^ 32 \<and>
     list_all (\<lambda>row. length row = k) rows"

lemma length_row_bytes [simp]: "length (row_bytes row) = 4 * length row"
  by (induction row) (simp_all add: row_bytes_def)

lemma length_rows: "list_all (\<lambda>row. length row = k) rows \<Longrightarrow> length (concat (map row_bytes rows)) = length rows * (4 * k)"
  by (induction rows) simp_all

lemma nth_row:
  assumes "list_all (\<lambda>row. length row = k) rows" "i < length rows"
  shows "drop (i * (4 * k)) (concat (map row_bytes rows)) = row_bytes (rows ! i) @ concat (map row_bytes (drop (Suc i) rows))"
  using assms
proof (induction rows arbitrary: i)
  case (Cons row rows)
  show ?case
  proof (cases i)
    case 0
    then show ?thesis by simp
  next
    case (Suc j)
    then have "drop (i * (4 * k)) (concat (map row_bytes (row # rows))) = drop (j * (4 * k)) (concat (map row_bytes rows))"
      using Cons.prems by simp
    then show ?thesis using Suc Cons by simp
  qed
qed simp

lemma nth_field:
  assumes "j < length row"
  shows "take 4 (drop (j * 4) (row_bytes row @ rest)) = le_bytes 4 (row ! j)"
  using assms
proof (induction row arbitrary: j)
  case (Cons w row)
  then show ?case by (cases j) (simp_all add: row_bytes_def)
qed simp

definition layout_file :: "nat \<Rightarrow> u32 list list \<Rightarrow> bytes \<Rightarrow> dbc_file" where
  "layout_file k rows strs = \<lparr>RecordCount = of_nat (length rows), FieldCount = of_nat k, RecordSize = of_nat (4 * k),
     StringBlockSize = of_nat (length strs), dfData = concat (map row_bytes rows), dfBehind = strs, dfStrings = strs\<rparr>"

definition layout_record :: "nat \<Rightarrow> u32 list list \<Rightarrow> bytes \<Rightarrow> nat \<Rightarrow> dbc_record" where
  "layout_record k rows strs i = \<lparr>rcData = row_bytes (rows ! i), rcBehind = concat (map row_bytes (drop (Suc i) rows)) @ strs,
     rcStrings = strs, rcFields = of_nat k\<rparr>"

lemma unat_of_nat64: "n < 2 ^ 64 \<Longrightarrow> unat (of_nat n :: u64) = n"
  by (simp add: unat_of_nat take_bit_nat_eq_self_iff)

lemma Parse_layout:
  assumes "table_ok k rows strs"
  shows "Parse (dbc_layout k rows strs) = Inr (layout_file k rows strs)"
proof -
  let ?n = "length rows" and ?s = "4 * k"
  have small: "unat (of_nat ?n :: u32) = ?n" "unat (of_nat k :: u32) = k" "unat (of_nat (length strs) :: u32) = length strs"
    using assms by (simp_all add: table_ok_def unat_of_nat)
  have size: "unat (of_nat ?s :: u32) = ?s" using assms by (simp only: table_ok_def unat_of_nat take_bit_nat_eq_self_iff) simp
  have mult: "(of_nat k * 4 :: u32) = of_nat ?s" by simp
  have rows: "length (concat (map row_bytes rows)) = ?n * ?s" using assms by (simp add: table_ok_def length_rows)
  have prod: "?n * ?s < 2 ^ 64"
    using mult_strict_mono [of ?n "2 ^ 32" ?s "2 ^ 32"] assms by (simp add: table_ok_def)
  have widen: "(ucast (of_nat ?n :: u32) :: u64) = of_nat ?n" "(ucast (of_nat ?s :: u32) :: u64) = of_nat ?s"
    "(ucast (of_nat (length strs) :: u32) :: u64) = of_nat (length strs)"
    using small size by (metis of_nat_unat)+
  have bytes: "(ucast (of_nat ?n :: u32) :: u64) * ucast (of_nat ?s :: u32) = of_nat (?n * ?s)"
    "unat (of_nat (?n * ?s) :: u64) = ?n * ?s"
    by (simp_all only: widen of_nat_mult [symmetric] unat_of_nat64 [OF prod])
  have len: "length (dbc_layout k rows strs) = 20 + ?n * ?s + length strs"
    using rows by (simp add: dbc_layout_def dbc_magic_def)
  have stop: "(20 + of_nat (?n * ?s) + of_nat (length strs) :: u64) = of_nat (length (dbc_layout k rows strs))"
    by (simp only: len of_nat_add of_nat_numeral)
  have parts: "take 4 (dbc_layout k rows strs) = dbc_magic"
    "of_le_bytes (take 4 (drop 4 (dbc_layout k rows strs))) = (of_nat ?n :: u32)"
    "of_le_bytes (take 4 (drop 8 (dbc_layout k rows strs))) = (of_nat k :: u32)"
    "of_le_bytes (take 4 (drop 12 (dbc_layout k rows strs))) = (of_nat ?s :: u32)"
    "of_le_bytes (take 4 (drop 16 (dbc_layout k rows strs))) = (of_nat (length strs) :: u32)"
    by (simp_all add: dbc_layout_def dbc_magic_def del: of_nat_mult)
  have tail: "drop 20 (dbc_layout k rows strs) = concat (map row_bytes rows) @ strs"
    by (simp add: dbc_layout_def dbc_magic_def)
  have "drop (20 + ?n * ?s) (dbc_layout k rows strs) = drop (?n * ?s) (drop 20 (dbc_layout k rows strs))"
    by (simp add: add.commute)
  also have "\<dots> = strs" unfolding tail using rows by simp
  finally have strs: "drop (20 + ?n * ?s) (dbc_layout k rows strs) = strs" .
  have pos: "(of_nat ?s :: u32) \<noteq> 0" using size assms by (metis mult_is_0 not_gr0 table_ok_def unat_0 zero_neq_numeral)
  show ?thesis
    unfolding Parse_def Let_def parts mult bytes widen(3) stop strs tail
    using pos rows small(3) by (simp add: len layout_file_def del: of_nat_mult)
qed

lemma Record_layout:
  assumes "table_ok k rows strs" "i < length rows"
  shows "Record (layout_file k rows strs) (int i) = Inr (layout_record k rows strs i)"
proof -
  let ?s = "4 * k"
  have rows: "list_all (\<lambda>row. length row = k) rows" and len: "length (rows ! i) = k"
    using assms by (auto simp: table_ok_def list_all_length)
  have n: "uint (of_nat (length rows) :: u32) = int (length rows)"
    using assms(1) by (simp add: table_ok_def uint_nat unat_of_nat)
  have size: "unat (of_nat ?s :: u32) = ?s"
    using assms(1) by (simp only: table_ok_def unat_of_nat take_bit_nat_eq_self_iff) simp
  have start: "nat (int i * uint (of_nat ?s :: u32)) = i * ?s"
    using size by (simp only: uint_nat of_nat_mult [symmetric] nat_int)
  have "drop (i * ?s + ?s) (concat (map row_bytes rows)) = drop ?s (drop (i * ?s) (concat (map row_bytes rows)))"
    by (simp add: add.commute)
  then show ?thesis
    unfolding Record_def layout_file_def layout_record_def Let_def dbc_file.simps start size
    using assms(2) nth_row [OF rows assms(2)] len n by simp
qed

lemma Uint32_layout:
  assumes "table_ok k rows strs" "i < length rows" "j < k"
  shows "Uint32 (layout_record k rows strs i) (int j) = Inr (rows ! i ! j)"
proof -
  have len: "length (rows ! i) = k" and k: "uint (of_nat k :: u32) = int k"
    using assms by (auto simp: table_ok_def list_all_length uint_nat unat_of_nat)
  have f: "nat (int j * 4) = j * 4" by simp
  show ?thesis
    using assms(3) len k nth_field [of j "rows ! i" "concat (map row_bytes (drop (Suc i) rows)) @ strs"]
    by (simp add: Uint32_def rec_Bytes_def slice4_def layout_record_def f)
qed

lemma Uint32Unchecked_layout:
  assumes "table_ok k rows strs" "i < length rows"
  shows "Uint32Unchecked (layout_record k rows strs i) 0 = Inr (rows ! i ! 0)"
proof -
  have "length (rows ! i) = k" "0 < k" using assms by (auto simp: table_ok_def list_all_length)
  then show ?thesis
    using nth_field [of 0 "rows ! i" "concat (map row_bytes (drop (Suc i) rows)) @ strs"]
    by (simp add: Uint32Unchecked_def slice4_def layout_record_def)
qed

text \<open>The last row whose first word is the key.\<close>

definition last_row :: "u32 list list \<Rightarrow> u32 \<Rightarrow> nat option" where
  "last_row rows key = find (\<lambda>i. rows ! i ! 0 = key) (rev [0..<length rows])"

lemma find_append: "find P (xs @ ys) = (case find P xs of None \<Rightarrow> find P ys | Some x \<Rightarrow> Some x)"
  by (induction xs) simp_all

lemma index_from_layout:
  assumes "table_ok k rows strs" "\<forall>i \<in> set is. i < length rows"
  shows "\<exists>m'. index_from (layout_file k rows strs) is m = Inr m' \<and>
    gget m' key = (case find (\<lambda>i. rows ! i ! 0 = key) (rev is) of None \<Rightarrow> gget m key | Some i \<Rightarrow> Some (layout_record k rows strs i))"
  using assms(2)
proof (induction "is" arbitrary: m)
  case (Cons i "is")
  have i: "i < length rows" using Cons.prems by simp
  note step = Record_layout [OF assms(1) i] Uint32Unchecked_layout [OF assms(1) i]
  show ?case
    using Cons.IH [of "gput (rows ! i ! 0) (layout_record k rows strs i) m"] Cons.prems
    by (auto simp: step find_append gomap_simps split: option.splits)
qed simp

lemma Find_layout:
  assumes "table_ok k rows strs"
  shows "Find (layout_file k rows strs) key = Inr (map_option (layout_record k rows strs) (last_row rows key))"
proof -
  have n: "unat (of_nat (length rows) :: u32) = length rows" using assms by (simp add: table_ok_def unat_of_nat)
  obtain m where m: "index_from (layout_file k rows strs) [0..<length rows] [] = Inr m"
    "gget m key = (case last_row rows key of None \<Rightarrow> gget [] key | Some i \<Rightarrow> Some (layout_record k rows strs i))"
    using index_from_layout [OF assms, of "[0..<length rows]" "[]" key] unfolding last_row_def by auto
  have "RecordCount (layout_file k rows strs) = of_nat (length rows)" by (simp add: layout_file_def)
  then show ?thesis using m n by (simp add: Find_def split: option.splits)
qed

lemma last_row_Some:
  assumes "last_row rows key = Some i"
  shows "i < length rows \<and> rows ! i ! 0 = key \<and> (\<forall>j. i < j \<longrightarrow> j < length rows \<longrightarrow> rows ! j ! 0 \<noteq> key)"
proof -
  let ?is = "rev [0..<length rows]"
  have at: "?is ! p = length rows - Suc p" if "p < length rows" for p using that by (simp add: rev_nth)
  obtain p where p: "p < length rows" "rows ! (?is ! p) ! 0 = key" "i = ?is ! p" "\<forall>q < p. rows ! (?is ! q) ! 0 \<noteq> key"
    using assms unfolding last_row_def find_Some_iff by auto
  have "rows ! j ! 0 \<noteq> key" if "i < j" "j < length rows" for j
  proof -
    have "length rows - Suc j < p" using that p(1,3) at by simp
    moreover have "?is ! (length rows - Suc j) = j" using that by (simp add: at)
    ultimately show ?thesis using p(4) by metis
  qed
  then show ?thesis using p at by auto
qed

lemma last_row_None: "last_row rows key = None \<Longrightarrow> i < length rows \<Longrightarrow> rows ! i ! 0 \<noteq> key"
  by (auto simp: last_row_def find_None_iff)

text \<open>
  C16: A table laid out as the format says is read back exactly: every record and field, in order; a field past the last is an
  error; and looking up an id finds the last record that carries it, and nothing when none does.
\<close>

theorem dbc_roundtrip:
  assumes "table_ok k rows strs"
  shows "\<exists>f. Parse (dbc_layout k rows strs) = Inr f \<and> Records f = int (length rows) \<and>
    (\<forall>i < length rows. \<exists>r. Record f (int i) = Inr r \<and> (\<forall>j < k. Uint32 r (int j) = Inr (rows ! i ! j)) \<and>
       (\<forall>j \<ge> k. \<exists>e. Uint32 r (int j) = Inl (Err e))) \<and>
    (\<forall>key. \<exists>hit. Find f key = Inr hit \<and>
       (case hit of None \<Rightarrow> \<forall>i < length rows. rows ! i ! 0 \<noteq> key
        | Some r \<Rightarrow> \<exists>i < length rows. Record f (int i) = Inr r \<and> rows ! i ! 0 = key \<and>
            (\<forall>j. i < j \<longrightarrow> j < length rows \<longrightarrow> rows ! j ! 0 \<noteq> key)))"
proof -
  let ?f = "layout_file k rows strs"
  have k: "uint (of_nat k :: u32) = int k" using assms by (simp add: table_ok_def uint_nat unat_of_nat)
  have "Records ?f = int (length rows)"
    using assms by (simp add: Records_def layout_file_def table_ok_def uint_nat unat_of_nat)
  moreover have "\<exists>e. Uint32 (layout_record k rows strs i) (int j) = Inl (Err e)" if "k \<le> j" for i j
    using that k by (simp add: Uint32_def rec_Bytes_def layout_record_def)
  moreover have "\<exists>hit. Find ?f key = Inr hit \<and>
       (case hit of None \<Rightarrow> \<forall>i < length rows. rows ! i ! 0 \<noteq> key
        | Some r \<Rightarrow> \<exists>i < length rows. Record ?f (int i) = Inr r \<and> rows ! i ! 0 = key \<and>
            (\<forall>j. i < j \<longrightarrow> j < length rows \<longrightarrow> rows ! j ! 0 \<noteq> key))" for key
    using Find_layout [OF assms, of key] last_row_Some [of rows key] last_row_None [of rows key] Record_layout [OF assms]
    by (cases "last_row rows key") auto
  ultimately show ?thesis
    using Parse_layout [OF assms] Record_layout [OF assms] Uint32_layout [OF assms] by blast
qed

theorem dbc_roundtrip_witness:
  "\<exists>f. Parse (dbc_layout 2 [[7, 1], [8, 2], [7, 3]] [0]) = Inr f \<and> Records f = 3"
proof -
  have "table_ok 2 [[7, 1], [8, 2], [7, 3]] [0]" by (simp add: table_ok_def)
  from dbc_roundtrip [OF this] show ?thesis by auto
qed

text \<open>
  A table whose records are packed, so that they are smaller than four bytes a field, is accepted, and a field that lies
  past the record is not an error: it is read from the next record, and at the end of the file it is a panic.
\<close>

theorem packed_record_overreads:
  "\<exists>f r r'. Parse (dbc_magic @ le_bytes 4 (2 :: u32) @ le_bytes 4 (2 :: u32) @ le_bytes 4 (4 :: u32) @ le_bytes 4 (0 :: u32) @
      le_bytes 4 a @ le_bytes 4 b) = Inr f \<and> Record f 0 = Inr r \<and> Record f 1 = Inr r' \<and>
    length (rec_Data r) = 4 \<and> Uint32 r 1 = Inr b \<and> Uint32 r' 1 = Inl Panic" for a b :: u32
proof -
  let ?d = "dbc_magic @ le_bytes 4 (2 :: u32) @ le_bytes 4 (2 :: u32) @ le_bytes 4 (4 :: u32) @ le_bytes 4 (0 :: u32) @
      le_bytes 4 a @ le_bytes 4 b"
  have "Parse ?d = Inr \<lparr>RecordCount = 2, FieldCount = 2, RecordSize = 4, StringBlockSize = 0,
      dfData = le_bytes 4 a @ le_bytes 4 b, dfBehind = [], dfStrings = []\<rparr>"
    by (simp add: Parse_def dbc_magic_def Let_def)
  then show ?thesis
    by (simp add: Record_def rec_Data_def Uint32_def rec_Bytes_def slice4_def)
qed

end
