(* ===== verification/Taxi.thy ===== *)
theory Taxi
  imports Dbc Go_Float
begin

text \<open>
  \<^verbatim>\<open>engine/data/wotlk/taxi.go\<close>: the flight network that the client tables hold, the masks of the nodes a character may
  see, and the overlay of paths that scripts register. The tables are a map from their names to what reading them gave;
  loading the network is done once and only depends on them. A mask is a list of fourteen words.
\<close>

section \<open>Data\<close>

record TaxiNode =
  tnID :: u32
  tnContinentID :: int
  tnX :: f32
  tnY :: f32
  tnZ :: f32
  tnMountCreatureID :: "u32 list"
  tnHasOutgoingPath :: bool

abbreviation (input) taxiDKSpecialMount :: u32 where "taxiDKSpecialMount \<equiv> 32981"
abbreviation (input) taxiMaskSize :: nat where "taxiMaskSize \<equiv> 14"

record taxi_network =
  nwNodes :: "TaxiNode list"
  nwMask :: "u32 list"
  nwByID :: "(u32, nat) gomap"

record TaxiSplinePoint =
  spMapID :: int
  spX :: f32
  spY :: f32
  spZ :: f32
  spFlags :: u32
  spDelay :: u32
  spArrivalEventID :: u32
  spDepartureEventID :: u32

record taxiOverlayPath =
  opFrom :: u32
  opTo :: u32
  opPrice :: u32
  opPoints :: "TaxiSplinePoint list"

record taxiOverlayLink =
  olPathID :: u32
  olPrice :: u32

record taxiOverlay =
  ovNodes :: "(u32, TaxiNode) gomap"
  ovPaths :: "(u32, taxiOverlayPath) gomap"
  ovLinks :: "(u32 \<times> u32, taxiOverlayLink) gomap"
  ovNextNode :: u32
  ovPathCount :: u32
  ovSized :: bool

record TaxiPathWaypoint =
  wpMapID :: u32
  wpX :: f32
  wpY :: f32
  wpZ :: f32
  wpFlags :: u32
  wpDelay :: u32

type_synonym dbc_files = "gostring \<Rightarrow> go_error + dbc_file"

record taxi_store =
  tsFiles :: dbc_files
  tsOverlay :: "taxiOverlay option"

definition table_name :: "string \<Rightarrow> gostring" where
  "table_name s = map of_char s"

section \<open>Loading\<close>

definition for_records :: "dbc_file \<Rightarrow> (dbc_record \<Rightarrow> 's \<Rightarrow> go_error + 's) \<Rightarrow> 's \<Rightarrow> go_error + 's" where
  "for_records f body s = res_fold (\<lambda>i s. res_bind (Record f (int i)) (\<lambda>r. body r s)) [0..<nat (Records f)] s"

definition path_source :: "dbc_record \<Rightarrow> u32 list \<Rightarrow> go_error + u32 list" where
  "path_source r sources =
     res_bind (Uint32 r 3) (\<lambda>price.
       if price = 0 then Inr sources
       else res_bind (Uint32 r 1) (\<lambda>from. Inr (from # sources)))"

text \<open>The word and the bit of a node in a mask.\<close>

definition node_field :: "u32 \<Rightarrow> nat" where
  "node_field node = unat ((node - 1) div 32)"

definition node_bit :: "u32 \<Rightarrow> u32" where
  "node_bit node = push_bit (unat ((node - 1) mod 32)) 1"

definition mask_add :: "u32 \<Rightarrow> u32 list \<Rightarrow> u32 list" where
  "mask_add node mk = mk[node_field node := mk ! node_field node OR node_bit node]"

definition read_node :: "u32 list \<Rightarrow> dbc_record \<Rightarrow> go_error + TaxiNode" where
  "read_node sources r =
     res_bind (Uint32 r 0) (\<lambda>nodeID.
     res_bind (Int32 r 1) (\<lambda>continent.
     res_bind (Float32 r 2) (\<lambda>x.
     res_bind (Float32 r 3) (\<lambda>y.
     res_bind (Float32 r 4) (\<lambda>z.
     res_bind (Uint32 r 5) (\<lambda>m0.
     res_bind (Uint32 r 6) (\<lambda>m1.
     res_bind (Uint32 r 7) (\<lambda>m2.
     res_bind (Uint32 r 8) (\<lambda>m3.
       Inr \<lparr>tnID = nodeID, tnContinentID = continent, tnX = x, tnY = y, tnZ = z,
            tnMountCreatureID = [m0, m1, m2, m3], tnHasOutgoingPath = (nodeID \<in> set sources)\<rparr>)))))))))"

definition add_node :: "TaxiNode \<Rightarrow> taxi_network \<Rightarrow> taxi_network" where
  "add_node node nw = nw
     \<lparr>nwMask := (if tnID node \<noteq> 0 \<and> tnHasOutgoingPath node \<and> node_field (tnID node) < taxiMaskSize
                 then mask_add (tnID node) (nwMask nw) else nwMask nw),
      nwByID := gput (tnID node) (length (nwNodes nw)) (nwByID nw),
      nwNodes := nwNodes nw @ [node]\<rparr>"

definition empty_mask :: "u32 list" where
  "empty_mask = replicate taxiMaskSize 0"

definition taxiNetwork :: "dbc_files \<Rightarrow> go_error + taxi_network" where
  "taxiNetwork files =
     res_bind (files (table_name ''TaxiNodes'')) (\<lambda>nodesFile.
     res_bind (files (table_name ''TaxiPath'')) (\<lambda>pathsFile.
     res_bind (for_records pathsFile path_source []) (\<lambda>sources.
       for_records nodesFile (\<lambda>r nw. res_bind (read_node sources r) (\<lambda>node. Inr (add_node node nw)))
         \<lparr>nwNodes = [], nwMask = empty_mask, nwByID = []\<rparr>)))"

section \<open>Masks\<close>

definition TaxiNetworkMask :: "taxi_store \<Rightarrow> go_error + u32 list" where
  "TaxiNetworkMask s = res_bind (taxiNetwork (tsFiles s)) (\<lambda>nw. Inr (nwMask nw))"

definition on_network :: "TaxiNode \<Rightarrow> bool" where
  "on_network node \<longleftrightarrow> tnID node \<noteq> 0 \<and> tnHasOutgoingPath node"

definition faction_node :: "bool \<Rightarrow> bool \<Rightarrow> TaxiNode \<Rightarrow> u32 list \<Rightarrow> u32 list" where
  "faction_node horde deathKnight node mk =
     (if \<not> on_network node then mk
      else
        let hordeMount = tnMountCreatureID node ! 0;
            allianceMount = tnMountCreatureID node ! 1;
            allianceMount = (if tnID node = 315 \<or> tnID node = 333 then taxiDKSpecialMount else allianceMount) in
        if node_field (tnID node) \<ge> taxiMaskSize then mk
        else
          let teamMount = (if horde then hordeMount else allianceMount);
              mk = (if teamMount \<noteq> 0 \<and> teamMount \<noteq> taxiDKSpecialMount then mask_add (tnID node) mk else mk) in
          if deathKnight \<and> (hordeMount = taxiDKSpecialMount \<or> allianceMount = taxiDKSpecialMount)
          then mask_add (tnID node) mk else mk)"

definition FactionTaxiMask :: "taxi_store \<Rightarrow> bool \<Rightarrow> bool \<Rightarrow> go_error + u32 list" where
  "FactionTaxiMask s horde deathKnight =
     res_bind (taxiNetwork (tsFiles s)) (\<lambda>nw. Inr (fold (faction_node horde deathKnight) (nwNodes nw) empty_mask))"

definition death_knight_node :: "TaxiNode \<Rightarrow> u32 list \<Rightarrow> u32 list" where
  "death_knight_node node mk =
     (if \<not> on_network node then mk
      else if tnMountCreatureID node ! 0 \<noteq> taxiDKSpecialMount \<and> tnMountCreatureID node ! 1 \<noteq> taxiDKSpecialMount then mk
      else if node_field (tnID node) \<ge> taxiMaskSize then mk
      else mask_add (tnID node) mk)"

definition DeathKnightTaxiMask :: "taxi_store \<Rightarrow> go_error + u32 list" where
  "DeathKnightTaxiMask s =
     res_bind (taxiNetwork (tsFiles s)) (\<lambda>nw. Inr (fold death_knight_node (nwNodes nw) empty_mask))"

definition OldContinentsTaxiNodes :: "taxi_store \<Rightarrow> go_error + u32 list" where
  "OldContinentsTaxiNodes s =
     res_bind (taxiNetwork (tsFiles s)) (\<lambda>nw. Inr (map tnID (filter (\<lambda>node. on_network node \<and>
       (tnContinentID node < 2 \<or> tnID node \<in> {82, 83, 93, 94})) (nwNodes nw))))"

definition TaxiMask :: "taxi_store \<Rightarrow> go_error + u32 list" where
  "TaxiMask s = res_bind (taxiNetwork (tsFiles s)) (\<lambda>nw. Inr (nwMask nw))"

section \<open>The overlay\<close>

definition overlay_get :: "('o \<Rightarrow> ('k, 'v) gomap) \<Rightarrow> 'o option \<Rightarrow> 'k \<Rightarrow> 'v option" where
  "overlay_get field ov key = (case ov of None \<Rightarrow> None | Some o' \<Rightarrow> gget (field o') key)"

definition taxiOverlayNode :: "taxi_store \<Rightarrow> u32 \<Rightarrow> TaxiNode option" where
  "taxiOverlayNode s key = overlay_get ovNodes (tsOverlay s) key"

definition taxiOverlayPathOf :: "taxi_store \<Rightarrow> u32 \<Rightarrow> taxiOverlayPath option" where
  "taxiOverlayPathOf s key = overlay_get ovPaths (tsOverlay s) key"

definition taxiOverlayLinkOf :: "taxi_store \<Rightarrow> u32 \<Rightarrow> u32 \<Rightarrow> taxiOverlayLink option" where
  "taxiOverlayLinkOf s from to = overlay_get ovLinks (tsOverlay s) (from, to)"

definition taxiPathRowCount :: "taxi_store \<Rightarrow> u32" where
  "taxiPathRowCount s =
     (case tsFiles s (table_name ''TaxiPath'') of Inl e \<Rightarrow> 0 | Inr f \<Rightarrow> word_of_int (Records f))"

definition new_overlay :: taxiOverlay where
  "new_overlay = \<lparr>ovNodes = [], ovPaths = [], ovLinks = [], ovNextNode = 500, ovPathCount = 0, ovSized = False\<rparr>"

definition waypoint_node :: "u32 \<Rightarrow> u32 \<Rightarrow> u32 \<Rightarrow> TaxiPathWaypoint \<Rightarrow> TaxiNode" where
  "waypoint_node nodeID mountA mountH w = \<lparr>tnID = nodeID, tnContinentID = sint (wpMapID w), tnX = wpX w, tnY = wpY w,
     tnZ = wpZ w, tnMountCreatureID = [mountH, mountA, 0, 0], tnHasOutgoingPath = False\<rparr>"

definition waypoint_point :: "TaxiPathWaypoint \<Rightarrow> TaxiSplinePoint" where
  "waypoint_point w = \<lparr>spMapID = sint (wpMapID w), spX = wpX w, spY = wpY w, spZ = wpZ w, spFlags = wpFlags w,
     spDelay = wpDelay w, spArrivalEventID = 0, spDepartureEventID = 0\<rparr>"

definition register_node :: "u32 \<Rightarrow> u32 \<Rightarrow> TaxiPathWaypoint \<Rightarrow> taxiOverlay \<Rightarrow> taxiOverlay" where
  "register_node mountA mountH w ov = ov
     \<lparr>ovNodes := gput (ovNextNode ov) (waypoint_node (ovNextNode ov) mountA mountH w) (ovNodes ov),
      ovNextNode := ovNextNode ov + 1\<rparr>"

definition RegisterTaxiPath ::
    "u32 \<Rightarrow> TaxiPathWaypoint list \<Rightarrow> u32 \<Rightarrow> u32 \<Rightarrow> u32 \<Rightarrow> taxi_store \<Rightarrow> u32 \<times> taxi_store" where
  "RegisterTaxiPath pathID waypoints mountA mountH price s =
     (if length waypoints < 2 then (pathID, s)
      else
        let ov = (case tsOverlay s of None \<Rightarrow> new_overlay | Some ov \<Rightarrow> ov);
            ov = (if ovSized ov then ov else ov\<lparr>ovPathCount := taxiPathRowCount s, ovSized := True\<rparr>);
            pathID = (if pathID = 0 then ovPathCount ov else pathID);
            ov = (if pathID + 1 > ovPathCount ov then ov\<lparr>ovPathCount := pathID + 1\<rparr> else ov);
            startNode = ovNextNode ov;
            ov = fold (register_node mountA mountH) waypoints ov;
            endNode = ovNextNode ov - 1;
            ov = ov\<lparr>ovPaths := gput pathID \<lparr>opFrom = startNode, opTo = endNode, opPrice = price,
                        opPoints = map waypoint_point waypoints\<rparr> (ovPaths ov),
                    ovLinks := gput (startNode, endNode) \<lparr>olPathID = pathID, olPrice = price\<rparr> (ovLinks ov)\<rparr> in
        (pathID, s\<lparr>tsOverlay := Some ov\<rparr>))"

section \<open>Lookups\<close>

text \<open>A loop over the records that returns at the first record it accepts.\<close>

fun search_records :: "dbc_file \<Rightarrow> (dbc_record \<Rightarrow> go_error + 'a option) \<Rightarrow> nat list \<Rightarrow> go_error + 'a option" where
  "search_records f body [] = Inr None"
| "search_records f body (i # is) =
     res_bind (Record f (int i)) (\<lambda>r. res_bind (body r) (\<lambda>x.
       case x of None \<Rightarrow> search_records f body is | Some y \<Rightarrow> Inr (Some y)))"

text \<open>From, to and price of a path; \<open>None\<close> is \<open>found = false\<close>.\<close>

definition TaxiPathEntry :: "taxi_store \<Rightarrow> u32 \<Rightarrow> go_error + (u32 \<times> u32 \<times> u32) option" where
  "TaxiPathEntry s pathID =
     (case taxiOverlayPathOf s pathID of
        Some p \<Rightarrow> Inr (Some (opFrom p, opTo p, opPrice p))
      | None \<Rightarrow>
          res_bind (tsFiles s (table_name ''TaxiPath'')) (\<lambda>f.
            search_records f (\<lambda>r. res_bind (Uint32Unchecked r 0) (\<lambda>key.
              if key \<noteq> pathID then Inr None
              else res_bind (Uint32 r 1) (\<lambda>from. res_bind (Uint32 r 2) (\<lambda>to. res_bind (Uint32 r 3) (\<lambda>price.
                Inr (Some (from, to, price))))))) [0..<nat (Records f)]))"

definition TaxiNodeExists :: "taxi_store \<Rightarrow> u32 \<Rightarrow> bool" where
  "TaxiNodeExists s node =
     (if taxiOverlayNode s node \<noteq> None then True
      else case taxiNetwork (tsFiles s) of Inl e \<Rightarrow> False | Inr nw \<Rightarrow> gget (nwByID nw) node \<noteq> None)"

definition TaxiPathLinks :: "taxi_store \<Rightarrow> u32 \<Rightarrow> u32 \<Rightarrow> go_error + (u32 \<times> u32) option" where
  "TaxiPathLinks s from to =
     (case taxiOverlayLinkOf s from to of
        Some l \<Rightarrow> Inr (Some (olPathID l, olPrice l))
      | None \<Rightarrow>
          res_bind (tsFiles s (table_name ''TaxiPath'')) (\<lambda>f.
            search_records f (\<lambda>r. res_bind (Uint32 r 1) (\<lambda>pathFrom. res_bind (Uint32 r 2) (\<lambda>pathTo.
              if pathFrom \<noteq> from \<or> pathTo \<noteq> to then Inr None
              else res_bind (Uint32 r 3) (\<lambda>price. res_bind (Uint32Unchecked r 0) (\<lambda>key. Inr (Some (key, price)))))))
              [0..<nat (Records f)]))"

text \<open>An error that the code looks at; a panic is not one.\<close>

definition attempt :: "go_error + 'a \<Rightarrow> ('a option \<Rightarrow> go_error + 'b) \<Rightarrow> go_error + 'b" where
  "attempt r f = (case r of Inr x \<Rightarrow> f (Some x) | Inl e \<Rightarrow> if e = Panic then Inl Panic else f None)"

definition or_zero :: "go_error + 'a \<Rightarrow> ('a :: zero \<Rightarrow> go_error + 'b) \<Rightarrow> go_error + 'b" where
  "or_zero r f = attempt r (\<lambda>x. f (case x of None \<Rightarrow> 0 | Some y \<Rightarrow> y))"

definition or_skip :: "go_error + 'a \<Rightarrow> ('a \<Rightarrow> go_error + 'b option) \<Rightarrow> go_error + 'b option" where
  "or_skip r f = attempt r (\<lambda>x. case x of None \<Rightarrow> Inr None | Some y \<Rightarrow> f y)"

definition path_point :: "u32 \<Rightarrow> dbc_record \<Rightarrow> go_error + (int \<times> TaxiSplinePoint) option" where
  "path_point pathID r =
     or_skip (Uint32 r 1) (\<lambda>nodePath.
       if nodePath \<noteq> pathID then Inr None
       else or_skip (Int32 r 2) (\<lambda>nodeIndex. or_zero (Int32 r 3) (\<lambda>mapID.
         or_skip (Float32 r 4) (\<lambda>x. or_skip (Float32 r 5) (\<lambda>y. or_skip (Float32 r 6) (\<lambda>z.
         or_zero (Uint32 r 7) (\<lambda>flags. or_zero (Uint32 r 8) (\<lambda>delay.
         or_zero (Uint32 r 9) (\<lambda>arrival. or_zero (Uint32 r 10) (\<lambda>departure.
           Inr (Some (nodeIndex, \<lparr>spMapID = mapID, spX = x, spY = y, spZ = z, spFlags = flags, spDelay = delay,
             spArrivalEventID = arrival, spDepartureEventID = departure\<rparr>))))))))))))"

definition TaxiPathPoints :: "taxi_store \<Rightarrow> u32 \<Rightarrow> go_error + TaxiSplinePoint list" where
  "TaxiPathPoints s pathID =
     (case taxiOverlayPathOf s pathID of
        Some p \<Rightarrow> Inr (opPoints p)
      | None \<Rightarrow>
          res_bind (tsFiles s (table_name ''TaxiPathNode'')) (\<lambda>f.
          res_bind (for_records f (\<lambda>r ps. res_bind (path_point pathID r) (\<lambda>p.
              Inr (case p of None \<Rightarrow> ps | Some q \<Rightarrow> ps @ [q]))) []) (\<lambda>ps.
            Inr (map snd (sort_key fst ps)))))"

definition TaxiNodeOf :: "taxi_store \<Rightarrow> u32 \<Rightarrow> go_error + TaxiNode option" where
  "TaxiNodeOf s key =
     (case taxiOverlayNode s key of
        Some node \<Rightarrow> Inr (Some node)
      | None \<Rightarrow> res_bind (taxiNetwork (tsFiles s)) (\<lambda>nw.
          Inr (map_option (\<lambda>index. nwNodes nw ! index) (gget (nwByID nw) key))))"

definition taxiNodeMountEntry :: "TaxiNode \<Rightarrow> bool \<Rightarrow> bool \<Rightarrow> u32" where
  "taxiNodeMountEntry node teamAlliance allowedAltTeam =
     (let teamIndex = (if teamAlliance then 1 else 0);
          entry = tnMountCreatureID node ! teamIndex in
      if entry \<noteq> 0 then entry
      else if allowedAltTeam then tnMountCreatureID node ! (1 - teamIndex)
      else 0)"

definition TaxiNodeMountEntry :: "taxi_store \<Rightarrow> u32 \<Rightarrow> bool \<Rightarrow> bool \<Rightarrow> go_error + u32" where
  "TaxiNodeMountEntry s node teamAlliance allowedAltTeam =
     (case taxiOverlayNode s node of
        Some n \<Rightarrow> Inr (taxiNodeMountEntry n teamAlliance allowedAltTeam)
      | None \<Rightarrow> res_bind (taxiNetwork (tsFiles s)) (\<lambda>nw.
          Inr (case gget (nwByID nw) node of
                 Some index \<Rightarrow> taxiNodeMountEntry (nwNodes nw ! index) teamAlliance allowedAltTeam
               | None \<Rightarrow> 0)))"

section \<open>The nearest node\<close>

text \<open>
  A sum of squares in \<^verbatim>\<open>float64\<close>, in units of \<open>2 ^ - 298\<close>: the square of a \<^verbatim>\<open>float32\<close> has at most 48 significant bits
  and is exact, each sum is rounded to 53 bits.
\<close>

definition f64_add :: "int \<Rightarrow> int \<Rightarrow> int" where
  "f64_add a b = (let n = a + b; s = nat (bitlen n - 53) in round_even n s * 2 ^ s)"

definition dist2 :: "f32v \<Rightarrow> f32v \<Rightarrow> f32v \<Rightarrow> TaxiNode \<Rightarrow> int" where
  "dist2 x y z node =
     (let dx = f32_add (f32_value (tnX node)) (- x);
          dy = f32_add (f32_value (tnY node)) (- y);
          dz = f32_add (f32_value (tnZ node)) (- z) in
      f64_add (f64_add (dx * dx) (dy * dy)) (dz * dz))"

definition in_mask :: "u32 \<Rightarrow> u32 list \<Rightarrow> bool" where
  "in_mask node mk \<longleftrightarrow> node \<noteq> 0 \<and> node_field node < taxiMaskSize \<and> has_flag (mk ! node_field node) (node_bit node)"

definition may_land :: "taxi_network \<Rightarrow> u32 \<Rightarrow> bool \<Rightarrow> TaxiNode \<Rightarrow> bool" where
  "may_land nw mapID teamAlliance node \<longleftrightarrow>
     tnContinentID node = sint mapID \<and>
     \<not> (tnMountCreatureID node ! (if teamAlliance then 1 else 0) = 0 \<and> tnMountCreatureID node ! 0 \<noteq> taxiDKSpecialMount) \<and>
     in_mask (tnID node) (nwMask nw)"

definition nearer :: "taxi_network \<Rightarrow> f32v \<Rightarrow> f32v \<Rightarrow> f32v \<Rightarrow> u32 \<Rightarrow> bool \<Rightarrow> TaxiNode \<Rightarrow> (int \<times> u32) option \<Rightarrow> (int \<times> u32) option" where
  "nearer nw x y z mapID teamAlliance node found =
     (if \<not> may_land nw mapID teamAlliance node then found
      else
        let d = dist2 x y z node in
        case found of
          None \<Rightarrow> Some (d, tnID node)
        | Some (best, key) \<Rightarrow> if d < best then Some (d, tnID node) else found)"

definition NearestTaxiNode :: "taxi_store \<Rightarrow> f32 \<Rightarrow> f32 \<Rightarrow> f32 \<Rightarrow> u32 \<Rightarrow> bool \<Rightarrow> go_error + u32" where
  "NearestTaxiNode s x y z mapID teamAlliance =
     res_bind (taxiNetwork (tsFiles s)) (\<lambda>nw.
       Inr (case fold (nearer nw (f32_value x) (f32_value y) (f32_value z) mapID teamAlliance) (nwNodes nw) None of
              None \<Rightarrow> 0 | Some (best, key) \<Rightarrow> key))"

end
