(* ===== verification/Taxi_Spec.thy ===== *)
theory Taxi_Spec
  imports Taxi
begin

text \<open>
  What the flight network promises: a mask holds exactly the nodes it should, the nearest node is the nearest, and a
  registered path is what the lookups give, under an id that nothing else had.
\<close>

section \<open>Masks\<close>

lemma has_flag_single: "has_flag w (push_bit n 1) \<longleftrightarrow> bit w n" if "n < LENGTH('a)" for w :: "'a::len word"
  using that by (auto simp: has_flag_bit bit_simps)

lemma node_bit_index: "unat ((node - 1) mod 32) < 32" for node :: u32
  by (simp add: unat_mod)

lemma in_mask_iff:
  "in_mask node mk \<longleftrightarrow> node \<noteq> 0 \<and> node_field node < taxiMaskSize \<and> bit (mk ! node_field node) (unat ((node - 1) mod 32))"
  unfolding in_mask_def node_bit_def using node_bit_index [of node] by (subst has_flag_single) simp_all

lemma node_eqI:
  fixes a b :: u32
  assumes "node_field a = node_field b" "unat ((a - 1) mod 32) = unat ((b - 1) mod 32)"
  shows "a = b"
proof -
  have "(a - 1) div 32 = (b - 1) div 32" "(a - 1) mod 32 = (b - 1) mod 32"
    using assms by (auto simp: node_field_def word_unat_eq_iff)
  then have "a - 1 = b - 1" by (metis div_mult_mod_eq)
  then show ?thesis by simp
qed

lemma in_mask_add:
  assumes "length mk = taxiMaskSize" "k \<noteq> 0" "node_field k < taxiMaskSize"
  shows "in_mask n (mask_add k mk) \<longleftrightarrow> in_mask n mk \<or> n = k"
proof (cases "node_field n = node_field k")
  case True
  have "bit (node_bit k) (unat ((n - 1) mod 32)) \<longleftrightarrow> unat ((n - 1) mod 32) = unat ((k - 1) mod 32)"
    using node_bit_index [of n] node_bit_index [of k] by (auto simp: node_bit_def bit_simps)
  then show ?thesis
    using True assms node_eqI [of n k] by (auto simp: in_mask_iff mask_add_def bit_simps)
next
  case False
  then show ?thesis using assms by (auto simp: in_mask_iff mask_add_def)
qed

lemma length_mask_add [simp]: "length (mask_add k mk) = length mk"
  by (simp add: mask_add_def)

lemma in_empty_mask [simp]: "\<not> in_mask n empty_mask"
  by (auto simp: in_mask_iff empty_mask_def)

lemma in_mask_fold:
  assumes step: "\<And>node mk. length mk = taxiMaskSize \<Longrightarrow>
      length (f node mk) = taxiMaskSize \<and> (in_mask n (f node mk) \<longleftrightarrow> in_mask n mk \<or> P node \<and> tnID node = n)"
    and "length mk = taxiMaskSize"
  shows "length (fold f nodes mk) = taxiMaskSize \<and>
    (in_mask n (fold f nodes mk) \<longleftrightarrow> in_mask n mk \<or> (\<exists>node \<in> set nodes. P node \<and> tnID node = n))"
  using assms(2)
proof (induction nodes arbitrary: mk)
  case (Cons node nodes)
  note s = step [OF Cons.prems, of node]
  have "length (f node mk) = taxiMaskSize" using s by blast
  from Cons.IH [OF this] show ?case using s by auto
qed simp

text \<open>The nodes that a mask of each kind should show.\<close>

definition shown_node :: "TaxiNode \<Rightarrow> bool" where
  "shown_node node \<longleftrightarrow> on_network node \<and> node_field (tnID node) < taxiMaskSize"

definition alliance_mount :: "TaxiNode \<Rightarrow> u32" where
  "alliance_mount node = (if tnID node = 315 \<or> tnID node = 333 then taxiDKSpecialMount else tnMountCreatureID node ! 1)"

definition serves :: "bool \<Rightarrow> bool \<Rightarrow> TaxiNode \<Rightarrow> bool" where
  "serves horde deathKnight node \<longleftrightarrow> shown_node node \<and>
     (let mount = (if horde then tnMountCreatureID node ! 0 else alliance_mount node) in
      mount \<noteq> 0 \<and> mount \<noteq> taxiDKSpecialMount \<or>
      deathKnight \<and> (tnMountCreatureID node ! 0 = taxiDKSpecialMount \<or> alliance_mount node = taxiDKSpecialMount))"

lemma faction_mask:
  "length (fold (faction_node horde dk) nodes empty_mask) = taxiMaskSize \<and>
    (in_mask n (fold (faction_node horde dk) nodes empty_mask) \<longleftrightarrow>
       in_mask n empty_mask \<or> (\<exists>node \<in> set nodes. serves horde dk node \<and> tnID node = n))"
  by (rule in_mask_fold)
    (auto simp: faction_node_def Let_def serves_def shown_node_def alliance_mount_def on_network_def in_mask_add empty_mask_def)

definition network_ok :: "taxi_network \<Rightarrow> bool" where
  "network_ok nw \<longleftrightarrow> length (nwMask nw) = taxiMaskSize \<and>
     (\<forall>n. in_mask n (nwMask nw) \<longleftrightarrow> (\<exists>node \<in> set (nwNodes nw). shown_node node \<and> tnID node = n)) \<and>
     (\<forall>n i. gget (nwByID nw) n = Some i \<longrightarrow> i < length (nwNodes nw) \<and> tnID (nwNodes nw ! i) = n) \<and>
     (\<forall>node \<in> set (nwNodes nw). gget (nwByID nw) (tnID node) \<noteq> None)"

lemma add_node_ok: "network_ok nw \<Longrightarrow> network_ok (add_node node nw)"
  by (auto simp: network_ok_def add_node_def in_mask_add shown_node_def on_network_def gomap_simps nth_append
      intro: less_SucI split: if_splits)

lemma taxiNetwork_ok: "taxiNetwork files = Inr nw \<Longrightarrow> network_ok nw"
  unfolding taxiNetwork_def for_records_def res_bind_eq_Inr
proof (elim exE conjE)
  fix nodesFile sources
  assume "res_fold (\<lambda>i s. res_bind (Record nodesFile (int i)) (\<lambda>r. res_bind (read_node sources r) (\<lambda>node. Inr (add_node node s))))
      [0..<nat (Records nodesFile)] \<lparr>nwNodes = [], nwMask = empty_mask, nwByID = []\<rparr> = Inr nw"
  then show ?thesis
  proof (rule res_fold_invariant)
    show "network_ok \<lparr>nwNodes = [], nwMask = empty_mask, nwByID = []\<rparr>"
      by (simp add: network_ok_def) (simp add: empty_mask_def)
  qed (auto simp: res_bind_eq_Inr intro: add_node_ok)
qed


section \<open>The nearest node\<close>

definition best_of :: "taxi_network \<Rightarrow> f32v \<Rightarrow> f32v \<Rightarrow> f32v \<Rightarrow> u32 \<Rightarrow> bool \<Rightarrow> TaxiNode list \<Rightarrow> (int \<times> u32) option \<Rightarrow> bool" where
  "best_of nw x y z mapID ally seen found \<longleftrightarrow>
     (case found of
        None \<Rightarrow> \<forall>m \<in> set seen. \<not> may_land nw mapID ally m
      | Some (best, key) \<Rightarrow> \<exists>node \<in> set seen. may_land nw mapID ally node \<and> tnID node = key \<and> dist2 x y z node = best \<and>
          (\<forall>m \<in> set seen. may_land nw mapID ally m \<longrightarrow> best \<le> dist2 x y z m))"

lemma best_of_step:
  "best_of nw x y z mapID ally seen found \<Longrightarrow>
    best_of nw x y z mapID ally (seen @ [node]) (nearer nw x y z mapID ally node found)"
proof (cases "\<exists>b. found = Some b \<and> may_land nw mapID ally node")
  case False
  assume "best_of nw x y z mapID ally seen found"
  then show ?thesis using False by (cases found) (auto simp: best_of_def nearer_def)
next
  case True
  assume prev: "best_of nw x y z mapID ally seen found"
  from True obtain best key where found: "found = Some (best, key)" and lands: "may_land nw mapID ally node" by auto
  then obtain old where old: "old \<in> set seen" "may_land nw mapID ally old" "tnID old = key" "dist2 x y z old = best"
    "\<forall>m \<in> set seen. may_land nw mapID ally m \<longrightarrow> best \<le> dist2 x y z m"
    using prev by (auto simp: best_of_def)
  show ?thesis
  proof (cases "dist2 x y z node < best")
    case True
    have "\<forall>m \<in> set (seen @ [node]). may_land nw mapID ally m \<longrightarrow> dist2 x y z node \<le> dist2 x y z m"
      using old(5) True by force
    then show ?thesis using True lands found by (simp add: best_of_def nearer_def Let_def)
  next
    case False
    then have "\<forall>m \<in> set (seen @ [node]). may_land nw mapID ally m \<longrightarrow> best \<le> dist2 x y z m"
      using old(5) by auto
    then show ?thesis using False lands found old(1-4) by (auto simp: best_of_def nearer_def Let_def)
  qed
qed

lemma best_of_fold:
  "best_of nw x y z mapID ally seen found \<Longrightarrow>
    best_of nw x y z mapID ally (seen @ nodes) (fold (nearer nw x y z mapID ally) nodes found)"
proof (induction nodes arbitrary: seen found)
  case (Cons node nodes)
  from Cons.IH [OF best_of_step [OF Cons.prems, of node]] show ?case by simp
qed simp

text \<open>
  C38: The nearest taxi node is the nearest: it is a node of the network on that map that serves the team, no other such node
  is closer, and the answer is zero if and only if there is none.
\<close>

theorem NearestTaxiNode_nearest:
  assumes "NearestTaxiNode s x y z mapID ally = Inr key"
  shows "\<exists>nw. taxiNetwork (tsFiles s) = Inr nw \<and>
    (key = 0 \<longleftrightarrow> (\<forall>m \<in> set (nwNodes nw). \<not> may_land nw mapID ally m)) \<and>
    (key \<noteq> 0 \<longrightarrow> (\<exists>node \<in> set (nwNodes nw). tnID node = key \<and> may_land nw mapID ally node \<and>
       (\<forall>m \<in> set (nwNodes nw). may_land nw mapID ally m \<longrightarrow>
          dist2 (f32_value x) (f32_value y) (f32_value z) node \<le> dist2 (f32_value x) (f32_value y) (f32_value z) m)))"
proof -
  from assms obtain nw where nw: "taxiNetwork (tsFiles s) = Inr nw"
    and key: "key = (case fold (nearer nw (f32_value x) (f32_value y) (f32_value z) mapID ally) (nwNodes nw) None of
                None \<Rightarrow> 0 | Some (best, key) \<Rightarrow> key)"
    by (auto simp: NearestTaxiNode_def res_bind_eq_Inr)
  have pos: "may_land nw mapID ally m \<Longrightarrow> tnID m \<noteq> 0" for m by (simp add: may_land_def in_mask_def)
  have "best_of nw (f32_value x) (f32_value y) (f32_value z) mapID ally ([] @ nwNodes nw)
      (fold (nearer nw (f32_value x) (f32_value y) (f32_value z) mapID ally) (nwNodes nw) None)"
    by (rule best_of_fold) (simp add: best_of_def)
  then show ?thesis
    using nw key pos by (auto simp: best_of_def split: option.splits prod.splits)
qed

section \<open>Registered paths\<close>

lemma fold_register_fields:
  "ovPaths (fold (register_node a h) ws ov) = ovPaths ov \<and> ovLinks (fold (register_node a h) ws ov) = ovLinks ov \<and>
    ovPathCount (fold (register_node a h) ws ov) = ovPathCount ov \<and> ovSized (fold (register_node a h) ws ov) = ovSized ov \<and>
    ovNextNode (fold (register_node a h) ws ov) = ovNextNode ov + of_nat (length ws)"
  by (induction ws arbitrary: ov) (simp_all add: register_node_def)

lemma fold_register_nodes:
  assumes "length ws < 2 ^ 32"
  shows "gget (ovNodes (fold (register_node a h) ws ov)) n =
    (if unat (n - ovNextNode ov) < length ws
     then Some (waypoint_node n a h (ws ! unat (n - ovNextNode ov)))
     else gget (ovNodes ov) n)"
  using assms
proof (induction ws arbitrary: ov)
  case (Cons w ws)
  let ?first = "ovNextNode ov"
  let ?ov = "register_node a h w ov"
  have nxt: "ovNextNode ?ov = ?first + 1" by (simp add: register_node_def)
  note IH = Cons.IH [of ?ov, unfolded nxt]
  show ?case
  proof (cases "n = ?first")
    case True
    then have "n - (?first + 1) = - 1" by simp
    then have "unat (n - (?first + 1)) = 2 ^ 32 - 1" by (simp add: unsigned_minus_1_eq_mask mask_eq_exp_minus_1)
    then show ?thesis using IH Cons.prems True by (simp add: register_node_def gomap_simps)
  next
    case False
    then have "n - ?first \<noteq> 0" by simp
    then obtain u where u: "unat (n - ?first) = Suc u" "unat (n - (?first + 1)) = u"
    proof -
      have "n - ?first \<noteq> 0" using False by simp
      then have "unat (n - ?first - 1) = unat (n - ?first) - 1" "0 < unat (n - ?first)"
        using unat_minus_one [of "n - ?first"] unat_gt_0 [of "n - ?first"] by blast+
      then show thesis by (intro that [of "unat (n - ?first) - 1"]) (simp_all add: diff_diff_eq)
    qed
    have "gget (ovNodes ?ov) n = gget (ovNodes ov) n" using False by (simp add: register_node_def gomap_simps)
    then show ?thesis using IH Cons.prems u by simp
  qed
qed simp

text \<open>The overlay before the registration, and the one after it.\<close>

definition overlay_of :: "taxi_store \<Rightarrow> taxiOverlay" where
  "overlay_of s =
     (let ov = (case tsOverlay s of None \<Rightarrow> new_overlay | Some ov \<Rightarrow> ov) in
      if ovSized ov then ov else ov\<lparr>ovPathCount := taxiPathRowCount s, ovSized := True\<rparr>)"

definition grown_count :: "u32 \<Rightarrow> u32 \<Rightarrow> u32" where
  "grown_count p c = (if p + 1 > c then p + 1 else c)"

lemma RegisterTaxiPath_overlay:
  assumes "RegisterTaxiPath pathID ws a h price s = (p, s')" "2 \<le> length ws"
  defines "first \<equiv> ovNextNode (overlay_of s)"
  shows "p = (if pathID = 0 then ovPathCount (overlay_of s) else pathID) \<and> tsFiles s' = tsFiles s \<and>
    (\<exists>ov. tsOverlay s' = Some ov \<and> ovSized ov \<and> ovPathCount ov = grown_count p (ovPathCount (overlay_of s)) \<and>
       ovNextNode ov = first + of_nat (length ws) \<and>
       ovPaths ov = gput p \<lparr>opFrom = first, opTo = first + of_nat (length ws - 1), opPrice = price,
         opPoints = map waypoint_point ws\<rparr> (ovPaths (overlay_of s)) \<and>
       ovLinks ov = gput (first, first + of_nat (length ws - 1)) \<lparr>olPathID = p, olPrice = price\<rparr> (ovLinks (overlay_of s)) \<and>
       (length ws < 2 ^ 32 \<longrightarrow> (\<forall>n. gget (ovNodes ov) n =
         (if unat (n - first) < length ws then Some (waypoint_node n a h (ws ! unat (n - first)))
          else gget (ovNodes (overlay_of s)) n))))"
proof -
  define q where "q = (if pathID = 0 then ovPathCount (overlay_of s) else pathID)"
  define ov1 where "ov1 = (if q + 1 > ovPathCount (overlay_of s) then (overlay_of s)\<lparr>ovPathCount := q + 1\<rparr> else overlay_of s)"
  define ov2 where "ov2 = fold (register_node a h) ws ov1"
  have run: "p = q" "s' = s\<lparr>tsOverlay := Some (ov2
      \<lparr>ovPaths := gput q \<lparr>opFrom = ovNextNode ov1, opTo = ovNextNode ov2 - 1, opPrice = price,
         opPoints = map waypoint_point ws\<rparr> (ovPaths ov2),
       ovLinks := gput (ovNextNode ov1, ovNextNode ov2 - 1) \<lparr>olPathID = q, olPrice = price\<rparr> (ovLinks ov2)\<rparr>)\<rparr>"
    using assms(1,2) by (auto simp: RegisterTaxiPath_def overlay_of_def Let_def q_def ov1_def ov2_def)
  have sized: "ovSized (overlay_of s)" by (simp add: overlay_of_def Let_def)
  have ov1: "ovPaths ov1 = ovPaths (overlay_of s)" "ovLinks ov1 = ovLinks (overlay_of s)"
    "ovNodes ov1 = ovNodes (overlay_of s)" "ovNextNode ov1 = first" "ovSized ov1"
    "ovPathCount ov1 = grown_count q (ovPathCount (overlay_of s))"
    using sized by (simp_all add: first_def grown_count_def ov1_def)
  have ov2: "ovPaths ov2 = ovPaths (overlay_of s)" "ovLinks ov2 = ovLinks (overlay_of s)" "ovSized ov2"
    "ovPathCount ov2 = grown_count q (ovPathCount (overlay_of s))" "ovNextNode ov2 = first + of_nat (length ws)"
    using fold_register_fields [of a h ws ov1] ov1 by (simp_all add: ov2_def)
  have last: "first + of_nat (length ws) - 1 = first + of_nat (length ws - 1)"
    using assms(2) by (simp add: of_nat_diff)
  have nodes: "length ws < 2 ^ 32 \<Longrightarrow> gget (ovNodes ov2) n =
      (if unat (n - first) < length ws then Some (waypoint_node n a h (ws ! unat (n - first)))
       else gget (ovNodes (overlay_of s)) n)" for n
    using fold_register_nodes [of ws a h ov1 n] ov1 by (simp add: ov2_def)
  show ?thesis
    using nodes by (simp add: run q_def [symmetric] ov1(4) ov2 last del: One_nat_def)
qed

lemma overlay_of_fields:
  "ovPaths (overlay_of s) = (case tsOverlay s of None \<Rightarrow> [] | Some ov \<Rightarrow> ovPaths ov) \<and>
    ovLinks (overlay_of s) = (case tsOverlay s of None \<Rightarrow> [] | Some ov \<Rightarrow> ovLinks ov) \<and>
    ovNodes (overlay_of s) = (case tsOverlay s of None \<Rightarrow> [] | Some ov \<Rightarrow> ovNodes ov)"
  by (simp add: overlay_of_def new_overlay_def Let_def split: option.split)

text \<open>
  A registered path is what the lookups give: its end nodes and price, its points in the order of the waypoints, the link
  between its ends, and its new nodes with the mounts of the two teams; every other path and node, and the masks, stay as
  they were.
\<close>

theorem RegisterTaxiPath_effect:
  assumes "RegisterTaxiPath pathID ws a h price s = (p, s')" "2 \<le> length ws" "length ws < 2 ^ 32"
  shows "\<exists>first. (pathID \<noteq> 0 \<longrightarrow> p = pathID) \<and>
    TaxiPathEntry s' p = Inr (Some (first, first + of_nat (length ws - 1), price)) \<and>
    TaxiPathPoints s' p = Inr (map waypoint_point ws) \<and>
    TaxiPathLinks s' first (first + of_nat (length ws - 1)) = Inr (Some (p, price)) \<and>
    (\<forall>i < length ws. TaxiNodeOf s' (first + of_nat i) = Inr (Some (waypoint_node (first + of_nat i) a h (ws ! i)))) \<and>
    (\<forall>q. q \<noteq> p \<longrightarrow> TaxiPathEntry s' q = TaxiPathEntry s q \<and> TaxiPathPoints s' q = TaxiPathPoints s q) \<and>
    (\<forall>n. (\<forall>i < length ws. n \<noteq> first + of_nat i) \<longrightarrow> TaxiNodeOf s' n = TaxiNodeOf s n) \<and>
    (\<forall>horde dk. TaxiNetworkMask s' = TaxiNetworkMask s \<and> FactionTaxiMask s' horde dk = FactionTaxiMask s horde dk)"
proof -
  let ?first = "ovNextNode (overlay_of s)"
  obtain ov where ov: "tsOverlay s' = Some ov" "tsFiles s' = tsFiles s" "pathID \<noteq> 0 \<longrightarrow> p = pathID"
    "ovPaths ov = gput p \<lparr>opFrom = ?first, opTo = ?first + of_nat (length ws - 1), opPrice = price,
         opPoints = map waypoint_point ws\<rparr> (ovPaths (overlay_of s))"
    "ovLinks ov = gput (?first, ?first + of_nat (length ws - 1)) \<lparr>olPathID = p, olPrice = price\<rparr> (ovLinks (overlay_of s))"
    "\<And>n. gget (ovNodes ov) n = (if unat (n - ?first) < length ws then Some (waypoint_node n a h (ws ! unat (n - ?first)))
          else gget (ovNodes (overlay_of s)) n)"
    using RegisterTaxiPath_overlay [OF assms(1,2)] assms(3) by auto
  have nodes: "unat (?first + of_nat i - ?first) = i" if "i < length ws" for i
    using that assms(3) by (simp add: unat_of_nat)
  have old: "gget (ovNodes ov) n = gget (ovNodes (overlay_of s)) n" if "\<forall>i < length ws. n \<noteq> ?first + of_nat i" for n
  proof -
    have "\<not> unat (n - ?first) < length ws"
    proof
      assume "unat (n - ?first) < length ws"
      moreover have "n = ?first + of_nat (unat (n - ?first))" by simp
      ultimately show False using that by blast
    qed
    then show ?thesis using ov(6) by simp
  qed
  have node_old: "TaxiNodeOf s' n = TaxiNodeOf s n" if "\<forall>i < length ws. n \<noteq> ?first + of_nat i" for n
    using old [OF that] ov overlay_of_fields [of s]
    by (simp add: TaxiNodeOf_def taxiOverlayNode_def overlay_get_def split: option.splits)
  have path_old: "taxiOverlayPathOf s' q = taxiOverlayPathOf s q" if "q \<noteq> p" for q
    using ov that overlay_of_fields [of s] by (simp add: taxiOverlayPathOf_def overlay_get_def gomap_simps split: option.splits)
  have entry_old: "TaxiPathEntry s' q = TaxiPathEntry s q \<and> TaxiPathPoints s' q = TaxiPathPoints s q" if "q \<noteq> p" for q
    unfolding TaxiPathEntry_def TaxiPathPoints_def path_old [OF that] ov(2) by simp
  have "taxiOverlayPathOf s' p = Some \<lparr>opFrom = ?first, opTo = ?first + of_nat (length ws - 1), opPrice = price,
         opPoints = map waypoint_point ws\<rparr>"
    by (simp add: taxiOverlayPathOf_def overlay_get_def ov(1,4) gomap_simps)
  then have entry: "TaxiPathEntry s' p = Inr (Some (?first, ?first + of_nat (length ws - 1), price))"
      "TaxiPathPoints s' p = Inr (map waypoint_point ws)"
    by (simp_all add: TaxiPathEntry_def TaxiPathPoints_def)
  have link: "TaxiPathLinks s' ?first (?first + of_nat (length ws - 1)) = Inr (Some (p, price))"
    by (simp add: TaxiPathLinks_def taxiOverlayLinkOf_def overlay_get_def ov(1,5) gomap_simps)
  have node: "TaxiNodeOf s' (?first + of_nat i) = Inr (Some (waypoint_node (?first + of_nat i) a h (ws ! i)))"
    if "i < length ws" for i
    using that nodes [OF that] by (simp add: TaxiNodeOf_def taxiOverlayNode_def overlay_get_def ov(1,6))
  have masks: "TaxiNetworkMask s' = TaxiNetworkMask s \<and> FactionTaxiMask s' horde dk = FactionTaxiMask s horde dk" for horde dk
    unfolding TaxiNetworkMask_def FactionTaxiMask_def ov(2) by simp
  show ?thesis
    using ov(3) entry link node entry_old node_old masks by blast
qed

section \<open>Fresh ids\<close>

text \<open>
  The stores that registrations bring about. The last id is left out: the count of the paths is one more than the largest
  id and would wrap.
\<close>

inductive taxi_reachable :: "dbc_files \<Rightarrow> taxi_store \<Rightarrow> bool" for files where
  loaded: "taxi_reachable files \<lparr>tsFiles = files, tsOverlay = None\<rparr>"
| registered: "taxi_reachable files s \<Longrightarrow> RegisterTaxiPath pathID ws a h price s = (p, s') \<Longrightarrow> p \<noteq> - 1 \<Longrightarrow>
    taxi_reachable files s'"

definition overlay_ok :: "taxi_store \<Rightarrow> bool" where
  "overlay_ok s \<longleftrightarrow> taxiPathRowCount s \<le> ovPathCount (overlay_of s) \<and>
     (\<forall>p. taxiOverlayPathOf s p \<noteq> None \<longrightarrow> p < ovPathCount (overlay_of s)) \<and>
     (\<forall>a b l. taxiOverlayLinkOf s a b = Some l \<longrightarrow> taxiOverlayPathOf s (olPathID l) \<noteq> None)"

lemma grown_count: "p \<noteq> - 1 \<Longrightarrow> p < grown_count p c \<and> c \<le> grown_count p c" for p c :: u32
proof -
  assume "p \<noteq> - 1"
  then have "1 + p \<noteq> 0" by (metis add.commute add_eq_0_iff)
  then have "p < p + 1" by (simp add: word_less_nat_alt unatSuc add.commute)
  then show ?thesis by (auto simp: grown_count_def)
qed

lemma RegisterTaxiPath_ok:
  assumes "overlay_ok s" "RegisterTaxiPath pathID ws a h price s = (p, s')" "p \<noteq> - 1"
  shows "overlay_ok s'"
proof (cases "2 \<le> length ws")
  case False
  then show ?thesis using assms(1,2) by (simp add: RegisterTaxiPath_def)
next
  case True
  from RegisterTaxiPath_overlay [OF assms(2) True] obtain ov where ov: "tsFiles s' = tsFiles s" "tsOverlay s' = Some ov" "ovSized ov"
    "ovPathCount ov = grown_count p (ovPathCount (overlay_of s))"
    "\<exists>path. ovPaths ov = gput p path (ovPaths (overlay_of s))"
    "\<exists>k price. ovLinks ov = gput k \<lparr>olPathID = p, olPrice = price\<rparr> (ovLinks (overlay_of s))"
    by blast
  have of: "overlay_of s' = ov" using ov(2,3) by (simp add: overlay_of_def)
  have rows: "taxiPathRowCount s' = taxiPathRowCount s" by (simp add: taxiPathRowCount_def ov(1))
  note count = grown_count [OF assms(3), of "ovPathCount (overlay_of s)"]
  have old: "ovPathCount (overlay_of s) \<ge> taxiPathRowCount s"
    "\<And>q. taxiOverlayPathOf s q \<noteq> None \<Longrightarrow> q < ovPathCount (overlay_of s)"
    "\<And>x y l. taxiOverlayLinkOf s x y = Some l \<Longrightarrow> taxiOverlayPathOf s (olPathID l) \<noteq> None"
    using assms(1) unfolding overlay_ok_def by blast+
  have paths: "taxiOverlayPathOf s' q \<noteq> None \<longleftrightarrow> q = p \<or> taxiOverlayPathOf s q \<noteq> None" for q
    using ov(2,5) overlay_of_fields [of s]
    by (auto simp: taxiOverlayPathOf_def overlay_get_def gomap_simps split: option.splits if_splits)
  have links: "l = \<lparr>olPathID = p, olPrice = olPrice l\<rparr> \<or> taxiOverlayLinkOf s x y = Some l"
    if "taxiOverlayLinkOf s' x y = Some l" for x y l
    using that ov(2,6) overlay_of_fields [of s]
    by (auto simp: taxiOverlayLinkOf_def overlay_get_def gomap_simps split: option.splits if_splits)
  have "taxiOverlayPathOf s' (olPathID l) \<noteq> None" if "taxiOverlayLinkOf s' x y = Some l" for x y l
    using links [OF that] old(3) paths by (metis taxiOverlayLink.select_convs(1))
  moreover have "q < grown_count p (ovPathCount (overlay_of s))" if "taxiOverlayPathOf s' q \<noteq> None" for q
    using that paths [of q] old(2) [of q] count by (metis less_le_trans)
  moreover have "taxiPathRowCount s \<le> grown_count p (ovPathCount (overlay_of s))" using old(1) count by (meson order_trans)
  ultimately show ?thesis unfolding overlay_ok_def of ov(4) rows by blast
qed

lemma taxi_reachable_ok: "taxi_reachable files s \<Longrightarrow> overlay_ok s \<and> tsFiles s = files"
proof (induction rule: taxi_reachable.induct)
  case loaded
  show ?case
    by (simp add: overlay_ok_def overlay_of_def new_overlay_def taxiOverlayPathOf_def taxiOverlayLinkOf_def overlay_get_def
        taxiPathRowCount_def)
next
  case (registered s pathID ws a h price p s')
  have "overlay_ok s'" using RegisterTaxiPath_ok [of s] registered by blast
  moreover have "tsFiles s' = tsFiles s"
    using RegisterTaxiPath_overlay [OF registered(2)] registered(2)
    by (cases "2 \<le> length ws") (simp_all add: RegisterTaxiPath_def)
  ultimately show ?case using registered by simp
qed


section \<open>A small network\<close>

text \<open>Two nodes of the alliance on map zero and one priced path from the first to the second.\<close>

definition two_nodes :: dbc_files where
  "two_nodes name =
     (if name = table_name ''TaxiNodes'' then Inr (layout_file 9 [[2, 0, 0, 0, 0, 0, 541, 0, 0], [3, 0, 0, 0, 0, 0, 541, 0, 0]] [])
      else if name = table_name ''TaxiPath'' then Inr (layout_file 4 [[1, 2, 3, 50]] [])
      else Inl (Err ''no such table''))"

definition two_nodes_store :: taxi_store where
  "two_nodes_store = \<lparr>tsFiles = two_nodes, tsOverlay = None\<rparr>"

lemma two_nodes_masks:
  "TaxiNetworkMask two_nodes_store = Inr (2 # replicate 13 0) \<and> FactionTaxiMask two_nodes_store False False = Inr (2 # replicate 13 0)"
  by code_simp

lemma two_nodes_nearest: "NearestTaxiNode two_nodes_store 0 0 0 0 True = Inr 2"
  by code_simp

definition flight :: "TaxiPathWaypoint list" where
  "flight = replicate 3 \<lparr>wpMapID = 1, wpX = 0, wpY = 0, wpZ = 0, wpFlags = 0, wpDelay = 0\<rparr>"

lemma flight_registered: "\<exists>s'. RegisterTaxiPath 0 flight 541 0 10 two_nodes_store = (1, s')"
  by (simp add: RegisterTaxiPath_def flight_def two_nodes_store_def taxiPathRowCount_def two_nodes_def table_name_def
      layout_file_def Records_def Let_def new_overlay_def)


theorem NearestTaxiNode_nearest_witness:
  "\<exists>nw node. taxiNetwork (tsFiles two_nodes_store) = Inr nw \<and> node \<in> set (nwNodes nw) \<and> tnID node = 2 \<and> may_land nw 0 True node"
  using NearestTaxiNode_nearest [OF two_nodes_nearest] by auto

theorem RegisterTaxiPath_effect_witness:
  "\<exists>p s'. RegisterTaxiPath 0 flight 541 0 10 two_nodes_store = (p, s') \<and> TaxiPathPoints s' p = Inr (map waypoint_point flight)"
proof -
  obtain s' where s': "RegisterTaxiPath 0 flight 541 0 10 two_nodes_store = (1, s')" using flight_registered by blast
  have "2 \<le> length flight" "length flight < 2 ^ 32" by (simp_all add: flight_def)
  from RegisterTaxiPath_effect [OF s' this] show ?thesis using s' by blast
qed


end
