(* ===== verification/Spell_Data.thy ===== *)
theory Spell_Data
  imports Go_Float
begin

text \<open>
  Spells as \<^verbatim>\<open>engine/data/wotlk\<close> holds them, and what it computes of each spell once: the value of an effect
  (\<^verbatim>\<open>store.go\<close>), which effects are positive (\<^verbatim>\<open>positivity.go\<close>) and whether the spell is binary (\<^verbatim>\<open>spell_binary.go\<close>).
  The record of a spell has the fields that the modelled code reads. A signed 32-bit number is an integer in range.
\<close>

section \<open>Spells\<close>

record SpellEffect =
  seEffect :: u32
  seBasePoints :: int
  seDieSides :: int
  seRealPointsPerLevel :: f32v
  seMechanic :: u32
  seAura :: u32
  seAuraPeriod :: u32
  seAmplitude :: f32v
  seImplicitTargetA :: u32
  seImplicitTargetB :: u32
  seRadiusIndex :: u32
  seMiscValue :: int
  seMiscValueB :: int
  seTriggerSpell :: u32
  seChainTargets :: u32
  seItemType :: u32
  sePointsPerCombo :: f32v
  seSpellClassMask :: "u32 list"
  seChainAmplitude :: f32v
  seBonusCoefficient :: f32v

definition no_effect :: SpellEffect where
  "no_effect = \<lparr>seEffect = 0, seBasePoints = 0, seDieSides = 0, seRealPointsPerLevel = 0, seMechanic = 0, seAura = 0,
     seAuraPeriod = 0, seAmplitude = 0, seImplicitTargetA = 0, seImplicitTargetB = 0, seRadiusIndex = 0, seMiscValue = 0,
     seMiscValueB = 0, seTriggerSpell = 0, seChainTargets = 0, seItemType = 0, sePointsPerCombo = 0,
     seSpellClassMask = [0, 0, 0], seChainAmplitude = 0, seBonusCoefficient = 0\<rparr>"

record Spell =
  spID :: u32
  spMechanic :: u32
  spAttributes :: u32
  spAttributesCu :: u32
  spAttributesEx3 :: u32
  spSpellFamilyName :: u32
  spSpellFamilyFlags :: "u32 list"
  spSpellIconID :: u32
  spSpellVisual :: "u32 list"
  spPowerType :: u32
  spRuneCostID :: u32
  spProcCharges :: u32
  spDurationIndex :: u32
  spCategory :: u32
  spSpellLevel :: u32
  spMaxLevel :: u32
  spBaseLevel :: u32
  spEffects :: "SpellEffect list"

definition no_spell :: Spell where
  "no_spell = \<lparr>spID = 0, spMechanic = 0, spAttributes = 0, spAttributesCu = 0, spAttributesEx3 = 0, spSpellFamilyName = 0,
     spSpellFamilyFlags = [0, 0, 0], spSpellIconID = 0, spSpellVisual = [0, 0], spPowerType = 0, spRuneCostID = 0,
     spProcCharges = 0, spDurationIndex = 0, spCategory = 0, spSpellLevel = 0, spMaxLevel = 0, spBaseLevel = 0, spEffects = [no_effect, no_effect, no_effect]\<rparr>"

section \<open>The value of an effect\<close>

text \<open>Truncation of a \<^verbatim>\<open>float32\<close> to \<^verbatim>\<open>int32\<close>; a value out of range keeps its low bits.\<close>

definition f32_to_i32 :: "f32v \<Rightarrow> int" where
  "f32_to_i32 a = to_i32 (sgn a * (\<bar>a\<bar> div f32_unit))"

definition calculatedBasePointsFrom :: "SpellEffect \<Rightarrow> int \<Rightarrow> Spell \<Rightarrow> u32 \<Rightarrow> int" where
  "calculatedBasePointsFrom e basePoints spell casterLevel =
     (if casterLevel > 0 \<and> seRealPointsPerLevel e \<noteq> 0 then
        let level = (if spMaxLevel spell > 0 \<and> casterLevel > spMaxLevel spell then spMaxLevel spell
                     else if casterLevel < spBaseLevel spell then spBaseLevel spell
                     else casterLevel);
            minimumLevel = (if spSpellLevel spell > spBaseLevel spell then spSpellLevel spell else spBaseLevel spell) in
        basePoints + f32_to_i32 (f32_mul (f32_of_int (uint level - uint minimumLevel)) (seRealPointsPerLevel e))
      else basePoints)"

definition calculatedBasePoints :: "SpellEffect \<Rightarrow> Spell \<Rightarrow> u32 \<Rightarrow> int" where
  "calculatedBasePoints e spell casterLevel = calculatedBasePointsFrom e (seBasePoints e) spell casterLevel"

text \<open>\<open>rand.Int64N n\<close> is a number \<open>r\<close> with \<open>0 \<le> r < n\<close>, an argument here; \<open>rolls\<close> is the bound that it is called with.\<close>

definition rolls :: "SpellEffect \<Rightarrow> int" where
  "rolls e = (if seDieSides e > 0 then seDieSides e else if seDieSides e < 0 then 2 - seDieSides e else 1)"

definition CalcValueForBase :: "SpellEffect \<Rightarrow> Spell \<Rightarrow> int \<Rightarrow> u32 \<Rightarrow> int \<Rightarrow> int" where
  "CalcValueForBase e spell baseAmount casterLevel r =
     (let basePoints = calculatedBasePointsFrom e baseAmount spell casterLevel in
      if seDieSides e > 0 then to_i32 (basePoints + 1 + r)
      else if seDieSides e < 0 then to_i32 (basePoints + seDieSides e + r)
      else to_i32 basePoints)"

definition CalcValueForLevel :: "SpellEffect \<Rightarrow> Spell \<Rightarrow> u32 \<Rightarrow> int \<Rightarrow> int" where
  "CalcValueForLevel e spell casterLevel r = CalcValueForBase e spell (seBasePoints e) casterLevel r"

definition CalcValue :: "SpellEffect \<Rightarrow> int \<Rightarrow> int" where
  "CalcValue e r = CalcValueForLevel e no_spell 0 r"

definition CalcValueRangeForLevel :: "SpellEffect \<Rightarrow> Spell \<Rightarrow> u32 \<Rightarrow> int \<times> int" where
  "CalcValueRangeForLevel e spell casterLevel =
     (let basePoints = calculatedBasePoints e spell casterLevel in
      if seDieSides e > 0 then (to_i32 (basePoints + 1), to_i32 (basePoints + seDieSides e))
      else if seDieSides e < 0 then (to_i32 (basePoints + seDieSides e), to_i32 (basePoints + 1))
      else (to_i32 basePoints, to_i32 basePoints))"

text \<open>
  The range announced for an effect is exactly what a cast can roll: a value lies in it if and only if some roll of the
  die gives it, as long as the base points and the die fit in 32 bits.
\<close>

theorem CalcValue_range_exact:
  assumes "CalcValueRangeForLevel e spell level = (lo, hi)"
    and "- (2 ^ 31) \<le> calculatedBasePoints e spell level + min 0 (seDieSides e)"
    and "calculatedBasePoints e spell level + max 1 (seDieSides e) < 2 ^ 31"
  shows "lo \<le> v \<and> v \<le> hi \<longleftrightarrow> (\<exists>r. 0 \<le> r \<and> r < rolls e \<and> CalcValueForLevel e spell level r = v)"
proof -
  let ?b = "calculatedBasePoints e spell level" and ?d = "seDieSides e"
  have base: "calculatedBasePointsFrom e (seBasePoints e) spell level = ?b" by (simp add: calculatedBasePoints_def)
  consider "?d > 0" | "?d < 0" | "?d = 0" by linarith
  then show ?thesis
  proof cases
    case 1
    then have r: "lo = ?b + 1 \<and> hi = ?b + ?d" using assms by (auto simp: CalcValueRangeForLevel_def Let_def)
    have "0 \<le> x \<Longrightarrow> x < ?d \<Longrightarrow> CalcValueForLevel e spell level x = ?b + 1 + x" for x
      using 1 assms(2,3) by (simp add: CalcValueForLevel_def CalcValueForBase_def base Let_def)
    then show ?thesis using 1 r
      by (auto simp: rolls_def intro!: exI [of _ "v - ?b - 1"])
  next
    case 2
    then have r: "lo = ?b + ?d \<and> hi = ?b + 1" using assms by (auto simp: CalcValueRangeForLevel_def Let_def)
    have "0 \<le> x \<Longrightarrow> x < 2 - ?d \<Longrightarrow> CalcValueForLevel e spell level x = ?b + ?d + x" for x
      using 2 assms(2,3) by (simp add: CalcValueForLevel_def CalcValueForBase_def base Let_def)
    then show ?thesis using 2 r
      by (auto simp: rolls_def intro!: exI [of _ "v - ?b - ?d"])
  next
    case 3
    then show ?thesis using assms
      by (auto simp: rolls_def CalcValueRangeForLevel_def CalcValueForLevel_def CalcValueForBase_def base Let_def intro!: exI [of _ 0])
  qed
qed

theorem CalcValue_range_exact_witness:
  "\<exists>r. 0 \<le> r \<and> r < 3 \<and> CalcValueForLevel (no_effect\<lparr>seBasePoints := 10, seDieSides := 3\<rparr>) no_spell 1 r = 13"
  using CalcValue_range_exact [of "no_effect\<lparr>seBasePoints := 10, seDieSides := 3\<rparr>" no_spell 1 11 13 13]
  by (simp add: CalcValueRangeForLevel_def calculatedBasePoints_def calculatedBasePointsFrom_def no_effect_def rolls_def)

end
