(* ===== verification/Spell_Positivity.thy ===== *)
theory Spell_Positivity
  imports Spell_Data
begin

text \<open>
  \<^verbatim>\<open>engine/data/wotlk/positivity.go\<close>: which effects of a spell are positive. The search follows the spells that an
  effect triggers, which may trigger each other; a set of the effects already visited stops the cycles. It is shared by
  the whole search and returned here. A lookup of a spell is a function; an index below three names an effect.
\<close>

section \<open>Tables\<close>

abbreviation (input) spellAttr0Passive :: u32 where "spellAttr0Passive \<equiv> 0x00000040"
abbreviation (input) spellAttr0Negative1 :: u32 where "spellAttr0Negative1 \<equiv> 0x04000000"
abbreviation (input) spellAttr0CuNegativeEff0 :: u32 where "spellAttr0CuNegativeEff0 \<equiv> 0x00001000"

text \<open>Heal, learn spell, skill step and heal percent make a spell positive.\<close>

definition positive_prescan_effects :: "u32 set" where
  "positive_prescan_effects = {10, 36, 44, 136}"

definition negative_effects :: "u32 set" where
  "negative_effects = {58, 17, 121, 31, 2, 7, 9, 1, 8, 126, 68, 71, 87, 111, 115, 129, 55, 69}"

definition positive_effects :: "u32 set" where
  "positive_effects = {30, 137, 136, 67, 75}"

definition negative_auras :: "u32 set" where
  "negative_auras = {5, 86, 26, 27, 221, 95, 53, 64, 68, 314, 3, 89, 165, 127}"

definition cross_auras :: "u32 set" where
  "cross_auras = {4, 12, 7, 11, 56, 9, 33}"

definition area_aura_effects :: "u32 set" where
  "area_aura_effects = {6, 27, 35, 65, 128, 129, 119, 143}"

definition isAuraEffect :: "SpellEffect \<Rightarrow> bool" where
  "isAuraEffect e \<longleftrightarrow> seEffect e \<in> area_aura_effects \<and> seAura e \<noteq> 0"

definition IsPositiveEffect :: "Spell \<Rightarrow> int \<Rightarrow> bool" where
  "IsPositiveEffect spell effIndex \<longleftrightarrow>
     0 \<le> effIndex \<and> effIndex < int (length (spEffects spell)) \<and>
     \<not> has_flag (spAttributesCu spell) (push_bit (nat effIndex) spellAttr0CuNegativeEff0)"

definition same_targets :: "SpellEffect \<Rightarrow> SpellEffect \<Rightarrow> bool" where
  "same_targets e e' \<longleftrightarrow> seImplicitTargetA e = seImplicitTargetA e' \<and> seImplicitTargetB e = seImplicitTargetB e'"

section \<open>The whole-spell scan\<close>

text \<open>\<open>Some\<close> is a decision.\<close>

fun prescan_from :: "Spell \<Rightarrow> nat \<Rightarrow> nat list \<Rightarrow> bool option" where
  "prescan_from spell effIndex [] = None"
| "prescan_from spell effIndex (i # is) =
     (let e = spEffects spell ! i in
      if seEffect e \<in> positive_prescan_effects then Some True
      else if seEffect e = 1 \<and> i \<noteq> effIndex \<and> same_targets e (spEffects spell ! effIndex) then Some False
      else if isAuraEffect e \<and> seAura e \<in> {16, 93} then Some True
      else if isAuraEffect e \<and> seAura e \<in> {301, 121, 271, 92} then Some False
      else prescan_from spell effIndex is)"

definition prescanEffectPositivity :: "Spell \<Rightarrow> nat \<Rightarrow> bool option" where
  "prescanEffectPositivity spell effIndex = prescan_from spell effIndex [0..<length (spEffects spell)]"

text \<open>The decisions that look at one effect only, after the scan.\<close>

definition effect_verdict :: "SpellEffect \<Rightarrow> bool option" where
  "effect_verdict e =
     (if seEffect e \<in> negative_effects then Some False
      else if seEffect e \<in> positive_effects then Some True
      else if seEffect e = 38 \<and> seMiscValue e \<in> {5, 6, 9} then Some False
      else if isAuraEffect e \<and> seAura e \<in> negative_auras then Some False
      else None)"

section \<open>The search\<close>

type_synonym visited = "(u32 \<times> u32) list"

text \<open>
  \<open>isPositiveEffectImpl\<close> and its loop over the effects of a triggered spell. A slice of effects that an index leaves is not
  read: the loop runs over the indexes of the spell it triggers.
\<close>

function isPositiveEffectImpl :: "(u32 \<Rightarrow> Spell option) \<Rightarrow> Spell \<Rightarrow> nat \<Rightarrow> visited \<Rightarrow> bool \<times> visited"
  and triggered_loop :: "(u32 \<Rightarrow> Spell option) \<Rightarrow> Spell \<Rightarrow> nat list \<Rightarrow> visited \<Rightarrow> bool \<times> visited" where
  "isPositiveEffectImpl lookup spell effIndex visiting =
     (let e = spEffects spell ! effIndex in
      if seEffect e = 0 then (True, visiting)
      else if has_flag (spAttributes spell) spellAttr0Passive then (True, visiting)
      else if has_flag (spAttributes spell) spellAttr0Negative1 then (False, visiting)
      else
        let visiting = (spID spell, of_nat effIndex) # visiting in
        case prescanEffectPositivity spell effIndex of
          Some positive \<Rightarrow> (positive, visiting)
        | None \<Rightarrow>
            case effect_verdict e of
              Some positive \<Rightarrow> (positive, visiting)
            | None \<Rightarrow>
                if seAura e = 0 \<and> seTriggerSpell e \<noteq> 0 then
                  case lookup (seTriggerSpell e) of
                    None \<Rightarrow> (True, visiting)
                  | Some triggered \<Rightarrow> triggered_loop lookup triggered [0..<length (spEffects triggered)] visiting
                else (True, visiting))"
| "triggered_loop lookup triggered [] visiting = (True, visiting)"
| "triggered_loop lookup triggered (i # is) visiting =
     (if seEffect (spEffects triggered ! i) = 0 then triggered_loop lookup triggered is visiting
      else if (spID triggered, of_nat i) \<in> set visiting then triggered_loop lookup triggered is visiting
      else case isPositiveEffectImpl lookup triggered i visiting of
             (positive, visiting') \<Rightarrow>
               if \<not> positive then (False, visiting') else triggered_loop lookup triggered is visiting')"
  by pat_completeness auto

text \<open>The recursion is nested: that visited effects stay visited comes first, under the assumption that a call returns.\<close>

lemma visiting_grows_dom:
  "isPositiveEffectImpl_triggered_loop_dom (Inl (lookup, spell, i, V)) \<Longrightarrow> set V \<subseteq> set (snd (isPositiveEffectImpl lookup spell i V))"
  "isPositiveEffectImpl_triggered_loop_dom (Inr (lookup, spell, is, V)) \<Longrightarrow> set V \<subseteq> set (snd (triggered_loop lookup spell is V))"
proof (induction lookup spell i V and lookup spell "is" V rule: isPositiveEffectImpl_triggered_loop.pinduct)
  case (1 lookup spell effIndex V)
  then show ?case
    by (auto simp: isPositiveEffectImpl.psimps Let_def split: option.splits)
next
  case (2 lookup spell V)
  then show ?case by (simp add: triggered_loop.psimps)
next
  case (3 lookup triggered i "is" V)
  consider (empty) "seEffect (spEffects triggered ! i) = 0"
    | (seen) "seEffect (spEffects triggered ! i) \<noteq> 0" "(spID triggered, of_nat i) \<in> set V"
    | (call) "seEffect (spEffects triggered ! i) \<noteq> 0" "(spID triggered, of_nat i) \<notin> set V"
    by blast
  then show ?case
  proof cases
    case empty
    then show ?thesis using 3(2) [OF empty] by (simp add: triggered_loop.psimps(2) [OF 3(1)])
  next
    case seen
    then show ?thesis using 3(3) [OF seen] by (simp add: triggered_loop.psimps(2) [OF 3(1)])
  next
    case call
    obtain positive V' where r: "isPositiveEffectImpl lookup triggered i V = (positive, V')" by (rule prod.exhaust)
    have "set V \<subseteq> set V'" using 3(4) [OF call] r by simp
    moreover have "positive \<Longrightarrow> set V' \<subseteq> set (snd (triggered_loop lookup triggered is V'))"
      using 3(5) [OF call r [symmetric]] by simp
    ultimately show ?thesis using call r by (auto simp: triggered_loop.psimps(2) [OF 3(1)])
  qed
qed

definition unvisited :: "visited \<Rightarrow> nat" where
  "unvisited V = card (UNIV - set V)"

lemma unvisited_mono: "set V \<subseteq> set V' \<Longrightarrow> unvisited V' \<le> unvisited V"
  unfolding unvisited_def by (rule card_mono) auto

lemma unvisited_insert: "p \<notin> set V \<Longrightarrow> unvisited V = Suc (unvisited (p # V))"
proof -
  assume "p \<notin> set V"
  then have "UNIV - set V = insert p (UNIV - set (p # V))" by auto
  then have "unvisited V = card (insert p (UNIV - set (p # V)))" by (simp add: unvisited_def)
  also have "\<dots> = Suc (unvisited (p # V))" unfolding unvisited_def by (rule card_insert_disjoint) auto
  finally show ?thesis .
qed

lemma unvisited_visited: "p \<in> set V \<Longrightarrow> unvisited (p # V) = unvisited V"
  by (simp add: unvisited_def insert_absorb)

termination isPositiveEffectImpl
proof (relation "inv_image (less_than <*lex*> less_than) (\<lambda>c. case c of
    Inl (lookup, spell, i, V) \<Rightarrow> (3 * unvisited V + (if (spID spell, of_nat i) \<in> set V then 2 else 0), 0)
  | Inr (lookup, spell, is, V) \<Rightarrow> (3 * unvisited V + 1, length is))", goal_cases)
  case 1
  show ?case by (simp add: wf_inv_image wf_lex_prod)
next
  case (2 lookup spell i V e V' triggered)
  then have V': "V' = (spID spell, of_nat i) # V" by simp
  show ?case
    using unvisited_insert [of "(spID spell, of_nat i)" V] unvisited_visited [of "(spID spell, of_nat i)" V]
    by (cases "(spID spell, of_nat i) \<in> set V") (simp_all add: V')
next
  case (3 lookup triggered i "is" V)
  then show ?case by simp
next
  case (4 lookup triggered i "is" V)
  then show ?case by simp
next
  case (5 lookup triggered i "is" V)
  then show ?case by simp
next
  case (6 lookup triggered i "is" V positive V')
  then have "set V \<subseteq> set V'" using visiting_grows_dom(1) [OF 6(5)] by (metis snd_conv)
  then show ?case using unvisited_mono [of V V'] by auto
qed


declare isPositiveEffectImpl.simps [simp del]

section \<open>The bits of a spell\<close>

definition set_negative :: "Spell \<Rightarrow> nat \<Rightarrow> Spell" where
  "set_negative spell i = spell\<lparr>spAttributesCu := spAttributesCu spell OR push_bit i spellAttr0CuNegativeEff0\<rparr>"

fun negative_pass :: "(u32 \<Rightarrow> Spell option) \<Rightarrow> nat list \<Rightarrow> Spell \<times> visited \<Rightarrow> Spell \<times> visited" where
  "negative_pass lookup [] (spell, visiting) = (spell, visiting)"
| "negative_pass lookup (i # is) (spell, visiting) =
     (case isPositiveEffectImpl lookup spell i visiting of
        (positive, visiting') \<Rightarrow>
          negative_pass lookup is (if \<not> positive then set_negative spell i else spell, visiting'))"

text \<open>A later negative effect with the same targets turns an effect that applies one of the cross auras.\<close>

fun cross_inner :: "nat \<Rightarrow> nat list \<Rightarrow> Spell \<Rightarrow> Spell" where
  "cross_inner i [] spell = spell"
| "cross_inner i (j # js) spell =
     cross_inner i js
       (if \<not> IsPositiveEffect spell (int j) \<and> same_targets (spEffects spell ! i) (spEffects spell ! j)
        then set_negative spell i else spell)"

fun cross_pass :: "nat list \<Rightarrow> Spell \<Rightarrow> Spell" where
  "cross_pass [] spell = spell"
| "cross_pass (i # is) spell =
     cross_pass is
       (if seEffect (spEffects spell ! i) = 0 \<or> \<not> IsPositiveEffect spell (int i) then spell
        else if seAura (spEffects spell ! i) \<in> cross_auras
          then cross_inner i [i + 1..<length (spEffects spell)] spell
        else spell)"

definition initializeSpellPositivity :: "(u32 \<Rightarrow> Spell option) \<Rightarrow> Spell \<Rightarrow> visited \<Rightarrow> Spell \<times> visited" where
  "initializeSpellPositivity lookup spell visiting =
     (case negative_pass lookup [0..<length (spEffects spell)] (spell, visiting) of
        (spell, visiting) \<Rightarrow> (cross_pass [0..<length (spEffects spell)] spell, visiting))"

definition spellIsPositive :: "Spell \<Rightarrow> bool" where
  "spellIsPositive spell \<longleftrightarrow>
     (\<forall>i \<in> set [0..<length (spEffects spell)]. seEffect (spEffects spell ! i) \<noteq> 0 \<longrightarrow> IsPositiveEffect spell (int i))"

end
