(* ===== verification/Spell_Binary.thy ===== *)
theory Spell_Binary
  imports Spell_Positivity
begin

text \<open>
  \<^verbatim>\<open>engine/data/wotlk/spell_binary.go\<close>: whether a spell is binary, which \<^verbatim>\<open>Store.Spell\<close> computes once and
  remembers. The value of an effect rolls a die: \<open>rs j\<close> is the number that \<open>rand\<close> gives for effect \<open>j\<close>.
\<close>

abbreviation (input) spellAttr3IgnoreHitResult :: u32 where "spellAttr3IgnoreHitResult \<equiv> 0x00040000"
abbreviation (input) spellAttr0UnaffectedByInvulnerability :: u32 where "spellAttr0UnaffectedByInvulnerability \<equiv> 0x20000000"
abbreviation (input) spellAttr0CuBinarySpell :: u32 where "spellAttr0CuBinarySpell \<equiv> 0x00100000"
abbreviation (input) spellEffectInterruptCast :: u32 where "spellEffectInterruptCast \<equiv> 68"
abbreviation (input) spellFamilyMage :: u32 where "spellFamilyMage \<equiv> 3"
abbreviation (input) spellFamilyWarlock :: u32 where "spellFamilyWarlock \<equiv> 5"

text \<open>The damage and trigger effects, which the scan skips, and the aura effects with the auras that it skips.\<close>

definition skipped_effects :: "u32 set" where
  "skipped_effects = {2, 58, 17, 121, 31, 64, 142}"

definition binary_aura_effects :: "u32 set" where
  "binary_aura_effects = {27, 6, 35, 65, 128, 129, 119, 143}"

definition skipped_auras :: "u32 set" where
  "skipped_auras = {3, 89, 4, 53, 62, 226}"

definition crowd_control_auras :: "u32 set" where
  "crowd_control_auras = {2, 5, 6, 177, 7, 12}"

definition binaryEffectSetsFlag :: "Spell \<Rightarrow> SpellEffect \<Rightarrow> bool \<Rightarrow> int \<Rightarrow> bool" where
  "binaryEffectSetsFlag spell eff auraCC r =
     (if CalcValue eff r = 0 \<and>
         \<not> ((seEffect eff = spellEffectInterruptCast \<or> auraCC) \<and>
           \<not> has_flag (spAttributes spell) spellAttr0UnaffectedByInvulnerability) then False
      else if spID spell \<in> {69649, 71056, 71057, 71058, 73061, 73062, 73063, 73064} then False
      else if spSpellFamilyName spell = spellFamilyMage \<and> has_flag (spSpellFamilyFlags spell ! 0) 0x20 then False
      else if spID spell = 55095 then False
      else if spSpellFamilyName spell = spellFamilyWarlock \<and> has_flag (spSpellFamilyFlags spell ! 1) 0x40000 then False
      else True)"

text \<open>The body of the loop over the effects: whether effect \<open>j\<close> sets the flag.\<close>

definition binary_effect :: "Spell \<Rightarrow> bool \<Rightarrow> SpellEffect \<Rightarrow> int \<Rightarrow> bool" where
  "binary_effect spell auraCC eff r =
     (if seEffect eff = 0 then False
      else if seEffect eff \<in> skipped_effects then False
      else if seEffect eff \<in> binary_aura_effects then
        (if seAura eff \<in> skipped_auras then False else binaryEffectSetsFlag spell eff auraCC r)
      else binaryEffectSetsFlag spell eff auraCC r)"

definition has_crowd_control :: "Spell \<Rightarrow> bool" where
  "has_crowd_control spell \<longleftrightarrow> (\<exists>eff \<in> set (spEffects spell). seAura eff \<in> crowd_control_auras)"

definition initializeSpellBinaryFlag :: "(nat \<Rightarrow> int) \<Rightarrow> Spell \<Rightarrow> Spell" where
  "initializeSpellBinaryFlag rs spell =
     (if has_flag (spAttributesEx3 spell) spellAttr3IgnoreHitResult then spell
      else if \<exists>j \<in> set [0..<length (spEffects spell)].
                binary_effect spell (has_crowd_control spell) (spEffects spell ! j) (rs j)
        then spell\<lparr>spAttributesCu := spAttributesCu spell OR spellAttr0CuBinarySpell\<rparr>
      else spell)"

text \<open>
  \<^verbatim>\<open>Store.Spell\<close>: the record, with the attributes that the memo holds or that are computed and remembered now.
  \<open>lookup\<close> is \<^verbatim>\<open>Store.spell\<close>, which reads the table; that the table has no such spell or cannot be read is \<open>None\<close>.
\<close>

definition initialized :: "(u32 \<Rightarrow> Spell option) \<Rightarrow> (nat \<Rightarrow> int) \<Rightarrow> Spell \<Rightarrow> Spell" where
  "initialized lookup rs spell = initializeSpellBinaryFlag rs (fst (initializeSpellPositivity lookup spell []))"

definition Store_Spell :: "(u32 \<Rightarrow> Spell option) \<Rightarrow> (nat \<Rightarrow> int) \<Rightarrow> (u32 \<rightharpoonup> u32) \<Rightarrow> u32 \<Rightarrow> Spell option \<times> (u32 \<rightharpoonup> u32)" where
  "Store_Spell lookup rs memo spellID =
     (case lookup spellID of
        None \<Rightarrow> (None, memo)
      | Some spell \<Rightarrow>
          (case memo spellID of
             None \<Rightarrow> (let spell = initialized lookup rs spell in (Some spell, memo(spellID \<mapsto> spAttributesCu spell)))
           | Some cu \<Rightarrow> (Some (spell\<lparr>spAttributesCu := cu\<rparr>), memo)))"

text \<open>
  The value remembered is not a function of the table: an effect worth 0 or 1 makes the spell binary or not as the die falls
  when it is first asked for.
\<close>

definition coin_slow :: Spell where
  "coin_slow = no_spell\<lparr>spID := 9, spEffects :=
     [no_effect\<lparr>seEffect := 6, seAura := 33, seBasePoints := -1, seDieSides := 2\<rparr>, no_effect, no_effect]\<rparr>"

lemma binary_flag_is_rolled:
  "rolls (spEffects coin_slow ! 0) = 2 \<and>
   \<not> has_flag (spAttributesCu (initialized (\<lambda>_. None) (\<lambda>_. 0) coin_slow)) spellAttr0CuBinarySpell \<and>
   has_flag (spAttributesCu (initialized (\<lambda>_. None) (\<lambda>_. 1) coin_slow)) spellAttr0CuBinarySpell"
  by code_simp

text \<open>Two valid rolls give the same flag when no effect has a die with more than one side.\<close>

definition valid_rolls :: "Spell \<Rightarrow> (nat \<Rightarrow> int) \<Rightarrow> bool" where
  "valid_rolls spell rs \<longleftrightarrow> (\<forall>j < length (spEffects spell). 0 \<le> rs j \<and> rs j < rolls (spEffects spell ! j))"

lemma binary_flag_of_plain_values:
  assumes "\<forall>e \<in> set (spEffects spell). seDieSides e \<in> {0, 1}" "valid_rolls spell rs" "valid_rolls spell rs'"
  shows "initializeSpellBinaryFlag rs spell = initializeSpellBinaryFlag rs' spell"
proof -
  have "rs j = 0 \<and> rs' j = 0" if "j < length (spEffects spell)" for j
  proof -
    have "seDieSides (spEffects spell ! j) \<in> {0, 1}" using assms(1) that by simp
    then have "rolls (spEffects spell ! j) = 1" by (auto simp: rolls_def)
    then show ?thesis using assms(2,3) that by (fastforce simp: valid_rolls_def)
  qed
  then show ?thesis by (simp add: initializeSpellBinaryFlag_def cong: if_cong)
qed

section \<open>The memo\<close>

text \<open>Asking for spells, in any order and with any rolls.\<close>

fun ask :: "(u32 \<Rightarrow> Spell option) \<Rightarrow> (u32 \<times> (nat \<Rightarrow> int)) list \<Rightarrow> (u32 \<rightharpoonup> u32) \<Rightarrow> (u32 \<rightharpoonup> u32)" where
  "ask lookup [] memo = memo"
| "ask lookup ((spellID, rs) # asks) memo = ask lookup asks (snd (Store_Spell lookup rs memo spellID))"

lemma negative_pass_Cu: "\<exists>cu. fst (negative_pass lookup is (spell, V)) = spell\<lparr>spAttributesCu := cu\<rparr>"
proof (induction "is" arbitrary: spell V)
  case Nil
  then show ?case by (auto intro: exI [of _ "spAttributesCu spell"])
next
  case (Cons i "is")
  obtain positive V' where r: "isPositiveEffectImpl lookup spell i V = (positive, V')" by (rule prod.exhaust)
  from Cons.IH [of spell V'] Cons.IH [of "set_negative spell i" V'] show ?case
    by (cases positive) (auto simp: r set_negative_def)
qed

lemma cross_inner_Cu: "\<exists>cu. cross_inner i js spell = spell\<lparr>spAttributesCu := cu\<rparr>"
proof (induction js arbitrary: spell)
  case Nil
  then show ?case by (auto intro: exI [of _ "spAttributesCu spell"])
next
  case (Cons j js)
  from Cons.IH [of spell] Cons.IH [of "set_negative spell i"] show ?case by (auto simp: set_negative_def)
qed

lemma cross_pass_Cu: "\<exists>cu. cross_pass is spell = spell\<lparr>spAttributesCu := cu\<rparr>"
proof (induction "is" arbitrary: spell)
  case Nil
  then show ?case by (auto intro: exI [of _ "spAttributesCu spell"])
next
  case (Cons i "is")
  obtain cu where cu: "cross_inner i [Suc i..<length (spEffects spell)] spell = spell\<lparr>spAttributesCu := cu\<rparr>"
    using cross_inner_Cu by blast
  from Cons.IH [of spell] Cons.IH [of "spell\<lparr>spAttributesCu := cu\<rparr>"] show ?case by (auto simp: cu)
qed

text \<open>Only the custom attributes change.\<close>

lemma initialized_Cu: "initialized lookup rs spell = spell\<lparr>spAttributesCu := spAttributesCu (initialized lookup rs spell)\<rparr>"
proof -
  obtain first V where first: "negative_pass lookup [0..<length (spEffects spell)] (spell, []) = (first, V)" by (rule prod.exhaust)
  obtain c1 where c1: "first = spell\<lparr>spAttributesCu := c1\<rparr>" using negative_pass_Cu [of lookup "[0..<length (spEffects spell)]" spell "[]"] first by auto
  obtain c2 where c2: "cross_pass [0..<length (spEffects first)] first = spell\<lparr>spAttributesCu := c2\<rparr>"
    using cross_pass_Cu [of "[0..<length (spEffects first)]" first] c1 by auto
  have "fst (initializeSpellPositivity lookup spell []) = spell\<lparr>spAttributesCu := c2\<rparr>"
    by (simp only: initializeSpellPositivity_def first prod.case fst_conv c2)
  then show ?thesis by (simp add: initialized_def initializeSpellBinaryFlag_def)
qed

lemma ask_keeps: "memo i = Some cu \<Longrightarrow> ask lookup asks memo i = Some cu"
proof (induction asks arbitrary: memo)
  case (Cons a asks)
  obtain k rs where a: "a = (k, rs)" by (rule prod.exhaust)
  have "snd (Store_Spell lookup rs memo k) i = Some cu"
    using Cons.prems by (auto simp: Store_Spell_def Let_def split: option.splits)
  then show ?case using Cons.IH a by simp
qed simp

text \<open>
  Once a spell has been read from the table, every later read returns the same custom attributes, whatever is asked in
  between and however the dice fall then; every other field comes from the table.
\<close>

theorem Store_Spell_stable:
  assumes "Store_Spell lookup rs memo i = (Some spell, memo')"
  shows "\<exists>memo''. Store_Spell lookup rs' (ask lookup asks memo') i = (Some spell, memo'')"
proof -
  obtain raw where raw: "lookup i = Some raw" using assms by (auto simp: Store_Spell_def split: option.splits)
  then obtain cu where cu: "spell = raw\<lparr>spAttributesCu := cu\<rparr>" "memo' i = Some cu"
    using assms initialized_Cu [of lookup rs raw]
    by (fastforce simp: Store_Spell_def Let_def split: option.splits)
  have "ask lookup asks memo' i = Some cu" using ask_keeps [of memo' i cu] cu(2) by blast
  then show ?thesis using raw cu(1) by (simp add: Store_Spell_def)
qed

theorem Store_Spell_stable_witness:
  "\<exists>memo''. Store_Spell [9 \<mapsto> coin_slow] (\<lambda>_. 0) (ask [9 \<mapsto> coin_slow] [(9, \<lambda>_. 0)]
      [9 \<mapsto> spAttributesCu (initialized [9 \<mapsto> coin_slow] (\<lambda>_. 1) coin_slow)]) 9 =
    (Some (coin_slow\<lparr>spAttributesCu := spAttributesCu (initialized [9 \<mapsto> coin_slow] (\<lambda>_. 1) coin_slow)\<rparr>), memo'')"
  using Store_Spell_stable [of "[9 \<mapsto> coin_slow]" "\<lambda>_. 1" Map.empty 9
      "coin_slow\<lparr>spAttributesCu := spAttributesCu (initialized [9 \<mapsto> coin_slow] (\<lambda>_. 1) coin_slow)\<rparr>"
      "[9 \<mapsto> spAttributesCu (initialized [9 \<mapsto> coin_slow] (\<lambda>_. 1) coin_slow)]" "\<lambda>_. 0" "[(9, \<lambda>_. 0)]"]
  by (simp add: Store_Spell_def)

end
