(* ===== verification/Spell_Spec.thy ===== *)
theory Spell_Spec
  imports Spell_Binary
begin

text \<open>
  What \<^verbatim>\<open>initializeSpellPositivity\<close> decides, as a condition on the spell: without triggered spells the sign of an effect is
  its own verdict, with the cross rule read off the verdicts of the later effects.
\<close>

section \<open>Effect bits\<close>

lemma has_flag_exp: "n < 32 \<Longrightarrow> has_flag w (2 ^ n) = bit w n" for w :: u32
  by (auto simp: has_flag_bit bit_simps)

lemma negative_flag: "push_bit n 0x1000 = (2 ^ (12 + n) :: u32)"
  by (simp add: push_bit_eq_mult power_add)

lemma IsPositive_set_negative:
  assumes "k < 20" "i < 20"
  shows "IsPositiveEffect (set_negative spell i) (int k) \<longleftrightarrow> IsPositiveEffect spell (int k) \<and> k \<noteq> i"
  using assms by (auto simp: IsPositiveEffect_def set_negative_def negative_flag has_flag_exp bit_simps)

lemma set_negative_simps [simp]:
  "spEffects (set_negative spell i) = spEffects spell"
  "spAttributes (set_negative spell i) = spAttributes spell"
  "spID (set_negative spell i) = spID spell"
  by (simp_all add: set_negative_def)

section \<open>The verdict of an effect\<close>

definition trigger_free :: "Spell \<Rightarrow> bool" where
  "trigger_free spell \<longleftrightarrow> (\<forall>e \<in> set (spEffects spell). seAura e = 0 \<longrightarrow> seTriggerSpell e = 0)"

definition own_verdict :: "Spell \<Rightarrow> nat \<Rightarrow> bool" where
  "own_verdict spell i \<longleftrightarrow>
     seEffect (spEffects spell ! i) = 0 \<or> has_flag (spAttributes spell) spellAttr0Passive \<or>
     \<not> has_flag (spAttributes spell) spellAttr0Negative1 \<and>
     (case prescanEffectPositivity spell i of
        Some positive \<Rightarrow> positive
      | None \<Rightarrow> effect_verdict (spEffects spell ! i) \<noteq> Some False)"

text \<open>A later negative effect on the same targets makes an effect with a cross aura negative.\<close>

definition crossed :: "Spell \<Rightarrow> (nat \<Rightarrow> bool) \<Rightarrow> nat \<Rightarrow> bool" where
  "crossed spell positive i \<longleftrightarrow>
     seEffect (spEffects spell ! i) \<noteq> 0 \<and> seAura (spEffects spell ! i) \<in> cross_auras \<and>
     (\<exists>j \<in> {i <..< length (spEffects spell)}. \<not> positive j \<and> same_targets (spEffects spell ! i) (spEffects spell ! j))"

lemma prescan_from_marked [simp]: "prescan_from (set_negative spell k) i is = prescan_from spell i is"
  by (induction "is") (simp_all add: Let_def cong: if_cong)

lemma own_verdict_marked [simp]: "own_verdict (set_negative spell k) i = own_verdict spell i"
  by (simp add: own_verdict_def prescanEffectPositivity_def cong: option.case_cong)

lemma trigger_free_marked [simp]: "trigger_free (set_negative spell k) = trigger_free spell"
  by (simp add: trigger_free_def)

lemma Impl_trigger_free:
  assumes "trigger_free spell" "i < length (spEffects spell)"
  shows "fst (isPositiveEffectImpl lookup spell i V) = own_verdict spell i"
proof -
  have "seAura (spEffects spell ! i) = 0 \<longrightarrow> seTriggerSpell (spEffects spell ! i) = 0"
    using assms by (auto simp: trigger_free_def)
  then show ?thesis
    by (auto simp: isPositiveEffectImpl.simps own_verdict_def Let_def split: option.splits)
qed

section \<open>The two passes\<close>

lemma negative_pass_trigger_free:
  assumes "trigger_free spell" "length (spEffects spell) \<le> 20" "\<forall>i \<in> set is. i < length (spEffects spell)"
  shows "spEffects (fst (negative_pass lookup is (spell, V))) = spEffects spell \<and>
    (\<forall>k < 20. IsPositiveEffect (fst (negative_pass lookup is (spell, V))) (int k) \<longleftrightarrow>
       IsPositiveEffect spell (int k) \<and> (k \<in> set is \<longrightarrow> own_verdict spell k))"
  using assms
proof (induction "is" arbitrary: spell V)
  case (Cons i "is")
  obtain positive V' where r: "isPositiveEffectImpl lookup spell i V = (positive, V')" by (rule prod.exhaust)
  then have p: "positive = own_verdict spell i" using Impl_trigger_free [of spell i lookup V] Cons.prems by simp
  have i: "i < 20" using Cons.prems by auto
  show ?case
  proof (cases "own_verdict spell i")
    case True
    then show ?thesis using Cons.IH [of spell V'] Cons.prems r p by auto
  next
    case False
    then show ?thesis
      using Cons.IH [of "set_negative spell i" V'] Cons.prems r p i by (auto simp: IsPositive_set_negative)
  qed
qed simp

lemma cross_inner_marks:
  assumes "i < 20" "\<forall>j \<in> set js. j < 20 \<and> j \<noteq> i"
  shows "spEffects (cross_inner i js spell) = spEffects spell \<and>
    (\<forall>k < 20. IsPositiveEffect (cross_inner i js spell) (int k) \<longleftrightarrow> IsPositiveEffect spell (int k) \<and>
       \<not> (k = i \<and> (\<exists>j \<in> set js. \<not> IsPositiveEffect spell (int j) \<and> same_targets (spEffects spell ! i) (spEffects spell ! j))))"
  using assms
proof (induction js arbitrary: spell)
  case (Cons j js)
  show ?case
  proof (cases "\<not> IsPositiveEffect spell (int j) \<and> same_targets (spEffects spell ! i) (spEffects spell ! j)")
    case True
    then show ?thesis using Cons.IH [of "set_negative spell i"] Cons.prems by (auto simp: IsPositive_set_negative)
  next
    case False
    then show ?thesis using Cons.IH [of spell] Cons.prems by auto
  qed
qed simp

lemma crossed_cong:
  assumes "spEffects spell' = spEffects spell" "\<And>j. i < j \<Longrightarrow> j < length (spEffects spell) \<Longrightarrow> positive' j = positive j"
  shows "crossed spell' positive' i = crossed spell positive i"
  using assms by (auto simp: crossed_def)

lemma cross_pass_marks:
  assumes "length (spEffects spell) \<le> 20" "sorted_wrt (<) is" "\<forall>i \<in> set is. i < length (spEffects spell)"
  shows "\<forall>k < 20. IsPositiveEffect (cross_pass is spell) (int k) \<longleftrightarrow> IsPositiveEffect spell (int k) \<and>
    \<not> (k \<in> set is \<and> crossed spell (\<lambda>j. IsPositiveEffect spell (int j)) k)"
  using assms
proof (induction "is" arbitrary: spell)
  case (Cons i "is")
  define spell' where "spell' = (if seEffect (spEffects spell ! i) = 0 \<or> \<not> IsPositiveEffect spell (int i) then spell
    else if seAura (spEffects spell ! i) \<in> cross_auras then cross_inner i [i + 1..<length (spEffects spell)] spell else spell)"
  have i: "i < 20" "\<forall>j \<in> set [i + 1..<length (spEffects spell)]. j < 20 \<and> j \<noteq> i" using Cons.prems by auto
  note marks = cross_inner_marks [OF i, of spell]
  have E: "spEffects spell' = spEffects spell" using marks by (auto simp: spell'_def)
  have bits: "IsPositiveEffect spell' (int k) \<longleftrightarrow> IsPositiveEffect spell (int k) \<and>
      \<not> (k = i \<and> crossed spell (\<lambda>j. IsPositiveEffect spell (int j)) k)" if "k < 20" for k
    using marks that by (auto simp: spell'_def crossed_def)
  have IH: "\<forall>k < 20. IsPositiveEffect (cross_pass is spell') (int k) \<longleftrightarrow> IsPositiveEffect spell' (int k) \<and>
      \<not> (k \<in> set is \<and> crossed spell' (\<lambda>j. IsPositiveEffect spell' (int j)) k)"
    by (rule Cons.IH) (use Cons.prems E in auto)
  have later: "crossed spell' (\<lambda>j. IsPositiveEffect spell' (int j)) k = crossed spell (\<lambda>j. IsPositiveEffect spell (int j)) k"
    if "k \<in> set is" for k
    by (rule crossed_cong [OF E]) (use Cons.prems that bits in auto)
  have "cross_pass (i # is) spell = cross_pass is spell'" by (simp add: spell'_def)
  then show ?case using IH bits later Cons.prems by auto
qed simp

section \<open>The decision\<close>

text \<open>
  C19: For a spell that triggers no other, the load-time computation leaves an effect positive exactly when its own verdict
  is positive (an empty slot, a passive spell, the whole-spell scan, the effect and aura tables) and no later effect with
  a negative verdict and the same targets meets a dummy, stun, fear, taunt, transform, attack-speed or slow aura on it.
\<close>

theorem positivity_decided:
  assumes "trigger_free spell" "length (spEffects spell) = 3" "i < 3"
    and "\<forall>k < 3. IsPositiveEffect spell (int k)"
  shows "IsPositiveEffect (fst (initializeSpellPositivity lookup spell visiting)) (int i) \<longleftrightarrow>
    own_verdict spell i \<and> \<not> crossed spell (own_verdict spell) i"
proof -
  let ?is = "[0..<length (spEffects spell)]"
  obtain first V where first: "negative_pass lookup ?is (spell, visiting) = (first, V)" by (rule prod.exhaust)
  have pass: "spEffects first = spEffects spell"
      "IsPositiveEffect first (int k) \<longleftrightarrow> own_verdict spell k" if "k < 3" for k
    using negative_pass_trigger_free [OF assms(1), of ?is lookup visiting] assms(2,4) first that by auto
  have "crossed first (\<lambda>j. IsPositiveEffect first (int j)) i = crossed spell (own_verdict spell) i"
    by (rule crossed_cong) (use pass assms(2,3) in auto)
  moreover have "\<forall>k < 20. IsPositiveEffect (cross_pass ?is first) (int k) \<longleftrightarrow> IsPositiveEffect first (int k) \<and>
      \<not> (k \<in> set ?is \<and> crossed first (\<lambda>j. IsPositiveEffect first (int j)) k)"
    by (rule cross_pass_marks) (use pass(1) [OF assms(3)] assms(2) in simp_all)
  moreover have "fst (initializeSpellPositivity lookup spell visiting) = cross_pass ?is first"
    by (simp only: initializeSpellPositivity_def first prod.case fst_conv pass(1) [OF assms(3)])
  ultimately show ?thesis using pass [OF assms(3)] assms(2,3) by simp
qed

text \<open>A stun on the target of a later school damage effect.\<close>

definition stun_and_damage :: Spell where
  "stun_and_damage = no_spell\<lparr>spID := 9, spEffects :=
     [no_effect\<lparr>seEffect := 6, seAura := 12, seImplicitTargetA := 6\<rparr>,
      no_effect\<lparr>seEffect := 2, seImplicitTargetA := 6\<rparr>, no_effect]\<rparr>"

theorem positivity_decided_witness:
  "\<not> IsPositiveEffect (fst (initializeSpellPositivity (\<lambda>_. None) stun_and_damage [])) 0"
proof -
  have "trigger_free stun_and_damage" "length (spEffects stun_and_damage) = 3" "(0::nat) < 3"
      "\<forall>k < 3. IsPositiveEffect stun_and_damage (int k)"
      "crossed stun_and_damage (own_verdict stun_and_damage) 0"
    by code_simp+
  then show ?thesis using positivity_decided [of stun_and_damage 0 "\<lambda>_. None" "[]"] by simp
qed

text \<open>
  The set of visited effects is shared by the effects of the spell, and a visited effect counts as positive. So when two
  effects trigger the same negative spell, only the first becomes negative.
\<close>

definition negative_bolt :: Spell where
  "negative_bolt = no_spell\<lparr>spID := 7, spEffects := [no_effect\<lparr>seEffect := 2\<rparr>, no_effect, no_effect]\<rparr>"

definition twin_triggers :: Spell where
  "twin_triggers = no_spell\<lparr>spID := 8, spEffects :=
     [no_effect\<lparr>seEffect := 64, seTriggerSpell := 7\<rparr>, no_effect\<lparr>seEffect := 64, seTriggerSpell := 7\<rparr>, no_effect]\<rparr>"

lemma twin_trigger_stays_positive:
  "map (IsPositiveEffect (fst (initializeSpellPositivity [7 \<mapsto> negative_bolt] twin_triggers []))) [0, 1, 2]
     = [False, True, True]"
  by code_simp

end
