(* ===== verification/Diminishing.thy ===== *)
theory Diminishing
  imports Spell_Positivity
begin

text \<open>
  \<^verbatim>\<open>engine/world/diminishing.go\<close>: diminishing returns of crowd control. A spell belongs to a group, a player counts
  the hits of each group, and each further hit lasts half as long until the player is immune. The count starts again when the
  last aura of the group is 15 seconds gone.
\<close>

section \<open>Groups and constants\<close>

type_synonym DiminishingGroup = u16
type_synonym DiminishingLevel = u8

abbreviation (input) DiminishingNone :: DiminishingGroup where "DiminishingNone \<equiv> 0"
abbreviation (input) DiminishingBanish :: DiminishingGroup where "DiminishingBanish \<equiv> 1"
abbreviation (input) DiminishingCharge :: DiminishingGroup where "DiminishingCharge \<equiv> 2"
abbreviation (input) DiminishingOpeningStun :: DiminishingGroup where "DiminishingOpeningStun \<equiv> 3"
abbreviation (input) DiminishingControlledStun :: DiminishingGroup where "DiminishingControlledStun \<equiv> 4"
abbreviation (input) DiminishingControlledRoot :: DiminishingGroup where "DiminishingControlledRoot \<equiv> 5"
abbreviation (input) DiminishingCyclone :: DiminishingGroup where "DiminishingCyclone \<equiv> 6"
abbreviation (input) DiminishingDisarm :: DiminishingGroup where "DiminishingDisarm \<equiv> 7"
abbreviation (input) DiminishingDisorient :: DiminishingGroup where "DiminishingDisorient \<equiv> 8"
abbreviation (input) DiminishingEntrapment :: DiminishingGroup where "DiminishingEntrapment \<equiv> 9"
abbreviation (input) DiminishingFear :: DiminishingGroup where "DiminishingFear \<equiv> 10"
abbreviation (input) DiminishingHorror :: DiminishingGroup where "DiminishingHorror \<equiv> 11"
abbreviation (input) DiminishingMindControl :: DiminishingGroup where "DiminishingMindControl \<equiv> 12"
abbreviation (input) DiminishingRoot :: DiminishingGroup where "DiminishingRoot \<equiv> 13"
abbreviation (input) DiminishingStun :: DiminishingGroup where "DiminishingStun \<equiv> 14"
abbreviation (input) DiminishingScatterShot :: DiminishingGroup where "DiminishingScatterShot \<equiv> 15"
abbreviation (input) DiminishingSilence :: DiminishingGroup where "DiminishingSilence \<equiv> 16"
abbreviation (input) DiminishingSleep :: DiminishingGroup where "DiminishingSleep \<equiv> 17"
abbreviation (input) DiminishingTaunt :: DiminishingGroup where "DiminishingTaunt \<equiv> 18"
abbreviation (input) DiminishingLimitOnly :: DiminishingGroup where "DiminishingLimitOnly \<equiv> 19"
abbreviation (input) DiminishingDragonsBreath :: DiminishingGroup where "DiminishingDragonsBreath \<equiv> 20"
abbreviation (input) DiminishingMax :: DiminishingGroup where "DiminishingMax \<equiv> 21"

abbreviation (input) DiminishingLevel1 :: DiminishingLevel where "DiminishingLevel1 \<equiv> 0"
abbreviation (input) DiminishingLevel2 :: DiminishingLevel where "DiminishingLevel2 \<equiv> 1"
abbreviation (input) DiminishingLevel3 :: DiminishingLevel where "DiminishingLevel3 \<equiv> 2"
abbreviation (input) DiminishingLevelImmune :: DiminishingLevel where "DiminishingLevelImmune \<equiv> 3"
abbreviation (input) DiminishingLevelTauntImmune :: DiminishingLevel where "DiminishingLevelTauntImmune \<equiv> 4"

abbreviation (input) diminishingDurationLimit :: u32 where "diminishingDurationLimit \<equiv> 10000"
abbreviation (input) diminishingResetDuration :: int where "diminishingResetDuration \<equiv> 15000000000"

abbreviation (input) spellAuraModTaunt :: u32 where "spellAuraModTaunt \<equiv> 11"

section \<open>The group of a spell\<close>

text \<open>The table of spell numbers.\<close>

definition spell_id_groups :: "(DiminishingGroup \<times> u32 list) list" where
  "spell_id_groups =
    [(DiminishingCyclone, [33786]),
     (DiminishingOpeningStun, [1833, 9005, 9823, 9827, 27006, 49803]),
     (DiminishingControlledStun, [408, 8643, 853, 5588, 5589, 10308, 5211, 6798, 8983, 44572, 20252, 20616, 20617, 25272,
        25275, 30283, 30413, 30414, 12809, 46968, 47481, 19577, 24394, 20549, 2812, 10318, 27139, 48816, 48817]),
     (DiminishingCharge, [100, 6178, 11578, 7922]),
     (DiminishingScatterShot, [19503]),
     (DiminishingEntrapment, [19184, 19387, 19388, 64803]),
     (DiminishingDragonsBreath, [31661, 33041, 33042, 33043, 42949, 42950]),
     (DiminishingHorror, [6789, 17925, 17926, 27223, 47859, 47860, 64044]),
     (DiminishingFear, [5782, 6213, 6215, 5484, 17928, 6358, 2094, 8122, 8124, 10888, 10890, 10326, 5246]),
     (DiminishingDisorient, [118, 12824, 12825, 12826, 28271, 28272, 61305, 61721, 61780, 6770, 2070, 11297, 1776, 1499,
        14310, 14311, 43415, 19386, 24132, 24133, 27068, 49011, 49012, 20066, 49203]),
     (DiminishingControlledRoot, [122, 865, 6131, 10230, 27088, 42917, 33395, 339, 1062, 5195, 5196, 9852, 9853, 26989,
        53308, 16689]),
     (DiminishingRoot, [11071, 12494, 55080]),
     (DiminishingSilence, [15487, 47476, 19244, 19647, 1330, 28730, 25046, 50613]),
     (DiminishingDisarm, [676, 51722, 53359, 64058]),
     (DiminishingMindControl, [605, 10911, 10912]),
     (DiminishingBanish, [710, 18647]),
     (DiminishingTaunt, [355, 6795, 62124, 56222]),
     (DiminishingLimitOnly, [1715, 3408, 2974, 12323, 1130, 20164])]"

definition spell_id_group :: "u32 \<Rightarrow> DiminishingGroup option" where
  "spell_id_group n = map_option fst (List.find (\<lambda>(grp, ids). n \<in> set ids) spell_id_groups)"

abbreviation (input) visual :: "Spell \<Rightarrow> u32" where "visual spell \<equiv> spSpellVisual spell ! 0"
abbreviation (input) flag :: "Spell \<Rightarrow> nat \<Rightarrow> u32 \<Rightarrow> bool" where "flag spell i f \<equiv> has_flag (spSpellFamilyFlags spell ! i) f"
abbreviation (input) icon :: "Spell \<Rightarrow> u32" where "icon \<equiv> spSpellIconID"

text \<open>The switch on the family of the spell. \<open>None\<close> falls through to the mechanic.\<close>

definition family_group :: "Spell \<Rightarrow> DiminishingGroup option" where
  "family_group spell =
     (let family = spSpellFamilyName spell in
      if family = 0 then
        (if visual spell = 2816 \<and> icon spell = 15 then Some DiminishingControlledStun
         else if spID spell \<in> {48400, 64155, 51750, 48179} then Some DiminishingNone
         else if visual spell = 14153 then Some DiminishingNone
         else None)
      else if family = 1 then Some DiminishingNone
      else if family = 3 then
        (if flag spell 1 0x80000000 then Some DiminishingRoot
         else if visual spell = 12297 then Some DiminishingRoot
         else if icon spell = 2939 \<and> visual spell = 9963 then Some DiminishingControlledStun
         else if icon spell = 193 then Some DiminishingControlledRoot
         else if flag spell 0 0x800000 then Some DiminishingDragonsBreath
         else None)
      else if family = 4 then
        (if flag spell 0 0x2 then Some DiminishingLimitOnly
         else if flag spell 0 0x01000000 then Some DiminishingCharge
         else None)
      else if family = 5 then
        (if flag spell 0 0x80000000 \<or> flag spell 1 0x200 then Some DiminishingLimitOnly
         else if flag spell 1 0x10000000 then Some DiminishingFear
         else None)
      else if family = 7 then
        (if flag spell 0 0x20000 then Some DiminishingOpeningStun
         else if flag spell 1 0x20 then Some DiminishingCyclone
         else if flag spell 0 0x00000200 then Some DiminishingControlledRoot
         else if flag spell 0 0x400 then Some DiminishingLimitOnly
         else None)
      else if family = 8 then
        (if flag spell 0 0x8 then Some DiminishingDisorient
         else if flag spell 0 0x1000000 then Some DiminishingFear
         else if flag spell 0 0x400 then Some DiminishingOpeningStun
         else if icon spell = 163 then Some DiminishingLimitOnly
         else None)
      else if family = 9 then
        (if flag spell 0 0x400 \<and> icon spell = 538 then Some DiminishingLimitOnly
         else if flag spell 0 0x40000 \<and> icon spell = 132 then Some DiminishingScatterShot
         else if visual spell = 7484 \<and> icon spell = 20 then Some DiminishingEntrapment
         else if flag spell 1 0x1000 \<and> icon spell = 1721 then Some DiminishingDisorient
         else if flag spell 0 0x8 then Some DiminishingDisorient
         else None)
      else if family = 10 then
        (if flag spell 0 0x100000 then Some DiminishingLimitOnly
         else if flag spell 1 0x804000 \<and> icon spell = 309 then Some DiminishingFear
         else None)
      else if family = 11 then
        (if flag spell 2 0x4000 then Some DiminishingNone else None)
      else if family = 15 then
        (if icon spell = 2797 then Some DiminishingDisorient
         else if flag spell 0 0x10000000 \<and> icon spell = 2285 then Some DiminishingLimitOnly
         else None)
      else None)"

text \<open>The mechanics of the spell and of its effects, as a mask.\<close>

definition mechanic_bit :: "u32 \<Rightarrow> u32" where
  "mechanic_bit m = (if m \<noteq> 0 \<and> m < 32 then push_bit (unat m) 1 else 0)"

definition mechanic_mask :: "Spell \<Rightarrow> u32" where
  "mechanic_mask spell =
     foldl (\<lambda>acc eff. acc OR (if seEffect eff \<noteq> 0 then mechanic_bit (seMechanic eff) else 0))
       (mechanic_bit (spMechanic spell)) (spEffects spell)"

abbreviation (input) has_mechanic :: "u32 \<Rightarrow> nat \<Rightarrow> bool" where "has_mechanic m n \<equiv> has_flag m (push_bit n 1)"

definition mechanic_group :: "Spell \<Rightarrow> bool \<Rightarrow> DiminishingGroup" where
  "mechanic_group spell triggered =
     (let m = mechanic_mask spell in
      if has_mechanic m 1 then DiminishingMindControl
      else if has_mechanic m 9 then DiminishingSilence
      else if has_mechanic m 10 then DiminishingSleep
      else if has_flag m (push_bit 30 1 OR push_bit 17 1 OR push_bit 20 1) then DiminishingDisorient
      else if has_mechanic m 14 \<and> icon spell \<noteq> 292 then DiminishingDisorient
      else if has_mechanic m 3 then DiminishingDisarm
      else if has_mechanic m 5 then DiminishingFear
      else if has_mechanic m 12 then (if triggered then DiminishingStun else DiminishingControlledStun)
      else if has_mechanic m 18 then DiminishingBanish
      else if has_mechanic m 7 then (if triggered then DiminishingRoot else DiminishingControlledRoot)
      else if has_mechanic m 24 then DiminishingHorror
      else if has_mechanic m 2 then DiminishingDisorient
      else if has_mechanic m 13 then (if triggered then DiminishingRoot else DiminishingControlledRoot)
      else if has_mechanic m 11 then DiminishingLimitOnly
      else DiminishingNone)"

definition getDiminishingReturnsGroup :: "Spell \<Rightarrow> bool \<Rightarrow> DiminishingGroup" where
  "getDiminishingReturnsGroup spell triggered =
     (if spellIsPositive spell then DiminishingNone
      else if \<exists>eff \<in> set (spEffects spell). seEffect eff \<noteq> 0 \<and> seAura eff = spellAuraModTaunt then DiminishingTaunt
      else case spell_id_group (spID spell) of
             Some grp \<Rightarrow> grp
           | None \<Rightarrow> (case family_group spell of Some grp \<Rightarrow> grp | None \<Rightarrow> mechanic_group spell triggered))"

section \<open>Limits and types of a group\<close>

definition isGroupDurationLimited :: "DiminishingGroup \<Rightarrow> bool" where
  "isGroupDurationLimited grp \<longleftrightarrow> grp \<in>
     {DiminishingBanish, DiminishingControlledStun, DiminishingControlledRoot, DiminishingCyclone, DiminishingDisorient,
      DiminishingEntrapment, DiminishingFear, DiminishingHorror, DiminishingMindControl, DiminishingOpeningStun,
      DiminishingRoot, DiminishingSleep, DiminishingStun, DiminishingLimitOnly}"

definition diminishingDurationLimitMs :: "Spell \<Rightarrow> DiminishingGroup \<Rightarrow> u32" where
  "diminishingDurationLimitMs spell grp =
     (if \<not> isGroupDurationLimited grp then 0
      else if spSpellFamilyName spell = 7 \<and> flag spell 0 0x400 then 40000
      else if spSpellFamilyName spell = 9 \<and> flag spell 1 0x1000 then 6000
      else if spSpellFamilyName spell = 9 \<and> flag spell 0 0x400 then 120000
      else if spSpellFamilyName spell = 10 \<and> flag spell 0 0x4 then 6000
      else if spSpellFamilyName spell = 5 \<and> flag spell 1 0x8000000 then 6000
      else if spSpellFamilyName spell = 5 \<and> flag spell 2 0x800 then 12000
      else if spSpellFamilyName spell = 5 \<and> flag spell 1 0x200 then 120000
      else diminishingDurationLimit)"

datatype diminishingReturnsType = diminishingTypeNone | diminishingTypeAll | diminishingTypePlayer

definition diminishingGroupType :: "DiminishingGroup \<Rightarrow> diminishingReturnsType" where
  "diminishingGroupType grp =
     (if grp \<in> {DiminishingTaunt, DiminishingControlledStun, DiminishingStun, DiminishingOpeningStun,
                  DiminishingCyclone, DiminishingCharge} then diminishingTypeAll
      else if grp \<in> {DiminishingLimitOnly, DiminishingNone} then diminishingTypeNone
      else diminishingTypePlayer)"

section \<open>The counters of a player\<close>

text \<open>The time of the last removal is \<open>None\<close> for the zero time. Times are nanoseconds.\<close>

record diminishingReturn =
  drHitCount :: u8
  drStack :: u16
  drHitTime :: "int option"

definition no_return :: diminishingReturn where
  "no_return = \<lparr>drHitCount = 0, drStack = 0, drHitTime = None\<rparr>"

type_synonym diminishing = "diminishingReturn list"

definition clearDiminishings :: "diminishing \<Rightarrow> diminishing" where
  "clearDiminishings ds = map (\<lambda>_. no_return) ds"

definition getDiminishing :: "int \<Rightarrow> DiminishingGroup \<Rightarrow> diminishing \<Rightarrow> DiminishingLevel \<times> diminishing" where
  "getDiminishing now grp ds =
     (if grp \<ge> DiminishingMax then (DiminishingLevel1, ds)
      else
        let dim = ds ! unat grp in
        if drHitCount dim = 0 then (DiminishingLevel1, ds)
        else if drStack dim = 0 \<and>
                (case drHitTime dim of None \<Rightarrow> False | Some t \<Rightarrow> now - t > diminishingResetDuration)
          then (DiminishingLevel1, ds[unat grp := dim\<lparr>drHitCount := 0\<rparr>])
        else (drHitCount dim, ds))"

definition incrDiminishing :: "int \<Rightarrow> DiminishingGroup \<Rightarrow> diminishing \<Rightarrow> diminishing" where
  "incrDiminishing now grp ds =
     (if grp \<ge> DiminishingMax then ds
      else case getDiminishing now grp ds of
        (currentLevel, ds) \<Rightarrow>
          let maxLevel = (if grp = DiminishingTaunt then DiminishingLevelTauntImmune else DiminishingLevelImmune) in
          if currentLevel < maxLevel then ds[unat grp := (ds ! unat grp)\<lparr>drHitCount := currentLevel + 1\<rparr>] else ds)"

definition applyDiminishingAura :: "int \<Rightarrow> DiminishingGroup \<Rightarrow> bool \<Rightarrow> diminishing \<Rightarrow> diminishing" where
  "applyDiminishingAura now grp applied ds =
     (if grp \<ge> DiminishingMax then ds
      else
        let dim = ds ! unat grp in
        if applied then ds[unat grp := dim\<lparr>drStack := drStack dim + 1\<rparr>]
        else if drStack dim > 0 then
          ds[unat grp := dim\<lparr>drStack := drStack dim - 1,
                              drHitTime := (if drStack dim - 1 = 0 then Some now else drHitTime dim)\<rparr>]
        else ds)"

section \<open>The duration of a hit\<close>

text \<open>The factors 1, 0.5, 0.25 and 0 of the four levels.\<close>

definition level_mod :: "DiminishingLevel \<Rightarrow> f32v" where
  "level_mod level =
     (if level = DiminishingLevel1 then 2 ^ 149
      else if level = DiminishingLevel2 then 2 ^ 148
      else if level = DiminishingLevel3 then 2 ^ 147
      else if level = DiminishingLevelImmune then 0
      else 2 ^ 149)"

definition capped :: "Spell \<Rightarrow> DiminishingGroup \<Rightarrow> bool \<Rightarrow> u32 \<Rightarrow> u32" where
  "capped spell grp isPvP durationMs =
     (let limit = diminishingDurationLimitMs spell grp in
      if isPvP \<and> limit > 0 \<and> durationMs > limit then limit else durationMs)"

definition applyDiminishingToDuration ::
  "int \<Rightarrow> Spell \<Rightarrow> u32 \<Rightarrow> bool \<Rightarrow> bool \<Rightarrow> diminishing \<Rightarrow> (DiminishingGroup \<times> u32 \<times> bool) \<times> diminishing" where
  "applyDiminishingToDuration now spell durationMs isPvP triggered ds =
     (let grp = getDiminishingReturnsGroup spell triggered in
      if grp = DiminishingNone \<or> durationMs = 0 then ((DiminishingNone, durationMs, True), ds)
      else
        let durationMs = capped spell grp isPvP durationMs in
        if grp = DiminishingLimitOnly then ((grp, durationMs, True), ds)
        else if grp = DiminishingTaunt then ((grp, durationMs, True), ds)
        else case getDiminishing now grp ds of
          (level, ds) \<Rightarrow>
            let newDuration = f32_to_u32 (f32_mul (f32_of_int (uint durationMs)) (level_mod level)) in
            if newDuration = 0 then ((grp, 0, False), ds) else ((grp, newDuration, True), ds))"

section \<open>The auras of a player\<close>

text \<open>
  \<^verbatim>\<open>engine/world/spells.go\<close>: the steps of \<^verbatim>\<open>applyAuraToTarget\<close>, \<^verbatim>\<open>removeAura\<close> and
  \<^verbatim>\<open>clearActiveAuras\<close> that count. Of an active aura only what counts is kept: whether it is stopped, and the group it
  was counted in.
\<close>

record activeAura =
  aaStopped :: bool
  aaDRGroup :: DiminishingGroup

type_synonym player = "diminishing \<times> (u32 \<rightharpoonup> activeAura)"

text \<open>A hostile aura with a duration lands, or the target is immune (\<open>None\<close>). Every other aura is in no group.\<close>

definition land_aura ::
  "int \<Rightarrow> Spell \<Rightarrow> bool \<Rightarrow> bool \<Rightarrow> u32 \<Rightarrow> diminishing \<Rightarrow> (DiminishingGroup \<times> u32) option \<times> diminishing" where
  "land_aura now spell positive triggeredByAura durationMs ds =
     (if \<not> positive \<and> durationMs > 0 then
        case applyDiminishingToDuration now spell durationMs True triggeredByAura ds of
          ((drGroup, durationMs, ok), ds) \<Rightarrow>
            if \<not> ok then (None, ds)
            else (Some (drGroup, durationMs), applyDiminishingAura now drGroup True (incrDiminishing now drGroup ds))
      else (Some (DiminishingNone, durationMs), ds))"

definition release_group :: "int \<Rightarrow> activeAura \<Rightarrow> diminishing \<Rightarrow> diminishing" where
  "release_group now aura ds =
     (if aaDRGroup aura \<noteq> DiminishingNone then applyDiminishingAura now (aaDRGroup aura) False ds else ds)"

text \<open>
  The new aura is recorded: a live aura of the same spell absorbs it, a stopped one leaves its group first.
  \<open>suppressed\<close> says that a stronger exclusive aura keeps the new one off.
\<close>

definition record_aura :: "int \<Rightarrow> u32 \<Rightarrow> DiminishingGroup \<Rightarrow> bool \<Rightarrow> player \<Rightarrow> player" where
  "record_aura now spellID drGroup suppressed p =
     (case p of (ds, active) \<Rightarrow>
        case active spellID of
          None \<Rightarrow> (ds, if suppressed then active else active(spellID \<mapsto> \<lparr>aaStopped = False, aaDRGroup = drGroup\<rparr>))
        | Some existing \<Rightarrow>
            if \<not> aaStopped existing then (ds, active)
            else (release_group now existing ds,
                  active(spellID \<mapsto> (if suppressed then existing\<lparr>aaDRGroup := DiminishingNone\<rparr>
                                     else \<lparr>aaStopped = False, aaDRGroup = drGroup\<rparr>))))"

text \<open>One effect of a spell on a player target, and the end of an aura.\<close>

definition apply_aura ::
  "int \<Rightarrow> Spell \<Rightarrow> bool \<Rightarrow> bool \<Rightarrow> u32 \<Rightarrow> bool \<Rightarrow> player \<Rightarrow> player" where
  "apply_aura now spell positive triggeredByAura durationMs suppressed p =
     (case land_aura now spell positive triggeredByAura durationMs (fst p) of
        (None, ds) \<Rightarrow> (ds, snd p)
      | (Some (drGroup, _), ds) \<Rightarrow> record_aura now (spID spell) drGroup suppressed (ds, snd p))"

definition removeAura :: "int \<Rightarrow> u32 \<Rightarrow> player \<Rightarrow> player" where
  "removeAura now spellID p =
     (case p of (ds, active) \<Rightarrow>
        case active spellID of
          None \<Rightarrow> (ds, active)
        | Some aura \<Rightarrow> (release_group now aura ds, active(spellID := None)))"

section \<open>The recheck after a cast\<close>

text \<open>
  \<^verbatim>\<open>spellDiminishingBounced\<close>: a cast bounces off an aura of the same group that would outlast it. The auras of the
  target come with their remaining milliseconds and the time these were counted; \<open>lookup\<close> is the spell table and
  \<open>maxDuration\<close> what \<^verbatim>\<open>SpellMaxDuration\<close> finds. Only positive elapsed times count, where flooring is truncation.
\<close>

definition unit_owned_effects :: "u32 set" where
  "unit_owned_effects = {35, 65, 128, 129, 119, 143, 6}"

definition spellEffectIsUnitOwnedAuraEffect :: "SpellEffect \<Rightarrow> bool" where
  "spellEffectIsUnitOwnedAuraEffect eff \<longleftrightarrow> seEffect eff \<in> unit_owned_effects"

definition remaining_ms :: "int \<Rightarrow> u32 \<Rightarrow> int option \<Rightarrow> u32" where
  "remaining_ms now remaining updated =
     (case updated of
        None \<Rightarrow> remaining
      | Some t \<Rightarrow>
          let elapsed = (now - t) div 1000000 in
          if elapsed > 0 then (if elapsed < uint remaining then remaining - word_of_int elapsed else 0) else remaining)"

fun bounced_by ::
  "int \<Rightarrow> (u32 \<Rightarrow> Spell option) \<Rightarrow> Spell \<Rightarrow> u32 \<Rightarrow> (u32 \<times> u32 \<times> int option) list \<Rightarrow> diminishing \<Rightarrow> bool \<times> diminishing" where
  "bounced_by now lookup spell maxDuration [] ds = (False, ds)"
| "bounced_by now lookup spell maxDuration ((auraID, remaining, updated) # auras) ds =
     (case lookup auraID of
        None \<Rightarrow> bounced_by now lookup spell maxDuration auras ds
      | Some auraSpell \<Rightarrow>
          if getDiminishingReturnsGroup auraSpell False \<noteq> getDiminishingReturnsGroup spell False
            then bounced_by now lookup spell maxDuration auras ds
          else case applyDiminishingToDuration now spell maxDuration True False ds of
            ((_, newDuration, ok), ds) \<Rightarrow>
              if ok \<and> newDuration > 0 \<and> newDuration < remaining_ms now remaining updated then (True, ds)
              else bounced_by now lookup spell maxDuration auras ds)"

definition spellDiminishingBounced ::
  "int \<Rightarrow> (u32 \<Rightarrow> Spell option) \<Rightarrow> int option \<Rightarrow> Spell \<Rightarrow> (u32 \<times> u32 \<times> int option) list \<Rightarrow> diminishing \<Rightarrow> bool \<times> diminishing" where
  "spellDiminishingBounced now lookup maxDuration spell auras ds =
     (if \<not> (\<exists>eff \<in> set (spEffects spell). spellEffectIsUnitOwnedAuraEffect eff) then (False, ds)
      else let grp = getDiminishingReturnsGroup spell False in
        if grp = DiminishingNone then (False, ds)
        else if diminishingGroupType grp = diminishingTypeNone then (False, ds)
        else case maxDuration of
               None \<Rightarrow> (False, ds)
             | Some d \<Rightarrow> if d \<le> 0 then (False, ds) else bounced_by now lookup spell (word_of_int d) auras ds)"

end
