(* ===== verification/Diminishing_Spec.thy ===== *)
theory Diminishing_Spec
  imports Diminishing
begin

text \<open>
  What diminishing returns promise: the duration of a hit on each level, the level after any history of hits, the caps on
  players, bounds of the counters, and what a second cast of a running aura does to them.
\<close>

section \<open>The duration\<close>

lemma f32_short:
  assumes "0 \<le> q" "q \<le> 2 ^ 24" "s \<le> 200"
  shows "f32_round 0 (q * 2 ^ s) = q * 2 ^ s"
proof -
  have "q * 2 ^ s \<le> 2 ^ 24 * (2 ^ 200 :: int)" using assms by (intro mult_mono power_increasing) auto
  then have "q * 2 ^ s \<le> f32_inf" by (simp add: f32_inf_def)
  then have "round_mag 0 (q * 2 ^ s) = q * 2 ^ s"
    using assms short_dvd [OF assms(1,2), of s] by (intro round_mag_fix) auto
  moreover have "\<not> q * 2 ^ s < 0" using assms(1) by (simp add: not_less)
  ultimately show ?thesis by (simp only: f32_round_def if_False)
qed

lemma f32_of_short: "0 \<le> q \<Longrightarrow> q \<le> 2 ^ 24 \<Longrightarrow> f32_of_int q = q * 2 ^ 149"
  unfolding f32_of_int_def f32_unit_def by (rule f32_short) auto

text \<open>Below \<open>2 ^ 24\<close> milliseconds the product with 1, 1/2 or 1/4 is exact, and its integer part the quotient.\<close>

lemma scaled_duration:
  assumes "uint d \<le> 2 ^ 24" "k \<le> 149"
  shows "f32_to_u32 (f32_mul (f32_of_int (uint d)) (2 ^ (149 - k))) = word_of_int (uint d div 2 ^ k)"
proof -
  have d: "0 \<le> uint d" by simp
  have pow: "2 ^ (149 - k) \<noteq> f32_inf" "uint d * 2 ^ 149 \<noteq> f32_inf"
  proof -
    have "(2::int) ^ (149 - k) \<le> 2 ^ 149" by (rule power_increasing) auto
    then show "2 ^ (149 - k) \<noteq> f32_inf" by (simp add: f32_inf_def)
    have "uint d * 2 ^ 149 \<le> 2 ^ 24 * 2 ^ 149" using assms(1) by (intro mult_right_mono) auto
    then show "uint d * 2 ^ 149 \<noteq> f32_inf" by (simp add: f32_inf_def)
  qed
  have "f32_round 149 (uint d * 2 ^ (149 - k) * 2 ^ 149) = uint d * 2 ^ (149 - k)"
    unfolding f32_round_scale by (rule f32_short) (use assms in auto)
  then have "f32_round 149 (uint d * 2 ^ 149 * 2 ^ (149 - k)) = uint d * 2 ^ (149 - k)"
    by (simp only: mult.assoc mult.commute [of "2 ^ (149 - k)" "2 ^ 149 :: int"])
  then have "f32_mul (f32_of_int (uint d)) (2 ^ (149 - k)) = uint d * 2 ^ (149 - k)"
    unfolding f32_of_short [OF d assms(1)] f32_mul_def using pow by (simp only: abs_mult abs_power2 abs_of_nonneg d zero_le_power zero_le_numeral mult_nonneg_nonneg power_abs abs_numeral if_False simp_thms)
  moreover have "uint d * 2 ^ (149 - k) div 2 ^ 149 = uint d div 2 ^ k"
  proof -
    have split: "(2::int) ^ 149 = 2 ^ k * 2 ^ (149 - k)" using assms(2) by (simp flip: power_add)
    show ?thesis unfolding split by (rule div_mult_mult2) simp
  qed
  ultimately show ?thesis by (simp add: f32_to_u32_def f32_unit_def)
qed

lemma level_cases:
  fixes level :: DiminishingLevel
  obtains "level = 0" | "level = 1" | "level = 2" | "level = 3" | "level > 3"
proof -
  have "level = 0 \<or> level = 1 \<or> level = 2" if "level < 3"
  proof -
    have "unat level = 0 \<or> unat level = 1 \<or> unat level = 2" using that by (auto simp: word_less_nat_alt)
    then show ?thesis by (simp add: word_unat_eq_iff)
  qed
  then show ?thesis using that by (meson linorder_cases)
qed

definition halves :: "DiminishingGroup \<Rightarrow> bool" where
  "halves grp \<longleftrightarrow> grp \<noteq> DiminishingNone \<and> grp \<noteq> DiminishingLimitOnly \<and> grp \<noteq> DiminishingTaunt"

lemma level_duration:
  assumes "uint d \<le> 2 ^ 24"
  shows "f32_to_u32 (f32_mul (f32_of_int (uint d)) (level_mod level)) =
    (if level = DiminishingLevelImmune then 0
     else if level < DiminishingLevelImmune then d div 2 ^ unat level else d)"
proof -
  have mul0: "f32_mul (f32_of_int (uint d)) 0 = 0"
    using f32_ok_0 by (simp add: f32_mul_def f32_ok_def f32_round_def round_mag_def round_even_def f32_inf_def)
  have div: "word_of_int (uint d div 2 ^ k) = d div 2 ^ k" if "k < 3" for k
  proof -
    have "k = 0 \<or> k = 1 \<or> k = 2" using that by arith
    then show ?thesis by (auto simp: word_div_def)
  qed
  consider "level = 0" | "level = 1" | "level = 2" | "level = 3" | "level > 3"
    by (rule level_cases)
  then show ?thesis
    using scaled_duration [OF assms, of 0] scaled_duration [OF assms, of 1] scaled_duration [OF assms, of 2]
      div [of 0] div [of 1] div [of 2]
    by cases (auto simp: level_mod_def mul0 f32_to_u32_def)
qed

section \<open>The group is an index\<close>

lemma spell_id_group_small: "spell_id_group n = Some grp \<Longrightarrow> grp < DiminishingMax"
proof -
  have "\<forall>e \<in> set spell_id_groups. fst e < DiminishingMax" by (simp add: spell_id_groups_def)
  then show "spell_id_group n = Some grp \<Longrightarrow> grp < DiminishingMax"
    by (fastforce simp: spell_id_group_def find_Some_iff dest: nth_mem)
qed

lemma family_group_small: "family_group spell = Some grp \<Longrightarrow> grp < DiminishingMax"
  unfolding family_group_def Let_def by (auto split: if_splits)

lemma mechanic_group_small: "mechanic_group spell triggered < DiminishingMax"
  unfolding mechanic_group_def Let_def by (auto split: if_splits)

lemma group_small: "getDiminishingReturnsGroup spell triggered < DiminishingMax"
  using spell_id_group_small [of "spID spell"] family_group_small [of spell] mechanic_group_small [of spell triggered]
  by (auto simp: getDiminishingReturnsGroup_def split: option.split)

text \<open>
  The group of a spell is always an index of the array of counters, so no spell reads or writes outside it; and only a
  spell with a negative effect has a group.
\<close>

theorem group_indexes_counters:
  "getDiminishingReturnsGroup spell triggered \<in> (if spellIsPositive spell then {DiminishingNone} else {..< DiminishingMax})"
proof (cases "spellIsPositive spell")
  case True
  then show ?thesis by (simp add: getDiminishingReturnsGroup_def)
next
  case False
  then show ?thesis using group_small [of spell triggered] by simp
qed

section \<open>Reading and stepping a counter\<close>

lemma below_Max: "grp < DiminishingMax \<longleftrightarrow> unat grp < 21" for grp :: DiminishingGroup
  by (simp add: word_less_nat_alt)

lemma same_count [simp]: "drHitCount d = l \<Longrightarrow> d\<lparr>drHitCount := l\<rparr> = d"
  by (cases d) simp

lemma getDiminishing_eq:
  assumes "grp < DiminishingMax" "length ds = 21" "fst (getDiminishing now grp ds) = l"
  shows "getDiminishing now grp ds = (l, ds[unat grp := (ds ! unat grp)\<lparr>drHitCount := l\<rparr>])"
  using assms list_update_id [of ds "unat grp"] by (auto simp: getDiminishing_def Let_def not_le split: if_splits option.splits)

lemma incrDiminishing_eq:
  assumes "grp < DiminishingMax" "length ds = 21" "grp \<noteq> DiminishingTaunt" "fst (getDiminishing now grp ds) = l" "l < 3"
  shows "incrDiminishing now grp ds = ds[unat grp := (ds ! unat grp)\<lparr>drHitCount := l + 1\<rparr>]"
  using assms(1-3,5) not_le [of 21 grp] by (simp add: incrDiminishing_def getDiminishing_eq [OF assms(1,2,4)] Let_def del: not_le) (simp add: below_Max)

lemma apply_duration:
  assumes "getDiminishingReturnsGroup spell triggered = grp" "halves grp" "length ds = 21"
    and "0 < d" "4 \<le> capped spell grp isPvP d" "uint (capped spell grp isPvP d) \<le> 2 ^ 24"
    and "fst (getDiminishing now grp ds) = l" "l \<le> 3"
  shows "applyDiminishingToDuration now spell d isPvP triggered ds =
    (if l = 3 then (grp, 0, False) else (grp, capped spell grp isPvP d div 2 ^ unat l, True),
     ds[unat grp := (ds ! unat grp)\<lparr>drHitCount := l\<rparr>])"
proof -
  let ?c = "capped spell grp isPvP d"
  have grp: "grp < DiminishingMax" using group_small [of spell triggered] assms(1) by simp
  have small: "?c div 2 ^ unat l \<noteq> 0" if "l < 3"
  proof -
    have "l = 0 \<or> l = 1 \<or> l = 2" using that by (cases l rule: level_cases) auto
    moreover have "4 \<le> unat ?c" using assms(5) by (simp add: word_le_nat_alt)
    ultimately show ?thesis by (auto simp: word_unat_eq_iff unat_div)
  qed
  have "l = 3 \<or> l < 3" using assms(8) by auto
  moreover have "grp \<noteq> DiminishingNone" "grp \<noteq> DiminishingLimitOnly" "grp \<noteq> DiminishingTaunt" "d \<noteq> 0"
    using assms(2,4) by (auto simp: halves_def)
  ultimately show ?thesis
    using small
    by (auto simp: applyDiminishingToDuration_def Let_def assms(1) getDiminishing_eq [OF grp assms(3,7)]
        level_duration [OF assms(6)])
qed

section \<open>A history of hits\<close>

text \<open>An attempt casts a hostile spell on the player at one time; if it lands, its aura ends at another.\<close>

record attempt =
  atFrom :: int
  atUntil :: int
  atSpell :: Spell
  atTriggered :: bool
  atDuration :: u32

definition attempted :: "attempt \<Rightarrow> player \<Rightarrow> player" where
  "attempted a p =
     removeAura (atUntil a) (spID (atSpell a))
       (apply_aura (atFrom a) (atSpell a) False (atTriggered a) (atDuration a) False p)"

text \<open>The player after a history, latest attempt first.\<close>

fun after_attempts :: "attempt list \<Rightarrow> player" where
  "after_attempts [] = (replicate 21 no_return, Map.empty)"
| "after_attempts (a # as) = attempted a (after_attempts as)"

text \<open>
  The specification: the number of hits in a row, at most three, with no gap over 15 seconds between the end of one and the
  next or now. An attempt against three hits in a row does nothing.
\<close>

fun streak :: "int \<Rightarrow> attempt list \<Rightarrow> nat" where
  "streak now [] = 0"
| "streak now (a # as) =
     (if streak (atFrom a) as = 3 then streak now as
      else if now - atUntil a > diminishingResetDuration then 0
      else Suc (streak (atFrom a) as))"

lemma streak_le: "streak now as \<le> 3"
proof (induction as arbitrary: now)
  case (Cons a as)
  show ?case using Cons.IH [of now] Cons.IH [of "atFrom a"] by auto
qed simp

definition hits_group :: "DiminishingGroup \<Rightarrow> attempt \<Rightarrow> bool" where
  "hits_group grp a \<longleftrightarrow>
     getDiminishingReturnsGroup (atSpell a) (atTriggered a) = grp \<and> 0 < atDuration a \<and>
     4 \<le> capped (atSpell a) grp True (atDuration a) \<and> uint (capped (atSpell a) grp True (atDuration a)) \<le> 2 ^ 24"

lemma land_hit:
  assumes "hits_group grp a" "halves grp" "length ds = 21" "fst (getDiminishing (atFrom a) grp ds) = l" "l \<le> 3"
  shows "land_aura (atFrom a) (atSpell a) False (atTriggered a) (atDuration a) ds =
    (if l = 3 then (None, ds[unat grp := (ds ! unat grp)\<lparr>drHitCount := 3\<rparr>])
     else (Some (grp, capped (atSpell a) grp True (atDuration a) div 2 ^ unat l),
       ds[unat grp := (ds ! unat grp)\<lparr>drHitCount := l + 1, drStack := drStack (ds ! unat grp) + 1\<rparr>]))"
proof -
  have g: "getDiminishingReturnsGroup (atSpell a) (atTriggered a) = grp" "0 < atDuration a"
      "4 \<le> capped (atSpell a) grp True (atDuration a)" "uint (capped (atSpell a) grp True (atDuration a)) \<le> 2 ^ 24"
    using assms(1) by (simp_all add: hits_group_def)
  note r = apply_duration [OF g(1) assms(2,3) g(2-4) assms(4,5)]
  have grp: "grp < DiminishingMax" "unat grp < 21" using group_small g(1) by (auto simp: below_Max)
  have ng: "grp \<noteq> DiminishingTaunt" using assms(2) by (simp add: halves_def)
  show ?thesis
  proof (cases "l = 3")
    case True
    then show ?thesis using g(2) by (simp add: land_aura_def r)
  next
    case False
    then have l: "l < 3" using assms(5) by simp
    let ?ds = "ds[unat grp := (ds ! unat grp)\<lparr>drHitCount := l\<rparr>]"
    have same: "fst (getDiminishing (atFrom a) grp ?ds) = l"
      using assms(3,4) grp l by (auto simp: getDiminishing_def Let_def split: if_splits option.splits)
    have "length ?ds = 21" using assms(3) by simp
    note incrDiminishing_eq [OF grp(1) this ng same l]
    then show ?thesis
      using False g(2) grp assms(3) not_le [of 21 grp]
      by (simp add: land_aura_def r applyDiminishingAura_def Let_def del: not_le)
  qed
qed

lemma small_level:
  assumes "n \<le> 3"
  shows "(of_nat n :: u8) \<le> 3" "(of_nat n :: u8) = 3 \<longleftrightarrow> n = 3" "unat (of_nat n :: u8) = n" "(of_nat n + 1 :: u8) \<noteq> 0"
proof -
  have "n = 0 \<or> n = 1 \<or> n = 2 \<or> n = 3" using assms by arith
  then show "(of_nat n :: u8) \<le> 3" "(of_nat n :: u8) = 3 \<longleftrightarrow> n = 3" "unat (of_nat n :: u8) = n" "(of_nat n + 1 :: u8) \<noteq> 0"
    by auto
qed

lemma land_to_apply:
  assumes "land_aura now spell positive triggered d ds = (r, ds')"
  shows "apply_aura now spell positive triggered d suppressed (ds, active) =
    (case r of None \<Rightarrow> (ds', active) | Some (grp, _) \<Rightarrow> record_aura now (spID spell) grp suppressed (ds', active))"
  using assms by (simp add: apply_aura_def split: option.splits)

text \<open>No aura is left between the attempts, and the level at any time is the streak.\<close>

lemma after_attempts_streak:
  assumes "\<forall>a \<in> set as. hits_group grp a" "halves grp" "grp < DiminishingMax"
  shows "\<exists>ds. after_attempts as = (ds, Map.empty) \<and> length ds = 21 \<and> drStack (ds ! unat grp) = 0 \<and>
    (\<forall>now. fst (getDiminishing now grp ds) = of_nat (streak now as))"
  using assms(1)
proof (induction as)
  case Nil
  have "unat grp < 21" using assms(3) by (simp add: below_Max)
  then show ?case by (simp add: getDiminishing_def no_return_def Let_def)
next
  case (Cons a as)
  then obtain ds where ds: "after_attempts as = (ds, Map.empty)" "length ds = 21" "drStack (ds ! unat grp) = 0"
      "fst (getDiminishing now grp ds) = of_nat (streak now as)" for now
    by auto
  define n where "n = streak (atFrom a) as"
  have n: "n \<le> 3" by (simp add: n_def streak_le)
  note l = small_level [OF n]
  have i: "unat grp < 21" using assms(3) by (simp add: below_Max)
  have small: "\<not> DiminishingMax \<le> grp" using assms(3) by simp
  have none: "grp \<noteq> DiminishingNone" using assms(2) by (simp add: halves_def)
  have land: "land_aura (atFrom a) (atSpell a) False (atTriggered a) (atDuration a) ds =
    (if n = 3 then (None, ds[unat grp := (ds ! unat grp)\<lparr>drHitCount := 3\<rparr>])
     else (Some (grp, capped (atSpell a) grp True (atDuration a) div 2 ^ unat (of_nat n :: u8)),
       ds[unat grp := (ds ! unat grp)\<lparr>drHitCount := of_nat n + 1, drStack := drStack (ds ! unat grp) + 1\<rparr>]))"
    using land_hit [OF _ assms(2) ds(2) ds(4) l(1) [unfolded n_def]] Cons.prems l(2) by (simp add: n_def)
  show ?case
  proof (cases "n = 3")
    case True
    have "fst (getDiminishing (atFrom a) grp ds) = 3" using ds(4) True by (simp add: n_def)
    then have "drHitCount (ds ! unat grp) = 3"
      using i small by (auto simp: getDiminishing_def Let_def split: if_splits option.splits)
    then have "ds[unat grp := (ds ! unat grp)\<lparr>drHitCount := 3\<rparr>] = ds" by simp
    then have "land_aura (atFrom a) (atSpell a) False (atTriggered a) (atDuration a) ds = (None, ds)" using land True by simp
    from land_to_apply [OF this, of False Map.empty] have "attempted a (ds, Map.empty) = (ds, Map.empty)"
      by (simp add: attempted_def removeAura_def)
    then show ?thesis using True ds by (simp flip: n_def)
  next
    case False
    let ?d = "(ds ! unat grp)\<lparr>drHitCount := of_nat n + 1, drStack := 0, drHitTime := Some (atUntil a)\<rparr>"
    note landed = land [simplified False if_False]
    have "attempted a (ds, Map.empty) = (ds[unat grp := ?d], Map.empty)"
      using land_to_apply [OF landed, of False Map.empty] ds(2,3) i small none
      by (simp add: attempted_def removeAura_def record_aura_def release_group_def applyDiminishingAura_def Let_def)
    moreover have "fst (getDiminishing now grp (ds[unat grp := ?d])) = of_nat (streak now (a # as))" for now
    proof -
      show ?thesis using l(4) False ds(2) i small by (simp add: getDiminishing_def Let_def n_def [symmetric] add.commute)
    qed
    ultimately show ?thesis using ds i by simp
  qed
qed


text \<open>A stun of 20 seconds, three times within a minute.\<close>

definition hammer :: Spell where
  "hammer = no_spell\<lparr>spID := 853, spAttributesCu := 0x1000, spEffects :=
     [no_effect\<lparr>seEffect := 6, seAura := 12\<rparr>, no_effect, no_effect]\<rparr>"

definition hammer_at :: "int \<Rightarrow> int \<Rightarrow> attempt" where
  "hammer_at t t' = \<lparr>atFrom = t, atUntil = t', atSpell = hammer, atTriggered = False, atDuration = 20000\<rparr>"


section \<open>The cap on players\<close>

text \<open>
  On a player no group with a limit lasts longer than the limit of the spell: six to 120 seconds for the named families,
  ten seconds otherwise, whatever the counters say.
\<close>

theorem player_duration_capped:
  assumes "applyDiminishingToDuration now spell d True triggered ds = ((grp, d', ok), ds')"
    and "isGroupDurationLimited grp"
  shows "d' \<le> diminishingDurationLimitMs spell grp"
proof -
  let ?limit = "diminishingDurationLimitMs spell grp"
  have limit: "0 < ?limit" "uint ?limit \<le> 2 ^ 24"
    using assms(2) by (auto simp: diminishingDurationLimitMs_def)
  then have cap: "capped spell grp True d \<le> ?limit" by (auto simp: capped_def Let_def not_less)
  then have small: "uint (capped spell grp True d) \<le> 2 ^ 24" using limit(2) by (simp add: word_le_def)
  have le: "f32_to_u32 (f32_mul (f32_of_int (uint (capped spell grp True d))) (level_mod level)) \<le> capped spell grp True d" for level
    by (auto simp: level_duration [OF small] word_le_nat_alt unat_div)
  have none: "\<not> isGroupDurationLimited DiminishingNone" by (simp add: isGroupDurationLimited_def)
  have "d' \<le> capped spell grp True d"
    using assms none le by (auto simp: applyDiminishingToDuration_def Let_def split: if_splits prod.splits)
  then show ?thesis using cap by simp
qed

theorem player_duration_capped_witness:
  "diminishingDurationLimitMs hammer DiminishingControlledStun \<ge> 10000"
proof -
  have "applyDiminishingToDuration 0 hammer 20000 True False (replicate 21 no_return) =
      ((DiminishingControlledStun, 10000, True), replicate 21 no_return)"
    "isGroupDurationLimited DiminishingControlledStun"
    by code_simp+
  then show ?thesis by (rule player_duration_capped)
qed

section \<open>A second cast of a running aura\<close>

text \<open>
  C25: When a spell hits a player who still has its aura, the aura absorbs the cast but the cast is counted as one more aura of
  the group. After the aura has ended no aura of the group is left, yet the count of active auras stays at one, and so the
  level never falls again, however long the player waits.
\<close>

theorem recast_never_wears_off:
  assumes "hits_group grp a" "halves grp" "length ds = 21"
    and "active (spID (atSpell a)) = Some \<lparr>aaStopped = False, aaDRGroup = grp\<rparr>" "drStack (ds ! unat grp) = 1"
    and "fst (getDiminishing (atFrom a) grp ds) = l" "l < 3"
    and "attempted a (ds, active) = (ds', active')"
  shows "active' = active(spID (atSpell a) := None) \<and> drStack (ds' ! unat grp) = 1 \<and>
    fst (getDiminishing now grp ds') = l + 1"
proof -
  have l: "l \<le> 3" "l \<noteq> 3" "l + 1 \<noteq> 0" using assms(7) by (cases l rule: level_cases; auto)+
  have grp: "grp < DiminishingMax" "grp \<noteq> DiminishingNone"
    using group_small [of "atSpell a" "atTriggered a"] assms(1,2) by (auto simp: hits_group_def halves_def)
  then have i: "unat grp < 21" "\<not> DiminishingMax \<le> grp" by (simp add: below_Max, simp)
  note land = land_hit [OF assms(1-3,6) l(1), simplified l(2) if_False]
  have "attempted a (ds, active) = (ds[unat grp := (ds ! unat grp)\<lparr>drHitCount := l + 1, drStack := 1\<rparr>],
      active(spID (atSpell a) := None))"
    using land_to_apply [OF land, of False active] assms(3-5) i grp(2)
    by (simp add: attempted_def removeAura_def record_aura_def release_group_def applyDiminishingAura_def Let_def)
  then show ?thesis using assms(3,8) i l(3) by (auto simp: getDiminishing_def Let_def)
qed

definition stunned :: diminishing where
  "stunned = (replicate 21 no_return)[4 := \<lparr>drHitCount = 1, drStack = 1, drHitTime = None\<rparr>]"

theorem recast_never_wears_off_witness:
  "\<forall>now. fst (getDiminishing now DiminishingControlledStun
     (fst (attempted (hammer_at 5000000000 6000000000)
       (stunned, [853 \<mapsto> \<lparr>aaStopped = False, aaDRGroup = DiminishingControlledStun\<rparr>])))) = 2"
proof
  fix now :: int
  let ?active = "[853 \<mapsto> \<lparr>aaStopped = False, aaDRGroup = DiminishingControlledStun\<rparr>]"
  obtain ds' active' where p: "attempted (hammer_at 5000000000 6000000000) (stunned, ?active) = (ds', active')"
    by (rule prod.exhaust)
  have "hits_group DiminishingControlledStun (hammer_at 5000000000 6000000000)" "halves DiminishingControlledStun"
      "length stunned = 21" "drStack (stunned ! unat DiminishingControlledStun) = 1"
      "fst (getDiminishing (atFrom (hammer_at 5000000000 6000000000)) DiminishingControlledStun stunned) = 1"
    by code_simp+
  moreover have "spID (atSpell (hammer_at 5000000000 6000000000)) = 853" by code_simp
  ultimately show "fst (getDiminishing now DiminishingControlledStun
      (fst (attempted (hammer_at 5000000000 6000000000) (stunned, ?active)))) = 2"
    using recast_never_wears_off [of DiminishingControlledStun "hammer_at 5000000000 6000000000" stunned ?active 1 ds' active' now] p
    by simp
qed

end
