(* ===== verification/Runes.thy ===== *)
theory Runes
  imports Taxi Spell_Data
begin

text \<open>
  \<^verbatim>\<open>engine/world/runes.go\<close>: the six runes of a death knight. Each slot has a fixed base type and a current type, and is
  ready when its cooldown has ended. Times are milliseconds. What the spell modifiers of the session make of a cost, and the
  die of an effect, are arguments; \<open>lookup\<close> is the spell table.
\<close>

section \<open>State\<close>

abbreviation (input) runeBlood :: u8 where "runeBlood \<equiv> 0"
abbreviation (input) runeUnholy :: u8 where "runeUnholy \<equiv> 1"
abbreviation (input) runeFrost :: u8 where "runeFrost \<equiv> 2"
abbreviation (input) runeDeath :: u8 where "runeDeath \<equiv> 3"
abbreviation (input) maxRunes :: nat where "maxRunes \<equiv> 6"
abbreviation (input) runeBaseCooldownMs :: int where "runeBaseCooldownMs \<equiv> 10000"
abbreviation (input) runeMissCooldownMs :: int where "runeMissCooldownMs \<equiv> 1500"
abbreviation (input) powerRune :: u32 where "powerRune \<equiv> 5"
abbreviation (input) classDeathKnight :: u8 where "classDeathKnight \<equiv> 6"
abbreviation (input) spellEmpowerRuneWeapon :: u32 where "spellEmpowerRuneWeapon \<equiv> 47568"
abbreviation (input) spellAuraConvertRune :: u32 where "spellAuraConvertRune \<equiv> 249"
abbreviation (input) spellAuraModPowerRegenPct :: u32 where "spellAuraModPowerRegenPct \<equiv> 110"
abbreviation (input) unitFlagInCombat :: u32 where "unitFlagInCombat \<equiv> 0x00080000"
abbreviation (input) spellAttributePassive :: u32 where "spellAttributePassive \<equiv> 0x40"

record dkRuneState =
  rsBase :: "u8 list"
  rsCurrent :: "u8 list"
  rsCooldownEndMs :: "int list"
  rsGraceStartMs :: "int list"
  rsLastUsed :: u8

record learnedSpell =
  lsID :: u32
  lsActive :: bool
  lsDisabled :: bool

text \<open>Of an aura: the spell, whether it is stopped, which effects apply and their amounts.\<close>

record live_aura =
  laSpellID :: u32
  laStopped :: bool
  laEffectMask :: u8
  laAmounts :: "int list"

record rune_session =
  rnClass :: u8
  rnUnitFlags :: u32
  rnLevel :: u32
  rnSpells :: "learnedSpell list"
  rnAuras :: "live_aura list"
  rnRunes :: "dkRuneState option"

section \<open>Types at login\<close>

text \<open>Up to \<open>remaining\<close> runes of one type are converted, in the order of the slots.\<close>

fun convert_runes :: "u8 \<Rightarrow> u8 \<Rightarrow> u32 \<Rightarrow> u8 list \<Rightarrow> u8 list" where
  "convert_runes from to remaining [] = []"
| "convert_runes from to remaining (t # ts) =
     (if remaining = 0 then t # ts
      else if t = from then to # convert_runes from to (remaining - 1) ts
      else t # convert_runes from to remaining ts)"

definition convert_effect :: "SpellEffect \<Rightarrow> u8 list \<Rightarrow> u8 list" where
  "convert_effect e ts =
     (if seEffect e = 0 \<or> seAura e \<noteq> spellAuraConvertRune then ts
      else convert_runes (word_of_int (seMiscValue e)) (word_of_int (seMiscValueB e)) (word_of_int (seBasePoints e)) ts)"

definition ResolveDeathKnightRuneTypes :: "u8 list \<Rightarrow> Spell list \<Rightarrow> u8 list" where
  "ResolveDeathKnightRuneTypes initial spells =
     fold (\<lambda>spell ts. if \<not> has_flag (spAttributes spell) spellAttributePassive then ts
                      else fold convert_effect (spEffects spell) ts) spells initial"

definition base_layout :: "u8 list" where
  "base_layout = [runeBlood, runeBlood, runeUnholy, runeUnholy, runeFrost, runeFrost]"

definition passive_spell :: "(u32 \<Rightarrow> Spell option) \<Rightarrow> learnedSpell \<Rightarrow> Spell option" where
  "passive_spell lookup learned =
     (if \<not> lsActive learned \<or> lsDisabled learned then None
      else case lookup (lsID learned) of
             None \<Rightarrow> None
           | Some spell \<Rightarrow> if has_flag (spAttributes spell) spellAttributePassive then Some spell else None)"

definition dkLoginCurrentRuneTypes :: "(u32 \<Rightarrow> Spell option) \<Rightarrow> rune_session \<Rightarrow> u8 list" where
  "dkLoginCurrentRuneTypes lookup s =
     ResolveDeathKnightRuneTypes base_layout (List.map_filter (passive_spell lookup) (sort_key lsID (rnSpells s)))"

definition initRunes :: "(u32 \<Rightarrow> Spell option) \<Rightarrow> rune_session \<Rightarrow> rune_session" where
  "initRunes lookup s =
     (if rnClass s \<noteq> classDeathKnight then s
      else s\<lparr>rnRunes := Some \<lparr>rsBase = base_layout, rsCurrent = dkLoginCurrentRuneTypes lookup s,
               rsCooldownEndMs = replicate maxRunes 0, rsGraceStartMs = replicate maxRunes (-1), rsLastUsed = 0\<rparr>\<rparr>)"

section \<open>Cooldowns\<close>

definition runeGraceMs :: "dkRuneState \<Rightarrow> nat \<Rightarrow> int \<Rightarrow> int" where
  "runeGraceMs rs i nowMs =
     (if i \<ge> maxRunes \<or> rsGraceStartMs rs ! i < 0 then 0
      else let grace = nowMs - rsGraceStartMs rs ! i in
        if grace < 0 then 0 else if grace > 2500 then 2500 else grace)"

definition runeCooldownRemainingMs :: "dkRuneState \<Rightarrow> nat \<Rightarrow> int \<Rightarrow> int" where
  "runeCooldownRemainingMs rs i nowMs =
     (let remaining = rsCooldownEndMs rs ! i - nowMs in if remaining < 0 then 0 else remaining)"

definition regen_effect :: "u8 \<Rightarrow> live_aura \<Rightarrow> Spell \<Rightarrow> nat \<Rightarrow> int \<Rightarrow> int" where
  "regen_effect base aura spell i cooldown =
     (let e = spEffects spell ! i in
      if i \<ge> length (laAmounts aura) \<or> \<not> has_flag (laEffectMask aura) (push_bit i 1) then cooldown
      else if seAura e \<noteq> spellAuraModPowerRegenPct \<or> seMiscValue e \<noteq> uint powerRune \<or> seMiscValueB e \<noteq> uint base then cooldown
      else go_div (cooldown * (100 - laAmounts aura ! i)) 100)"

definition regen_aura :: "(u32 \<Rightarrow> Spell option) \<Rightarrow> u8 \<Rightarrow> live_aura \<Rightarrow> int \<Rightarrow> int" where
  "regen_aura lookup base aura cooldown =
     (if laStopped aura then cooldown
      else case lookup (laSpellID aura) of
             None \<Rightarrow> cooldown
           | Some spell \<Rightarrow> fold (regen_effect base aura spell) [0..<length (spEffects spell)] cooldown)"

definition runeBaseCooldownMsForSlot :: "(u32 \<Rightarrow> Spell option) \<Rightarrow> rune_session \<Rightarrow> dkRuneState \<Rightarrow> nat \<Rightarrow> int" where
  "runeBaseCooldownMsForSlot lookup s rs i =
     (if i \<ge> maxRunes then runeBaseCooldownMs
      else fold (regen_aura lookup (rsBase rs ! i)) (rnAuras s) runeBaseCooldownMs)"

definition runeReadyMask :: "rune_session \<Rightarrow> int \<Rightarrow> u8" where
  "runeReadyMask s nowMs =
     (case rnRunes s of
        None \<Rightarrow> 0
      | Some rs \<Rightarrow> fold (\<lambda>i m. if runeCooldownRemainingMs rs i nowMs = 0 then m OR push_bit i 1 else m) [0..<maxRunes] 0)"

text \<open>The packet that tells the client, when there is one to send.\<close>

definition sendRuneCooldownUpdate :: "int \<Rightarrow> rune_session \<Rightarrow> bytes option" where
  "sendRuneCooldownUpdate nowMs s =
     (if rnClass s \<noteq> classDeathKnight then None
      else case rnRunes s of
        None \<Rightarrow> None
      | Some rs \<Rightarrow>
          Some (Bytes (writes (WriteU32 6 #
            map (\<lambda>i. writes [WriteU8 (rsCurrent rs ! i),
                 WriteU8 (255 - word_of_int (go_div (runeCooldownRemainingMs rs i nowMs * 255) runeBaseCooldownMs))])
              [0..<maxRunes]) (NewBuffer 16))))"

section \<open>The cost of a spell\<close>

record SpellRuneCost =
  rcRuneCost :: "u32 list"
  rcRunicPower :: u32

definition store_SpellRuneCost :: "dbc_files \<Rightarrow> u32 \<Rightarrow> go_error + SpellRuneCost option" where
  "store_SpellRuneCost files key =
     (if key = 0 then Inr (Some \<lparr>rcRuneCost = [0, 0, 0], rcRunicPower = 0\<rparr>)
      else res_bind (files (table_name ''SpellRuneCost'')) (\<lambda>file.
        res_bind (Find file key) (\<lambda>found.
          case found of
            None \<Rightarrow> Inr None
          | Some r \<Rightarrow>
              res_bind (Uint32 r 1) (\<lambda>c0. res_bind (Uint32 r 2) (\<lambda>c1. res_bind (Uint32 r 3) (\<lambda>c2.
              res_bind (Uint32 r 4) (\<lambda>power.
                Inr (Some \<lparr>rcRuneCost = [c0, c1, c2], rcRunicPower = power\<rparr>))))))))"

text \<open>The callers treat a missing row and an error alike.\<close>

definition rune_cost :: "dbc_files \<Rightarrow> u32 \<Rightarrow> SpellRuneCost option" where
  "rune_cost files key = (case store_SpellRuneCost files key of Inr found \<Rightarrow> found | Inl e \<Rightarrow> None)"

definition modded_costs :: "(int \<Rightarrow> int) \<Rightarrow> SpellRuneCost \<Rightarrow> int list" where
  "modded_costs modded cost = map (\<lambda>c. modded (sint c)) (rcRuneCost cost)"

text \<open>Costs are indexed by the type of rune; the fourth entry counts death runes.\<close>

definition pay_one :: "nat \<Rightarrow> int list \<Rightarrow> int list" where
  "pay_one t cost = cost[t := cost ! t - 1]"

definition check_slot :: "dkRuneState \<Rightarrow> int \<Rightarrow> nat \<Rightarrow> int list \<Rightarrow> int list" where
  "check_slot rs nowMs i cost =
     (let cur = unat (rsCurrent rs ! i) in
      if runeCooldownRemainingMs rs i nowMs = 0 \<and> cost ! cur > 0 then pay_one cur cost else cost)"

definition checkRuneCost :: "dbc_files \<Rightarrow> (int \<Rightarrow> int) \<Rightarrow> Spell \<Rightarrow> rune_session \<Rightarrow> int \<Rightarrow> bool" where
  "checkRuneCost files modded spell s nowMs =
     (if spPowerType spell \<noteq> powerRune \<or> spRuneCostID spell = 0 then True
      else if rnClass s \<noteq> classDeathKnight then True
      else case rune_cost files (spRuneCostID spell) of
        None \<Rightarrow> True
      | Some cost \<Rightarrow>
          if \<forall>c \<in> set (rcRuneCost cost). c = 0 then True
          else case rnRunes s of
            None \<Rightarrow> True
          | Some rs \<Rightarrow>
              let cost = fold (check_slot rs nowMs) [0..<maxRunes] (modded_costs modded cost @ [6]);
                  total_death = fold (\<lambda>i d. if cost ! i > 0 then to_i32 (d + cost ! i) else d) [0..<3] (cost ! 3) in
              total_death \<le> 6)"

section \<open>Spending runes\<close>

text \<open>The cooldown that a rune gets: the base one, or the short one of a miss, less the grace banked in combat.\<close>

definition new_cooldown :: "(u32 \<Rightarrow> Spell option) \<Rightarrow> rune_session \<Rightarrow> bool \<Rightarrow> int \<Rightarrow> dkRuneState \<Rightarrow> nat \<Rightarrow> int" where
  "new_cooldown lookup s didHit nowMs rs i =
     (let cd = (if \<not> didHit then runeMissCooldownMs else runeBaseCooldownMsForSlot lookup s rs i) in
      if has_flag (rnUnitFlags s) unitFlagInCombat then
        let grace = runeGraceMs rs i nowMs in
        if grace > 0 \<and> cd > 0 then cd - (if grace > cd then cd else grace) else cd
      else cd)"

definition setRuneCooldown :: "(u32 \<Rightarrow> Spell option) \<Rightarrow> rune_session \<Rightarrow> bool \<Rightarrow> int \<Rightarrow> nat \<Rightarrow> dkRuneState \<Rightarrow> dkRuneState" where
  "setRuneCooldown lookup s didHit nowMs i rs =
     (let cd = new_cooldown lookup s didHit nowMs rs i in
      rs\<lparr>rsGraceStartMs := (if has_flag (rnUnitFlags s) unitFlagInCombat then (rsGraceStartMs rs)[i := nowMs + cd]
                           else rsGraceStartMs rs),
         rsCooldownEndMs := (rsCooldownEndMs rs)[i := nowMs + cd]\<rparr>)"

definition RestoreBaseRune :: "bool \<Rightarrow> nat \<Rightarrow> dkRuneState \<Rightarrow> dkRuneState" where
  "RestoreBaseRune didHit i rs = (if didHit then rs\<lparr>rsCurrent := (rsCurrent rs)[i := rsBase rs ! i]\<rparr> else rs)"

text \<open>The three loops: runes of the type asked for, death runes on such a slot, any death rune.\<close>

fun spend_matching ::
  "(nat \<Rightarrow> dkRuneState \<Rightarrow> dkRuneState) \<Rightarrow> int \<Rightarrow> nat list \<Rightarrow> dkRuneState \<Rightarrow> int list \<Rightarrow> dkRuneState \<times> int list" where
  "spend_matching cool nowMs [] rs cost = (rs, cost)"
| "spend_matching cool nowMs (i # is) rs cost =
     (let cur = rsCurrent rs ! i in
      if runeCooldownRemainingMs rs i nowMs = 0 \<and> cost ! unat cur > 0
        then spend_matching cool nowMs is ((cool i rs)\<lparr>rsLastUsed := cur\<rparr>) (pay_one (unat cur) cost)
      else spend_matching cool nowMs is rs cost)"

fun spend_death_on_base ::
  "(nat \<Rightarrow> dkRuneState \<Rightarrow> dkRuneState) \<Rightarrow> bool \<Rightarrow> int \<Rightarrow> nat list \<Rightarrow> dkRuneState \<Rightarrow> int list \<Rightarrow> dkRuneState \<times> int list" where
  "spend_death_on_base cool didHit nowMs [] rs cost = (rs, cost)"
| "spend_death_on_base cool didHit nowMs (i # is) rs cost =
     (let cur = rsCurrent rs ! i; base = rsBase rs ! i in
      if runeCooldownRemainingMs rs i nowMs = 0 \<and> cur = runeDeath \<and> cost ! unat base > 0 then
        let rs = RestoreBaseRune didHit i ((cool i rs)\<lparr>rsLastUsed := cur\<rparr>);
            cost = pay_one 3 (pay_one (unat base) cost) in
        if cost ! 3 = 0 then (rs, cost) else spend_death_on_base cool didHit nowMs is rs cost
      else spend_death_on_base cool didHit nowMs is rs cost)"

fun spend_any_death ::
  "(nat \<Rightarrow> dkRuneState \<Rightarrow> dkRuneState) \<Rightarrow> bool \<Rightarrow> int \<Rightarrow> nat list \<Rightarrow> dkRuneState \<Rightarrow> int list \<Rightarrow> dkRuneState \<times> int list" where
  "spend_any_death cool didHit nowMs [] rs cost = (rs, cost)"
| "spend_any_death cool didHit nowMs (i # is) rs cost =
     (let cur = rsCurrent rs ! i in
      if runeCooldownRemainingMs rs i nowMs = 0 \<and> cur = runeDeath then
        let rs = RestoreBaseRune didHit i ((cool i rs)\<lparr>rsLastUsed := cur\<rparr>);
            cost = pay_one 3 cost in
        if cost ! 3 = 0 then (rs, cost) else spend_any_death cool didHit nowMs is rs cost
      else spend_any_death cool didHit nowMs is rs cost)"

definition spend_runes ::
  "(nat \<Rightarrow> dkRuneState \<Rightarrow> dkRuneState) \<Rightarrow> bool \<Rightarrow> int \<Rightarrow> dkRuneState \<Rightarrow> int list \<Rightarrow> dkRuneState" where
  "spend_runes cool didHit nowMs rs cost =
     (case spend_matching cool nowMs [0..<maxRunes] rs (cost @ [0]) of
        (rs, cost) \<Rightarrow>
          let cost = cost[3 := to_i32 (to_i32 (cost ! 0 + cost ! 1) + cost ! 2)];
              (rs, cost) = (if cost ! 3 > 0 then spend_death_on_base cool didHit nowMs [0..<maxRunes] rs cost else (rs, cost)) in
          if cost ! 3 > 0 then fst (spend_any_death cool didHit nowMs [0..<maxRunes] rs cost) else rs)"

text \<open>The mask of ready runes before the spell, the session after it, and the runic power that it gives.\<close>

definition takeRunePower ::
  "dbc_files \<Rightarrow> (u32 \<Rightarrow> Spell option) \<Rightarrow> (int \<Rightarrow> int) \<Rightarrow> Spell \<Rightarrow> bool \<Rightarrow> int \<Rightarrow> rune_session \<Rightarrow>
     u8 \<times> rune_session \<times> u32" where
  "takeRunePower files lookup modded spell didHit nowMs s =
     (if rnClass s \<noteq> classDeathKnight then (0, s, 0)
      else case rune_cost files (spRuneCostID spell) of
        None \<Rightarrow> (0, s, 0)
      | Some cost \<Rightarrow>
          if (\<forall>c \<in> set (rcRuneCost cost). c = 0) \<and> rcRunicPower cost = 0 then (0, s, 0)
          else
            let s = (if rnRunes s = None then initRunes lookup s else s) in
            case rnRunes s of
              None \<Rightarrow> (0, s, 0)
            | Some rs \<Rightarrow>
                (runeReadyMask s nowMs,
                 s\<lparr>rnRunes := Some (spend_runes (setRuneCooldown lookup s didHit nowMs) didHit nowMs rs (modded_costs modded cost))\<rparr>,
                 if didHit then rcRunicPower cost else 0))"

section \<open>Effects on runes\<close>

text \<open>A rune is made ready; a grace window that was to start later starts now.\<close>

definition activate_slot :: "int \<Rightarrow> nat \<Rightarrow> dkRuneState \<Rightarrow> dkRuneState" where
  "activate_slot nowMs i rs =
     rs\<lparr>rsCooldownEndMs := (rsCooldownEndMs rs)[i := 0],
        rsGraceStartMs := (if rsGraceStartMs rs ! i > nowMs then (rsGraceStartMs rs)[i := nowMs] else rsGraceStartMs rs)\<rparr>"

fun activate_type :: "int \<Rightarrow> u8 \<Rightarrow> nat list \<Rightarrow> int \<Rightarrow> dkRuneState \<times> bool \<Rightarrow> dkRuneState \<times> bool" where
  "activate_type nowMs runeType [] n (rs, changed) = (rs, changed)"
| "activate_type nowMs runeType (j # js) n (rs, changed) =
     (if \<not> n > 0 then (rs, changed)
      else if runeCooldownRemainingMs rs j nowMs > 0 \<and> rsCurrent rs ! j = runeType
        then activate_type nowMs runeType js (n - 1) (activate_slot nowMs j rs, True)
      else activate_type nowMs runeType js n (rs, changed))"

definition activate_frost :: "int \<Rightarrow> dkRuneState \<times> bool \<Rightarrow> dkRuneState \<times> bool" where
  "activate_frost nowMs =
     fold (\<lambda>i (rs, changed).
       if runeCooldownRemainingMs rs i nowMs > 0 \<and> rsBase rs ! i = runeFrost then (activate_slot nowMs i rs, True)
       else (rs, changed)) [0..<maxRunes]"

definition handleEffectActivateRune ::
  "int \<Rightarrow> int \<Rightarrow> Spell \<Rightarrow> SpellEffect \<Rightarrow> nat \<Rightarrow> rune_session \<Rightarrow> rune_session \<times> bytes option" where
  "handleEffectActivateRune nowMs r spell eff effectIndex s =
     (if rnClass s \<noteq> classDeathKnight then (s, None)
      else case rnRunes s of
        None \<Rightarrow> (s, None)
      | Some rs \<Rightarrow>
          let n = CalcValueForLevel eff spell (rnLevel s) r;
              n = (if n = 0 then 1 else n);
              st = activate_type nowMs (word_of_int (seMiscValue eff)) [0..<maxRunes] n (rs, False);
              st = (if spID spell = spellEmpowerRuneWeapon \<and> effectIndex = 0 then activate_frost nowMs st else st);
              s = s\<lparr>rnRunes := Some (fst st)\<rparr> in
          (s, if snd st then sendRuneCooldownUpdate nowMs s else None))"

fun convert_ready :: "int \<Rightarrow> u8 \<Rightarrow> u8 \<Rightarrow> nat list \<Rightarrow> u32 \<Rightarrow> dkRuneState \<times> bool \<Rightarrow> dkRuneState \<times> bool" where
  "convert_ready nowMs from to [] remaining (rs, changed) = (rs, changed)"
| "convert_ready nowMs from to (i # is) remaining (rs, changed) =
     (if remaining = 0 then (rs, changed)
      else if rsCurrent rs ! i \<noteq> from \<or> runeCooldownRemainingMs rs i nowMs > 0
        then convert_ready nowMs from to is remaining (rs, changed)
      else convert_ready nowMs from to is (remaining - 1) (rs\<lparr>rsCurrent := (rsCurrent rs)[i := to]\<rparr>, True))"

definition applyConvertRuneAura :: "int \<Rightarrow> SpellEffect \<Rightarrow> u32 \<Rightarrow> rune_session \<Rightarrow> rune_session \<times> bytes option" where
  "applyConvertRuneAura nowMs eff amount s =
     (if rnClass s \<noteq> classDeathKnight then (s, None)
      else case rnRunes s of
        None \<Rightarrow> (s, None)
      | Some rs \<Rightarrow>
          let st = convert_ready nowMs (word_of_int (seMiscValue eff)) (word_of_int (seMiscValueB eff)) [0..<maxRunes] amount (rs, False);
              s = s\<lparr>rnRunes := Some (fst st)\<rparr> in
          (s, if snd st then sendRuneCooldownUpdate nowMs s else None))"

definition converts :: "u8 \<Rightarrow> u8 \<Rightarrow> Spell \<Rightarrow> bool" where
  "converts from to spell \<longleftrightarrow>
     (\<exists>eff \<in> set (spEffects spell). seAura eff = spellAuraConvertRune \<and>
        word_of_int (seMiscValue eff) = from \<and> word_of_int (seMiscValueB eff) = to)"

definition hasOtherConvertRuneSource :: "(u32 \<Rightarrow> Spell option) \<Rightarrow> u32 \<Rightarrow> u8 \<Rightarrow> u8 \<Rightarrow> rune_session \<Rightarrow> bool" where
  "hasOtherConvertRuneSource lookup excludeSpellID from to s \<longleftrightarrow>
     (\<exists>aura \<in> set (rnAuras s). \<not> laStopped aura \<and> laSpellID aura \<noteq> excludeSpellID \<and>
        (case lookup (laSpellID aura) of None \<Rightarrow> False | Some spell \<Rightarrow> converts from to spell)) \<or>
     (\<exists>learned \<in> set (rnSpells s). lsID learned \<noteq> excludeSpellID \<and>
        (case passive_spell lookup learned of None \<Rightarrow> False | Some spell \<Rightarrow> converts from to spell))"

definition revert_slot :: "u8 \<Rightarrow> u8 \<Rightarrow> bool \<Rightarrow> nat \<Rightarrow> dkRuneState \<times> bool \<Rightarrow> dkRuneState \<times> bool" where
  "revert_slot from to other i st =
     (case st of (rs, changed) \<Rightarrow>
        if rsCurrent rs ! i \<noteq> to \<or> rsBase rs ! i \<noteq> from then (rs, changed)
        else if other then (rs, changed)
        else (rs\<lparr>rsCurrent := (rsCurrent rs)[i := rsBase rs ! i]\<rparr>, True))"

definition removeConvertRuneAura ::
  "int \<Rightarrow> (u32 \<Rightarrow> Spell option) \<Rightarrow> u32 \<Rightarrow> rune_session \<Rightarrow> rune_session \<times> bytes option" where
  "removeConvertRuneAura nowMs lookup spellID s =
     (if rnClass s \<noteq> classDeathKnight then (s, None)
      else case rnRunes s of
        None \<Rightarrow> (s, None)
      | Some rs \<Rightarrow>
          (case lookup spellID of
             None \<Rightarrow> (s, None)
           | Some spell \<Rightarrow>
               let st = fold (\<lambda>eff st.
                     if seAura eff \<noteq> spellAuraConvertRune then st
                     else let from = word_of_int (seMiscValue eff); to = word_of_int (seMiscValueB eff) in
                       fold (revert_slot from to (hasOtherConvertRuneSource lookup spellID from to s)) [0..<maxRunes] st)
                   (spEffects spell) (rs, False);
                   s = s\<lparr>rnRunes := Some (fst st)\<rparr> in
               (s, if snd st then sendRuneCooldownUpdate nowMs s else None)))"

end
