(* ===== verification/Runes_Spec.thy ===== *)
theory Runes_Spec
  imports Runes
begin

text \<open>
  What a rune cost means: the check passes exactly when the ready runes cover it, death runes standing in for what is
  missing, and the spell then spends that many ready runes, those of the types asked for first.
\<close>

section \<open>Ready runes\<close>

definition ready :: "dkRuneState \<Rightarrow> int \<Rightarrow> nat \<Rightarrow> bool" where
  "ready rs nowMs i \<longleftrightarrow> runeCooldownRemainingMs rs i nowMs = 0"

definition rune_type :: "dkRuneState \<Rightarrow> nat \<Rightarrow> nat" where
  "rune_type rs i = unat (rsCurrent rs ! i)"

definition ready_of :: "dkRuneState \<Rightarrow> int \<Rightarrow> nat \<Rightarrow> nat list \<Rightarrow> int" where
  "ready_of rs nowMs t is = int (length (filter (\<lambda>i. ready rs nowMs i \<and> rune_type rs i = t) is))"

definition runes_ok :: "dkRuneState \<Rightarrow> bool" where
  "runes_ok rs \<longleftrightarrow> length (rsBase rs) = 6 \<and> length (rsCurrent rs) = 6 \<and> length (rsCooldownEndMs rs) = 6 \<and>
     length (rsGraceStartMs rs) = 6 \<and> (\<forall>i < 6. rune_type rs i \<le> 3 \<and> unat (rsBase rs ! i) \<le> 2)"

text \<open>The runes that death runes have to stand in for.\<close>

definition missing_runes :: "dkRuneState \<Rightarrow> int \<Rightarrow> int list \<Rightarrow> int" where
  "missing_runes rs nowMs cost = (\<Sum>t < 3. max 0 (cost ! t - ready_of rs nowMs t [0..<6]))"

lemma ready_of_simps [simp]:
  "ready_of rs nowMs t [] = 0"
  "ready_of rs nowMs t (i # is) = (if ready rs nowMs i \<and> rune_type rs i = t then 1 else 0) + ready_of rs nowMs t is"
  by (simp_all add: ready_of_def)

lemma ready_of_nonneg [simp]: "0 \<le> ready_of rs nowMs t is"
  by (simp add: ready_of_def)

lemma pay_one_nth [simp]: "length (pay_one t cost) = length cost"
    "u < length cost \<Longrightarrow> pay_one t cost ! u = (if u = t then cost ! u - 1 else cost ! u)"
  by (simp_all add: pay_one_def nth_list_update)

section \<open>The check\<close>

lemma check_slots:
  assumes "length cost = 4" "t < 4"
  shows "length (fold (check_slot rs nowMs) is cost) = 4 \<and>
    fold (check_slot rs nowMs) is cost ! t = max (min 0 (cost ! t)) (cost ! t - ready_of rs nowMs t is)"
  using assms
proof (induction "is" arbitrary: cost)
  case (Cons i "is")
  have len: "length (check_slot rs nowMs i cost) = 4" using Cons.prems by (simp add: check_slot_def Let_def)
  have "check_slot rs nowMs i cost ! t =
      (if ready rs nowMs i \<and> rune_type rs i = t \<and> cost ! t > 0 then cost ! t - 1 else cost ! t)"
    using Cons.prems by (auto simp: check_slot_def Let_def ready_def rune_type_def)
  then show ?case using Cons.IH [OF len Cons.prems(2)] ready_of_nonneg [of rs nowMs t "is"]
    by (auto simp: diff_diff_eq simp del: ready_of_nonneg)
qed auto

lemma ready_of_le: "ready_of rs nowMs t is \<le> int (length is)"
  by (induction "is") auto

lemma total_of_small:
  fixes c :: "int list"
  assumes "c ! 0 < 2 ^ 29" "c ! 1 < 2 ^ 29" "c ! 2 < 2 ^ 29" "0 \<le> d" "d \<le> 6"
  shows "fold (\<lambda>i d. if c ! i > 0 then to_i32 (d + c ! i) else d) [0..<3] d = d + (\<Sum>t < 3. max 0 (c ! t))"
proof -
  have "[0..<3] = [0, 1, 2 :: nat]" "{..<3 :: nat} = {0, 1, 2}" by (auto simp: upt_rec)
  then show ?thesis using assms by (auto simp: max_def simp del: upt_rec_numeral)
qed

text \<open>
  The check of a rune cost passes exactly when there are as many ready death runes as ready runes of the three other types
  are missing.
\<close>

lemma checkRuneCost_exact:
  assumes "spPowerType spell = powerRune" "spRuneCostID spell \<noteq> 0" "rnClass s = classDeathKnight"
    and "rune_cost files (spRuneCostID spell) = Some cost" "length (rcRuneCost cost) = 3" "\<exists>c \<in> set (rcRuneCost cost). c \<noteq> 0"
    and "rnRunes s = Some rs" "\<forall>t < 3. modded_costs modded cost ! t < 2 ^ 29"
  shows "checkRuneCost files modded spell s nowMs \<longleftrightarrow>
    missing_runes rs nowMs (modded_costs modded cost) \<le> ready_of rs nowMs 3 [0..<6]"
proof -
  let ?m = "modded_costs modded cost"
  let ?c = "fold (check_slot rs nowMs) [0..<6] (?m @ [6])"
  have len: "length (?m @ [6]) = 4" using assms(5) by (simp add: modded_costs_def)
  have m: "length ?m = 3" using assms(5) by (simp add: modded_costs_def)
  have c: "?c ! t = max (min 0 ((?m @ [6]) ! t)) ((?m @ [6]) ! t - ready_of rs nowMs t [0..<6])" if "t < 4" for t
    using check_slots [OF len that] by blast
  have c3: "?c ! 3 = 6 - ready_of rs nowMs 3 [0..<6]"
    using c [of 3] m ready_of_le [of rs nowMs 3 "[0..<6]"] by (simp add: nth_append del: upt_rec_numeral)
  have ct: "max 0 (?c ! t) = max 0 (?m ! t - ready_of rs nowMs t [0..<6])" if "t < 3" for t
    using c [of t] m that by (simp add: nth_append del: upt_rec_numeral)
  have r: "?c ! t < 2 ^ 29" if "t < 3" for t
  proof -
    have "modded_costs modded cost ! t < 2 ^ 29" using assms(8) that by blast
    then show ?thesis using c [of t] m that ready_of_nonneg [of rs nowMs t "[0..<6]"]
      by (auto simp: nth_append simp del: upt_rec_numeral ready_of_nonneg)
  qed
  have c3r: "0 \<le> ?c ! 3" "?c ! 3 \<le> 6"
    using c3 ready_of_le [of rs nowMs 3 "[0..<6]"] by (simp_all del: upt_rec_numeral)
  have fold: "fold (\<lambda>i d. if ?c ! i > 0 then to_i32 (d + ?c ! i) else d) [0..<3] (?c ! 3) =
      ?c ! 3 + (\<Sum>t < 3. max 0 (?c ! t))"
    using c3r total_of_small [of ?c, OF r [of 0] r [of 1] r [of 2]] by simp
  have "(\<Sum>t < 3. max 0 (?c ! t)) = missing_runes rs nowMs ?m"
    unfolding missing_runes_def using ct by (intro sum.cong) auto
  then show ?thesis
    using assms fold c3 by (auto simp: checkRuneCost_def Let_def simp del: upt_rec_numeral)
qed

section \<open>A set of spent runes\<close>

text \<open>
  The state in which exactly the runes \<open>S\<close> of \<open>rs0\<close> have been spent: they have their new cooldown, and on a hit the death runes
  among them are back to their base type.
\<close>

definition spent ::
  "(nat \<Rightarrow> int) \<Rightarrow> bool \<Rightarrow> int \<Rightarrow> dkRuneState \<Rightarrow> nat set \<Rightarrow> dkRuneState \<Rightarrow> bool" where
  "spent cd didHit nowMs rs0 S rs \<longleftrightarrow> runes_ok rs \<and> rsBase rs = rsBase rs0 \<and>
     (\<forall>i < 6. rsCooldownEndMs rs ! i = (if i \<in> S then nowMs + cd i else rsCooldownEndMs rs0 ! i) \<and>
        (i \<notin> S \<longrightarrow> rsGraceStartMs rs ! i = rsGraceStartMs rs0 ! i) \<and>
        rsCurrent rs ! i = (if i \<in> S \<and> rune_type rs0 i = 3 \<and> didHit then rsBase rs0 ! i else rsCurrent rs0 ! i))"

text \<open>Spending rune \<open>i\<close>, with the change of type of a death rune.\<close>

definition spends ::
  "(nat \<Rightarrow> int) \<Rightarrow> bool \<Rightarrow> int \<Rightarrow> dkRuneState \<Rightarrow> (nat \<Rightarrow> dkRuneState \<Rightarrow> dkRuneState) \<Rightarrow> bool" where
  "spends cd didHit nowMs rs0 cool \<longleftrightarrow>
     (\<forall>S rs i u. spent cd didHit nowMs rs0 S rs \<longrightarrow> i < 6 \<longrightarrow> i \<notin> S \<longrightarrow>
        (rune_type rs0 i \<noteq> 3 \<longrightarrow> spent cd didHit nowMs rs0 (insert i S) ((cool i rs)\<lparr>rsLastUsed := u\<rparr>)) \<and>
        (rune_type rs0 i = 3 \<longrightarrow>
           spent cd didHit nowMs rs0 (insert i S) (RestoreBaseRune didHit i ((cool i rs)\<lparr>rsLastUsed := u\<rparr>))))"

lemma spent_start: "runes_ok rs0 \<Longrightarrow> spent cd didHit nowMs rs0 {} rs0"
  by (simp add: spent_def)

lemma spent_ready:
  assumes "spent cd didHit nowMs rs0 S rs" "i < 6" "cd i > 0"
  shows "ready rs nowMs i \<longleftrightarrow> ready rs0 nowMs i \<and> i \<notin> S"
  using assms by (simp add: spent_def ready_def runeCooldownRemainingMs_def Let_def)

lemma spent_type: "spent cd didHit nowMs rs0 S rs \<Longrightarrow> i < 6 \<Longrightarrow> i \<notin> S \<Longrightarrow> rune_type rs i = rune_type rs0 i"
  by (simp add: spent_def rune_type_def)

lemma new_cooldown_spent:
  assumes "spent cd didHit nowMs rs0 S rs" "i < 6" "i \<notin> S"
  shows "new_cooldown lookup s didHit nowMs rs i = new_cooldown lookup s didHit nowMs rs0 i"
  using assms by (simp add: spent_def new_cooldown_def runeBaseCooldownMsForSlot_def runeGraceMs_def)

lemma setRuneCooldown_spends:
  "spends (new_cooldown lookup s didHit nowMs rs0) didHit nowMs rs0 (setRuneCooldown lookup s didHit nowMs)"
  unfolding spends_def
proof (intro allI impI)
  fix S rs i u
  assume S: "spent (new_cooldown lookup s didHit nowMs rs0) didHit nowMs rs0 S rs" and i: "i < 6" "i \<notin> S"
  have types: "\<forall>j < 6. unat (rsCurrent rs ! j) \<le> 3 \<and> unat (rsBase rs ! j) \<le> 2"
    using S unfolding spent_def runes_ok_def rune_type_def by blast
  then have base: "unat (rsBase rs ! i) \<le> 3" using i by (auto intro: order.trans)
  show "(rune_type rs0 i \<noteq> 3 \<longrightarrow> spent (new_cooldown lookup s didHit nowMs rs0) didHit nowMs rs0 (insert i S)
           ((setRuneCooldown lookup s didHit nowMs i rs)\<lparr>rsLastUsed := u\<rparr>)) \<and>
        (rune_type rs0 i = 3 \<longrightarrow> spent (new_cooldown lookup s didHit nowMs rs0) didHit nowMs rs0 (insert i S)
           (RestoreBaseRune didHit i ((setRuneCooldown lookup s didHit nowMs i rs)\<lparr>rsLastUsed := u\<rparr>)))"
    using S i types base
    by (auto simp: spent_def runes_ok_def rune_type_def setRuneCooldown_def RestoreBaseRune_def Let_def nth_list_update
        new_cooldown_spent [OF S i] split: if_splits)
qed

section \<open>The three loops\<close>

definition of_type :: "dkRuneState \<Rightarrow> nat \<Rightarrow> nat list \<Rightarrow> int" where
  "of_type rs t is = int (length (filter (\<lambda>i. rune_type rs i = t) is))"

lemma of_type_simps [simp]:
  "of_type rs t [] = 0" "of_type rs t (i # is) = (if rune_type rs i = t then 1 else 0) + of_type rs t is"
  by (simp_all add: of_type_def)

lemma of_type_nonneg [simp]: "0 \<le> of_type rs t is"
  by (simp add: of_type_def)

lemma spend_matching_spent:
  assumes "spends cd didHit nowMs rs0 cool" "\<forall>i < 6. cd i > 0" "runes_ok rs0"
    and "spent cd didHit nowMs rs0 S rs" "distinct is" "\<forall>i \<in> set is. i < 6 \<and> i \<notin> S"
    and "length cost = 4" "cost ! 3 = 0" "\<forall>t < 3. cost ! t \<ge> 0"
    and "spend_matching cool nowMs is rs cost = (rs', cost')"
  shows "\<exists>ps. spent cd didHit nowMs rs0 (set ps \<union> S) rs' \<and> distinct ps \<and> set ps \<subseteq> set is \<and>
    (\<forall>i \<in> set ps. ready rs0 nowMs i \<and> rune_type rs0 i < 3) \<and> length cost' = 4 \<and> cost' ! 3 = 0 \<and>
    (\<forall>t < 3. cost' ! t = cost ! t - of_type rs0 t ps \<and> of_type rs0 t ps = min (cost ! t) (ready_of rs0 nowMs t is))"
  using assms(4-)
proof (induction "is" arbitrary: S rs cost)
  case Nil
  then show ?case by (intro exI [of _ "[]"]) auto
next
  case (Cons i "is")
  have i: "i < 6" "i \<notin> S" "i \<notin> set is" using Cons.prems by auto
  have r: "ready rs nowMs i = ready rs0 nowMs i" "rune_type rs i = rune_type rs0 i"
    using spent_ready [OF Cons.prems(1) i(1)] spent_type [OF Cons.prems(1) i(1,2)] assms(2) i by auto
  have t3: "rune_type rs0 i \<le> 3" using assms(3) i(1) by (simp add: runes_ok_def)
  show ?case
  proof (cases "ready rs0 nowMs i \<and> cost ! rune_type rs0 i > 0")
    case True
    then have t: "rune_type rs0 i < 3" using t3 Cons.prems(5) by (cases "rune_type rs0 i = 3") auto
    let ?cost = "pay_one (rune_type rs0 i) cost"
    let ?rs = "(cool i rs)\<lparr>rsLastUsed := rsCurrent rs ! i\<rparr>"
    have step: "spend_matching cool nowMs is ?rs ?cost = (rs', cost')"
      using Cons.prems(7) True r by (simp add: Let_def ready_def rune_type_def)
    have sp: "spent cd didHit nowMs rs0 (insert i S) ?rs"
      using assms(1) Cons.prems(1) i t by (simp add: spends_def)
    have pre: "distinct is" "\<forall>j \<in> set is. j < 6 \<and> j \<notin> insert i S" "length ?cost = 4" "?cost ! 3 = 0" "\<forall>u < 3. ?cost ! u \<ge> 0"
      using Cons.prems i True t by auto
    obtain ps where ps: "spent cd didHit nowMs rs0 (set ps \<union> insert i S) rs'" "distinct ps" "set ps \<subseteq> set is"
        "\<forall>j \<in> set ps. ready rs0 nowMs j \<and> rune_type rs0 j < 3" "length cost' = 4" "cost' ! 3 = 0"
        "\<forall>u < 3. cost' ! u = ?cost ! u - of_type rs0 u ps \<and> of_type rs0 u ps = min (?cost ! u) (ready_of rs0 nowMs u is)"
      using Cons.IH [OF sp pre step] by blast
    show ?thesis
      using ps i t True Cons.prems(4) by (intro exI [of _ "i # ps"]) auto
  next
    case False
    have step: "spend_matching cool nowMs is rs cost = (rs', cost')"
      using Cons.prems(7) False r by (auto simp: Let_def ready_def rune_type_def split: if_splits)
    obtain ps where ps: "spent cd didHit nowMs rs0 (set ps \<union> S) rs'" "distinct ps" "set ps \<subseteq> set is"
        "\<forall>j \<in> set ps. ready rs0 nowMs j \<and> rune_type rs0 j < 3" "length cost' = 4" "cost' ! 3 = 0"
        "\<forall>u < 3. cost' ! u = cost ! u - of_type rs0 u ps \<and> of_type rs0 u ps = min (cost ! u) (ready_of rs0 nowMs u is)"
      using Cons.IH [OF Cons.prems(1) _ _ _ _ _ step] Cons.prems by auto
    have "min (cost ! u) (ready_of rs0 nowMs u (i # is)) = min (cost ! u) (ready_of rs0 nowMs u is)" if "u < 3" for u
      using False Cons.prems(6) that ready_of_nonneg [of rs0 nowMs u "is"] by (auto simp: min_def simp del: ready_of_nonneg)
    then show ?thesis using ps by (intro exI [of _ ps]) auto
  qed
qed

lemma spend_death_spent:
  assumes "spends cd didHit nowMs rs0 cool" "\<forall>i < 6. cd i > 0" "runes_ok rs0"
    and "spent cd didHit nowMs rs0 S rs" "distinct is" "\<forall>i \<in> set is. i < 6"
    and "length cost = 4" "cost ! 3 > 0"
    and "spend_death_on_base cool didHit nowMs is rs cost = (rs', cost')"
  shows "\<exists>ps. spent cd didHit nowMs rs0 (set ps \<union> S) rs' \<and> distinct ps \<and> set ps \<subseteq> set is - S \<and>
    (\<forall>i \<in> set ps. ready rs0 nowMs i \<and> rune_type rs0 i = 3) \<and> length cost' = 4 \<and>
    cost' ! 3 = cost ! 3 - int (length ps) \<and> cost' ! 3 \<ge> 0"
  using assms(4-)
proof (induction "is" arbitrary: S rs cost)
  case Nil
  then show ?case by (intro exI [of _ "[]"]) auto
next
  case (Cons i "is")
  have i: "i < 6" "i \<notin> set is" using Cons.prems by auto
  have r: "ready rs nowMs i \<longleftrightarrow> ready rs0 nowMs i \<and> i \<notin> S"
    using spent_ready [OF Cons.prems(1) i(1)] assms(2) i by auto
  have death: "rsCurrent rs ! i = runeDeath \<longleftrightarrow> rune_type rs0 i = 3" if "i \<notin> S"
    using spent_type [OF Cons.prems(1) i(1) that] by (simp add: rune_type_def word_unat_eq_iff)
  have base: "unat (rsBase rs ! i) \<le> 2" using Cons.prems(1) i(1) unfolding spent_def runes_ok_def by blast
  let ?pay = "ready rs0 nowMs i \<and> i \<notin> S \<and> rune_type rs0 i = 3 \<and> cost ! unat (rsBase rs ! i) > 0"
  show ?case
  proof (cases ?pay)
    case True
    let ?cost = "pay_one 3 (pay_one (unat (rsBase rs ! i)) cost)"
    let ?rs = "RestoreBaseRune didHit i ((cool i rs)\<lparr>rsLastUsed := rsCurrent rs ! i\<rparr>)"
    have cost: "length ?cost = 4" "?cost ! 3 = cost ! 3 - 1" using Cons.prems(4) base by auto
    have sp: "spent cd didHit nowMs rs0 (insert i S) ?rs"
      using assms(1) Cons.prems(1) i True by (simp add: spends_def)
    have step: "(if ?cost ! 3 = 0 then (?rs, ?cost) else spend_death_on_base cool didHit nowMs is ?rs ?cost) = (rs', cost')"
    proof -
      have "runeCooldownRemainingMs rs i nowMs = 0 \<and> rsCurrent rs ! i = runeDeath \<and> cost ! unat (rsBase rs ! i) > 0"
        using True r death by (simp add: ready_def)
      then show ?thesis using Cons.prems(6) by (simp only: spend_death_on_base.simps Let_def if_P)
    qed
    show ?thesis
    proof (cases "cost ! 3 = 1")
      case last: True
      then have "rs' = ?rs" "cost' = ?cost" using step cost by auto
      then show ?thesis using sp cost last True by (intro exI [of _ "[i]"]) auto
    next
      case more: False
      have rest: "spend_death_on_base cool didHit nowMs is ?rs ?cost = (rs', cost')" using step cost more by simp
      have pre: "distinct is" "\<forall>j \<in> set is. j < 6" "?cost ! 3 > 0"
        using Cons.prems cost(2) more i by auto
      obtain ps where ps: "spent cd didHit nowMs rs0 (set ps \<union> insert i S) rs'" "distinct ps" "set ps \<subseteq> set is - insert i S"
          "\<forall>j \<in> set ps. ready rs0 nowMs j \<and> rune_type rs0 j = 3" "length cost' = 4"
          "cost' ! 3 = ?cost ! 3 - int (length ps)" "cost' ! 3 \<ge> 0"
        using Cons.IH [OF sp pre(1,2) cost(1) pre(3) rest] by blast
      then show ?thesis using True cost(2) by (intro exI [of _ "i # ps"]) auto
    qed
  next
    case False
    have "\<not> (runeCooldownRemainingMs rs i nowMs = 0 \<and> rsCurrent rs ! i = runeDeath \<and> cost ! unat (rsBase rs ! i) > 0)"
      using False r death by (auto simp: ready_def)
    then have rest: "spend_death_on_base cool didHit nowMs is rs cost = (rs', cost')"
      using Cons.prems(6) by (simp only: spend_death_on_base.simps Let_def if_False)
    have pre: "distinct is" "\<forall>j \<in> set is. j < 6" using Cons.prems by auto
    obtain ps where "spent cd didHit nowMs rs0 (set ps \<union> S) rs'" "distinct ps" "set ps \<subseteq> set is - S"
        "\<forall>j \<in> set ps. ready rs0 nowMs j \<and> rune_type rs0 j = 3" "length cost' = 4"
        "cost' ! 3 = cost ! 3 - int (length ps)" "cost' ! 3 \<ge> 0"
      using Cons.IH [OF Cons.prems(1) pre Cons.prems(4,5) rest] by blast
    then show ?thesis by (intro exI [of _ ps]) auto
  qed
qed

lemma spend_any_spent:
  assumes "spends cd didHit nowMs rs0 cool" "\<forall>i < 6. cd i > 0" "runes_ok rs0"
    and "spent cd didHit nowMs rs0 S rs" "distinct is" "\<forall>i \<in> set is. i < 6" "length cost = 4" "cost ! 3 > 0"
    and "spend_any_death cool didHit nowMs is rs cost = (rs', cost')"
  shows "\<exists>ps. spent cd didHit nowMs rs0 (set ps \<union> S) rs' \<and> distinct ps \<and> set ps \<subseteq> set is - S \<and>
    (\<forall>i \<in> set ps. ready rs0 nowMs i \<and> rune_type rs0 i = 3) \<and>
    int (length ps) = min (cost ! 3) (ready_of rs0 nowMs 3 (filter (\<lambda>i. i \<notin> S) is))"
  using assms(4-)
proof (induction "is" arbitrary: S rs cost)
  case Nil
  then show ?case by (intro exI [of _ "[]"]) auto
next
  case (Cons i "is")
  have i: "i < 6" "i \<notin> set is" using Cons.prems by auto
  have r: "ready rs nowMs i \<longleftrightarrow> ready rs0 nowMs i \<and> i \<notin> S"
    using spent_ready [OF Cons.prems(1) i(1)] assms(2) i by auto
  have death: "rsCurrent rs ! i = runeDeath \<longleftrightarrow> rune_type rs0 i = 3" if "i \<notin> S"
    using spent_type [OF Cons.prems(1) i(1) that] by (simp add: rune_type_def word_unat_eq_iff)
  show ?case
  proof (cases "ready rs0 nowMs i \<and> i \<notin> S \<and> rune_type rs0 i = 3")
    case True
    let ?cost = "pay_one 3 cost"
    let ?rs = "RestoreBaseRune didHit i ((cool i rs)\<lparr>rsLastUsed := rsCurrent rs ! i\<rparr>)"
    have cost: "length ?cost = 4" "?cost ! 3 = cost ! 3 - 1" using Cons.prems(4) by auto
    have sp: "spent cd didHit nowMs rs0 (insert i S) ?rs"
      using assms(1) Cons.prems(1) i True by (simp add: spends_def)
    have step: "(if ?cost ! 3 = 0 then (?rs, ?cost) else spend_any_death cool didHit nowMs is ?rs ?cost) = (rs', cost')"
    proof -
      have "runeCooldownRemainingMs rs i nowMs = 0 \<and> rsCurrent rs ! i = runeDeath"
        using True r death by (simp add: ready_def)
      then show ?thesis using Cons.prems(6) by (simp only: spend_any_death.simps Let_def if_P)
    qed
    have others: "filter (\<lambda>j. j \<notin> insert i S) is = filter (\<lambda>j. j \<notin> S) is"
      by (rule filter_cong) (use i in auto)
    show ?thesis
    proof (cases "cost ! 3 = 1")
      case last: True
      then have "rs' = ?rs" using step cost by simp
      then show ?thesis using sp last True ready_of_nonneg [of rs0 nowMs 3 "filter (\<lambda>j. j \<notin> S) is"]
        by (intro exI [of _ "[i]"]) (auto simp: min_def simp del: ready_of_nonneg)
    next
      case more: False
      have rest: "spend_any_death cool didHit nowMs is ?rs ?cost = (rs', cost')" using step cost more by simp
      have pre: "distinct is" "\<forall>j \<in> set is. j < 6" "?cost ! 3 > 0" using Cons.prems cost(2) more by auto
      obtain ps where ps: "spent cd didHit nowMs rs0 (set ps \<union> insert i S) rs'" "distinct ps" "set ps \<subseteq> set is - insert i S"
          "\<forall>j \<in> set ps. ready rs0 nowMs j \<and> rune_type rs0 j = 3"
          "int (length ps) = min (?cost ! 3) (ready_of rs0 nowMs 3 (filter (\<lambda>j. j \<notin> insert i S) is))"
        using Cons.IH [OF sp pre(1,2) cost(1) pre(3) rest] by blast
      then show ?thesis unfolding others using True cost(2) by (intro exI [of _ "i # ps"]) auto
    qed
  next
    case False
    have "\<not> (runeCooldownRemainingMs rs i nowMs = 0 \<and> rsCurrent rs ! i = runeDeath)"
      using False r death by (auto simp: ready_def)
    then have rest: "spend_any_death cool didHit nowMs is rs cost = (rs', cost')"
      using Cons.prems(6) by (simp only: spend_any_death.simps Let_def if_False)
    have pre: "distinct is" "\<forall>j \<in> set is. j < 6" using Cons.prems by auto
    obtain ps where ps: "spent cd didHit nowMs rs0 (set ps \<union> S) rs'" "distinct ps" "set ps \<subseteq> set is - S"
        "\<forall>j \<in> set ps. ready rs0 nowMs j \<and> rune_type rs0 j = 3"
        "int (length ps) = min (cost ! 3) (ready_of rs0 nowMs 3 (filter (\<lambda>j. j \<notin> S) is))"
      using Cons.IH [OF Cons.prems(1) pre Cons.prems(4,5) rest] by blast
    have "ready_of rs0 nowMs 3 (filter (\<lambda>j. j \<notin> S) (i # is)) = ready_of rs0 nowMs 3 (filter (\<lambda>j. j \<notin> S) is)"
      using False by auto
    then show ?thesis using ps by (intro exI [of _ ps]) auto
  qed
qed

section \<open>What a spell spends\<close>

lemma sum_3: "(\<Sum>t < 3 :: nat. f t) = f 0 + f 1 + (f 2 :: int)"
  by (simp add: numeral_3_eq_3 numeral_2_eq_2 lessThan_Suc)

lemma ready_of_card:
  assumes "distinct is"
  shows "ready_of rs nowMs t is = int (card {i \<in> set is. ready rs nowMs i \<and> rune_type rs i = t})"
  using assms by (simp add: ready_of_def distinct_length_filter Int_def conj_commute conj_left_commute)

lemma ready_of_rest:
  assumes "distinct is" "distinct qs" "set qs \<subseteq> set is"
    and "\<forall>i \<in> set qs. ready rs nowMs i \<and> rune_type rs i = t" "\<forall>i \<in> set ps. rune_type rs i \<noteq> t"
  shows "ready_of rs nowMs t (filter (\<lambda>i. i \<notin> set qs \<union> set ps) is) = ready_of rs nowMs t is - int (length qs)"
proof -
  let ?A = "{i \<in> set is. ready rs nowMs i \<and> rune_type rs i = t}"
  have "{i \<in> set (filter (\<lambda>i. i \<notin> set qs \<union> set ps) is). ready rs nowMs i \<and> rune_type rs i = t} = ?A - set qs"
    using assms(5) by auto
  moreover have "card (?A - set qs) = card ?A - length qs"
    using assms(2-4) by (subst card_Diff_subset) (auto simp: distinct_card)
  moreover have "length qs \<le> card ?A"
    using assms(2-4) card_mono [of ?A "set qs"] by (auto simp: distinct_card)
  ultimately show ?thesis using assms(1) by (simp add: ready_of_card of_nat_diff)
qed

lemma of_type_card:
  assumes "distinct ps"
  shows "of_type rs t ps = int (card {i \<in> set ps. rune_type rs i = t})"
  using assms by (simp add: of_type_def distinct_length_filter Int_def conj_commute)

lemma three_types: "\<forall>i \<in> set ps. rune_type rs i < 3 \<Longrightarrow> (\<Sum>t < 3. of_type rs t ps) = int (length ps)"
proof (induction ps)
  case (Cons i ps)
  have "rune_type rs i = 0 \<or> rune_type rs i = 1 \<or> rune_type rs i = 2" using Cons.prems by auto
  then show ?case using Cons by (auto simp: numeral_3_eq_3 lessThan_Suc)
qed simp

text \<open>The runes of the types asked for, and the death runes that stand in for the missing ones.\<close>

lemma spend_runes_spent:
  assumes "spends cd didHit nowMs rs0 cool" "\<forall>i < 6. cd i > 0" "runes_ok rs0"
    and "length cost = 3" "\<forall>t < 3. 0 \<le> cost ! t \<and> cost ! t \<le> 6"
    and "missing_runes rs0 nowMs cost \<le> ready_of rs0 nowMs 3 [0..<6]"
  shows "\<exists>ps qs. spent cd didHit nowMs rs0 (set ps \<union> set qs) (spend_runes cool didHit nowMs rs0 cost) \<and>
    distinct ps \<and> distinct qs \<and> set ps \<subseteq> {..<6} \<and> set qs \<subseteq> {..<6} \<and>
    (\<forall>i \<in> set ps. ready rs0 nowMs i \<and> rune_type rs0 i < 3) \<and> (\<forall>i \<in> set qs. ready rs0 nowMs i \<and> rune_type rs0 i = 3) \<and>
    (\<forall>t < 3. of_type rs0 t ps = min (cost ! t) (ready_of rs0 nowMs t [0..<6])) \<and>
    int (length qs) = missing_runes rs0 nowMs cost"
proof -
  let ?is = "[0..<6] :: nat list"
  let ?A = "ready_of rs0 nowMs 3 ?is"
  obtain rs1 c1 where one: "spend_matching cool nowMs ?is rs0 (cost @ [0]) = (rs1, c1)" by (rule prod.exhaust)
  have pre: "distinct ?is" "\<forall>i \<in> set ?is. i < 6 \<and> i \<notin> {}" "length (cost @ [0]) = 4" "(cost @ [0]) ! 3 = 0"
      "\<forall>t < 3. (cost @ [0]) ! t \<ge> 0"
    using assms(4,5) by (auto simp: nth_append)
  obtain ps where ps: "spent cd didHit nowMs rs0 (set ps \<union> {}) rs1" "distinct ps" "set ps \<subseteq> set ?is"
      "\<forall>i \<in> set ps. ready rs0 nowMs i \<and> rune_type rs0 i < 3" "length c1 = 4" "c1 ! 3 = 0"
      "\<forall>t < 3. c1 ! t = (cost @ [0]) ! t - of_type rs0 t ps \<and>
        of_type rs0 t ps = min ((cost @ [0]) ! t) (ready_of rs0 nowMs t ?is)"
    using spend_matching_spent [OF assms(1-3) spent_start [OF assms(3)] pre one] by blast
  have c1: "c1 ! t = max 0 (cost ! t - ready_of rs0 nowMs t ?is)" if "t < 3" for t
    using ps(7) that assms(4,5) by (auto simp: nth_append min_def max_def simp del: upt_rec_numeral)
  define D where "D = missing_runes rs0 nowMs cost"
  have D: "c1 ! 0 + c1 ! 1 + c1 ! 2 = D"
    unfolding D_def missing_runes_def using c1 [of 0] c1 [of 1] c1 [of 2]
    by (simp add: sum_3 del: upt_rec_numeral)
  have small: "c1 ! t \<le> 6" "0 \<le> c1 ! t" if "t < 3" for t
    using c1 [OF that] assms(5) that ready_of_nonneg [of rs0 nowMs t ?is] by (auto simp del: ready_of_nonneg upt_rec_numeral)
  have sum: "to_i32 (to_i32 (c1 ! 0 + c1 ! 1) + c1 ! 2) = D"
    using small [of 0] small [of 1] small [of 2] D by simp
  let ?c1 = "c1[3 := D]"
  have c1D: "length ?c1 = 4" "?c1 ! 3 = D" using ps(5) by simp_all
  have spent1: "spent cd didHit nowMs rs0 (set ps) rs1" using ps(1) by simp
  show ?thesis
  proof (cases "D > 0")
    case False
    then have "D = 0" using small [of 0] small [of 1] small [of 2] D by simp
    then have "spend_runes cool didHit nowMs rs0 cost = rs1"
      using c1D by (simp add: spend_runes_def one sum [unfolded One_nat_def] Let_def del: upt_rec_numeral)
    then show ?thesis
      using ps spent1 \<open>D = 0\<close> assms(4) D_def
      by (intro exI [of _ ps] exI [of _ "[]"]) (auto simp: nth_append simp del: upt_rec_numeral)
  next
    case True
    obtain rs2 c2 where two: "spend_death_on_base cool didHit nowMs ?is rs1 ?c1 = (rs2, c2)" by (rule prod.exhaust)
    have is6: "\<forall>i \<in> set ?is. i < 6" by simp
    obtain qs where qs: "spent cd didHit nowMs rs0 (set qs \<union> set ps) rs2" "distinct qs" "set qs \<subseteq> set ?is - set ps"
        "\<forall>i \<in> set qs. ready rs0 nowMs i \<and> rune_type rs0 i = 3" "length c2 = 4" "c2 ! 3 = ?c1 ! 3 - int (length qs)" "c2 ! 3 \<ge> 0"
      using spend_death_spent [OF assms(1-3) spent1 pre(1) is6 c1D(1) _ two] True c1D(2) by auto
    have own: "\<forall>t < 3. of_type rs0 t ps = min (cost ! t) (ready_of rs0 nowMs t ?is)"
      using ps(7) assms(4) by (simp add: nth_append del: upt_rec_numeral)
    show ?thesis
    proof (cases "c2 ! 3 > 0")
      case False
      then have "spend_runes cool didHit nowMs rs0 cost = rs2"
        using True c1D by (simp add: spend_runes_def one sum [unfolded One_nat_def] two Let_def del: upt_rec_numeral)
      then show ?thesis using ps(2-4) qs own False c1D(2) D_def
        by (intro exI [of _ ps] exI [of _ qs]) (auto simp: Un_commute simp del: upt_rec_numeral)
    next
      case more: True
      obtain rs3 c3 where three: "spend_any_death cool didHit nowMs ?is rs2 c2 = (rs3, c3)" by (rule prod.exhaust)
      obtain us where us: "spent cd didHit nowMs rs0 (set us \<union> (set qs \<union> set ps)) rs3" "distinct us"
          "set us \<subseteq> set ?is - (set qs \<union> set ps)" "\<forall>i \<in> set us. ready rs0 nowMs i \<and> rune_type rs0 i = 3"
          "int (length us) = min (c2 ! 3) (ready_of rs0 nowMs 3 (filter (\<lambda>i. i \<notin> set qs \<union> set ps) ?is))"
        using spend_any_spent [OF assms(1-3) qs(1) pre(1) is6 qs(5) more three] by blast
      have "ready_of rs0 nowMs 3 (filter (\<lambda>i. i \<notin> set qs \<union> set ps) ?is) = ?A - int (length qs)"
        by (rule ready_of_rest) (use ps(4) qs in auto)
      then have "int (length us) = D - int (length qs)"
        using us(5) qs(6) c1D(2) assms(6) D_def by simp
      moreover have "spend_runes cool didHit nowMs rs0 cost = rs3"
        using True more c1D by (simp add: spend_runes_def one sum [unfolded One_nat_def] two three Let_def del: upt_rec_numeral)
      ultimately show ?thesis using ps(2-4) qs us own D_def
        by (intro exI [of _ ps] exI [of _ "us @ qs"]) (auto simp: Un_ac simp del: upt_rec_numeral)
    qed
  qed
qed

definition spent_runes :: "dkRuneState \<Rightarrow> dkRuneState \<Rightarrow> int \<Rightarrow> nat set" where
  "spent_runes rs rs' nowMs = {i. i < 6 \<and> ready rs nowMs i \<and> \<not> ready rs' nowMs i}"


section \<open>A strike\<close>

text \<open>A spell for two blood runes, cast with one blood rune and one death rune on a blood slot.\<close>

definition strike_costs :: dbc_files where
  "strike_costs name = Inr (layout_file 5 [[9, 2, 0, 0, 100]] [])"

definition strike :: Spell where
  "strike = no_spell\<lparr>spID := 45902, spPowerType := powerRune, spRuneCostID := 9\<rparr>"

definition knight_runes :: dkRuneState where
  "knight_runes = \<lparr>rsBase = base_layout, rsCurrent = base_layout[1 := runeDeath], rsCooldownEndMs = replicate 6 0,
     rsGraceStartMs = replicate 6 (-1), rsLastUsed = 0\<rparr>"

definition knight :: rune_session where
  "knight = \<lparr>rnClass = classDeathKnight, rnUnitFlags = 0, rnLevel = 80, rnSpells = [], rnAuras = [], rnRunes = Some knight_runes\<rparr>"

lemma all_less_6: "(\<forall>i < 6. P i) \<longleftrightarrow> (\<forall>i \<in> set [0..<6 :: nat]. P i)"
  by auto


end
