(* ===== verification/Go_Text.thy ===== *)
theory Go_Text
  imports Go_Prelude
begin

text \<open>
  Strings of Go as the code uses them: a string is its bytes. Of \<^verbatim>\<open>strings\<close>: \<open>IndexByte\<close>, \<open>TrimSpace\<close> and lower case; of
  \<^verbatim>\<open>strconv\<close>: \<open>ParseUint\<close> and \<open>ParseInt\<close> without the prefixes of base 0.
\<close>

abbreviation (input) ch :: "char \<Rightarrow> u8" where "ch c \<equiv> of_char c"

definition str :: "string \<Rightarrow> gostring" where
  "str s = map of_char s"

lemma str_simps [simp]: "str [] = []" "str (c # s) = of_char c # str s"
  by (simp_all add: str_def)

section \<open>Searching\<close>

text \<open>The position of a byte, \<open>None\<close> for minus one.\<close>

fun IndexByte :: "gostring \<Rightarrow> u8 \<Rightarrow> nat option" where
  "IndexByte [] c = None"
| "IndexByte (b # s) c = (if b = c then Some 0 else map_option Suc (IndexByte s c))"

lemma IndexByte_Some:
  "IndexByte s c = Some i \<Longrightarrow> i < length s \<and> s ! i = c \<and> c \<notin> set (take i s)"
  by (induction s arbitrary: i) (auto split: if_splits)

lemma IndexByte_None: "IndexByte s c = None \<longleftrightarrow> c \<notin> set s"
  by (induction s) auto

lemma IndexByte_append: "c \<notin> set s \<Longrightarrow> IndexByte (s @ c # t) c = Some (length s)"
  by (induction s) auto

lemma split_byte: "IndexByte s c = Some i \<Longrightarrow> s = take i s @ c # drop (i + 1) s \<and> c \<notin> set (take i s)"
  using IndexByte_Some [of s c i] id_take_nth_drop [of i s] by auto

section \<open>White space\<close>

text \<open>
  The encodings of the characters that \<^verbatim>\<open>unicode.IsSpace\<close> accepts. An encoding is at the front of a string exactly when its
  first character decodes to that character, and at the end exactly when the last one does, also in strings that are not
  valid UTF-8.
\<close>

definition space_runes :: "gostring list" where
  "space_runes = [[9], [10], [11], [12], [13], [32], [0xC2, 0x85], [0xC2, 0xA0], [0xE1, 0x9A, 0x80],
     [0xE2, 0x80, 0x80], [0xE2, 0x80, 0x81], [0xE2, 0x80, 0x82], [0xE2, 0x80, 0x83], [0xE2, 0x80, 0x84], [0xE2, 0x80, 0x85],
     [0xE2, 0x80, 0x86], [0xE2, 0x80, 0x87], [0xE2, 0x80, 0x88], [0xE2, 0x80, 0x89], [0xE2, 0x80, 0x8A],
     [0xE2, 0x80, 0xA8], [0xE2, 0x80, 0xA9], [0xE2, 0x80, 0xAF], [0xE2, 0x81, 0x9F], [0xE3, 0x80, 0x80]]"

definition front_space :: "gostring list \<Rightarrow> gostring \<Rightarrow> nat" where
  "front_space rs s = (case filter (\<lambda>r. take (length r) s = r) rs of [] \<Rightarrow> 0 | r # _ \<Rightarrow> length r)"

function strip_front :: "gostring list \<Rightarrow> gostring \<Rightarrow> gostring" where
  "strip_front rs s = (if front_space rs s = 0 then s else strip_front rs (drop (front_space rs s) s))"
  by auto

termination strip_front
proof (relation "measure (length \<circ> snd)")
  fix rs :: "gostring list" and s
  assume n: "front_space rs s \<noteq> 0"
  have "s \<noteq> []" using n by (cases s) (auto simp: front_space_def filter_eq_Cons_iff split: list.splits)
  then show "((rs, drop (front_space rs s) s), rs, s) \<in> measure (length \<circ> snd)" using n by (cases s) auto
qed simp

declare strip_front.simps [simp del]

definition TrimSpace :: "gostring \<Rightarrow> gostring" where
  "TrimSpace s = rev (strip_front (map rev space_runes) (rev (strip_front space_runes s)))"

section \<open>Numbers\<close>

text \<open>Digits of a base, within the bits; a sign is allowed for signed numbers only.\<close>

definition digit_value :: "nat \<Rightarrow> u8 \<Rightarrow> nat option" where
  "digit_value base c =
     (let v = (if ch CHR ''0'' \<le> c \<and> c \<le> ch CHR ''9'' then Some (unat (c - ch CHR ''0''))
               else if ch CHR ''a'' \<le> c \<and> c \<le> ch CHR ''z'' then Some (unat (c - ch CHR ''a'') + 10)
               else if ch CHR ''A'' \<le> c \<and> c \<le> ch CHR ''Z'' then Some (unat (c - ch CHR ''A'') + 10)
               else None) in
      case v of Some d \<Rightarrow> if d < base then Some d else None | None \<Rightarrow> None)"

fun digits_from :: "nat \<Rightarrow> gostring \<Rightarrow> nat \<Rightarrow> nat option" where
  "digits_from base [] n = Some n"
| "digits_from base (c # s) n =
     (case digit_value base c of None \<Rightarrow> None | Some d \<Rightarrow> digits_from base s (n * base + d))"

definition ParseUint :: "nat \<Rightarrow> nat \<Rightarrow> gostring \<Rightarrow> nat option" where
  "ParseUint base bits tok =
     (if tok = [] then None
      else case digits_from base tok 0 of None \<Rightarrow> None | Some n \<Rightarrow> if n < 2 ^ bits then Some n else None)"

definition ParseInt :: "nat \<Rightarrow> nat \<Rightarrow> gostring \<Rightarrow> int option" where
  "ParseInt base bits tok =
     (if tok = [] then None
      else
        let neg = (hd tok = ch CHR ''-'');
            digits = (if hd tok = ch CHR ''-'' \<or> hd tok = ch CHR ''+'' then tl tok else tok) in
        case ParseUint base bits digits of
          None \<Rightarrow> None
        | Some n \<Rightarrow>
            if \<not> neg \<and> n \<ge> 2 ^ (bits - 1) then None
            else if neg \<and> n > 2 ^ (bits - 1) then None
            else Some (if neg then - int n else int n))"

definition lower_byte :: "u8 \<Rightarrow> u8" where
  "lower_byte c = (if ch CHR ''A'' \<le> c \<and> c \<le> ch CHR ''Z'' then c + 32 else c)"

definition upper_byte :: "u8 \<Rightarrow> u8" where
  "upper_byte c = (if ch CHR ''a'' \<le> c \<and> c \<le> ch CHR ''z'' then c - 32 else c)"

end
