(* ===== verification/Hyperlinks.thy ===== *)
theory Hyperlinks
  imports Go_Text
begin

text \<open>
  \<^verbatim>\<open>engine/world/hyperlinks.go\<close>: the links that clients put into chat messages, \<open>|c\<close> colour \<open>|H\<close> tag and data \<open>|h[\<close> text
  \<open>]|h|r\<close>, and the check that a message has no other control sequence and no link that is not valid.
\<close>

section \<open>A link\<close>

record hyperlinkInfo =
  hiTail :: gostring
  hiColor :: u32
  hiTag :: gostring
  hiData :: gostring
  hiText :: gostring

definition hyperlinkHexValue :: "u8 \<Rightarrow> u8" where
  "hyperlinkHexValue c =
     (if c \<ge> ch CHR ''0'' \<and> c \<le> ch CHR ''9'' then c - ch CHR ''0'' + 0x10
      else if c \<ge> ch CHR ''a'' \<and> c \<le> ch CHR ''f'' then c - ch CHR ''a'' + 0x1a
      else 0)"

fun link_color :: "gostring \<Rightarrow> u32 \<Rightarrow> u32 option" where
  "link_color [] color = Some color"
| "link_color (c # s) color =
     (let hex = hyperlinkHexValue c in
      if hex = 0 then None else link_color s (push_bit 4 color OR ucast (hex AND 0xf)))"

text \<open>The part after \<open>|H\<close>, up to the bracket: the tag and, after a colon, its data.\<close>

definition split_tag :: "gostring \<Rightarrow> gostring \<times> gostring" where
  "split_tag tag = (case IndexByte tag (ch CHR '':'') of None \<Rightarrow> (tag, []) | Some i \<Rightarrow> (take i tag, drop (i + 1) tag))"

text \<open>The part from the bracket on.\<close>

definition parse_text :: "u32 \<Rightarrow> gostring \<times> gostring \<Rightarrow> gostring \<Rightarrow> hyperlinkInfo option" where
  "parse_text color td s =
     (if length s < 1 \<or> s ! 0 \<noteq> ch CHR ''h'' then None
      else let s = drop 1 s in
        case IndexByte s (ch CHR ''|'') of
          None \<Rightarrow> None
        | Some end_at \<Rightarrow>
            if length s < end_at + 4 \<or> take 4 (drop end_at s) \<noteq> str ''|h|r'' then None
            else if end_at < 2 \<or> s ! 0 \<noteq> ch CHR ''['' \<or> s ! (end_at - 1) \<noteq> ch CHR '']'' then None
            else Some \<lparr>hiTail = drop (end_at + 4) s, hiColor = color, hiTag = fst td, hiData = snd td,
                       hiText = drop 1 (take (end_at - 1) s)\<rparr>)"

definition parseSingleHyperlink :: "gostring \<Rightarrow> hyperlinkInfo option" where
  "parseSingleHyperlink s =
     (if length s < 2 \<or> s ! 0 \<noteq> ch CHR ''|'' \<or> s ! 1 \<noteq> ch CHR ''c'' then None
      else let s = drop 2 s in
        if length s < 8 then None
        else case link_color (take 8 s) 0 of
          None \<Rightarrow> None
        | Some color \<Rightarrow>
            let s = drop 8 s in
            if length s < 2 \<or> s ! 0 \<noteq> ch CHR ''|'' \<or> s ! 1 \<noteq> ch CHR ''H'' then None
            else let s = drop 2 s in
              case IndexByte s (ch CHR ''|'') of
                None \<Rightarrow> None
              | Some delim \<Rightarrow> parse_text color (split_tag (take delim s)) (drop (delim + 1) s))"

section \<open>A message\<close>

text \<open>First no control sequence but the known ones. The bytes from the position on are the rest of the message.\<close>

definition control_bytes :: "u8 set" where
  "control_bytes = {ch CHR ''H'', ch CHR ''h'', ch CHR ''c'', ch CHR ''r'', ch CHR ''|''}"

function controls_known :: "gostring \<Rightarrow> bool" where
  "controls_known s =
     (case IndexByte s (ch CHR ''|'') of
        None \<Rightarrow> True
      | Some i \<Rightarrow>
          let rest = drop (i + 1) s in
          case rest of
            [] \<Rightarrow> False
          | c # rest' \<Rightarrow> if c \<in> control_bytes then controls_known rest' else False)"
  by auto

termination controls_known
proof (relation "measure length")
  fix s i x c and rest' :: gostring
  assume "x = drop (i + 1) s" "x = c # rest'"
  then have "length (c # rest') \<le> length s" by (metis length_drop diff_le_self)
  then show "(rest', s) \<in> measure length" by simp
qed simp

text \<open>Then every link parses and passes the validator.\<close>

lemma parse_text_tail: "parse_text color td s = Some info \<Longrightarrow> length (hiTail info) \<le> length s"
  by (auto simp: parse_text_def Let_def split: if_splits option.splits)

lemma parse_tail:
  assumes "parseSingleHyperlink s = Some info"
  shows "length (hiTail info) < length s"
proof -
  obtain color td t where "parse_text color td t = Some info" "length t < length s"
    using assms by (auto simp: parseSingleHyperlink_def Let_def split: if_splits option.splits)
  then show ?thesis using parse_text_tail by fastforce
qed

function links_valid :: "(hyperlinkInfo \<Rightarrow> bool) \<Rightarrow> gostring \<Rightarrow> bool" where
  "links_valid validate s =
     (case IndexByte s (ch CHR ''|'') of
        None \<Rightarrow> True
      | Some pos \<Rightarrow>
          if pos + 1 < length s \<and> s ! (pos + 1) = ch CHR ''|'' then links_valid validate (drop (pos + 2) s)
          else case parseSingleHyperlink (drop pos s) of
                 None \<Rightarrow> False
               | Some info \<Rightarrow> if \<not> validate info then False else links_valid validate (hiTail info))"
  by auto

termination links_valid
proof (relation "measure (length \<circ> snd)")
  fix s and i pos :: nat and info and validate :: "hyperlinkInfo \<Rightarrow> bool"
  assume "parseSingleHyperlink (drop pos s) = Some info"
  then show "((validate, hiTail info), validate, s) \<in> measure (length \<circ> snd)"
    using parse_tail by fastforce
qed auto

definition checkAllHyperlinks :: "gostring \<Rightarrow> (hyperlinkInfo \<Rightarrow> bool) \<Rightarrow> bool" where
  "checkAllHyperlinks s validate \<longleftrightarrow> controls_known s \<and> links_valid validate s"

declare controls_known.simps [simp del] links_valid.simps [simp del]

section \<open>The data of a link\<close>

text \<open>The tokens between colons; an empty rest has no token.\<close>

definition next_token :: "gostring \<Rightarrow> (gostring \<times> gostring) option" where
  "next_token s =
     (if s = [] then None
      else case IndexByte s (ch CHR '':'') of
             Some i \<Rightarrow> Some (take i s, drop (i + 1) s)
           | None \<Rightarrow> Some (s, []))"

definition hyperlinkParseUint :: "gostring \<Rightarrow> nat \<Rightarrow> nat option" where
  "hyperlinkParseUint tok bits = ParseUint 10 bits tok"

definition hyperlinkParseInt :: "gostring \<Rightarrow> nat \<Rightarrow> int option" where
  "hyperlinkParseInt tok bits = ParseInt 10 bits tok"

definition hyperlinkParseHex64 :: "gostring \<Rightarrow> nat option" where
  "hyperlinkParseHex64 tok = ParseUint 16 64 tok"

text \<open>Lower case of the ASCII letters suffices: no other letter has one of these words as its lower case.\<close>

definition hyperlinkParseBool :: "gostring \<Rightarrow> bool option" where
  "hyperlinkParseBool tok =
     (let w = map lower_byte tok in
      if w \<in> {str ''1'', str ''y'', str ''on'', str ''yes'', str ''true''} then Some True
      else if w \<in> {str ''0'', str ''n'', str ''off'', str ''no'', str ''false''} then Some False
      else None)"

definition parseBaseLinkData :: "gostring \<Rightarrow> gostring \<Rightarrow> bool" where
  "parseBaseLinkData data tag =
     (case next_token data of
        None \<Rightarrow> False
      | Some (tok, rest) \<Rightarrow>
          if rest \<noteq> [] then False
          else if tag \<in> {str ''area'', str ''areatrigger'', str ''creature_entry'', str ''gameobject_entry'', str ''itemset'',
                        str ''skill'', str ''taxinode'', str ''tele'', str ''title''}
            then hyperlinkParseUint tok 32 \<noteq> None
          else if tag = str ''gameevent'' then hyperlinkParseUint tok 16 \<noteq> None
          else if tag \<in> {str ''creature'', str ''gameobject''} then hyperlinkParseUint tok 64 \<noteq> None
          else tag = str ''player'')"

text \<open>A token that must pass a test, and the rest of the data.\<close>

definition expect :: "(gostring \<Rightarrow> bool) \<Rightarrow> gostring \<Rightarrow> gostring option" where
  "expect ok data = (case next_token data of None \<Rightarrow> None | Some (tok, rest) \<Rightarrow> if ok tok then Some rest else None)"

definition below :: "nat \<Rightarrow> nat \<Rightarrow> gostring \<Rightarrow> bool" where
  "below bits limit tok = (case hyperlinkParseUint tok bits of None \<Rightarrow> False | Some n \<Rightarrow> n \<le> limit)"

definition year_ok :: "bool \<Rightarrow> gostring \<Rightarrow> bool" where
  "year_ok finished tok = (case hyperlinkParseInt tok 8 of None \<Rightarrow> False | Some year \<Rightarrow> \<not> (finished \<and> year < 0))"

definition then_expect :: "(gostring \<Rightarrow> bool) \<Rightarrow> gostring option \<Rightarrow> gostring option" where
  "then_expect ok r = Option.bind r (expect ok)"

text \<open>The title of the achievement and the rest; \<open>titles\<close> are the achievements of the server.\<close>

definition parseAchievementLinkData :: "(nat \<Rightarrow> gostring option) \<Rightarrow> gostring \<Rightarrow> (gostring \<times> gostring) option" where
  "parseAchievementLinkData titles data =
     (case next_token data of
        None \<Rightarrow> None
      | Some (tok, rest) \<Rightarrow>
          case hyperlinkParseUint tok 32 of
            None \<Rightarrow> None
          | Some n \<Rightarrow>
              case titles n of
                None \<Rightarrow> None
              | Some title \<Rightarrow>
                  case expect (\<lambda>tok. hyperlinkParseHex64 tok \<noteq> None) rest of
                    None \<Rightarrow> None
                  | Some rest \<Rightarrow>
                      case next_token rest of
                        None \<Rightarrow> None
                      | Some (tok, rest) \<Rightarrow>
                          case hyperlinkParseBool tok of
                            None \<Rightarrow> None
                          | Some finished \<Rightarrow>
                              let number = (\<lambda>tok. hyperlinkParseUint tok 32 \<noteq> None) in
                              map_option (\<lambda>rest. (title, rest))
                                (then_expect number (then_expect number (then_expect number (then_expect number
                                  (then_expect (year_ok finished) (then_expect (below 8 31) (expect (below 8 12) rest))))))))"

section \<open>The validator of the server\<close>

text \<open>
  What the server knows: the severity of the check, its achievements, and for a tag whose data refers to its other tables the
  verdicts on colour and text, \<open>None\<close> when the data is malformed.
\<close>

record link_tables =
  ltSeverity :: int
  ltTitles :: "nat \<Rightarrow> gostring option"
  ltTables :: "hyperlinkInfo \<Rightarrow> (bool \<times> bool) option"

abbreviation (input) chatLinkColorAchievement :: u32 where "chatLinkColorAchievement \<equiv> 0xffffff00"

definition table_tags :: "gostring set" where
  "table_tags = {str ''enchant'', str ''glyph'', str ''item'', str ''quest'', str ''spell'', str ''talent'', str ''trade''}"

definition severe :: "int \<Rightarrow> bool \<Rightarrow> bool \<Rightarrow> bool" where
  "severe severity colorOK textOK =
     (if severity \<ge> 0 then (if \<not> colorOK then False else if severity \<ge> 1 \<and> \<not> textOK then False else True) else True)"

definition validateHyperlinkInfo :: "link_tables \<Rightarrow> hyperlinkInfo \<Rightarrow> bool" where
  "validateHyperlinkInfo tables info =
     (if hiTag info = str ''achievement'' then
        (case parseAchievementLinkData (ltTitles tables) (hiData info) of
           None \<Rightarrow> False
         | Some (title, rest) \<Rightarrow>
             if rest \<noteq> [] then False
             else severe (ltSeverity tables) (hiColor info = chatLinkColorAchievement)
                    (hiText info \<noteq> [] \<and> hiText info = title))
      else if hiTag info \<in> table_tags then
        (case ltTables tables info of
           None \<Rightarrow> False
         | Some (colorOK, textOK) \<Rightarrow> severe (ltSeverity tables) colorOK textOK)
      else parseBaseLinkData (hiData info) (hiTag info))"

text \<open>Whether the message goes on, and whether its sender is disconnected.\<close>

definition validateHyperlinksAndMaybeKick :: "link_tables \<Rightarrow> bool \<Rightarrow> gostring \<Rightarrow> bool \<times> bool" where
  "validateHyperlinksAndMaybeKick tables kick msg =
     (if checkAllHyperlinks msg (validateHyperlinkInfo tables) then (True, False) else (False, kick))"

end
