(* ===== verification/Hyperlinks_Spec.thy ===== *)
theory Hyperlinks_Spec
  imports Hyperlinks
begin

text \<open>
  The messages that the check accepts, as a grammar: plain text, doubled pipes and well-formed links that the validator
  accepts.
\<close>

section \<open>The grammar\<close>

datatype chunk = Plain u8 | Pipe | Link gostring gostring gostring

text \<open>The digits of the colour, the part between \<open>|H\<close> and \<open>|h\<close>, and the text of a link.\<close>

fun chunk_text :: "chunk \<Rightarrow> gostring" where
  "chunk_text (Plain c) = [c]"
| "chunk_text Pipe = str ''||''"
| "chunk_text (Link digits body text) =
     str ''|c'' @ digits @ str ''|H'' @ body @ str ''|h['' @ text @ str '']|h|r''"

definition message_text :: "chunk list \<Rightarrow> gostring" where
  "message_text cs = concat (map chunk_text cs)"

fun chunk_valid :: "(hyperlinkInfo \<Rightarrow> bool) \<Rightarrow> gostring \<Rightarrow> chunk \<Rightarrow> bool" where
  "chunk_valid validate tail (Plain c) \<longleftrightarrow> c \<noteq> ch CHR ''|''"
| "chunk_valid validate tail Pipe \<longleftrightarrow> True"
| "chunk_valid validate tail (Link digits body text) \<longleftrightarrow>
     length digits = 8 \<and> ch CHR ''|'' \<notin> set body \<and> ch CHR ''|'' \<notin> set text \<and>
     (\<exists>color. link_color digits 0 = Some color \<and>
        validate \<lparr>hiTail = tail, hiColor = color, hiTag = fst (split_tag body), hiData = snd (split_tag body), hiText = text\<rparr>)"

fun message_valid :: "(hyperlinkInfo \<Rightarrow> bool) \<Rightarrow> chunk list \<Rightarrow> bool" where
  "message_valid validate [] \<longleftrightarrow> True"
| "message_valid validate (c # cs) \<longleftrightarrow> chunk_valid validate (message_text cs) c \<and> message_valid validate cs"

lemma message_text_simps [simp]:
  "message_text [] = []" "message_text (c # cs) = chunk_text c @ message_text cs"
  by (simp_all add: message_text_def)

section \<open>Parsing what is rendered\<close>

lemma color_pipe:
  assumes "link_color digits a = Some color"
  shows "ch CHR ''|'' \<notin> set digits"
  using assms by (induction digits arbitrary: a) (auto simp: hyperlinkHexValue_def Let_def split: if_splits)

lemma parse_rendered:
  assumes "length digits = 8" "link_color digits 0 = Some color" "ch CHR ''|'' \<notin> set body" "ch CHR ''|'' \<notin> set text"
  shows "parseSingleHyperlink (chunk_text (Link digits body text) @ tail) =
    Some \<lparr>hiTail = tail, hiColor = color, hiTag = fst (split_tag body), hiData = snd (split_tag body), hiText = text\<rparr>"
proof -
  have body: "IndexByte (body @ ch CHR ''|'' # t) (ch CHR ''|'') = Some (length body)" for t
    by (rule IndexByte_append) (rule assms(3))
  have label: "IndexByte (ch CHR ''['' # text @ ch CHR '']'' # ch CHR ''|'' # t) (ch CHR ''|'') = Some (length text + 2)" for t
    using IndexByte_append [of "ch CHR ''|''" "ch CHR ''['' # text @ [ch CHR '']'']" t] assms(4) by simp
  have rest: "drop (6 + length text) (a # text @ b # c # d # e # f # tail) = tail" for a b c d e f
    by (simp add: numeral_eq_Suc)
  show ?thesis
    using assms(1,2) body label rest by (simp add: parseSingleHyperlink_def parse_text_def Let_def nth_append)
qed

lemma two_heads: "2 \<le> length s \<Longrightarrow> s = s ! 0 # s ! 1 # drop 2 s"
  by (cases s; cases "tl s") auto

lemma bracketed:
  assumes "2 \<le> length xs"
  shows "xs = xs ! 0 # drop 1 (take (length xs - 1) xs) @ [xs ! (length xs - 1)]"
proof -
  obtain a ys b where "xs = a # ys @ [b]"
    using assms by (cases xs rule: rev_cases; cases "butlast xs") auto
  then show ?thesis by (simp add: nth_append)
qed

lemma parse_text_renders:
  assumes "parse_text color td s = Some info"
  shows "s = ch CHR ''h'' # ch CHR ''['' # hiText info @ str '']|h|r'' @ hiTail info \<and>
    ch CHR ''|'' \<notin> set (hiText info) \<and> hiColor info = color \<and> hiTag info = fst td \<and> hiData info = snd td"
proof -
  obtain t e where t: "s = ch CHR ''h'' # t" "IndexByte t (ch CHR ''|'') = Some e" "e + 4 \<le> length t"
      "take 4 (drop e t) = str ''|h|r''" "2 \<le> e" "t ! 0 = ch CHR ''[''" "t ! (e - 1) = ch CHR '']''"
      "info = \<lparr>hiTail = drop (e + 4) t, hiColor = color, hiTag = fst td, hiData = snd td, hiText = drop 1 (take (e - 1) t)\<rparr>"
    using assms by (cases s) (auto simp: parse_text_def Let_def split: if_splits option.splits)
  have "drop e t = str ''|h|r'' @ drop (e + 4) t"
    using append_take_drop_id [of 4 "drop e t"] t(4) by (simp add: add.commute)
  moreover have "take e t = ch CHR ''['' # drop 1 (take (e - 1) t) @ [ch CHR '']'']"
    using bracketed [of "take e t"] t(3,5,6,7) by (simp add: min_def)
  ultimately have "t = ch CHR ''['' # drop 1 (take (e - 1) t) @ str '']|h|r'' @ drop (e + 4) t"
    using append_take_drop_id [of e t] by simp
  moreover have "ch CHR ''|'' \<notin> set (drop 1 (take (e - 1) t))"
    using split_byte [OF t(2)] set_drop_subset [of 1 "take (e - 1) t"] set_take_subset_set_take [of "e - 1" e t] by auto
  ultimately show ?thesis using t(1,8) by simp
qed

lemma parse_renders:
  assumes "parseSingleHyperlink s = Some info"
  shows "\<exists>digits body. length digits = 8 \<and> link_color digits 0 = Some (hiColor info) \<and> ch CHR ''|'' \<notin> set body \<and>
    ch CHR ''|'' \<notin> set (hiText info) \<and> hiTag info = fst (split_tag body) \<and> hiData info = snd (split_tag body) \<and>
    s = chunk_text (Link digits body (hiText info)) @ hiTail info"
proof -
  define u where "u = drop 2 s"
  define v where "v = drop 8 u"
  define w where "w = drop 2 v"
  obtain color d where r: "2 \<le> length s" "s ! 0 = ch CHR ''|''" "s ! 1 = ch CHR ''c''" "8 \<le> length u"
      "link_color (take 8 u) 0 = Some color" "2 \<le> length v" "v ! 0 = ch CHR ''|''" "v ! 1 = ch CHR ''H''"
      "IndexByte w (ch CHR ''|'') = Some d" "parse_text color (split_tag (take d w)) (drop (d + 1) w) = Some info"
    using assms unfolding parseSingleHyperlink_def Let_def u_def v_def w_def
    by (auto simp: not_less split: if_splits option.splits)
  define digits where "digits = take 8 u"
  define body where "body = take d w"
  define t where "t = drop (d + 1) w"
  have e1: "s = ch CHR ''|'' # ch CHR ''c'' # u" using two_heads [OF r(1)] r(2,3) by (simp add: u_def)
  have e2: "u = digits @ v" by (simp add: v_def digits_def)
  have e3: "v = ch CHR ''|'' # ch CHR ''H'' # w" using two_heads [OF r(6)] r(7,8) by (simp add: w_def)
  have e4: "w = body @ ch CHR ''|'' # t" "ch CHR ''|'' \<notin> set body"
    using split_byte [OF r(9)] by (simp_all add: body_def t_def)
  note e5 = parse_text_renders [OF r(10) [folded t_def body_def]]
  have "s = chunk_text (Link digits body (hiText info)) @ hiTail info"
    unfolding e1 e2 e3 e4(1) by (subst e5 [THEN conjunct1]) simp
  then show ?thesis using r(4,5) e4(2) e5
    by (intro exI [of _ digits] exI [of _ body]) (auto simp: digits_def)
qed

section \<open>The check accepts the grammar\<close>

lemma controls_known_rendered:
  assumes "message_valid validate cs"
  shows "controls_known (message_text cs)"
  using assms
proof (induction cs)
  case Nil
  then show ?case by (simp add: controls_known.simps)
next
  case (Cons c cs)
  then have IH: "controls_known (message_text cs)" by simp
  have plain: "controls_known (x @ s) = controls_known s" if "ch CHR ''|'' \<notin> set x" for x s
  proof -
    have "IndexByte (x @ s) (ch CHR ''|'') = map_option ((+) (length x)) (IndexByte s (ch CHR ''|''))"
      using that by (induction x) (cases "IndexByte s (ch CHR ''|'')"; simp)+
    then show ?thesis by (simp add: controls_known.simps [of "x @ s"] controls_known.simps [of s] Let_def split: option.splits)
  qed
  have control: "controls_known (ch CHR ''|'' # b # s) = controls_known s" if "b \<in> control_bytes" for b s
    using that by (simp add: controls_known.simps [of "_ # _"] Let_def)
  show ?case
  proof (cases c)
    case (Plain b)
    then show ?thesis using plain [of "[b]"] IH Cons.prems by simp
  next
    case Pipe
    then show ?thesis using control IH by (simp add: control_bytes_def)
  next
    case (Link digits body label)
    then have v: "ch CHR ''|'' \<notin> set digits" "ch CHR ''|'' \<notin> set body" "ch CHR ''|'' \<notin> set label"
      using Cons.prems color_pipe by auto
    have "controls_known (chunk_text c @ message_text cs) = controls_known (message_text cs)"
      unfolding Link using control plain [OF v(1)] plain [OF v(2)] plain [of "ch CHR ''['' # label @ [ch CHR '']'']"] v(3)
      by (simp add: control_bytes_def)
    then show ?thesis using IH by simp
  qed
qed

text \<open>The end of a message is found in it, and a byte before the first pipe is plain.\<close>

lemma links_valid_plain:
  assumes "ch CHR ''|'' \<noteq> c"
  shows "links_valid validate (c # s) = links_valid validate s"
proof (cases "IndexByte s (ch CHR ''|'')")
  case None
  then show ?thesis using assms by (simp add: links_valid.simps [of validate "c # s"] links_valid.simps [of validate s])
next
  case (Some i)
  then show ?thesis
    using assms by (simp add: links_valid.simps [of validate "c # s"] links_valid.simps [of validate s] Let_def)
qed

lemma links_valid_pipe: "links_valid validate (str ''||'' @ s) = links_valid validate s"
  by (simp add: links_valid.simps [of validate "_ # _"] Let_def)

lemma links_valid_link:
  assumes "length digits = 8" "link_color digits 0 = Some color" "ch CHR ''|'' \<notin> set body" "ch CHR ''|'' \<notin> set label"
  shows "links_valid validate (chunk_text (Link digits body label) @ s) \<longleftrightarrow>
    validate \<lparr>hiTail = s, hiColor = color, hiTag = fst (split_tag body), hiData = snd (split_tag body), hiText = label\<rparr> \<and>
    links_valid validate s"
proof -
  obtain r where r: "chunk_text (Link digits body label) @ s = ch CHR ''|'' # ch CHR ''c'' # r" by simp
  have "links_valid validate (ch CHR ''|'' # ch CHR ''c'' # r) =
      (case parseSingleHyperlink (ch CHR ''|'' # ch CHR ''c'' # r) of
         None \<Rightarrow> False | Some info \<Rightarrow> if \<not> validate info then False else links_valid validate (hiTail info))"
    by (simp add: links_valid.simps [of validate "_ # _"] Let_def)
  then show ?thesis using parse_rendered [OF assms, of s] unfolding r by simp
qed

lemma links_valid_rendered:
  assumes "message_valid validate cs"
  shows "links_valid validate (message_text cs)"
  using assms
proof (induction cs)
  case Nil
  then show ?case by (simp add: links_valid.simps)
next
  case (Cons c cs)
  then have IH: "links_valid validate (message_text cs)" by simp
  show ?case
  proof (cases c)
    case (Plain b)
    then show ?thesis using links_valid_plain [of b] IH Cons.prems by auto
  next
    case Pipe
    then show ?thesis using links_valid_pipe IH by simp
  next
    case (Link digits body label)
    then obtain color where "length digits = 8" "link_color digits 0 = Some color" "ch CHR ''|'' \<notin> set body"
        "ch CHR ''|'' \<notin> set label"
        "validate \<lparr>hiTail = message_text cs, hiColor = color, hiTag = fst (split_tag body),
           hiData = snd (split_tag body), hiText = label\<rparr>"
      using Cons.prems by auto
    then show ?thesis using IH links_valid_link [of digits color body label validate "message_text cs"] Link by simp
  qed
qed

text \<open>Conversely an accepted message is read back as such a sequence.\<close>

lemma links_valid_renders:
  assumes "links_valid validate s"
  shows "\<exists>cs. s = message_text cs \<and> message_valid validate cs"
  using assms
proof (induction s rule: measure_induct_rule [where f = length])
  case (less s)
  have plain_prefix: "\<exists>cs. x @ message_text ds = message_text cs \<and> message_valid validate cs"
    if "ch CHR ''|'' \<notin> set x" "message_valid validate ds" for x ds
  proof -
    have "x @ message_text ds = message_text (map Plain x @ ds) \<and> message_valid validate (map Plain x @ ds)"
      using that by (induction x) auto
    then show ?thesis by blast
  qed
  show ?case
  proof (cases "IndexByte s (ch CHR ''|'')")
    case None
    then show ?thesis using plain_prefix [of s "[]"] by (simp add: IndexByte_None)
  next
    case (Some i)
    note s = split_byte [OF Some]
    have i: "i < length s" using IndexByte_Some [OF Some] by simp
    show ?thesis
    proof (cases "i + 1 < length s \<and> s ! (i + 1) = ch CHR ''|''")
      case True
      then have v: "links_valid validate (drop (i + 2) s)"
        using less.prems Some by (simp add: links_valid.simps [of validate s])
      have "length (drop (i + 2) s) < length s" using i unfolding length_drop by arith
      from less.IH [OF this v] obtain ds where ds: "drop (i + 2) s = message_text ds" "message_valid validate ds" by blast
      have "drop (i + 1) s = ch CHR ''|'' # drop (i + 2) s" using True Cons_nth_drop_Suc [of "i + 1" s] by simp
      then have "s = take i s @ message_text (Pipe # ds)" using s ds(1) by simp
      then show ?thesis using plain_prefix [of "take i s" "Pipe # ds"] s ds(2) by auto
    next
      case False
      then obtain info where p: "parseSingleHyperlink (drop i s) = Some info" "validate info" "links_valid validate (hiTail info)"
        using less.prems Some by (simp add: links_valid.simps [of validate s] split: option.splits if_splits)
      have "length (hiTail info) < length s" using parse_tail [OF p(1)] by simp
      then obtain ds where ds: "hiTail info = message_text ds" "message_valid validate ds"
        using less.IH p(3) by blast
      obtain digits body where l: "length digits = 8" "link_color digits 0 = Some (hiColor info)" "ch CHR ''|'' \<notin> set body"
          "ch CHR ''|'' \<notin> set (hiText info)" "hiTag info = fst (split_tag body)" "hiData info = snd (split_tag body)"
          "drop i s = chunk_text (Link digits body (hiText info)) @ hiTail info"
        using parse_renders [OF p(1)] by blast
      have "info = \<lparr>hiTail = message_text ds, hiColor = hiColor info, hiTag = fst (split_tag body),
          hiData = snd (split_tag body), hiText = hiText info\<rparr>"
        using l(5,6) ds(1) by (cases info) simp
      then have "message_valid validate (Link digits body (hiText info) # ds)"
        using l(1-4) p(2) ds(2) by auto
      moreover have "s = take i s @ message_text (Link digits body (hiText info) # ds)"
        using l(7) ds(1) append_take_drop_id [of i s] by simp
      ultimately show ?thesis using plain_prefix [of "take i s"] s by metis
    qed
  qed
qed

text \<open>
  C30: The check accepts exactly the messages that are made of plain bytes, doubled pipes and well-formed links that the validator
  accepts: nothing else with a pipe gets through, and nothing of that form is refused.
\<close>

theorem checkAllHyperlinks_exact:
  "checkAllHyperlinks s validate \<longleftrightarrow> (\<exists>cs. s = message_text cs \<and> message_valid validate cs)"
  using links_valid_renders controls_known_rendered links_valid_rendered by (auto simp: checkAllHyperlinks_def)

end
