(* ===== verification/Sql_Split.thy ===== *)
theory Sql_Split
  imports Go_Text
begin

text \<open>
  \<^verbatim>\<open>engine/database/sqlsplit.go\<close>: the statements of an SQL script. The loop runs over the bytes with what it is inside of, the
  statement written so far and the statements finished.
\<close>

section \<open>The splitter\<close>

datatype sql_mode = Code | LineComment | BlockComment | Quote u8

definition quote_bytes :: "u8 set" where
  "quote_bytes = {39, 34, 96}"

definition sql_space :: "u8 set" where
  "sql_space = {32, 9, 13, 10}"

text \<open>Two dashes start a comment when a blank or the end of the script follows.\<close>

fun dash_comment :: "gostring \<Rightarrow> bool" where
  "dash_comment (c # d # rest) \<longleftrightarrow> c = ch CHR ''-'' \<and> d = ch CHR ''-'' \<and> (case rest of [] \<Rightarrow> True | e # _ \<Rightarrow> e \<in> sql_space)"
| "dash_comment _ \<longleftrightarrow> False"

definition finish :: "gostring \<Rightarrow> gostring list" where
  "finish b = (let statement = TrimSpace b in if statement \<noteq> [] then [statement] else [])"

fun split_from :: "sql_mode \<Rightarrow> gostring \<Rightarrow> gostring list \<Rightarrow> gostring \<Rightarrow> gostring list" where
  "split_from m b sts [] = sts @ finish b"
| "split_from LineComment b sts (c # text) =
     split_from (if c = 10 then Code else LineComment) b sts text"
| "split_from BlockComment b sts (c # text) =
     (case text of
        [] \<Rightarrow> split_from BlockComment b sts text
      | d # text' \<Rightarrow>
          if c = ch CHR ''*'' \<and> d = ch CHR ''/'' then split_from Code b sts text'
          else split_from BlockComment b sts text)"
| "split_from (Quote q) b sts (c # text) =
     (case text of
        [] \<Rightarrow> split_from (if c = q then Code else Quote q) (b @ [c]) sts text
      | d # text' \<Rightarrow>
          if c = 92 then split_from (Quote q) (b @ [c, d]) sts text'
          else if c = q then
            if d = q then split_from (Quote q) (b @ [c, d]) sts text'
            else split_from Code (b @ [c]) sts text
          else split_from (Quote q) (b @ [c]) sts text)"
| "split_from Code b sts (c # text) =
     (if c \<in> quote_bytes then split_from (Quote c) (b @ [c]) sts text
      else if c = ch CHR ''#'' then split_from LineComment b sts text
      else if dash_comment (c # text) then split_from LineComment b sts (drop 1 text)
      else if c = ch CHR ''/'' \<and> text \<noteq> [] \<and> hd text = ch CHR ''*'' then split_from BlockComment b sts (drop 1 text)
      else if c = ch CHR '';'' then split_from Code [] (sts @ finish b) text
      else split_from Code (b @ [c]) sts text)"

definition SplitSQL :: "gostring \<Rightarrow> gostring list" where
  "SplitSQL text = split_from Code [] [] text"

end
