(* ===== verification/Sql_Split_Spec.thy ===== *)
theory Sql_Split_Spec
  imports Sql_Split
begin

text \<open>
  What a script means, as a grammar: bytes of code, quoted strings, comments and semicolons. Every script is a sequence of
  such pieces, and the splitter returns the statements of the sequence.
\<close>

section \<open>The pieces of a script\<close>

text \<open>Inside a quote: a byte, a byte after a backslash, the quote twice.\<close>

datatype quoted = Char u8 | Escaped u8 | Doubled

fun quoted_text :: "u8 \<Rightarrow> quoted \<Rightarrow> gostring" where
  "quoted_text q (Char c) = [c]"
| "quoted_text q (Escaped c) = [92, c]"
| "quoted_text q Doubled = [q, q]"

fun quoted_ok :: "u8 \<Rightarrow> quoted \<Rightarrow> bool" where
  "quoted_ok q (Char c) \<longleftrightarrow> c \<noteq> q \<and> c \<noteq> 92"
| "quoted_ok q (Escaped c) \<longleftrightarrow> True"
| "quoted_ok q Doubled \<longleftrightarrow> True"

definition quoted_body :: "u8 \<Rightarrow> quoted list \<Rightarrow> gostring" where
  "quoted_body q body = concat (map (quoted_text q) body)"

text \<open>A quote and a comment that end, and those that the end of the script cuts off. A comment may start with two dashes.\<close>

datatype sql_piece =
    Byte u8
  | Semicolon
  | Quoted u8 "quoted list"
  | OpenQuote u8 "quoted list"
  | Line bool gostring
  | OpenLine bool gostring
  | Block gostring
  | OpenBlock gostring

definition comment_start :: "bool \<Rightarrow> gostring" where
  "comment_start dashes = (if dashes then str ''--'' else str ''#'')"

fun piece_text :: "sql_piece \<Rightarrow> gostring" where
  "piece_text (Byte c) = [c]"
| "piece_text Semicolon = str '';''"
| "piece_text (Quoted q body) = q # quoted_body q body @ [q]"
| "piece_text (OpenQuote q body) = q # quoted_body q body"
| "piece_text (Line dashes body) = comment_start dashes @ body @ [10]"
| "piece_text (OpenLine dashes body) = comment_start dashes @ body"
| "piece_text (Block body) = str ''/*'' @ body @ str ''*/''"
| "piece_text (OpenBlock body) = str ''/*'' @ body"

definition script_text :: "sql_piece list \<Rightarrow> gostring" where
  "script_text ps = concat (map piece_text ps)"

lemma script_text_simps [simp]: "script_text [] = []" "script_text (p # ps) = piece_text p @ script_text ps"
  by (simp_all add: script_text_def)

fun no_close :: "gostring \<Rightarrow> bool" where
  "no_close (c # d # s) \<longleftrightarrow> \<not> (c = ch CHR ''*'' \<and> d = ch CHR ''/'') \<and> no_close (d # s)"
| "no_close _ \<longleftrightarrow> True"

definition starts_code :: "u8 \<Rightarrow> gostring \<Rightarrow> bool" where
  "starts_code c tail \<longleftrightarrow> c \<notin> quote_bytes \<and> c \<noteq> ch CHR ''#'' \<and> c \<noteq> ch CHR '';'' \<and> \<not> dash_comment (c # tail) \<and>
     \<not> (c = ch CHR ''/'' \<and> tail \<noteq> [] \<and> hd tail = ch CHR ''*'')"

definition line_ok :: "bool \<Rightarrow> gostring \<Rightarrow> bool" where
  "line_ok dashes body \<longleftrightarrow> 10 \<notin> set body \<and> \<not> (dashes \<and> body \<noteq> [] \<and> hd body \<notin> sql_space)"

text \<open>A piece that may stand before the rest of the script. A string cut off may end with a lone backslash.\<close>

fun piece_ok :: "gostring \<Rightarrow> sql_piece \<Rightarrow> bool" where
  "piece_ok tail (Byte c) \<longleftrightarrow> starts_code c tail"
| "piece_ok tail Semicolon \<longleftrightarrow> True"
| "piece_ok tail (Quoted q body) \<longleftrightarrow> q \<in> quote_bytes \<and> list_all (quoted_ok q) body \<and> (tail = [] \<or> hd tail \<noteq> q)"
| "piece_ok tail (OpenQuote q body) \<longleftrightarrow> q \<in> quote_bytes \<and> tail = [] \<and>
     (list_all (quoted_ok q) body \<or> (list_all (quoted_ok q) (butlast body) \<and> body \<noteq> [] \<and> last body = Char 92))"
| "piece_ok tail (Line dashes body) \<longleftrightarrow> line_ok dashes body"
| "piece_ok tail (OpenLine dashes body) \<longleftrightarrow> line_ok dashes body \<and> tail = []"
| "piece_ok tail (Block body) \<longleftrightarrow> no_close body"
| "piece_ok tail (OpenBlock body) \<longleftrightarrow> no_close body \<and> tail = []"

fun script_ok :: "sql_piece list \<Rightarrow> bool" where
  "script_ok [] \<longleftrightarrow> True"
| "script_ok (p # ps) \<longleftrightarrow> piece_ok (script_text ps) p \<and> script_ok ps"

text \<open>What is written of a piece, and the statements of a script: comments vanish, a semicolon ends a statement.\<close>

fun written :: "sql_piece \<Rightarrow> gostring" where
  "written (Byte c) = [c]"
| "written (Quoted q body) = piece_text (Quoted q body)"
| "written (OpenQuote q body) = piece_text (OpenQuote q body)"
| "written _ = []"

fun read_statements :: "gostring \<Rightarrow> sql_piece list \<Rightarrow> gostring list" where
  "read_statements b [] = finish b"
| "read_statements b (p # ps) = (if p = Semicolon then finish b @ read_statements [] ps else read_statements (b @ written p) ps)"

section \<open>The splitter reads the pieces\<close>

declare split_from.simps(2-5) [simp del]

lemma quote_body_simps [simp]: "quoted_body q [] = []" "quoted_body q (x # xs) = quoted_text q x @ quoted_body q xs"
  by (simp_all add: quoted_body_def)

lemma no_quote_backslash: "q \<in> quote_bytes \<Longrightarrow> q \<noteq> 92"
  by (auto simp: quote_bytes_def)

lemma no_dash [simp]: "c \<noteq> ch CHR ''-'' \<Longrightarrow> \<not> dash_comment (c # tail)"
  by (cases tail) auto

lemma split_line:
  "10 \<notin> set body \<Longrightarrow> split_from LineComment b sts (body @ 10 # text) = split_from Code b sts text"
  "10 \<notin> set body \<Longrightarrow> split_from LineComment b sts body = sts @ finish b"
  by (induction body) (auto simp: split_from.simps)

lemma split_block:
  "no_close body \<Longrightarrow> split_from BlockComment b sts (body @ str ''*/'' @ text) = split_from Code b sts text"
  "no_close body \<Longrightarrow> split_from BlockComment b sts body = sts @ finish b"
  by (induction body rule: no_close.induct) (auto simp: split_from.simps)

lemma split_quote_body:
  assumes "q \<noteq> 92" "list_all (quoted_ok q) body"
  shows "split_from (Quote q) b sts (quoted_body q body @ tail) = split_from (Quote q) (b @ quoted_body q body) sts tail"
  using assms(2)
proof (induction body arbitrary: b)
  case (Cons x body)
  then show ?case using assms(1) by (cases x; cases "quoted_body q body @ tail") (auto simp: split_from.simps)
qed simp

lemma split_quote:
  assumes "q \<noteq> 92" "list_all (quoted_ok q) body" "tail = [] \<or> hd tail \<noteq> q"
  shows "split_from (Quote q) b sts (quoted_body q body @ q # tail) = split_from Code (b @ quoted_body q body @ [q]) sts tail"
  using assms by (cases tail) (auto simp: split_quote_body split_from.simps)

lemma split_open_quote:
  assumes "q \<noteq> 92"
    and "list_all (quoted_ok q) body \<or> (list_all (quoted_ok q) (butlast body) \<and> body \<noteq> [] \<and> last body = Char 92)"
  shows "split_from (Quote q) b sts (quoted_body q body) = sts @ finish (b @ quoted_body q body)"
  using assms(2)
proof
  assume "list_all (quoted_ok q) body"
  then show ?thesis using split_quote_body [of q body b sts "[]"] assms(1) by simp
next
  assume r: "list_all (quoted_ok q) (butlast body) \<and> body \<noteq> [] \<and> last body = Char 92"
  then have "quoted_body q body = quoted_body q (butlast body) @ [92]"
    by (cases body rule: rev_cases) (auto simp: quoted_body_def)
  then show ?thesis using r split_quote_body [of q "butlast body" b sts "[92]"] assms(1)
    by (auto simp: split_from.simps)
qed

lemma split_pieces:
  "script_ok ps \<Longrightarrow> split_from Code b sts (script_text ps) = sts @ read_statements b ps"
proof (induction ps arbitrary: b sts)
  case (Cons p ps)
  then have ok: "piece_ok (script_text ps) p"
    and rest: "split_from Code b sts (script_text ps) = sts @ read_statements b ps" for b sts
    by auto
  show ?case
  proof (cases p)
    case (Byte c)
    then show ?thesis using ok rest by (auto simp: split_from.simps starts_code_def)
  next
    case Semicolon
    then show ?thesis using rest by (simp add: split_from.simps quote_bytes_def)
  next
    case (Quoted q body)
    then show ?thesis using ok rest split_quote [of q body "script_text ps" "b @ [q]" sts] no_quote_backslash
      by (simp add: split_from.simps)
  next
    case (OpenQuote q body)
    then show ?thesis using ok rest [of "b @ piece_text p" sts] split_open_quote [of q body "b @ [q]" sts] no_quote_backslash
      by (simp add: split_from.simps)
  next
    case (Line dashes body)
    have "dash_comment (str ''--'' @ body @ 10 # script_text ps)" if dashes
      using ok Line that by (cases body) (auto simp: line_ok_def sql_space_def)
    then show ?thesis using ok rest split_line(1) [of body b sts] Line
      by (auto simp: split_from.simps line_ok_def comment_start_def quote_bytes_def)
  next
    case (OpenLine dashes body)
    have "dash_comment (str ''--'' @ body)" if dashes
      using ok OpenLine that by (cases body) (auto simp: line_ok_def)
    then show ?thesis using ok rest [of b sts] split_line(2) [of body b sts] OpenLine
      by (auto simp: split_from.simps line_ok_def comment_start_def quote_bytes_def)
  next
    case (Block body)
    then show ?thesis using ok rest split_block(1) [of body b sts "script_text ps"]
      by (simp add: split_from.simps quote_bytes_def)
  next
    case (OpenBlock body)
    then show ?thesis using ok rest [of b sts] split_block(2) [of body b sts]
      by (simp add: split_from.simps quote_bytes_def)
  qed
qed simp

section \<open>Every script is made of pieces\<close>

lemma read_line:
  "\<exists>body. 10 \<notin> set body \<and> (s = body \<or> (\<exists>tail. s = body @ 10 # tail))"
  by (metis split_list_first)

lemma read_block: "\<exists>body. no_close body \<and> (s = body \<or> (\<exists>tail. s = body @ str ''*/'' @ tail))"
proof (induction s rule: no_close.induct)
  case (1 c d s)
  show ?case
  proof (cases "c = ch CHR ''*'' \<and> d = ch CHR ''/''")
    case True
    then show ?thesis by (intro exI [of _ "[]"]) auto
  next
    case False
    obtain body where body: "no_close body" "d # s = body \<or> (\<exists>tail. d # s = body @ str ''*/'' @ tail)" using 1 by blast
    then have "no_close (c # body)" using False by (cases body) auto
    then show ?thesis using body by (intro exI [of _ "c # body"]) auto
  qed
qed (intro exI [of _ "[]"], simp, rule exI, rule conjI [OF _ disjI1 [OF refl]], simp)

definition cut_quote :: "u8 \<Rightarrow> quoted list \<Rightarrow> bool" where
  "cut_quote q body \<longleftrightarrow>
     list_all (quoted_ok q) body \<or> (list_all (quoted_ok q) (butlast body) \<and> body \<noteq> [] \<and> last body = Char 92)"

definition quote_read :: "u8 \<Rightarrow> gostring \<Rightarrow> bool" where
  "quote_read q s \<longleftrightarrow>
     (\<exists>body. (list_all (quoted_ok q) body \<and> (\<exists>tail. s = quoted_body q body @ q # tail \<and> (tail = [] \<or> hd tail \<noteq> q))) \<or>
             (s = quoted_body q body \<and> cut_quote q body))"

lemma quote_read_Cons:
  assumes "quote_read q s" "quoted_ok q x"
  shows "quote_read q (quoted_text q x @ s)"
proof -
  obtain body where "(list_all (quoted_ok q) body \<and> (\<exists>tail. s = quoted_body q body @ q # tail \<and> (tail = [] \<or> hd tail \<noteq> q))) \<or>
      (s = quoted_body q body \<and> cut_quote q body)"
    using assms(1) unfolding quote_read_def by blast
  moreover have "cut_quote q (x # body)" if "cut_quote q body" using that assms(2) by (auto simp: cut_quote_def)
  ultimately show ?thesis unfolding quote_read_def using assms(2) by (intro exI [of _ "x # body"]) auto
qed

lemma read_quote:
  assumes "q \<noteq> 92"
  shows "quote_read q s"
proof (induction s rule: length_induct)
  case (1 s)
  have nil: "quote_read q []" unfolding quote_read_def by (intro exI [of _ "[]"]) (simp add: cut_quote_def)
  consider "s = []" | "s = [92]" | d t where "s = 92 # d # t" | t where "s = q # q # t"
    | t where "s = q # t" "t = [] \<or> hd t \<noteq> q" | c t where "s = c # t" "c \<noteq> q" "c \<noteq> 92"
    by (metis list.collapse neq_Nil_conv)
  then show ?case
  proof cases
    case 2
    then show ?thesis unfolding quote_read_def by (intro exI [of _ "[Char 92]"]) (simp add: cut_quote_def)
  next
    case (3 d t)
    then show ?thesis using 1 quote_read_Cons [of q t "Escaped d"] by simp
  next
    case (4 t)
    then show ?thesis using 1 quote_read_Cons [of q t Doubled] by simp
  next
    case (5 t)
    then show ?thesis unfolding quote_read_def by (intro exI [of _ "[]"]) simp
  next
    case (6 c t)
    then show ?thesis using 1 quote_read_Cons [of q t "Char c"] by simp
  qed (simp add: nil)
qed

definition script_read :: "gostring \<Rightarrow> bool" where
  "script_read s \<longleftrightarrow> (\<exists>ps. script_ok ps \<and> script_text ps = s)"

lemma script_read_Cons: "piece_ok s p \<Longrightarrow> script_read s \<Longrightarrow> script_read (piece_text p @ s)"
  unfolding script_read_def by (metis script_ok.simps(2) script_text_simps(2))

lemma script_read_last: "piece_ok [] p \<Longrightarrow> script_read (piece_text p)"
  using script_read_Cons [of "[]" p] by (simp add: script_read_def exI [of _ "[]"])

lemma read_comment_line:
  assumes "\<And>t. length t \<le> length s \<Longrightarrow> script_read t" "dashes \<Longrightarrow> s = [] \<or> hd s \<in> sql_space"
  shows "script_read (comment_start dashes @ s)"
proof -
  obtain body where b: "10 \<notin> set body" "s = body \<or> (\<exists>tail. s = body @ 10 # tail)" using read_line by blast
  have ok: "line_ok dashes body" using b assms(2) by (cases body) (auto simp: line_ok_def)
  from b(2) show ?thesis
  proof
    assume "s = body"
    then show ?thesis using script_read_last [of "OpenLine dashes body"] ok by simp
  next
    assume "\<exists>tail. s = body @ 10 # tail"
    then obtain tail where "s = body @ 10 # tail" by blast
    then show ?thesis using script_read_Cons [of tail "Line dashes body"] assms(1) [of tail] ok by simp
  qed
qed

lemma script_exists: "script_read s"
proof (induction s rule: length_induct)
  case (1 s)
  then have IH: "length t < length s \<Longrightarrow> script_read t" for t by blast
  show ?case
  proof (cases s)
    case Nil
    then show ?thesis by (simp add: script_read_def exI [of _ "[]"])
  next
    case (Cons c t)
    consider "starts_code c t" | "c \<in> quote_bytes" | "c = ch CHR ''#''" | "c = ch CHR '';''" | "dash_comment (c # t)"
      | u where "c = ch CHR ''/''" "t = ch CHR ''*'' # u"
      unfolding starts_code_def by (cases t) auto
    then show ?thesis
    proof cases
      case 1
      then show ?thesis using script_read_Cons [of t "Byte c"] IH Cons by simp
    next
      case 2
      then have "quote_read c t" using read_quote no_quote_backslash by blast
      then consider (closed) body tail where "list_all (quoted_ok c) body" "t = quoted_body c body @ c # tail" "tail = [] \<or> hd tail \<noteq> c"
        | (cut) body where "t = quoted_body c body" "cut_quote c body"
        unfolding quote_read_def by blast
      then show ?thesis
      proof cases
        case (closed body tail)
        then show ?thesis using script_read_Cons [of tail "Quoted c body"] IH [of tail] Cons 2 by simp
      next
        case (cut body)
        then show ?thesis using script_read_last [of "OpenQuote c body"] Cons 2 by (simp add: cut_quote_def)
      qed
    next
      case 3
      then show ?thesis using read_comment_line [of t False] IH Cons by (simp add: comment_start_def)
    next
      case 4
      then show ?thesis using script_read_Cons [of t Semicolon] IH Cons by simp
    next
      case 5
      then obtain u where "c = ch CHR ''-''" "t = ch CHR ''-'' # u" "u = [] \<or> hd u \<in> sql_space"
        by (cases t) (auto split: list.splits)
      then show ?thesis using read_comment_line [of u True] IH Cons by (simp add: comment_start_def)
    next
      case (6 u)
      obtain body where body: "no_close body" "u = body \<or> (\<exists>tail. u = body @ str ''*/'' @ tail)" using read_block by blast
      from body(2) show ?thesis
      proof (elim disjE exE)
        assume "u = body"
        then show ?thesis using script_read_last [of "OpenBlock body"] body(1) Cons 6 by simp
      next
        fix tail assume "u = body @ str ''*/'' @ tail"
        then show ?thesis using script_read_Cons [of tail "Block body"] IH [of tail] body(1) Cons 6 by simp
      qed
    qed
  qed
qed

text \<open>
  C31: The splitter returns exactly the statements of the script: a text splits into these statements if and only if it is a
  sequence of code, quoted strings (with doubled and escaped quotes), comments and semicolons that has these statements, cut at
  the semicolons outside quotes and comments, without comments and blank statements.
\<close>

theorem SplitSQL_exact:
  "SplitSQL text = sts \<longleftrightarrow> (\<exists>ps. script_ok ps \<and> script_text ps = text \<and> read_statements [] ps = sts)"
proof
  assume "SplitSQL text = sts"
  moreover obtain ps where "script_ok ps" "script_text ps = text" using script_exists [of "text"] unfolding script_read_def by blast
  ultimately show "\<exists>ps. script_ok ps \<and> script_text ps = text \<and> read_statements [] ps = sts"
    using split_pieces [of ps "[]" "[]"] by (auto simp: SplitSQL_def)
next
  assume "\<exists>ps. script_ok ps \<and> script_text ps = text \<and> read_statements [] ps = sts"
  then show "SplitSQL text = sts" using split_pieces [of _ "[]" "[]"] by (auto simp: SplitSQL_def)
qed

lemma comment_joins_tokens:
  "SplitSQL (str ''SELECT 1#c'' @ 10 # str ''FROM t'') = [str ''SELECT 1FROM t'']"
  by code_simp

end
