(* ===== verification/Base32.thy ===== *)
theory Base32
  imports Go_Text
begin

text \<open>
  \<^verbatim>\<open>engine/crypto/base32.go\<close>: the letters of a one-time secret. Encoding then decoding is the identity.
\<close>

section \<open>The code\<close>

definition base32Alphabet :: gostring where
  "base32Alphabet = str ''ABCDEFGHIJKLMNOPQRSTUVWXYZ234567''"

definition base32DecodeChar :: "u8 \<Rightarrow> u8 option" where
  "base32DecodeChar c =
     (let c = (if c = ch CHR ''0'' then ch CHR ''O'' else if c = ch CHR ''1'' then ch CHR ''l''
               else if c = ch CHR ''8'' then ch CHR ''B'' else c) in
      if ch CHR ''A'' \<le> c \<and> c \<le> ch CHR ''Z'' then Some (c - ch CHR ''A'')
      else if ch CHR ''a'' \<le> c \<and> c \<le> ch CHR ''z'' then Some (c - ch CHR ''a'')
      else if ch CHR ''2'' \<le> c \<and> c \<le> ch CHR ''7'' then Some (c - ch CHR ''2'' + 26)
      else None)"

definition emit :: "u32 \<Rightarrow> gostring" where
  "emit w = [base32Alphabet ! unat (w AND 0x1f)]"

text \<open>The digits of the bits that are left, while there are five: \<open>current\<close> keeps older bits above them.\<close>

fun encode_bits :: "u32 \<Rightarrow> nat \<Rightarrow> gostring \<times> nat" where
  "encode_bits current bitsLeft =
     (if bitsLeft \<ge> 5 then
        case encode_bits current (bitsLeft - 5) of (out, n) \<Rightarrow> (emit (drop_bit (bitsLeft - 5) current) @ out, n)
      else ([], bitsLeft))"

declare encode_bits.simps [simp del]

fun encode_from :: "u32 \<Rightarrow> nat \<Rightarrow> bytes \<Rightarrow> gostring" where
  "encode_from current bitsLeft [] = (if bitsLeft > 0 then emit (push_bit (5 - bitsLeft) current) else [])"
| "encode_from current bitsLeft (b # data) =
     (let current = push_bit 8 current OR ucast b in
      case encode_bits current (bitsLeft + 8) of (out, n) \<Rightarrow> out @ encode_from current n data)"

definition Base32Encode :: "bytes \<Rightarrow> gostring" where
  "Base32Encode data =
     (if data = [] then []
      else let out = encode_from 0 0 data in out @ replicate ((8 - length out mod 8) mod 8) (ch CHR ''=''))"

text \<open>The bytes, the byte begun and its free bits, and the rest from the first padding on; \<open>None\<close> for a bad letter.\<close>

fun decode_from :: "gostring \<Rightarrow> bytes \<Rightarrow> u8 \<Rightarrow> nat \<Rightarrow> (bytes \<times> u8 \<times> nat \<times> gostring) option" where
  "decode_from [] out currentByte bitsLeft = Some (out, currentByte, bitsLeft, [])"
| "decode_from (c # data) out currentByte bitsLeft =
     (if c = ch CHR ''='' then Some (out, currentByte, bitsLeft, c # data)
      else case base32DecodeChar c of
        None \<Rightarrow> None
      | Some cur \<Rightarrow>
          if bitsLeft > 5 then decode_from data out (currentByte OR push_bit (bitsLeft - 5) cur) (bitsLeft - 5)
          else
            let rem = 5 - bitsLeft in
            decode_from data (out @ [currentByte OR drop_bit rem cur]) (push_bit (8 - rem) (cur AND (push_bit rem 1 - 1))) (8 - rem))"

fun skip_padding :: "gostring \<Rightarrow> nat \<Rightarrow> gostring" where
  "skip_padding [] bitsLeft = []"
| "skip_padding (c # data) bitsLeft =
     (if c = ch CHR ''='' \<and> bitsLeft \<noteq> 8 then skip_padding data (if bitsLeft > 5 then bitsLeft - 5 else bitsLeft + 3)
      else c # data)"

definition Base32Decode :: "gostring \<Rightarrow> bytes option" where
  "Base32Decode data =
     (case decode_from data [] 0 8 of
        None \<Rightarrow> None
      | Some (out, currentByte, bitsLeft, rest) \<Rightarrow>
          if currentByte \<noteq> 0 then None
          else if skip_padding rest bitsLeft \<noteq> [] then None
          else Some out)"

section \<open>Digits\<close>

text \<open>A list of digits of \<open>w\<close> bits as a number.\<close>

definition number :: "nat \<Rightarrow> nat list \<Rightarrow> nat" where
  "number w ds = foldl (\<lambda>n d. n * 2 ^ w + d) 0 ds"

lemma number_simps [simp]: "number w [] = 0" "number w (ds @ [d]) = number w ds * 2 ^ w + d"
  by (simp_all add: number_def)

lemma number_inj:
  "length ds = length es \<Longrightarrow> \<forall>d \<in> set ds \<union> set es. d < 2 ^ w \<Longrightarrow> number w ds = number w es \<Longrightarrow> ds = es"
proof (induction ds arbitrary: es rule: rev_induct)
  case (snoc d ds)
  obtain e es' where es: "es = es' @ [e]" using snoc.prems(1) by (cases es rule: rev_cases) auto
  have b: "d < 2 ^ w" "e < 2 ^ w" "number w ds * 2 ^ w + d = number w es' * 2 ^ w + e"
    using snoc.prems es by auto
  then have "d = e" by (metis mod_mult_self3 mod_less add.commute)
  then show ?case using snoc.IH [of es'] snoc.prems es b by simp
qed simp

lemma number_Cons: "number w (d # ds) = d * 2 ^ (w * length ds) + number w ds"
  by (induction ds rule: rev_induct) (simp_all add: number_def algebra_simps power_add)

lemma number_append: "number w (ds @ es) = number w ds * 2 ^ (w * length es) + number w es"
  by (induction es rule: rev_induct) (simp_all add: algebra_simps power_add flip: append_assoc)

lemma unat_or_low:
  fixes a b :: "'a :: len word"
  assumes "2 ^ k dvd unat a" "unat b < 2 ^ k"
  shows "unat (a OR b) = unat a + unat b"
proof -
  have "\<not> bit (unat a) n \<or> \<not> bit (unat b) n" for n
  proof (cases "n < k")
    case True
    then have "2 ^ Suc n dvd unat a" using assms(1) by (meson Suc_leI le_imp_power_dvd dvd_trans)
    then show ?thesis by (auto simp: bit_iff_odd elim!: dvdE)
  next
    case False
    have "unat b < 2 ^ n" using assms(2) power_increasing [of k n "2 :: nat"] False by linarith
    then show ?thesis by (simp add: bit_iff_odd)
  qed
  then show ?thesis by (simp add: unsigned_or_eq disjunctive_add_eq_or bit_eq_iff bit_and_iff)
qed

lemma byte_less: "unat (b :: u8) < 2 ^ 8"
  using unsigned_less [of b] by simp

lemma cancel_scaled:
  fixes a b m w :: nat
  assumes "a * m + w = b * m" "w < m"
  shows "a = b \<and> w = 0"
proof -
  have "(a * m + w) mod m = w" using assms(2) by simp
  then have "w = 0" by (simp add: assms(1))
  then show ?thesis using assms by simp
qed

lemma unat_push_bit: "unat (push_bit k x :: 'a :: len word) = unat x * 2 ^ k mod 2 ^ LENGTH('a)"
  by (simp only: unsigned_push_bit_eq) (simp only: push_bit_eq_mult take_bit_eq_mod)

lemma unat_drop_bit: "unat (drop_bit k x) = unat x div 2 ^ k"
proof -
  have "unat (drop_bit k x) = drop_bit k (unat x)"
    by (rule bit_eqI) (simp add: bit_simps bit_imp_le_length)
  then show ?thesis by (simp add: drop_bit_eq_div)
qed

lemma letters:
  assumes "d < 32"
  shows "base32DecodeChar (base32Alphabet ! d) = Some (of_nat d)" "base32Alphabet ! d \<noteq> ch CHR ''=''"
proof -
  have "\<forall>d \<in> set [0..<32]. base32DecodeChar (base32Alphabet ! d) = Some (of_nat d) \<and> base32Alphabet ! d \<noteq> ch CHR ''=''"
    by code_simp
  then show "base32DecodeChar (base32Alphabet ! d) = Some (of_nat d)" "base32Alphabet ! d \<noteq> ch CHR ''=''"
    using assms by simp_all
qed

lemma unat_low_bits: "unat (x AND 0x1f :: u32) = unat x mod 32"
proof -
  have "(0x1f :: u32) = mask 5" by (simp add: mask_eq_exp_minus_1)
  then have "unat (x AND 0x1f) = unat (take_bit 5 x)" by (simp only: take_bit_eq_mask)
  then show ?thesis unfolding unsigned_take_bit_eq by (simp add: take_bit_eq_mod)
qed

section \<open>Encoding\<close>

lemma encode_bits_digits:
  "m \<le> 32 \<Longrightarrow> \<exists>ds. encode_bits current m = (map (nth base32Alphabet) ds, m mod 5) \<and> (\<forall>d \<in> set ds. d < 32) \<and>
     m = 5 * length ds + m mod 5 \<and>
     number 5 ds * 2 ^ (m mod 5) + unat current mod 2 ^ (m mod 5) = unat current mod 2 ^ m"
proof (induction current m rule: encode_bits.induct)
  case (1 current m)
  show ?case
  proof (cases "m \<ge> 5")
    case False
    then show ?thesis by (intro exI [of _ "[]"]) (simp add: encode_bits.simps [of current m])
  next
    case True
    define k where "k = m - 5"
    have m: "m = k + 5" "m mod 5 = k mod 5" using True by (simp_all add: k_def mod_if)
    obtain ds where ds: "encode_bits current k = (map (nth base32Alphabet) ds, k mod 5)" "\<forall>d \<in> set ds. d < 32"
        "k = 5 * length ds + k mod 5" "number 5 ds * 2 ^ (k mod 5) + unat current mod 2 ^ (k mod 5) = unat current mod 2 ^ k"
      using "1.IH" [OF True] "1.prems" unfolding k_def by (meson diff_le_self order_trans)
    define e where "e = unat current div 2 ^ k mod 32"
    have "encode_bits current m = (map (nth base32Alphabet) (e # ds), k mod 5)"
      using True ds(1) unfolding encode_bits.simps [of current m] e_def k_def
      by (simp add: emit_def unat_low_bits unat_drop_bit)
    moreover have "number 5 (e # ds) * 2 ^ (k mod 5) = e * 2 ^ k + number 5 ds * 2 ^ (k mod 5)"
      using ds(3) by (simp add: number_Cons algebra_simps flip: power_add)
    moreover have "unat current mod 2 ^ m = e * 2 ^ k + unat current mod 2 ^ k"
      using mod_mult2_eq [of "unat current" "2 ^ k" 32] by (simp add: m(1) e_def power_add)
    ultimately show ?thesis
      using ds m by (intro exI [of _ "e # ds"]) (auto simp: e_def)
  qed
qed

lemma unat_shift_in: "n \<le> 24 \<Longrightarrow> unat (push_bit 8 current OR ucast b :: u32) mod 2 ^ (n + 8) = unat current mod 2 ^ n * 2 ^ 8 + unat (b :: u8)"
proof -
  assume n: "n \<le> 24"
  have b: "unat b < 2 ^ 8" using unsigned_less [of b] by simp
  have p: "unat (push_bit 8 current) = unat current * 2 ^ 8 mod 2 ^ 32"
    by (simp add: unat_push_bit)
  have "unat (push_bit 8 current OR ucast b :: u32) = unat current * 2 ^ 8 mod 2 ^ 32 + unat b"
    using p b by (subst unat_or_low [of 8]) (auto simp: unsigned_ucast_eq take_bit_nat_eq_self dvd_mod_iff)
  moreover have "(unat current * 2 ^ 8 mod 2 ^ 32 + unat b) mod 2 ^ (n + 8) = (unat current * 2 ^ 8 + unat b) mod 2 ^ (n + 8)"
  proof -
    have "(2 :: nat) ^ (n + 8) dvd 2 ^ 32" using n by (intro le_imp_power_dvd) simp
    then show ?thesis by (metis mod_add_left_eq mod_mod_cancel)
  qed
  moreover have "(unat current * 2 ^ 8 + unat b) mod 2 ^ (n + 8) = unat current mod 2 ^ n * 2 ^ 8 + unat b"
    using b mod_mult2_eq [of "unat current * 2 ^ 8 + unat b" "2 ^ 8" "2 ^ n"] by (simp add: power_add mult.commute)
  ultimately show ?thesis by simp
qed

lemma encode_from_digits:
  "n < 5 \<Longrightarrow> \<exists>ds p. encode_from current n data = map (nth base32Alphabet) ds \<and> (\<forall>d \<in> set ds. d < 32) \<and> p < 5 \<and>
     5 * length ds = n + 8 * length data + p \<and>
     number 5 ds = (unat current mod 2 ^ n * 2 ^ (8 * length data) + number 8 (map unat data)) * 2 ^ p"
proof (induction data arbitrary: current n)
  case Nil
  show ?case
  proof (cases "n = 0")
    case True
    then show ?thesis by (intro exI [of _ "[]"] exI [of _ 0]) simp
  next
    case False
    define e where "e = unat (push_bit (5 - n) current) mod 32"
    have "(2 :: nat) ^ 5 dvd 2 ^ 32" by (intro le_imp_power_dvd) simp
    then have "e = unat current * 2 ^ (5 - n) mod 2 ^ 5"
      unfolding e_def unat_push_bit by (simp add: mod_mod_cancel)
    also have "\<dots> = unat current mod 2 ^ n * 2 ^ (5 - n)"
      using mult_mod_left [of "unat current" "2 ^ n" "2 ^ (5 - n)"] Nil by (simp flip: power_add)
    finally show ?thesis using Nil False
      by (intro exI [of _ "[e]"] exI [of _ "5 - n"]) (simp add: emit_def unat_low_bits e_def number_Cons)
  qed
next
  case (Cons b data)
  define c where "c = push_bit 8 current OR ucast b"
  obtain es where es: "encode_bits c (n + 8) = (map (nth base32Alphabet) es, (n + 8) mod 5)" "\<forall>d \<in> set es. d < 32"
      "n + 8 = 5 * length es + (n + 8) mod 5"
      "number 5 es * 2 ^ ((n + 8) mod 5) + unat c mod 2 ^ ((n + 8) mod 5) = unat c mod 2 ^ (n + 8)"
    using encode_bits_digits [of "n + 8" c] Cons.prems by auto
  obtain ds p where ds: "encode_from c ((n + 8) mod 5) data = map (nth base32Alphabet) ds" "\<forall>d \<in> set ds. d < 32" "p < 5"
      "5 * length ds = (n + 8) mod 5 + 8 * length data + p"
      "number 5 ds = (unat c mod 2 ^ ((n + 8) mod 5) * 2 ^ (8 * length data) + number 8 (map unat data)) * 2 ^ p"
    using Cons.IH [of "(n + 8) mod 5" c] by auto
  have c: "unat c mod 2 ^ (n + 8) = unat current mod 2 ^ n * 2 ^ 8 + unat b"
    unfolding c_def using Cons.prems by (intro unat_shift_in) simp
  have "number 5 (es @ ds) = number 5 es * 2 ^ (5 * length ds) + number 5 ds"
    by (rule number_append)
  also have "\<dots> = (number 5 es * 2 ^ ((n + 8) mod 5) + unat c mod 2 ^ ((n + 8) mod 5)) * 2 ^ (8 * length data) * 2 ^ p +
      number 8 (map unat data) * 2 ^ p"
    unfolding ds(4,5) by (simp add: power_add algebra_simps)
  also have "\<dots> = (unat current mod 2 ^ n * 2 ^ (8 * length (b # data)) + number 8 (map unat (b # data))) * 2 ^ p"
    unfolding es(4) c by (simp add: number_Cons power_add algebra_simps)
  finally show ?case using es ds
    by (intro exI [of _ "es @ ds"] exI [of _ p]) (auto simp: c_def [symmetric] Let_def)
qed

section \<open>Decoding\<close>

text \<open>What has been decoded: the number \<open>N\<close> of \<open>L\<close> bits.\<close>

definition decoded :: "bytes \<Rightarrow> u8 \<Rightarrow> nat \<Rightarrow> nat \<Rightarrow> nat \<Rightarrow> bool" where
  "decoded out currentByte bitsLeft N L \<longleftrightarrow> 1 \<le> bitsLeft \<and> bitsLeft \<le> 8 \<and> L = 8 * length out + (8 - bitsLeft) \<and>
     (\<exists>w < 2 ^ (8 - bitsLeft). unat currentByte = w * 2 ^ bitsLeft \<and> N = number 8 (map unat out) * 2 ^ (8 - bitsLeft) + w)"

lemma decoded_step:
  assumes "decoded out currentByte bitsLeft N L" "d < 32" "decode_from (c # data) out currentByte bitsLeft = r"
    and "base32DecodeChar c = Some (of_nat d)" "c \<noteq> ch CHR ''=''"
  shows "\<exists>out' b' n'. r = decode_from data out' b' n' \<and> decoded out' b' n' (N * 32 + d) (L + 5)"
proof -
  obtain w where w: "w < 2 ^ (8 - bitsLeft)" "unat currentByte = w * 2 ^ bitsLeft"
      "N = number 8 (map unat out) * 2 ^ (8 - bitsLeft) + w" and n: "1 \<le> bitsLeft" "bitsLeft \<le> 8"
      "L = 8 * length out + (8 - bitsLeft)"
    using assms(1) by (auto simp: decoded_def)
  have d: "unat (of_nat d :: u8) = d" using assms(2) by (simp add: unat_of_nat)
  show ?thesis
  proof (cases "bitsLeft > 5")
    case True
    define k where "k = bitsLeft - 5"
    have k: "bitsLeft = k + 5" "k \<in> {1, 2, 3}" using True n by (auto simp: k_def)
    have "unat (push_bit k (of_nat d) :: u8) = d * 2 ^ k"
      using k(2) assms(2) unfolding unat_push_bit d by auto
    moreover have "d * 2 ^ k < 2 ^ bitsLeft" using assms(2) by (simp add: k(1) power_add)
    ultimately have "unat (currentByte OR push_bit k (of_nat d)) = w * 2 ^ bitsLeft + d * 2 ^ k"
      using w(2) by (subst unat_or_low [of bitsLeft]) auto
    then have "decoded out (currentByte OR push_bit k (of_nat d)) k (N * 32 + d) (L + 5)"
      using w n k assms(2) unfolding decoded_def
      by (intro conjI exI [of _ "w * 32 + d"]) (auto simp: power_add algebra_simps)
    then show ?thesis using assms(3-5) True k(1) by auto
  next
    case False
    define r5 where "r5 = 5 - bitsLeft"
    have r5: "bitsLeft + r5 = 5" "r5 < 5" using False n by (auto simp: r5_def)
    define hi where "hi = drop_bit r5 (of_nat d :: u8)"
    define lo where "lo = push_bit (8 - r5) (of_nat d AND (push_bit r5 1 - 1) :: u8)"
    have hi: "unat hi = d div 2 ^ r5"
      unfolding hi_def unat_drop_bit d by (rule refl)
    have "d div 2 ^ r5 < 2 ^ bitsLeft"
      using assms(2) r5(1) by (simp add: less_mult_imp_div_less flip: power_add)
    then have byte: "unat (currentByte OR hi) = w * 2 ^ bitsLeft + d div 2 ^ r5"
      using w(2) hi by (subst unat_or_low [of bitsLeft]) auto
    have "push_bit r5 1 - 1 = (mask r5 :: u8)" by (simp add: mask_eq_exp_minus_1 push_bit_eq_mult)
    then have "lo = push_bit (8 - r5) (take_bit r5 (of_nat d))" by (simp add: lo_def take_bit_eq_mask)
    then have "unat lo = (d mod 2 ^ r5) * 2 ^ (8 - r5) mod 2 ^ 8"
      using d by (simp only: unat_push_bit unsigned_take_bit_eq) (simp add: take_bit_eq_mod)
    moreover have "(d mod 2 ^ r5) * 2 ^ (8 - r5) < 2 ^ r5 * 2 ^ (8 - r5)" by simp
    ultimately have lo: "unat lo = (d mod 2 ^ r5) * 2 ^ (8 - r5)"
      using r5(2) by (simp flip: power_add)
    have "8 - bitsLeft + 5 = 8 + r5" using r5 n by simp
    then have "(2 :: nat) ^ (8 - bitsLeft + 5) = 2 ^ (8 + r5)" "(2 :: nat) ^ (bitsLeft + r5) = 2 ^ 5"
      by (simp_all only: r5(1))
    then have pow: "(2 :: nat) ^ (8 - bitsLeft) * 32 = 2 ^ 8 * 2 ^ r5" "(2 :: nat) ^ bitsLeft * 2 ^ r5 = 32"
      by (simp_all add: power_add)
    have "N * 32 + d = number 8 (map unat (out @ [currentByte OR hi])) * 2 ^ r5 + d mod 2 ^ r5"
    proof -
      have "N * 32 + d = number 8 (map unat out) * (2 ^ (8 - bitsLeft) * 32) + w * 32 + d"
        using w(3) by (simp add: algebra_simps)
      also have "\<dots> = (number 8 (map unat out) * 2 ^ 8 + w * 2 ^ bitsLeft + d div 2 ^ r5) * 2 ^ r5 + d mod 2 ^ r5"
        unfolding pow(1) using pow(2) div_mult_mod_eq [of d "2 ^ r5"] by (simp add: algebra_simps)
      finally show ?thesis by (simp add: byte)
    qed
    then have "decoded (out @ [currentByte OR hi]) lo (8 - r5) (N * 32 + d) (L + 5)"
      using n r5 lo unfolding decoded_def by (intro conjI exI [of _ "d mod 2 ^ r5"]) auto
    then show ?thesis using assms(3-5) False by (auto simp: Let_def hi_def lo_def r5_def)
  qed
qed

lemma decode_digits:
  assumes "\<forall>d \<in> set ds. d < 32" "rest = [] \<or> hd rest = ch CHR ''=''" "decoded out currentByte bitsLeft N L"
  shows "\<exists>out' b' n'. decode_from (map (nth base32Alphabet) ds @ rest) out currentByte bitsLeft = Some (out', b', n', rest) \<and>
    decoded out' b' n' (N * 2 ^ (5 * length ds) + number 5 ds) (L + 5 * length ds)"
  using assms
proof (induction ds arbitrary: out currentByte bitsLeft N L)
  case Nil
  then show ?case by (cases rest) auto
next
  case (Cons d ds)
  obtain out' b' n' where s: "decode_from (map (nth base32Alphabet) (d # ds) @ rest) out currentByte bitsLeft =
      decode_from (map (nth base32Alphabet) ds @ rest) out' b' n'" "decoded out' b' n' (N * 32 + d) (L + 5)"
    using decoded_step [OF Cons.prems(3) _ refl letters, of d "map (nth base32Alphabet) ds @ rest"] Cons.prems(1) by auto
  have "(N * 32 + d) * 2 ^ (5 * length ds) + number 5 ds = N * 2 ^ (5 * length (d # ds)) + number 5 (d # ds)"
    by (simp add: number_Cons power_add algebra_simps)
  then show ?case using Cons.IH [OF _ Cons.prems(2) s(2)] Cons.prems(1) s(1) by (auto simp: add.assoc)
qed

lemma skip_all_padding:
  assumes "8 - bitsLeft = 5 * k mod 8" "1 \<le> bitsLeft" "bitsLeft \<le> 8"
  shows "skip_padding (replicate ((8 - k mod 8) mod 8) (ch CHR ''='')) bitsLeft = []"
proof -
  define j where "j = k mod 8"
  have "bitsLeft = 8 - 5 * j mod 8" using assms by (simp add: j_def mod_mult_right_eq)
  moreover have "\<forall>j \<in> set [0..<8]. skip_padding (replicate ((8 - j) mod 8) (ch CHR ''='')) (8 - 5 * j mod 8) = []"
    by code_simp
  ultimately show ?thesis unfolding j_def [symmetric] by (simp add: j_def)
qed

text \<open>
  C32: Decoding gives back what was encoded: for every secret the padded letters decode to its bytes, without an error.
\<close>

theorem base32_roundtrip: "Base32Decode (Base32Encode data) = Some data"
proof (cases "data = []")
  case True
  then show ?thesis by (simp add: Base32Encode_def Base32Decode_def)
next
  case False
  obtain ds p where ds: "encode_from 0 0 data = map (nth base32Alphabet) ds" "\<forall>d \<in> set ds. d < 32" "p < 5"
      "5 * length ds = 8 * length data + p" "number 5 ds = number 8 (map unat data) * 2 ^ p"
    using encode_from_digits [of 0 0 data] by auto
  define pad where "pad = replicate ((8 - length ds mod 8) mod 8) (ch CHR ''='')"
  have hd_pad: "pad = [] \<or> hd pad = ch CHR ''=''" by (cases "(8 - length ds mod 8) mod 8") (auto simp: pad_def)
  have enc: "Base32Encode data = map (nth base32Alphabet) ds @ pad"
    using False ds(1) by (simp add: Base32Encode_def pad_def Let_def)
  have "decoded [] 0 8 0 0" by (simp add: decoded_def)
  then obtain out b n where dec: "decode_from (Base32Encode data) [] 0 8 = Some (out, b, n, pad)"
      "decoded out b n (number 5 ds) (5 * length ds)"
    using decode_digits [OF ds(2), of pad "[]" 0 8 0 0] hd_pad unfolding enc by auto
  obtain w where w: "1 \<le> n" "n \<le> 8" "5 * length ds = 8 * length out + (8 - n)" "w < 2 ^ (8 - n)" "unat b = w * 2 ^ n"
      "number 5 ds = number 8 (map unat out) * 2 ^ (8 - n) + w"
    using dec(2) by (auto simp: decoded_def)
  have "8 - n = (5 * length ds) mod 8" using w(1,3) by simp
  moreover have "p = (5 * length ds) mod 8" using ds(3,4) by simp
  ultimately have p: "8 - n = p" and len: "length out = length data" using w(3) ds(4) by auto
  have eq: "number 8 (map unat out) * 2 ^ p + w = number 8 (map unat data) * 2 ^ p" "w < 2 ^ p"
    using w(4,6) ds(5) unfolding p by simp_all
  then have "number 8 (map unat out) = number 8 (map unat data) \<and> w = 0"
    by (rule cancel_scaled)
  then have "map unat out = map unat data" "b = 0"
    using number_inj [of "map unat out" "map unat data" 8] len w(5) byte_less
    by (auto simp: unat_eq_zero)
  then have "out = data" by (metis list.inj_map_strong unsigned_word_eqI)
  then show ?thesis using dec(1) skip_all_padding [of n "length ds"] \<open>8 - n = (5 * length ds) mod 8\<close> w(1,2) \<open>b = 0\<close>
    by (simp add: Base32Decode_def pad_def)
qed

end
