(* ===== verification/Reentrant_Mutex.thy ===== *)
theory Reentrant_Mutex
  imports Go_Prelude
begin

text \<open>
  \<^verbatim>\<open>engine/scripting/reentrant_mutex.go\<close>: the lock around the Lua state, which the goroutine that holds it may take again.
  Each call is the sequence of its atomic instructions; any interleaving of the goroutines is a run.
\<close>

section \<open>The instructions\<close>

record reentrantMutex =
  rmLocked :: bool
  rmOwner :: int
  rmDepth :: int

text \<open>
  Where a goroutine is: outside the three methods, or at the named instruction of one of them. \<open>Lock\<close> reads the owner, then
  either counts or takes the mutex, sets the owner and sets the depth; \<open>Unlock\<close> counts down, and at zero clears the owner and
  frees the mutex; \<open>TryLockFree\<close> reads the depth, tries the mutex, sets owner and depth.
\<close>

datatype pc =
    Outside
  | LockRead | LockCount | LockTake | LockOwner | LockDepth
  | UnlockCount | UnlockOwner | UnlockFree
  | TryRead | TryTake | TryOwner | TryDepth

definition Lock_start :: pc where "Lock_start = LockRead"
definition Unlock_start :: pc where "Unlock_start = UnlockCount"
definition TryLockFree_start :: pc where "TryLockFree_start = TryRead"

text \<open>The next instruction of a goroutine with an identifier, 0 when it is not known; \<open>None\<close> while it waits.\<close>

fun Lock_step :: "int \<Rightarrow> pc \<Rightarrow> reentrantMutex \<Rightarrow> (pc \<times> reentrantMutex) option" where
  "Lock_step gid LockRead m = Some (if gid > 0 \<and> rmOwner m = gid then LockCount else LockTake, m)"
| "Lock_step gid LockCount m = Some (Outside, m\<lparr>rmDepth := to_i32 (rmDepth m + 1)\<rparr>)"
| "Lock_step gid LockTake m = (if rmLocked m then None else Some (LockOwner, m\<lparr>rmLocked := True\<rparr>))"
| "Lock_step gid LockOwner m = Some (LockDepth, m\<lparr>rmOwner := gid\<rparr>)"
| "Lock_step gid LockDepth m = Some (Outside, m\<lparr>rmDepth := 1\<rparr>)"
| "Lock_step gid _ m = None"

fun Unlock_step :: "pc \<Rightarrow> reentrantMutex \<Rightarrow> (pc \<times> reentrantMutex) option" where
  "Unlock_step UnlockCount m =
     (let d = to_i32 (rmDepth m - 1) in Some (if d > 0 then Outside else UnlockOwner, m\<lparr>rmDepth := d\<rparr>))"
| "Unlock_step UnlockOwner m = Some (UnlockFree, m\<lparr>rmOwner := 0\<rparr>)"
| "Unlock_step UnlockFree m = Some (Outside, m\<lparr>rmLocked := False\<rparr>)"
| "Unlock_step _ m = None"

fun TryLockFree_step :: "int \<Rightarrow> pc \<Rightarrow> reentrantMutex \<Rightarrow> (pc \<times> reentrantMutex) option" where
  "TryLockFree_step gid TryRead m = Some (if rmDepth m \<noteq> 0 then Outside else TryTake, m)"
| "TryLockFree_step gid TryTake m = Some (if rmLocked m then (Outside, m) else (TryOwner, m\<lparr>rmLocked := True\<rparr>))"
| "TryLockFree_step gid TryOwner m = Some (TryDepth, m\<lparr>rmOwner := gid\<rparr>)"
| "TryLockFree_step gid TryDepth m = Some (Outside, m\<lparr>rmDepth := 1\<rparr>)"
| "TryLockFree_step gid _ m = None"

definition next_step :: "int \<Rightarrow> pc \<Rightarrow> reentrantMutex \<Rightarrow> (pc \<times> reentrantMutex) option" where
  "next_step gid p m =
     (case Lock_step gid p m of Some r \<Rightarrow> Some r
      | None \<Rightarrow> case Unlock_step p m of Some r \<Rightarrow> Some r | None \<Rightarrow> TryLockFree_step gid p m)"

lemma next_step_simps [simp]:
  "next_step gid Outside m = None"
  "next_step gid LockRead m = Some (if gid > 0 \<and> rmOwner m = gid then LockCount else LockTake, m)"
  "next_step gid LockCount m = Some (Outside, m\<lparr>rmDepth := to_i32 (rmDepth m + 1)\<rparr>)"
  "next_step gid LockTake m = (if rmLocked m then None else Some (LockOwner, m\<lparr>rmLocked := True\<rparr>))"
  "next_step gid LockOwner m = Some (LockDepth, m\<lparr>rmOwner := gid\<rparr>)"
  "next_step gid LockDepth m = Some (Outside, m\<lparr>rmDepth := 1\<rparr>)"
  "next_step gid UnlockCount m =
     (let d = to_i32 (rmDepth m - 1) in Some (if d > 0 then Outside else UnlockOwner, m\<lparr>rmDepth := d\<rparr>))"
  "next_step gid UnlockOwner m = Some (UnlockFree, m\<lparr>rmOwner := 0\<rparr>)"
  "next_step gid UnlockFree m = Some (Outside, m\<lparr>rmLocked := False\<rparr>)"
  "next_step gid TryRead m = Some (if rmDepth m \<noteq> 0 then Outside else TryTake, m)"
  "next_step gid TryTake m = Some (if rmLocked m then (Outside, m) else (TryOwner, m\<lparr>rmLocked := True\<rparr>))"
  "next_step gid TryOwner m = Some (TryDepth, m\<lparr>rmOwner := gid\<rparr>)"
  "next_step gid TryDepth m = Some (Outside, m\<lparr>rmDepth := 1\<rparr>)"
  by (simp_all add: next_step_def Let_def)

section \<open>Runs\<close>

text \<open>
  For each goroutine its place and how often it holds the lock: the calls of \<open>Lock\<close> and the successful ones of \<open>TryLockFree\<close>
  that have returned, less the calls of \<open>Unlock\<close> that have counted down. A goroutine only unlocks what it holds, and does not
  nest more calls than the counter can count.
\<close>

record lock_run =
  lrMutex :: reentrantMutex
  lrPc :: "nat \<Rightarrow> pc"
  lrHolds :: "nat \<Rightarrow> nat"

definition holds_after :: "pc \<Rightarrow> pc \<Rightarrow> nat \<Rightarrow> nat" where
  "holds_after p p' n =
     (if p \<in> {LockCount, LockDepth, TryDepth} then n + 1 else if p = UnlockCount then n - 1 else n)"

inductive lock_step :: "(nat \<Rightarrow> int) \<Rightarrow> lock_run \<Rightarrow> lock_run \<Rightarrow> bool" for gid where
  call_Lock: "lrPc c g = Outside \<Longrightarrow> lrHolds c g < 2 ^ 31 - 1 \<Longrightarrow> lock_step gid c (c\<lparr>lrPc := (lrPc c)(g := Lock_start)\<rparr>)"
| call_Unlock: "lrPc c g = Outside \<Longrightarrow> lrHolds c g > 0 \<Longrightarrow> lock_step gid c (c\<lparr>lrPc := (lrPc c)(g := Unlock_start)\<rparr>)"
| call_TryLockFree: "lrPc c g = Outside \<Longrightarrow> lock_step gid c (c\<lparr>lrPc := (lrPc c)(g := TryLockFree_start)\<rparr>)"
| run: "next_step (gid g) (lrPc c g) (lrMutex c) = Some (p, m) \<Longrightarrow>
    lock_step gid c (c\<lparr>lrMutex := m, lrPc := (lrPc c)(g := p), lrHolds := (lrHolds c)(g := holds_after (lrPc c g) p (lrHolds c g))\<rparr>)"

definition lock_start :: lock_run where
  "lock_start = \<lparr>lrMutex = \<lparr>rmLocked = False, rmOwner = 0, rmDepth = 0\<rparr>, lrPc = (\<lambda>_. Outside), lrHolds = (\<lambda>_. 0)\<rparr>"

inductive lock_reachable :: "(nat \<Rightarrow> int) \<Rightarrow> lock_run \<Rightarrow> bool" for gid where
  start: "lock_reachable gid lock_start"
| step: "lock_reachable gid c \<Longrightarrow> lock_step gid c c' \<Longrightarrow> lock_reachable gid c'"

text \<open>Identifiers are not negative, and known ones are not shared.\<close>

definition ids_ok :: "(nat \<Rightarrow> int) \<Rightarrow> bool" where
  "ids_ok gid \<longleftrightarrow> (\<forall>g. 0 \<le> gid g) \<and> (\<forall>g h. gid g = gid h \<and> 0 < gid g \<longrightarrow> g = h)"

section \<open>The invariant\<close>

text \<open>A goroutine has the mutex while it holds the lock and while it sets up or clears the fields.\<close>

definition has_mutex :: "lock_run \<Rightarrow> nat \<Rightarrow> bool" where
  "has_mutex c g \<longleftrightarrow> lrHolds c g > 0 \<or> lrPc c g \<in> {LockOwner, LockDepth, TryOwner, TryDepth, UnlockOwner, UnlockFree}"

text \<open>What the fields are for the goroutine that has the mutex.\<close>

definition fields_ok :: "int \<Rightarrow> pc \<Rightarrow> nat \<Rightarrow> reentrantMutex \<Rightarrow> bool" where
  "fields_ok gid p n m \<longleftrightarrow> rmLocked m \<and>
     (if p \<in> {LockOwner, TryOwner, UnlockFree} then n = 0 \<and> rmOwner m = 0 \<and> rmDepth m = 0
      else if p \<in> {LockDepth, TryDepth, UnlockOwner} then n = 0 \<and> rmOwner m = gid \<and> rmDepth m = 0
      else 0 < n \<and> rmOwner m = gid \<and> rmDepth m = int n)"

text \<open>What a goroutine knows at its place.\<close>

definition place_ok :: "int \<Rightarrow> pc \<Rightarrow> nat \<Rightarrow> bool" where
  "place_ok gid p n \<longleftrightarrow> n < 2 ^ 31 \<and>
     (p \<in> {LockRead, LockTake, LockCount} \<longrightarrow> n < 2 ^ 31 - 1) \<and> (p = LockCount \<longrightarrow> 0 < n) \<and> (p = UnlockCount \<longrightarrow> 0 < n) \<and> (p = TryTake \<longrightarrow> n = 0) \<and>
     (p = LockTake \<and> 0 < gid \<longrightarrow> n = 0)"

definition lock_ok :: "(nat \<Rightarrow> int) \<Rightarrow> lock_run \<Rightarrow> bool" where
  "lock_ok gid c \<longleftrightarrow> (\<forall>g. place_ok (gid g) (lrPc c g) (lrHolds c g)) \<and>
     (\<forall>g h. has_mutex c g \<and> has_mutex c h \<longrightarrow> g = h) \<and>
     (\<forall>g. has_mutex c g \<longrightarrow> fields_ok (gid g) (lrPc c g) (lrHolds c g) (lrMutex c)) \<and>
     ((\<forall>g. \<not> has_mutex c g) \<longrightarrow> lrMutex c = \<lparr>rmLocked = False, rmOwner = 0, rmDepth = 0\<rparr>)"

text \<open>One goroutine moves: what is left to show about it.\<close>

definition holder_place :: "pc \<Rightarrow> nat \<Rightarrow> bool" where
  "holder_place p n \<longleftrightarrow> n > 0 \<or> p \<in> {LockOwner, LockDepth, TryOwner, TryDepth, UnlockOwner, UnlockFree}"

lemma has_mutex_place: "has_mutex c g \<longleftrightarrow> holder_place (lrPc c g) (lrHolds c g)"
  by (simp add: has_mutex_def holder_place_def)

lemma lock_ok_alone: "lock_ok gid c \<Longrightarrow> has_mutex c g \<Longrightarrow> has_mutex c h \<Longrightarrow> g = h"
  unfolding lock_ok_def by blast

lemma lock_ok_fields: "lock_ok gid c \<Longrightarrow> has_mutex c g \<Longrightarrow> fields_ok (gid g) (lrPc c g) (lrHolds c g) (lrMutex c)"
  unfolding lock_ok_def by blast

lemma lock_ok_place: "lock_ok gid c \<Longrightarrow> place_ok (gid g) (lrPc c g) (lrHolds c g)"
  unfolding lock_ok_def by blast

lemma lock_ok_idle: "lock_ok gid c \<Longrightarrow> \<forall>g. \<not> has_mutex c g \<Longrightarrow> lrMutex c = \<lparr>rmLocked = False, rmOwner = 0, rmDepth = 0\<rparr>"
  unfolding lock_ok_def by blast

lemma lock_ok_free: "lock_ok gid c \<Longrightarrow> rmLocked (lrMutex c) \<longleftrightarrow> (\<exists>g. has_mutex c g)"
  using lock_ok_fields lock_ok_idle by (cases "\<exists>g. has_mutex c g") (fastforce simp: fields_ok_def)+

lemma lock_ok_moved:
  assumes ok: "lock_ok gid c"
    and c': "c' = c\<lparr>lrMutex := m, lrPc := (lrPc c)(g := p), lrHolds := (lrHolds c)(g := n)\<rparr>"
    and place: "place_ok (gid g) p n"
    and fields: "holder_place p n \<Longrightarrow> fields_ok (gid g) p n m"
    and enters: "holder_place p n \<Longrightarrow> \<not> has_mutex c g \<Longrightarrow> \<not> rmLocked (lrMutex c)"
    and leaves: "\<not> holder_place p n \<Longrightarrow> has_mutex c g \<Longrightarrow> m = \<lparr>rmLocked = False, rmOwner = 0, rmDepth = 0\<rparr>"
    and outside: "\<not> holder_place p n \<Longrightarrow> \<not> has_mutex c g \<Longrightarrow> m = lrMutex c"
  shows "lock_ok gid c'"
proof -
  have same: "has_mutex c' h \<longleftrightarrow> (if h = g then holder_place p n else has_mutex c h)" for h
    by (simp add: c' has_mutex_place)
  have alone: "\<not> has_mutex c h" if "holder_place p n" "h \<noteq> g" for h
    using that enters lock_ok_free [OF ok] lock_ok_alone [OF ok] by blast
  have gone: "\<not> has_mutex c h" if "has_mutex c g" "h \<noteq> g" for h using lock_ok_alone [OF ok] that by blast
  have places: "place_ok (gid h) (lrPc c' h) (lrHolds c' h)" for h using ok place by (simp add: c' lock_ok_def)
  have one: "h = k" if "has_mutex c' h" "has_mutex c' k" for h k
    using that lock_ok_alone [OF ok] alone unfolding same by (metis (full_types))
  have held: "fields_ok (gid h) (lrPc c' h) (lrHolds c' h) (lrMutex c')" if "has_mutex c' h" for h
  proof (cases "h = g")
    case True
    then have "holder_place p n" using that same by simp
    then show ?thesis using fields True by (simp add: c')
  next
    case False
    then have "has_mutex c h" "\<not> holder_place p n" "\<not> has_mutex c g" using that same alone gone by (auto split: if_splits)
    then show ?thesis using lock_ok_fields [OF ok] outside False by (simp add: c')
  qed
  have none: "lrMutex c' = \<lparr>rmLocked = False, rmOwner = 0, rmDepth = 0\<rparr>" if nobody: "\<forall>h. \<not> has_mutex c' h"
  proof -
    have "\<not> has_mutex c' g" using nobody by blast
    then have out: "\<not> holder_place p n" by (simp only: same if_True simp_thms)
    show ?thesis
    proof (cases "has_mutex c g")
      case True
      then show ?thesis using out leaves by (simp add: c')
    next
      case False
      then have "\<forall>h. \<not> has_mutex c h" using nobody same by (metis (full_types))
      then show ?thesis using out lock_ok_idle [OF ok] outside False by (simp add: c')
    qed
  qed
  show ?thesis unfolding lock_ok_def using places one held none by blast
qed

lemma lock_ok_owner:
  assumes "lock_ok gid c" "ids_ok gid" "rmOwner (lrMutex c) = gid g" "0 < gid g"
  shows "has_mutex c g"
proof -
  obtain h where h: "has_mutex c h" using assms(1,3,4) by (cases "\<exists>h. has_mutex c h") (auto simp: lock_ok_def)
  then have "rmOwner (lrMutex c) = gid h \<or> rmOwner (lrMutex c) = 0"
    using assms(1) by (auto simp: lock_ok_def fields_ok_def split: if_splits)
  then have "gid h = gid g" using assms(3,4) by auto
  then show ?thesis using assms(2,4) h by (metis ids_ok_def)
qed

lemma lock_ok_run:
  assumes ok: "lock_ok gid c" and ids: "ids_ok gid"
    and s: "next_step (gid g) (lrPc c g) (lrMutex c) = Some (p, m)"
  shows "lock_ok gid (c\<lparr>lrMutex := m, lrPc := (lrPc c)(g := p), lrHolds := (lrHolds c)(g := holds_after (lrPc c g) p (lrHolds c g))\<rparr>)"
proof -
  let ?n = "lrHolds c g"
  have place: "place_ok (gid g) (lrPc c g) ?n" by (rule lock_ok_place [OF ok])
  have fields: "holder_place (lrPc c g) ?n \<Longrightarrow> fields_ok (gid g) (lrPc c g) ?n (lrMutex c)"
    using lock_ok_fields [OF ok, of g] by (simp add: has_mutex_place)
  have owner: "rmOwner (lrMutex c) = gid g \<Longrightarrow> 0 < gid g \<Longrightarrow> holder_place (lrPc c g) ?n"
    using lock_ok_owner [OF ok ids, of g] by (simp add: has_mutex_place)
  have idle: "\<not> rmLocked (lrMutex c) \<Longrightarrow> rmOwner (lrMutex c) = 0 \<and> rmDepth (lrMutex c) = 0"
    using lock_ok_free [OF ok] lock_ok_idle [OF ok] by auto
  let ?n' = "holds_after (lrPc c g) p ?n"
  have "place_ok (gid g) p ?n' \<and> (holder_place p ?n' \<longrightarrow> fields_ok (gid g) p ?n' m) \<and>
      (holder_place p ?n' \<and> \<not> holder_place (lrPc c g) ?n \<longrightarrow> \<not> rmLocked (lrMutex c)) \<and>
      (\<not> holder_place p ?n' \<and> holder_place (lrPc c g) ?n \<longrightarrow> m = \<lparr>rmLocked = False, rmOwner = 0, rmDepth = 0\<rparr>) \<and>
      (\<not> holder_place p ?n' \<and> \<not> holder_place (lrPc c g) ?n \<longrightarrow> m = lrMutex c)"
  proof (cases "holder_place (lrPc c g) ?n")
    case True
    then have "fields_ok (gid g) (lrPc c g) ?n (lrMutex c)" by (rule fields)
    then show ?thesis using True place s
      by (cases "lrPc c g")
         (auto simp: place_ok_def fields_ok_def holder_place_def holds_after_def Let_def of_nat_diff split: if_splits)
  next
    case False
    have "rmLocked (lrMutex c) \<or> (rmOwner (lrMutex c) = 0 \<and> rmDepth (lrMutex c) = 0)"
      and "rmOwner (lrMutex c) \<noteq> gid g \<or> \<not> 0 < gid g"
      using idle owner False by blast+
    then show ?thesis using False place s
      by (cases "lrPc c g")
         (auto simp: place_ok_def fields_ok_def holder_place_def holds_after_def Let_def split: if_splits)
  qed
  then show ?thesis by (intro lock_ok_moved [OF ok refl]) (auto simp: has_mutex_place)
qed

lemma lock_ok_call:
  assumes "lock_ok gid c" "lrPc c g = Outside" "p \<in> {LockRead, UnlockCount, TryRead}" "place_ok (gid g) p (lrHolds c g)"
  shows "lock_ok gid (c\<lparr>lrPc := (lrPc c)(g := p)\<rparr>)"
proof -
  have same: "holder_place p (lrHolds c g) \<longleftrightarrow> has_mutex c g" using assms(2,3) by (auto simp: has_mutex_place holder_place_def)
  have "fields_ok (gid g) p (lrHolds c g) (lrMutex c)" if "has_mutex c g"
    using lock_ok_fields [OF assms(1) that] assms(2,3) by (auto simp: fields_ok_def)
  then have "lock_ok gid (c\<lparr>lrMutex := lrMutex c, lrPc := (lrPc c)(g := p), lrHolds := (lrHolds c)(g := lrHolds c g)\<rparr>)"
    using assms(4) same by (intro lock_ok_moved [OF assms(1) refl]) auto
  then show ?thesis by simp
qed

lemma lock_step_ok:
  assumes "lock_step gid c c'" "lock_ok gid c" "ids_ok gid"
  shows "lock_ok gid c'"
  using assms(1)
proof cases
  case (run g p m)
  then show ?thesis using lock_ok_run [OF assms(2,3)] by blast
qed (use assms(2) lock_ok_place [OF assms(2)] in
  \<open>auto intro!: lock_ok_call simp: Lock_start_def Unlock_start_def TryLockFree_start_def place_ok_def less_diff_conv\<close>)

lemma lock_reachable_ok: "lock_reachable gid c \<Longrightarrow> ids_ok gid \<Longrightarrow> lock_ok gid c"
proof (induction rule: lock_reachable.induct)
  case start
  show ?case
    by (simp add: lock_ok_def lock_start_def has_mutex_def place_ok_def)
next
  case (step c c')
  then show ?case using lock_step_ok by blast
qed

section \<open>Mutual exclusion and progress\<close>

text \<open>
  C33: However the goroutines interleave, at most one of them holds the lock at a time. While one holds it, the counter is the
  number of its calls that are still open, so the lock is freed by exactly the last \<open>Unlock\<close>, and a \<open>TryLockFree\<close> of anybody,
  the holder included, fails.
\<close>

theorem lock_exclusive:
  assumes "lock_reachable gid c" "ids_ok gid" "lrHolds c g > 0"
  shows "(lrHolds c h > 0) = (h = g) \<and> rmLocked (lrMutex c) \<and> rmDepth (lrMutex c) = int (lrHolds c g) \<and>
    next_step (gid h) TryRead (lrMutex c) = Some (Outside, lrMutex c)"
proof -
  have ok: "lock_ok gid c" using lock_reachable_ok assms(1,2) by blast
  have g: "has_mutex c g" using assms(3) by (simp add: has_mutex_def)
  have "fields_ok (gid g) (lrPc c g) (lrHolds c g) (lrMutex c)" by (rule lock_ok_fields [OF ok g])
  then have "rmLocked (lrMutex c) \<and> rmDepth (lrMutex c) = int (lrHolds c g)"
    using assms(3) by (auto simp: fields_ok_def split: if_splits)
  moreover have "(lrHolds c h > 0) = (h = g)" using lock_ok_alone [OF ok g, of h] assms(3) by (auto simp: has_mutex_def)
  ultimately show ?thesis using assms(3) by simp
qed

definition waits :: "(nat \<Rightarrow> int) \<Rightarrow> lock_run \<Rightarrow> nat \<Rightarrow> bool" where
  "waits gid c g \<longleftrightarrow> lrPc c g \<noteq> Outside \<and> next_step (gid g) (lrPc c g) (lrMutex c) = None"


section \<open>A run\<close>

text \<open>A schedule as a list of actions; what is not possible is skipped.\<close>

datatype lock_action = CallLock nat | CallUnlock nat | CallTry nat | Go nat

fun act :: "(nat \<Rightarrow> int) \<Rightarrow> lock_action \<Rightarrow> lock_run \<Rightarrow> lock_run" where
  "act gid (CallLock g) c =
     (if lrPc c g = Outside \<and> lrHolds c g < 2 ^ 31 - 1 then c\<lparr>lrPc := (lrPc c)(g := Lock_start)\<rparr> else c)"
| "act gid (CallUnlock g) c = (if lrPc c g = Outside \<and> lrHolds c g > 0 then c\<lparr>lrPc := (lrPc c)(g := Unlock_start)\<rparr> else c)"
| "act gid (CallTry g) c = (if lrPc c g = Outside then c\<lparr>lrPc := (lrPc c)(g := TryLockFree_start)\<rparr> else c)"
| "act gid (Go g) c =
     (case next_step (gid g) (lrPc c g) (lrMutex c) of
        None \<Rightarrow> c
      | Some (p, m) \<Rightarrow>
          c\<lparr>lrMutex := m, lrPc := (lrPc c)(g := p), lrHolds := (lrHolds c)(g := holds_after (lrPc c g) p (lrHolds c g))\<rparr>)"

lemma act_reachable: "lock_reachable gid c \<Longrightarrow> lock_reachable gid (act gid a c)"
  by (cases a) (auto intro: lock_reachable.step lock_step.intros lock_step.call_Lock [simplified] split: option.splits)

lemma fold_act_reachable: "lock_reachable gid c \<Longrightarrow> lock_reachable gid (fold (act gid) as c)"
  by (induction "as" arbitrary: c) (auto intro: act_reachable)

definition own_ids :: "nat \<Rightarrow> int" where
  "own_ids g = int g + 1"

lemma own_ids_ok: "ids_ok own_ids"
  by (simp add: ids_ok_def own_ids_def)

text \<open>Goroutine 0 takes the lock twice, then goroutine 1 wants it.\<close>

definition nested :: lock_run where
  "nested = fold (act own_ids) [CallLock 0, Go 0, Go 0, Go 0, Go 0, CallLock 0, Go 0, Go 0, CallLock 1, Go 1] lock_start"

lemma nested_reachable: "lock_reachable own_ids nested"
  unfolding nested_def by (intro fold_act_reachable lock_reachable.start)

lemma nested_facts: "lrHolds nested 0 = 2" "lrPc nested 1 = LockTake" "rmLocked (lrMutex nested)"
  by (simp_all add: nested_def lock_start_def own_ids_def Lock_start_def holds_after_def)

theorem lock_exclusive_witness:
  "lrHolds nested 1 = 0 \<and> rmDepth (lrMutex nested) = 2 \<and> next_step 2 TryRead (lrMutex nested) = Some (Outside, lrMutex nested)"
  using lock_exclusive [OF nested_reachable own_ids_ok, of 0 1] nested_facts(1) by (simp add: own_ids_def)


end
