(* ===== verification/Worker_Pool.thy ===== *)
theory Worker_Pool
  imports Go_Prelude "HOL-Library.Multiset"
begin

text \<open>
  \<^verbatim>\<open>engine/runtime/workers.go\<close>: a fixed number of workers that take tasks from a buffered channel. Any interleaving of the
  callers, the workers and the cancellation of the parent context is a run; the result of a task is of no interest to the pool.
\<close>

section \<open>The pool\<close>

datatype 'a worker = Waiting | Running 'a | Exited

text \<open>
  The channel with its capacity, whether it is closed, whether the context is done and the workers; the callers inside of
  \<open>Submit\<close>, which hold the read lock while they select. For the theorems, the tasks in the order in which they were accepted,
  started and finished, whether \<open>Close\<close> has returned and whether the parent was cancelled.
\<close>

record 'a worker_pool =
  wpTasks :: "'a list"
  wpQueue :: nat
  wpClosed :: bool
  wpDone :: bool
  wpWorkers :: "'a worker list"
  wpSelecting :: "(nat, 'a) gomap"
  wpAccepted :: "'a list"
  wpStarted :: "'a list"
  wpFinished :: "'a list"
  wpCloseReturned :: bool
  wpParentDone :: bool

definition NewWorkerPool :: "bool \<Rightarrow> int \<Rightarrow> int \<Rightarrow> 'a worker_pool" where
  "NewWorkerPool parentDone workers queue =
     (let workers = (if workers < 1 then 1 else workers);
          queue = (if queue < workers then workers else queue) in
      \<lparr>wpTasks = [], wpQueue = nat queue, wpClosed = False, wpDone = parentDone, wpWorkers = replicate (nat workers) Waiting,
       wpSelecting = [], wpAccepted = [], wpStarted = [], wpFinished = [], wpCloseReturned = False,
       wpParentDone = parentDone\<rparr>)"

section \<open>Submit\<close>

datatype submit_result = SubmitOk | SubmitNilTask | SubmitClosed | SubmitCancelled | SubmitPanic

text \<open>Up to the select: the errors that return at once, or the caller selects. A nil task is \<open>None\<close>.\<close>

definition Submit_enter :: "nat \<Rightarrow> 'a option \<Rightarrow> 'a worker_pool \<Rightarrow> submit_result + 'a worker_pool" where
  "Submit_enter i task p =
     (case task of
        None \<Rightarrow> Inl SubmitNilTask
      | Some t \<Rightarrow> if wpClosed p then Inl SubmitClosed else Inr (p\<lparr>wpSelecting := gput i t (wpSelecting p)\<rparr>))"

definition leave :: "nat \<Rightarrow> 'a worker_pool \<Rightarrow> 'a worker_pool" where
  "leave i p = p\<lparr>wpSelecting := gdel i (wpSelecting p)\<rparr>"

text \<open>The two arms of the select, \<open>None\<close> while an arm is not ready. To send on a closed channel panics.\<close>

definition Submit_send :: "nat \<Rightarrow> 'a worker_pool \<Rightarrow> (submit_result \<times> 'a worker_pool) option" where
  "Submit_send i p =
     (case gget (wpSelecting p) i of
        None \<Rightarrow> None
      | Some t \<Rightarrow>
          if wpClosed p then Some (SubmitPanic, p)
          else if length (wpTasks p) < wpQueue p
            then Some (SubmitOk, leave i p\<lparr>wpTasks := wpTasks p @ [t], wpAccepted := wpAccepted p @ [t]\<rparr>)
          else None)"

definition Submit_done :: "nat \<Rightarrow> 'a worker_pool \<Rightarrow> (submit_result \<times> 'a worker_pool) option" where
  "Submit_done i p =
     (case gget (wpSelecting p) i of None \<Rightarrow> None | Some t \<Rightarrow> if wpDone p then Some (SubmitCancelled, leave i p) else None)"

section \<open>Close and the workers\<close>

text \<open>The write lock is free of readers when nobody selects. \<open>Close\<close> returns when every worker has exited.\<close>

definition Close_enter :: "'a worker_pool \<Rightarrow> 'a worker_pool option" where
  "Close_enter p = (if wpSelecting p = [] then Some (if \<not> wpClosed p then p\<lparr>wpClosed := True\<rparr> else p) else None)"

definition Close_wait :: "'a worker_pool \<Rightarrow> 'a worker_pool option" where
  "Close_wait p =
     (if wpClosed p \<and> (\<forall>w \<in> set (wpWorkers p). w = Exited) then Some (p\<lparr>wpDone := True, wpCloseReturned := True\<rparr>) else None)"

definition set_worker :: "nat \<Rightarrow> 'a worker \<Rightarrow> 'a worker_pool \<Rightarrow> 'a worker_pool" where
  "set_worker k w p = p\<lparr>wpWorkers := (wpWorkers p)[k := w]\<rparr>"

text \<open>The select of a worker: a task, the end of a closed and empty channel, or the end of the context. Then the task runs.\<close>

definition worker_receive :: "nat \<Rightarrow> 'a worker_pool \<Rightarrow> 'a worker_pool option" where
  "worker_receive k p =
     (if k < length (wpWorkers p) \<and> wpWorkers p ! k = Waiting then
        (case wpTasks p of
           t # ts \<Rightarrow> Some (set_worker k (Running t) p\<lparr>wpTasks := ts, wpStarted := wpStarted p @ [t]\<rparr>)
         | [] \<Rightarrow> if wpClosed p then Some (set_worker k Exited p) else None)
      else None)"

definition worker_done :: "nat \<Rightarrow> 'a worker_pool \<Rightarrow> 'a worker_pool option" where
  "worker_done k p =
     (if k < length (wpWorkers p) \<and> wpWorkers p ! k = Waiting \<and> wpDone p then Some (set_worker k Exited p) else None)"

definition worker_finish :: "nat \<Rightarrow> 'a worker_pool \<Rightarrow> 'a worker_pool option" where
  "worker_finish k p =
     (if k < length (wpWorkers p) then
        (case wpWorkers p ! k of
           Running t \<Rightarrow> Some (set_worker k Waiting p\<lparr>wpFinished := wpFinished p @ [t]\<rparr>)
         | _ \<Rightarrow> None)
      else None)"

section \<open>Runs\<close>

inductive pool_step :: "'a worker_pool \<Rightarrow> 'a worker_pool \<Rightarrow> bool" where
  submit: "gget (wpSelecting p) i = None \<Longrightarrow> Submit_enter i task p = Inr p' \<Longrightarrow> pool_step p p'"
| send: "Submit_send i p = Some (r, p') \<Longrightarrow> pool_step p p'"
| cancelled: "Submit_done i p = Some (r, p') \<Longrightarrow> pool_step p p'"
| close: "Close_enter p = Some p' \<Longrightarrow> pool_step p p'"
| closed: "Close_wait p = Some p' \<Longrightarrow> pool_step p p'"
| cancel: "pool_step p (p\<lparr>wpDone := True, wpParentDone := True\<rparr>)"
| receive: "worker_receive k p = Some p' \<Longrightarrow> pool_step p p'"
| worker_done: "worker_done k p = Some p' \<Longrightarrow> pool_step p p'"
| finish: "worker_finish k p = Some p' \<Longrightarrow> pool_step p p'"

inductive pool_reachable :: "'a worker_pool \<Rightarrow> 'a worker_pool \<Rightarrow> bool" for p0 where
  start: "pool_reachable p0 p0"
| step: "pool_reachable p0 p \<Longrightarrow> pool_step p p' \<Longrightarrow> pool_reachable p0 p'"

section \<open>The invariant\<close>

definition in_work :: "'a worker list \<Rightarrow> 'a multiset" where
  "in_work ws = mset (concat (map (\<lambda>w. case w of Running t \<Rightarrow> [t] | _ \<Rightarrow> []) ws))"

definition pool_ok :: "'a worker_pool \<Rightarrow> bool" where
  "pool_ok p \<longleftrightarrow> wpAccepted p = wpStarted p @ wpTasks p \<and> length (wpTasks p) \<le> wpQueue p \<and> 0 < wpQueue p \<and> wpWorkers p \<noteq> [] \<and>
     mset (wpStarted p) = mset (wpFinished p) + in_work (wpWorkers p) \<and>
     (wpClosed p \<longrightarrow> wpSelecting p = []) \<and>
     (wpDone p \<longrightarrow> wpParentDone p \<or> wpCloseReturned p) \<and>
     (wpCloseReturned p \<longrightarrow> wpClosed p \<and> (\<forall>w \<in> set (wpWorkers p). w = Exited)) \<and>
     (Exited \<in> set (wpWorkers p) \<longrightarrow> wpParentDone p \<or> (wpClosed p \<and> wpTasks p = []))"

lemma in_work_update:
  assumes "k < length ws"
  shows "in_work (ws[k := w]) + in_work [ws ! k] = in_work ws + in_work [w]"
  using assms by (induction ws arbitrary: k) (auto simp: in_work_def nth_Cons split: nat.splits)

lemma in_work_simps [simp]: "in_work [Waiting] = {#}" "in_work [Running t] = {#t#}" "in_work [Exited] = {#}"
  by (simp_all add: in_work_def)

lemma leave_fields [simp]:
  "wpTasks (leave i p) = wpTasks p" "wpQueue (leave i p) = wpQueue p" "wpClosed (leave i p) = wpClosed p"
  "wpDone (leave i p) = wpDone p" "wpWorkers (leave i p) = wpWorkers p" "wpAccepted (leave i p) = wpAccepted p"
  "wpStarted (leave i p) = wpStarted p" "wpFinished (leave i p) = wpFinished p"
  "wpCloseReturned (leave i p) = wpCloseReturned p" "wpParentDone (leave i p) = wpParentDone p"
  "wpSelecting (leave i p) = gdel i (wpSelecting p)"
  by (simp_all add: leave_def)

lemma gdel_Nil [simp]: "gdel i [] = []"
  by (simp add: gdel_def)

lemma pool_ok_leave: "pool_ok p \<Longrightarrow> pool_ok (leave i p)"
  by (auto simp: pool_ok_def)

lemma pool_ok_worker:
  assumes "pool_ok p" "k < length (wpWorkers p)" "wpWorkers p ! k = Waiting \<or> (\<exists>t. wpWorkers p ! k = Running t)"
  shows "\<not> wpCloseReturned p" "in_work ((wpWorkers p)[k := w]) + in_work [wpWorkers p ! k] = in_work (wpWorkers p) + in_work [w]"
proof -
  have "wpWorkers p ! k \<noteq> Exited" "wpWorkers p ! k \<in> set (wpWorkers p)" using assms(2,3) by auto
  then show "\<not> wpCloseReturned p" using assms(1) unfolding pool_ok_def by metis
  show "in_work ((wpWorkers p)[k := w]) + in_work [wpWorkers p ! k] = in_work (wpWorkers p) + in_work [w]"
    by (rule in_work_update [OF assms(2)])
qed

lemma exited_update: "Exited \<in> set (ws[k := w]) \<Longrightarrow> w \<noteq> Exited \<Longrightarrow> Exited \<in> set ws"
  using set_update_subset_insert [of ws k w] by auto

lemma worker_receive_ok:
  assumes "pool_ok p" "worker_receive k p = Some p'"
  shows "pool_ok p'"
proof -
  have k: "k < length (wpWorkers p)" "wpWorkers p ! k = Waiting"
    using assms(2) by (auto simp: worker_receive_def split: if_splits)
  note w = pool_ok_worker [OF assms(1) k(1)]
  show ?thesis
  proof (cases "wpTasks p")
    case Nil
    then have "wpClosed p" "p' = set_worker k Exited p"
      using assms(2) by (auto simp: worker_receive_def split: if_splits)
    then show ?thesis using assms(1) w k Nil by (auto simp: pool_ok_def set_worker_def)
  next
    case (Cons t ts)
    then have "p' = set_worker k (Running t) p\<lparr>wpTasks := ts, wpStarted := wpStarted p @ [t]\<rparr>"
      using assms(2) by (auto simp: worker_receive_def split: if_splits)
    then show ?thesis using assms(1) w k Cons
      by (auto simp: pool_ok_def set_worker_def dest: exited_update)
  qed
qed

lemma worker_done_ok:
  assumes "pool_ok p" "worker_done k p = Some p'"
  shows "pool_ok p'"
proof -
  have k: "k < length (wpWorkers p)" "wpWorkers p ! k = Waiting" "wpDone p" "p' = set_worker k Exited p"
    using assms(2) by (auto simp: worker_done_def split: if_splits)
  then show ?thesis using assms(1) pool_ok_worker [OF assms(1) k(1)] by (auto simp: pool_ok_def set_worker_def)
qed

lemma worker_finish_ok:
  assumes "pool_ok p" "worker_finish k p = Some p'"
  shows "pool_ok p'"
proof -
  obtain t where k: "k < length (wpWorkers p)" "wpWorkers p ! k = Running t"
      "p' = set_worker k Waiting p\<lparr>wpFinished := wpFinished p @ [t]\<rparr>"
    using assms(2) by (auto simp: worker_finish_def split: if_splits worker.splits)
  have "in_work ((wpWorkers p)[k := Waiting]) + {#t#} = in_work (wpWorkers p)"
    using pool_ok_worker(2) [OF assms(1) k(1), of Waiting] k(2) by simp
  then show ?thesis using assms(1) pool_ok_worker(1) [OF assms(1) k(1)] k
    by (auto simp: pool_ok_def set_worker_def ac_simps dest: exited_update)
qed

lemma pool_step_ok:
  assumes "pool_step p p'" "pool_ok p"
  shows "pool_ok p'"
  using assms(1)
proof cases
  case (submit i task)
  then show ?thesis using assms(2) by (auto simp: Submit_enter_def pool_ok_def split: option.splits if_splits)
next
  case (send i r)
  then show ?thesis using assms(2) by (auto simp: Submit_send_def pool_ok_def split: option.splits if_splits)
next
  case (cancelled i r)
  then show ?thesis using assms(2) pool_ok_leave by (auto simp: Submit_done_def split: option.splits if_splits)
next
  case close
  then show ?thesis using assms(2) by (auto simp: Close_enter_def pool_ok_def split: if_splits)
next
  case closed
  then show ?thesis using assms(2) by (auto simp: Close_wait_def pool_ok_def split: if_splits)
next
  case cancel
  then show ?thesis using assms(2) by (auto simp: pool_ok_def)
qed (use assms(2) worker_receive_ok worker_done_ok worker_finish_ok in blast)+

lemma pool_start_ok: "pool_ok (NewWorkerPool parentDone workers queue)"
  by (auto simp: pool_ok_def NewWorkerPool_def Let_def in_work_def)

lemma pool_reachable_ok: "pool_reachable (NewWorkerPool parentDone workers queue) p \<Longrightarrow> pool_ok p"
  by (induction rule: pool_reachable.induct) (auto intro: pool_start_ok pool_step_ok)

text \<open>
  C34: Tasks start in the order in which they were accepted, each at most once, and none is lost between the channel and a
  worker. Nobody sends on the closed channel. When \<open>Close\<close> has returned and the parent context was not cancelled, every
  accepted task has been run to its end.
\<close>

theorem Close_drains:
  assumes "pool_reachable (NewWorkerPool parentDone workers queue) p"
  shows "wpAccepted p = wpStarted p @ wpTasks p \<and> mset (wpStarted p) = mset (wpFinished p) + in_work (wpWorkers p) \<and>
    Submit_send i p \<noteq> Some (SubmitPanic, p) \<and>
    (if wpCloseReturned p \<and> \<not> wpParentDone p then mset (wpFinished p) = mset (wpAccepted p) else True)"
proof -
  have ok: "pool_ok p" by (rule pool_reachable_ok [OF assms])
  have none: "gget (wpSelecting p) i = None" if "wpClosed p" using ok that by (simp add: pool_ok_def)
  have "mset (wpFinished p) = mset (wpAccepted p)" if "wpCloseReturned p" "\<not> wpParentDone p"
  proof -
    have exited: "\<forall>w \<in> set (wpWorkers p). w = Exited" "wpWorkers p \<noteq> []" using ok that by (simp_all add: pool_ok_def)
    then have "Exited \<in> set (wpWorkers p)" by (cases "wpWorkers p") auto
    then have "wpTasks p = []" using ok that by (simp add: pool_ok_def)
    moreover have "in_work (wpWorkers p) = {#}" using exited(1) by (induction "wpWorkers p") (auto simp: in_work_def)
    ultimately show ?thesis using ok by (simp add: pool_ok_def)
  qed
  then show ?thesis using ok none by (auto simp: pool_ok_def Submit_send_def split: option.splits if_splits)
qed

section \<open>Two runs\<close>

text \<open>A schedule as a list of actions; what is not possible is skipped.\<close>

datatype 'a pool_action =
  ASubmit nat 'a | ASend nat | AGiveUp nat | AClose | ACloseWait | ACancel | AReceive nat | ADone nat | AFinish nat

definition or_same :: "'a worker_pool \<Rightarrow> 'a worker_pool option \<Rightarrow> 'a worker_pool" where
  "or_same p r = (case r of Some p' \<Rightarrow> p' | None \<Rightarrow> p)"

fun pool_act :: "'a pool_action \<Rightarrow> 'a worker_pool \<Rightarrow> 'a worker_pool" where
  "pool_act (ASubmit i t) p =
     (if gget (wpSelecting p) i = None then (case Submit_enter i (Some t) p of Inr p' \<Rightarrow> p' | Inl e \<Rightarrow> p) else p)"
| "pool_act (ASend i) p = or_same p (map_option snd (Submit_send i p))"
| "pool_act (AGiveUp i) p = or_same p (map_option snd (Submit_done i p))"
| "pool_act AClose p = or_same p (Close_enter p)"
| "pool_act ACloseWait p = or_same p (Close_wait p)"
| "pool_act ACancel p = p\<lparr>wpDone := True, wpParentDone := True\<rparr>"
| "pool_act (AReceive k) p = or_same p (worker_receive k p)"
| "pool_act (ADone k) p = or_same p (worker_done k p)"
| "pool_act (AFinish k) p = or_same p (worker_finish k p)"

lemma pool_act_reachable: "pool_reachable p0 p \<Longrightarrow> pool_reachable p0 (pool_act a p)"
  by (cases a) (auto intro: pool_reachable.step pool_step.intros simp: or_same_def split: option.splits sum.splits)

lemma fold_pool_act: "pool_reachable p0 p \<Longrightarrow> pool_reachable p0 (fold pool_act as p)"
  by (induction "as" arbitrary: p) (auto intro: pool_act_reachable)

text \<open>One worker and one task: accepted, closed, run.\<close>

definition drained :: "nat worker_pool" where
  "drained = fold pool_act [ASubmit 0 7, ASend 0, AClose, AReceive 0, AFinish 0, AReceive 0, ACloseWait] (NewWorkerPool False 0 0)"

lemma drained_value: "drained =
    \<lparr>wpTasks = [], wpQueue = 1, wpClosed = True, wpDone = True, wpWorkers = [Exited], wpSelecting = [],
     wpAccepted = [7], wpStarted = [7], wpFinished = [7], wpCloseReturned = True, wpParentDone = False\<rparr>"
  by code_simp

lemma drained_reachable: "pool_reachable (NewWorkerPool False 0 0) drained"
  unfolding drained_def by (intro fold_pool_act pool_reachable.start)

theorem Close_drains_witness: "mset (wpFinished drained) = {#7#}"
  using Close_drains [OF drained_reachable, of 0] by (simp add: drained_value)

text \<open>The parent is cancelled, the only worker exits, and a caller is in the select.\<close>

definition deserted :: "nat worker_pool" where
  "deserted = fold pool_act [ACancel, ADone 0, ASubmit 0 7] (NewWorkerPool False 1 1)"

lemma deserted_value: "deserted =
    \<lparr>wpTasks = [], wpQueue = 1, wpClosed = False, wpDone = True, wpWorkers = [Exited], wpSelecting = [(0, 7)],
     wpAccepted = [], wpStarted = [], wpFinished = [], wpCloseReturned = False, wpParentDone = True\<rparr>"
  by code_simp

lemma exited_pool:
  assumes "pool_reachable p0 p" "\<forall>w \<in> set (wpWorkers p0). w = Exited"
  shows "wpWorkers p = wpWorkers p0 \<and> wpStarted p = wpStarted p0"
  using assms(1)
proof (induction rule: pool_reachable.induct)
  case (step p p')
  then have all: "\<forall>w \<in> set (wpWorkers p). w = Exited" using assms(2) by simp
  then have nth: "wpWorkers p ! k = Exited" if "k < length (wpWorkers p)" for k using that by simp
  from step.hyps(2) have "wpWorkers p' = wpWorkers p \<and> wpStarted p' = wpStarted p"
    using nth
    by cases (auto simp: Submit_enter_def Submit_send_def Submit_done_def Close_enter_def Close_wait_def worker_receive_def
        worker_done_def worker_finish_def leave_def split: option.splits if_splits)
  then show ?case using step.IH by simp
qed simp

text \<open>
  C36: After the parent context is cancelled \<open>Submit\<close> can still report success: both arms of its select are ready. The task then
  stays in the channel, no worker ever starts it, and nobody is told.
\<close>

theorem submitted_task_lost:
  "\<exists>p p'. pool_reachable (NewWorkerPool False 1 1) p \<and> wpDone p \<and> Submit_send 0 p = Some (SubmitOk, p') \<and>
     wpAccepted p' = [7 :: nat] \<and> {q. pool_reachable p' q \<and> wpStarted q \<noteq> []} = {}"
proof (intro exI conjI)
  show "pool_reachable (NewWorkerPool False 1 1) deserted"
    unfolding deserted_def by (intro fold_pool_act pool_reachable.start)
  show "wpDone deserted" by (simp add: deserted_value Submit_send_def leave_def gget_def)
  let ?p = "leave 0 deserted\<lparr>wpTasks := [7], wpAccepted := [7]\<rparr>"
  show "Submit_send 0 deserted = Some (SubmitOk, ?p)" by (simp add: deserted_value Submit_send_def leave_def gget_def)
  show "wpAccepted ?p = [7]" by simp
  have "\<forall>w \<in> set (wpWorkers ?p). w = Exited" "wpStarted ?p = []" by (simp_all add: deserted_value Submit_send_def leave_def gget_def)
  then show "{q. pool_reachable ?p q \<and> wpStarted q \<noteq> []} = {}" using exited_pool [of ?p] by auto
qed

end
