(* ===== verification/Go_Double.thy ===== *)
theory Go_Double
  imports Go_Float
begin

text \<open>
  Arithmetic of \<open>float64\<close>, as \<open>Go_Float\<close> has that of \<open>float32\<close>: a value is counted in units of \<open>2 ^ - 1074\<close>, an operation is exact
  arithmetic followed by rounding to 53 significant bits, ties to even, and from \<open>2 ^ 1024\<close> on it is an infinity. The modelled
  code makes no NaN: it divides by a constant, and its factors are finite.
\<close>

type_synonym f64v = int

definition f64_unit :: int where "f64_unit = 2 ^ 1074"

definition f64_inf :: f64v where "f64_inf = 2 ^ 2098"

text \<open>The quotient \<open>p / d\<close>, rounded: the binade of a quotient is that of its integer part.\<close>

definition quot_even :: "int \<Rightarrow> int \<Rightarrow> int" where
  "quot_even p d =
     (let q = p div d; r = p mod d in if 2 * r > d \<or> 2 * r = d \<and> odd q then q + 1 else q)"

definition f64_mag :: "int \<Rightarrow> int \<Rightarrow> f64v" where
  "f64_mag p d = (let e = nat (bitlen (p div d) - 53) in min f64_inf (quot_even p (d * 2 ^ e) * 2 ^ e))"

definition f64_quot :: "int \<Rightarrow> int \<Rightarrow> f64v" where
  "f64_quot p d = (if p < 0 then - f64_mag (- p) d else f64_mag p d)"

definition f64_of_int :: "int \<Rightarrow> f64v" where
  "f64_of_int n = f64_quot (n * f64_unit) 1"

definition f64_add :: "f64v \<Rightarrow> f64v \<Rightarrow> f64v" where
  "f64_add a b = (if \<bar>a\<bar> = f64_inf then a else if \<bar>b\<bar> = f64_inf then b else f64_quot (a + b) 1)"

definition f64_mul :: "f64v \<Rightarrow> f64v \<Rightarrow> f64v" where
  "f64_mul a b = (if \<bar>a\<bar> = f64_inf \<or> \<bar>b\<bar> = f64_inf then sgn a * sgn b * f64_inf else f64_quot (a * b) f64_unit)"

text \<open>Division by a positive number.\<close>

definition f64_div :: "f64v \<Rightarrow> f64v \<Rightarrow> f64v" where
  "f64_div a b = (if \<bar>a\<bar> = f64_inf then a else f64_quot (a * f64_unit) b)"

text \<open>Conversion to \<open>int32\<close> truncates; what does not fit becomes the least value, as amd64 computes it.\<close>

definition f64_to_i32 :: "f64v \<Rightarrow> int" where
  "f64_to_i32 a =
     (let n = sgn a * (\<bar>a\<bar> div f64_unit) in if - (2 ^ 31) \<le> n \<and> n < 2 ^ 31 then n else - (2 ^ 31))"

text \<open>Conversion to \<open>uint32\<close> of a value below \<open>2 ^ 63\<close>: the low bits of the integer part.\<close>

definition f64_to_u32 :: "f64v \<Rightarrow> u32" where
  "f64_to_u32 a = word_of_int (sgn a * (\<bar>a\<bar> div f64_unit))"

section \<open>Small integers are exact\<close>

lemma quot_even_exact [simp]: "d > 0 \<Longrightarrow> quot_even (q * d) d = q"
  by (simp add: quot_even_def)

lemma quot_even_multiple: "d > 0 \<Longrightarrow> x = k * d \<Longrightarrow> quot_even x d * d = x"
  by simp

lemma quot_even_scale:
  assumes "u > 0"
  shows "quot_even (u * p) (u * w) = quot_even p w"
proof -
  have "(2 * (u * (p mod w)) > u * w) = (2 * (p mod w) > w)"
    using assms mult_less_cancel_left_pos [of u w "2 * (p mod w)"] by (simp add: mult.left_commute)
  moreover have "(2 * (u * (p mod w)) = u * w) = (2 * (p mod w) = w)"
    using assms mult_cancel_left [of u "2 * (p mod w)" w] by (simp add: mult.left_commute)
  ultimately show ?thesis using assms by (simp add: quot_even_def Let_def mod_mult_mult1)
qed

text \<open>A quotient with 53 bits before the binary point, moved by a power of two.\<close>

lemma f64_mag_binade:
  assumes "d > 0" "2 ^ (52 + e) * d \<le> p" "p < 2 ^ (53 + e) * d"
  shows "f64_mag p d = min f64_inf (quot_even p (d * 2 ^ e) * 2 ^ e)"
proof -
  have low: "2 ^ (52 + e) \<le> p div d" using assms(1,2) by (metis mult.commute zdiv_mono1 nonzero_mult_div_cancel_left less_irrefl)
  have "p div d * d \<le> p" using assms(1) pos_mod_sign [of d p] by (simp add: minus_mod_eq_div_mult [symmetric])
  then have "p div d * d < 2 ^ (53 + e) * d" using assms(3) by linarith
  then have high: "p div d < 2 ^ (53 + e)" using assms(1) by (simp only: mult_less_cancel_right_pos)
  have "bitlen (p div d) \<le> int (53 + e)" using bitlen_le_iff_power [of "p div d" "53 + e"] high by (simp add: nat_add_distrib)
  moreover have "\<not> bitlen (p div d) \<le> int (52 + e)" using bitlen_le_iff_power [of "p div d" "52 + e"] low by (simp add: nat_add_distrib)
  ultimately have "nat (bitlen (p div d) - 53) = e" by simp
  then show ?thesis by (simp add: f64_mag_def Let_def)
qed

lemma f64_mag_exact:
  assumes "0 < m" "m < 2 ^ 53" "k \<le> 2000"
  shows "f64_mag (m * 2 ^ k) 1 = m * 2 ^ k"
proof -
  let ?e = "nat (bitlen (m * 2 ^ k) - 53)"
  have "m * 2 ^ k < 2 ^ 53 * 2 ^ k" using assms by (intro mult_strict_right_mono) simp_all
  then have "bitlen (m * 2 ^ k) \<le> 53 + int k" using bitlen_le_iff_power [of "m * 2 ^ k" "53 + k"] by (simp add: power_add nat_add_distrib)
  then have "?e \<le> k" by simp
  then have "(2::int) ^ k = 2 ^ (k - ?e) * 2 ^ ?e" by (simp flip: power_add)
  then have "m * 2 ^ k = (m * 2 ^ (k - ?e)) * 2 ^ ?e" by (metis mult.assoc)
  then have "quot_even (m * 2 ^ k) (2 ^ ?e) * 2 ^ ?e = m * 2 ^ k" by (rule quot_even_multiple [rotated]) simp
  moreover have "m * 2 ^ k \<le> f64_inf"
  proof -
    have "m * 2 ^ k \<le> 2 ^ 53 * 2 ^ 2000" using assms by (intro mult_mono power_increasing) simp_all
    also have "\<dots> \<le> f64_inf" unfolding f64_inf_def power_add [symmetric] by (rule power_increasing) simp_all
    finally show ?thesis .
  qed
  ultimately show ?thesis by (simp add: f64_mag_def Let_def)
qed

lemma f64_quot_of_int:
  assumes "\<bar>n\<bar> < 2 ^ 53"
  shows "f64_quot (n * f64_unit) 1 = n * f64_unit"
proof -
  have mag: "f64_mag (m * f64_unit) 1 = m * f64_unit" if m: "0 \<le> m" "m < 2 ^ 53" for m
    using m f64_mag_exact [of m 1074]
    by (cases "m = 0") (simp_all add: f64_unit_def, simp add: f64_mag_def quot_even_def f64_inf_def Let_def)
  show ?thesis
  proof (cases "n < 0")
    case True
    then have "n * f64_unit < 0" by (simp add: f64_unit_def mult_neg_pos)
    then show ?thesis using mag [of "- n"] assms True by (simp add: f64_quot_def)
  next
    case False
    then have "\<not> n * f64_unit < 0" by (simp add: f64_unit_def mult_less_0_iff)
    then show ?thesis using mag [of n] assms False by (simp add: f64_quot_def)
  qed
qed

lemma f64_of_int_exact: "\<bar>n\<bar> < 2 ^ 53 \<Longrightarrow> f64_of_int n = n * f64_unit"
  by (simp add: f64_of_int_def f64_quot_of_int)

lemma f64_small_finite: "\<bar>n\<bar> < 2 ^ 53 \<Longrightarrow> \<bar>n * f64_unit\<bar> \<noteq> f64_inf"
proof -
  assume n: "\<bar>n\<bar> < 2 ^ 53"
  have "\<bar>n * f64_unit\<bar> = \<bar>n\<bar> * f64_unit" by (simp add: f64_unit_def abs_mult)
  also have "\<dots> < 2 ^ 1024 * f64_unit" using n by (intro mult_strict_right_mono) (auto simp: f64_unit_def)
  finally show ?thesis by (simp add: f64_unit_def f64_inf_def flip: power_add)
qed

lemma f64_mul_of_int:
  assumes "\<bar>n\<bar> < 2 ^ 53" "\<bar>m\<bar> < 2 ^ 53" "\<bar>n * m\<bar> < 2 ^ 53"
  shows "f64_mul (f64_of_int n) (f64_of_int m) = f64_of_int (n * m)"
proof -
  have "f64_quot (k * f64_unit * f64_unit) f64_unit = f64_quot (k * f64_unit) 1" for k
  proof -
    have pos: "f64_unit > 0" by (simp add: f64_unit_def)
    have "f64_mag (p * f64_unit) f64_unit = f64_mag p 1" for p
      using pos quot_even_scale [OF pos, of p] by (simp add: f64_mag_def Let_def mult.commute [of p])
    then show ?thesis using pos by (simp add: f64_quot_def mult_less_0_iff flip: mult_minus_left)
  qed
  from this [of "n * m"] have "f64_quot (n * f64_unit * (m * f64_unit)) f64_unit = n * m * f64_unit"
    using f64_quot_of_int [OF assms(3)] by (simp only: mult.assoc mult.left_commute)
  then show ?thesis using f64_small_finite [OF assms(1)] f64_small_finite [OF assms(2)]
    by (simp only: f64_mul_def f64_of_int_exact [OF assms(1)] f64_of_int_exact [OF assms(2)] f64_of_int_exact [OF assms(3)]
        simp_thms if_False)
qed

lemma f64_to_i32_of_int: "- (2 ^ 31) \<le> n \<Longrightarrow> n < 2 ^ 31 \<Longrightarrow> f64_to_i32 (f64_of_int n) = n"
proof -
  assume n: "- (2 ^ 31) \<le> n" "n < 2 ^ 31"
  have pos: "f64_unit > 0" by (simp add: f64_unit_def)
  have "\<bar>n\<bar> < 2 ^ 53" using n by simp
  then have "f64_of_int n = n * f64_unit" by (rule f64_of_int_exact)
  moreover have "sgn (n * f64_unit) * (\<bar>n * f64_unit\<bar> div f64_unit) = n"
    using pos by (simp add: abs_mult sgn_mult mult_sgn_abs)
  ultimately show ?thesis using n by (simp add: f64_to_i32_def Let_def)
qed

lemma f64_quot_exact:
  assumes "p = m * 2 ^ k * d" "0 < d" "0 < m" "m < 2 ^ 53" "k \<le> 2000"
  shows "f64_quot p d = m * 2 ^ k"
proof -
  have "f64_mag p d = f64_mag (m * 2 ^ k) 1"
    using assms(1,2) quot_even_scale [OF assms(2), of "m * 2 ^ k"] by (simp add: f64_mag_def Let_def mult.commute [of _ d])
  moreover have "\<not> p < 0" using assms(1-3) by (simp add: mult_less_0_iff)
  ultimately show ?thesis using f64_mag_exact [OF assms(3-5)] by (simp add: f64_quot_def)
qed

section \<open>Rounding does not pass a small integer\<close>

lemma quot_even_le:
  assumes "w > 0" "p \<le> k * w"
  shows "quot_even p w \<le> k"
proof -
  have "p div w \<le> k" using zdiv_mono1 [OF assms(2,1)] assms(1) by simp
  moreover have "p mod w = 0" if "p div w = k"
  proof -
    have "p = k * w + p mod w" using div_mult_mod_eq [of p w] that by simp
    then show ?thesis using assms pos_mod_sign [of w p] by linarith
  qed
  ultimately show ?thesis using assms(1) by (cases "p div w = k") (auto simp: quot_even_def Let_def)
qed

lemma quot_even_nonneg: "w > 0 \<Longrightarrow> 0 \<le> p \<Longrightarrow> 0 \<le> quot_even p w"
  by (auto simp: quot_even_def Let_def pos_imp_zdiv_nonneg_iff intro: add_nonneg_nonneg)

lemma f64_mag_nonneg: "d > 0 \<Longrightarrow> 0 \<le> p \<Longrightarrow> 0 \<le> f64_mag p d"
  by (simp add: f64_mag_def Let_def f64_inf_def quot_even_nonneg)

lemma f64_mag_le:
  assumes "d > 0" "0 \<le> p" "p \<le> n * f64_unit * d" "n < 2 ^ 53"
  shows "f64_mag p d \<le> n * f64_unit"
proof (cases "n \<le> 0")
  case True
  have "n * (f64_unit * d) \<le> 0" using True assms(1) by (intro mult_nonpos_nonneg) (simp_all add: f64_unit_def)
  then have "p = 0" using assms(2,3) by (simp add: mult.assoc)
  then have "0 \<le> n" using assms(1,3) by (simp add: f64_unit_def zero_le_mult_iff)
  then have "n = 0" using True by simp
  then show ?thesis using \<open>p = 0\<close> assms(1) by (simp add: f64_mag_def quot_even_def f64_inf_def Let_def)
next
  case False
  let ?e = "nat (bitlen (p div d) - 53)"
  have "p div d \<le> n * f64_unit" using zdiv_mono1 [OF assms(3,1)] assms(1) by simp
  also have "\<dots> < 2 ^ 53 * 2 ^ 1074" unfolding f64_unit_def using assms(4) by (intro mult_strict_right_mono) simp_all
  finally have "bitlen (p div d) \<le> 53 + 1074"
    using bitlen_le_iff_power [of "p div d" "53 + 1074"] by (simp add: power_add)
  then have "?e \<le> 1074" by simp
  then have "f64_unit = 2 ^ (1074 - ?e) * 2 ^ ?e" by (simp add: f64_unit_def flip: power_add)
  then have n: "n * f64_unit = n * 2 ^ (1074 - ?e) * 2 ^ ?e" by (metis mult.assoc)
  have "p \<le> n * 2 ^ (1074 - ?e) * (d * 2 ^ ?e)" using assms(3) n by (simp only: mult.assoc mult.commute [of d])
  then have "quot_even p (d * 2 ^ ?e) \<le> n * 2 ^ (1074 - ?e)" using assms(1) by (intro quot_even_le) simp_all
  then have "quot_even p (d * 2 ^ ?e) * 2 ^ ?e \<le> n * f64_unit" unfolding n by (rule mult_right_mono) simp
  then show ?thesis by (simp add: f64_mag_def Let_def min_le_iff_disj)
qed

text \<open>A part of a number: scaled by a quotient of at most 1, it does not grow.\<close>

lemma f64_scaled_le:
  assumes "0 \<le> c" "c < 2 ^ 53" "0 \<le> t" "t \<le> n" "0 < n" "n < 2 ^ 53"
  shows "0 \<le> f64_mul (f64_of_int c) (f64_div (f64_of_int t) (f64_of_int n))"
    and "f64_mul (f64_of_int c) (f64_div (f64_of_int t) (f64_of_int n)) \<le> c * f64_unit"
proof -
  let ?r = "f64_div (f64_of_int t) (f64_of_int n)"
  have u: "f64_unit > 0" by (simp add: f64_unit_def)
  have ct: "f64_of_int c = c * f64_unit" "f64_of_int t = t * f64_unit" "f64_of_int n = n * f64_unit"
    using assms by (simp_all add: f64_of_int_exact)
  have fin: "\<bar>c * f64_unit\<bar> \<noteq> f64_inf" "\<bar>t * f64_unit\<bar> \<noteq> f64_inf" using assms by (intro f64_small_finite; simp)+
  have tu: "0 \<le> t * f64_unit * f64_unit" "0 < n * f64_unit" using assms u by simp_all
  have r: "?r = f64_mag (t * f64_unit * f64_unit) (n * f64_unit)"
    using tu fin(2) by (simp add: f64_div_def ct f64_quot_def not_less)
  have r0: "0 \<le> ?r" unfolding r using tu by (intro f64_mag_nonneg)
  have "t * f64_unit * f64_unit \<le> 1 * f64_unit * (n * f64_unit)"
    using assms(4) u by (simp add: mult.left_commute mult_le_cancel_left_pos mult.assoc)
  then have r1: "?r \<le> 1 * f64_unit" unfolding r using tu by (intro f64_mag_le) simp_all
  have rfin: "\<bar>?r\<bar> \<noteq> f64_inf" using r0 r1 f64_small_finite [of 1]
    by (simp add: f64_unit_def f64_inf_def)
  have p0: "0 \<le> c * f64_unit * ?r" using assms(1) u r0 by simp
  have m: "f64_mul (f64_of_int c) ?r = f64_mag (c * f64_unit * ?r) f64_unit"
    using p0 fin(1) rfin by (simp add: f64_mul_def ct(1) f64_quot_def not_less)
  show "0 \<le> f64_mul (f64_of_int c) ?r" unfolding m using u p0 by (intro f64_mag_nonneg)
  have "c * f64_unit * ?r \<le> c * f64_unit * f64_unit" using r1 assms(1) u by (intro mult_left_mono) simp_all
  then show "f64_mul (f64_of_int c) ?r \<le> c * f64_unit" unfolding m using u p0 assms(2) by (intro f64_mag_le)
qed

lemma f64_to_u32_le:
  assumes "0 \<le> a" "a \<le> uint c * f64_unit"
  shows "f64_to_u32 a \<le> c"
proof -
  have u: "f64_unit > 0" by (simp add: f64_unit_def)
  have n: "0 \<le> a div f64_unit" using assms(1) u by (simp add: pos_imp_zdiv_nonneg_iff)
  have le: "a div f64_unit \<le> uint c" using zdiv_mono1 [OF assms(2) u] u by simp
  have "sgn a * (\<bar>a\<bar> div f64_unit) = a div f64_unit" using assms(1) by (cases "a = 0") simp_all
  then have "f64_to_u32 a = word_of_int (a div f64_unit)" by (simp add: f64_to_u32_def)
  moreover have "a div f64_unit < 2 ^ 32" using le uint_lt2p [of c] by simp
  then have "uint (word_of_int (a div f64_unit) :: u32) = a div f64_unit" using n by (simp add: uint_word_of_int)
  ultimately show ?thesis using le by (simp add: word_le_def)
qed

end
