(* ===== verification/Spell_Mods.thy ===== *)
theory Spell_Mods
  imports Taxi Spell_Data Go_Double Wire_Codec
begin

text \<open>
  \<^verbatim>\<open>engine/world/spellmod.go\<close>: the modifiers that auras put on the spells of a player, and what they make of a value. Auras,
  modifiers and the contexts of running casts are objects with an address; each method runs under the lock of the session.
  \<open>lookup\<close> is the spell table, in which an error reads as a missing spell.
\<close>

section \<open>State\<close>

abbreviation (input) spellModDuration :: nat where "spellModDuration \<equiv> 1"
abbreviation (input) spellModCriticalChance :: nat where "spellModCriticalChance \<equiv> 7"
abbreviation (input) spellModCastingTime :: nat where "spellModCastingTime \<equiv> 10"
abbreviation (input) spellModGlobalCooldown :: nat where "spellModGlobalCooldown \<equiv> 21"
abbreviation (input) spellModOpCount :: nat where "spellModOpCount \<equiv> 31"
abbreviation (input) spellAuraAddFlatModifier :: u32 where "spellAuraAddFlatModifier \<equiv> 107"
abbreviation (input) spellAuraAddPctModifier :: u32 where "spellAuraAddPctModifier \<equiv> 108"
abbreviation (input) spellAttr0CuCanCrit :: u32 where "spellAttr0CuCanCrit \<equiv> 0x00000080"
abbreviation (input) spellAttr3NoDoneBonus :: u32 where "spellAttr3NoDoneBonus \<equiv> 0x20000000"
abbreviation (input) opcode_flat :: u16 where "opcode_flat \<equiv> 0x266"
abbreviation (input) opcode_pct :: u16 where "opcode_pct \<equiv> 0x267"

text \<open>Of an aura: the spell, the effects that apply, the amounts, the charges left and whether it is stopped.\<close>

record mod_aura =
  maSpellID :: u32
  maEffectMask :: u8
  maAmount :: u32
  maAmounts :: "int list"
  maRemainingCharges :: u8
  maStopped :: bool

record spellModifier =
  smRef :: nat
  smOp :: u8
  smModType :: u8
  smEffectIndex :: u8
  smSpellID :: u32
  smValue :: int
  smMask :: "u32 list"
  smUsesCharges :: bool
  smOwner :: nat

record spellModFrame =
  sfOpcode :: u16
  sfPayload :: bytes

text \<open>
  The auras, the modifiers of each operation, the contexts with the auras that each has used, the stack of contexts with the
  innermost last, and the next free address.
\<close>

record mod_session =
  msAuras :: "(nat, mod_aura) gomap"
  msMods :: "spellModifier list list"
  msContexts :: "(nat, nat list) gomap"
  msTaking :: "nat list"
  msNext :: nat

definition no_mods :: mod_session where
  "no_mods = \<lparr>msAuras = [], msMods = replicate spellModOpCount [], msContexts = [], msTaking = [], msNext = 0\<rparr>"

section \<open>The context of a cast\<close>

definition beginSpellModTaking :: "mod_session \<Rightarrow> mod_session" where
  "beginSpellModTaking s =
     s\<lparr>msContexts := gput (msNext s) [] (msContexts s), msTaking := msTaking s @ [msNext s], msNext := msNext s + 1\<rparr>"

definition pushSpellModTaking :: "nat option \<Rightarrow> mod_session \<Rightarrow> mod_session" where
  "pushSpellModTaking taking s = (case taking of None \<Rightarrow> s | Some c \<Rightarrow> s\<lparr>msTaking := msTaking s @ [c]\<rparr>)"

definition endSpellModTaking :: "mod_session \<Rightarrow> mod_session" where
  "endSpellModTaking s = (if msTaking s = [] then s else s\<lparr>msTaking := butlast (msTaking s)\<rparr>)"

definition spellModTakingCurrent :: "mod_session \<Rightarrow> nat option" where
  "spellModTakingCurrent s = (if msTaking s = [] then None else Some (last (msTaking s)))"

definition applied_auras :: "mod_session \<Rightarrow> nat \<Rightarrow> nat list" where
  "applied_auras s c = (case gget (msContexts s) c of None \<Rightarrow> [] | Some as \<Rightarrow> as)"

definition spellModTakingApplied :: "nat option \<Rightarrow> nat \<Rightarrow> mod_session \<Rightarrow> bool" where
  "spellModTakingApplied taking owner s = (case taking of None \<Rightarrow> False | Some c \<Rightarrow> owner \<in> set (applied_auras s c))"

definition charges_left :: "mod_session \<Rightarrow> nat \<Rightarrow> bool" where
  "charges_left s owner = (case gget (msAuras s) owner of None \<Rightarrow> False | Some a \<Rightarrow> maRemainingCharges a \<noteq> 0)"

definition registerSpellModApplied :: "nat option \<Rightarrow> nat \<Rightarrow> bool \<Rightarrow> mod_session \<Rightarrow> mod_session" where
  "registerSpellModApplied taking owner usesCharges s =
     (case taking of
        None \<Rightarrow> s
      | Some c \<Rightarrow> if usesCharges \<and> \<not> charges_left s owner then s
                  else s\<lparr>msContexts := gput c (List.insert owner (applied_auras s c)) (msContexts s)\<rparr>)"

section \<open>Frames for the client\<close>

definition spellModEffectValue :: "mod_aura \<Rightarrow> nat \<Rightarrow> SpellEffect \<Rightarrow> int" where
  "spellModEffectValue aura index effect =
     (let amount = maAmounts aura ! index;
          amount = (if amount = 0 then sint (maAmount aura) else amount) in
      if amount = 0 then seBasePoints effect else amount)"

definition mask_bit :: "u32 list \<Rightarrow> nat \<Rightarrow> nat \<Rightarrow> bool" where
  "mask_bit flags i eff = has_flag (flags ! i) (push_bit eff 1)"

definition mod_total :: "spellModifier list \<Rightarrow> u8 \<Rightarrow> nat \<Rightarrow> nat \<Rightarrow> int" where
  "mod_total existing modType i eff =
     fold (\<lambda>m val. if smModType m \<noteq> modType \<or> \<not> mask_bit (smMask m) i eff then val else to_i32 (val + smValue m)) existing 0"

definition mod_frame :: "spellModifier list \<Rightarrow> spellModifier \<Rightarrow> bool \<Rightarrow> nat \<Rightarrow> nat \<Rightarrow> spellModFrame" where
  "mod_frame existing m applying i eff =
     (let val = mod_total existing (smModType m) i eff;
          val = to_i32 (if applying then val + smValue m else val - smValue m) in
      \<lparr>sfOpcode = (if smModType m = ucast spellAuraAddPctModifier then opcode_pct else opcode_flat),
       sfPayload = Bytes (writes [WriteU8 (of_nat (eff + 32 * i)), WriteU8 (smOp m), WriteI32 val] (NewBuffer 6))\<rparr>)"

definition spellModFrames :: "spellModifier list \<Rightarrow> spellModifier \<Rightarrow> bool \<Rightarrow> spellModFrame list" where
  "spellModFrames existing m applying =
     map (\<lambda>(i, eff). mod_frame existing m applying i eff)
       (filter (\<lambda>(i, eff). mask_bit (smMask m) i eff) (List.product [0..<3] [0..<32]))"

section \<open>Registering modifiers\<close>

definition new_modifier :: "Spell \<Rightarrow> mod_aura \<Rightarrow> nat \<Rightarrow> nat \<Rightarrow> SpellEffect \<Rightarrow> nat \<Rightarrow> spellModifier" where
  "new_modifier sp aura owner index effect r =
     \<lparr>smRef = r, smOp = word_of_int (seMiscValue effect), smModType = ucast (seAura effect), smEffectIndex = of_nat index,
      smSpellID = maSpellID aura, smValue = spellModEffectValue aura index effect, smMask = seSpellClassMask effect,
      smUsesCharges = spProcCharges sp > 0, smOwner = owner\<rparr>"

definition adds_modifier :: "mod_aura \<Rightarrow> nat \<Rightarrow> SpellEffect \<Rightarrow> bool" where
  "adds_modifier aura index effect \<longleftrightarrow>
     index < length (maAmounts aura) \<and> has_flag (maEffectMask aura) (push_bit index 1) \<and>
     (seAura effect = spellAuraAddFlatModifier \<or> seAura effect = spellAuraAddPctModifier) \<and>
     0 \<le> seMiscValue effect \<and> seMiscValue effect < int spellModOpCount"

definition register_modifier :: "spellModifier \<Rightarrow> mod_session \<Rightarrow> spellModFrame list \<times> mod_session" where
  "register_modifier m s =
     (let existing = msMods s ! unat (smOp m) in
      (spellModFrames existing m True,
       s\<lparr>msMods := (msMods s)[unat (smOp m) := existing @ [m]], msNext := msNext s + 1\<rparr>))"

fun add_effects :: "Spell \<Rightarrow> mod_aura \<Rightarrow> nat \<Rightarrow> nat \<Rightarrow> SpellEffect list \<Rightarrow> mod_session \<Rightarrow> spellModFrame list \<times> mod_session" where
  "add_effects sp aura owner index [] s = ([], s)"
| "add_effects sp aura owner index (effect # effects) s =
     (if \<not> adds_modifier aura index effect then add_effects sp aura owner (index + 1) effects s
      else
        let (fs, s) = register_modifier (new_modifier sp aura owner index effect (msNext s)) s;
            (fs', s) = add_effects sp aura owner (index + 1) effects s in
        (fs @ fs', s))"

definition addSpellMods :: "(u32 \<Rightarrow> Spell option) \<Rightarrow> nat \<Rightarrow> mod_session \<Rightarrow> spellModFrame list \<times> mod_session" where
  "addSpellMods lookup owner s =
     (case gget (msAuras s) owner of
        None \<Rightarrow> ([], s)
      | Some aura \<Rightarrow>
          (case lookup (maSpellID aura) of
             None \<Rightarrow> ([], s)
           | Some sp \<Rightarrow> add_effects sp aura owner 0 (spEffects sp) s))"

text \<open>Whose owner is an aura of the spell.\<close>

definition owned_by_spell :: "(nat, mod_aura) gomap \<Rightarrow> u32 \<Rightarrow> spellModifier \<Rightarrow> bool" where
  "owned_by_spell auras spellID m = (case gget auras (smOwner m) of None \<Rightarrow> False | Some a \<Rightarrow> maSpellID a = spellID)"

fun drop_modifiers :: "spellModifier list \<Rightarrow> spellModifier list \<Rightarrow> spellModFrame list \<times> spellModifier list" where
  "drop_modifiers [] mods = ([], mods)"
| "drop_modifiers (m # remove) mods =
     (let (fs, mods') = drop_modifiers remove (filter (\<lambda>k. smRef k \<noteq> smRef m) mods) in
      (spellModFrames mods m False @ fs, mods'))"

fun drop_ops :: "(nat, mod_aura) gomap \<Rightarrow> u32 \<Rightarrow> spellModifier list list \<Rightarrow> spellModFrame list \<times> spellModifier list list" where
  "drop_ops auras spellID [] = ([], [])"
| "drop_ops auras spellID (mods # rest) =
     (let (fs, mods') = drop_modifiers (filter (owned_by_spell auras spellID) mods) mods;
          (fs', rest') = drop_ops auras spellID rest in
      (fs @ fs', mods' # rest'))"

definition dropSpellMods :: "u32 \<Rightarrow> mod_session \<Rightarrow> spellModFrame list \<times> mod_session" where
  "dropSpellMods spellID s = (let (fs, mods) = drop_ops (msAuras s) spellID (msMods s) in (fs, s\<lparr>msMods := mods\<rparr>))"

definition refresh_modifier :: "nat \<Rightarrow> mod_aura \<Rightarrow> spellModifier \<Rightarrow> spellModifier" where
  "refresh_modifier owner aura m =
     (if smOwner m \<noteq> owner \<or> unat (smEffectIndex m) \<ge> length (maAmounts aura) then m
      else m\<lparr>smValue := maAmounts aura ! unat (smEffectIndex m)\<rparr>)"

definition refreshSpellModValues :: "nat \<Rightarrow> mod_session \<Rightarrow> mod_session" where
  "refreshSpellModValues owner s =
     (case gget (msAuras s) owner of
        None \<Rightarrow> s
      | Some aura \<Rightarrow> s\<lparr>msMods := map (map (refresh_modifier owner aura)) (msMods s)\<rparr>)"

section \<open>Which spells a modifier affects\<close>

definition store_SpellDuration :: "dbc_files \<Rightarrow> u32 \<Rightarrow> u32 \<Rightarrow> go_error + int option" where
  "store_SpellDuration files key level =
     (if key = 0 then Inr (Some 0)
      else res_bind (files (table_name ''SpellDuration'')) (\<lambda>file.
        res_bind (Find file key) (\<lambda>found.
          case found of
            None \<Rightarrow> Inr None
          | Some r \<Rightarrow>
              res_bind (Int32 r 1) (\<lambda>base.
                if base < 0 then Inr (Some base)
                else
                  let level = (if level = 0 then 1 else level) in
                  res_bind (Int32 r 2) (\<lambda>perLevel. res_bind (Int32 r 3) (\<lambda>maxDuration.
                    let duration = to_i32 (base + perLevel * sint (level - 1)) in
                    Inr (Some (if maxDuration > 0 \<and> duration > maxDuration then maxDuration else duration))))))))"

definition spellAffectedBySpellFamilyMask :: "u32 \<Rightarrow> u32 list \<Rightarrow> Spell \<Rightarrow> bool" where
  "spellAffectedBySpellFamilyMask auraFamilyName auraFamilyFlags spell =
     (if auraFamilyName = 0 then True
      else if auraFamilyName \<noteq> spSpellFamilyName spell then False
      else if auraFamilyFlags \<noteq> [0, 0, 0] then
        \<not> (auraFamilyFlags ! 0 AND spSpellFamilyFlags spell ! 0 = 0 \<and> auraFamilyFlags ! 1 AND spSpellFamilyFlags spell ! 1 = 0 \<and>
           auraFamilyFlags ! 2 AND spSpellFamilyFlags spell ! 2 = 0)
      else True)"

definition spellModAffectsSpell :: "dbc_files \<Rightarrow> (u32 \<Rightarrow> Spell option) \<Rightarrow> u32 \<Rightarrow> u32 list \<Rightarrow> nat \<Rightarrow> Spell \<Rightarrow> bool" where
  "spellModAffectsSpell files lookup modSpellID flags op spell =
     (if op = spellModDuration \<and> store_SpellDuration files (spDurationIndex spell) 1 = Inr (Some (-1)) then False
      else if op = spellModCriticalChance \<and> \<not> has_flag (spAttributes spell) spellAttr0CuCanCrit then False
      else case lookup modSpellID of
        None \<Rightarrow> False
      | Some affectSpell \<Rightarrow> spellAffectedBySpellFamilyMask (spSpellFamilyName affectSpell) flags spell)"

section \<open>The totals\<close>

text \<open>A modifier takes part while its aura exists and is not stopped.\<close>

definition mod_live :: "mod_session \<Rightarrow> spellModifier \<Rightarrow> bool" where
  "mod_live s m = (case gget (msAuras s) (smOwner m) of None \<Rightarrow> False | Some a \<Rightarrow> \<not> maStopped a)"

type_synonym mod_fold = "int \<times> f64v \<times> mod_session"

definition pct :: "int \<Rightarrow> f64v" where
  "pct v = f64_div (f64_of_int v) (f64_of_int 100)"

definition apply_candidate :: "nat \<Rightarrow> bool \<Rightarrow> nat option \<Rightarrow> spellModifier \<Rightarrow> mod_fold \<Rightarrow> mod_fold" where
  "apply_candidate op instantBaseOK taking c acc =
     (case acc of (totalFlat, totalMul, s) \<Rightarrow>
        if smModType c = ucast spellAuraAddFlatModifier then
          (to_i32 (totalFlat + smValue c), totalMul, registerSpellModApplied taking (smOwner c) (smUsesCharges c) s)
        else if op = spellModCastingTime \<and> smValue c \<le> -100 \<and> instantBaseOK then acc
        else if \<not> spellModTakingApplied taking (smOwner c) s \<and> (op = spellModCriticalChance \<or> op = spellModGlobalCooldown) then acc
        else
          (totalFlat, f64_add totalMul (pct (smValue c)),
           registerSpellModApplied taking (smOwner c) (smUsesCharges c) s))"

text \<open>The candidates in order; the first one whose aura uses charges is kept for the end.\<close>

fun fold_candidates :: "(spellModifier \<Rightarrow> bool) \<Rightarrow> nat \<Rightarrow> bool \<Rightarrow> nat option \<Rightarrow> spellModifier list \<Rightarrow> spellModifier option \<Rightarrow>
    mod_fold \<Rightarrow> spellModifier option \<times> mod_fold" where
  "fold_candidates affects op instantBaseOK taking [] charged acc = (charged, acc)"
| "fold_candidates affects op instantBaseOK taking (c # cs) charged acc =
     (let s = snd (snd acc) in
      if taking \<noteq> None \<and> smUsesCharges c \<and> \<not> charges_left s (smOwner c) \<and> \<not> spellModTakingApplied taking (smOwner c) s
        then fold_candidates affects op instantBaseOK taking cs charged acc
      else if \<not> affects c then fold_candidates affects op instantBaseOK taking cs charged acc
      else if smUsesCharges c
        then fold_candidates affects op instantBaseOK taking cs (if charged = None then Some c else charged) acc
      else fold_candidates affects op instantBaseOK taking cs charged (apply_candidate op instantBaseOK taking c acc))"

definition spellModTotals :: "dbc_files \<Rightarrow> (u32 \<Rightarrow> Spell option) \<Rightarrow> Spell \<Rightarrow> nat \<Rightarrow> bool \<Rightarrow> mod_session \<Rightarrow> mod_fold" where
  "spellModTotals files lookup spell op instantBaseOK s =
     (let cands = filter (mod_live s) (msMods s ! op);
          taking = spellModTakingCurrent s;
          affects = (\<lambda>c. spellModAffectsSpell files lookup (smSpellID c) (smMask c) op spell);
          (charged, acc) = fold_candidates affects op instantBaseOK taking cands None (0, f64_of_int 1, s) in
      case charged of None \<Rightarrow> acc | Some c \<Rightarrow> apply_candidate op instantBaseOK taking c acc)"

definition modded :: "int \<Rightarrow> int \<Rightarrow> f64v \<Rightarrow> int" where
  "modded basevalue totalFlat totalMul = f64_to_i32 (f64_mul (f64_of_int (to_i32 (basevalue + totalFlat))) totalMul)"

definition applySpellMod :: "dbc_files \<Rightarrow> (u32 \<Rightarrow> Spell option) \<Rightarrow> Spell \<Rightarrow> nat \<Rightarrow> int \<Rightarrow> mod_session \<Rightarrow> int \<times> mod_session" where
  "applySpellMod files lookup spell op basevalue s =
     (if op \<ge> spellModOpCount \<or> has_flag (spAttributesEx3 spell) spellAttr3NoDoneBonus then (basevalue, s)
      else case spellModTotals files lookup spell op (basevalue \<ge> 10000) s of
        (totalFlat, totalMul, s') \<Rightarrow> (modded basevalue totalFlat totalMul, s'))"

definition applySpellModFloat ::
    "dbc_files \<Rightarrow> (u32 \<Rightarrow> Spell option) \<Rightarrow> Spell \<Rightarrow> nat \<Rightarrow> f64v \<Rightarrow> mod_session \<Rightarrow> f64v \<times> mod_session" where
  "applySpellModFloat files lookup spell op basevalue s =
     (if op \<ge> spellModOpCount \<or> has_flag (spAttributesEx3 spell) spellAttr3NoDoneBonus then (basevalue, s)
      else case spellModTotals files lookup spell op (basevalue \<ge> f64_of_int 10000) s of
        (totalFlat, totalMul, s') \<Rightarrow> (f64_mul (f64_add basevalue (f64_of_int totalFlat)) totalMul, s'))"

definition fold_no_taking :: "spellModifier \<Rightarrow> int \<times> f64v \<Rightarrow> int \<times> f64v" where
  "fold_no_taking m acc =
     (case acc of (totalFlat, totalMul) \<Rightarrow>
        if smModType m = ucast spellAuraAddFlatModifier then (to_i32 (totalFlat + smValue m), totalMul)
        else (totalFlat, f64_add totalMul (pct (smValue m))))"

fun fold_mods_no_taking :: "(spellModifier \<Rightarrow> bool) \<Rightarrow> spellModifier list \<Rightarrow> spellModifier option \<Rightarrow> int \<times> f64v \<Rightarrow>
    spellModifier option \<times> int \<times> f64v" where
  "fold_mods_no_taking affects [] charged acc = (charged, acc)"
| "fold_mods_no_taking affects (m # ms) charged acc =
     (if \<not> affects m then fold_mods_no_taking affects ms charged acc
      else if smUsesCharges m then fold_mods_no_taking affects ms (if charged = None then Some m else charged) acc
      else fold_mods_no_taking affects ms charged (fold_no_taking m acc))"

definition applySpellModNoTakingLocked ::
    "dbc_files \<Rightarrow> (u32 \<Rightarrow> Spell option) \<Rightarrow> Spell \<Rightarrow> nat \<Rightarrow> int \<Rightarrow> mod_session \<Rightarrow> int" where
  "applySpellModNoTakingLocked files lookup spell op basevalue s =
     (if op \<ge> spellModOpCount \<or> has_flag (spAttributesEx3 spell) spellAttr3NoDoneBonus then basevalue
      else
        let affects = (\<lambda>m. mod_live s m \<and> spellModAffectsSpell files lookup (smSpellID m) (smMask m) op spell);
            (charged, acc) = fold_mods_no_taking affects (msMods s ! op) None (0, f64_of_int 1);
            (totalFlat, totalMul) = (case charged of None \<Rightarrow> acc | Some m \<Rightarrow> fold_no_taking m acc) in
        modded basevalue totalFlat totalMul)"

end
