(* ===== verification/Spell_Mods_Spec.thy ===== *)
theory Spell_Mods_Spec
  imports Spell_Mods
begin

text \<open>
  What the client knows of the modifiers. It keeps one number for each kind, operation and bit of the spell mask, which every
  frame replaces; the specification of that number is the sum of the registered modifiers that cover the bit.
\<close>

section \<open>The table of the client\<close>

type_synonym client_table = "u16 \<Rightarrow> u8 \<Rightarrow> u8 \<Rightarrow> int"

definition read_modifier :: "(u8 \<times> u8 \<times> int) reader" where
  "read_modifier = rbind ReadU8 (\<lambda>b. rbind ReadU8 (\<lambda>op. rbind ReadI32 (\<lambda>v. rret (b, op, v))))"

definition client_read :: "spellModFrame \<Rightarrow> client_table \<Rightarrow> client_table" where
  "client_read f tbl =
     (case fst (read_modifier (NewReader (sfPayload f))) of
        Inl e \<Rightarrow> tbl
      | Inr (b, op, v) \<Rightarrow> (\<lambda>oc op' b'. if oc = sfOpcode f \<and> op' = op \<and> b' = b then v else tbl oc op' b'))"

definition client_table :: "spellModFrame list \<Rightarrow> client_table" where
  "client_table fs = fold client_read fs (\<lambda>_ _ _. 0)"

definition covers :: "spellModifier \<Rightarrow> u8 \<Rightarrow> bool" where
  "covers m b \<longleftrightarrow> unat b < 96 \<and> mask_bit (smMask m) (unat b div 32) (unat b mod 32)"

definition registered_sum :: "spellModifier list \<Rightarrow> u8 \<Rightarrow> u8 \<Rightarrow> int" where
  "registered_sum mods t b = to_i32 (\<Sum>m\<leftarrow>mods. if smModType m = t \<and> covers m b then smValue m else 0)"

definition opcode_of :: "u8 \<Rightarrow> u16" where
  "opcode_of t = (if t = 108 then opcode_pct else opcode_flat)"

section \<open>What a modifier's frames do\<close>

lemma to_i32_cong: "a mod 2 ^ 32 = b mod 2 ^ 32 \<Longrightarrow> to_i32 a = to_i32 b"
  unfolding to_i32_def by (metis mod_add_left_eq)

lemma to_i32_mod: "to_i32 a mod 2 ^ 32 = a mod 2 ^ 32"
  by (simp add: to_i32_def mod_diff_left_eq)

lemma to_i32_add [simp]: "to_i32 (to_i32 a + b) = to_i32 (a + b)"
  by (rule to_i32_cong) (metis mod_add_left_eq to_i32_mod)

lemma to_i32_diff [simp]: "to_i32 (to_i32 a - b) = to_i32 (a - b)"
  by (rule to_i32_cong) (metis mod_diff_left_eq to_i32_mod)

lemma fold_i32_sum:
  "fold (\<lambda>x val. if \<not> P x then val else to_i32 (val + f x)) xs (to_i32 a) = to_i32 (a + (\<Sum>x\<leftarrow>xs. if P x then f x else 0))"
proof (induction xs arbitrary: a)
  case (Cons x xs)
  then show ?case using Cons [of "a + f x"] by (cases "P x") (simp_all add: add.assoc)
qed simp

lemma mod_total_sum:
  "mod_total mods t i eff = to_i32 (\<Sum>m\<leftarrow>mods. if smModType m = t \<and> mask_bit (smMask m) i eff then smValue m else 0)"
  using fold_i32_sum [of "\<lambda>m. smModType m = t \<and> mask_bit (smMask m) i eff" smValue mods 0]
  by (simp add: mod_total_def)

text \<open>The value in the frame of one bit.\<close>

definition frame_sum :: "spellModifier list \<Rightarrow> spellModifier \<Rightarrow> bool \<Rightarrow> u8 \<Rightarrow> int" where
  "frame_sum existing m applying b =
     to_i32 ((\<Sum>k\<leftarrow>existing. if smModType k = smModType m \<and> covers k b then smValue k else 0) +
       (if applying then smValue m else - smValue m))"

lemma read_frame:
  assumes "i < 3" "eff < 32" "smModType m \<in> {107, 108}"
  shows "client_read (mod_frame existing m applying i eff) tbl =
    (\<lambda>oc op b. if oc = opcode_of (smModType m) \<and> op = smOp m \<and> b = of_nat (eff + 32 * i)
       then frame_sum existing m applying b else tbl oc op b)"
proof -
  let ?b = "of_nat (eff + 32 * i) :: u8" and ?v = "frame_sum existing m applying (of_nat (eff + 32 * i))"
  have b: "unat ?b = eff + 32 * i" using assms by (intro of_nat_inverse) simp_all
  have cov: "covers k ?b \<longleftrightarrow> mask_bit (smMask k) i eff" for k
    using assms b by (simp add: covers_def)
  have "mod_total existing (smModType m) i eff =
      to_i32 (\<Sum>k\<leftarrow>existing. if smModType k = smModType m \<and> covers k ?b then smValue k else 0)"
    by (simp add: mod_total_sum cov del: of_nat_add of_nat_mult)
  then have v: "to_i32 (if applying then mod_total existing (smModType m) i eff + smValue m
      else mod_total existing (smModType m) i eff - smValue m) = ?v"
    by (cases applying) (simp_all add: frame_sum_def)
  let ?p = "?b # smOp m # le_bytes 4 (word_of_int ?v :: u32)"
  have pay: "sfPayload (mod_frame existing m applying i eff) = ?p"
    by (simp add: mod_frame_def v Let_def u8c.put_enc i32c.put_enc)
  have "signed_range 32 ?v" by (simp add: signed_range_def frame_sum_def)
  then have "read_modifier (NewReader ?p) = (Inr (?b, smOp m, ?v), 
      advance (length [?b] + (length [smOp m] + (length (le_bytes 4 (word_of_int ?v :: u32)) + 0))) (NewReader ?p))"
    unfolding read_modifier_def
    by (intro u8c.rbind_ok i32c.rbind_ok) (auto simp: rret_def)
  moreover have "sfOpcode (mod_frame existing m applying i eff) = opcode_of (smModType m)"
    using assms(3) by (auto simp: mod_frame_def opcode_of_def Let_def)
  ultimately show ?thesis by (intro ext) (simp add: client_read_def pay del: of_nat_add of_nat_mult)
qed

text \<open>All the frames of a modifier: the numbers of its kind and operation change on the bits it covers.\<close>

lemma read_frame_list:
  assumes "smModType m \<in> {107, 108}" "\<forall>(i, eff) \<in> set ps. i < 3 \<and> eff < 32"
  shows "fold client_read (map (\<lambda>(i, eff). mod_frame existing m applying i eff) ps) tbl oc op b =
    (if oc = opcode_of (smModType m) \<and> op = smOp m \<and> (\<exists>(i, eff) \<in> set ps. b = of_nat (eff + 32 * i))
     then frame_sum existing m applying b else tbl oc op b)"
  using assms(2)
proof (induction ps arbitrary: tbl)
  case (Cons p ps)
  obtain i eff where p: "p = (i, eff)" by (cases p)
  have "i < 3" "eff < 32" and ps: "\<forall>(i, eff) \<in> set ps. i < 3 \<and> eff < 32" using Cons.prems by (auto simp: p)
  then show ?case
    by (auto simp: p Cons.IH [OF ps] read_frame [OF _ _ assms(1)] simp del: of_nat_add of_nat_mult)
qed simp

lemma read_frames:
  assumes "smModType m \<in> {107, 108}"
  shows "fold client_read (spellModFrames existing m applying) tbl oc op b =
    (if oc = opcode_of (smModType m) \<and> op = smOp m \<and> covers m b
     then frame_sum existing m applying b else tbl oc op b)"
proof -
  let ?ps = "filter (\<lambda>(i, eff). mask_bit (smMask m) i eff) (List.product [0..<3] [0..<32])"
  have "(\<exists>(i, eff) \<in> set ?ps. b = of_nat (eff + 32 * i)) \<longleftrightarrow> covers m b"
  proof
    assume "\<exists>(i, eff) \<in> set ?ps. b = of_nat (eff + 32 * i)"
    then obtain i eff where c: "i < 3" "eff < 32" "mask_bit (smMask m) i eff" "b = of_nat (eff + 32 * i)" by auto
    then have "unat b = eff + 32 * i" by (intro of_nat_inverse) simp_all
    then show "covers m b" using c by (simp add: covers_def)
  next
    assume c: "covers m b"
    have "b = of_nat (unat b mod 32 + 32 * (unat b div 32))" by simp
    moreover have "(unat b div 32, unat b mod 32) \<in> set ?ps" using c by (auto simp: covers_def)
    ultimately show "\<exists>(i, eff) \<in> set ?ps. b = of_nat (eff + 32 * i)" by blast
  qed
  then show ?thesis
    unfolding spellModFrames_def by (subst read_frame_list [OF assms]) auto
qed

section \<open>One operation's modifiers\<close>

text \<open>The client has the sums of these modifiers for an operation.\<close>

definition table_agrees :: "spellModifier list \<Rightarrow> u8 \<Rightarrow> client_table \<Rightarrow> bool" where
  "table_agrees mods op tbl \<longleftrightarrow>
     (\<forall>t \<in> {107, 108}. \<forall>b. unat b < 96 \<longrightarrow> tbl (opcode_of t) op b = registered_sum mods t b)"

lemma opcode_of_eq: "t \<in> {107, 108} \<Longrightarrow> t' \<in> {107, 108} \<Longrightarrow> opcode_of t = opcode_of t' \<longleftrightarrow> t = t'"
  by (auto simp: opcode_of_def)

lemma frames_other_op:
  "smModType m \<in> {107, 108} \<Longrightarrow> op \<noteq> smOp m \<Longrightarrow>
    table_agrees mods op (fold client_read (spellModFrames existing m applying) tbl) \<longleftrightarrow> table_agrees mods op tbl"
  by (simp add: table_agrees_def read_frames)

lemma frames_add:
  assumes "table_agrees mods (smOp m) tbl" "smModType m \<in> {107, 108}"
  shows "table_agrees (mods @ [m]) (smOp m) (fold client_read (spellModFrames mods m True) tbl)"
  using assms unfolding table_agrees_def
  by (auto simp: read_frames opcode_of_eq registered_sum_def frame_sum_def)

lemma frames_drop:
  assumes "table_agrees mods (smOp m) tbl" "smModType m \<in> {107, 108}" "m \<in> set mods" "distinct (map smRef mods)"
  shows "table_agrees (filter (\<lambda>k. smRef k \<noteq> smRef m) mods) (smOp m) (fold client_read (spellModFrames mods m False) tbl)"
proof -
  have d: "distinct mods" using assms(4) by (simp add: distinct_map)
  have "filter (\<lambda>k. smRef k \<noteq> smRef m) mods = filter (\<lambda>k. k \<noteq> m) mods"
    using assms(3,4) by (intro filter_cong) (auto simp: distinct_map inj_on_def)
  also have "\<dots> = remove1 m mods" using d by (auto simp: distinct_remove1_removeAll removeAll_filter_not_eq intro: filter_cong)
  finally have rest: "filter (\<lambda>k. smRef k \<noteq> smRef m) mods = remove1 m mods" .
  have sum: "(\<Sum>k\<leftarrow>remove1 m mods. if smModType k = t \<and> covers k b then smValue k else 0) =
      (\<Sum>k\<leftarrow>mods. if smModType k = t \<and> covers k b then smValue k else 0) -
      (if smModType m = t \<and> covers m b then smValue m else 0)" for t b
    using sum_list_map_remove1 [OF assms(3), of "\<lambda>k. if smModType k = t \<and> covers k b then smValue k else 0"] by simp
  show ?thesis
    using assms(1,2) unfolding table_agrees_def rest
    by (auto simp: read_frames opcode_of_eq registered_sum_def frame_sum_def sum)
qed

definition op_mods_ok :: "nat \<Rightarrow> spellModifier list \<Rightarrow> bool" where
  "op_mods_ok op mods \<longleftrightarrow> (\<forall>m \<in> set mods. smOp m = of_nat op \<and> smModType m \<in> {107, 108}) \<and> distinct (map smRef mods)"

lemma op_mods_ok_filter: "op_mods_ok op mods \<Longrightarrow> op_mods_ok op (filter P mods)"
  by (auto simp: op_mods_ok_def distinct_map_filter)

lemma drop_modifiers_agree:
  assumes "op_mods_ok op mods" "set remove \<subseteq> set mods" "distinct (map smRef remove)"
    and "table_agrees mods (of_nat op) tbl" "drop_modifiers remove mods = (fs, mods')"
  shows "table_agrees mods' (of_nat op) (fold client_read fs tbl) \<and> mods' = filter (\<lambda>k. smRef k \<notin> smRef ` set remove) mods"
  using assms
proof (induction remove arbitrary: mods tbl fs)
  case (Cons m remove)
  let ?mods = "filter (\<lambda>k. smRef k \<noteq> smRef m) mods"
  obtain fs1 where d: "drop_modifiers remove ?mods = (fs1, mods')" and fs: "fs = spellModFrames mods m False @ fs1"
    using Cons.prems(5) by (auto split: prod.splits)
  have m: "m \<in> set mods" "smOp m = of_nat op" "smModType m \<in> {107, 108}" and ds: "distinct (map smRef mods)"
    using Cons.prems(1,2) by (auto simp: op_mods_ok_def)
  have ok: "op_mods_ok op ?mods" by (rule op_mods_ok_filter) (rule Cons.prems)
  have sub: "set remove \<subseteq> set ?mods" "distinct (map smRef remove)" using Cons.prems(2,3) by (fastforce simp: image_iff)+
  have tbl: "table_agrees ?mods (of_nat op) (fold client_read (spellModFrames mods m False) tbl)"
    using frames_drop [OF _ m(3,1) ds] Cons.prems(4) m(2) by simp
  have "filter (\<lambda>k. smRef k \<notin> smRef ` set remove) ?mods = filter (\<lambda>k. smRef k \<notin> smRef ` set (m # remove)) mods"
    by (auto intro: filter_cong)
  then show ?case using Cons.IH [OF ok sub tbl d] by (auto simp: fs)
qed simp

lemma drop_modifiers_other:
  assumes "op_mods_ok op mods" "set remove \<subseteq> set mods" "op' \<noteq> of_nat op"
  shows "table_agrees ms op' (fold client_read (fst (drop_modifiers remove mods')) tbl) \<longleftrightarrow> table_agrees ms op' tbl"
  using assms(2)
proof (induction remove arbitrary: mods' tbl)
  case (Cons m remove)
  have m: "smOp m = of_nat op" "smModType m \<in> {107, 108}" using Cons.prems assms(1) by (auto simp: op_mods_ok_def)
  then show ?case using Cons assms(3) by (simp add: case_prod_beta frames_other_op)
qed simp

lemma drop_all_owned:
  assumes "op_mods_ok op mods"
  shows "snd (drop_modifiers (filter P mods) mods) = filter (\<lambda>m. \<not> P m) mods"
    and "table_agrees mods (of_nat op) tbl \<Longrightarrow>
      table_agrees (filter (\<lambda>m. \<not> P m) mods) (of_nat op) (fold client_read (fst (drop_modifiers (filter P mods) mods)) tbl)"
proof -
  let ?r = "drop_modifiers (filter P mods) mods"
  have d: "distinct (map smRef mods)" using assms by (simp add: op_mods_ok_def)
  have f: "filter (\<lambda>k. smRef k \<notin> smRef ` set (filter P mods)) mods = filter (\<lambda>m. \<not> P m) mods"
    using d by (intro filter_cong) (auto simp: distinct_map inj_on_def)
  have all: "table_agrees mods (of_nat op) tbl \<Longrightarrow>
      table_agrees (snd ?r) (of_nat op) (fold client_read (fst ?r) tbl) \<and> snd ?r = filter (\<lambda>m. \<not> P m) mods" for tbl
    unfolding f [symmetric]
    by (rule drop_modifiers_agree [OF assms filter_is_subset distinct_map_filter [OF d]]) (simp_all del: set_filter)
  show "table_agrees mods (of_nat op) tbl \<Longrightarrow> table_agrees (filter (\<lambda>m. \<not> P m) mods) (of_nat op) (fold client_read (fst ?r) tbl)"
    using all by metis
  have "table_agrees mods (of_nat op) (\<lambda>oc op b. registered_sum mods (if oc = opcode_pct then 108 else 107) b)"
    by (auto simp: table_agrees_def opcode_of_def)
  then show "snd ?r = filter (\<lambda>m. \<not> P m) mods" using all by blast
qed

text \<open>All operations, from the \<open>n\<close>th on.\<close>

definition mods_from_ok :: "nat \<Rightarrow> spellModifier list list \<Rightarrow> bool" where
  "mods_from_ok n modss \<longleftrightarrow> n + length modss \<le> 256 \<and> (\<forall>k < length modss. op_mods_ok (n + k) (modss ! k))"

definition agree_from :: "nat \<Rightarrow> spellModifier list list \<Rightarrow> client_table \<Rightarrow> bool" where
  "agree_from n modss tbl \<longleftrightarrow> (\<forall>k < length modss. table_agrees (modss ! k) (of_nat (n + k)) tbl)"

lemma from_Cons:
  "mods_from_ok n (mods # modss) \<longleftrightarrow> op_mods_ok n mods \<and> n < 256 \<and> mods_from_ok (n + 1) modss"
  "agree_from n (mods # modss) tbl \<longleftrightarrow> table_agrees mods (of_nat n) tbl \<and> agree_from (n + 1) modss tbl"
  by (auto simp: mods_from_ok_def agree_from_def All_less_Suc2 add_ac)

lemma of_nat_u8_eq: "a < 256 \<Longrightarrow> b < 256 \<Longrightarrow> (of_nat a :: u8) = of_nat b \<longleftrightarrow> a = b"
proof -
  have "unat (of_nat c :: u8) = c" if "c < 256" for c using that by (intro of_nat_inverse) simp_all
  then show "a < 256 \<Longrightarrow> b < 256 \<Longrightarrow> (of_nat a :: u8) = of_nat b \<longleftrightarrow> a = b" by metis
qed

lemma agree_from_other:
  assumes "op_mods_ok op mods" "op < n" "mods_from_ok n modss" "set remove \<subseteq> set mods"
  shows "agree_from n modss (fold client_read (fst (drop_modifiers remove mods')) tbl) \<longleftrightarrow> agree_from n modss tbl"
proof -
  have "(of_nat (n + k) :: u8) \<noteq> of_nat op" if "k < length modss" for k
    using that assms(2,3) of_nat_u8_eq [of "n + k" op] by (simp add: mods_from_ok_def del: of_nat_add)
  then show ?thesis by (simp add: agree_from_def drop_modifiers_other [OF assms(1,4)])
qed

lemma drop_ops_other:
  assumes "mods_from_ok n modss" "op < n"
  shows "table_agrees ms (of_nat op) (fold client_read (fst (drop_ops auras spellID modss)) tbl) \<longleftrightarrow> table_agrees ms (of_nat op) tbl"
  using assms
proof (induction modss arbitrary: n tbl)
  case (Cons mods modss)
  have ok: "op_mods_ok n mods" "n < 256" "mods_from_ok (n + 1) modss" using Cons.prems(1) by (simp_all add: from_Cons)
  have "(of_nat op :: u8) \<noteq> of_nat n" using of_nat_u8_eq [of op n] ok(2) Cons.prems(2) by simp
  then show ?case
    using Cons.IH [OF ok(3)] Cons.prems(2) by (simp add: case_prod_beta drop_modifiers_other [OF ok(1)] filter_is_subset)
qed simp

lemma drop_ops_agree:
  assumes "mods_from_ok n modss" "agree_from n modss tbl"
  shows "agree_from n (snd (drop_ops auras spellID modss)) (fold client_read (fst (drop_ops auras spellID modss)) tbl)"
    and "snd (drop_ops auras spellID modss) = map (filter (\<lambda>m. \<not> owned_by_spell auras spellID m)) modss"
proof -
  have "agree_from n (snd (drop_ops auras spellID modss)) (fold client_read (fst (drop_ops auras spellID modss)) tbl) \<and>
    snd (drop_ops auras spellID modss) = map (filter (\<lambda>m. \<not> owned_by_spell auras spellID m)) modss"
    using assms
  proof (induction modss arbitrary: n tbl)
    case (Cons mods modss)
    let ?P = "owned_by_spell auras spellID"
    let ?tbl = "fold client_read (fst (drop_modifiers (filter ?P mods) mods)) tbl"
    have ok: "op_mods_ok n mods" "n < 256" "mods_from_ok (n + 1) modss" using Cons.prems(1) by (simp_all add: from_Cons)
    have agree: "table_agrees mods (of_nat n) tbl" "agree_from (n + 1) modss tbl" using Cons.prems(2) by (simp_all add: from_Cons)
    have rest: "agree_from (n + 1) modss ?tbl"
      using agree_from_other [OF ok(1) _ ok(3), of "filter ?P mods"] agree(2) by (simp add: filter_is_subset)
    have here: "table_agrees (filter (\<lambda>m. \<not> ?P m) mods) (of_nat n) ?tbl" by (rule drop_all_owned(2) [OF ok(1) agree(1)])
    then have "table_agrees (filter (\<lambda>m. \<not> ?P m) mods) (of_nat n) (fold client_read (fst (drop_ops auras spellID modss)) ?tbl)"
      using drop_ops_other [OF ok(3), of n] by simp
    then show ?case
      using conjunct1 [OF Cons.IH [OF ok(3) rest]] conjunct2 [OF Cons.IH [OF ok(3) rest]] drop_all_owned(1) [OF ok(1), of ?P]
      by (simp add: case_prod_beta from_Cons)
  qed simp
  then show "agree_from n (snd (drop_ops auras spellID modss)) (fold client_read (fst (drop_ops auras spellID modss)) tbl)"
    "snd (drop_ops auras spellID modss) = map (filter (\<lambda>m. \<not> owned_by_spell auras spellID m)) modss" by blast+
qed

section \<open>The invariant\<close>

text \<open>A modifier knows its spell, and whether its aura uses charges.\<close>

definition origin_ok :: "(u32 \<Rightarrow> Spell option) \<Rightarrow> (nat, mod_aura) gomap \<Rightarrow> spellModifier \<Rightarrow> bool" where
  "origin_ok lookup auras m \<longleftrightarrow>
     (\<exists>a sp. gget auras (smOwner m) = Some a \<and> smSpellID m = maSpellID a \<and> lookup (maSpellID a) = Some sp \<and>
        smUsesCharges m = (spProcCharges sp > 0))"

definition mods_ok :: "(u32 \<Rightarrow> Spell option) \<Rightarrow> mod_session \<Rightarrow> bool" where
  "mods_ok lookup s \<longleftrightarrow>
     length (msMods s) = spellModOpCount \<and> mods_from_ok 0 (msMods s) \<and>
     (\<forall>mods \<in> set (msMods s). \<forall>m \<in> set mods. smRef m < msNext s \<and> origin_ok lookup (msAuras s) m)"

lemma no_mods_ok: "mods_ok lookup no_mods"
  by (auto simp: mods_ok_def no_mods_def mods_from_ok_def op_mods_ok_def nth_replicate)

lemma adds_modifier_op:
  assumes "adds_modifier aura index effect"
  shows "unat (smOp (new_modifier sp aura owner index effect r)) < spellModOpCount"
    and "smModType (new_modifier sp aura owner index effect r) \<in> {107, 108}"
  using assms by (auto simp: adds_modifier_def new_modifier_def unat_eq_nat_uint uint_word_of_int)

lemma register_ok:
  assumes "mods_ok lookup s" "agree_from 0 (msMods s) tbl" "unat (smOp m) < spellModOpCount" "smModType m \<in> {107, 108}"
    and "smRef m = msNext s" "origin_ok lookup (msAuras s) m"
  shows "mods_ok lookup (snd (register_modifier m s))"
    and "agree_from 0 (msMods (snd (register_modifier m s))) (fold client_read (fst (register_modifier m s)) tbl)"
    and "msAuras (snd (register_modifier m s)) = msAuras s" "msContexts (snd (register_modifier m s)) = msContexts s"
proof -
  let ?op = "unat (smOp m)" and ?ms = "msMods s ! unat (smOp m)"
  have len: "length (msMods s) = 31" and old: "\<And>k. k < 31 \<Longrightarrow> op_mods_ok k (msMods s ! k)"
    using assms(1) by (auto simp: mods_ok_def mods_from_ok_def)
  have op: "smOp m = of_nat ?op" "?op < 31" using assms(3) by simp_all
  have mem: "?ms \<in> set (msMods s)" using op len by simp
  then have "\<forall>k \<in> set ?ms. smRef k < smRef m" using assms(1,5) by (simp add: mods_ok_def)
  then have fresh: "smRef m \<notin> smRef ` set ?ms" by auto
  have new: "op_mods_ok ?op (?ms @ [m])" using old [OF op(2)] fresh assms(4) by (auto simp: op_mods_ok_def)
  have fro: "mods_from_ok 0 (msMods s)" using assms(1) by (simp add: mods_ok_def)
  have ok': "mods_from_ok 0 ((msMods s)[?op := ?ms @ [m]])"
    using new old len op(2) by (auto simp: mods_from_ok_def nth_list_update)
  have refs: "smRef k < Suc (msNext s) \<and> origin_ok lookup (msAuras s) k" if "ms \<in> set ((msMods s)[?op := ?ms @ [m]])" "k \<in> set ms" for ms k
  proof (cases "k = m")
    case True
    then show ?thesis using assms(5,6) by simp
  next
    case False
    have "ms \<in> insert (?ms @ [m]) (set (msMods s))" using that(1) set_update_subset_insert by fastforce
    then have "\<exists>ms' \<in> set (msMods s). k \<in> set ms'" using that(2) False mem by auto
    then show ?thesis using assms(1) by (auto simp: mods_ok_def intro: less_SucI)
  qed
  show "mods_ok lookup (snd (register_modifier m s))"
    using ok' len refs by (auto simp: register_modifier_def Let_def mods_ok_def)
  have other: "(of_nat k :: u8) \<noteq> smOp m" if "k < 31" "k \<noteq> ?op" for k
    using that op of_nat_u8_eq [of k ?op] by simp
  show "agree_from 0 (msMods (snd (register_modifier m s))) (fold client_read (fst (register_modifier m s)) tbl)"
    unfolding agree_from_def
  proof (intro allI impI)
    fix k assume "k < length (msMods (snd (register_modifier m s)))"
    then have k: "k < 31" by (simp add: register_modifier_def Let_def len)
    then have "table_agrees (msMods s ! k) (of_nat k) tbl" using assms(2) len by (simp add: agree_from_def)
    then show "table_agrees (msMods (snd (register_modifier m s)) ! k) (of_nat (0 + k)) (fold client_read (fst (register_modifier m s)) tbl)"
      using frames_add [OF _ assms(4), of ?ms tbl] frames_other_op [OF assms(4) other [OF k]] k len
      by (cases "k = ?op") (simp_all add: register_modifier_def Let_def)
  qed
qed (simp_all add: register_modifier_def Let_def)

lemma add_effects_ok:
  assumes "mods_ok lookup s" "agree_from 0 (msMods s) tbl" "gget (msAuras s) owner = Some aura" "lookup (maSpellID aura) = Some sp"
  shows "mods_ok lookup (snd (add_effects sp aura owner index effects s)) \<and>
    agree_from 0 (msMods (snd (add_effects sp aura owner index effects s)))
      (fold client_read (fst (add_effects sp aura owner index effects s)) tbl)"
  using assms
proof (induction effects arbitrary: index s tbl)
  case (Cons effect effects)
  show ?case
  proof (cases "adds_modifier aura index effect")
    case True
    let ?m = "new_modifier sp aura owner index effect (msNext s)"
    let ?s = "snd (register_modifier ?m s)" and ?tbl = "fold client_read (fst (register_modifier ?m s)) tbl"
    have m: "smRef ?m = msNext s" "origin_ok lookup (msAuras s) ?m"
      using Cons.prems(3,4) by (auto simp: new_modifier_def origin_ok_def)
    note r = register_ok [OF Cons.prems(1,2) adds_modifier_op [OF True] m]
    have "gget (msAuras ?s) owner = Some aura" by (simp only: r(3) Cons.prems(3))
    from Cons.IH [OF r(1,2) this Cons.prems(4)] show ?thesis using True by (simp add: case_prod_beta Let_def)
  next
    case False
    then show ?thesis using Cons.IH [OF Cons.prems] by simp
  qed
qed simp

lemma addSpellMods_ok:
  assumes "mods_ok lookup s" "agree_from 0 (msMods s) tbl"
  shows "mods_ok lookup (snd (addSpellMods lookup owner s)) \<and>
    agree_from 0 (msMods (snd (addSpellMods lookup owner s))) (fold client_read (fst (addSpellMods lookup owner s)) tbl)"
  using assms add_effects_ok [OF assms] by (auto simp: addSpellMods_def split: option.splits)

lemma dropSpellMods_ok:
  assumes "mods_ok lookup s" "agree_from 0 (msMods s) tbl"
  shows "mods_ok lookup (snd (dropSpellMods spellID s)) \<and>
    agree_from 0 (msMods (snd (dropSpellMods spellID s))) (fold client_read (fst (dropSpellMods spellID s)) tbl)"
proof -
  let ?mods = "map (filter (\<lambda>m. \<not> owned_by_spell (msAuras s) spellID m)) (msMods s)"
  have fro: "mods_from_ok 0 (msMods s)" using assms(1) by (simp add: mods_ok_def)
  note d = drop_ops_agree [OF fro assms(2), of "msAuras s" spellID]
  have "mods_from_ok 0 ?mods" using fro by (simp add: mods_from_ok_def op_mods_ok_filter)
  then show ?thesis using assms(1) d by (auto simp: dropSpellMods_def case_prod_beta mods_ok_def)
qed

text \<open>What leaves the modifiers and the spells of the auras alone.\<close>

lemma mods_ok_auras:
  assumes "mods_ok lookup s" "\<And>a. gget (msAuras s) r = Some a \<Longrightarrow> maSpellID a' = maSpellID a"
  shows "mods_ok lookup (s\<lparr>msAuras := gput r a' (msAuras s)\<rparr>)"
proof -
  have "origin_ok lookup (msAuras s) m \<Longrightarrow> origin_ok lookup (gput r a' (msAuras s)) m" for m
    using assms(2) by (cases "smOwner m = r") (auto simp: origin_ok_def gm.get_put)
  then show ?thesis using assms(1) by (auto simp: mods_ok_def)
qed

lemma registerSpellModApplied_frame [simp]:
  "msMods (registerSpellModApplied taking owner usesCharges s) = msMods s"
  "msAuras (registerSpellModApplied taking owner usesCharges s) = msAuras s"
  "msNext (registerSpellModApplied taking owner usesCharges s) = msNext s"
  "msTaking (registerSpellModApplied taking owner usesCharges s) = msTaking s"
  by (simp_all add: registerSpellModApplied_def split: option.splits)

definition same_mods :: "mod_session \<Rightarrow> mod_session \<Rightarrow> bool" where
  "same_mods s s' \<longleftrightarrow> msMods s' = msMods s \<and> msAuras s' = msAuras s \<and> msNext s' = msNext s \<and> msTaking s' = msTaking s"

lemma apply_candidate_same: "same_mods s (snd (snd acc)) \<Longrightarrow> same_mods s (snd (snd (apply_candidate op ok taking c acc)))"
  by (auto simp: apply_candidate_def same_mods_def split: prod.splits)

lemma fold_candidates_same:
  "same_mods s (snd (snd acc)) \<Longrightarrow> same_mods s (snd (snd (snd (fold_candidates affects op ok taking cs charged acc))))"
  by (induction cs arbitrary: charged acc) (auto simp: Let_def apply_candidate_same)

lemma spellModTotals_same: "same_mods s (snd (snd (spellModTotals files lookup spell op ok s)))"
proof -
  have "same_mods s s" by (simp add: same_mods_def)
  then show ?thesis
    by (auto simp: spellModTotals_def Let_def case_prod_beta fold_candidates_same intro!: apply_candidate_same split: option.split)
qed

lemma mods_ok_same: "mods_ok lookup s \<Longrightarrow> same_mods s s' \<Longrightarrow> mods_ok lookup s'"
  by (simp add: mods_ok_def same_mods_def)

section \<open>Runs\<close>

text \<open>
  A session with the frames it has sent: auras register and drop their modifiers, change in every way but their spell, casts open
  and close contexts, and values are modified.
\<close>

inductive mods_reachable :: "dbc_files \<Rightarrow> (u32 \<Rightarrow> Spell option) \<Rightarrow> spellModFrame list \<Rightarrow> mod_session \<Rightarrow> bool"
  for files lookup where
  start: "mods_reachable files lookup [] no_mods"
| aura: "mods_reachable files lookup fs s \<Longrightarrow> (\<And>a. gget (msAuras s) r = Some a \<Longrightarrow> maSpellID a' = maSpellID a) \<Longrightarrow>
    mods_reachable files lookup fs (s\<lparr>msAuras := gput r a' (msAuras s)\<rparr>)"
| add: "mods_reachable files lookup fs s \<Longrightarrow> addSpellMods lookup owner s = (fs', s') \<Longrightarrow> mods_reachable files lookup (fs @ fs') s'"
| drop: "mods_reachable files lookup fs s \<Longrightarrow> dropSpellMods spellID s = (fs', s') \<Longrightarrow> mods_reachable files lookup (fs @ fs') s'"
| begin_cast: "mods_reachable files lookup fs s \<Longrightarrow> mods_reachable files lookup fs (beginSpellModTaking s)"
| push_cast: "mods_reachable files lookup fs s \<Longrightarrow> mods_reachable files lookup fs (pushSpellModTaking taking s)"
| end_cast: "mods_reachable files lookup fs s \<Longrightarrow> mods_reachable files lookup fs (endSpellModTaking s)"
| modify: "mods_reachable files lookup fs s \<Longrightarrow> applySpellMod files lookup spell op basevalue s = (v, s') \<Longrightarrow>
    mods_reachable files lookup fs s'"
| modify_float: "mods_reachable files lookup fs s \<Longrightarrow> applySpellModFloat files lookup spell op x s = (y, s') \<Longrightarrow>
    mods_reachable files lookup fs s'"

lemma taking_ok:
  "mods_ok lookup s \<Longrightarrow> mods_ok lookup (beginSpellModTaking s)"
  "mods_ok lookup s \<Longrightarrow> mods_ok lookup (pushSpellModTaking taking s)"
  "mods_ok lookup s \<Longrightarrow> mods_ok lookup (endSpellModTaking s)"
  by (auto simp: mods_ok_def beginSpellModTaking_def pushSpellModTaking_def endSpellModTaking_def intro: less_SucI split: option.split)

lemma taking_mods [simp]:
  "msMods (beginSpellModTaking s) = msMods s" "msMods (pushSpellModTaking taking s) = msMods s"
  "msMods (endSpellModTaking s) = msMods s"
  by (simp_all add: beginSpellModTaking_def pushSpellModTaking_def endSpellModTaking_def split: option.split)

lemma applySpellMod_same:
  "applySpellMod files lookup spell op basevalue s = (v, s') \<Longrightarrow> same_mods s s'"
  "applySpellModFloat files lookup spell op x s = (y, s') \<Longrightarrow> same_mods s s'"
  using spellModTotals_same [of s files lookup spell op "basevalue \<ge> 10000"]
    spellModTotals_same [of s files lookup spell op "x \<ge> f64_of_int 10000"]
  by (auto simp: applySpellMod_def applySpellModFloat_def same_mods_def split: if_splits prod.splits)

lemma reachable_agrees:
  "mods_reachable files lookup fs s \<Longrightarrow> mods_ok lookup s \<and> agree_from 0 (msMods s) (client_table fs)"
proof (induction rule: mods_reachable.induct)
  case start
  show ?case
    using no_mods_ok [of lookup]
    by (auto simp: agree_from_def no_mods_def table_agrees_def client_table_def registered_sum_def nth_replicate)
next
  case (aura fs s r a')
  then show ?case by (auto intro: mods_ok_auras)
next
  case (add fs s owner fs' s')
  then show ?case using addSpellMods_ok [of lookup s "client_table fs" owner] by (simp add: client_table_def)
next
  case (drop fs s spellID fs' s')
  then show ?case using dropSpellMods_ok [of lookup s "client_table fs" spellID] by (simp add: client_table_def)
next
  case (modify fs s spell op basevalue v s')
  then show ?case using applySpellMod_same(1) [OF modify(2)] mods_ok_same by (auto simp: same_mods_def)
next
  case (modify_float fs s spell op x y s')
  then show ?case using applySpellMod_same(2) [OF modify_float(2)] mods_ok_same by (auto simp: same_mods_def)
qed (simp_all add: taking_ok)


text \<open>
  A method sends its frames after it has given up the lock. When the frames of two modifiers pass each other on the way, the client
  keeps the sum without the second one.
\<close>

lemma late_frames_lose_a_modifier:
  assumes "smModType m \<in> {107, 108}" "smModType m' = smModType m" "smOp m' = smOp m" "covers m b" "covers m' b"
  shows "fold client_read (spellModFrames mods m True @ spellModFrames (mods @ [m]) m' True) tbl (opcode_of (smModType m)) (smOp m) b =
      registered_sum (mods @ [m, m']) (smModType m) b"
    and "fold client_read (spellModFrames (mods @ [m]) m' True @ spellModFrames mods m True) tbl (opcode_of (smModType m)) (smOp m) b =
      registered_sum (mods @ [m]) (smModType m) b"
  using assms by (simp_all add: read_frames frame_sum_def registered_sum_def add.assoc)

section \<open>Which modifiers count\<close>

text \<open>Outside of a cast every aura may spend; inside, one that uses charges must have one left or be registered.\<close>

definition charge_ready :: "nat option \<Rightarrow> mod_session \<Rightarrow> spellModifier \<Rightarrow> bool" where
  "charge_ready taking s c \<longleftrightarrow>
     taking = None \<or> \<not> smUsesCharges c \<or> charges_left s (smOwner c) \<or> spellModTakingApplied taking (smOwner c) s"

text \<open>An instant cast cannot be made faster than instant.\<close>

definition blocked :: "nat \<Rightarrow> bool \<Rightarrow> spellModifier \<Rightarrow> bool" where
  "blocked op instantBaseOK c \<longleftrightarrow>
     smModType c \<noteq> 107 \<and> op = spellModCastingTime \<and> smValue c \<le> -100 \<and> instantBaseOK"

definition counted_mods :: "dbc_files \<Rightarrow> (u32 \<Rightarrow> Spell option) \<Rightarrow> Spell \<Rightarrow> nat \<Rightarrow> bool \<Rightarrow> mod_session \<Rightarrow> spellModifier list" where
  "counted_mods files lookup spell op instantBaseOK s =
     (let cs = filter (\<lambda>c. mod_live s c \<and> spellModAffectsSpell files lookup (smSpellID c) (smMask c) op spell) (msMods s ! op) in
      filter (\<lambda>c. \<not> blocked op instantBaseOK c)
        (filter (\<lambda>c. \<not> smUsesCharges c) cs @
         take 1 (filter (\<lambda>c. smUsesCharges c \<and> charge_ready (spellModTakingCurrent s) s c) cs)))"

definition is_flat :: "spellModifier \<Rightarrow> bool" where
  "is_flat c \<longleftrightarrow> smModType c = 107"

lemma charges_left_frame [simp]:
  "charges_left (registerSpellModApplied taking owner usesCharges s) a = charges_left s a"
  by (simp add: charges_left_def)

lemma applied_register:
  "spellModTakingApplied taking a (registerSpellModApplied taking owner usesCharges s) \<longleftrightarrow>
     spellModTakingApplied taking a s \<or> taking \<noteq> None \<and> a = owner \<and> (usesCharges \<longrightarrow> charges_left s owner)"
  by (auto simp: spellModTakingApplied_def registerSpellModApplied_def applied_auras_def gm.get_put split: option.splits)

lemma applied_candidate:
  "spellModTakingApplied taking a (snd (snd (apply_candidate op ok taking c acc))) \<Longrightarrow>
     spellModTakingApplied taking a (snd (snd acc)) \<or> a = smOwner c"
  by (auto simp: apply_candidate_def applied_register split: prod.splits if_splits)

lemma applied_candidate_mono:
  "spellModTakingApplied taking a (snd (snd acc)) \<Longrightarrow> spellModTakingApplied taking a (snd (snd (apply_candidate op ok taking c acc)))"
  by (auto simp: apply_candidate_def applied_register split: prod.splits)

lemma charges_candidate: "charges_left (snd (snd (apply_candidate op ok taking c acc))) a = charges_left (snd (snd acc)) a"
  by (auto simp: apply_candidate_def split: prod.splits)

definition charges_agree :: "spellModifier set \<Rightarrow> bool" where
  "charges_agree cs \<longleftrightarrow> (\<forall>c \<in> cs. \<forall>c' \<in> cs. smOwner c = smOwner c' \<longrightarrow> smUsesCharges c = smUsesCharges c')"

lemma charges_agree_D: "charges_agree cs \<Longrightarrow> c \<in> cs \<Longrightarrow> c' \<in> cs \<Longrightarrow> smUsesCharges c \<Longrightarrow> \<not> smUsesCharges c' \<Longrightarrow> smOwner c \<noteq> smOwner c'"
  unfolding charges_agree_def by blast

lemma charges_agree_mono: "charges_agree cs \<Longrightarrow> cs' \<subseteq> cs \<Longrightarrow> charges_agree cs'"
  unfolding charges_agree_def by blast

lemma fold_candidates_split:
  assumes "\<forall>c \<in> set cs. smUsesCharges c \<longrightarrow>
      spellModTakingApplied taking (smOwner c) (snd (snd acc)) = spellModTakingApplied taking (smOwner c) s"
    and "\<forall>a. charges_left (snd (snd acc)) a = charges_left s a"
    and "charges_agree (set cs)"
  shows "fold_candidates affects op ok taking cs charged acc =
    (case charged of
       Some x \<Rightarrow> Some x
     | None \<Rightarrow> List.find (\<lambda>c. smUsesCharges c \<and> charge_ready taking s c \<and> affects c) cs,
     fold (apply_candidate op ok taking) (filter (\<lambda>c. \<not> smUsesCharges c \<and> affects c) cs) acc)"
  using assms
proof (induction cs arbitrary: charged acc)
  case Nil
  show ?case by (cases charged) simp_all
next
  case (Cons c cs)
  let ?acc = "apply_candidate op ok taking c acc"
  have rest: "charges_agree (set cs)"
    "\<forall>c \<in> set cs. smUsesCharges c \<longrightarrow>
      spellModTakingApplied taking (smOwner c) (snd (snd acc)) = spellModTakingApplied taking (smOwner c) s"
    using charges_agree_mono [OF Cons.prems(3)] Cons.prems(1) by auto
  note same = Cons.IH [OF rest(2) Cons.prems(2) rest(1)]
  show ?case
  proof (cases "smUsesCharges c")
    case True
    then have app: "spellModTakingApplied taking (smOwner c) (snd (snd acc)) = spellModTakingApplied taking (smOwner c) s"
      and left: "charges_left (snd (snd acc)) (smOwner c) = charges_left s (smOwner c)"
      using Cons.prems(1,2) by simp_all
    show ?thesis
      by (cases "charge_ready taking s c"; cases "affects c"; cases charged)
        (simp_all add: True Let_def same app left, auto simp: charge_ready_def True app left)
  next
    case False
    have "\<forall>x \<in> set cs. smUsesCharges x \<longrightarrow>
        spellModTakingApplied taking (smOwner x) (snd (snd ?acc)) = spellModTakingApplied taking (smOwner x) s"
    proof (intro ballI impI)
      fix x assume x: "x \<in> set cs" "smUsesCharges x"
      then have "smOwner x \<noteq> smOwner c" using charges_agree_D [OF Cons.prems(3), of x c] False by simp
      then show "spellModTakingApplied taking (smOwner x) (snd (snd ?acc)) = spellModTakingApplied taking (smOwner x) s"
        using applied_candidate applied_candidate_mono rest(2) x by blast
    qed
    moreover have "\<forall>a. charges_left (snd (snd ?acc)) a = charges_left s a"
      using Cons.prems(2) by (simp add: charges_candidate)
    ultimately show ?thesis
      using Cons.IH [OF _ _ rest(1), of ?acc] False by (cases charged) (simp_all add: same Let_def)
  qed
qed

lemma find_take: "(case List.find P xs of None \<Rightarrow> [] | Some x \<Rightarrow> [x]) = take 1 (filter P xs)"
  by (induction xs) auto

lemma spellModTotals_fold:
  assumes "mods_ok lookup s" "op < spellModOpCount"
  shows "spellModTotals files lookup spell op ok s =
    (let cs = filter (\<lambda>c. mod_live s c \<and> spellModAffectsSpell files lookup (smSpellID c) (smMask c) op spell) (msMods s ! op);
         taking = spellModTakingCurrent s in
     fold (apply_candidate op ok taking)
       (filter (\<lambda>c. \<not> smUsesCharges c) cs @ take 1 (filter (\<lambda>c. smUsesCharges c \<and> charge_ready taking s c) cs))
       (0, f64_of_int 1, s))"
proof -
  let ?taking = "spellModTakingCurrent s" and ?cs = "filter (mod_live s) (msMods s ! op)"
  let ?affects = "\<lambda>c. spellModAffectsSpell files lookup (smSpellID c) (smMask c) op spell"
  let ?find = "List.find (\<lambda>c. smUsesCharges c \<and> charge_ready ?taking s c \<and> ?affects c) ?cs"
  let ?plain = "filter (\<lambda>c. \<not> smUsesCharges c \<and> ?affects c) ?cs"
  have "msMods s ! op \<in> set (msMods s)" using assms by (simp add: mods_ok_def)
  then have "\<forall>c \<in> set ?cs. origin_ok lookup (msAuras s) c" using assms(1) by (auto simp: mods_ok_def)
  then have "charges_agree (set ?cs)" unfolding origin_ok_def charges_agree_def by (metis option.inject)
  then have f: "fold_candidates ?affects op ok ?taking ?cs None (0, f64_of_int 1, s) =
      (?find, fold (apply_candidate op ok ?taking) ?plain (0, f64_of_int 1, s))"
    using fold_candidates_split [of ?cs ?taking "(0, f64_of_int 1, s)" s ?affects op ok None] by simp
  have "spellModTotals files lookup spell op ok s =
      fold (apply_candidate op ok ?taking) (?plain @ (case ?find of None \<Rightarrow> [] | Some x \<Rightarrow> [x])) (0, f64_of_int 1, s)"
    by (cases ?find) (simp_all add: spellModTotals_def Let_def f)
  moreover have "?plain = filter (\<lambda>c. \<not> smUsesCharges c) (filter (\<lambda>c. mod_live s c \<and> ?affects c) (msMods s ! op))"
    "filter (\<lambda>c. smUsesCharges c \<and> charge_ready ?taking s c \<and> ?affects c) ?cs =
      filter (\<lambda>c. smUsesCharges c \<and> charge_ready ?taking s c) (filter (\<lambda>c. mod_live s c \<and> ?affects c) (msMods s ! op))"
    unfolding filter_filter by (rule filter_cong [OF refl], blast)+
  ultimately show ?thesis by (simp only: find_take Let_def)
qed

section \<open>The totals in closed form\<close>

lemma fold_apply_candidates:
  assumes "op \<noteq> spellModCriticalChance" "op \<noteq> spellModGlobalCooldown"
  shows "fold (apply_candidate op ok taking) cs (to_i32 flat, totalMul, s) =
    (let counted = filter (\<lambda>c. \<not> blocked op ok c) cs in
     (to_i32 (flat + (\<Sum>c\<leftarrow>filter is_flat counted. smValue c)),
      fold (\<lambda>c mul. f64_add mul (pct (smValue c))) (filter (\<lambda>c. \<not> is_flat c) counted) totalMul,
      fold (\<lambda>c. registerSpellModApplied taking (smOwner c) (smUsesCharges c)) counted s))"
proof (induction cs arbitrary: flat totalMul s)
  case (Cons c cs)
  consider "is_flat c" | "\<not> is_flat c" "blocked op ok c" | "\<not> is_flat c" "\<not> blocked op ok c" by blast
  then show ?case
  proof cases
    case 1
    then have "apply_candidate op ok taking c (to_i32 flat, totalMul, s) =
        (to_i32 (flat + smValue c), totalMul, registerSpellModApplied taking (smOwner c) (smUsesCharges c) s)"
      by (simp add: apply_candidate_def is_flat_def)
    moreover have "\<not> blocked op ok c" using 1 by (simp add: blocked_def is_flat_def)
    ultimately show ?thesis using 1 by (simp add: Cons.IH Let_def add.assoc)
  next
    case 2
    then have "apply_candidate op ok taking c (to_i32 flat, totalMul, s) = (to_i32 flat, totalMul, s)"
      by (simp add: apply_candidate_def is_flat_def blocked_def)
    then show ?thesis using 2 by (simp add: Cons.IH)
  next
    case 3
    then have "apply_candidate op ok taking c (to_i32 flat, totalMul, s) =
        (to_i32 flat, f64_add totalMul (pct (smValue c)), registerSpellModApplied taking (smOwner c) (smUsesCharges c) s)"
      using assms by (auto simp: apply_candidate_def is_flat_def blocked_def)
    then show ?thesis using 3 by (simp add: Cons.IH Let_def)
  qed
qed simp

lemma applied_fold:
  "spellModTakingApplied taking a (fold (\<lambda>c. registerSpellModApplied taking (smOwner c) (smUsesCharges c)) cs s) \<longleftrightarrow>
     spellModTakingApplied taking a s \<or>
     taking \<noteq> None \<and> (\<exists>c \<in> set cs. smOwner c = a \<and> (smUsesCharges c \<longrightarrow> charges_left s a))"
  by (induction cs arbitrary: s) (auto simp: applied_register)


section \<open>An example\<close>

definition talent :: Spell where
  "talent = no_spell\<lparr>spID := 5, spSpellFamilyName := 3, spEffects :=
     [no_effect\<lparr>seAura := spellAuraAddFlatModifier, seMiscValue := 0, seSpellClassMask := [1, 0, 0], seBasePoints := 8\<rparr>,
      no_effect\<lparr>seAura := spellAuraAddPctModifier, seMiscValue := 0, seSpellClassMask := [1, 0, 0]\<rparr>, no_effect]\<rparr>"

definition talents :: "u32 \<Rightarrow> Spell option" where
  "talents i = (if i = 5 \<or> i = 6 then Some (talent\<lparr>spID := i\<rparr>) else None)"

definition bolt :: Spell where
  "bolt = no_spell\<lparr>spID := 9, spSpellFamilyName := 3, spSpellFamilyFlags := [1, 0, 0]\<rparr>"

definition talent_aura :: "u32 \<Rightarrow> int \<Rightarrow> mod_aura" where
  "talent_aura i v = \<lparr>maSpellID = i, maEffectMask = 3, maAmount = 0, maAmounts = [v, 10, 0], maRemainingCharges = 0, maStopped = False\<rparr>"

definition with_aura :: mod_session where
  "with_aura = no_mods\<lparr>msAuras := gput 0 (talent_aura 5 4) (msAuras no_mods)\<rparr>"

definition talented :: "spellModFrame list \<times> mod_session" where
  "talented = addSpellMods talents 0 with_aura"

definition no_tables :: dbc_files where
  "no_tables name = Inl ErrEOF"

lemma talented_reachable: "mods_reachable no_tables talents (fst talented) (snd talented)"
proof -
  have "mods_reachable no_tables talents [] with_aura"
    unfolding with_aura_def by (rule mods_reachable.aura [OF mods_reachable.start]) (simp add: no_mods_def gget_def)
  from mods_reachable.add [OF this, of 0 "fst talented" "snd talented"] show ?thesis by (simp add: talented_def)
qed



text \<open>Ninety percent off a second leaves 99 milliseconds: the factor \<open>1 + (- 0.9)\<close> lies below a tenth in \<open>float64\<close>.\<close>

lemma minus_ninety: "pct (- 90) = - (8106479329266893 * 2 ^ 1021)"
proof -
  have fin: "\<bar>(- 90) * f64_unit\<bar> \<noteq> f64_inf" by (rule f64_small_finite) simp
  have "f64_mag (90 * (f64_unit * f64_unit)) (100 * f64_unit) =
      min f64_inf (quot_even (90 * (f64_unit * f64_unit)) (100 * f64_unit * 2 ^ 1021) * 2 ^ 1021)"
    by (rule f64_mag_binade) (simp_all add: f64_unit_def)
  also have "quot_even (90 * (f64_unit * f64_unit)) (100 * f64_unit * 2 ^ 1021) = quot_even (90 * 2 ^ 53) 100"
    using quot_even_scale [of "f64_unit * 2 ^ 1021" "90 * 2 ^ 53" 100] by (simp add: f64_unit_def)
  also have "quot_even (90 * 2 ^ 53) 100 = 8106479329266893" by (simp add: quot_even_def)
  finally have "f64_mag (90 * (f64_unit * f64_unit)) (100 * f64_unit) = 8106479329266893 * 2 ^ 1021"
    by (simp add: f64_inf_def)
  moreover have "(- 90) * f64_unit * f64_unit < 0" by (simp add: f64_unit_def)
  ultimately show ?thesis
    using fin by (simp add: pct_def f64_div_def f64_quot_def f64_of_int_exact mult.assoc)
qed

lemma ninety_percent_off: "modded 1000 0 (f64_add (f64_of_int 1) (pct (- 90))) = 99"
proof -
  have "f64_add (f64_of_int 1) (pct (- 90)) = f64_quot (900719925474099 * 2 ^ 1021) 1"
    by (simp add: f64_add_def minus_ninety f64_of_int_exact f64_unit_def f64_inf_def)
  also have "\<dots> = 900719925474099 * 2 ^ 1021"
    using f64_mag_exact [of 900719925474099 1021] by (simp add: f64_quot_def)
  finally have factor: "f64_add (f64_of_int 1) (pct (- 90)) = 900719925474099 * 2 ^ 1021" .
  have "f64_mag (1000 * f64_unit * (900719925474099 * 2 ^ 1021)) f64_unit =
      min f64_inf (quot_even (1000 * f64_unit * (900719925474099 * 2 ^ 1021)) (f64_unit * 2 ^ 1028) * 2 ^ 1028)"
    by (rule f64_mag_binade) (simp_all add: f64_unit_def)
  also have "quot_even (1000 * f64_unit * (900719925474099 * 2 ^ 1021)) (f64_unit * 2 ^ 1028) = quot_even 900719925474099000 128"
    using quot_even_scale [of "f64_unit * 2 ^ 1021" 900719925474099000 128] by (simp add: f64_unit_def)
  also have "quot_even 900719925474099000 128 = 7036874417766398" by (simp add: quot_even_def)
  finally have "f64_mul (f64_of_int 1000) (900719925474099 * 2 ^ 1021) = 7036874417766398 * 2 ^ 1028"
    using f64_small_finite [of 1000]
    by (simp add: f64_mul_def f64_quot_def f64_of_int_exact f64_unit_def f64_inf_def)
  then show ?thesis
    by (simp add: modded_def factor f64_to_i32_def f64_unit_def)
qed

text \<open>An amount of 0 stands for the base points when a modifier is registered, and for 0 once the aura is refreshed.\<close>

lemma refresh_forgets_base_points:
  "let aura = talent_aura 5 0; m = new_modifier talent aura 0 0 (spEffects talent ! 0) 0 in
   smValue m = 8 \<and> smValue (refresh_modifier 0 aura m) = 0"
  by code_simp

end
