(* ===== verification/Absorption.thy ===== *)
theory Absorption
  imports Spell_Mods
begin

text \<open>
  \<^verbatim>\<open>engine/world/absorption.go\<close>: the shields that take the damage before the health does. The auras of a unit are a map from spells
  to auras; a shield is one of them, and the damage is taken from the shields in the order of their priority.
\<close>

unbundle bit_operations_syntax

section \<open>State\<close>

abbreviation (input) SpellAuraSchoolAbsorb :: u32 where "SpellAuraSchoolAbsorb \<equiv> 69"
abbreviation (input) SpellAuraManaShield :: u32 where "SpellAuraManaShield \<equiv> 97"
abbreviation (input) spellFamilyMage :: u32 where "spellFamilyMage \<equiv> 3"
abbreviation (input) spellFamilyWarlock :: u32 where "spellFamilyWarlock \<equiv> 5"
abbreviation (input) spellModValueMultiplier :: nat where "spellModValueMultiplier \<equiv> 27"

record shield_aura =
  shSpellID :: u32
  shCasterGUID :: u64
  shAuraType :: u32
  shEffectMask :: u8
  shMiscValue :: int
  shSchoolMask :: u32
  shAmount :: u32
  shAmounts :: "int list"
  shStopped :: bool

text \<open>
  Of the server: the spell table and its files, which session owns the spell modifiers of a caster, and these sessions. Of the
  victim: which session it is, its auras and its mana.
\<close>

record absorb_env =
  aeFiles :: dbc_files
  aeSpells :: "u32 \<Rightarrow> Spell option"
  aeOwner :: "u64 \<Rightarrow> nat option"

record absorb_state =
  asAuras :: "(u32, shield_aura) gomap"
  asMana :: u32
  asSessions :: "(nat, mod_session) gomap"

section \<open>Priority\<close>

definition absorbAuraPriority :: "(u32 \<Rightarrow> Spell option) \<Rightarrow> shield_aura \<Rightarrow> nat" where
  "absorbAuraPriority lookup aura =
     (if shAuraType aura = SpellAuraSchoolAbsorb then
        let known = (case lookup (shSpellID aura) of
              None \<Rightarrow> None
            | Some spell \<Rightarrow>
                if (spSpellFamilyName spell = spellFamilyMage \<or> spSpellFamilyName spell = spellFamilyWarlock) \<and> spCategory spell = 56
                  then Some 1
                else if shSpellID aura = 58597 then Some 2
                else if shSpellID aura = 28527 then Some 3
                else if shSpellID aura = 47753 then Some 4
                else if spCategory spell = 471 then Some 5
                else if spSpellFamilyName spell = spellFamilyWarlock \<and> spSpellIconID spell = 693 then Some 6
                else None) in
        case known of
          Some p \<Rightarrow> p
        | None \<Rightarrow> if shSchoolMask aura \<noteq> 0 \<and> shSchoolMask aura \<noteq> 127 then 7 else 9
      else if shAuraType aura = SpellAuraManaShield then 10
      else 99)"

definition shield_key :: "(u32 \<Rightarrow> Spell option) \<Rightarrow> u32 \<times> shield_aura \<Rightarrow> nat \<times> u32" where
  "shield_key lookup entry = (absorbAuraPriority lookup (snd entry), shSpellID (snd entry))"

text \<open>The shields that are up, in the order in which they take damage.\<close>

definition shieldList :: "(u32 \<Rightarrow> Spell option) \<Rightarrow> (u32, shield_aura) gomap \<Rightarrow> (u32 \<times> shield_aura) list" where
  "shieldList lookup auras =
     sort_key (\<lambda>e. fst (shield_key lookup e))
       (sort_key (\<lambda>e. snd (shield_key lookup e)) (filter (\<lambda>(_, aura). \<not> shStopped aura \<and> shAmount aura > 0) auras))"

section \<open>The multiplier of a mana shield\<close>

text \<open>
  \<open>calcValueMultiplier\<close> of \<^verbatim>\<open>spells.go\<close>. The session that owns the modifiers locks its own mutex; \<open>None\<close> when it is the one that
  already holds it, which then waits for itself for ever.
\<close>

definition f64_of_f32 :: "f32v \<Rightarrow> f64v" where
  "f64_of_f32 x = x * 2 ^ 925"

definition f32_of_f64 :: "f64v \<Rightarrow> f32v" where
  "f32_of_f64 x = f32_round 925 x"

definition calcValueMultiplier :: "absorb_env \<Rightarrow> nat \<Rightarrow> Spell \<Rightarrow> nat \<Rightarrow> nat option \<Rightarrow> (nat, mod_session) gomap \<Rightarrow>
    (f32v \<times> (nat, mod_session) gomap) option" where
  "calcValueMultiplier env holder spell effIndex modOwner sessions =
     (let mul = (if effIndex < length (spEffects spell) then seAmplitude (spEffects spell ! effIndex) else f32_of_int 1) in
      case modOwner of
        None \<Rightarrow> Some (mul, sessions)
      | Some owner \<Rightarrow>
          (case gget sessions owner of
             None \<Rightarrow> Some (mul, sessions)
           | Some s \<Rightarrow>
               if owner = holder \<and> \<not> has_flag (spAttributesEx3 spell) spellAttr3NoDoneBonus then None
               else case applySpellModFloat (aeFiles env) (aeSpells env) spell spellModValueMultiplier (f64_of_f32 mul) s of
                 (mul, s') \<Rightarrow> Some (f32_of_f64 mul, gput owner s' sessions)))"

definition aura_effect_index :: "u32 \<Rightarrow> SpellEffect list \<Rightarrow> nat option" where
  "aura_effect_index auraType effects = List.find (\<lambda>i. seAura (effects ! i) = auraType) [0..<length effects]"

definition calcValueMultiplierForAura :: "absorb_env \<Rightarrow> nat \<Rightarrow> u32 \<Rightarrow> u32 \<Rightarrow> nat option \<Rightarrow> (nat, mod_session) gomap \<Rightarrow>
    (f32v \<times> (nat, mod_session) gomap) option" where
  "calcValueMultiplierForAura env holder spellID auraType modOwner sessions =
     (case aeSpells env spellID of
        None \<Rightarrow> Some (f32_of_int 1, sessions)
      | Some spell \<Rightarrow>
          (case aura_effect_index auraType (spEffects spell) of
             None \<Rightarrow> Some (f32_of_int 1, sessions)
           | Some i \<Rightarrow> calcValueMultiplier env holder spell i modOwner sessions))"

section \<open>Shields of a player\<close>

text \<open>The damage absorbed and left, the mana left and the spells of the shields used up.\<close>

record absorb_run =
  arAbsorbed :: u32
  arRemaining :: u32
  arMana :: u32
  arExhausted :: "u32 list"

definition schools_match :: "shield_aura \<Rightarrow> u8 \<Rightarrow> bool" where
  "schools_match aura schoolMask \<longleftrightarrow> shMiscValue aura AND uint schoolMask \<noteq> 0"

definition take_shield :: "u32 \<Rightarrow> shield_aura \<Rightarrow> absorb_run \<Rightarrow> shield_aura \<times> absorb_run" where
  "take_shield amount aura run =
     (let aura' = aura\<lparr>shAmount := shAmount aura - amount\<rparr> in
      (aura',
       run\<lparr>arRemaining := arRemaining run - amount, arAbsorbed := arAbsorbed run + amount,
           arExhausted := (if shAmount aura' = 0 then arExhausted run @ [shSpellID aura] else arExhausted run)\<rparr>))"

definition school_absorb :: "u8 \<Rightarrow> shield_aura \<Rightarrow> absorb_run \<Rightarrow> shield_aura \<times> absorb_run" where
  "school_absorb schoolMask aura run =
     (if schools_match aura schoolMask then
        take_shield (if shAmount aura > arRemaining run then arRemaining run else shAmount aura) aura run
      else (aura, run))"

definition mana_cost :: "u32 \<Rightarrow> f64v \<Rightarrow> int" where
  "mana_cost candidate mul =
     (let cost = f64_to_i32 (f64_mul (f64_of_int (uint candidate)) mul) in if cost < 0 then 0 else cost)"

text \<open>What the mana pays of a candidate: all of it, or the paid fraction.\<close>

definition paid_part :: "u32 \<Rightarrow> u32 \<Rightarrow> int \<Rightarrow> u32" where
  "paid_part candidate manaTaken cost =
     (if cost > 0 \<and> uint manaTaken < cost then
        f64_to_u32 (f64_mul (f64_of_int (uint candidate)) (f64_div (f64_of_int (uint manaTaken)) (f64_of_int cost)))
      else candidate)"

definition mana_shield :: "f64v \<Rightarrow> shield_aura \<Rightarrow> absorb_run \<Rightarrow> shield_aura \<times> absorb_run" where
  "mana_shield mul aura run =
     (let candidate = (if shAmount aura > arRemaining run then arRemaining run else shAmount aura);
          manaReduction = mana_cost candidate mul;
          manaTaken = (if uint (arMana run) > manaReduction then word_of_int manaReduction else arMana run);
          absorbPossible = paid_part candidate manaTaken manaReduction in
      if absorbPossible > 0 then take_shield absorbPossible aura (run\<lparr>arMana := arMana run - manaTaken\<rparr>) else (aura, run))"

definition player_shield :: "absorb_env \<Rightarrow> nat \<Rightarrow> u8 \<Rightarrow> shield_aura \<Rightarrow> absorb_run \<Rightarrow> (nat, mod_session) gomap \<Rightarrow>
    (shield_aura \<times> absorb_run \<times> (nat, mod_session) gomap) option" where
  "player_shield env self schoolMask aura run sessions =
     (if shAuraType aura = SpellAuraSchoolAbsorb then
        (case school_absorb schoolMask aura run of (aura', run') \<Rightarrow> Some (aura', run', sessions))
      else if shAuraType aura = SpellAuraManaShield \<and> arMana run > 0 \<and> schools_match aura schoolMask then
        (case calcValueMultiplierForAura env self (shSpellID aura) SpellAuraManaShield (aeOwner env (shCasterGUID aura)) sessions of
           None \<Rightarrow> None
         | Some (mul, sessions') \<Rightarrow>
             (case mana_shield (if mul = 0 then f64_of_int 1 else f64_of_f32 mul) aura run of
                (aura', run') \<Rightarrow> Some (aura', run', sessions')))
      else Some (aura, run, sessions))"

fun player_shields :: "absorb_env \<Rightarrow> nat \<Rightarrow> u8 \<Rightarrow> (u32 \<times> shield_aura) list \<Rightarrow> absorb_run \<Rightarrow> (nat, mod_session) gomap \<Rightarrow>
    ((u32 \<times> shield_aura) list \<times> absorb_run \<times> (nat, mod_session) gomap) option" where
  "player_shields env self schoolMask [] run sessions = Some ([], run, sessions)"
| "player_shields env self schoolMask ((key, aura) # rest) run sessions =
     (if arRemaining run = 0 then Some ((key, aura) # rest, run, sessions)
      else case player_shield env self schoolMask aura run sessions of
        None \<Rightarrow> None
      | Some (aura', run', sessions') \<Rightarrow>
          (case player_shields env self schoolMask rest run' sessions' of
             None \<Rightarrow> None
           | Some (rest', run'', sessions'') \<Rightarrow> Some ((key, aura') # rest', run'', sessions'')))"

text \<open>The shields are objects of the map; those used up leave it.\<close>

definition store_shields :: "(u32 \<times> shield_aura) list \<Rightarrow> u32 list \<Rightarrow> (u32, shield_aura) gomap \<Rightarrow> (u32, shield_aura) gomap" where
  "store_shields shields exhausted auras = fold gdel exhausted (fold (\<lambda>(key, aura). gput key aura) shields auras)"

definition applyAbsorptionShields :: "absorb_env \<Rightarrow> nat \<Rightarrow> u32 \<Rightarrow> u8 \<Rightarrow> absorb_state \<Rightarrow> (u32 \<times> u32 \<times> absorb_state) option" where
  "applyAbsorptionShields env self damage schoolMask s =
     (if damage = 0 then Some (0, damage, s)
      else case player_shields env self schoolMask (shieldList (aeSpells env) (asAuras s))
          \<lparr>arAbsorbed = 0, arRemaining = damage, arMana = asMana s, arExhausted = []\<rparr> (asSessions s) of
        None \<Rightarrow> None
      | Some (shields, run, sessions) \<Rightarrow>
          Some (arAbsorbed run, arRemaining run,
            \<lparr>asAuras = store_shields shields (arExhausted run) (asAuras s), asMana = arMana run, asSessions = sessions\<rparr>))"

section \<open>Shields of a creature\<close>

text \<open>The mana of a creature is \<open>None\<close> when it has no motion.\<close>

record creature_absorb =
  caAuras :: "(u32, shield_aura) gomap"
  caMana :: "u32 option"

definition creature_mana_shield :: "shield_aura \<Rightarrow> absorb_run \<Rightarrow> shield_aura \<times> absorb_run" where
  "creature_mana_shield aura run =
     (let candidate = (if shAmount aura > arRemaining run then arRemaining run else shAmount aura);
          neededMana = word_of_int (f64_to_i32 (f64_mul (f64_of_int (uint candidate)) (f64_div (f64_of_int 3) (f64_of_int 2))));
          manaTaken = (if arMana run > neededMana then neededMana else arMana run);
          run = run\<lparr>arMana := arMana run - manaTaken\<rparr>;
          absorbPossible = paid_part candidate manaTaken (uint neededMana) in
      if absorbPossible > 0 then take_shield absorbPossible aura run else (aura, run))"

definition creature_shield :: "bool \<Rightarrow> u8 \<Rightarrow> shield_aura \<Rightarrow> absorb_run \<Rightarrow> shield_aura \<times> absorb_run" where
  "creature_shield hasMotion schoolMask aura run =
     (if shAuraType aura = SpellAuraSchoolAbsorb then school_absorb schoolMask aura run
      else if shAuraType aura = SpellAuraManaShield \<and> hasMotion \<and> arMana run > 0 \<and> schools_match aura schoolMask
        then creature_mana_shield aura run
      else (aura, run))"

fun creature_shields :: "bool \<Rightarrow> u8 \<Rightarrow> (u32 \<times> shield_aura) list \<Rightarrow> absorb_run \<Rightarrow> (u32 \<times> shield_aura) list \<times> absorb_run" where
  "creature_shields hasMotion schoolMask [] run = ([], run)"
| "creature_shields hasMotion schoolMask ((key, aura) # rest) run =
     (if arRemaining run = 0 then ((key, aura) # rest, run)
      else
        let (aura', run') = creature_shield hasMotion schoolMask aura run;
            (rest', run'') = creature_shields hasMotion schoolMask rest run' in
        ((key, aura') # rest', run''))"

definition applyCreatureAbsorptionShields :: "(u32 \<Rightarrow> Spell option) \<Rightarrow> u64 \<Rightarrow> u32 \<Rightarrow> u8 \<Rightarrow> creature_absorb \<Rightarrow> u32 \<times> u32 \<times> creature_absorb" where
  "applyCreatureAbsorptionShields lookup guid damage schoolMask c =
     (if guid = 0 \<or> damage = 0 then (0, damage, c)
      else case creature_shields (caMana c \<noteq> None) schoolMask (shieldList lookup (caAuras c))
          \<lparr>arAbsorbed = 0, arRemaining = damage, arMana = (case caMana c of None \<Rightarrow> 0 | Some m \<Rightarrow> m), arExhausted = []\<rparr> of
        (shields, run) \<Rightarrow>
          (arAbsorbed run, arRemaining run,
           \<lparr>caAuras = store_shields shields (arExhausted run) (caAuras c), caMana = map_option (\<lambda>_. arMana run) (caMana c)\<rparr>))"

section \<open>Damage that passes the shields\<close>

definition absorbIgnoreBypass :: "u32 \<Rightarrow> f64v \<Rightarrow> u32" where
  "absorbIgnoreBypass damage ignorePct =
     (if damage = 0 \<or> ignorePct \<le> 0 then 0
      else f64_to_u32 (f64_div (f64_mul (f64_of_int (uint damage)) ignorePct) (f64_of_int 100)))"

end
