(* ===== verification/Absorption_Spec.thy ===== *)
theory Absorption_Spec
  imports Absorption "HOL-Library.Multiset"
begin

text \<open>
  What the shields take is what the health is spared: damage is conserved, shields are used up in order, the order in which the map
  is read does not matter, and a mage who shields himself waits for his own lock.
\<close>

section \<open>One shield\<close>

text \<open>A step that moves \<open>a\<close> points of damage from the rest into the shield, and spends mana at most.\<close>

definition absorbs :: "nat \<Rightarrow> shield_aura \<Rightarrow> absorb_run \<Rightarrow> shield_aura \<Rightarrow> absorb_run \<Rightarrow> bool" where
  "absorbs a aura run aura' run' \<longleftrightarrow>
     (\<exists>n. aura' = aura\<lparr>shAmount := n\<rparr>) \<and>
     unat (shAmount aura) = unat (shAmount aura') + a \<and> unat (arRemaining run) = unat (arRemaining run') + a \<and>
     arAbsorbed run' = arAbsorbed run + of_nat a \<and> arMana run' \<le> arMana run \<and>
     arExhausted run' = (if a > 0 \<and> shAmount aura' = 0 then arExhausted run @ [shSpellID aura] else arExhausted run)"

lemma absorbs_0: "absorbs 0 aura run aura run"
  by (auto simp: absorbs_def intro: exI [of _ "shAmount aura"])

lemma absorbs_same_mana: "m \<le> arMana run \<Longrightarrow> absorbs 0 aura run aura (run\<lparr>arMana := m\<rparr>)"
  by (auto simp: absorbs_def intro: exI [of _ "shAmount aura"])

lemma absorbs_amount: "absorbs a aura run aura' run' \<Longrightarrow> a = unat (shAmount aura) - unat (shAmount aura')"
  by (simp add: absorbs_def)

lemma smaller_le: "(if b < a then b else a) \<le> (a :: u32)"
  by auto

lemma take_shield_absorbs:
  assumes "0 < amount" "amount \<le> shAmount aura" "amount \<le> arRemaining run" "m \<le> arMana run"
    and "take_shield amount aura (run\<lparr>arMana := m\<rparr>) = (aura', run')"
  shows "absorbs (unat amount) aura run aura' run'"
proof -
  have "unat amount > 0" using assms(1) by (simp add: unat_gt_0 word_gt_0)
  then show ?thesis
    using assms by (auto simp: take_shield_def absorbs_def Let_def unat_sub word_le_nat_alt)
qed

lemma school_absorb_absorbs:
  assumes "school_absorb schoolMask aura run = (aura', run')" "shAmount aura > 0" "arRemaining run > 0"
  shows "\<exists>a. absorbs a aura run aura' run'"
    and "schools_match aura schoolMask \<Longrightarrow> arRemaining run' = 0 \<or> shAmount aura' = 0"
    and "arMana run' = arMana run"
proof -
  let ?n = "if shAmount aura > arRemaining run then arRemaining run else shAmount aura"
  show "\<exists>a. absorbs a aura run aura' run'"
  proof (cases "schools_match aura schoolMask")
    case True
    then have "take_shield ?n aura (run\<lparr>arMana := arMana run\<rparr>) = (aura', run')" using assms(1) by (simp add: school_absorb_def)
    moreover have "0 < ?n" "?n \<le> shAmount aura" "?n \<le> arRemaining run" using assms(2,3) by auto
    ultimately show ?thesis using take_shield_absorbs [of ?n aura run "arMana run"] by blast
  next
    case False
    then show ?thesis using assms(1) absorbs_0 by (auto simp: school_absorb_def)
  qed
qed (use assms in \<open>auto simp: school_absorb_def take_shield_def Let_def split: if_splits\<close>)

lemma paid_part_le:
  assumes "cost < 2 ^ 32"
  shows "paid_part candidate manaTaken cost \<le> candidate"
proof (cases "cost > 0 \<and> uint manaTaken < cost")
  case True
  have c: "0 \<le> uint candidate" "uint candidate < 2 ^ 53" using uint_lt2p [of candidate] by simp_all
  have "0 \<le> uint manaTaken" "uint manaTaken \<le> cost" "0 < cost" "cost < 2 ^ 53" using True assms by simp_all
  from f64_scaled_le [OF c this] show ?thesis using True by (simp add: paid_part_def f64_to_u32_le)
next
  case False
  then show ?thesis by (simp only: paid_part_def if_False order_refl)
qed

lemma f64_to_i32_lt: "f64_to_i32 a < 2 ^ 31"
  by (simp add: f64_to_i32_def Let_def)

lemma mana_shield_absorbs:
  assumes "mana_shield mul aura run = (aura', run')" "shAmount aura > 0" "arRemaining run > 0"
  shows "\<exists>a. absorbs a aura run aura' run'"
proof -
  let ?c = "if shAmount aura > arRemaining run then arRemaining run else shAmount aura"
  let ?cost = "mana_cost ?c mul"
  let ?taken = "if uint (arMana run) > ?cost then word_of_int ?cost else arMana run"
  let ?n = "paid_part ?c ?taken ?cost"
  have cost: "0 \<le> ?cost" "?cost < 2 ^ 31" using f64_to_i32_lt by (auto simp: mana_cost_def Let_def)
  have n: "?n \<le> ?c" using cost by (intro paid_part_le) simp
  have "uint (word_of_int ?cost :: u32) = ?cost" using cost by (simp add: uint_word_of_int)
  then have t: "?taken \<le> arMana run" by (simp add: word_le_def)
  have m: "arMana run - ?taken \<le> arMana run" using t by (simp add: word_sub_le_iff)
  show ?thesis
  proof (cases "?n > 0")
    case True
    then have r: "take_shield ?n aura (run\<lparr>arMana := arMana run - ?taken\<rparr>) = (aura', run')"
      using assms(1) by (simp add: mana_shield_def Let_def)
    have "?n \<le> shAmount aura" "?n \<le> arRemaining run" using n by (auto split: if_splits)
    from take_shield_absorbs [OF True this m r] show ?thesis by blast
  next
    case False
    then show ?thesis using assms(1) absorbs_0 by (auto simp: mana_shield_def Let_def)
  qed
qed

lemma creature_mana_shield_absorbs:
  assumes "creature_mana_shield aura run = (aura', run')" "shAmount aura > 0" "arRemaining run > 0"
  shows "\<exists>a. absorbs a aura run aura' run'"
proof -
  let ?c = "if shAmount aura > arRemaining run then arRemaining run else shAmount aura"
  let ?need = "word_of_int (f64_to_i32 (f64_mul (f64_of_int (uint ?c)) (f64_div (f64_of_int 3) (f64_of_int 2)))) :: u32"
  let ?taken = "if arMana run > ?need then ?need else arMana run"
  let ?n = "paid_part ?c ?taken (uint ?need)"
  have n: "?n \<le> ?c" using uint_lt2p [of ?need] by (intro paid_part_le) simp
  have t: "?taken \<le> arMana run" by (rule smaller_le)
  have m: "arMana run - ?taken \<le> arMana run" using t by (simp add: word_sub_le_iff)
  have r: "(aura', run') =
      (if ?n > 0 then take_shield ?n aura (run\<lparr>arMana := arMana run - ?taken\<rparr>) else (aura, run\<lparr>arMana := arMana run - ?taken\<rparr>))"
    unfolding assms(1) [symmetric] by (simp only: creature_mana_shield_def Let_def)
  show ?thesis
  proof (cases "?n > 0")
    case True
    have "?n \<le> shAmount aura" "?n \<le> arRemaining run" using n by (auto split: if_splits)
    moreover have "take_shield ?n aura (run\<lparr>arMana := arMana run - ?taken\<rparr>) = (aura', run')" using r True by simp
    ultimately show ?thesis using take_shield_absorbs [OF True _ _ m] by blast
  next
    case False
    then have "(aura', run') = (aura, run\<lparr>arMana := arMana run - ?taken\<rparr>)" unfolding r by (rule if_not_P)
    then show ?thesis using absorbs_same_mana [OF m] by blast
  qed
qed

section \<open>All shields\<close>

text \<open>
  Both loops walk over the shields until no damage is left. A school shield that matches takes all it can: after it the damage is gone
  or the shield is.
\<close>

definition must_absorb :: "u8 \<Rightarrow> shield_aura \<Rightarrow> bool" where
  "must_absorb schoolMask aura \<longleftrightarrow> shAuraType aura = SpellAuraSchoolAbsorb \<and> schools_match aura schoolMask"

inductive shield_walk :: "u8 \<Rightarrow> (u32 \<times> shield_aura) list \<Rightarrow> absorb_run \<Rightarrow> (u32 \<times> shield_aura) list \<Rightarrow> absorb_run \<Rightarrow> bool"
  for schoolMask where
  none: "shield_walk schoolMask [] run [] run"
| stop: "arRemaining run = 0 \<Longrightarrow> shield_walk schoolMask shields run shields run"
| shield: "arRemaining run > 0 \<Longrightarrow> absorbs a aura run aura' run1 \<Longrightarrow>
    (must_absorb schoolMask aura \<Longrightarrow> arRemaining run1 = 0 \<or> shAmount aura' = 0) \<Longrightarrow>
    shield_walk schoolMask rest run1 rest' run' \<Longrightarrow>
    shield_walk schoolMask ((key, aura) # rest) run ((key, aura') # rest') run'"

definition shields_up :: "(u32 \<times> shield_aura) list \<Rightarrow> bool" where
  "shields_up shields \<longleftrightarrow> (\<forall>(key, aura) \<in> set shields. shAmount aura > 0)"

lemma shields_up_Cons [simp]: "shields_up ((key, aura) # rest) \<longleftrightarrow> shAmount aura > 0 \<and> shields_up rest"
  by (simp add: shields_up_def)

lemma player_shield_absorbs:
  assumes "player_shield env self schoolMask aura run sessions = Some (aura', run', sessions')"
    and "shAmount aura > 0" "arRemaining run > 0"
  shows "\<exists>a. absorbs a aura run aura' run'"
    and "must_absorb schoolMask aura \<Longrightarrow> arRemaining run' = 0 \<or> shAmount aura' = 0"
  using assms(1) school_absorb_absorbs [OF _ assms(2,3), of schoolMask] mana_shield_absorbs [OF _ assms(2,3)] absorbs_0 [of aura run]
  by (auto simp: player_shield_def must_absorb_def split: if_splits option.splits prod.splits)

lemma player_shields_walk:
  "player_shields env self schoolMask shields run sessions = Some (shields', run', sessions') \<Longrightarrow> shields_up shields \<Longrightarrow>
    shield_walk schoolMask shields run shields' run'"
proof (induction shields arbitrary: run sessions shields' run' sessions')
  case Nil
  then show ?case by (simp add: shield_walk.none)
next
  case (Cons entry rest)
  obtain key aura where e: "entry = (key, aura)" by (cases entry)
  show ?case
  proof (cases "arRemaining run = 0")
    case True
    then show ?thesis using Cons.prems(1) by (simp add: e shield_walk.stop)
  next
    case False
    then have pos: "arRemaining run > 0" by (simp add: word_gt_0)
    obtain aura' run1 sessions1 rest' where p: "player_shield env self schoolMask aura run sessions = Some (aura', run1, sessions1)"
      and r: "player_shields env self schoolMask rest run1 sessions1 = Some (rest', run', sessions')" and s: "shields' = (key, aura') # rest'"
      using Cons.prems(1) False by (auto simp: e split: option.splits)
    have up: "shAmount aura > 0" "shields_up rest" using Cons.prems(2) by (simp_all add: e)
    obtain a where "absorbs a aura run aura' run1" using player_shield_absorbs(1) [OF p up(1) pos] by blast
    then show ?thesis
      unfolding e s using player_shield_absorbs(2) [OF p up(1) pos] Cons.IH [OF r up(2)] by (rule shield_walk.shield [OF pos])
  qed
qed

lemma creature_shield_absorbs:
  assumes "creature_shield hasMotion schoolMask aura run = (aura', run')" "shAmount aura > 0" "arRemaining run > 0"
  shows "\<exists>a. absorbs a aura run aura' run'"
    and "must_absorb schoolMask aura \<Longrightarrow> arRemaining run' = 0 \<or> shAmount aura' = 0"
  using assms(1) school_absorb_absorbs [OF _ assms(2,3), of schoolMask] creature_mana_shield_absorbs [OF _ assms(2,3)] absorbs_0 [of aura run]
  by (auto simp: creature_shield_def must_absorb_def split: if_splits)

lemma creature_shields_walk:
  "creature_shields hasMotion schoolMask shields run = (shields', run') \<Longrightarrow> shields_up shields \<Longrightarrow>
    shield_walk schoolMask shields run shields' run'"
proof (induction shields arbitrary: run shields' run')
  case Nil
  then show ?case by (simp add: shield_walk.none)
next
  case (Cons entry rest)
  obtain key aura where e: "entry = (key, aura)" by (cases entry)
  show ?case
  proof (cases "arRemaining run = 0")
    case True
    then show ?thesis using Cons.prems(1) by (simp add: e shield_walk.stop)
  next
    case False
    then have pos: "arRemaining run > 0" by (simp add: word_gt_0)
    obtain aura' run1 rest' where p: "creature_shield hasMotion schoolMask aura run = (aura', run1)"
      and r: "creature_shields hasMotion schoolMask rest run1 = (rest', run')" and s: "shields' = (key, aura') # rest'"
      using Cons.prems(1) False by (auto simp: e split: prod.splits)
    have up: "shAmount aura > 0" "shields_up rest" using Cons.prems(2) by (simp_all add: e)
    obtain a where "absorbs a aura run aura' run1" using creature_shield_absorbs(1) [OF p up(1) pos] by blast
    then show ?thesis
      unfolding e s using creature_shield_absorbs(2) [OF p up(1) pos] Cons.IH [OF r up(2)] by (rule shield_walk.shield [OF pos])
  qed
qed

section \<open>What a walk does\<close>

definition strength_sum :: "(u32 \<times> shield_aura) list \<Rightarrow> nat" where
  "strength_sum shields = (\<Sum>(key, aura)\<leftarrow>shields. unat (shAmount aura))"

lemma strength_sum_mset: "strength_sum shields = (\<Sum>e \<in># mset shields. unat (shAmount (snd e)))"
  by (simp add: strength_sum_def case_prod_unfold flip: sum_mset_sum_list)

definition weakened :: "u32 \<times> shield_aura \<Rightarrow> u32 \<times> shield_aura \<Rightarrow> bool" where
  "weakened e e' \<longleftrightarrow> fst e' = fst e \<and> (\<exists>n \<le> shAmount (snd e). snd e' = (snd e)\<lparr>shAmount := n\<rparr>)"

lemma weakened_refl: "weakened e e"
  by (auto simp: weakened_def intro: exI [of _ "shAmount (snd e)"])

lemma absorbs_weakened: "absorbs a aura run aura' run' \<Longrightarrow> weakened (key, aura) (key, aura')"
  by (auto simp: absorbs_def weakened_def word_le_nat_alt intro!: exI [of _ "shAmount aura'"])

lemma walk_conserves:
  assumes "shield_walk schoolMask shields run shields' run'" "unat (arAbsorbed run) + unat (arRemaining run) < 2 ^ 32"
  shows "strength_sum shields + unat (arRemaining run') = strength_sum shields' + unat (arRemaining run) \<and>
    unat (arAbsorbed run') + unat (arRemaining run') = unat (arAbsorbed run) + unat (arRemaining run) \<and>
    arMana run' \<le> arMana run"
  using assms
proof (induction rule: shield_walk.induct)
  case (shield run a aura aura' run1 rest rest' run' key)
  have "unat (arAbsorbed run1) = unat (arAbsorbed run) + a" "unat (arRemaining run) = unat (arRemaining run1) + a"
    using shield.hyps(2) shield.prems by (auto simp: absorbs_def unat_word_ariths unat_of_nat)
  moreover have "unat (shAmount aura) = unat (shAmount aura') + a" "arMana run1 \<le> arMana run"
    using shield.hyps(2) by (simp_all add: absorbs_def)
  ultimately show ?case using shield.IH shield.prems by (auto simp: strength_sum_def)
qed (simp_all add: strength_sum_def)

lemma walk_weakens: "shield_walk schoolMask shields run shields' run' \<Longrightarrow> list_all2 weakened shields shields'"
  by (induction rule: shield_walk.induct) (auto simp: weakened_refl list.rel_refl absorbs_weakened)

lemma walk_exhausts:
  assumes "shield_walk schoolMask shields run shields' run'" "shields_up shields"
  shows "arExhausted run' = arExhausted run @ map (\<lambda>e. shSpellID (snd e)) (filter (\<lambda>e. shAmount (snd e) = 0) shields')"
  using assms
proof (induction rule: shield_walk.induct)
  case (stop run shields)
  then have "filter (\<lambda>e. shAmount (snd e) = 0) shields = []" by (auto simp: filter_empty_conv shields_up_def)
  then show ?case by simp
next
  case (shield run a aura aura' run1 rest rest' run' key)
  then have "shAmount aura' = 0 \<longleftrightarrow> a > 0 \<and> shAmount aura' = 0" "shSpellID aura' = shSpellID aura"
    by (auto simp: absorbs_def unat_gt_0 word_gt_0)
  then show ?case using shield by (auto simp: absorbs_def)
qed simp

lemma walk_done: "shield_walk schoolMask shields run shields' run' \<Longrightarrow> arRemaining run = 0 \<Longrightarrow> shields' = shields \<and> run' = run"
  by (induction rule: shield_walk.induct) auto

text \<open>A shield is touched only when every matching school shield before it is used up.\<close>

lemma walk_in_order:
  assumes "shield_walk schoolMask shields run shields' run'" "i < j" "j < length shields"
    and "must_absorb schoolMask (snd (shields ! i))" "shields' ! j \<noteq> shields ! j"
  shows "shAmount (snd (shields' ! i)) = 0"
  using assms
proof (induction arbitrary: i j rule: shield_walk.induct)
  case (shield run a aura aura' run1 rest rest' run' key)
  obtain j' where j: "j = Suc j'" using shield.prems(1) by (cases j) auto
  show ?case
  proof (cases i)
    case 0
    have "rest' \<noteq> rest" using shield.prems(4) j by auto
    then have "arRemaining run1 \<noteq> 0" using walk_done [OF shield.hyps(4)] by blast
    then show ?thesis using shield.hyps(3) shield.prems(3) 0 by simp
  next
    case (Suc i')
    then show ?thesis using shield.IH [of i' j'] shield.prems j by simp
  qed
qed auto

lemma walk_to_the_end:
  assumes "shield_walk schoolMask shields run shields' run'" "arRemaining run' > 0" "i < length shields"
    and "must_absorb schoolMask (snd (shields ! i))"
  shows "shAmount (snd (shields' ! i)) = 0"
  using assms
proof (induction arbitrary: i rule: shield_walk.induct)
  case (shield run a aura aura' run1 rest rest' run' key)
  have "arRemaining run1 \<noteq> 0" using walk_done [OF shield.hyps(4)] shield.prems(1) by auto
  then show ?case using shield by (cases i) auto
qed auto

section \<open>The auras as a map\<close>

text \<open>How much an aura can still absorb, and maps in which an aura stands under its own spell.\<close>

definition strength :: "(u32, shield_aura) gomap \<Rightarrow> u32 \<Rightarrow> nat" where
  "strength auras key = (case gget auras key of None \<Rightarrow> 0 | Some aura \<Rightarrow> unat (shAmount aura))"

definition auras_ok :: "(u32, shield_aura) gomap \<Rightarrow> bool" where
  "auras_ok auras \<longleftrightarrow> gmap_ok auras \<and> (\<forall>(key, aura) \<in> set auras. shSpellID aura = key)"

lemma mset_shieldList: "mset (shieldList lookup auras) = filter_mset (\<lambda>(_, aura). \<not> shStopped aura \<and> shAmount aura > 0) (mset auras)"
  by (simp add: shieldList_def mset_filter)

lemma set_shieldList: "set (shieldList lookup auras) = {(key, aura) \<in> set auras. \<not> shStopped aura \<and> shAmount aura > 0}"
  by (auto simp: shieldList_def)

lemma shields_up_shieldList: "shields_up (shieldList lookup auras)"
  by (auto simp: shields_up_def set_shieldList)

lemma distinct_shieldList: "gmap_ok auras \<Longrightarrow> distinct (map fst (shieldList lookup auras))"
proof -
  assume ok: "gmap_ok auras"
  have "mset (map fst (shieldList lookup auras)) = mset (map fst (filter (\<lambda>(_, aura). \<not> shStopped aura \<and> shAmount aura > 0) auras))"
    by (simp only: mset_map mset_shieldList mset_filter)
  moreover have "distinct (map fst (filter (\<lambda>(_, aura). \<not> shStopped aura \<and> shAmount aura > 0) auras))"
    using ok unfolding gmap_ok_def by (rule distinct_map_filter)
  ultimately show ?thesis using mset_eq_imp_distinct_iff by blast
qed

lemma gget_fold_gput:
  "distinct (map fst xs) \<Longrightarrow> gget (fold (\<lambda>(key, aura). gput key aura) xs m) k = (case map_of xs k of None \<Rightarrow> gget m k | Some a \<Rightarrow> Some a)"
  by (induction xs arbitrary: m) (auto simp: gm.get_put map_of_eq_None_iff [symmetric] split: option.split)

lemma gget_fold_gdel: "gget (fold gdel ks m) k = (if k \<in> set ks then None else gget m k)"
  by (induction ks arbitrary: m) (auto simp: gm.get_del)

lemma strength_sum_keys:
  "distinct (map fst xs) \<Longrightarrow> strength_sum xs = (\<Sum>k \<in> fst ` set xs. case map_of xs k of None \<Rightarrow> 0 | Some a \<Rightarrow> unat (shAmount a))"
proof (induction xs)
  case (Cons e xs)
  have "(\<Sum>k \<in> fst ` set xs. case map_of (e # xs) k of None \<Rightarrow> 0 | Some a \<Rightarrow> unat (shAmount a)) =
      (\<Sum>k \<in> fst ` set xs. case map_of xs k of None \<Rightarrow> 0 | Some a \<Rightarrow> unat (shAmount a))"
    using Cons.prems by (intro sum.cong refl) (auto simp: image_iff)
  then show ?case using Cons by (cases e) (simp add: strength_sum_def)
qed (simp add: strength_sum_def)

text \<open>What is stored after a walk.\<close>

lemma strength_stored:
  assumes "auras_ok auras" "list_all2 weakened (shieldList lookup auras) shields'"
    and "exhausted = map (\<lambda>e. shSpellID (snd e)) (filter (\<lambda>e. shAmount (snd e) = 0) shields')"
  shows "strength (store_shields shields' exhausted auras) k =
    (case map_of shields' k of None \<Rightarrow> strength auras k | Some a \<Rightarrow> unat (shAmount a))"
proof -
  let ?shields = "shieldList lookup auras"
  have keys: "map fst shields' = map fst ?shields"
    using assms(2) by (induction rule: list_all2_induct) (auto simp: weakened_def)
  then have d: "distinct (map fst shields')" using assms(1) distinct_shieldList by (simp add: auras_ok_def)
  have own: "shSpellID (snd e) = fst e" if "e \<in> set shields'" for e
  proof -
    have "\<forall>e \<in> set ?shields. shSpellID (snd e) = fst e" using assms(1) by (auto simp: set_shieldList auras_ok_def)
    with assms(2) have "\<forall>e \<in> set shields'. shSpellID (snd e) = fst e"
      by (induction rule: list_all2_induct) (auto simp: weakened_def)
    then show ?thesis using that by blast
  qed
  have ex: "k \<in> set exhausted \<longleftrightarrow> (\<exists>a. map_of shields' k = Some a \<and> shAmount a = 0)"
  proof -
    have "k \<in> set exhausted \<longleftrightarrow> (\<exists>e \<in> set shields'. fst e = k \<and> shAmount (snd e) = 0)"
      unfolding assms(3) using own by force
    also have "\<dots> \<longleftrightarrow> (\<exists>a. map_of shields' k = Some a \<and> shAmount a = 0)" using d by (force dest: map_of_SomeD)
    finally show ?thesis .
  qed
  show ?thesis
    by (auto simp: strength_def store_shields_def gget_fold_gdel gget_fold_gput [OF d] ex split: option.split)
qed

lemma weakened_map_of:
  assumes "list_all2 weakened xs ys"
  shows "(map_of xs k = None \<longleftrightarrow> map_of ys k = None) \<and> (map_of xs k = Some a \<longrightarrow> (\<exists>b. map_of ys k = Some b \<and> shAmount b \<le> shAmount a))"
  using assms by (induction arbitrary: a rule: list_all2_induct) (auto simp: weakened_def)

lemma strength_shield:
  assumes "auras_ok auras" "map_of (shieldList lookup auras) k = Some a"
  shows "strength auras k = unat (shAmount a)"
proof -
  have "(k, a) \<in> set auras" using map_of_SomeD [OF assms(2)] by (simp add: set_shieldList)
  then have "gget auras k = Some a" using assms(1) by (simp add: auras_ok_def gmap_ok_def gget_def)
  then show ?thesis by (simp add: strength_def)
qed

lemma shields_sum:
  assumes "auras_ok auras" "list_all2 weakened (shieldList lookup auras) shields'"
    and "\<And>k. strength auras' k = (case map_of shields' k of None \<Rightarrow> strength auras k | Some a \<Rightarrow> unat (shAmount a))"
    and "strength_sum (shieldList lookup auras) = strength_sum shields' + n"
  shows "(\<Sum>k \<in> set (gkeys auras). strength auras k) = (\<Sum>k \<in> set (gkeys auras). strength auras' k) + n"
    and "strength auras' k \<le> strength auras k"
proof -
  let ?shields = "shieldList lookup auras"
  let ?S = "fst ` set ?shields" and ?K = "set (gkeys auras)"
  have keys: "map fst shields' = map fst ?shields"
    using assms(2) by (induction rule: list_all2_induct) (auto simp: weakened_def)
  have d: "distinct (map fst ?shields)" using assms(1) distinct_shieldList by (simp add: auras_ok_def)
  have S': "fst ` set shields' = ?S" using arg_cong [OF keys, of set] by simp
  have sub: "?S \<subseteq> ?K" by (auto simp: set_shieldList gkeys_def image_iff)
  have old: "strength_sum ?shields = (\<Sum>k \<in> ?S. strength auras k)"
    unfolding strength_sum_keys [OF d]
    by (intro sum.cong refl) (auto simp: strength_shield [OF assms(1)] split: option.split dest: weak_map_of_SomeI)
  have "map_of shields' k \<noteq> None" if "k \<in> ?S" for k using that S' by (simp add: map_of_eq_None_iff)
  then have "(\<Sum>k \<in> ?S. case map_of shields' k of None \<Rightarrow> 0 | Some a \<Rightarrow> unat (shAmount a)) = (\<Sum>k \<in> ?S. strength auras' k)"
    by (intro sum.cong refl) (fastforce simp: assms(3) split: option.split)
  then have "strength_sum shields' = (\<Sum>k \<in> ?S. strength auras' k)"
    using strength_sum_keys [of shields'] d by (simp only: keys S')
  then have "(\<Sum>k \<in> ?S. strength auras k) = (\<Sum>k \<in> ?S. strength auras' k) + n" using assms(4) old by simp
  moreover have "map_of shields' k = None" if "k \<notin> ?S" for k using that S' by (simp add: map_of_eq_None_iff)
  then have "(\<Sum>k \<in> ?K - ?S. strength auras k) = (\<Sum>k \<in> ?K - ?S. strength auras' k)"
    by (intro sum.cong refl) (simp add: assms(3))
  ultimately show "(\<Sum>k \<in> ?K. strength auras k) = (\<Sum>k \<in> ?K. strength auras' k) + n"
    using sum.subset_diff [OF sub, of "strength auras"] sum.subset_diff [OF sub, of "strength auras'"] by simp
  show "strength auras' k \<le> strength auras k"
  proof (cases "map_of ?shields k")
    case None
    then show ?thesis using weakened_map_of [OF assms(2), of k] by (simp add: assms(3))
  next
    case (Some a)
    then obtain b where "map_of shields' k = Some b" "shAmount b \<le> shAmount a" using weakened_map_of [OF assms(2), of k a] by blast
    then show ?thesis using strength_shield [OF assms(1) Some] by (simp add: assms(3) word_le_nat_alt)
  qed
qed

lemma absorption_walk:
  assumes "applyAbsorptionShields env self damage schoolMask s = Some (absorbed, remaining, s')" "damage \<noteq> 0"
  shows "\<exists>shields' run'. shield_walk schoolMask (shieldList (aeSpells env) (asAuras s))
      \<lparr>arAbsorbed = 0, arRemaining = damage, arMana = asMana s, arExhausted = []\<rparr> shields' run' \<and>
    absorbed = arAbsorbed run' \<and> remaining = arRemaining run' \<and> asMana s' = arMana run' \<and>
    asAuras s' = store_shields shields' (arExhausted run') (asAuras s)"
  using assms player_shields_walk [OF _ shields_up_shieldList]
  by (fastforce simp: applyAbsorptionShields_def split: option.splits)

lemma walk_stored:
  assumes "shield_walk schoolMask (shieldList lookup auras)
      \<lparr>arAbsorbed = 0, arRemaining = damage, arMana = m, arExhausted = []\<rparr> shields' run'" "auras_ok auras"
  shows "unat (arAbsorbed run') + unat (arRemaining run') = unat damage" "arMana run' \<le> m"
    and "(\<Sum>k \<in> set (gkeys auras). strength auras k) =
      (\<Sum>k \<in> set (gkeys auras). strength (store_shields shields' (arExhausted run') auras) k) + unat (arAbsorbed run')"
    and "strength (store_shields shields' (arExhausted run') auras) k \<le> strength auras k"
    and "strength (store_shields shields' (arExhausted run') auras) k =
      (case map_of shields' k of None \<Rightarrow> strength auras k | Some a \<Rightarrow> unat (shAmount a))"
proof -
  have c: "strength_sum (shieldList lookup auras) + unat (arRemaining run') = strength_sum shields' + unat damage \<and>
      unat (arAbsorbed run') + unat (arRemaining run') = unat damage \<and> arMana run' \<le> m"
    using walk_conserves [OF assms(1)] unsigned_less [of damage] by simp
  then show "unat (arAbsorbed run') + unat (arRemaining run') = unat damage" "arMana run' \<le> m" by simp_all
  have ex: "arExhausted run' = map (\<lambda>e. shSpellID (snd e)) (filter (\<lambda>e. shAmount (snd e) = 0) shields')"
    using walk_exhausts [OF assms(1) shields_up_shieldList] by simp
  note weak = walk_weakens [OF assms(1)]
  note stored = strength_stored [OF assms(2) weak ex]
  show "strength (store_shields shields' (arExhausted run') auras) k =
      (case map_of shields' k of None \<Rightarrow> strength auras k | Some a \<Rightarrow> unat (shAmount a))" by (rule stored)
  have n: "strength_sum (shieldList lookup auras) = strength_sum shields' + unat (arAbsorbed run')" using c by simp
  show "(\<Sum>k \<in> set (gkeys auras). strength auras k) =
      (\<Sum>k \<in> set (gkeys auras). strength (store_shields shields' (arExhausted run') auras) k) + unat (arAbsorbed run')"
    by (rule shields_sum(1) [OF assms(2) weak stored n])
  show "strength (store_shields shields' (arExhausted run') auras) k \<le> strength auras k"
    by (rule shields_sum(2) [OF assms(2) weak stored n])
qed

text \<open>
  C11: Damage is conserved. What a player's shields absorb and what is left add up to the damage; the shields together lose exactly
  what they absorb, none of them grows, and mana is at most spent. The computation in \<^verbatim>\<open>float64\<close> of the part of a mana shield that
  the mana pays for never makes it absorb more than the damage or the shield.
\<close>

theorem absorption_conserves:
  assumes "applyAbsorptionShields env self damage schoolMask s = Some (absorbed, remaining, s')" "auras_ok (asAuras s)"
  shows "unat absorbed + unat remaining = unat damage \<and> asMana s' \<le> asMana s \<and>
    (\<Sum>k \<in> set (gkeys (asAuras s)). strength (asAuras s) k) =
      (\<Sum>k \<in> set (gkeys (asAuras s)). strength (asAuras s') k) + unat absorbed \<and>
    (\<forall>k. strength (asAuras s') k \<le> strength (asAuras s) k)"
proof (cases "damage = 0")
  case True
  then show ?thesis using assms(1) by (auto simp: applyAbsorptionShields_def)
next
  case False
  from absorption_walk [OF assms(1) False] obtain shields' run' where
    w: "shield_walk schoolMask (shieldList (aeSpells env) (asAuras s))
      \<lparr>arAbsorbed = 0, arRemaining = damage, arMana = asMana s, arExhausted = []\<rparr> shields' run'"
    and r: "absorbed = arAbsorbed run'" "remaining = arRemaining run'" "asMana s' = arMana run'"
      "asAuras s' = store_shields shields' (arExhausted run') (asAuras s)" by blast
  from walk_stored [OF w assms(2)] show ?thesis unfolding r by blast
qed

text \<open>A creature's shields conserve the damage in the same way.\<close>

lemma creature_absorption_conserves:
  assumes "applyCreatureAbsorptionShields lookup guid damage schoolMask c = (absorbed, remaining, c')" "auras_ok (caAuras c)"
  shows "unat absorbed + unat remaining = unat damage \<and>
    (\<Sum>k \<in> set (gkeys (caAuras c)). strength (caAuras c) k) = (\<Sum>k \<in> set (gkeys (caAuras c)). strength (caAuras c') k) + unat absorbed"
proof (cases "guid = 0 \<or> damage = 0")
  case True
  then show ?thesis using assms(1) by (auto simp: applyCreatureAbsorptionShields_def)
next
  case False
  let ?m = "case caMana c of None \<Rightarrow> 0 | Some m \<Rightarrow> m"
  obtain shields' run' where e: "creature_shields (caMana c \<noteq> None) schoolMask (shieldList lookup (caAuras c))
      \<lparr>arAbsorbed = 0, arRemaining = damage, arMana = ?m, arExhausted = []\<rparr> = (shields', run')" by fastforce
  note w = creature_shields_walk [OF e shields_up_shieldList]
  have "absorbed = arAbsorbed run'" "remaining = arRemaining run'" "caAuras c' = store_shields shields' (arExhausted run') (caAuras c)"
    using assms(1) False e by (auto simp: applyCreatureAbsorptionShields_def)
  then show ?thesis using walk_stored(1,3) [OF w assms(2)] by simp
qed

section \<open>The order of the shields\<close>

lemma sorted_filter_nth:
  "sorted_wrt R (filter P xs) \<Longrightarrow> i < j \<Longrightarrow> j < length xs \<Longrightarrow> P (xs ! i) \<Longrightarrow> P (xs ! j) \<Longrightarrow> R (xs ! i) (xs ! j)"
proof (induction xs arbitrary: i j)
  case (Cons x xs)
  obtain j' where "j = Suc j'" using Cons.prems(2) by (cases j) auto
  then show ?case using Cons by (cases i) (auto split: if_splits)
qed simp

lemma sort_twice:
  assumes "i < j" "j < length (sort_key f (sort_key g xs))"
  defines "ys \<equiv> sort_key f (sort_key g xs)"
  shows "f (ys ! i) < f (ys ! j) \<or> f (ys ! i) = f (ys ! j) \<and> g (ys ! i) \<le> g (ys ! j)"
proof -
  have j: "j < length ys" using assms(2) by (simp add: ys_def)
  have "sorted (map f ys)" by (simp add: ys_def)
  then have le: "f (ys ! i) \<le> f (ys ! j)" using assms(1) j sorted_nth_mono [of "map f ys" i j] by simp
  show ?thesis
  proof (cases "f (ys ! i) = f (ys ! j)")
    case True
    let ?P = "\<lambda>y. f y = f (ys ! j)"
    have "filter ?P ys = filter ?P (sort_key g xs)" unfolding ys_def by (rule sort_key_stable)
    then have "sorted (map g (filter ?P ys))" by (simp add: sorted_filter)
    then have "sorted_wrt (\<lambda>x y. g x \<le> g y) (filter ?P ys)" by (simp add: sorted_map)
    from sorted_filter_nth [OF this assms(1) j] True show ?thesis by simp
  next
    case False
    then show ?thesis using le by simp
  qed
qed

text \<open>One shield stands before another: by priority, then by the number of its spell.\<close>

definition before :: "(u32 \<Rightarrow> Spell option) \<Rightarrow> shield_aura \<Rightarrow> shield_aura \<Rightarrow> bool" where
  "before lookup a a' \<longleftrightarrow>
     absorbAuraPriority lookup a < absorbAuraPriority lookup a' \<or>
     absorbAuraPriority lookup a = absorbAuraPriority lookup a' \<and> shSpellID a < shSpellID a'"

lemma shieldList_before:
  assumes "i < length (shieldList lookup auras)" "j < length (shieldList lookup auras)"
    and "before lookup (snd (shieldList lookup auras ! i)) (snd (shieldList lookup auras ! j))"
  shows "i < j"
proof (rule ccontr)
  assume n: "\<not> i < j"
  have "i \<noteq> j" using assms(3) by (auto simp: before_def)
  then have "j < i" using n by simp
  then show False
    using sort_twice [of j i "\<lambda>e. fst (shield_key lookup e)" "\<lambda>e. snd (shield_key lookup e)"] assms(1,3)
    by (fastforce simp: shieldList_def shield_key_def before_def)
qed

text \<open>
  C14: Shields are used up in order. A school shield that is up and matches the school of the damage takes all it can: when damage is
  left it is used up, and when a shield of later priority, or of the same priority and a later spell, has lost anything, it is used
  up as well.
\<close>

theorem absorption_in_order:
  assumes "applyAbsorptionShields env self damage schoolMask s = Some (absorbed, remaining, s')" "auras_ok (asAuras s)"
    and "gget (asAuras s) k = Some a" "\<not> shStopped a" "shAmount a > 0" "must_absorb schoolMask a"
    and "remaining > 0 \<or>
      (\<exists>k' a'. gget (asAuras s) k' = Some a' \<and> before (aeSpells env) a a' \<and> strength (asAuras s') k' < strength (asAuras s) k')"
  shows "strength (asAuras s') k = 0"
proof (cases "damage = 0")
  case True
  then show ?thesis using assms(1,7) by (auto simp: applyAbsorptionShields_def)
next
  case False
  let ?shields = "shieldList (aeSpells env) (asAuras s)"
  from absorption_walk [OF assms(1) False] obtain shields' run' where
    w: "shield_walk schoolMask ?shields \<lparr>arAbsorbed = 0, arRemaining = damage, arMana = asMana s, arExhausted = []\<rparr> shields' run'"
    and r: "remaining = arRemaining run'" "asAuras s' = store_shields shields' (arExhausted run') (asAuras s)" by blast
  have stored: "strength (asAuras s') x = (case map_of shields' x of None \<Rightarrow> strength (asAuras s) x | Some b \<Rightarrow> unat (shAmount b))" for x
    unfolding r(2) by (rule walk_stored(5) [OF w assms(2)])
  have weak: "list_all2 weakened ?shields shields'" by (rule walk_weakens [OF w])
  have len: "length shields' = length ?shields" using weak by (simp add: list_all2_lengthD)
  have d: "distinct (map fst shields')"
    using distinct_shieldList [of "asAuras s" "aeSpells env"] assms(2) weak
    by (simp add: auras_ok_def list_all2_conv_all_nth weakened_def list_eq_iff_nth_eq [of "map fst shields'" "map fst ?shields"] cong: map_cong)
      (metis (no_types, lifting) len length_map nth_equalityI nth_map)
  have at: "map_of shields' (fst (?shields ! n)) = Some (snd (shields' ! n))" if "n < length ?shields" for n
  proof -
    have "fst (shields' ! n) = fst (?shields ! n)" using weak that by (simp add: list_all2_conv_all_nth weakened_def)
    then have "(fst (?shields ! n), snd (shields' ! n)) \<in> set shields'" using that len by (metis nth_mem prod.collapse)
    then show ?thesis using d by simp
  qed
  have "(k, a) \<in> set (asAuras s)" using assms(3) by (auto simp: gget_def dest: map_of_SomeD)
  then have "(k, a) \<in> set ?shields" using assms(4,5) by (simp add: set_shieldList)
  then obtain i where i: "i < length ?shields" "?shields ! i = (k, a)" by (auto simp: in_set_conv_nth)
  have "shAmount (snd (shields' ! i)) = 0"
    using assms(7)
  proof
    assume "remaining > 0"
    then show ?thesis using walk_to_the_end [OF w _ i(1)] i(2) assms(6) r(1) by simp
  next
    assume "\<exists>k' a'. gget (asAuras s) k' = Some a' \<and> before (aeSpells env) a a' \<and> strength (asAuras s') k' < strength (asAuras s) k'"
    then obtain k' a' where k': "gget (asAuras s) k' = Some a'" "before (aeSpells env) a a'"
      "strength (asAuras s') k' < strength (asAuras s) k'" by blast
    then obtain b where b: "map_of shields' k' = Some b" using stored [of k'] by (cases "map_of shields' k'") auto
    then obtain j where j: "j < length ?shields" "shields' ! j = (k', b)" using len by (metis in_set_conv_nth map_of_SomeD)
    have key: "fst (?shields ! j) = k'" using weak j by (metis fst_conv list_all2_conv_all_nth weakened_def)
    then have "(k', snd (?shields ! j)) \<in> set (asAuras s)" using nth_mem [OF j(1)] by (auto simp: set_shieldList)
    then have a': "snd (?shields ! j) = a'" using k'(1) assms(2) by (auto simp: auras_ok_def gmap_ok_def gget_def)
    have "shields' ! j \<noteq> ?shields ! j"
    proof
      assume same: "shields' ! j = ?shields ! j"
      then have "b = a'" using j(2) a' by (metis snd_conv)
      then show False using k' stored [of k'] b by (simp add: strength_def)
    qed
    moreover have "i < j" using shieldList_before [OF i(1) j(1)] i(2) a' k'(2) by simp
    ultimately show ?thesis using walk_in_order [OF w _ j(1)] i(2) assms(6) by simp
  qed
  then show ?thesis using stored [of k] at [OF i(1)] i(2) by simp
qed

text \<open>The order in which the map is read does not matter.\<close>

lemma shieldList_perm:
  assumes "mset auras' = mset auras" "auras_ok auras"
  shows "shieldList lookup auras' = shieldList lookup auras"
proof -
  let ?live = "\<lambda>(_, aura). \<not> shStopped aura \<and> shAmount aura > 0" and ?g = "\<lambda>e. snd (shield_key lookup e)"
  have "mset (filter ?live auras') = mset (filter ?live auras)" using assms(1) by (simp add: mset_filter)
  moreover have "inj_on ?g (set (filter ?live auras'))"
  proof (rule inj_onI)
    fix x y assume xy: "x \<in> set (filter ?live auras')" "y \<in> set (filter ?live auras')" "?g x = ?g y"
    have "set auras' = set auras" using assms(1) by (metis set_mset_mset)
    then have m: "x \<in> set auras" "y \<in> set auras" using xy by simp_all
    have own: "shSpellID (snd z) = fst z" if "z \<in> set auras" for z using assms(2) that by (auto simp: auras_ok_def)
    have "fst x = fst y" using xy(3) own [OF m(1)] own [OF m(2)] by (simp add: shield_key_def)
    then show "x = y" using m assms(2) by (metis auras_ok_def gmap_ok_def eq_key_imp_eq_value prod.collapse)
  qed
  ultimately have "sort_key ?g (filter ?live auras') = sort_key ?g (filter ?live auras)"
    by (intro sort_key_inj_key_eq) simp_all
  then show ?thesis by (simp add: shieldList_def)
qed

section \<open>A mage's own mana shield\<close>

lemma school_absorb_rest:
  assumes "school_absorb schoolMask aura run = (aura', run')"
  shows "unat (arRemaining run) \<le> unat (arRemaining run') + unat (shAmount aura)" "arMana run' = arMana run"
proof -
  have "unat (arRemaining run) \<le> unat (arRemaining run - shAmount aura) + unat (shAmount aura)" if "unat (shAmount aura) \<le> unat (arRemaining run)"
    using that by (simp add: unat_sub word_le_nat_alt)
  then show "unat (arRemaining run) \<le> unat (arRemaining run') + unat (shAmount aura)"
    using assms by (auto simp: school_absorb_def take_shield_def Let_def not_less word_less_nat_alt split: if_splits)
  show "arMana run' = arMana run"
    using assms by (auto simp: school_absorb_def take_shield_def Let_def split: if_splits)
qed

lemma reaches_mana_shield:
  assumes "(k, a) \<in> set shields"
    and "\<And>run. arMana run > 0 \<Longrightarrow> player_shield env self schoolMask a run sessions = None"
    and "\<forall>(k', a') \<in> set shields. a' \<noteq> a \<longrightarrow> shAuraType a' \<noteq> SpellAuraManaShield"
    and "strength_sum (filter (\<lambda>(k, a). shAuraType a = SpellAuraSchoolAbsorb) shields) < unat (arRemaining run)" "arMana run > 0"
  shows "player_shields env self schoolMask shields run sessions = None"
  using assms(1,3-5)
proof (induction shields arbitrary: run)
  case (Cons e rest)
  obtain k' a' where e: "e = (k', a')" by (cases e)
  have pos: "arRemaining run \<noteq> 0" using Cons.prems(3) by auto
  show ?case
  proof (cases "a' = a")
    case True
    then show ?thesis using assms(2) [OF Cons.prems(4)] pos by (simp add: e)
  next
    case False
    then have mem: "(k, a) \<in> set rest" using Cons.prems(1) e by auto
    have others: "\<forall>(k', a') \<in> set rest. a' \<noteq> a \<longrightarrow> shAuraType a' \<noteq> SpellAuraManaShield" using Cons.prems(2) by auto
    have "shAuraType a' \<noteq> SpellAuraManaShield" using Cons.prems(2) False e by auto
    then obtain a1 run1 where p: "player_shield env self schoolMask a' run sessions = Some (a1, run1, sessions)"
      and c: "shAuraType a' = SpellAuraSchoolAbsorb \<and> school_absorb schoolMask a' run = (a1, run1) \<or>
        shAuraType a' \<noteq> SpellAuraSchoolAbsorb \<and> run1 = run"
      by (cases "shAuraType a' = SpellAuraSchoolAbsorb"; cases "school_absorb schoolMask a' run") (simp_all add: player_shield_def)
    have "strength_sum (filter (\<lambda>(k, a). shAuraType a = SpellAuraSchoolAbsorb) rest) < unat (arRemaining run1)" "arMana run1 > 0"
      using c school_absorb_rest [of schoolMask a' run a1 run1] Cons.prems(3,4) by (auto simp: e strength_sum_def)
    then show ?thesis using Cons.IH [OF mem others] p pos by (simp add: e)
  qed
qed simp

text \<open>
  C15: A player who shields himself with mana hangs. The loop over the shields holds the mutex of the session, and the multiplier of
  a mana shield asks the session of its caster for the spell modifiers, which locks the mutex of that session: when the caster is the
  victim himself, and the damage is more than his school shields can take before, the method never returns.
\<close>

theorem own_mana_shield_deadlocks:
  assumes "gget (asAuras s) k = Some a" "\<not> shStopped a" "shAmount a > 0" "shAuraType a = SpellAuraManaShield"
    and "schools_match a schoolMask" "asMana s > 0"
    and "aeOwner env (shCasterGUID a) = Some self" "gget (asSessions s) self \<noteq> None"
    and "aeSpells env (shSpellID a) = Some spell" "aura_effect_index SpellAuraManaShield (spEffects spell) \<noteq> None"
    and "\<not> has_flag (spAttributesEx3 spell) spellAttr3NoDoneBonus"
    and "\<forall>(k', a') \<in> set (asAuras s). a' \<noteq> a \<longrightarrow> shAuraType a' \<noteq> SpellAuraManaShield"
    and "strength_sum (filter (\<lambda>(k, a). shAuraType a = SpellAuraSchoolAbsorb) (asAuras s)) < unat damage"
  shows "applyAbsorptionShields env self damage schoolMask s = None"
proof -
  let ?shields = "shieldList (aeSpells env) (asAuras s)" and ?school = "\<lambda>(k :: u32, a). shAuraType a = SpellAuraSchoolAbsorb"
  have blocks: "player_shield env self schoolMask a run (asSessions s) = None" if "arMana run > 0" for run
    using that assms(4,5,7-11) by (auto simp: player_shield_def calcValueMultiplierForAura_def calcValueMultiplier_def Let_def)
  have "(k, a) \<in> set (asAuras s)" using assms(1) by (auto simp: gget_def dest: map_of_SomeD)
  then have mem: "(k, a) \<in> set ?shields" using assms(2,3) by (simp add: set_shieldList)
  have others: "\<forall>(k', a') \<in> set ?shields. a' \<noteq> a \<longrightarrow> shAuraType a' \<noteq> SpellAuraManaShield"
    using assms(12) by (auto simp: set_shieldList)
  have "mset (filter ?school ?shields) \<subseteq># mset (filter ?school (asAuras s))"
    by (simp add: mset_filter mset_shieldList multiset_filter_mono)
  then obtain others where "mset (filter ?school (asAuras s)) = mset (filter ?school ?shields) + others"
    using mset_subset_eq_exists_conv by blast
  then have "strength_sum (filter ?school ?shields) \<le> strength_sum (filter ?school (asAuras s))"
    unfolding strength_sum_mset by simp
  then have "strength_sum (filter ?school ?shields) < unat damage" using assms(13) by simp
  then show ?thesis
    using reaches_mana_shield [OF mem blocks others] assms(6) by (auto simp: applyAbsorptionShields_def)
qed

text \<open>The callers subtract the damage that passes the shields from the damage, without a test: at most a hundred percent pass.\<close>

lemma bypass_le:
  assumes "0 \<le> percent" "percent \<le> 100"
  shows "absorbIgnoreBypass damage (f64_of_int percent) \<le> damage"
proof (cases "damage = 0 \<or> f64_of_int percent \<le> 0")
  case True
  then show ?thesis by (simp only: absorbIgnoreBypass_def if_True word_zero_le)
next
  case False
  let ?d = "uint damage"
  have u: "f64_unit > 0" by (simp add: f64_unit_def)
  have d: "0 \<le> ?d" "?d < 2 ^ 32" using uint_lt2p [of damage] by simp_all
  have le: "?d * percent \<le> ?d * 100" using assms d by (intro mult_left_mono) simp_all
  have prod: "0 \<le> ?d * percent" using assms d by simp
  have small: "\<bar>?d\<bar> < 2 ^ 53" "\<bar>percent\<bar> < 2 ^ 53" "\<bar>?d * percent\<bar> < 2 ^ 53"
    using d assms le prod by auto
  have exact: "f64_of_int (?d * percent) = ?d * percent * f64_unit" by (rule f64_of_int_exact [OF small(3)])
  have fin: "\<bar>?d * percent * f64_unit\<bar> \<noteq> f64_inf" by (rule f64_small_finite [OF small(3)])
  let ?p = "?d * percent * f64_unit * f64_unit"
  have p0: "0 \<le> ?p" using prod u by simp
  have d100: "f64_of_int 100 = 100 * f64_unit" by (rule f64_of_int_exact) simp
  have q: "f64_div (f64_of_int (?d * percent)) (f64_of_int 100) = f64_mag ?p (100 * f64_unit)"
    unfolding exact d100 using fin p0 by (simp add: f64_div_def f64_quot_def not_less)
  have "?d * percent * f64_unit * f64_unit \<le> ?d * 100 * f64_unit * f64_unit"
    using le u by (intro mult_right_mono) simp_all
  then have "?p \<le> ?d * f64_unit * (100 * f64_unit)" by (simp only: mult_ac)
  then have up: "f64_mag ?p (100 * f64_unit) \<le> ?d * f64_unit" using d p0 u by (intro f64_mag_le) simp_all
  have "0 \<le> f64_mag ?p (100 * f64_unit)" using p0 u by (intro f64_mag_nonneg) simp_all
  then show ?thesis
    using False up by (simp only: absorbIgnoreBypass_def if_False f64_mul_of_int [OF small] q f64_to_u32_le)
qed

section \<open>Examples\<close>

definition shield :: "u32 \<Rightarrow> u32 \<Rightarrow> u32 \<Rightarrow> shield_aura" where
  "shield spellID auraType amount =
     \<lparr>shSpellID = spellID, shCasterGUID = 8, shAuraType = auraType, shEffectMask = 1, shMiscValue = 127, shSchoolMask = 2,
      shAmount = amount, shAmounts = [sint amount, 0, 0], shStopped = False\<rparr>"

definition mana_shield_spell :: Spell where
  "mana_shield_spell = no_spell\<lparr>spID := 43020, spSpellFamilyName := 3, spEffects := [no_effect\<lparr>seAura := SpellAuraManaShield\<rparr>, no_effect, no_effect]\<rparr>"

definition mage_env :: absorb_env where
  "mage_env = \<lparr>aeFiles = (\<lambda>_. Inl ErrEOF), aeSpells = (\<lambda>i. if i = 43020 then Some mana_shield_spell else None),
     aeOwner = (\<lambda>g. if g = 8 then Some 0 else None)\<rparr>"

definition warded :: absorb_state where
  "warded = \<lparr>asAuras = [(48066, shield 48066 SpellAuraSchoolAbsorb 100), (17, shield 17 SpellAuraSchoolAbsorb 30)], asMana = 50,
     asSessions = [(0, no_mods)]\<rparr>"

text \<open>Of 100 points the shield of spell 17 takes 30 and is gone, the other one takes the rest.\<close>

lemma warded_run:
  "applyAbsorptionShields mage_env 0 100 1 warded =
     Some (100, 0, warded\<lparr>asAuras := [(48066, shield 48066 SpellAuraSchoolAbsorb 100\<lparr>shAmount := 30\<rparr>)]\<rparr>)"
  by code_simp

theorem absorption_conserves_witness:
  "strength (asAuras warded) 48066 + strength (asAuras warded) 17 = 30 + unat (100 :: u32)"
proof -
  let ?s' = "warded\<lparr>asAuras := [(48066, shield 48066 SpellAuraSchoolAbsorb 100\<lparr>shAmount := 30\<rparr>)]\<rparr>"
  have ok: "auras_ok (asAuras warded)" by (simp add: auras_ok_def gmap_ok_def warded_def shield_def)
  from absorption_conserves [OF warded_run ok] show ?thesis
    by (simp add: warded_def gkeys_def strength_def gget_def shield_def)
qed

theorem absorption_in_order_witness: "strength (asAuras (warded\<lparr>asAuras := [(48066, shield 48066 SpellAuraSchoolAbsorb 100\<lparr>shAmount := 30\<rparr>)]\<rparr>)) 17 = 0"
proof -
  have ok: "auras_ok (asAuras warded)" by (simp add: auras_ok_def gmap_ok_def warded_def shield_def)
  show ?thesis
    by (rule absorption_in_order [OF warded_run ok, of 17 "shield 17 SpellAuraSchoolAbsorb 30"])
      (auto simp: warded_def gget_def shield_def must_absorb_def schools_match_def before_def absorbAuraPriority_def mage_env_def
        strength_def intro!: exI [of _ "48066"])
qed

definition mage :: absorb_state where
  "mage = \<lparr>asAuras = [(43020, shield 43020 SpellAuraManaShield 100), (17, shield 17 SpellAuraSchoolAbsorb 30)], asMana = 50,
     asSessions = [(0, no_mods)]\<rparr>"

theorem own_mana_shield_deadlocks_witness: "applyAbsorptionShields mage_env 0 100 1 mage = None"
  by (rule own_mana_shield_deadlocks [of mage 43020 "shield 43020 SpellAuraManaShield 100" _ mage_env 0 mana_shield_spell])
    (auto simp: mage_def gget_def shield_def schools_match_def mage_env_def mana_shield_spell_def aura_effect_index_def no_spell_def
      strength_sum_def)

text \<open>
  A creature with one point of mana pays it although the part that it pays for rounds down to nothing; a player keeps it.
\<close>

lemma creature_pays_for_nothing:
  assumes "run = \<lparr>arAbsorbed = 0, arRemaining = 3, arMana = 1, arExhausted = []\<rparr>"
  shows "creature_mana_shield (shield 43020 SpellAuraManaShield 100) run = (shield 43020 SpellAuraManaShield 100, run\<lparr>arMana := 0\<rparr>)"
proof -
  have half: "f64_div (f64_of_int 3) (f64_of_int 2) = 3 * 2 ^ 1073"
    using f64_small_finite [of 3] f64_quot_exact [of "3 * f64_unit * f64_unit" 3 1073 "2 * f64_unit"]
    by (simp add: f64_div_def f64_of_int_exact f64_unit_def)
  have cost: "f64_mul (f64_of_int 3) (3 * 2 ^ 1073) = 9 * 2 ^ 1073"
    using f64_small_finite [of 3] f64_quot_exact [of "3 * f64_unit * (3 * 2 ^ 1073)" 9 1073 f64_unit]
    by (simp add: f64_mul_def f64_of_int_exact f64_unit_def f64_inf_def)
  have quarter: "f64_div (f64_of_int 1) (f64_of_int 4) = 1 * 2 ^ 1072"
    using f64_small_finite [of 1] f64_quot_exact [of "1 * f64_unit * f64_unit" 1 1072 "4 * f64_unit"]
    by (simp add: f64_div_def f64_of_int_exact f64_unit_def)
  have paid: "f64_mul (f64_of_int 3) (1 * 2 ^ 1072) = 3 * 2 ^ 1072"
    using f64_small_finite [of 3] f64_quot_exact [of "3 * f64_unit * (1 * 2 ^ 1072)" 3 1072 f64_unit]
    by (simp add: f64_mul_def f64_of_int_exact f64_unit_def f64_inf_def)
  have "f64_to_i32 (9 * 2 ^ 1073) = 4" by (simp add: f64_to_i32_def f64_unit_def)
  moreover have "f64_to_u32 (3 * 2 ^ 1072) = 0" by (simp add: f64_to_u32_def f64_unit_def)
  ultimately show ?thesis
    using half cost quarter paid
    by (simp add: assms creature_mana_shield_def paid_part_def shield_def Let_def)
qed

end
