(* ===== verification/Permissions.thy ===== *)
theory Permissions
  imports Go_Prelude
begin

text \<open>
  \<^verbatim>\<open>engine/world/permissions.go\<close>: what an account may do. An account has permissions of its own and those of its security level,
  some are denied, and a permission stands for the permissions it links to. The rows of the three tables are arguments; a query, a row
  or the end of the rows can fail.
\<close>

section \<open>Queries\<close>

text \<open>
  An open result of \<^verbatim>\<open>database/sql\<close>: what \<open>Scan\<close> gives for each row, and what \<open>Err\<close> and \<open>Close\<close> give at the end.
\<close>

record 'a cursor =
  cuRows :: "(go_error + 'a) list"
  cuErr :: "go_error option"
  cuClose :: "go_error option"

definition no_error :: "go_error option \<Rightarrow> go_error + unit" where
  "no_error e = (case e of None \<Rightarrow> Inr () | Some err \<Rightarrow> Inl err)"

text \<open>The three statements, on the arguments of their place holders.\<close>

record permission_db =
  pdAccount :: "u32 \<Rightarrow> u32 \<Rightarrow> go_error + (u32 \<times> int) cursor"
  pdDefault :: "u8 \<Rightarrow> u32 \<Rightarrow> go_error + u32 cursor"
  pdLinked :: "go_error + (u32 \<times> u32) cursor"

section \<open>Links\<close>

definition add_link :: "go_error + u32 \<times> u32 \<Rightarrow> (u32, u32 list) gomap \<Rightarrow> go_error + (u32, u32 list) gomap" where
  "add_link row links =
     res_bind row (\<lambda>(i, linked).
       if i = linked then Inr links
       else Inr (gput i ((case gget links i of None \<Rightarrow> [] | Some ls \<Rightarrow> ls) @ [linked]) links))"

definition loadPermissionLinks :: "permission_db \<Rightarrow> go_error + (u32, u32 list) gomap" where
  "loadPermissionLinks db =
     res_bind (pdLinked db) (\<lambda>rows.
     res_bind (res_fold add_link (cuRows rows) []) (\<lambda>links.
     res_bind (no_error (cuErr rows)) (\<lambda>_. Inr links)))"

text \<open>
  A set of permissions is a map to \<open>struct{}\<close>; \<open>expandPermissions_set\<close> shows that the order in which \<open>range\<close> visits it does not
  matter. The queue holds what is still to be visited.
\<close>

function expand_queue :: "(u32, u32 list) gomap \<Rightarrow> (u32, unit) gomap \<Rightarrow> u32 list \<Rightarrow> (u32, unit) gomap" where
  "expand_queue links result [] = result"
| "expand_queue links result (i # queue) =
     (if gget result i \<noteq> None then expand_queue links result queue
      else expand_queue links (gput i () result) (queue @ (case gget links i of None \<Rightarrow> [] | Some ls \<Rightarrow> ls)))"
  by pat_completeness auto

text \<open>A visited permission is not visited again, and there are finitely many.\<close>

termination
proof (relation "measures [\<lambda>(links, result, queue). card {j :: u32. gget result j = None}, \<lambda>(links, result, queue). length queue]")
  fix links :: "(u32, u32 list) gomap" and result :: "(u32, unit) gomap" and i queue
  let ?unseen = "{j. gget result j = None}"
  assume "\<not> gget result i \<noteq> None"
  then have "gget result i = None" by blast
  then have "card (?unseen - {i}) < card ?unseen" by (intro card_Diff1_less) (auto simp del: not_None_eq)
  moreover have "{j. gget (gput i () result) j = None} = ?unseen - {i}" by (auto simp: gm.get_put)
  ultimately show "((links, gput i () result, queue @ (case gget links i of None \<Rightarrow> [] | Some ls \<Rightarrow> ls)), (links, result, i # queue))
      \<in> measures [\<lambda>(links, result, queue). card {j :: u32. gget result j = None}, \<lambda>(links, result, queue). length queue]" by simp
qed simp_all

definition expandPermissions :: "(u32, unit) gomap \<Rightarrow> (u32, u32 list) gomap \<Rightarrow> (u32, unit) gomap" where
  "expandPermissions seed links = expand_queue links [] (gkeys seed)"

section \<open>The permissions of an account\<close>

definition own_row :: "go_error + u32 \<times> int \<Rightarrow> (u32, unit) gomap \<times> (u32, unit) gomap \<Rightarrow>
    go_error + (u32, unit) gomap \<times> (u32, unit) gomap" where
  "own_row row sets =
     (case sets of (granted, denied) \<Rightarrow>
       res_bind row (\<lambda>(i, allowed).
         if allowed \<noteq> 0 then Inr (gput i () granted, denied) else Inr (granted, gput i () denied)))"

definition default_row :: "(u32, unit) gomap \<Rightarrow> go_error + u32 \<Rightarrow> (u32, unit) gomap \<Rightarrow> go_error + (u32, unit) gomap" where
  "default_row denied row granted =
     res_bind row (\<lambda>i. if gget denied i = None then Inr (gput i () granted) else Inr granted)"

definition loadGrantedPermissions :: "permission_db \<Rightarrow> u32 \<Rightarrow> u32 \<Rightarrow> u8 \<Rightarrow> go_error + (u32, unit) gomap" where
  "loadGrantedPermissions db accountID realmID security =
     res_bind (pdAccount db accountID realmID) (\<lambda>rows.
     res_bind (res_fold own_row (cuRows rows) ([], [])) (\<lambda>(granted, denied).
     res_bind (no_error (cuErr rows)) (\<lambda>_.
     res_bind (no_error (cuClose rows)) (\<lambda>_.
     res_bind (pdDefault db security realmID) (\<lambda>rows.
     res_bind (res_fold (default_row denied) (cuRows rows) granted) (\<lambda>granted.
     res_bind (no_error (cuErr rows)) (\<lambda>_.
     res_bind (no_error (cuClose rows)) (\<lambda>_.
     res_bind (loadPermissionLinks db) (\<lambda>links.
       let granted = expandPermissions granted links;
           denied = expandPermissions denied links in
       Inr (fold gdel (gkeys denied) granted))))))))))"

definition accountHasPermission :: "permission_db \<Rightarrow> u32 \<Rightarrow> u32 \<Rightarrow> u8 \<Rightarrow> u32 \<Rightarrow> go_error + bool" where
  "accountHasPermission db accountID realmID security permissionID =
     res_bind (loadGrantedPermissions db accountID realmID security) (\<lambda>granted. Inr (gget granted permissionID \<noteq> None))"

section \<open>Reading rows\<close>

text \<open>The rows that are read when nothing fails before \<open>Close\<close>.\<close>

definition rows_read :: "go_error + 'a cursor \<Rightarrow> 'a list \<Rightarrow> bool" where
  "rows_read q xs \<longleftrightarrow> (\<exists>rows. q = Inr rows \<and> cuRows rows = map Inr xs \<and> cuErr rows = None)"

definition all_read :: "go_error + 'a cursor \<Rightarrow> 'a list \<Rightarrow> bool" where
  "all_read q xs \<longleftrightarrow> (\<exists>rows. q = Inr rows \<and> cuRows rows = map Inr xs \<and> cuErr rows = None \<and> cuClose rows = None)"

lemma no_error_Inr: "no_error e = Inr u \<longleftrightarrow> e = None"
  by (simp add: no_error_def split: option.split)

lemma res_fold_rows:
  assumes "\<And>e s. f (Inl e) s = Inl e" "\<And>x s. f (Inr x) s = Inr (g x s)"
  shows "res_fold f rows s = Inr s' \<longleftrightarrow> (\<exists>xs. rows = map Inr xs \<and> s' = fold g xs s)"
proof (induction rows arbitrary: s)
  case (Cons row rows)
  then show ?case
    by (cases row) (auto simp: assms res_bind_def Cons_eq_map_conv)
qed auto

definition put_link :: "u32 \<times> u32 \<Rightarrow> (u32, u32 list) gomap \<Rightarrow> (u32, u32 list) gomap" where
  "put_link row links =
     (if fst row = snd row then links
      else gput (fst row) ((case gget links (fst row) of None \<Rightarrow> [] | Some ls \<Rightarrow> ls) @ [snd row]) links)"

definition put_account :: "u32 \<times> int \<Rightarrow> (u32, unit) gomap \<times> (u32, unit) gomap \<Rightarrow> (u32, unit) gomap \<times> (u32, unit) gomap" where
  "put_account row sets =
     (if snd row \<noteq> 0 then (gput (fst row) () (fst sets), snd sets) else (fst sets, gput (fst row) () (snd sets)))"

definition put_default :: "(u32, unit) gomap \<Rightarrow> u32 \<Rightarrow> (u32, unit) gomap \<Rightarrow> (u32, unit) gomap" where
  "put_default denied i granted = (if gget denied i = None then gput i () granted else granted)"

lemma links_rows: "res_fold add_link rows m = Inr links \<longleftrightarrow> (\<exists>xs. rows = map Inr xs \<and> links = fold put_link xs m)"
  by (rule res_fold_rows) (auto simp: add_link_def put_link_def res_bind_def)

lemma own_rows: "res_fold own_row rows s = Inr s' \<longleftrightarrow> (\<exists>xs. rows = map Inr xs \<and> s' = fold put_account xs s)"
  by (rule res_fold_rows) (auto simp: own_row_def put_account_def res_bind_def split: prod.split)

lemma default_rows: "res_fold (default_row denied) rows s = Inr s' \<longleftrightarrow> (\<exists>xs. rows = map Inr xs \<and> s' = fold (put_default denied) xs s)"
  by (rule res_fold_rows) (auto simp: default_row_def put_default_def res_bind_def)

section \<open>Sets of permissions\<close>

text \<open>The links that are stored are those of the table between different permissions.\<close>

definition links_of :: "(u32, u32 list) gomap \<Rightarrow> (u32 \<times> u32) set" where
  "links_of links = {(i, j). \<exists>ls. gget links i = Some ls \<and> j \<in> set ls}"

lemma links_of_put_link: "links_of (put_link row links) = links_of links \<union> ({row} - Id)"
  by (cases row) (auto simp: links_of_def put_link_def gomap_simps split: option.splits if_splits)

lemma links_of_fold: "links_of (fold put_link xs links) = links_of links \<union> (set xs - Id)"
  by (induction xs arbitrary: links) (auto simp: links_of_put_link)

lemma put_account_keys:
  "set (gkeys (fst (put_account row sets))) = set (gkeys (fst sets)) \<union> (if snd row \<noteq> 0 then {fst row} else {})"
  "set (gkeys (snd (put_account row sets))) = set (gkeys (snd sets)) \<union> (if snd row \<noteq> 0 then {} else {fst row})"
  by (auto simp: put_account_def gomap_simps)

lemma put_account_fold:
  "set (gkeys (fst (fold put_account xs sets))) = set (gkeys (fst sets)) \<union> {i. \<exists>allowed. (i, allowed) \<in> set xs \<and> allowed \<noteq> 0}"
  "set (gkeys (snd (fold put_account xs sets))) = set (gkeys (snd sets)) \<union> {i. (i, 0) \<in> set xs}"
  by (induction xs arbitrary: sets) (auto simp: put_account_keys split: if_splits)

lemma put_default_fold: "set (gkeys (fold (put_default denied) xs m)) = set (gkeys m) \<union> (set xs - set (gkeys denied))"
  by (induction xs arbitrary: m) (auto simp: put_default_def gomap_simps gm.keys_get)

text \<open>What is visited together with what can be reached from the queue does not change.\<close>

lemma expand_queue_set:
  assumes "links_of links `` set (gkeys result) \<subseteq> set (gkeys result) \<union> set queue"
  shows "set (gkeys (expand_queue links result queue)) = (links_of links)\<^sup>* `` (set (gkeys result) \<union> set queue)"
  using assms
proof (induction links result queue rule: expand_queue.induct)
  case (1 links result)
  then show ?case by (simp add: Image_closed_trancl)
next
  case (2 links result i queue)
  let ?new = "case gget links i of None \<Rightarrow> [] | Some ls \<Rightarrow> ls"
  show ?case
  proof (cases "gget result i = None")
    case False
    then have "i \<in> set (gkeys result)" by (simp add: gm.keys_get)
    moreover from this have "set (gkeys result) \<union> set (i # queue) = set (gkeys result) \<union> set queue" by auto
    ultimately show ?thesis using 2(1) 2(3) False by simp
  next
    case True
    have new: "set ?new = links_of links `` {i}" by (cases "gget links i") (auto simp: links_of_def)
    have keys: "set (gkeys (gput i () result)) = insert i (set (gkeys result))" by (simp add: gomap_simps)
    have "links_of links `` set (gkeys (gput i () result)) \<subseteq> set (gkeys (gput i () result)) \<union> set (queue @ ?new)"
      using 2(3) unfolding keys set_append new by auto
    then have "set (gkeys (expand_queue links result (i # queue))) =
        (links_of links)\<^sup>* `` (insert i (set (gkeys result)) \<union> (set queue \<union> links_of links `` {i}))"
      using 2(2) True unfolding set_append keys new by simp
    also have "\<dots> = (links_of links)\<^sup>* `` (set (gkeys result) \<union> set (i # queue))"
      by (auto intro: converse_rtrancl_into_rtrancl)
    finally show ?thesis .
  qed
qed

lemma expandPermissions_set: "set (gkeys (expandPermissions seed links)) = (links_of links)\<^sup>* `` set (gkeys seed)"
  by (simp add: expandPermissions_def expand_queue_set)

text \<open>The same computation on rows that are read.\<close>

definition effective :: "(u32 \<times> int) list \<Rightarrow> u32 list \<Rightarrow> (u32 \<times> u32) list \<Rightarrow> (u32, unit) gomap" where
  "effective account defaults links =
     (let own = fold put_account account ([], []); table = fold put_link links [] in
      fold gdel (gkeys (expandPermissions (snd own) table))
        (expandPermissions (fold (put_default (snd own)) defaults (fst own)) table))"

lemma loadGrantedPermissions_rows:
  "loadGrantedPermissions db accountID realmID security = Inr granted \<longleftrightarrow>
     (\<exists>account defaults links.
        all_read (pdAccount db accountID realmID) account \<and> all_read (pdDefault db security realmID) defaults \<and>
        rows_read (pdLinked db) links \<and> granted = effective account defaults links)"
  unfolding loadGrantedPermissions_def loadPermissionLinks_def res_bind_eq_Inr no_error_Inr own_rows default_rows links_rows
    all_read_def rows_read_def case_prod_beta Let_def effective_def
  by (safe; (force intro: prod.collapse | fastforce))

lemma effective_set:
  "set (gkeys (effective account defaults links)) =
     (set links)\<^sup>* `` ({i. \<exists>allowed. (i, allowed) \<in> set account \<and> allowed \<noteq> 0} \<union> set defaults) -
       (set links)\<^sup>* `` {i. (i, 0) \<in> set account}"
proof -
  have sets: "set (gkeys (fold gdel (gkeys denied) granted)) = set (gkeys granted) - set (gkeys denied)"
    for granted denied :: "(u32, unit) gomap" by (auto simp: gm.keys_get gm.get_fold_del split: if_splits)
  have table: "(links_of (fold put_link links []))\<^sup>* = (set links)\<^sup>*"
    by (simp add: links_of_fold rtrancl_r_diff_Id) (simp add: links_of_def rtrancl_r_diff_Id)
  show ?thesis
    unfolding effective_def Let_def sets expandPermissions_set table put_default_fold put_account_fold by auto
qed

section \<open>Who may do what\<close>

text \<open>
  C10: The check of a permission is exact and fails closed. It answers when all rows of the three tables could be read, and then says
  yes exactly for what can be reached through links from a permission that is granted to the account or to its security level, and
  cannot be reached from one that is denied; in every other case it is an error.
\<close>

theorem accountHasPermission_exact:
  "accountHasPermission db accountID realmID security permission = Inr answer \<longleftrightarrow>
     (\<exists>account defaults links.
        all_read (pdAccount db accountID realmID) account \<and> all_read (pdDefault db security realmID) defaults \<and>
        rows_read (pdLinked db) links \<and>
        (answer \<longleftrightarrow>
           permission \<in> (set links)\<^sup>* `` ({i. \<exists>allowed. (i, allowed) \<in> set account \<and> allowed \<noteq> 0} \<union> set defaults) -
             (set links)\<^sup>* `` {i. (i, 0) \<in> set account}))"
  unfolding accountHasPermission_def res_bind_eq_Inr loadGrantedPermissions_rows effective_set [symmetric]
  by (auto simp: gm.keys_get)

end
