(* ===== verification/Shutdown.thy ===== *)
theory Shutdown
  imports Go_Text
begin

text \<open>
  \<^verbatim>\<open>engine/world/shutdown.go\<close>: the timer that stops the server, with the commands of \<^verbatim>\<open>commands_server.go\<close> that set and cancel it. The
  clock is an argument. A tick holds the mutex of the timer in several sections; commands of the sessions come between them.
\<close>

section \<open>State\<close>

abbreviation (input) shutdownMaskRestart :: u32 where "shutdownMaskRestart \<equiv> 1"
abbreviation (input) shutdownMaskIdle :: u32 where "shutdownMaskIdle \<equiv> 2"
abbreviation (input) shutdownMaskForce :: u32 where "shutdownMaskForce \<equiv> 4"
abbreviation (input) forceShutdownThresholdSecs :: int where "forceShutdownThresholdSecs \<equiv> 30"

text \<open>Integers of 64 bits that may overflow.\<close>

definition to_i64 :: "int \<Rightarrow> int" where
  "to_i64 x = (x + 2 ^ 63) mod 2 ^ 64 - 2 ^ 63"

record serverShutdown =
  sdActive :: bool
  sdMask :: u32
  sdExitCode :: u8
  sdReason :: gostring
  sdDeadline :: int
  sdLastRemaining :: int

definition no_shutdown :: serverShutdown where
  "no_shutdown = \<lparr>sdActive = False, sdMask = 0, sdExitCode = 0, sdReason = [], sdDeadline = zero_time, sdLastRemaining = -1\<rparr>"

text \<open>What the server does: a line to every session or to one, the script events, and \<open>Stop\<close>.\<close>

datatype shutdown_output = Broadcast gostring | SysMessage gostring | InitEvent u8 u32 | CancelEvent | Stopped

record shutdown_server =
  svStopped :: bool
  svTimer :: serverShutdown
  svSessions :: nat
  svScripts :: bool
  svOut :: "shutdown_output list"

definition emit_output :: "shutdown_output list \<Rightarrow> shutdown_server \<Rightarrow> shutdown_server" where
  "emit_output out s = s\<lparr>svOut := svOut s @ out\<rparr>"

section \<open>Messages\<close>

text \<open>\<open>%02d\<close> of a number that is not negative.\<close>

definition two_digits :: "nat \<Rightarrow> gostring" where
  "two_digits n = (if n < 10 then [48] else []) @ decimal n"

definition formatShutdownDuration :: "int \<Rightarrow> gostring" where
  "formatShutdownDuration secs =
     (let n = nat (if secs < 0 then 0 else secs) in
      if n \<ge> 86400 then
        decimal (n div 86400) @ str '':'' @ two_digits (n mod 86400 div 3600) @ str '':'' @ two_digits (n mod 3600 div 60) @
          str '':'' @ two_digits (n mod 60)
      else if n \<ge> 3600 then
        decimal (n div 3600) @ str '':'' @ two_digits (n mod 3600 div 60) @ str '':'' @ two_digits (n mod 60)
      else decimal (n div 60) @ str '':'' @ two_digits (n mod 60))"

definition shutdown_verb :: "u32 \<Rightarrow> gostring" where
  "shutdown_verb flags = (if has_flag flags shutdownMaskRestart then str ''restart'' else str ''shutdown'')"

definition shutdownCountdownMessage :: "u32 \<Rightarrow> int \<Rightarrow> gostring \<Rightarrow> gostring" where
  "shutdownCountdownMessage flags secs reason =
     (let msg = str ''Server '' @ shutdown_verb flags @ str '' in '' @ formatShutdownDuration secs @ str ''.'' in
      if reason \<noteq> [] then msg @ str '' - '' @ reason else msg)"

definition cancelled_message :: "u32 \<Rightarrow> gostring" where
  "cancelled_message flags = str ''Server '' @ shutdown_verb flags @ str '' cancelled.''"

definition shouldBroadcastShutdown :: "u32 \<Rightarrow> int \<Rightarrow> bool" where
  "shouldBroadcastShutdown flags secs =
     (if has_flag flags shutdownMaskIdle then False
      else if secs < 5 * 60 then secs mod 15 = 0
      else if secs < 15 * 60 then secs mod 60 = 0
      else if secs < 30 * 60 then secs mod 300 = 0
      else if secs < 12 * 3600 then secs mod 3600 = 0
      else secs > 12 * 3600 \<and> secs mod 43200 = 0)"

section \<open>The timer\<close>

text \<open>\<open>Time.Sub\<close> gives the nearest duration; a duration times a second, and the sum with a second, may overflow.\<close>

definition time_sub :: "int \<Rightarrow> int \<Rightarrow> int" where
  "time_sub t u = max (- (2 ^ 63)) (min (2 ^ 63 - 1) (t - u))"

definition shutdownRemainingSecs :: "int \<Rightarrow> int \<Rightarrow> int" where
  "shutdownRemainingSecs deadline now =
     (let secs = go_div (to_i64 (time_sub deadline now + 1000000000 - 1)) 1000000000 in if secs < 0 then 0 else secs)"

definition initiateShutdown :: "int \<Rightarrow> int \<Rightarrow> u32 \<Rightarrow> u8 \<Rightarrow> gostring \<Rightarrow> shutdown_server \<Rightarrow> shutdown_server" where
  "initiateShutdown now delaySecs flags exitCode reason s =
     (if svStopped s then s
      else
        let armed = \<lparr>sdActive = True, sdMask = flags, sdExitCode = exitCode, sdReason = reason,
              sdDeadline = (if delaySecs \<le> 0 then now + 1000000000 else now + to_i64 (delaySecs * 1000000000)),
              sdLastRemaining = (if delaySecs \<le> 0 then -1 else delaySecs)\<rparr> in
        emit_output
          ((if delaySecs > 0 \<and> \<not> has_flag flags shutdownMaskIdle then [Broadcast (shutdownCountdownMessage flags delaySecs reason)] else []) @
           (if svScripts s then [InitEvent exitCode flags] else []))
          (s\<lparr>svTimer := armed\<rparr>))"

definition cancelShutdown :: "int \<Rightarrow> shutdown_server \<Rightarrow> (u32 \<times> bool \<times> bool) \<times> shutdown_server" where
  "cancelShutdown now s =
     (if svStopped s \<or> \<not> sdActive (svTimer s) then ((0, False, False), s)
      else
        ((word_of_int (shutdownRemainingSecs (sdDeadline (svTimer s)) now), has_flag (sdMask (svTimer s)) shutdownMaskRestart, True),
         emit_output ([Broadcast (cancelled_message (sdMask (svTimer s)))] @ (if svScripts s then [CancelEvent] else []))
           (s\<lparr>svTimer := no_shutdown\<rparr>)))"

definition loginShutdownNotice :: "int \<Rightarrow> shutdown_server \<Rightarrow> shutdown_server" where
  "loginShutdownNotice now s =
     (let t = svTimer s in
      if \<not> sdActive t \<or> has_flag (sdMask t) shutdownMaskIdle then s
      else emit_output [SysMessage (shutdownCountdownMessage (sdMask t) (shutdownRemainingSecs (sdDeadline t) now) [])] s)"

text \<open>
  Where a tick is: it has returned, is about to count the sessions, to set the timer again, to clear it, or to call \<open>Stop\<close>. The mutex
  is free between two of these places.
\<close>

datatype update_place = Returned | CountSessions int | Rearm int | ClearTimer | CallStop

definition update_lock :: "int \<Rightarrow> shutdown_server \<Rightarrow> update_place \<times> shutdown_server" where
  "update_lock now s =
     (let t = svTimer s; remaining = shutdownRemainingSecs (sdDeadline t) now in
      if svStopped s \<or> \<not> sdActive t then (Returned, s)
      else if remaining \<le> 0 then (if has_flag (sdMask t) shutdownMaskIdle then CountSessions now else ClearTimer, s)
      else if remaining \<noteq> sdLastRemaining t \<and> shouldBroadcastShutdown (sdMask t) remaining then
        (Returned, emit_output [Broadcast (shutdownCountdownMessage (sdMask t) remaining [])]
           (s\<lparr>svTimer := t\<lparr>sdLastRemaining := remaining\<rparr>\<rparr>))
      else (Returned, s))"

fun update_next :: "update_place \<times> shutdown_server \<Rightarrow> update_place \<times> shutdown_server" where
  "update_next (Returned, s) = (Returned, s)"
| "update_next (CountSessions now, s) = (if svSessions s > 0 then Rearm now else ClearTimer, s)"
| "update_next (Rearm now, s) =
     (Returned,
      if sdActive (svTimer s) then s\<lparr>svTimer := (svTimer s)\<lparr>sdDeadline := now + 1000000000, sdLastRemaining := -1\<rparr>\<rparr> else s)"
| "update_next (ClearTimer, s) = (CallStop, s\<lparr>svTimer := no_shutdown\<rparr>)"
| "update_next (CallStop, s) = (Returned, emit_output [Stopped] (s\<lparr>svStopped := True\<rparr>))"

definition updateShutdownTimer :: "int \<Rightarrow> shutdown_server \<Rightarrow> shutdown_server" where
  "updateShutdownTimer now s = snd (update_next (update_next (update_next (update_lock now s))))"

section \<open>Commands\<close>

definition is_digit :: "u8 \<Rightarrow> bool" where
  "is_digit c \<longleftrightarrow> ch CHR ''0'' \<le> c \<and> c \<le> ch CHR ''9''"

definition isNumericString :: "gostring \<Rightarrow> bool" where
  "isNumericString s \<longleftrightarrow> s \<noteq> [] \<and> list_all is_digit s"

fun atoi_digits :: "int \<Rightarrow> gostring \<Rightarrow> int" where
  "atoi_digits n [] = n"
| "atoi_digits n (c # s) = (if is_digit c then atoi_digits (to_i64 (n * 10 + uint (c - ch CHR ''0''))) s else n)"

definition cAtoi :: "gostring \<Rightarrow> int" where
  "cAtoi s =
     (let s = dropWhile (\<lambda>c. c = 32 \<or> 9 \<le> c \<and> c \<le> 13) s in
      case s of [] \<Rightarrow> 0
      | c # rest \<Rightarrow>
          if c = ch CHR ''-'' then to_i64 (- atoi_digits 0 rest)
          else if c = ch CHR ''+'' then atoi_digits 0 rest
          else atoi_digits 0 s)"

definition unit_seconds :: "u8 \<Rightarrow> u32 option" where
  "unit_seconds c =
     (if c = ch CHR ''d'' then Some 86400 else if c = ch CHR ''h'' then Some 3600
      else if c = ch CHR ''m'' then Some 60 else if c = ch CHR ''s'' then Some 1 else None)"

fun parse_units :: "gostring \<Rightarrow> u32 \<Rightarrow> u32 \<Rightarrow> u32 option" where
  "parse_units [] secs buffer = Some secs"
| "parse_units (c # s) secs buffer =
     (if is_digit c then parse_units s secs (buffer * 10 + ucast (c - ch CHR ''0''))
      else case unit_seconds c of None \<Rightarrow> None | Some unit \<Rightarrow> parse_units s (secs + buffer * unit) 0)"

definition parseShutdownDelay :: "gostring \<Rightarrow> int option" where
  "parseShutdownDelay token =
     (if token = [] then None
      else if isNumericString token then
        let delay = cAtoi token in
        if delay < 0 \<or> delay = 0 \<and> token \<noteq> str ''0'' then None else Some delay
      else case parse_units token 0 0 of None \<Rightarrow> None | Some secs \<Rightarrow> if secs = 0 then None else Some (uint secs))"

definition parseShutdownExitCode :: "gostring \<Rightarrow> u8 option" where
  "parseShutdownExitCode token =
     (if \<not> isNumericString token then None
      else let code = cAtoi token in
        if code < 0 \<or> code > 125 \<or> code = 0 \<and> token \<noteq> str ''0'' then None else Some (word_of_int code))"

fun parseShutdownArgs :: "gostring list \<Rightarrow> u8 \<Rightarrow> (u8 \<times> gostring) option" where
  "parseShutdownArgs [] exitCode = Some (exitCode, [])"
| "parseShutdownArgs (tok # tokens) exitCode =
     (if isNumericString tok then
        case parseShutdownExitCode tok of None \<Rightarrow> None | Some code \<Rightarrow> parseShutdownArgs tokens code
      else Some (exitCode, tok @ concat (map (\<lambda>t. str '' '' @ t) tokens)))"

text \<open>The length of the arguments joined by blanks.\<close>

definition joined_length :: "gostring list \<Rightarrow> nat" where
  "joined_length args = sum_list (map length args) + (length args - 1)"

definition serverIsOnlyUser :: "shutdown_server \<Rightarrow> bool" where
  "serverIsOnlyUser s \<longleftrightarrow> svSessions s \<le> 1"

definition serverShutdownTimed :: "int \<Rightarrow> gostring list \<Rightarrow> u32 \<Rightarrow> u8 \<Rightarrow> shutdown_server \<Rightarrow> bool \<times> shutdown_server" where
  "serverShutdownTimed now args flags defaultExitCode s =
     (if joined_length args > 255 then (False, s)
      else case args of [] \<Rightarrow> (False, s)
      | first # rest \<Rightarrow>
          (case parseShutdownDelay first of None \<Rightarrow> (False, s)
           | Some delay \<Rightarrow>
               (case parseShutdownArgs rest defaultExitCode of None \<Rightarrow> (False, s)
                | Some (exitCode, reason) \<Rightarrow>
                    if delay < forceShutdownThresholdSecs \<and> \<not> has_flag flags shutdownMaskForce \<and> \<not> serverIsOnlyUser s then
                      (True, initiateShutdown now forceShutdownThresholdSecs flags exitCode reason
                         (emit_output [SysMessage (str ''Shutdown delayed to 30 seconds.'')] s))
                    else (True, initiateShutdown now delay flags exitCode reason s))))"

definition serverShutdownCancel :: "int \<Rightarrow> bool \<Rightarrow> shutdown_server \<Rightarrow> bool \<times> shutdown_server" where
  "serverShutdownCancel now allowed s =
     (if \<not> allowed then (False, s)
      else case cancelShutdown now s of ((remaining, wasRestart, ok), s') \<Rightarrow>
        if \<not> ok then (True, s')
        else (True, emit_output [SysMessage (str ''Server '' @ (if wasRestart then str ''restart'' else str ''shutdown'') @
               str '' cancelled with '' @ decimal (unat remaining) @ str '' seconds remaining.'')] s'))"

text \<open>A tick and the commands of the sessions, in any order; sessions come and go.\<close>

inductive shutdown_step :: "update_place \<times> shutdown_server \<Rightarrow> update_place \<times> shutdown_server \<Rightarrow> bool" where
  tick: "shutdown_step (Returned, s) (update_lock now s)"
| tick_goes_on: "place \<noteq> Returned \<Longrightarrow> shutdown_step (place, s) (update_next (place, s))"
| timed: "shutdown_step (place, s) (place, snd (serverShutdownTimed now args flags defaultExitCode s))"
| cancel: "shutdown_step (place, s) (place, snd (serverShutdownCancel now allowed s))"
| login: "shutdown_step (place, s) (place, loginShutdownNotice now (s\<lparr>svSessions := Suc (svSessions s)\<rparr>))"
| logout: "shutdown_step (place, s) (place, s\<lparr>svSessions := svSessions s - 1\<rparr>)"

end
