(* ===== verification/Shutdown_Spec.thy ===== *)
theory Shutdown_Spec
  imports Shutdown
begin

text \<open>
  What the shutdown timer promises: the server stops with the first tick after the delay and not before, and each second of the
  countdown is announced once. A cancellation between two sections of a tick is confirmed and has no effect.
\<close>

section \<open>The time that is left\<close>

lemma to_i64_id: "- (2 ^ 63) \<le> x \<Longrightarrow> x < 2 ^ 63 \<Longrightarrow> to_i64 x = x"
  by (simp add: to_i64_def)

text \<open>The delays whose deadline can be represented, with a second to spare for rounding up.\<close>

abbreviation max_delay :: int where "max_delay \<equiv> 9223372035"

lemma go_div_second:
  "(if go_div d 1000000000 < 0 then 0 else go_div d 1000000000) = (if d < 1000000000 then 0 else d div 1000000000)"
proof (cases "0 \<le> d")
  case False
  then have "go_div d 1000000000 \<le> 0" by (simp add: go_div_def)
  then show ?thesis using False by auto
qed (auto simp: div_pos_pos_trivial)

lemma remaining_exact:
  assumes "deadline - now \<le> max_delay * 1000000000"
  shows "shutdownRemainingSecs deadline now = (if deadline \<le> now then 0 else (deadline - now + 999999999) div 1000000000)"
proof -
  have "to_i64 (time_sub deadline now + 1000000000 - 1) = time_sub deadline now + 999999999"
    using assms by (subst to_i64_id) (simp_all add: time_sub_def max_def min_def)
  then show ?thesis
    using assms by (simp add: shutdownRemainingSecs_def Let_def go_div_second time_sub_def max_def min_def)
qed

lemma remaining_nonneg: "0 \<le> shutdownRemainingSecs deadline now"
  by (simp add: shutdownRemainingSecs_def Let_def)

lemma remaining_0:
  assumes "deadline - now \<le> max_delay * 1000000000"
  shows "shutdownRemainingSecs deadline now \<le> 0 \<longleftrightarrow> deadline \<le> now"
  unfolding remaining_exact [OF assms] by (simp; arith)

section \<open>A tick\<close>

lemma update_stopped [simp]: "svStopped s \<Longrightarrow> updateShutdownTimer now s = s"
  by (simp add: updateShutdownTimer_def update_lock_def Let_def)

lemma update_inactive [simp]: "\<not> sdActive (svTimer s) \<Longrightarrow> updateShutdownTimer now s = s"
  by (simp add: updateShutdownTimer_def update_lock_def Let_def)

text \<open>A tick ends after three sections at most.\<close>

lemma update_ends: "fst (update_next (update_next (update_next (update_lock now s)))) = Returned"
  by (simp add: update_lock_def Let_def)

definition held :: "shutdown_server \<Rightarrow> bool" where
  "held s \<longleftrightarrow> has_flag (sdMask (svTimer s)) shutdownMaskIdle \<and> svSessions s > 0"

lemma update_expired:
  assumes "\<not> svStopped s" "sdActive (svTimer s)" "shutdownRemainingSecs (sdDeadline (svTimer s)) now \<le> 0"
  shows "\<not> held s \<Longrightarrow> updateShutdownTimer now s = emit_output [Stopped] (s\<lparr>svTimer := no_shutdown, svStopped := True\<rparr>)"
    and "held s \<Longrightarrow> updateShutdownTimer now s =
      s\<lparr>svTimer := (svTimer s)\<lparr>sdDeadline := now + 1000000000, sdLastRemaining := -1\<rparr>\<rparr>"
  using assms by (auto simp: updateShutdownTimer_def update_lock_def held_def emit_output_def Let_def)

lemma update_running:
  assumes "\<not> svStopped s" "sdActive (svTimer s)" "shutdownRemainingSecs (sdDeadline (svTimer s)) now = remaining" "remaining > 0"
  shows "updateShutdownTimer now s =
    (if remaining \<noteq> sdLastRemaining (svTimer s) \<and> shouldBroadcastShutdown (sdMask (svTimer s)) remaining then
       emit_output [Broadcast (shutdownCountdownMessage (sdMask (svTimer s)) remaining [])]
         (s\<lparr>svTimer := (svTimer s)\<lparr>sdLastRemaining := remaining\<rparr>\<rparr>)
     else s)"
  using assms by (simp add: updateShutdownTimer_def update_lock_def Let_def)

section \<open>Stopping in time\<close>

lemma ticks_stopped: "svStopped s \<Longrightarrow> fold updateShutdownTimer ticks s = s"
  by (induction ticks) simp_all

lemma ticks_stop:
  assumes "\<not> svStopped s" "sdActive (svTimer s)" "\<not> held s" "\<forall>t \<in> set ticks. sdDeadline (svTimer s) - t \<le> max_delay * 1000000000"
  shows "svStopped (fold updateShutdownTimer ticks s) \<longleftrightarrow> (\<exists>t \<in> set ticks. sdDeadline (svTimer s) \<le> t)"
  using assms
proof (induction ticks arbitrary: s)
  case (Cons t ticks)
  show ?case
  proof (cases "sdDeadline (svTimer s) \<le> t")
    case True
    then have "updateShutdownTimer t s = emit_output [Stopped] (s\<lparr>svTimer := no_shutdown, svStopped := True\<rparr>)"
      using Cons.prems by (intro update_expired(1)) (simp_all add: remaining_0)
    then show ?thesis using True by (simp add: ticks_stopped emit_output_def)
  next
    case False
    then have pos: "shutdownRemainingSecs (sdDeadline (svTimer s)) t > 0"
      using Cons.prems(4) remaining_0 [of "sdDeadline (svTimer s)" t] by auto
    let ?s = "updateShutdownTimer t s"
    have "\<not> svStopped ?s" "sdActive (svTimer ?s)" "\<not> held ?s" "sdDeadline (svTimer ?s) = sdDeadline (svTimer s)"
      using Cons.prems(1-3) by (auto simp: update_running [OF Cons.prems(1,2) refl pos] emit_output_def held_def)
    then show ?thesis using Cons.IH [of ?s] Cons.prems(4) False by simp
  qed
qed simp

lemma ticks_held:
  assumes "\<not> svStopped s" "sdActive (svTimer s)" "held s"
  shows "\<not> svStopped (fold updateShutdownTimer ticks s)"
  using assms
proof (induction ticks arbitrary: s)
  case (Cons t ticks)
  let ?s = "updateShutdownTimer t s" and ?r = "shutdownRemainingSecs (sdDeadline (svTimer s)) t"
  have "\<not> svStopped ?s \<and> sdActive (svTimer ?s) \<and> held ?s"
  proof (cases "?r \<le> 0")
    case True
    show ?thesis using update_expired(2) [OF Cons.prems(1,2) True Cons.prems(3)] Cons.prems by (simp add: held_def)
  next
    case False
    then show ?thesis using Cons.prems by (simp add: update_running [OF Cons.prems(1,2) refl] emit_output_def held_def)
  qed
  then show ?case using Cons.IH [of ?s] by simp
qed simp

text \<open>
  C12: The server stops in time. After a shutdown in a number of seconds, up to 292 years, that nobody cancels, the server has stopped
  exactly when some tick came at the deadline or later; an idle shutdown never stops it while there are sessions.
\<close>

theorem shutdown_in_time:
  assumes "\<not> svStopped s" "1 \<le> delay" "delay \<le> 9223372035" "\<forall>t \<in> set ticks. now \<le> t"
  shows "svStopped (fold updateShutdownTimer ticks (initiateShutdown now delay flags exitCode reason s)) \<longleftrightarrow>
    \<not> (has_flag flags shutdownMaskIdle \<and> svSessions s > 0) \<and> (\<exists>t \<in> set ticks. now + delay * 1000000000 \<le> t)"
proof -
  let ?s = "initiateShutdown now delay flags exitCode reason s"
  have "to_i64 (delay * 1000000000) = delay * 1000000000" using assms(2,3) by (intro to_i64_id) simp_all
  then have s: "\<not> svStopped ?s" "sdActive (svTimer ?s)" "sdDeadline (svTimer ?s) = now + delay * 1000000000"
    "held ?s \<longleftrightarrow> has_flag flags shutdownMaskIdle \<and> svSessions s > 0"
    using assms(1,2) by (simp_all add: initiateShutdown_def emit_output_def held_def Let_def)
  have near: "\<forall>t \<in> set ticks. sdDeadline (svTimer ?s) - t \<le> max_delay * 1000000000"
    using assms(3,4) by (auto simp: s(3))
  show ?thesis
  proof (cases "held ?s")
    case True
    then show ?thesis using ticks_held [OF s(1,2)] s(4) by simp
  next
    case False
    then show ?thesis using ticks_stop [OF s(1,2) False near] s(3,4) by simp
  qed
qed

text \<open>
  A longer delay overflows when it is turned into a duration, and the deadline lies in the past: the next tick stops the server.
\<close>

lemma huge_delay_stops_at_once:
  assumes "\<not> svStopped s" "\<not> has_flag flags shutdownMaskIdle" "9223372037 \<le> delay" "delay \<le> 18446744073" "now \<le> t"
  shows "svStopped (updateShutdownTimer t (initiateShutdown now delay flags exitCode reason s))"
proof -
  let ?s = "initiateShutdown now delay flags exitCode reason s"
  let ?d = "delay * 1000000000"
  have "(?d + 2 ^ 63) mod 2 ^ 64 = (?d + 2 ^ 63 - 2 ^ 64) mod 2 ^ 64" by (rule minus_mod_self2 [symmetric])
  also have "\<dots> = ?d + 2 ^ 63 - 2 ^ 64" using assms(3,4) by (intro mod_pos_pos_trivial) simp_all
  finally have "to_i64 ?d = ?d - 2 ^ 64" by (simp add: to_i64_def)
  then have s: "\<not> svStopped ?s" "sdActive (svTimer ?s)" "sdDeadline (svTimer ?s) < now" "\<not> held ?s"
    using assms by (simp_all add: initiateShutdown_def emit_output_def held_def Let_def)
  have "shutdownRemainingSecs (sdDeadline (svTimer ?s)) t \<le> 0" using s(3) assms(5) by (simp add: remaining_0)
  then show ?thesis using update_expired(1) [OF s(1,2) _ s(4)] by (simp add: emit_output_def)
qed

section \<open>The countdown\<close>

text \<open>The seconds announced by ticks that find these seconds left, when \<open>prev\<close> was announced before.\<close>

fun announced :: "u32 \<Rightarrow> int \<Rightarrow> int list \<Rightarrow> int list" where
  "announced flags prev [] = []"
| "announced flags prev (r # rs) =
     (if r \<noteq> prev \<and> shouldBroadcastShutdown flags r then r # announced flags r rs else announced flags prev rs)"

lemma announced_falling:
  assumes "sorted_wrt (\<ge>) (prev # rs)"
  shows "set (announced flags prev rs) = {r \<in> set rs. shouldBroadcastShutdown flags r \<and> r \<noteq> prev} \<and> distinct (announced flags prev rs)"
  using assms
proof (induction rs arbitrary: prev)
  case (Cons r rs)
  show ?case
  proof (cases "r \<noteq> prev \<and> shouldBroadcastShutdown flags r")
    case True
    then have "prev \<notin> set rs" using Cons.prems by auto
    then show ?thesis using Cons.IH [of r] Cons.prems True by auto
  next
    case False
    then show ?thesis using Cons.IH [of prev] Cons.prems by auto
  qed
qed simp

lemma ticks_announce:
  assumes "\<not> svStopped s" "sdActive (svTimer s)" "\<forall>t \<in> set ticks. shutdownRemainingSecs (sdDeadline (svTimer s)) t > 0"
  shows "svOut (fold updateShutdownTimer ticks s) = svOut s @
    map (\<lambda>r. Broadcast (shutdownCountdownMessage (sdMask (svTimer s)) r []))
      (announced (sdMask (svTimer s)) (sdLastRemaining (svTimer s)) (map (shutdownRemainingSecs (sdDeadline (svTimer s))) ticks))"
  using assms
proof (induction ticks arbitrary: s)
  case (Cons t ticks)
  let ?s = "updateShutdownTimer t s"
  have pos: "shutdownRemainingSecs (sdDeadline (svTimer s)) t > 0" using Cons.prems(3) by simp
  note run = update_running [OF Cons.prems(1,2) refl pos]
  have "\<not> svStopped ?s" "sdActive (svTimer ?s)" "sdDeadline (svTimer ?s) = sdDeadline (svTimer s)" "sdMask (svTimer ?s) = sdMask (svTimer s)"
    using Cons.prems(1,2) by (simp_all add: run emit_output_def)
  then show ?case using Cons.IH [of ?s] Cons.prems(3) by (simp add: run emit_output_def)
qed simp

lemma remaining_falls:
  assumes "t \<le> u" "deadline - t \<le> max_delay * 1000000000"
  shows "shutdownRemainingSecs deadline u \<le> shutdownRemainingSecs deadline t"
  using assms by (simp add: remaining_exact zdiv_mono1 pos_imp_zdiv_nonneg_iff)

text \<open>
  The countdown: while ticks come in order before the deadline, each number of seconds that a tick finds left and that is due for an
  announcement is announced, and none is announced twice.
\<close>

lemma countdown_once:
  fixes flags :: u32 and exitCode :: u8 and reason :: gostring
  assumes "\<not> svStopped s" "1 \<le> delay" "delay \<le> max_delay" "sorted ticks" "\<forall>t \<in> set ticks. now \<le> t \<and> t < now + delay * 1000000000"
  defines "armed \<equiv> initiateShutdown now delay flags exitCode reason s"
    and "left \<equiv> shutdownRemainingSecs (now + delay * 1000000000)"
  shows "\<exists>rs. svOut (fold updateShutdownTimer ticks armed) = svOut armed @ map (\<lambda>r. Broadcast (shutdownCountdownMessage flags r [])) rs \<and>
    distinct rs \<and> set rs = {r \<in> left ` set ticks. shouldBroadcastShutdown flags r \<and> r \<noteq> delay}"
proof -
  have "to_i64 (delay * 1000000000) = delay * 1000000000" using assms(2,3) by (intro to_i64_id) simp_all
  then have s: "\<not> svStopped armed" "sdActive (svTimer armed)" "sdDeadline (svTimer armed) = now + delay * 1000000000"
    "sdMask (svTimer armed) = flags" "sdLastRemaining (svTimer armed) = delay"
    using assms(1,2) by (simp_all add: armed_def initiateShutdown_def emit_output_def Let_def)
  have near: "now + delay * 1000000000 - t \<le> max_delay * 1000000000" if "now \<le> t" for t using assms(3) that by linarith
  have pos: "\<forall>t \<in> set ticks. shutdownRemainingSecs (sdDeadline (svTimer armed)) t > 0"
    using assms(5) near remaining_0 by (fastforce simp: s(3))
  have first: "left now = delay" using near [of now] assms(2) by (simp add: left_def remaining_exact)
  have "sorted_wrt (\<ge>) (map left ticks)"
    using assms(4,5) by (auto simp: sorted_wrt_map left_def intro!: sorted_wrt_mono_rel [OF _ assms(4)] remaining_falls near)
  moreover have "\<forall>t \<in> set ticks. left t \<le> left now"
    using assms(3,5) by (auto simp: left_def intro!: remaining_falls)
  ultimately have "sorted_wrt (\<ge>) (delay # map left ticks)" by (simp add: first)
  from announced_falling [OF this, of flags] show ?thesis
    unfolding ticks_announce [OF s(1,2) pos] s left_def [symmetric] by auto
qed

section \<open>Cancelling too late\<close>


section \<open>Delays\<close>

lemma digit_back: "n < 10 \<Longrightarrow> is_digit (48 + of_nat n) \<and> (48 + of_nat n :: u8) - 48 = of_nat n"
  by (cases n rule: nat.exhaust) (auto simp: is_digit_def word_le_nat_alt unat_word_ariths unat_of_nat)

lemma digit_words: "n < 10 \<Longrightarrow> uint (of_nat n :: u8) = int n \<and> ucast (of_nat n :: u8) = (of_nat n :: u32)"
proof -
  assume "n < 10"
  then have "n = 0 \<or> n = 1 \<or> n = 2 \<or> n = 3 \<or> n = 4 \<or> n = 5 \<or> n = 6 \<or> n = 7 \<or> n = 8 \<or> n = 9" by presburger
  then show ?thesis by (elim disjE) simp_all
qed

lemma decimal_digits: "list_all is_digit (decimal n) \<and> decimal n \<noteq> []"
proof (induction n rule: decimal.induct)
  case (1 n)
  then show ?case by (cases "n < 10") (simp_all add: decimal.simps [of n] digit_back)
qed

text \<open>Reading a number of a time string takes it modulo \<open>2 ^ 32\<close>.\<close>

lemma parse_units_decimal: "parse_units (decimal n @ text') secs 0 = parse_units text' secs (of_nat n)"
proof (induction n arbitrary: text' rule: decimal.induct)
  case (1 n)
  have d: "ucast (of_nat (n mod 10) :: u8) = (of_nat (n mod 10) :: u32)"
    using digit_words [of "n mod 10"] by simp
  show ?case
  proof (cases "n < 10")
    case True
    then show ?thesis using d by (simp add: decimal.simps [of n] digit_back)
  next
    case False
    have "of_nat (n div 10) * 10 + of_nat (n mod 10) = (of_nat n :: u32)"
      by (metis div_mult_mod_eq of_nat_add of_nat_mult of_nat_numeral)
    then show ?thesis using False 1 [of "(48 + of_nat (n mod 10)) # text'"] d digit_back [of "n mod 10"]
      by (simp add: decimal.simps [of n])
  qed
qed

definition time_string :: "(nat \<times> u8) list \<Rightarrow> gostring" where
  "time_string parts = concat (map (\<lambda>(n, u). decimal n @ [u]) parts)"

definition time_total :: "(nat \<times> u8) list \<Rightarrow> u32" where
  "time_total parts = (\<Sum>(n, u) \<leftarrow> parts. of_nat n * the (unit_seconds u))"

lemma unit_no_digit: "unit_seconds u \<noteq> None \<Longrightarrow> \<not> is_digit u"
  by (auto simp: unit_seconds_def is_digit_def split: if_splits)

lemma parse_units_time:
  assumes "\<forall>(n, u) \<in> set parts. unit_seconds u \<noteq> None"
  shows "parse_units (time_string parts) secs 0 = Some (secs + time_total parts)"
  using assms
proof (induction parts arbitrary: secs)
  case (Cons part parts)
  obtain n u where part: "part = (n, u)" by (cases part)
  have u: "\<not> is_digit u" "unit_seconds u \<noteq> None" using Cons.prems unit_no_digit [of u] by (auto simp: part)
  then show ?case
    using Cons.IH Cons.prems by (auto simp: part time_string_def time_total_def parse_units_decimal add_ac)
qed (simp add: time_string_def time_total_def)

text \<open>A time string such as \<open>1h30m\<close> stands for its seconds, modulo \<open>2 ^ 32\<close>; a number stands for itself.\<close>

lemma time_string_parsed:
  assumes "parts \<noteq> []" "\<forall>(n, u) \<in> set parts. unit_seconds u \<noteq> None"
  shows "parseShutdownDelay (time_string parts) = (if time_total parts = 0 then None else Some (uint (time_total parts)))"
proof -
  obtain n u rest where parts: "parts = (n, u) # rest" using assms(1) by (metis list.exhaust prod.exhaust)
  have "\<not> is_digit u" using assms(2) unit_no_digit [of u] by (auto simp: parts)
  then have "\<not> isNumericString (time_string parts)" "time_string parts \<noteq> []"
    by (simp_all add: parts time_string_def isNumericString_def)
  then show ?thesis using parse_units_time [OF assms(2), of 0] by (simp add: parseShutdownDelay_def)
qed

lemma atoi_decimal: "int n < 2 ^ 63 \<Longrightarrow> atoi_digits 0 (decimal n @ text') = atoi_digits (int n) text'"
proof (induction n arbitrary: text' rule: decimal.induct)
  case (1 n)
  have d: "uint (of_nat (n mod 10) :: u8) = int (n mod 10)"
    using digit_words [of "n mod 10"] by simp
  show ?case
  proof (cases "n < 10")
    case True
    then show ?thesis using d by (simp add: decimal.simps [of n] digit_back to_i64_id)
  next
    case False
    have "int (n div 10) * 10 + int (n mod 10) = int n" by presburger
    moreover have "int (n div 10) < 2 ^ 63" using 1(2) by linarith
    ultimately show ?thesis
      using False 1(1) [of "(48 + of_nat (n mod 10)) # text'"] 1(2) d digit_back [of "n mod 10"] to_i64_id [of "int n"]
      by (simp add: decimal.simps [of n])
  qed
qed

lemma number_parsed:
  assumes "int n < 2 ^ 63" "0 < n"
  shows "parseShutdownDelay (decimal n) = Some (int n)"
proof -
  obtain c s where c: "decimal n = c # s" "is_digit c" "list_all is_digit s"
    using decimal_digits [of n] by (cases "decimal n") auto
  then have other: "(c = 32 \<or> 9 \<le> c \<and> c \<le> 13) = False" "c \<noteq> 45" "c \<noteq> 43" by (auto simp: is_digit_def word_le_nat_alt)
  then have "cAtoi (decimal n) = int n"
    using atoi_decimal [OF assms(1), of "[]"] c other by (simp only: cAtoi_def dropWhile.simps Let_def list.case if_False) simp
  then show ?thesis using c assms(2) by (simp add: parseShutdownDelay_def isNumericString_def)
qed

section \<open>Examples\<close>

definition quiet_server :: shutdown_server where
  "quiet_server = \<lparr>svStopped = False, svTimer = no_shutdown, svSessions = 3, svScripts = True, svOut = []\<rparr>"

theorem shutdown_in_time_witness:
  "svStopped (fold updateShutdownTimer [1000000000, 2000000000] (initiateShutdown 0 2 1 0 [] quiet_server)) \<and>
   \<not> svStopped (fold updateShutdownTimer [1000000000, 1999999999] (initiateShutdown 0 2 1 0 [] quiet_server))"
  using shutdown_in_time [of quiet_server 2 "[1000000000, 2000000000]" 0 1 0 "[]"]
    shutdown_in_time [of quiet_server 2 "[1000000000, 1999999999]" 0 1 0 "[]"]
  by (simp add: quiet_server_def has_flag_def)

definition due_server :: shutdown_server where
  "due_server = quiet_server\<lparr>svScripts := False, svTimer := \<lparr>sdActive = True, sdMask = 1, sdExitCode = 2, sdReason = [],
     sdDeadline = 5000000000, sdLastRemaining = 5\<rparr>\<rparr>"


end
