(* ===== verification/Spec2Isabelle.thy ===== *)
theory Spec2Isabelle
  imports Frames Wire_Codec Lfg_System Lfg_Status Bg_Arena Threat_Wire Spell_Packets Group_Packets Update_Packets Event_Spec Auth_Login
    Taxi_Spec Spell_Spec Diminishing_Spec Runes_Spec Hyperlinks_Spec
    Sql_Split_Spec Base32 Reentrant_Mutex Worker_Pool Spell_Mods_Spec Absorption_Spec Permissions Shutdown_Spec
begin

text \<open>
  A model of the core logic of a World of Warcraft server emulator written in Go
  (\<^verbatim>\<open>MorenoLand/Moreno.Go-TrinityCore\<close>), and the theorems that make it correct.

  The server talks to its clients in packets (\<^verbatim>\<open>pkg/protocol\<close>), whose headers are encrypted
  (\<^verbatim>\<open>engine/crypto\<close>); the handlers of a packet (\<^verbatim>\<open>engine/world\<close>) call managers that hold the shared
  state under a mutex. A method of such a manager is one step here: it takes the state, its arguments and,
  where the code reads the clock, the current time in nanoseconds, and returns its result and the new
  state.

  \<^bold>\<open>Theories.\<close>
  \<^item> \<open>Go_Prelude\<close>: Go integers, strings, errors, bit tests, and maps with their iteration order.
  \<^item> \<open>Wire\<close>, \<open>Wire_Codec\<close>: \<^verbatim>\<open>pkg/protocol/buffer.go\<close>, the packet buffer, and the round-trip laws of its
    encodings as locales with their interpretations.
  \<^item> \<open>Std_Crypto\<close>: RC4, SHA-1 and HMAC of the Go standard library, which the header cipher uses.
  \<^item> \<open>Frames\<close>: \<^verbatim>\<open>pkg/protocol/world.go\<close> and \<^verbatim>\<open>engine/crypto/authcrypt.go\<close>, framing and encryption of a
    session; what one end sends, the other reads.
  \<^item> \<open>Lfg_Roles\<close>, \<open>Lfg_Manager\<close>, \<open>Lfg_Proposals\<close>, \<open>Lfg_Matching\<close>, \<open>Lfg_Status\<close>: \<^verbatim>\<open>engine/world/lfg.go\<close>, the
    dungeon finder: role assignment, queues and role checks, proposals and their answers, the search for
    five players, and the queue status sent to the players.
    \<open>Lfg_System\<close> runs the methods in any order and keeps the invariant of the manager.
  \<^item> \<open>Bg_Queue\<close>, \<open>Bg_Matchmaker\<close>, \<open>Bg_Arena\<close>: \<^verbatim>\<open>engine/world/battleground_queue.go\<close> and
    \<^verbatim>\<open>battleground_queue_matchmaker.go\<close>, the selection pools and the five match making functions.
  \<^item> \<open>Go_Float\<close>: \<^verbatim>\<open>float32\<close> sums and products. \<open>Threat\<close>, \<open>Threat_Victim\<close>, \<open>Threat_Laws\<close>, \<open>Threat_Spec\<close>: the
    \<^verbatim>\<open>ThreatManager\<close> of \<^verbatim>\<open>engine/world/threat.go\<close>, whom a creature attacks; the choice of the victim, one
    lemma per operation for the invariant, and the reachable states. \<open>Threat_Wire\<close>: the list as the client sees it.
  \<^item> \<open>Spell_Packets\<close>, \<open>Group_Packets\<close>, \<open>Misc_Packets\<close>, \<open>Update_Packets\<close>: the packets of \<^verbatim>\<open>pkg/protocol\<close> for spells and
    auras, group members, chat, melee, weather, items, light, threat, and object updates with their field masks.
  \<^item> \<open>Go_Heap\<close>, \<open>Event_Queue\<close>, \<open>Event_Spec\<close>: \<^verbatim>\<open>engine/runtime/events.go\<close>, the timer queue of the world loop, over a
    model of \<^verbatim>\<open>container/heap\<close>; a set of pending timers as its specification.
  \<^item> \<open>Srp6\<close>: \<^verbatim>\<open>engine/crypto/srp6.go\<close> and \<^verbatim>\<open>totp.go\<close>, the password proof and the one-time tokens; client and server
    agree on a key. \<open>Auth_Session\<close>, \<open>Auth_Realms\<close>: \<^verbatim>\<open>engine/auth/server.go\<close>, the commands of a session of the login server and
    the realm list. \<open>Auth_Spec\<close>: the reachable sessions, and that nobody is authenticated without a proof; \<open>Auth_Login\<close>: the
    login that succeeds and the one that fails.
  \<^item> \<open>Dbc\<close>: \<^verbatim>\<open>engine/data/dbc/dbc.go\<close>, the tables of the client: what is laid out is what is parsed and found.
    \<open>Taxi\<close>, \<open>Taxi_Spec\<close>: \<^verbatim>\<open>engine/data/wotlk/taxi.go\<close>, the flight network over these tables and the paths that scripts
    add; masks as sets of nodes, the nearest node as a minimum, fresh identifiers over all registrations.
  \<^item> \<open>Spell_Data\<close>, \<open>Spell_Positivity\<close>, \<open>Spell_Binary\<close>: \<^verbatim>\<open>engine/data/wotlk/store.go\<close>, \<^verbatim>\<open>positivity.go\<close> and
    \<^verbatim>\<open>spell_binary.go\<close>, what is computed of a spell once; \<open>Spell_Spec\<close>: the sign of an effect as a condition on the spell.
    \<open>Diminishing\<close>, \<open>Diminishing_Spec\<close>: \<^verbatim>\<open>engine/world/diminishing.go\<close> and the steps of \<^verbatim>\<open>spells.go\<close> that count; the
    current row of hits as the specification of the counters.
  \<^item> \<open>Runes\<close>, \<open>Runes_Spec\<close>: \<^verbatim>\<open>engine/world/runes.go\<close>, the six runes of a death knight: who passes the check of a cost
    pays exactly that cost. \<open>Hyperlinks\<close>, \<open>Hyperlinks_Spec\<close>: \<^verbatim>\<open>engine/world/hyperlinks.go\<close>, the links in a chat message, with
    the grammar of a message as the specification of the checker.
  \<^item> \<open>Go_Double\<close>: \<^verbatim>\<open>float64\<close>, as far as spell modifiers need it. \<open>Spell_Mods\<close>, \<open>Spell_Mods_Spec\<close>:
    \<^verbatim>\<open>engine/world/spellmod.go\<close>, the modifiers that auras put on spells; the table of the client is the sum of what is
    registered, and the totals of a spell in closed form.
  \<^item> \<open>Absorption\<close>, \<open>Absorption_Spec\<close>: \<^verbatim>\<open>engine/world/absorption.go\<close>, the shields that take damage before the health
    does: damage is conserved, the shields are used up in order, and a player who shields himself with mana waits for the
    lock that his own session holds. The percentage of an attacker that passes the shields is an argument of
    \<open>absorbIgnoreBypass\<close>; of the removal of a used up shield only its leaving the map is modelled.
  \<^item> \<open>Go_Text\<close>: the white space and the numbers of Go's \<^verbatim>\<open>strings\<close> and \<^verbatim>\<open>strconv\<close>. \<open>Sql_Split\<close>, \<open>Sql_Split_Spec\<close>:
    \<^verbatim>\<open>engine/database/sqlsplit.go\<close>, the statements of a script, against the grammar of a script. \<open>Base32\<close>:
    \<^verbatim>\<open>engine/crypto/base32.go\<close>, the letters of a one-time secret.
  \<^item> \<open>Permissions\<close>: \<^verbatim>\<open>engine/world/permissions.go\<close>, the permissions of an account from the rows of the database; the check is
    reachability through the links, and an error whenever a row could not be read. What the three statements select is an
    argument.
  \<^item> \<open>Shutdown\<close>, \<open>Shutdown_Spec\<close>: \<^verbatim>\<open>engine/world/shutdown.go\<close> and its commands, the timer that stops the server: it stops with
    the first tick after the delay, the countdown is announced once, and a cancellation that comes between two sections of a
    tick is confirmed and lost. \<open>Server.Stop\<close> is an output of the model.
  \<^item> \<open>Reentrant_Mutex\<close>: \<^verbatim>\<open>engine/scripting/reentrant_mutex.go\<close>, the lock of the Lua state, instruction by instruction under
    any interleaving. \<open>Worker_Pool\<close>: \<^verbatim>\<open>engine/runtime/workers.go\<close>, the tasks of a pool from \<open>Submit\<close> to their end.

  \<^bold>\<open>How the parts meet.\<close> Every packet is written through \<open>Wire\<close> and its readers are instances of the \<open>codec\<close>
  contracts; what is written travels through \<open>Frames\<close>. The interfaces are locales: maps (\<open>go_map\<close>), codecs (\<open>codec\<close>,
  \<open>strict_codec\<close>) and heaps (\<open>heap_interface\<close>), each interpreted on the definitions of the component that provides
  it.

  \<^bold>\<open>Bounds and fuel.\<close> The recursive solvers take fuel, with a theorem that the fuel they are given is enough
  (\<open>lfgCheckGroupRoles_terminates\<close> and the lemmas of \<open>Bg_Matchmaker\<close>); the search through triggered spells terminates
  because each nested call visits an effect not visited before; every other loop is a total function. Sizes written
  in 32 bits are assumed to fit where a theorem says so, and the counter of the timer queue is assumed not to
  wrap, which takes \<open>2 ^ 64\<close> timers.

  \<^bold>\<open>What the model leaves out.\<close>
  \<^item> A \<^verbatim>\<open>float32\<close> is a multiple of \<open>2 ^ (-149)\<close>, rounded to nearest even; overflow saturates at the first value out of
    range. There is no NaN and no negative zero: no operation of the threat list makes one from finite threat. A \<^verbatim>\<open>float64\<close>
    is modelled in the same way with 53 bits.
  \<^item> The clock is read once in a method; the code may read it again a few instructions later.
  \<^item> Receivers that are nil, except where the model has an option for them.
  \<^item> What the database, the table of locations, AES and the resolver answer to the login server is a record of functions,
    another one for each command; a connection is the bytes that will still arrive, the packets written and whether writing
    works. The statements that build those rows from SQL are not modelled.
  \<^item> zlib (\<^verbatim>\<open>compress/zlib\<close>) is a parameter with the hypothesis that decompressing undoes compressing.
  \<^item> A die of a spell effect is an argument. How \<^verbatim>\<open>Store.spell\<close> fills a spell from its table is not modelled: a lookup
    gives the spell. A table is what a function from names gives, so a file that changes on disk is out of scope.
  \<^item> The rest of the spell engine (\<^verbatim>\<open>engine/world/spells.go\<close>), the creature scripts, the session handlers and the database layer
    are not modelled: they work on the whole state of a server and a session at once.
\<close>

end
